(* ===== verification/Prelude.thy ===== *)
theory Prelude
  imports Complex_Main "HOL-Library.AList" "HOL-Library.Sublist"
begin

text \<open>
  The shared runtime of the development: the parts of JavaScript that the modelled sources use.

  \<^item> A JavaScript string is a list of UTF-16 code units, here \<open>int list\<close>. The Japanese characters
    of the sources have names (\<open>c_dai\<close> is the ordinal prefix U+7B2C, \<open>c_jou\<close> is "article" U+6761,
    \<open>c_kou\<close> is "paragraph" U+9805, \<open>c_gou\<close> is "item" U+53F7; \<open>h_\<close> marks hiragana, \<open>p_\<close> marks
    punctuation); every other code unit is written in hexadecimal. ASCII text is \<open>str ''...''\<close>.
  \<^item> \<open>Number.prototype.toString\<close>, \<open>parseInt\<close>, \<open>trim\<close>, \<open>indexOf\<close>, \<open>lastIndexOf\<close>, \<open>includes\<close>,
    \<open>startsWith\<close>, \<open>endsWith\<close>, \<open>substring\<close>, \<open>split\<close>, \<open>join\<close> and \<open>padStart\<close>. Numbers that are
    integers in the sources are mathematical integers: the sources only build them from short digit
    runs, far below 2^53. Confidence scores are rationals.
  \<^item> A \<open>Map\<close> is an association list in insertion order; the laws its clients use are the locale
    \<open>insertion_map\<close>, interpreted on the association-list operations.
  \<^item> \<open>Array.prototype.sort\<close> with a numeric comparator is the stable \<open>sort_key\<close>.
\<close>

section \<open>Collections of rewrite rules\<close>

named_theorems js_defs \<open>definitions of the string runtime, for evaluation\<close>
named_theorems rx_defs \<open>definitions of regular expressions, for evaluation\<close>
named_theorems inv_intros \<open>preservation of invariants\<close>

section \<open>Characters\<close>

type_synonym jschar = int
type_synonym jsstr = "jschar list"

abbreviation c_ichi :: int where "c_ichi \<equiv> 0x4E00"
abbreviation c_ni :: int where "c_ni \<equiv> 0x4E8C"
abbreviation c_san :: int where "c_san \<equiv> 0x4E09"
abbreviation c_yon :: int where "c_yon \<equiv> 0x56DB"
abbreviation c_go :: int where "c_go \<equiv> 0x4E94"
abbreviation c_roku :: int where "c_roku \<equiv> 0x516D"
abbreviation c_nana :: int where "c_nana \<equiv> 0x4E03"
abbreviation c_hachi :: int where "c_hachi \<equiv> 0x516B"
abbreviation c_kyuu :: int where "c_kyuu \<equiv> 0x4E5D"
abbreviation c_juu :: int where "c_juu \<equiv> 0x5341"
abbreviation c_hyaku :: int where "c_hyaku \<equiv> 0x767E"
abbreviation c_sen :: int where "c_sen \<equiv> 0x5343"
abbreviation c_man :: int where "c_man \<equiv> 0x4E07"
abbreviation c_maru :: int where "c_maru \<equiv> 0x3007"
abbreviation c_rei :: int where "c_rei \<equiv> 0x96F6"
abbreviation c_dai :: int where "c_dai \<equiv> 0x7B2C"
abbreviation c_jou :: int where "c_jou \<equiv> 0x6761"
abbreviation c_kou :: int where "c_kou \<equiv> 0x9805"
abbreviation c_gou :: int where "c_gou \<equiv> 0x53F7"
abbreviation c_shou :: int where "c_shou \<equiv> 0x7AE0"
abbreviation c_setsu :: int where "c_setsu \<equiv> 0x7BC0"
abbreviation c_hen :: int where "c_hen \<equiv> 0x7DE8"
abbreviation c_kan :: int where "c_kan \<equiv> 0x6B3E"
abbreviation c_moku :: int where "c_moku \<equiv> 0x76EE"
abbreviation c_zen :: int where "c_zen \<equiv> 0x524D"
abbreviation c_ji :: int where "c_ji \<equiv> 0x6B21"
abbreviation c_dou :: int where "c_dou \<equiv> 0x540C"
abbreviation c_hon :: int where "c_hon \<equiv> 0x672C"
abbreviation c_kaku :: int where "c_kaku \<equiv> 0x5404"
abbreviation c_hou :: int where "c_hou \<equiv> 0x6CD5"
abbreviation c_ritsu :: int where "c_ritsu \<equiv> 0x5F8B"
abbreviation c_rei_order :: int where "c_rei_order \<equiv> 0x4EE4"
abbreviation c_ki :: int where "c_ki \<equiv> 0x898F"
abbreviation c_soku :: int where "c_soku \<equiv> 0x5247"
abbreviation h_no :: int where "h_no \<equiv> 0x306E"
abbreviation h_ka :: int where "h_ka \<equiv> 0x304B"
abbreviation h_ra :: int where "h_ra \<equiv> 0x3089"
abbreviation h_ma :: int where "h_ma \<equiv> 0x307E"
abbreviation h_de :: int where "h_de \<equiv> 0x3067"
abbreviation h_wo :: int where "h_wo \<equiv> 0x3092"
abbreviation h_ni :: int where "h_ni \<equiv> 0x306B"
abbreviation h_ru :: int where "h_ru \<equiv> 0x308B"
abbreviation h_su :: int where "h_su \<equiv> 0x3059"
abbreviation h_ko :: int where "h_ko \<equiv> 0x3053"
abbreviation h_ha :: int where "h_ha \<equiv> 0x306F"
abbreviation h_to :: int where "h_to \<equiv> 0x3068"
abbreviation h_i :: int where "h_i \<equiv> 0x3044"
abbreviation h_u :: int where "h_u \<equiv> 0x3046"
abbreviation h_shi :: int where "h_shi \<equiv> 0x3057"
abbreviation h_ku :: int where "h_ku \<equiv> 0x304F"
abbreviation h_ki :: int where "h_ki \<equiv> 0x304D"
abbreviation h_te :: int where "h_te \<equiv> 0x3066"
abbreviation h_tsu :: int where "h_tsu \<equiv> 0x3064"
abbreviation h_na :: int where "h_na \<equiv> 0x306A"
abbreviation h_wa :: int where "h_wa \<equiv> 0x308F"
abbreviation h_zu :: int where "h_zu \<equiv> 0x305A"
abbreviation h_re :: int where "h_re \<equiv> 0x308C"
abbreviation h_sa :: int where "h_sa \<equiv> 0x3055"
abbreviation h_mo :: int where "h_mo \<equiv> 0x3082"
abbreviation h_mi :: int where "h_mi \<equiv> 0x307F"
abbreviation h_yo :: int where "h_yo \<equiv> 0x3088"
abbreviation h_ri :: int where "h_ri \<equiv> 0x308A"
abbreviation h_e :: int where "h_e \<equiv> 0x3048"
abbreviation h_o :: int where "h_o \<equiv> 0x304A"
abbreviation h_a :: int where "h_a \<equiv> 0x3042"
abbreviation h_ta :: int where "h_ta \<equiv> 0x305F"
abbreviation h_ge :: int where "h_ge \<equiv> 0x3052"
abbreviation h_me :: int where "h_me \<equiv> 0x3081"
abbreviation p_lparen :: int where "p_lparen \<equiv> 0xFF08"
abbreviation p_rparen :: int where "p_rparen \<equiv> 0xFF09"
abbreviation p_lquote :: int where "p_lquote \<equiv> 0x300C"
abbreviation p_rquote :: int where "p_rquote \<equiv> 0x300D"
abbreviation p_ldquote :: int where "p_ldquote \<equiv> 0x300E"
abbreviation p_rdquote :: int where "p_rdquote \<equiv> 0x300F"
abbreviation p_comma :: int where "p_comma \<equiv> 0x3001"
abbreviation p_stop :: int where "p_stop \<equiv> 0x3002"
abbreviation p_wspace :: int where "p_wspace \<equiv> 0x3000"
abbreviation c_jun :: int where "c_jun \<equiv> 0x6E96"
abbreviation c_you :: int where "c_you \<equiv> 0x7528"
abbreviation c_shin :: int where "c_shin \<equiv> 0x65B0"
abbreviation c_kyu_old :: int where "c_kyu_old \<equiv> 0x65E7"
abbreviation c_fu :: int where "c_fu \<equiv> 0x9644"
abbreviation c_betsu :: int where "c_betsu \<equiv> 0x5225"
abbreviation c_hyou :: int where "c_hyou \<equiv> 0x8868"
abbreviation c_tou :: int where "c_tou \<equiv> 0x5F53"
abbreviation c_gai :: int where "c_gai \<equiv> 0x8A72"
abbreviation c_shou_com :: int where "c_shou_com \<equiv> 0x5546"
abbreviation c_min :: int where "c_min \<equiv> 0x6C11"
abbreviation c_kai :: int where "c_kai \<equiv> 0x6539"
abbreviation c_sei :: int where "c_sei \<equiv> 0x6B63"
abbreviation c_go_after :: int where "c_go_after \<equiv> 0x5F8C"
abbreviation c_oyo :: int where "c_oyo \<equiv> 0x53CA"
abbreviation h_bi :: int where "h_bi \<equiv> 0x3073"
abbreviation c_nara :: int where "c_nara \<equiv> 0x4E26"
abbreviation c_mata :: int where "c_mata \<equiv> 0x53C8"
abbreviation c_moshi :: int where "c_moshi \<equiv> 0x82E5"
abbreviation c_tei :: int where "c_tei \<equiv> 0x5B9A"
abbreviation c_kai_meet :: int where "c_kai_meet \<equiv> 0x4F1A"
abbreviation c_sha :: int where "c_sha \<equiv> 0x793E"
abbreviation c_kei :: int where "c_kei \<equiv> 0x5211"

definition str :: "string \<Rightarrow> jsstr" where
  "str s = map of_char s"

lemma str_simps [simp]: "str [] = []" "str (c # s) = of_char c # str s"
  by (simp_all add: str_def)

lemma length_str [simp]: "length (str s) = length s"
  by (simp add: str_def)

lemma str_append: "str (s @ t) = str s @ str t"
  by (simp add: str_def)

definition is_digit :: "jschar \<Rightarrow> bool" where
  "is_digit c \<longleftrightarrow> 0x30 \<le> c \<and> c \<le> 0x39"

text \<open>White space and line terminators of ECMAScript, as \<open>trim\<close>, \<open>parseInt\<close> and \<open>\s\<close> see them.\<close>

definition is_ws :: "jschar \<Rightarrow> bool" where
  "is_ws c \<longleftrightarrow> (0x9 \<le> c \<and> c \<le> 0xD) \<or> c = 0x20 \<or> c = 0xA0 \<or> c = 0x1680 \<or>
     (0x2000 \<le> c \<and> c \<le> 0x200A) \<or> c = 0x2028 \<or> c = 0x2029 \<or> c = 0x202F \<or> c = 0x205F \<or>
     c = 0x3000 \<or> c = 0xFEFF"

lemma digit_not_ws: "is_digit c \<Longrightarrow> \<not> is_ws c"
  by (auto simp: is_digit_def is_ws_def)

section \<open>Strings\<close>

definition trim :: "jsstr \<Rightarrow> jsstr" where
  "trim s = rev (dropWhile is_ws (rev (dropWhile is_ws s)))"

definition starts_with :: "jsstr \<Rightarrow> jsstr \<Rightarrow> bool" where
  "starts_with s p \<longleftrightarrow> take (length p) s = p"

definition ends_with :: "jsstr \<Rightarrow> jsstr \<Rightarrow> bool" where
  "ends_with s p \<longleftrightarrow> starts_with (rev s) (rev p)"

fun index_from :: "nat \<Rightarrow> jsstr \<Rightarrow> jsstr \<Rightarrow> nat option" where
  "index_from i [] p = (if p = [] then Some i else None)"
| "index_from i (c # s) p =
     (if starts_with (c # s) p then Some i else index_from (Suc i) s p)"

text \<open>\<open>indexOf\<close>: \<open>None\<close> is the source's \<open>-1\<close>.\<close>

definition index_of :: "jsstr \<Rightarrow> jsstr \<Rightarrow> nat option" where
  "index_of s p = index_from 0 s p"

fun last_index_from :: "nat \<Rightarrow> jsstr \<Rightarrow> jsstr \<Rightarrow> nat option" where
  "last_index_from i [] p = (if p = [] then Some i else None)"
| "last_index_from i (c # s) p =
     (case last_index_from (Suc i) s p of
        Some j \<Rightarrow> Some j
      | None \<Rightarrow> if starts_with (c # s) p then Some i else None)"

definition last_index_of :: "jsstr \<Rightarrow> jsstr \<Rightarrow> nat option" where
  "last_index_of s p = last_index_from 0 s p"

text \<open>The number the source computes with: \<open>-1\<close> where there is no occurrence.\<close>

definition idx :: "nat option \<Rightarrow> int" where
  "idx r = (case r of None \<Rightarrow> -1 | Some i \<Rightarrow> int i)"

definition str_includes :: "jsstr \<Rightarrow> jsstr \<Rightarrow> bool" where
  "str_includes s p \<longleftrightarrow> index_of s p \<noteq> None"

definition substring :: "jsstr \<Rightarrow> nat \<Rightarrow> nat \<Rightarrow> jsstr" where
  "substring s a b = (let lo = min a b; hi = max a b in take (hi - lo) (drop lo s))"

text \<open>\<open>split\<close> at a one-character separator.\<close>

fun split_char :: "jschar \<Rightarrow> jsstr \<Rightarrow> jsstr list" where
  "split_char d [] = [[]]"
| "split_char d (c # s) =
     (if c = d then [] # split_char d s
      else case split_char d s of [] \<Rightarrow> [[c]] | w # ws \<Rightarrow> (c # w) # ws)"

text \<open>\<open>split\<close> at a non-empty separator: \<open>acc\<close> is the current piece, reversed.\<close>

function split_acc :: "jsstr \<Rightarrow> jsstr \<Rightarrow> jsstr \<Rightarrow> jsstr list" where
  "split_acc d acc [] = [rev acc]"
| "split_acc d acc (c # s) =
     (if d \<noteq> [] \<and> starts_with (c # s) d then rev acc # split_acc d [] (drop (length d) (c # s))
      else split_acc d (c # acc) s)"
  by pat_completeness auto
termination
  by (relation "measure (\<lambda>(d, acc, s). length s)") (auto simp: neq_Nil_conv)

definition split_str :: "jsstr \<Rightarrow> jsstr \<Rightarrow> jsstr list" where
  "split_str d s = split_acc d [] s"

fun join :: "jsstr \<Rightarrow> jsstr list \<Rightarrow> jsstr" where
  "join d [] = []"
| "join d [w] = w"
| "join d (w # ws) = w @ d @ join d ws"

definition pad_start :: "nat \<Rightarrow> jschar \<Rightarrow> jsstr \<Rightarrow> jsstr" where
  "pad_start n c s = replicate (n - length s) c @ s"

section \<open>Numbers\<close>

fun nat_str :: "nat \<Rightarrow> jsstr" where
  "nat_str n = (if n < 10 then [0x30 + int n] else nat_str (n div 10) @ [0x30 + int (n mod 10)])"

declare nat_str.simps [simp del]

definition int_str :: "int \<Rightarrow> jsstr" where
  "int_str i = (if i < 0 then 0x2D # nat_str (nat (- i)) else nat_str (nat i))"

text \<open>The value of a run of decimal digits.\<close>

definition digits_val :: "jsstr \<Rightarrow> nat" where
  "digits_val ds = foldl (\<lambda>a c. 10 * a + nat (c - 0x30)) 0 ds"

text \<open>\<open>parseInt(s, 10)\<close>: \<open>None\<close> is \<open>NaN\<close>.\<close>

definition parse_digits :: "jsstr \<Rightarrow> int option" where
  "parse_digits s = (let ds = takeWhile is_digit s in if ds = [] then None else Some (int (digits_val ds)))"

definition parse_int10 :: "jsstr \<Rightarrow> int option" where
  "parse_int10 s =
     (case dropWhile is_ws s of
        [] \<Rightarrow> None
      | c # t \<Rightarrow> if c = 0x2D then map_option uminus (parse_digits t)
                 else if c = 0x2B then parse_digits t
                 else parse_digits (c # t))"

text \<open>\<open>parseInt(s)\<close> without a radix also reads a hexadecimal literal.\<close>

definition hex_val :: "jschar \<Rightarrow> int option" where
  "hex_val c = (if is_digit c then Some (c - 0x30)
     else if 0x41 \<le> c \<and> c \<le> 0x46 then Some (c - 0x37)
     else if 0x61 \<le> c \<and> c \<le> 0x66 then Some (c - 0x57) else None)"

definition parse_hex :: "jsstr \<Rightarrow> int option" where
  "parse_hex s = (let ds = takeWhile (\<lambda>c. hex_val c \<noteq> None) s
     in if ds = [] then None else Some (foldl (\<lambda>a c. 16 * a + the (hex_val c)) 0 ds))"

definition parse_auto :: "jsstr \<Rightarrow> int option" where
  "parse_auto s = (case s of
       z # x # t \<Rightarrow> if z = 0x30 \<and> (x = 0x78 \<or> x = 0x58) then parse_hex t else parse_digits s
     | _ \<Rightarrow> parse_digits s)"

definition parse_int :: "jsstr \<Rightarrow> int option" where
  "parse_int s =
     (case dropWhile is_ws s of
        [] \<Rightarrow> None
      | c # t \<Rightarrow> if c = 0x2D then map_option uminus (parse_auto t)
                 else if c = 0x2B then parse_auto t
                 else parse_auto (c # t))"

text \<open>Arithmetic and comparison of numbers that may be \<open>NaN\<close> (\<open>None\<close>).\<close>

definition nadd :: "int option \<Rightarrow> int \<Rightarrow> int option" where
  "nadd a k = map_option (\<lambda>x. x + k) a"

definition nsub :: "int option \<Rightarrow> int option \<Rightarrow> int option" where
  "nsub a b = (case (a, b) of (Some x, Some y) \<Rightarrow> Some (x - y) | _ \<Rightarrow> None)"

definition ngt :: "int option \<Rightarrow> int \<Rightarrow> bool" where
  "ngt a k = (case a of None \<Rightarrow> False | Some x \<Rightarrow> k < x)"

definition nle :: "int option \<Rightarrow> int \<Rightarrow> bool" where
  "nle a k = (case a of None \<Rightarrow> False | Some x \<Rightarrow> x \<le> k)"

lemma nan_simps [simp]:
  "nadd None k = None" "nadd (Some x) k = Some (x + k)"
  "nsub (Some x) (Some y) = Some (x - y)" "nsub None b = None" "nsub a None = None"
  "ngt None k = False" "ngt (Some x) k = (k < x)" "nle None k = False" "nle (Some x) k = (x \<le> k)"
  by (auto simp: nadd_def nsub_def ngt_def nle_def split: option.splits)

text \<open>A number used in a template string: \<open>NaN\<close> prints as itself.\<close>

definition num_str :: "int option \<Rightarrow> jsstr" where
  "num_str r = (case r of None \<Rightarrow> str ''NaN'' | Some i \<Rightarrow> int_str i)"

lemmas string_defs [js_defs] =
  trim_def starts_with_def ends_with_def index_of_def last_index_of_def idx_def str_includes_def
  substring_def split_str_def pad_start_def int_str_def digits_val_def parse_digits_def
  parse_int10_def hex_val_def parse_hex_def parse_auto_def parse_int_def num_str_def
  is_digit_def is_ws_def

section \<open>Facts on strings and numbers\<close>

lemma nat_str_nonempty [simp]: "nat_str n \<noteq> []"
  by (subst nat_str.simps) simp

lemma nat_str_digits: "c \<in> set (nat_str n) \<Longrightarrow> is_digit c"
proof (induction n rule: nat_str.induct)
  case (1 n)
  show ?case
  proof (cases "n < 10")
    case True
    with "1.prems" show ?thesis by (simp add: nat_str.simps [of n] is_digit_def)
  next
    case False
    with "1.prems" have "c \<in> set (nat_str (n div 10)) \<or> c = 0x30 + int (n mod 10)"
      by (auto simp: nat_str.simps [of n])
    then show ?thesis using "1.IH" False by (auto simp: is_digit_def)
  qed
qed

lemma digits_val_append: "digits_val (xs @ [c]) = 10 * digits_val xs + nat (c - 0x30)"
  by (simp add: digits_val_def)

lemma digits_val_nat_str [simp]: "digits_val (nat_str n) = n"
proof (induction n rule: nat_str.induct)
  case (1 n)
  show ?case
  proof (cases "n < 10")
    case True
    then show ?thesis by (simp add: nat_str.simps [of n] digits_val_def)
  next
    case False
    then have "digits_val (nat_str n) = 10 * digits_val (nat_str (n div 10)) + n mod 10"
      by (subst nat_str.simps) (simp add: digits_val_append)
    with False "1.IH" show ?thesis by simp
  qed
qed

lemma nat_str_inj [simp]: "nat_str m = nat_str n \<longleftrightarrow> m = n"
  by (metis digits_val_nat_str)

lemma takeWhile_digits [simp]: "takeWhile is_digit (nat_str n) = nat_str n"
  by (simp add: nat_str_digits takeWhile_eq_all_conv)

lemma parse_digits_run:
  assumes "\<forall>c \<in> set ds. is_digit c" and "ds \<noteq> []" and "rest = [] \<or> \<not> is_digit (hd rest)"
  shows "parse_digits (ds @ rest) = Some (int (digits_val ds))"
proof -
  have "takeWhile is_digit rest = []" using assms(3) by (cases rest) auto
  then have "takeWhile is_digit (ds @ rest) = ds" using assms(1) by (simp add: takeWhile_append)
  with assms(2) show ?thesis by (simp add: parse_digits_def)
qed

lemma parse_int10_digits:
  assumes "\<forall>c \<in> set ds. is_digit c" and "ds \<noteq> []"
  shows "parse_int10 ds = Some (int (digits_val ds))"
proof -
  from assms obtain c t where ds: "ds = c # t" and c: "is_digit c" by (cases ds) auto
  then have "dropWhile is_ws ds = c # t" by (simp add: digit_not_ws)
  moreover have "c \<noteq> 0x2D" "c \<noteq> 0x2B" using c by (auto simp: is_digit_def)
  ultimately show ?thesis
    using parse_digits_run [of ds "[]"] assms by (simp add: parse_int10_def ds)
qed

lemma parse_int10_nat_str [simp]: "parse_int10 (nat_str n) = Some (int n)"
  using parse_int10_digits [of "nat_str n"] by (simp add: nat_str_digits)

lemma int_str_nonneg [simp]: "0 \<le> i \<Longrightarrow> int_str i = nat_str (nat i)"
  by (simp add: int_str_def)

lemma parse_int10_int_str [simp]: "parse_int10 (int_str i) = Some i"
proof (cases "i < 0")
  case True
  have "parse_digits (nat_str (nat (- i))) = Some (int (nat (- i)))"
    using parse_digits_run [of "nat_str (nat (- i))" "[]"] by (simp add: nat_str_digits)
  with True show ?thesis by (simp add: int_str_def parse_int10_def is_ws_def)
qed simp

lemma int_str_inj: "int_str i = int_str j \<longleftrightarrow> i = j"
  by (metis option.inject parse_int10_int_str)

lemma parse_int_digits:
  assumes "\<forall>c \<in> set ds. is_digit c" and "ds \<noteq> []"
  shows "parse_int ds = Some (int (digits_val ds))"
proof -
  from assms obtain c t where ds: "ds = c # t" and c: "is_digit c" by (cases ds) auto
  then have "dropWhile is_ws ds = c # t" by (simp add: digit_not_ws)
  moreover have "c \<noteq> 0x2D" "c \<noteq> 0x2B" using c by (auto simp: is_digit_def)
  moreover have "parse_auto ds = parse_digits ds"
    using assms(1) by (auto simp: ds parse_auto_def is_digit_def split: list.splits)
  ultimately show ?thesis
    using parse_digits_run [of ds "[]"] assms by (simp add: parse_int_def ds)
qed

lemma digits_val_zeros: "digits_val (replicate m 0x30 @ s) = digits_val s"
proof -
  have "foldl (\<lambda>a c. 10 * a + nat (c - 0x30)) 0 (replicate m 0x30) = 0" by (induction m) auto
  then show ?thesis by (simp add: digits_val_def)
qed

lemma length_nat_str_le: "length (nat_str n) \<le> Suc k \<longleftrightarrow> n < 10 ^ Suc k"
proof (induction k arbitrary: n)
  case 0
  show ?case by (subst nat_str.simps) simp
next
  case (Suc k)
  have "n div 10 < 10 ^ Suc k \<longleftrightarrow> n < 10 ^ Suc (Suc k)"
    by (simp add: div_less_iff_less_mult mult.commute)
  with Suc [of "n div 10"] show ?case
    by (subst nat_str.simps) (auto simp: less_le_trans [of n 10])
qed

lemma trim_id: "s = [] \<or> \<not> is_ws (hd s) \<and> \<not> is_ws (last s) \<Longrightarrow> trim s = s"
proof (cases s)
  case (Cons a t)
  assume "s = [] \<or> \<not> is_ws (hd s) \<and> \<not> is_ws (last s)"
  with Cons have hd: "dropWhile is_ws s = s" and l: "\<not> is_ws (hd (rev s))" and ne: "rev s \<noteq> []"
    by (auto simp: hd_rev hd_append split: if_splits)
  from l ne have "dropWhile is_ws (rev s) = rev s" by (cases "rev s") auto
  with hd show ?thesis by (simp add: trim_def)
qed (simp add: trim_def)

lemma starts_with_iff: "starts_with s p \<longleftrightarrow> (\<exists>t. s = p @ t)"
  unfolding starts_with_def by (metis append_eq_conv_conj append_take_drop_id)

lemma starts_with_append [simp]: "starts_with (p @ t) p"
  by (simp add: starts_with_def)

lemma length_pad_start: "length (pad_start n c s) = max n (length s)"
  by (simp add: pad_start_def)

lemma split_char_no_sep: "d \<notin> set s \<Longrightarrow> split_char d s = [s]"
  by (induction s) auto

lemma split_char_app: "d \<notin> set p \<Longrightarrow> split_char d (p @ d # s) = p # split_char d s"
  by (induction p) auto

section \<open>Insertion-ordered maps\<close>

text \<open>
  What the clients of a JavaScript \<open>Map\<close> rely on: the laws of look-up after \<open>set\<close> and \<open>delete\<close>, the
  order of the keys (a new key goes last, an old key keeps its place), and the invariant that no key
  occurs twice.
\<close>

locale insertion_map =
  fixes get :: "'m \<Rightarrow> 'k \<Rightarrow> 'v option"
    and put :: "'k \<Rightarrow> 'v \<Rightarrow> 'm \<Rightarrow> 'm"
    and del :: "'k \<Rightarrow> 'm \<Rightarrow> 'm"
    and keys :: "'m \<Rightarrow> 'k list"
    and wf :: "'m \<Rightarrow> bool"
  assumes get_put: "get (put k v m) k' = (if k' = k then Some v else get m k')"
    and get_del: "get (del k m) k' = (if k' = k then None else get m k')"
    and keys_get: "k \<in> set (keys m) \<longleftrightarrow> get m k \<noteq> None"
    and keys_put: "keys (put k v m) = (if get m k = None then keys m @ [k] else keys m)"
    and keys_del: "keys (del k m) = filter (\<lambda>k'. k' \<noteq> k) (keys m)"
    and wf_keys: "wf m \<longleftrightarrow> distinct (keys m)"
begin

lemma wf_put: "wf m \<Longrightarrow> wf (put k v m)"
  using keys_get [of k m] by (auto simp: wf_keys keys_put)

lemma wf_del: "wf m \<Longrightarrow> wf (del k m)"
  by (simp add: wf_keys keys_del)

lemma size_put: "length (keys (put k v m)) = length (keys m) + (if get m k = None then 1 else 0)"
  by (simp add: keys_put)

lemma size_del:
  assumes "wf m"
  shows "length (keys (del k m)) = length (keys m) - (if get m k = None then 0 else 1)"
proof -
  have "filter (\<lambda>k'. k' \<noteq> k) (keys m) = remove1 k (keys m)"
    using assms by (simp add: wf_keys distinct_remove1_removeAll removeAll_filter_not_eq eq_commute)
  then show ?thesis using keys_get [of k m] by (simp add: keys_del length_remove1)
qed

lemma set_keys_put: "set (keys (put k v m)) = insert k (set (keys m))"
  using keys_get [of k m] by (auto simp: keys_put)

lemma set_keys_del: "set (keys (del k m)) = set (keys m) - {k}"
  by (auto simp: keys_del)

end

type_synonym ('k, 'v) jsmap = "('k \<times> 'v) list"

definition map_has :: "('k, 'v) jsmap \<Rightarrow> 'k \<Rightarrow> bool" where
  "map_has m k \<longleftrightarrow> map_of m k \<noteq> None"

definition map_keys :: "('k, 'v) jsmap \<Rightarrow> 'k list" where
  "map_keys m = map fst m"

definition map_wf :: "('k, 'v) jsmap \<Rightarrow> bool" where
  "map_wf m \<longleftrightarrow> distinct (map fst m)"

lemma fst_set_map_of: "k \<in> fst ` set m \<longleftrightarrow> map_of m k \<noteq> None"
  by (simp add: map_of_eq_None_iff)

interpretation jsm: insertion_map map_of AList.update AList.delete map_keys map_wf
proof unfold_locales
  show "k \<in> set (map_keys m) \<longleftrightarrow> map_of m k \<noteq> None" for k :: 'a and m :: "('a, 'b) jsmap"
    by (simp add: map_keys_def fst_set_map_of)
  show "map_keys (AList.update k v m) = (if map_of m k = None then map_keys m @ [k] else map_keys m)"
    for k :: 'a and v :: 'b and m :: "('a, 'b) jsmap"
    by (auto simp: map_keys_def update_keys fst_set_map_of)
  show "map_keys (AList.delete k m) = filter (\<lambda>k'. k' \<noteq> k) (map_keys m)"
    for k :: 'a and m :: "('a, 'b) jsmap"
    by (simp add: map_keys_def delete_keys removeAll_filter_not_eq eq_commute)
qed (auto simp: update_conv' delete_conv' map_wf_def map_keys_def)

lemma map_has_iff: "map_has m k \<longleftrightarrow> k \<in> set (map_keys m)"
  by (simp add: map_has_def jsm.keys_get)

lemma length_map_keys [simp]: "length (map_keys m) = length m"
  by (simp add: map_keys_def)

lemma alist_update_new: "k \<notin> fst ` set m \<Longrightarrow> AList.update k v m = m @ [(k, v)]"
  by (induction m) auto

text \<open>The values that \<open>JSON\<close> can write.\<close>

datatype json = JNull | JBool bool | JNum rat | JStr jsstr | JArr "json list" | JObj "(jsstr \<times> json) list"

section \<open>Tallies\<close>

text \<open>The loop \<open>m[key(x)] = (m[key(x)] || 0) + 1\<close> over a list.\<close>

definition tally :: "('a \<Rightarrow> 'k) \<Rightarrow> 'a list \<Rightarrow> ('k, nat) jsmap" where
  "tally key xs = foldl (\<lambda>m x. AList.update (key x)
     (Suc (case map_of m (key x) of Some n \<Rightarrow> n | None \<Rightarrow> 0)) m) [] xs"

lemma tally_snoc:
  "tally key (xs @ [x]) = AList.update (key x)
     (Suc (case map_of (tally key xs) (key x) of Some n \<Rightarrow> n | None \<Rightarrow> 0)) (tally key xs)"
  by (simp add: tally_def)

lemma tally_of:
  "map_of (tally key xs) k = (let n = length (filter (\<lambda>x. key x = k) xs) in if n = 0 then None else Some n)"
proof (induction xs rule: rev_induct)
  case (snoc x xs)
  then show ?case unfolding tally_snoc by (auto simp: update_conv' Let_def)
qed (simp add: tally_def)

lemma tally_wf: "map_wf (tally key xs)"
proof (induction xs rule: rev_induct)
  case (snoc x xs)
  then show ?case unfolding tally_snoc by (rule jsm.wf_put)
qed (simp add: tally_def map_wf_def)

lemma sum_update:
  "map_wf m \<Longrightarrow> sum_list (map snd (AList.update k v m)) + (case map_of m k of Some n \<Rightarrow> n | None \<Rightarrow> 0) =
     v + sum_list (map snd (m :: ('k, nat) jsmap))"
  by (induction m) (auto simp: map_wf_def map_of_eq_None_iff split: option.splits)

lemma sum_tally: "sum_list (map snd (tally key xs)) = length xs"
proof (induction xs rule: rev_induct)
  case (snoc x xs)
  let ?n = "case map_of (tally key xs) (key x) of Some n \<Rightarrow> n | None \<Rightarrow> 0"
  show ?case unfolding tally_snoc using sum_update [OF tally_wf [of key xs], of "key x" "Suc ?n"] snoc.IH by simp
qed (simp add: tally_def)

section \<open>Lists\<close>

lemma map_of_table: "x \<in> set xs \<Longrightarrow> (\<forall>y \<in> set xs. k y = k x \<longrightarrow> y = x) \<Longrightarrow> map_of (map (\<lambda>y. (k y, f y)) xs) (k x) = Some (f x)"
  by (induction xs) auto

lemma concat_map_hd: "xs = x # ys \<Longrightarrow> f x = z # zs \<Longrightarrow> concat (map f xs) = z # zs @ concat (map f ys)"
  by simp

lemma remove1_distinct_filter: "distinct xs \<Longrightarrow> remove1 x xs = filter (\<lambda>y. y \<noteq> x) xs"
  by (simp add: distinct_remove1_removeAll removeAll_filter_not_eq eq_commute)

lemma map_upto_int: "map f [int a..int b] = map (\<lambda>k. f (int k)) [a..<Suc b]"
  by (rule nth_equalityI) (auto simp del: upt_Suc)

lemma set_subseq: "subseq xs ys \<Longrightarrow> set xs \<subseteq> set ys"
  by (induction rule: list_emb.induct) auto

lemma sorted_wrt_subseq: "subseq xs ys \<Longrightarrow> sorted_wrt R ys \<Longrightarrow> sorted_wrt R xs"
  by (induction rule: list_emb.induct) (auto dest: set_subseq)

text \<open>Of the elements with the same key only the first: the filter with a set of the keys seen so far.\<close>

fun first_by :: "('a \<Rightarrow> 'k) \<Rightarrow> 'k list \<Rightarrow> 'a list \<Rightarrow> 'a list" where
  "first_by key seen [] = []"
| "first_by key seen (x # xs) =
     (if key x \<in> set seen then first_by key seen xs else x # first_by key (key x # seen) xs)"

lemma first_by_sub: "x \<in> set (first_by key seen xs) \<Longrightarrow> x \<in> set xs"
  by (induction key seen xs rule: first_by.induct) (auto split: if_splits)

lemma first_by_keys:
  "distinct (map key (first_by key seen xs)) \<and> key ` set (first_by key seen xs) = key ` set xs - set seen"
  by (induction key seen xs rule: first_by.induct) auto

lemma first_by_set: "set s = set s' \<Longrightarrow> first_by key s xs = first_by key s' xs"
proof (induction xs arbitrary: s s')
  case (Cons x xs)
  show ?case using Cons.prems Cons.IH [of "key x # s" "key x # s'"] Cons.IH [of s s'] by simp
qed simp

lemma first_by_append: "first_by key s (xs @ ys) = first_by key s xs @ first_by key (map key xs @ s) ys"
proof (induction xs arbitrary: s)
  case (Cons x xs)
  have "first_by key (map key xs @ s) ys = first_by key (key x # map key xs @ s) ys" if "key x \<in> set s"
    using that by (intro first_by_set) auto
  moreover have "first_by key (map key xs @ key x # s) ys = first_by key (key x # map key xs @ s) ys"
    by (intro first_by_set) auto
  ultimately show ?case using Cons.IH [of s] Cons.IH [of "key x # s"] by simp
qed simp

lemma first_by_subseq: "subseq (first_by key seen xs) xs"
  by (induction key seen xs rule: first_by.induct) auto

lemma first_by_find:
  "x \<in> set (first_by key seen xs) \<Longrightarrow> find (\<lambda>y. key y = key x) xs = Some x"
proof (induction key seen xs rule: first_by.induct)
  case (2 key seen y ys)
  then have "key x \<notin> set seen" using first_by_keys [of key seen "y # ys"] by blast
  with 2 show ?case using first_by_keys [of key "key y # seen" ys] by (auto split: if_splits)
qed simp

text \<open>\<open>push\<close>, then \<open>shift\<close> when the list is longer than a bound.\<close>

definition push_bounded :: "nat \<Rightarrow> 'a \<Rightarrow> 'a list \<Rightarrow> 'a list" where
  "push_bounded n x xs = (let ys = xs @ [x] in if n < length ys then tl ys else ys)"

lemma length_push_bounded: "length xs \<le> n \<Longrightarrow> length (push_bounded n x xs) \<le> n"
  by (simp add: push_bounded_def Let_def)

section \<open>Runs of operations\<close>

text \<open>
  A component with an invariant: every operation with admissible arguments keeps it. Then every state
  on the way of a sequence of operations has it.
\<close>

locale invariant_machine =
  fixes step :: "'s \<Rightarrow> 'o \<Rightarrow> 's" and inv :: "'s \<Rightarrow> bool" and ok :: "'o \<Rightarrow> bool"
  assumes step_inv: "inv s \<Longrightarrow> ok x \<Longrightarrow> inv (step s x)"
begin

lemma run_inv: "inv s \<Longrightarrow> list_all ok xs \<Longrightarrow> inv (foldl step s xs)"
  by (induction xs arbitrary: s) (auto intro: step_inv)

lemma run_inv_prefix: "inv s \<Longrightarrow> list_all ok xs \<Longrightarrow> inv (foldl step s (take k xs))"
  by (rule run_inv) (auto simp: list_all_iff dest: in_set_takeD)

end

end
