(* ===== verification/JSRegex.thy ===== *)
theory JSRegex
  imports Prelude
begin

text \<open>
  ECMAScript regular expressions, as far as the sources use them: literals, character classes,
  sequences, alternatives, bounded and unbounded greedy and lazy repetition, capture groups, positive
  and negative lookahead, and the anchors.

  \<open>rx n r (s, cs)\<close> lists the ways \<open>r\<close> matches a prefix of the remaining input \<open>s\<close>, in the order in
  which the backtracking matcher of the language standard tries them; each is the remaining input
  after the match and the captures. \<open>n\<close> is the length of the whole input. The first element is the
  match the engine takes. \<open>rep\<close> is the standard's RepeatMatcher: it clears the captures of the body
  before each round, and a round beyond the minimum that consumes nothing fails.

  On top of it: the leftmost match (\<open>rx_match\<close>, for \<open>match\<close> without the global flag), \<open>exec\<close> and
  \<open>test\<close> on a \<open>RegExp\<close> object with its \<open>lastIndex\<close>, the list of all matches (\<open>exec_all\<close>, for the
  \<open>while ((m = re.exec(s)) !== null)\<close> loop and \<open>matchAll\<close>) and \<open>replace\<close> with the global flag.
  \<open>exec_loop\<close> is the loop itself as a relation; a pattern that cannot match the empty string makes
  it end, with exactly the matches of \<open>exec_all\<close>.
\<close>

section \<open>Syntax\<close>

datatype regex =
    REps
  | RLit jsstr
  | RCls bool "(int \<times> int) list"
  | RSeq regex regex
  | RAlt regex regex
  | RRep regex nat "nat option" bool
  | RGrp nat regex
  | RLook bool regex
  | RBol
  | REol

fun rseq :: "regex list \<Rightarrow> regex" where
  "rseq [] = REps"
| "rseq [r] = r"
| "rseq (r # rs) = RSeq r (rseq rs)"

fun ralt :: "regex list \<Rightarrow> regex" where
  "ralt [] = REps"
| "ralt [r] = r"
| "ralt (r # rs) = RAlt r (ralt rs)"

abbreviation rstar :: "regex \<Rightarrow> regex" where "rstar r \<equiv> RRep r 0 None True"
abbreviation rplus :: "regex \<Rightarrow> regex" where "rplus r \<equiv> RRep r (Suc 0) None True"
abbreviation ropt :: "regex \<Rightarrow> regex" where "ropt r \<equiv> RRep r 0 (Some (Suc 0)) True"

text \<open>The character classes of the sources: ASCII and full-width digits, kanji numerals, white space.\<close>

abbreviation rng_digit :: "(int \<times> int) list" where "rng_digit \<equiv> [(0x30, 0x39)]"
abbreviation rng_fullwidth :: "(int \<times> int) list" where "rng_fullwidth \<equiv> [(0xFF10, 0xFF19)]"
abbreviation rng_fwdigit :: "(int \<times> int) list" where "rng_fwdigit \<equiv> [(0xFF10, 0xFF19), (0x30, 0x39)]"
abbreviation rng_eol :: "(int \<times> int) list" where
  "rng_eol \<equiv> [(0xA, 0xA), (0xD, 0xD), (0x2028, 0x2029)]"
abbreviation rng_ws :: "(int \<times> int) list" where
  "rng_ws \<equiv> [(0x9, 0xD), (0x20, 0x20), (0xA0, 0xA0), (0x1680, 0x1680), (0x2000, 0x200A),
     (0x2028, 0x2029), (0x202F, 0x202F), (0x205F, 0x205F), (0x3000, 0x3000), (0xFEFF, 0xFEFF)]"
abbreviation rng_kj2_10 :: "(int \<times> int) list" where
  "rng_kj2_10 \<equiv> [(c_ni, c_ni), (c_san, c_san), (c_yon, c_yon), (c_go, c_go), (c_roku, c_roku),
     (c_nana, c_nana), (c_hachi, c_hachi), (c_kyuu, c_kyuu), (c_juu, c_juu)]"
abbreviation rng_kj9 :: "(int \<times> int) list" where
  "rng_kj9 \<equiv> [(c_ichi, c_ichi), (c_ni, c_ni), (c_san, c_san), (c_yon, c_yon), (c_go, c_go),
     (c_roku, c_roku), (c_nana, c_nana), (c_hachi, c_hachi), (c_kyuu, c_kyuu)]"
abbreviation rng_kj10 :: "(int \<times> int) list" where
  "rng_kj10 \<equiv>
     [(c_ichi, c_ichi), (c_ni, c_ni), (c_san, c_san), (c_yon, c_yon), (c_go, c_go),
      (c_roku, c_roku), (c_nana, c_nana), (c_hachi, c_hachi), (c_kyuu, c_kyuu), (c_juu, c_juu)]"
abbreviation rng_kj1000 :: "(int \<times> int) list" where
  "rng_kj1000 \<equiv>
     [(c_ichi, c_ichi), (c_ni, c_ni), (c_san, c_san), (c_yon, c_yon), (c_go, c_go),
      (c_roku, c_roku), (c_nana, c_nana), (c_hachi, c_hachi), (c_kyuu, c_kyuu), (c_juu, c_juu),
      (c_hyaku, c_hyaku), (c_sen, c_sen)]"
abbreviation rng_kj10000 :: "(int \<times> int) list" where
  "rng_kj10000 \<equiv>
     [(c_ichi, c_ichi), (c_ni, c_ni), (c_san, c_san), (c_yon, c_yon), (c_go, c_go),
      (c_roku, c_roku), (c_nana, c_nana), (c_hachi, c_hachi), (c_kyuu, c_kyuu), (c_juu, c_juu),
      (c_hyaku, c_hyaku), (c_sen, c_sen), (c_man, c_man)]"
abbreviation rng_kjall :: "(int \<times> int) list" where
  "rng_kjall \<equiv>
     [(c_maru, c_maru), (c_rei, c_rei), (c_ichi, c_ichi), (c_ni, c_ni), (c_san, c_san),
      (c_yon, c_yon), (c_go, c_go), (c_roku, c_roku), (c_nana, c_nana), (c_hachi, c_hachi),
      (c_kyuu, c_kyuu), (c_juu, c_juu), (c_hyaku, c_hyaku), (c_sen, c_sen), (c_man, c_man)]"
abbreviation rng_kjd10000 :: "(int \<times> int) list" where
  "rng_kjd10000 \<equiv>
     [(c_ichi, c_ichi), (c_ni, c_ni), (c_san, c_san), (c_yon, c_yon), (c_go, c_go),
      (c_roku, c_roku), (c_nana, c_nana), (c_hachi, c_hachi), (c_kyuu, c_kyuu), (c_juu, c_juu),
      (c_hyaku, c_hyaku), (c_sen, c_sen), (c_man, c_man), (0x30, 0x39)]"
abbreviation rng_kjfw10 :: "(int \<times> int) list" where
  "rng_kjfw10 \<equiv>
     [(0xFF10, 0xFF19), (0x30, 0x39), (c_ichi, c_ichi), (c_ni, c_ni), (c_san, c_san),
      (c_yon, c_yon), (c_go, c_go), (c_roku, c_roku), (c_nana, c_nana), (c_hachi, c_hachi),
      (c_kyuu, c_kyuu), (c_juu, c_juu)]"
abbreviation rng_kjfw10000 :: "(int \<times> int) list" where
  "rng_kjfw10000 \<equiv>
     [(0xFF10, 0xFF19), (0x30, 0x39), (c_ichi, c_ichi), (c_ni, c_ni), (c_san, c_san),
      (c_yon, c_yon), (c_go, c_go), (c_roku, c_roku), (c_nana, c_nana), (c_hachi, c_hachi),
      (c_kyuu, c_kyuu), (c_juu, c_juu), (c_hyaku, c_hyaku), (c_sen, c_sen), (c_man, c_man)]"

section \<open>The backtracking matcher\<close>

type_synonym caps = "(nat \<times> jsstr) list"
type_synonym mstate = "jsstr \<times> caps"

definition in_cls :: "bool \<Rightarrow> (int \<times> int) list \<Rightarrow> jschar \<Rightarrow> bool" where
  "in_cls neg rs c \<longleftrightarrow> (neg \<noteq> list_ex (\<lambda>(lo, hi). lo \<le> c \<and> c \<le> hi) rs)"

fun groups :: "regex \<Rightarrow> nat list" where
  "groups (RSeq a b) = groups a @ groups b"
| "groups (RAlt a b) = groups a @ groups b"
| "groups (RRep r mn mx g) = groups r"
| "groups (RGrp k r) = k # groups r"
| "groups (RLook b r) = groups r"
| "groups _ = []"

definition clear_caps :: "nat list \<Rightarrow> caps \<Rightarrow> caps" where
  "clear_caps gs cs = filter (\<lambda>p. fst p \<notin> set gs) cs"

function rep :: "(mstate \<Rightarrow> mstate list) \<Rightarrow> nat list \<Rightarrow> bool \<Rightarrow> nat \<Rightarrow> nat option \<Rightarrow> mstate \<Rightarrow> mstate list"
where
  "rep m gs g mn mx (s, cs) =
     (if mx = Some 0 then [(s, cs)]
      else
        let more = concat (map (\<lambda>(t, ds).
              if length t < length s \<or> mn \<noteq> 0 \<and> length t = length s
              then rep m gs g (mn - 1) (map_option (\<lambda>k. k - 1) mx) (t, ds) else [])
              (m (s, clear_caps gs cs)))
        in if mn \<noteq> 0 then more else if g then more @ [(s, cs)] else (s, cs) # more)"
  by pat_completeness auto
termination
  by (relation "measure (\<lambda>(m, gs, g, mn, mx, s, cs). mn + length s)") auto

declare rep.simps [simp del]

primrec rx :: "nat \<Rightarrow> regex \<Rightarrow> mstate \<Rightarrow> mstate list" where
  "rx n REps = (\<lambda>st. [st])"
| "rx n (RLit w) = (\<lambda>(s, cs). if starts_with s w then [(drop (length w) s, cs)] else [])"
| "rx n (RCls neg rs) = (\<lambda>(s, cs). case s of [] \<Rightarrow> [] | c # t \<Rightarrow> if in_cls neg rs c then [(t, cs)] else [])"
| "rx n (RSeq a b) = (\<lambda>st. concat (map (rx n b) (rx n a st)))"
| "rx n (RAlt a b) = (\<lambda>st. rx n a st @ rx n b st)"
| "rx n (RRep r mn mx g) = rep (rx n r) (groups r) g mn mx"
| "rx n (RGrp k r) = (\<lambda>(s, cs). map (\<lambda>(t, ds). (t, (k, take (length s - length t) s) # ds)) (rx n r (s, cs)))"
| "rx n (RLook pos r) = (\<lambda>(s, cs). case rx n r (s, cs) of
       [] \<Rightarrow> if pos then [] else [(s, cs)]
     | (t, ds) # _ \<Rightarrow> if pos then [(s, ds)] else [])"
| "rx n RBol = (\<lambda>(s, cs). if length s = n then [(s, cs)] else [])"
| "rx n REol = (\<lambda>(s, cs). if s = [] then [(s, cs)] else [])"

section \<open>Matching\<close>

record rmatch =
  m_index :: nat
  m_text :: jsstr
  m_caps :: caps

text \<open>\<open>match[k]\<close>: \<open>None\<close> is \<open>undefined\<close>.\<close>

definition cap :: "rmatch \<Rightarrow> nat \<Rightarrow> jsstr option" where
  "cap m k = (if k = 0 then Some (m_text m) else map_of (m_caps m) k)"

definition m_end :: "rmatch \<Rightarrow> nat" where
  "m_end m = m_index m + length (m_text m)"

text \<open>A group as it appears in a template string.\<close>

definition grp :: "rmatch \<Rightarrow> nat \<Rightarrow> jsstr" where
  "grp m k = (case cap m k of None \<Rightarrow> str ''undefined'' | Some s \<Rightarrow> s)"

text \<open>The truth value of \<open>match[k]\<close>: neither undefined nor empty.\<close>

definition truthy :: "jsstr option \<Rightarrow> bool" where
  "truthy x \<longleftrightarrow> x \<noteq> None \<and> x \<noteq> Some []"

fun search :: "nat \<Rightarrow> regex \<Rightarrow> nat \<Rightarrow> jsstr \<Rightarrow> rmatch option" where
  "search n r i s =
     (case rx n r (s, []) of
        (t, cs) # _ \<Rightarrow> Some \<lparr>m_index = i, m_text = take (length s - length t) s, m_caps = cs\<rparr>
      | [] \<Rightarrow> (case s of [] \<Rightarrow> None | _ # s' \<Rightarrow> search n r (Suc i) s'))"

declare search.simps [simp del]

definition rx_match :: "regex \<Rightarrow> jsstr \<Rightarrow> rmatch option" where
  "rx_match r s = search (length s) r 0 s"

definition rx_test :: "regex \<Rightarrow> jsstr \<Rightarrow> bool" where
  "rx_test r s \<longleftrightarrow> rx_match r s \<noteq> None"

text \<open>\<open>exec\<close> on a regular expression with the global flag: the match and the new \<open>lastIndex\<close>.\<close>

definition exec :: "regex \<Rightarrow> jsstr \<Rightarrow> nat \<Rightarrow> rmatch option \<times> nat" where
  "exec r s li =
     (if length s < li then (None, 0)
      else case search (length s) r li (drop li s) of
        None \<Rightarrow> (None, 0)
      | Some m \<Rightarrow> (Some m, m_end m))"

definition test_g :: "regex \<Rightarrow> jsstr \<Rightarrow> nat \<Rightarrow> bool \<times> nat" where
  "test_g r s li = (case exec r s li of (m, li') \<Rightarrow> (m \<noteq> None, li'))"

text \<open>The loop \<open>while ((m = re.exec(s)) !== null)\<close> from \<open>lastIndex = li\<close>, when it ends.\<close>

inductive exec_loop :: "regex \<Rightarrow> jsstr \<Rightarrow> nat \<Rightarrow> rmatch list \<Rightarrow> bool" where
  stop: "exec r s li = (None, li') \<Longrightarrow> exec_loop r s li []"
| step: "exec r s li = (Some m, li') \<Longrightarrow> exec_loop r s li' ms \<Longrightarrow> exec_loop r s li (m # ms)"

inductive_cases exec_loopE: "exec_loop r s li ms"

text \<open>
  All matches from \<open>li\<close>: after an empty match the search goes on one character later, as \<open>matchAll\<close>
  and \<open>replace\<close> do.
\<close>

function exec_from :: "regex \<Rightarrow> jsstr \<Rightarrow> nat \<Rightarrow> rmatch list" where
  "exec_from r s li =
     (if length s < li then []
      else case search (length s) r li (drop li s) of
        None \<Rightarrow> []
      | Some m \<Rightarrow>
          if li < m_end m then m # exec_from r s (if m_text m = [] then Suc (m_end m) else m_end m)
          else m # exec_from r s (Suc li))"
  by pat_completeness auto
termination
  by (relation "measure (\<lambda>(r, s, li). Suc (length s) - li)") auto

declare exec_from.simps [simp del]

definition exec_all :: "regex \<Rightarrow> jsstr \<Rightarrow> rmatch list" where
  "exec_all r s = exec_from r s 0"

text \<open>\<open>replace\<close> with the global flag: the text between the matches is kept.\<close>

fun replace_matches :: "(rmatch \<Rightarrow> jsstr) \<Rightarrow> jsstr \<Rightarrow> nat \<Rightarrow> rmatch list \<Rightarrow> jsstr" where
  "replace_matches f s i [] = drop i s"
| "replace_matches f s i (m # ms) =
     take (m_index m - i) (drop i s) @ f m @ replace_matches f s (m_end m) ms"

definition replace_all :: "regex \<Rightarrow> (rmatch \<Rightarrow> jsstr) \<Rightarrow> jsstr \<Rightarrow> jsstr" where
  "replace_all r f s = replace_matches f s 0 (exec_all r s)"

text \<open>\<open>replace\<close> without the global flag.\<close>

definition replace_first :: "regex \<Rightarrow> (rmatch \<Rightarrow> jsstr) \<Rightarrow> jsstr \<Rightarrow> jsstr" where
  "replace_first r f s =
     (case rx_match r s of None \<Rightarrow> s | Some m \<Rightarrow> replace_matches f s 0 [m])"

lemmas regex_defs [rx_defs] =
  in_cls_def clear_caps_def cap_def m_end_def grp_def truthy_def rx_match_def rx_test_def exec_def
  test_g_def exec_all_def replace_all_def replace_first_def
  rep.simps search.simps exec_from.simps


section \<open>What a matcher leaves is a suffix of its input\<close>

lemma rep_cases:
  assumes "(t, ds) \<in> set (rep m gs g mn mx (s, cs))"
  obtains (base) "t = s" "ds = cs" "mn = 0 \<or> mx = Some 0"
  | (round) t' ds' where "mx \<noteq> Some 0" "(t', ds') \<in> set (m (s, clear_caps gs cs))"
      "length t' < length s \<or> mn \<noteq> 0 \<and> length t' = length s"
      "(t, ds) \<in> set (rep m gs g (mn - 1) (map_option (\<lambda>k. k - 1) mx) (t', ds'))"
  using assms by (subst (asm) rep.simps) (auto simp: Let_def split: if_splits)

text \<open>The number of rounds a repetition makes at least.\<close>

definition min_rounds :: "nat \<Rightarrow> nat option \<Rightarrow> nat" where
  "min_rounds mn mx = (case mx of None \<Rightarrow> mn | Some k \<Rightarrow> min mn k)"

lemma min_rounds_step:
  "mx \<noteq> Some 0 \<Longrightarrow> min_rounds mn mx \<le> Suc (min_rounds (mn - 1) (map_option (\<lambda>k. k - 1) mx))"
  by (cases mx) (auto simp: min_rounds_def)

text \<open>
  The contract of a matcher that \<open>rep\<close> iterates: the remaining input is a suffix of the input, at
  least \<open>d\<close> characters shorter. \<open>rx\<close> satisfies it for every regular expression, with \<open>d\<close> the length
  of the shortest match.
\<close>

locale matcher =
  fixes m :: "mstate \<Rightarrow> mstate list" and d :: nat
  assumes m_suffix: "(t, ds) \<in> set (m (s, cs)) \<Longrightarrow> suffix t s"
    and m_shrinks: "(t, ds) \<in> set (m (s, cs)) \<Longrightarrow> length t + d \<le> length s"
begin

lemma rep_suffix:
  "(t, ds) \<in> set (rep m gs g mn mx (s, cs)) \<Longrightarrow>
     suffix t s \<and> length t + min_rounds mn mx * d \<le> length s"
proof (induction "mn + length s" arbitrary: mn mx s cs rule: less_induct)
  case less
  from less.prems show ?case
  proof (cases rule: rep_cases)
    case base
    then show ?thesis by (auto simp: min_rounds_def split: option.splits)
  next
    case (round t' ds')
    let ?k = "min_rounds (mn - 1) (map_option (\<lambda>k. k - 1) mx)"
    from round(3) have "mn - 1 + length t' < mn + length s" by auto
    with less.hyps round(4) have IH: "suffix t t'" "length t + ?k * d \<le> length t'"
      by blast+
    have "min_rounds mn mx * d \<le> ?k * d + d"
      using mult_le_mono1 [OF min_rounds_step [OF round(1), of mn], of d] by simp
    with IH m_suffix [OF round(2)] m_shrinks [OF round(2)] show ?thesis
      by (auto intro: suffix_order.trans)
  qed
qed

text \<open>
  The guard of \<open>rep\<close> is the standard's: a round is refused only when it consumes nothing and the
  minimum is already reached.
\<close>

lemma rep_guard:
  "(t, ds) \<in> set (m (s, cs)) \<Longrightarrow>
     (length t < length s \<or> k \<noteq> 0 \<and> length t = length s) \<longleftrightarrow> \<not> (k = 0 \<and> t = s)"
  using m_suffix [of t ds s cs] by (auto dest: suffix_length_le simp: suffix_def)

end

fun min_len :: "regex \<Rightarrow> nat" where
  "min_len (RLit w) = length w"
| "min_len (RCls neg rs) = 1"
| "min_len (RSeq a b) = min_len a + min_len b"
| "min_len (RAlt a b) = min (min_len a) (min_len b)"
| "min_len (RRep r mn mx g) = min_rounds mn mx * min_len r"
| "min_len (RGrp k r) = min_len r"
| "min_len _ = 0"

lemma rx_matcher: "matcher (rx n r) (min_len r)"
proof (induction r)
  case (RRep r mn mx g)
  then show ?case
    by unfold_locales (auto dest: matcher.rep_suffix [OF RRep])
next
  case (RSeq a b)
  note a = matcher.m_suffix [OF RSeq.IH(1)] matcher.m_shrinks [OF RSeq.IH(1)]
  note b = matcher.m_suffix [OF RSeq.IH(2)] matcher.m_shrinks [OF RSeq.IH(2)]
  show ?case
  proof unfold_locales
    fix t ds s cs
    assume "(t, ds) \<in> set (rx n (RSeq a b) (s, cs))"
    then obtain u us where u: "(u, us) \<in> set (rx n a (s, cs))" "(t, ds) \<in> set (rx n b (u, us))"
      by auto
    from a(1) [OF u(1)] b(1) [OF u(2)] show "suffix t s" by (rule suffix_order.trans [rotated])
    from a(2) [OF u(1)] b(2) [OF u(2)] show "length t + min_len (RSeq a b) \<le> length s" by simp
  qed
next
  case (RAlt a b)
  note a = matcher.m_suffix [OF RAlt.IH(1)] matcher.m_shrinks [OF RAlt.IH(1)]
  note b = matcher.m_suffix [OF RAlt.IH(2)] matcher.m_shrinks [OF RAlt.IH(2)]
  show ?case
    by unfold_locales (auto dest: a b)
next
  case (RGrp k r)
  note r = matcher.m_suffix [OF RGrp.IH] matcher.m_shrinks [OF RGrp.IH]
  show ?case
    by unfold_locales (auto dest: r)
qed (unfold_locales, auto simp: suffix_drop starts_with_iff suffix_Cons split: list.splits if_splits)

interpretation rxm: matcher "rx n r" "min_len r" for n r
  by (rule rx_matcher)

section \<open>The leftmost match\<close>

lemma rx_first:
  assumes "rx n r (s, cs) = (t, ds) # sts"
  shows "s = take (length s - length t) s @ t" "min_len r \<le> length s - length t"
proof -
  from assms have mem: "(t, ds) \<in> set (rx n r (s, cs))" by simp
  from rxm.m_suffix [OF mem] show "s = take (length s - length t) s @ t" by (auto simp: suffix_def)
  from rxm.m_shrinks [OF mem] show "min_len r \<le> length s - length t" by simp
qed

lemma search_here:
  "rx n r (s, []) = (t, cs) # sts \<Longrightarrow>
     search n r i s = Some \<lparr>m_index = i, m_text = take (length s - length t) s, m_caps = cs\<rparr>"
  by (subst search.simps) simp

lemma search_skip: "rx n r (c # s, []) = [] \<Longrightarrow> search n r i (c # s) = search n r (Suc i) s"
  by (subst search.simps) simp

lemma search_sound:
  "search n r i s = Some m \<Longrightarrow>
     \<exists>p t. s = p @ m_text m @ t \<and> m_index m = i + length p \<and> min_len r \<le> length (m_text m)"
proof (induction s arbitrary: i)
  case Nil
  then obtain t cs sts where "rx n r ([], []) = (t, cs) # sts"
    by (subst (asm) search.simps) (auto split: list.splits)
  with Nil rx_first [OF this] show ?case by (auto simp: search_here)
next
  case (Cons c s)
  show ?case
  proof (cases "rx n r (c # s, [])")
    case Nil
    with Cons.prems have "search n r (Suc i) s = Some m" by (simp add: search_skip)
    from Cons.IH [OF this] obtain p t
      where "s = p @ m_text m @ t" "m_index m = Suc i + length p" "min_len r \<le> length (m_text m)"
      by blast
    then show ?thesis by (intro exI [of _ "c # p"] exI [of _ t]) simp
  next
    case first: (Cons st sts)
    obtain t cs where st: "st = (t, cs)" by force
    note r = rx_first [OF first [unfolded st]] search_here [OF first [unfolded st]]
    with Cons.prems have m: "m_text m = take (length (c # s) - length t) (c # s)" "m_index m = i"
      by auto
    with r show ?thesis by (intro exI [of _ "[]"] exI [of _ t]) simp
  qed
qed

lemma exec_sound:
  assumes "exec r s li = (Some m, li')"
  shows "li \<le> m_index m" "take (length (m_text m)) (drop (m_index m) s) = m_text m"
    "m_end m \<le> length s" "li' = m_end m" "min_len r \<le> length (m_text m)"
proof -
  from assms have li: "li \<le> length s" and sr: "search (length s) r li (drop li s) = Some m"
    and fin: "li' = m_end m"
    by (auto simp: exec_def split: if_splits option.splits)
  from search_sound [OF sr] obtain p t where d: "drop li s = p @ m_text m @ t"
    and i: "m_index m = li + length p" and len: "min_len r \<le> length (m_text m)" by blast
  have "length (drop li s) = length p + length (m_text m) + length t" using d by simp
  with li i show "m_end m \<le> length s" by (simp add: m_end_def)
  have "drop (m_index m) s = drop (length p) (drop li s)" using i by (simp add: add.commute)
  with d show "take (length (m_text m)) (drop (m_index m) s) = m_text m" by simp
  show "li \<le> m_index m" using i by simp
  show "li' = m_end m" by (rule fin)
  show "min_len r \<le> length (m_text m)" by (rule len)
qed

lemma exec_Some_le: "exec r s li = (Some m, li') \<Longrightarrow> li \<le> length s"
  by (auto simp: exec_def split: if_splits)

section \<open>All matches\<close>

text \<open>
  The loop in general: it ends exactly when no match is empty. An empty match leaves \<open>lastIndex\<close> where
  it stands, and the next round finds it again.
\<close>

lemma search_again:
  "search n r i s = Some m \<Longrightarrow> i \<le> m_index m \<and> search n r (m_index m) (drop (m_index m - i) s) = Some m"
proof (induction s arbitrary: i)
  case Nil
  then have "m_index m = i" by (simp add: search.simps split: list.splits prod.splits) auto
  with Nil show ?case by simp
next
  case (Cons c s)
  show ?case
  proof (cases "rx n r (c # s, [])")
    case Nil
    with Cons.prems have "search n r (Suc i) s = Some m" by (simp add: search_skip)
    with Cons.IH [of "Suc i"] have le: "Suc i \<le> m_index m"
      and at: "search n r (m_index m) (drop (m_index m - Suc i) s) = Some m" by auto
    from le have "m_index m - i = Suc (m_index m - Suc i)" by simp
    with le at show ?thesis by simp
  next
    case (Cons st sts)
    obtain t cs where "st = (t, cs)" by force
    with Cons have "search n r i (c # s) = Some \<lparr>m_index = i, m_text = take (length (c # s) - length t) (c # s), m_caps = cs\<rparr>"
      by (simp add: search_here)
    with \<open>search n r i (c # s) = Some m\<close> have "m_index m = i" by auto
    with \<open>search n r i (c # s) = Some m\<close> show ?thesis by simp
  qed
qed

lemma exec_again:
  assumes "exec r s li = (Some m, li')" "m_text m = []"
  shows "exec r s li' = (Some m, li')"
proof -
  from exec_sound [OF assms(1)] assms(2) have li: "li' = m_index m" "li' \<le> length s" "li \<le> m_index m" by (auto simp: m_end_def)
  from assms(1) have "search (length s) r li (drop li s) = Some m" by (auto simp: exec_def split: if_splits option.splits)
  with search_again [of "length s" r li "drop li s" m] li have "search (length s) r li' (drop li' s) = Some m" by simp
  with li assms(2) show ?thesis by (simp add: exec_def m_end_def)
qed

lemma exec_stuck: "exec_loop r s li ms \<Longrightarrow> exec r s li \<noteq> (Some m, li)"
  by (induction r s li ms rule: exec_loop.induct) auto

lemma exec_from_None: "exec r s li = (None, li') \<Longrightarrow> exec_from r s li = []"
  by (subst exec_from.simps) (auto simp: exec_def split: if_splits option.splits)

lemma exec_from_Some:
  assumes "exec r s li = (Some m, li')"
  shows "m \<in> set (exec_from r s li)"
    and "m_text m \<noteq> [] \<Longrightarrow> exec_from r s li = m # exec_from r s li' \<and> li < li'"
proof -
  from assms have s: "search (length s) r li (drop li s) = Some m" "\<not> length s < li"
    by (auto simp: exec_def split: if_splits option.splits)
  then show "m \<in> set (exec_from r s li)" by (subst exec_from.simps) simp
  from exec_sound [OF assms] have li: "li' = m_end m" "li \<le> m_index m" by auto
  show "exec_from r s li = m # exec_from r s li' \<and> li < li'" if "m_text m \<noteq> []"
  proof -
    from that li have "li < m_end m" by (cases "m_text m") (auto simp: m_end_def)
    with s li that show ?thesis by (subst exec_from.simps) simp
  qed
qed

lemma exec_loop_iff:
  "exec_loop r s li ms \<longleftrightarrow> ms = exec_from r s li \<and> list_all (\<lambda>m. m_text m \<noteq> []) ms"
proof
  assume "exec_loop r s li ms"
  then show "ms = exec_from r s li \<and> list_all (\<lambda>m. m_text m \<noteq> []) ms"
  proof (induction r s li ms rule: exec_loop.induct)
    case (step r s li m li' ms)
    have "m_text m \<noteq> []" using exec_again [OF step.hyps(1)] exec_stuck [OF step.hyps(2)] by auto
    with step.IH exec_from_Some(2) [OF step.hyps(1)] show ?case by auto
  qed (simp add: exec_from_None)
next
  have "list_all (\<lambda>m. m_text m \<noteq> []) (exec_from r s li) \<Longrightarrow> exec_loop r s li (exec_from r s li)"
  proof (induction "Suc (length s) - li" arbitrary: li rule: less_induct)
    case less
    obtain x li' where x: "exec r s li = (x, li')" by force
    show ?case
    proof (cases x)
      case None
      with x show ?thesis by (simp add: exec_from_None exec_loop.stop)
    next
      case (Some m)
      with x have ex: "exec r s li = (Some m, li')" by simp
      with less.prems have "m_text m \<noteq> []" using exec_from_Some(1) by (auto simp: list_all_iff)
      with exec_from_Some(2) [OF ex] have m: "exec_from r s li = m # exec_from r s li'" "li < li'" by auto
      with less.prems exec_Some_le [OF ex] have "exec_loop r s li' (exec_from r s li')" by (intro less.hyps) auto
      with ex m show ?thesis by (simp add: exec_loop.step)
    qed
  qed
  then show "ms = exec_from r s li \<and> list_all (\<lambda>m. m_text m \<noteq> []) ms \<Longrightarrow> exec_loop r s li ms" by blast
qed

lemma exec_from_consumes: "0 < min_len r \<Longrightarrow> list_all (\<lambda>m. m_text m \<noteq> []) (exec_from r s li)"
proof (induction "Suc (length s) - li" arbitrary: li rule: less_induct)
  case less
  obtain x li' where x: "exec r s li = (x, li')" by force
  show ?case
  proof (cases x)
    case None
    with x show ?thesis by (simp add: exec_from_None)
  next
    case (Some m)
    with x have ex: "exec r s li = (Some m, li')" by simp
    with exec_sound(5) [OF ex] less.prems have "m_text m \<noteq> []" by auto
    with exec_from_Some(2) [OF ex] exec_Some_le [OF ex] less show ?thesis by auto
  qed
qed

text \<open>
  So the loop ends for a pattern that cannot match the empty string, whatever the input.
\<close>

theorem exec_loop_total:
  assumes "0 < min_len r"
  shows "exec_loop r s li ms \<longleftrightarrow> ms = exec_from r s li"
  using exec_from_consumes [OF assms, of s li] by (auto simp: exec_loop_iff)

text \<open>Matches in order: each starts at or after the end of the one before.\<close>

fun matches_from :: "jsstr \<Rightarrow> nat \<Rightarrow> rmatch list \<Rightarrow> bool" where
  "matches_from s i [] = True"
| "matches_from s i (m # ms) =
     (i \<le> m_index m \<and> m_end m \<le> length s \<and>
      take (length (m_text m)) (drop (m_index m) s) = m_text m \<and> matches_from s (m_end m) ms)"

lemma exec_loop_ordered: "exec_loop r s li ms \<Longrightarrow> matches_from s li ms"
  by (induction r s li ms rule: exec_loop.induct) (auto dest: exec_sound)

lemma exec_from_ordered: "0 < min_len r \<Longrightarrow> matches_from s li (exec_from r s li)"
  by (rule exec_loop_ordered [of r]) (simp add: exec_loop_total)

lemma matches_from_member:
  "matches_from s i ms \<Longrightarrow> m \<in> set ms \<Longrightarrow>
     i \<le> m_index m \<and> m_end m \<le> length s \<and> take (length (m_text m)) (drop (m_index m) s) = m_text m"
proof (induction ms arbitrary: i)
  case (Cons a ms)
  show ?case
  proof (cases "m = a")
    case True
    with Cons.prems show ?thesis by simp
  next
    case False
    with Cons.prems have "matches_from s (m_end a) ms" "m \<in> set ms" by auto
    then have "m_end a \<le> m_index m \<and> m_end m \<le> length s \<and>
        take (length (m_text m)) (drop (m_index m) s) = m_text m" by (rule Cons.IH)
    with Cons.prems show ?thesis by (auto simp: m_end_def)
  qed
qed simp

lemma exec_all_member:
  assumes "0 < min_len r" and "m \<in> set (exec_all r s)"
  shows "m_end m \<le> length s" and "take (length (m_text m)) (drop (m_index m) s) = m_text m"
  using matches_from_member [OF exec_from_ordered [OF assms(1)]] assms(2)
  by (auto simp: exec_all_def)

section \<open>A greedy run of a character class\<close>

text \<open>
  On a run of characters of a class that something else follows, the greedy repetition takes the
  whole run first.
\<close>

lemma rx_run:
  assumes "\<forall>c \<in> set ds. in_cls neg rs c" and "rest = [] \<or> \<not> in_cls neg rs (hd rest)"
    and "mn \<le> length ds"
  shows "\<exists>ms. rx n (RRep (RCls neg rs) mn None True) (ds @ rest, cs) = (rest, cs) # ms"
  using assms
proof (induction ds arbitrary: mn)
  case Nil
  then have "rx n (RCls neg rs) (rest, cs) = []" by (cases rest) auto
  with Nil show ?case by (simp add: rep.simps clear_caps_def)
next
  case (Cons c ds)
  from Cons obtain ms where
    "rx n (RRep (RCls neg rs) (mn - 1) None True) (ds @ rest, cs) = (rest, cs) # ms"
    by fastforce
  with Cons.prems show ?case by (auto simp: rep.simps [of _ _ _ mn] clear_caps_def Let_def)
qed


section \<open>Searching past characters that cannot start a match\<close>

lemma search_skip_run:
  "(\<And>c s'. c \<in> set p \<Longrightarrow> rx n r (c # s', []) = []) \<Longrightarrow> search n r i (p @ s) = search n r (i + length p) s"
  by (induction p arbitrary: i) (simp_all add: search_skip)

lemma search_none:
  "(\<And>c s'. c \<in> set p \<Longrightarrow> rx n r (c # s', []) = []) \<Longrightarrow> rx n r ([], []) = [] \<Longrightarrow> search n r i p = None"
  using search_skip_run [of p n r i "[]"] by (simp add: search.simps)

lemma rep_cls_fail:
  "\<not> in_cls neg rs c \<Longrightarrow> rep (rx n (RCls neg rs)) gs g (Suc k) None (c # s, cs) = []"
  by (simp add: rep.simps)

lemma rep_cls_nil: "rep (rx n (RCls neg rs)) gs g (Suc k) None ([], cs) = []"
  by (simp add: rep.simps)

text \<open>Replacing the one run of a class in a string.\<close>

lemma exec_all_run:
  assumes p: "\<forall>c \<in> set p. \<not> in_cls neg rs c" and ds: "\<forall>c \<in> set ds. in_cls neg rs c" "ds \<noteq> []"
    and q: "\<forall>c \<in> set q. \<not> in_cls neg rs c"
  shows "exec_all (rplus (RCls neg rs)) (p @ ds @ q) = [\<lparr>m_index = length p, m_text = ds, m_caps = []\<rparr>]"
proof -
  let ?r = "rplus (RCls neg rs)" and ?s = "p @ ds @ q"
  let ?n = "length ?s" and ?e = "length p + length ds"
  have "q = [] \<or> \<not> in_cls neg rs (hd q)" using q by (cases q) auto
  from rx_run [OF ds(1) this, of "Suc 0" ?n "[]"] ds(2) obtain ms
    where "rx ?n ?r (ds @ q, []) = (q, []) # ms" by (auto simp: neq_Nil_conv)
  then have "search ?n ?r (length p) (ds @ q) = Some \<lparr>m_index = length p, m_text = ds, m_caps = []\<rparr>"
    by (simp add: search_here)
  then have s1: "search ?n ?r 0 ?s = Some \<lparr>m_index = length p, m_text = ds, m_caps = []\<rparr>"
    using p by (subst search_skip_run) (auto simp: rep_cls_fail simp del: rx.simps(3))
  have s2: "search ?n ?r ?e q = None"
    using q by (intro search_none) (auto simp: rep_cls_fail rep_cls_nil simp del: rx.simps(3))
  have "exec_from ?r ?s ?e = []" using s2 by (simp add: exec_from.simps)
  moreover have "0 < min_len ?r" by (simp add: min_rounds_def)
  ultimately show ?thesis using s1 ds(2)
    by (simp add: exec_all_def exec_from.simps [of ?r ?s 0] m_end_def)
qed

lemma exec_all_none:
  assumes "\<forall>c \<in> set s. \<not> in_cls neg rs c"
  shows "exec_all (rplus (RCls neg rs)) s = []"
proof -
  have "search (length s) (rplus (RCls neg rs)) 0 s = None"
    using assms by (intro search_none) (auto simp: rep_cls_fail rep_cls_nil simp del: rx.simps(3))
  then show ?thesis by (simp add: exec_all_def exec_from.simps)
qed

lemma replace_all_run:
  assumes "\<forall>c \<in> set p. \<not> in_cls neg rs c" "\<forall>c \<in> set ds. in_cls neg rs c" "ds \<noteq> []"
    "\<forall>c \<in> set q. \<not> in_cls neg rs c"
  shows "replace_all (rplus (RCls neg rs)) f (p @ ds @ q) =
    p @ f \<lparr>m_index = length p, m_text = ds, m_caps = []\<rparr> @ q"
  by (simp add: replace_all_def exec_all_run [OF assms] m_end_def)

lemma replace_all_none:
  "\<forall>c \<in> set s. \<not> in_cls neg rs c \<Longrightarrow> replace_all (rplus (RCls neg rs)) f s = s"
  by (simp add: replace_all_def exec_all_none)

text \<open>A literal, a captured run of a class, a literal: the shape of most reference patterns.\<close>

lemma rx_framed_run:
  assumes "\<forall>c \<in> set ds. in_cls neg rs c" "ds \<noteq> []" "b \<noteq> []" "\<not> in_cls neg rs (hd b)"
  shows "\<exists>ms. rx n (rseq [RLit a, RGrp k (rplus (RCls neg rs)), RLit b]) (a @ ds @ b @ s, cs)
    = (s, (k, ds) # cs) # ms"
proof -
  from rx_run [OF assms(1), of "b @ s" "Suc 0" n cs] assms obtain ms
    where "rx n (rplus (RCls neg rs)) (ds @ b @ s, cs) = (b @ s, cs) # ms"
    by (auto simp: neq_Nil_conv)
  then show ?thesis by simp
qed

lemma match_framed_run:
  assumes "\<forall>c \<in> set ds. in_cls neg rs c" "ds \<noteq> []" "b \<noteq> []" "\<not> in_cls neg rs (hd b)"
  shows "rx_match (rseq [RLit a, RGrp k (rplus (RCls neg rs)), RLit b]) (a @ ds @ b @ s) =
    Some \<lparr>m_index = 0, m_text = a @ ds @ b, m_caps = [(k, ds)]\<rparr>"
proof -
  let ?n = "length (a @ ds @ b @ s)"
  from rx_framed_run [OF assms, of ?n a k s "[]"] obtain ms where
    "rx ?n (rseq [RLit a, RGrp k (rplus (RCls neg rs)), RLit b]) (a @ ds @ b @ s, [])
      = (s, [(k, ds)]) # ms" by blast
  then show ?thesis by (simp add: rx_match_def search_here del: rseq.simps)
qed


section \<open>What a match consumes and captures\<close>

text \<open>\<open>spells P r\<close>: every character that \<open>r\<close> can consume satisfies \<open>P\<close>.\<close>

fun spells :: "(jschar \<Rightarrow> bool) \<Rightarrow> regex \<Rightarrow> bool" where
  "spells P (RLit w) = list_all P w"
| "spells P (RCls neg rs) = (\<forall>c. in_cls neg rs c \<longrightarrow> P c)"
| "spells P (RSeq a b) = (spells P a \<and> spells P b)"
| "spells P (RAlt a b) = (spells P a \<and> spells P b)"
| "spells P (RRep r mn mx g) = spells P r"
| "spells P (RGrp k r) = spells P r"
| "spells P _ = True"

definition consumed :: "jsstr \<Rightarrow> jsstr \<Rightarrow> jsstr" where
  "consumed s t = take (length s - length t) s"

lemma consumed_append [simp]: "consumed (u @ t) t = u"
  by (simp add: consumed_def)

lemma consumed_trans:
  "suffix u s \<Longrightarrow> suffix t u \<Longrightarrow> consumed s t = consumed s u @ consumed u t"
  by (auto simp: suffix_def consumed_def)

lemma consumed_self [simp]: "consumed s s = []"
  by (simp add: consumed_def)

text \<open>Induction over the rounds of a repetition whose body is a regular expression.\<close>

lemma rep_induct [consumes 1, case_names base round]:
  assumes "(t, ds) \<in> set (rep (rx n r) gs g mn mx (s, cs))"
    and "\<And>s cs. Q s cs s cs"
    and "\<And>s cs u us t ds. (u, us) \<in> set (rx n r (s, clear_caps gs cs)) \<Longrightarrow> suffix u s \<Longrightarrow> suffix t u \<Longrightarrow>
           Q u us t ds \<Longrightarrow> Q s cs t ds"
  shows "Q s cs t ds"
  using assms(1)
proof (induction "mn + length s" arbitrary: mn mx s cs rule: less_induct)
  case less
  from less.prems show ?case
  proof (cases rule: rep_cases)
    case base
    then show ?thesis using assms(2) by simp
  next
    case (round u us)
    from round(3) have "mn - 1 + length u < mn + length s" by auto
    from less.hyps [OF this round(4)] show ?thesis
      using assms(3) [OF round(2)] rxm.m_suffix [OF round(2)] rxm.rep_suffix [OF round(4)] by blast
  qed
qed

lemma rx_look_cases:
  assumes "(t, ds) \<in> set (rx n (RLook pos r) (s, cs))"
  obtains "t = s" "ds = cs" | t' where "t = s" "(t', ds) \<in> set (rx n r (s, cs))"
  using assms by (cases "rx n r (s, cs)") (auto split: if_splits)

lemma rx_seq_cases:
  assumes "(t, ds) \<in> set (rx n (RSeq a b) (s, cs))"
  obtains u us where "(u, us) \<in> set (rx n a (s, cs))" "(t, ds) \<in> set (rx n b (u, us))"
  using assms by auto

lemma rx_grp_cases:
  assumes "(t, ds) \<in> set (rx n (RGrp k r) (s, cs))"
  obtains es where "(t, es) \<in> set (rx n r (s, cs))" "ds = (k, consumed s t) # es" "s = consumed s t @ t"
    "min_len r \<le> length (consumed s t)"
proof -
  from assms obtain es where es: "(t, es) \<in> set (rx n r (s, cs))" "ds = (k, consumed s t) # es"
    by (auto simp: consumed_def)
  moreover from rxm.m_suffix [OF es(1)] have "s = consumed s t @ t" by (auto simp: suffix_def)
  moreover from rxm.m_shrinks [OF es(1)] have "min_len r \<le> length (consumed s t)" by (simp add: consumed_def)
  ultimately show thesis using that by blast
qed

lemma rx_rep_mem:
  "(t, ds) \<in> set (rx n (RRep r mn mx g) (s, cs)) \<Longrightarrow>
     (t, ds) \<in> set (rep (rx n r) (groups r) g mn mx (s, cs))"
  by simp

lemma rx_atom_caps:
  "(t, ds) \<in> set (rx n (RLit w) (s, cs)) \<Longrightarrow> ds = cs \<and> s = w @ t"
  "(t, ds) \<in> set (rx n (RCls neg rs) (s, cs)) \<Longrightarrow> ds = cs \<and> (\<exists>c. s = c # t \<and> in_cls neg rs c)"
  "(t, ds) \<in> set (rx n REps (s, cs)) \<Longrightarrow> ds = cs \<and> s = t"
  "(t, ds) \<in> set (rx n RBol (s, cs)) \<Longrightarrow> ds = cs \<and> s = t"
  "(t, ds) \<in> set (rx n REol (s, cs)) \<Longrightarrow> ds = cs \<and> s = t"
  by (auto simp: starts_with_iff split: list.splits if_splits)

lemma rx_spells:
  "spells P r \<Longrightarrow> (t, ds) \<in> set (rx n r (s, cs)) \<Longrightarrow> list_all P (consumed s t)"
proof (induction r arbitrary: s cs t ds)
  case (RSeq a b)
  from RSeq.prems(2) obtain u us where u: "(u, us) \<in> set (rx n a (s, cs))" "(t, ds) \<in> set (rx n b (u, us))"
    by (rule rx_seq_cases)
  with RSeq.IH(1) [OF _ u(1)] RSeq.IH(2) [OF _ u(2)] RSeq.prems(1) show ?case
    using consumed_trans [OF rxm.m_suffix [OF u(1)] rxm.m_suffix [OF u(2)]] by simp
next
  case (RAlt a b)
  then show ?case by auto
next
  case (RGrp k r)
  then show ?case by auto
next
  case (RRep r mn mx g)
  from rx_rep_mem [OF RRep.prems(2)] show ?case
  proof (induction rule: rep_induct)
    case (round s cs u us t ds)
    with RRep.IH [OF _ round(1)] RRep.prems(1) show ?case
      by (simp add: consumed_trans [OF round(2,3)])
  qed simp
next
  case (RLook pos r)
  from RLook.prems(2) show ?case by (rule rx_look_cases) simp_all
next
  case (RLit w)
  from rx_atom_caps(1) [OF RLit.prems(2)] RLit.prems(1) show ?case by simp
next
  case (RCls neg rs)
  from rx_atom_caps(2) [OF RCls.prems(2)] obtain c where "s = [c] @ t" "in_cls neg rs c" by auto
  with RCls.prems(1) consumed_append [of "[c]" t] show ?case by simp
qed (auto dest: rx_atom_caps(3-5))

text \<open>\<open>grp_all Q k r\<close>: every group numbered \<open>k\<close> in \<open>r\<close> has a body that satisfies \<open>Q\<close>.\<close>

fun grp_all :: "(regex \<Rightarrow> bool) \<Rightarrow> nat \<Rightarrow> regex \<Rightarrow> bool" where
  "grp_all Q k (RSeq a b) = (grp_all Q k a \<and> grp_all Q k b)"
| "grp_all Q k (RAlt a b) = (grp_all Q k a \<and> grp_all Q k b)"
| "grp_all Q k (RRep r mn mx g) = grp_all Q k r"
| "grp_all Q k (RGrp j r) = ((j = k \<longrightarrow> Q r) \<and> grp_all Q k r)"
| "grp_all Q k (RLook b r) = grp_all Q k r"
| "grp_all Q k _ = True"

definition good_cap :: "(jschar \<Rightarrow> bool) \<Rightarrow> nat \<Rightarrow> nat \<Rightarrow> caps \<Rightarrow> bool" where
  "good_cap P d k cs \<longleftrightarrow> (\<forall>v. map_of cs k = Some v \<longrightarrow> list_all P v \<and> d \<le> length v)"

lemma map_of_clear_caps: "map_of (clear_caps gs cs) k = (if k \<in> set gs then None else map_of cs k)"
  by (induction cs) (auto simp: clear_caps_def)

lemma good_cap_clear: "good_cap P d k cs \<Longrightarrow> good_cap P d k (clear_caps gs cs)"
  by (simp add: good_cap_def map_of_clear_caps)

lemma rx_good_cap:
  "grp_all (\<lambda>r. spells P r \<and> d \<le> min_len r) k r \<Longrightarrow> good_cap P d k cs \<Longrightarrow>
     (t, ds) \<in> set (rx n r (s, cs)) \<Longrightarrow> good_cap P d k ds"
proof (induction r arbitrary: s cs t ds)
  case (RRep r mn mx g)
  from rx_rep_mem [OF RRep.prems(3)] RRep.prems(2) show ?case
  proof (induction rule: rep_induct)
    case (round s cs u us t ds)
    from RRep.IH [OF _ good_cap_clear [OF round(5)] round(1)] RRep.prems(1) round(4) show ?case by simp
  qed
next
  case (RGrp j r)
  from RGrp.prems(3) obtain ds' where ds: "ds = (j, consumed s t) # ds'"
    and mem: "(t, ds') \<in> set (rx n r (s, cs))" by (auto simp: consumed_def)
  from RGrp.IH [OF _ RGrp.prems(2) mem] RGrp.prems(1) have "good_cap P d k ds'" by simp
  moreover have "j = k \<Longrightarrow> list_all P (consumed s t) \<and> d \<le> length (consumed s t)"
    using RGrp.prems(1) rx_spells [OF _ mem] rxm.m_shrinks [OF mem] by (auto simp: consumed_def)
  ultimately show ?case by (simp add: ds good_cap_def)
next
  case (RSeq a b)
  from RSeq.prems(3) obtain u us where u: "(u, us) \<in> set (rx n a (s, cs))" "(t, ds) \<in> set (rx n b (u, us))"
    by (rule rx_seq_cases)
  from RSeq.IH(2) [OF _ RSeq.IH(1) [OF _ RSeq.prems(2) u(1)] u(2)] RSeq.prems(1) show ?case by simp
next
  case (RAlt a b)
  from RAlt.prems(3) consider "(t, ds) \<in> set (rx n a (s, cs))" | "(t, ds) \<in> set (rx n b (s, cs))" by auto
  then show ?case
    by cases (use RAlt.prems(1,2) RAlt.IH(1) [of cs t ds s] RAlt.IH(2) [of cs t ds s] in simp_all)
next
  case (RLook pos r)
  from RLook.prems(3) show ?case
    by (rule rx_look_cases) (use RLook.prems RLook.IH in auto)
next
  case (RLit w)
  from rx_atom_caps(1) [OF RLit.prems(3)] RLit.prems(2) show ?case by simp
next
  case (RCls neg rs)
  from rx_atom_caps(2) [OF RCls.prems(3)] RCls.prems(2) show ?case by simp
qed (auto dest: rx_atom_caps(3-5))

text \<open>\<open>captures k r\<close>: a match of \<open>r\<close> always defines group \<open>k\<close>.\<close>

fun captures :: "nat \<Rightarrow> regex \<Rightarrow> bool" where
  "captures k (RSeq a b) = (captures k b \<or> captures k a \<and> k \<notin> set (groups b))"
| "captures k (RAlt a b) = (captures k a \<and> captures k b)"
| "captures k (RGrp j r) = (j = k \<or> captures k r)"
| "captures k _ = False"

lemma rx_keeps:
  "k \<notin> set (groups r) \<Longrightarrow> (t, ds) \<in> set (rx n r (s, cs)) \<Longrightarrow> map_of ds k = map_of cs k"
proof (induction r arbitrary: s cs t ds)
  case (RRep r mn mx g)
  from rx_rep_mem [OF RRep.prems(2)] show ?case
  proof (induction rule: rep_induct)
    case (round s cs u us t ds)
    from RRep.IH [OF _ round(1)] RRep.prems(1) round(4) show ?case
      by (simp add: map_of_clear_caps)
  qed simp
next
  case (RSeq a b)
  from RSeq.prems(2) obtain u us where u: "(u, us) \<in> set (rx n a (s, cs))" "(t, ds) \<in> set (rx n b (u, us))"
    by (rule rx_seq_cases)
  from RSeq.IH(1) [OF _ u(1)] RSeq.IH(2) [OF _ u(2)] RSeq.prems(1) show ?case by simp
next
  case (RAlt a b)
  then show ?case by auto
next
  case (RGrp j r)
  then show ?case by auto
next
  case (RLook pos r)
  from RLook.prems(2) show ?case
    by (rule rx_look_cases) (use RLook.prems RLook.IH in auto)
next
  case (RLit w)
  from rx_atom_caps(1) [OF RLit.prems(2)] show ?case by simp
next
  case (RCls neg rs)
  from rx_atom_caps(2) [OF RCls.prems(2)] show ?case by simp
qed (auto dest: rx_atom_caps(3-5))

lemma rx_captures: "captures k r \<Longrightarrow> (t, ds) \<in> set (rx n r (s, cs)) \<Longrightarrow> map_of ds k \<noteq> None"
proof (induction r arbitrary: s cs t ds)
  case (RSeq a b)
  from RSeq.prems(2) obtain u us where u: "(u, us) \<in> set (rx n a (s, cs))" "(t, ds) \<in> set (rx n b (u, us))"
    by (rule rx_seq_cases)
  from RSeq.prems(1) RSeq.IH(1) [OF _ u(1)] RSeq.IH(2) [OF _ u(2)] rx_keeps [OF _ u(2)] show ?case by auto
qed auto

lemma search_rx:
  "search n r i s = Some m \<Longrightarrow>
     \<exists>s' t. suffix s' s \<and> (t, m_caps m) \<in> set (rx n r (s', [])) \<and> m_text m = take (length s' - length t) s'"
proof (induction s arbitrary: i)
  case Nil
  then obtain t cs sts where "rx n r ([], []) = (t, cs) # sts"
    by (subst (asm) search.simps) (auto split: list.splits)
  with Nil show ?case by (intro exI [of _ "[]"] exI [of _ t]) (auto simp: search_here)
next
  case (Cons c s)
  show ?case
  proof (cases "rx n r (c # s, [])")
    case Nil
    with Cons.prems have "search n r (Suc i) s = Some m" by (simp add: search_skip)
    from Cons.IH [OF this] show ?thesis by (metis suffix_ConsI)
  next
    case (Cons st sts)
    obtain t cs where "st = (t, cs)" by force
    with Cons Cons.prems show ?thesis
      by (intro exI [of _ "c # s"] exI [of _ t]) (auto simp: search_here)
  qed
qed

text \<open>A pattern between the anchors: what it matches is framed by its literals, and a run of the class
  between them is matched and captured.\<close>

lemma match_anchored_frame:
  assumes "rx_match (rseq [RBol, RLit a, r, RLit b, REol]) s = Some m"
  shows "\<exists>u. s = a @ u @ b"
proof -
  let ?n = "length s"
  from search_rx [OF assms [unfolded rx_match_def]] obtain s' t where suf: "suffix s' s"
    and mem: "(t, m_caps m) \<in> set (rx ?n (rseq [RBol, RLit a, r, RLit b, REol]) (s', []))" by blast
  from mem have len: "length s' = ?n" by (auto split: if_splits)
  with suf have s': "s' = s" by (auto simp: suffix_def)
  from mem obtain v vs where s: "starts_with s a" and v: "(v, vs) \<in> set (rx ?n r (drop (length a) s, []))"
    and b: "starts_with v b" "drop (length b) v = []"
    by (auto simp: s' split: if_splits)
  from s have a: "s = a @ drop (length a) s" by (auto simp: starts_with_iff)
  from rxm.m_suffix [OF v] obtain u where "drop (length a) s = u @ v" by (auto simp: suffix_def)
  moreover from b have "v = b" by (auto simp: starts_with_iff)
  ultimately show ?thesis using a by auto
qed

lemma match_anchored_run:
  assumes "\<forall>c \<in> set ds. in_cls neg rs c" "ds \<noteq> []" "b \<noteq> []" "\<not> in_cls neg rs (hd b)"
  shows "rx_match (rseq [RBol, RLit a, RGrp k (rplus (RCls neg rs)), RLit b, REol]) (a @ ds @ b) =
    Some \<lparr>m_index = 0, m_text = a @ ds @ b, m_caps = [(k, ds)]\<rparr>"
proof -
  let ?n = "length (a @ ds @ b)"
  from rx_run [OF assms(1), of b "Suc 0" ?n "[]"] assms obtain ms
    where "rx ?n (rplus (RCls neg rs)) (ds @ b, []) = (b, []) # ms"
    by (auto simp: neq_Nil_conv)
  then have "\<exists>ms. rx ?n (rseq [RBol, RLit a, RGrp k (rplus (RCls neg rs)), RLit b, REol]) (a @ ds @ b, []) =
      ([], [(k, ds)]) # ms"
    by (simp add: starts_with_def)
  then show ?thesis by (auto simp: rx_match_def search_here simp del: rseq.simps)
qed

lemma search_cap:
  assumes "search n r i s = Some m" "captures k r" "grp_all (\<lambda>r. spells P r \<and> d \<le> min_len r) k r" "k \<noteq> 0"
  shows "\<exists>v. cap m k = Some v \<and> list_all P v \<and> d \<le> length v"
proof -
  from search_rx [OF assms(1)] obtain s' t where mem: "(t, m_caps m) \<in> set (rx n r (s', []))" by blast
  have "good_cap P d k (m_caps m)"
    by (rule rx_good_cap [OF assms(3) _ mem]) (simp add: good_cap_def)
  with rx_captures [OF assms(2) mem] assms(4) show ?thesis
    by (auto simp: cap_def good_cap_def)
qed

lemmas rx_match_cap = search_cap [of "length s" r 0 s for s r, folded rx_match_def]

lemma exec_from_search:
  "m \<in> set (exec_from r s li) \<Longrightarrow> \<exists>i. search (length s) r i (drop i s) = Some m"
proof (induction r s li rule: exec_from.induct)
  case (1 r s li)
  note unf = exec_from.simps [of r s li]
  from "1.prems" have le: "\<not> length s < li" by (auto simp: unf)
  with "1.prems" obtain m' where m': "search (length s) r li (drop li s) = Some m'"
    by (cases "search (length s) r li (drop li s)") (auto simp: unf)
  let ?next = "if m_text m' = [] then Suc (m_end m') else m_end m'"
  show ?case
  proof (cases "li < m_end m'")
    case True
    with "1.prems" le m' have "m = m' \<or> m \<in> set (exec_from r s ?next)"
      by (auto simp: unf split: if_splits)
    with "1.IH"(1) [OF le m' True] m' show ?thesis by blast
  next
    case False
    with "1.prems" le m' have "m = m' \<or> m \<in> set (exec_from r s (Suc li))"
      by (auto simp: unf)
    with "1.IH"(2) [OF le m' False] m' show ?thesis by blast
  qed
qed

lemma exec_all_cap:
  assumes "m \<in> set (exec_all r s)" "captures k r" "grp_all (\<lambda>r. spells P r \<and> d \<le> min_len r) k r" "k \<noteq> 0"
  shows "\<exists>v. cap m k = Some v \<and> list_all P v \<and> d \<le> length v"
  using exec_from_search [of m r s 0] search_cap assms unfolding exec_all_def by blast

section \<open>Counted classes and anchored tests\<close>

lemma clear_caps_nil [simp]: "clear_caps [] cs = cs"
  by (simp add: clear_caps_def)

lemma rep_cls_exact:
  "rep (rx n (RCls neg rs)) [] g k (Some k) (s, cs) =
     (if k \<le> length s \<and> list_all (in_cls neg rs) (take k s) then [(drop k s, cs)] else [])"
proof (induction k arbitrary: s)
  case 0
  show ?case by (simp add: rep.simps)
next
  case (Suc k)
  then show ?case by (cases s) (simp_all add: rep.simps [of _ _ _ "Suc k"])
qed

lemma rep_cls_step:
  "rep (rx n (RCls neg rs)) [] True k None (c # s, cs) =
     (if in_cls neg rs c then rep (rx n (RCls neg rs)) [] True (k - 1) None (s, cs) else []) @
     (if k = 0 then [(c # s, cs)] else [])"
  by (simp add: rep.simps [of _ _ _ k])

lemma rep_cls_stop: "rep (rx n (RCls neg rs)) [] True k None ([], cs) = (if k = 0 then [([], cs)] else [])"
  by (simp add: rep.simps)

lemma rep_cls_mem:
  "list_all (in_cls neg rs) ds \<Longrightarrow> k \<le> length ds \<Longrightarrow>
     (rest, cs) \<in> set (rep (rx n (RCls neg rs)) [] True k None (ds @ rest, cs))"
proof (induction ds arbitrary: k)
  case Nil
  then show ?case by (cases rest) (simp_all add: rep_cls_step rep_cls_stop del: rx.simps)
next
  case (Cons c ds)
  then have "(rest, cs) \<in> set (rep (rx n (RCls neg rs)) [] True (k - 1) None (ds @ rest, cs))"
    by (intro Cons.IH) auto
  with Cons.prems show ?case by (simp add: rep_cls_step del: rx.simps)
qed

lemma rep_cls_eol:
  "concat (map (rx n REol) (rep (rx n (RCls neg rs)) [] True k None (s, cs))) =
     (if k \<le> length s \<and> list_all (in_cls neg rs) s then [([], cs)] else [])"
proof (induction s arbitrary: k)
  case Nil
  show ?case by (simp add: rep_cls_stop del: rx.simps(3))
next
  case (Cons c s)
  have "rx n REol (c # s, cs) = []" by simp
  then show ?case
    using Cons [of "k - 1"] by (auto simp: rep_cls_step simp del: rx.simps(3,10))
qed

lemma search_bol_none: "length t < n \<Longrightarrow> search n (RSeq RBol r) i t = None"
  by (induction t arbitrary: i) (simp_all add: search.simps)

lemma rx_test_anchored: "rx_test (RSeq RBol r) s \<longleftrightarrow> rx (length s) r (s, []) \<noteq> []"
proof (cases "rx (length s) r (s, [])")
  case Nil
  then have "rx_match (RSeq RBol r) s = None"
    by (cases s) (simp_all add: rx_match_def search.simps [of _ _ 0] search_bol_none)
  with Nil show ?thesis by (simp add: rx_test_def)
next
  case (Cons st sts)
  obtain t cs where "st = (t, cs)" by force
  with Cons show ?thesis by (simp add: rx_test_def rx_match_def search_here)
qed

lemma rx_cls_exact:
  "rx n (RRep (RCls neg rs) k (Some k) g) (s, cs) =
     (if k \<le> length s \<and> list_all (in_cls neg rs) (take k s) then [(drop k s, cs)] else [])"
  by (simp add: rep_cls_exact del: rx.simps(3))

lemma rx_cls_eol:
  "rx n (RSeq (rplus (RCls neg rs)) REol) (s, cs) =
     (if s \<noteq> [] \<and> list_all (in_cls neg rs) s then [([], cs)] else [])"
  using rep_cls_eol [of n neg rs 1 s cs] by (simp add: Suc_le_eq del: rx.simps(3,10))

section \<open>Detectors\<close>

text \<open>The loop on a pattern that may match the empty string: an empty match leaves \<open>lastIndex\<close> where it is, and
  the next round finds the same match again, for ever.\<close>

definition exec_while :: "regex \<Rightarrow> jsstr \<Rightarrow> rmatch list option" where
  "exec_while r s = (if list_ex (\<lambda>m. m_text m = []) (exec_all r s) then None else Some (exec_all r s))"

text \<open>\<open>exec_while\<close> is the loop of the source: it has a value exactly when the loop ends, and then that one.\<close>

lemma exec_while_loop: "exec_while r s = Some ms \<longleftrightarrow> exec_loop r s 0 ms"
  by (auto simp: exec_while_def exec_loop_iff exec_all_def list_all_iff list_ex_iff)

lemma exec_while_consumes: "0 < min_len r \<Longrightarrow> exec_while r s = Some (exec_all r s)"
  by (simp add: exec_while_loop exec_loop_total exec_all_def)

text \<open>What every detector of this program promises of its results: the text of a result stands in the input,
  at the position that the result records.\<close>

definition occurs_at :: "jsstr \<Rightarrow> nat \<Rightarrow> jsstr \<Rightarrow> bool" where
  "occurs_at s p t \<longleftrightarrow> p + length t \<le> length s \<and> take (length t) (drop p s) = t"

lemma exec_all_occurs: "0 < min_len r \<Longrightarrow> m \<in> set (exec_all r s) \<Longrightarrow> occurs_at s (m_index m) (m_text m)"
  using exec_all_member [of r m s] by (simp add: occurs_at_def m_end_def)

lemma occurs_at_split: "occurs_at s p t \<longleftrightarrow> (\<exists>a b. s = a @ t @ b \<and> length a = p)"
proof
  assume occ: "occurs_at s p t"
  then have "drop p s = t @ drop (length t) (drop p s)"
    unfolding occurs_at_def by (metis append_take_drop_id)
  then have "s = take p s @ t @ drop (length t) (drop p s)" by (metis append_take_drop_id)
  moreover have "length (take p s) = p" using occ by (simp add: occurs_at_def)
  ultimately show "\<exists>a b. s = a @ t @ b \<and> length a = p" by blast
qed (auto simp: occurs_at_def)

lemma index_from_occurs: "index_from i (a @ t @ b) t \<noteq> None"
proof (induction a arbitrary: i)
  case Nil
  have "starts_with (t @ b) t" by simp
  then show ?case by (cases "t @ b") (simp_all del: starts_with_append)
qed auto

text \<open>The words that every match of a pattern contains.\<close>

fun needs :: "jsstr list \<Rightarrow> regex \<Rightarrow> bool" where
  "needs ws (RLit w) = list_ex (\<lambda>v. sublist v w) ws"
| "needs ws (RSeq a b) = (needs ws a \<or> needs ws b)"
| "needs ws (RAlt a b) = (needs ws a \<and> needs ws b)"
| "needs ws (RRep r mn mx g) = (0 < min_rounds mn mx \<and> needs ws r)"
| "needs ws (RGrp k r) = needs ws r"
| "needs ws _ = False"

lemma rx_needs:
  "needs ws r \<Longrightarrow> (t, ds) \<in> set (rx n r (s, cs)) \<Longrightarrow> \<exists>w \<in> set ws. sublist w (consumed s t)"
proof (induction r arbitrary: s cs t ds)
  case (RLit w)
  then show ?case using rx_atom_caps(1) [OF RLit.prems(2)] by (auto simp: list_ex_iff simp del: rx.simps)
next
  case (RSeq a b)
  from RSeq.prems(2) obtain u us where u: "(u, us) \<in> set (rx n a (s, cs))" "(t, ds) \<in> set (rx n b (u, us))"
    by (rule rx_seq_cases)
  then have "consumed s t = consumed s u @ consumed u t" by (intro consumed_trans rxm.m_suffix)
  with RSeq.prems(1) RSeq.IH(1) [OF _ u(1)] RSeq.IH(2) [OF _ u(2)] show ?case
    by (auto simp: sublist_append)
next
  case (RAlt a b)
  then show ?case by auto
next
  case (RRep r mn mx g)
  from rx_rep_mem [OF RRep.prems(2)] show ?case
  proof (cases rule: rep_cases)
    case base
    then show ?thesis using RRep.prems(1) by (auto simp: min_rounds_def split: option.splits)
  next
    case (round u us)
    then have "consumed s t = consumed s u @ consumed u t"
      by (intro consumed_trans rxm.m_suffix [OF round(2)] conjunct1 [OF rxm.rep_suffix [OF round(4)]])
    with RRep.IH [OF _ round(2)] RRep.prems(1) show ?thesis by (auto simp: sublist_append)
  qed
next
  case (RGrp k r)
  from RGrp.prems(2) obtain es where "(t, es) \<in> set (rx n r (s, cs))" by (rule rx_grp_cases)
  with RGrp show ?case by simp
qed auto

lemma sublist_includes: "sublist w s \<Longrightarrow> str_includes s w"
  using index_from_occurs by (auto simp: sublist_def str_includes_def index_of_def)

lemma exec_all_needs:
  assumes "needs ws g" "list_all (\<lambda>w. \<not> str_includes s w) ws"
  shows "exec_all g s = []"
proof (rule ccontr)
  assume "exec_all g s \<noteq> []"
  then obtain m where "m \<in> set (exec_all g s)" by (cases "exec_all g s") auto
  then obtain i where "search (length s) g i (drop i s) = Some m" using exec_from_search unfolding exec_all_def by blast
  from search_rx [OF this] obtain s' t where s': "suffix s' (drop i s)" and "(t, m_caps m) \<in> set (rx (length s) g (s', []))"
    by blast
  then obtain w where w: "w \<in> set ws" "sublist w (consumed s' t)" using rx_needs [OF assms(1)] by blast
  have "sublist (consumed s' t) s'" by (simp add: consumed_def)
  moreover have "sublist s' s" using suffix_imp_sublist [OF suffix_order.trans [OF s' suffix_drop]] .
  ultimately have "sublist (consumed s' t) s" by (rule sublist_order.order.trans)
  from sublist_includes [OF sublist_order.order.trans [OF w(2) this]] have "str_includes s w" .
  with w(1) assms(2) show False by (simp add: list_all_iff)
qed

locale located_detector =
  fixes detect :: "jsstr \<Rightarrow> 'r list" and text_of :: "'r \<Rightarrow> jsstr" and pos_of :: "'r \<Rightarrow> nat"
  assumes located: "r \<in> set (detect s) \<Longrightarrow> occurs_at s (pos_of r) (text_of r)"
begin

lemma detected_substring:
  "r \<in> set (detect s) \<Longrightarrow> substring s (pos_of r) (pos_of r + length (text_of r)) = text_of r"
  using located [of r s] by (simp add: occurs_at_def substring_def)

lemma detected_includes: "r \<in> set (detect s) \<Longrightarrow> str_includes s (text_of r)"
  using located [of r s] index_from_occurs by (auto simp: occurs_at_split str_includes_def index_of_def)

lemma detected_before_end: "r \<in> set (detect s) \<Longrightarrow> text_of r \<noteq> [] \<Longrightarrow> pos_of r < length s"
  using located [of r s] by (auto simp: occurs_at_split)

end

end
