(* ===== verification/ArticleNormalizer.thy ===== *)
theory ArticleNormalizer
  imports JSRegex
begin

text \<open>
  \<^verbatim>\<open>src/utils/article-normalizer.ts\<close>: article numbers in their numeric form ("90", stored) and their
  display form ("dai 90 jou", shown), from Arabic or kanji numerals. A number that the source
  computes with \<open>parseInt\<close> is an \<open>int option\<close>, \<open>None\<close> for \<open>NaN\<close>; the lemmas show that it is never
  \<open>NaN\<close> here. Numbers are exact integers, which the source's doubles are up to 2 ^ 53; article numbers
  have a few digits. The local variable \<open>lastUnit\<close> of the source is written and never read; it has no
  counterpart.
\<close>

section \<open>The code\<close>

record NormalizedArticle =
  numeric :: jsstr
  display :: jsstr
  original :: jsstr
  value_num :: "int option"

definition kanjiDigits :: "(jschar \<times> int) list" where
  "kanjiDigits = [(c_maru, 0), (c_rei, 0), (c_ichi, 1), (c_ni, 2), (c_san, 3), (c_yon, 4), (c_go, 5),
     (c_roku, 6), (c_nana, 7), (c_hachi, 8), (c_kyuu, 9)]"

definition kanjiUnits :: "(jschar \<times> int) list" where
  "kanjiUnits = [(c_juu, 10), (c_hyaku, 100), (c_sen, 1000), (c_man, 10000)]"

text \<open>One round of the loop over the characters of a kanji numeral: \<open>(result, current)\<close>.\<close>

fun kanji_step :: "int \<times> int \<Rightarrow> jschar \<Rightarrow> int \<times> int" where
  "kanji_step (result, current) c =
     (case map_of kanjiDigits c of
        Some d \<Rightarrow> (result, d)
      | None \<Rightarrow> (case map_of kanjiUnits c of
          Some u \<Rightarrow> (result + (if current = 0 then 1 else current) * u, 0)
        | None \<Rightarrow> (result, current)))"

definition kanji_run_value :: "jsstr \<Rightarrow> int" where
  "kanji_run_value s = (case foldl kanji_step (0, 0) s of (result, current) \<Rightarrow> result + current)"

definition convertKanjiToNumber :: "jsstr \<Rightarrow> jsstr" where
  "convertKanjiToNumber kanjiStr =
     replace_all (rplus (RCls False rng_kjall)) (\<lambda>m. int_str (kanji_run_value (m_text m))) kanjiStr"

definition article_patterns :: "regex list" where
  "article_patterns =
     [(rseq [RLit [c_dai], RGrp 1 (rplus (RCls False rng_digit)), RLit [c_jou]]),
      (rseq [RBol, RGrp 1 (rplus (RCls False rng_digit)), RLit [c_jou], REol]),
      (rseq [RBol, RGrp 1 (rplus (RCls False rng_digit)), REol]),
      (rseq [RCls False [(0x61, 0x61), (0x41, 0x41)], RCls False [(0x72, 0x72), (0x52, 0x52)], RCls False [(0x74, 0x74), (0x54, 0x54)], RCls False [(0x69, 0x69), (0x49, 0x49)], RCls False [(0x63, 0x63), (0x43, 0x43)], RCls False [(0x6C, 0x6C), (0x4C, 0x4C)], RCls False [(0x65, 0x65), (0x45, 0x45)], rstar (RCls False rng_ws), RGrp 1 (rplus (RCls False rng_digit))])]"

fun first_capture :: "regex list \<Rightarrow> jsstr \<Rightarrow> jsstr option" where
  "first_capture [] s = None"
| "first_capture (p # ps) s =
     (case rx_match p s of Some m \<Rightarrow> cap m 1 | None \<Rightarrow> first_capture ps s)"

definition article_display :: "jsstr \<Rightarrow> jsstr" where
  "article_display n = [c_dai] @ n @ [c_jou]"

definition normalizeArticleNumber :: "jsstr \<Rightarrow> NormalizedArticle" where
  "normalizeArticleNumber articleText =
     (if articleText = [] then \<lparr>numeric = [], display = [], original = [], value_num = Some 0\<rparr>
      else
        let normalized = convertKanjiToNumber articleText;
            found = first_capture article_patterns normalized;
            found = (if truthy found then found
                     else case rx_match (RGrp 1 (rplus (RCls False rng_digit))) normalized of
                       Some m \<Rightarrow> cap m 1 | None \<Rightarrow> None)
        in case found of
             Some numericStr \<Rightarrow>
               \<lparr>numeric = numericStr, display = article_display numericStr, original = articleText,
                value_num = parse_int10 numericStr\<rparr>
           | None \<Rightarrow>
               \<lparr>numeric = [], display = articleText, original = articleText, value_num = Some 0\<rparr>)"

definition normalizeArticleNumbers :: "jsstr list \<Rightarrow> NormalizedArticle list" where
  "normalizeArticleNumbers articles = map normalizeArticleNumber articles"

definition toDisplayFormat :: "jsstr \<Rightarrow> jsstr" where
  "toDisplayFormat articleNum =
     (if articleNum = [] then [] else display (normalizeArticleNumber articleNum))"

definition toNumericFormat :: "jsstr \<Rightarrow> jsstr" where
  "toNumericFormat articleNum =
     (if articleNum = [] then [] else numeric (normalizeArticleNumber articleNum))"

definition compareArticleNumbers :: "jsstr \<Rightarrow> jsstr \<Rightarrow> int option" where
  "compareArticleNumbers a b =
     nsub (value_num (normalizeArticleNumber a)) (value_num (normalizeArticleNumber b))"

definition isValidArticleNumber :: "jsstr \<Rightarrow> bool" where
  "isValidArticleNumber articleNum = ngt (value_num (normalizeArticleNumber articleNum)) 0"

text \<open>The counting loop of the source runs from the first number to the last, inclusive.\<close>

definition generateArticleRange :: "jsstr \<Rightarrow> jsstr \<Rightarrow> jsstr list" where
  "generateArticleRange start endNum =
     (let a = value_num (normalizeArticleNumber start); b = value_num (normalizeArticleNumber endNum)
      in if nle a 0 \<or> nle b 0 then []
         else case (a, b) of
             (Some i, Some j) \<Rightarrow> map (\<lambda>k. article_display (int_str k)) [i..j]
           | _ \<Rightarrow> [])"

fun collect_new :: "jsstr list \<Rightarrow> NormalizedArticle list \<Rightarrow> NormalizedArticle list" where
  "collect_new seen [] = []"
| "collect_new seen (a # as) =
     (if numeric a \<in> set seen then collect_new seen as
      else a # collect_new (numeric a # seen) as)"

definition extractArticleNumbers :: "jsstr \<Rightarrow> NormalizedArticle list" where
  "extractArticleNumbers text =
     collect_new [] (map (\<lambda>m. normalizeArticleNumber (m_text m)) (exec_all (rseq [RLit [c_dai], RGrp 1 (rplus (RCls False rng_digit)), RLit [c_jou]]) text))"

record RelativeTarget =
  rt_article :: jsstr
  rt_paragraph :: "int option"

text \<open>The optional parameter \<open>currentParagraph\<close> is tested for truth: absent and 0 are both false.\<close>

definition resolveRelativeReference :: "jsstr \<Rightarrow> jsstr \<Rightarrow> int option \<Rightarrow> RelativeTarget option" where
  "resolveRelativeReference referenceText currentArticle currentParagraph =
     (let currentNorm = normalizeArticleNumber currentArticle;
          v = value_num currentNorm;
          para = (case currentParagraph of None \<Rightarrow> 0 | Some p \<Rightarrow> p)
      in if referenceText = [c_zen, c_jou] then
           (if ngt v 1 then Some \<lparr>rt_article = article_display (num_str (nadd v (-1))), rt_paragraph = None\<rparr>
            else None)
         else if referenceText = [c_ji, c_jou] then
           Some \<lparr>rt_article = article_display (num_str (nadd v 1)), rt_paragraph = None\<rparr>
         else if referenceText = [c_zen, c_kou] \<and> para \<noteq> 0 then
           (if 1 < para then Some \<lparr>rt_article = display currentNorm, rt_paragraph = Some (para - 1)\<rparr>
            else None)
         else if referenceText = [c_ji, c_kou] \<and> para \<noteq> 0 then
           Some \<lparr>rt_article = display currentNorm, rt_paragraph = Some (para + 1)\<rparr>
         else if referenceText = [c_dou, c_jou] then
           Some \<lparr>rt_article = display currentNorm, rt_paragraph = None\<rparr>
         else None)"

section \<open>Kanji numerals\<close>

text \<open>
  The reference encoding: the way Japanese legislation writes a positive number below 100000. A
  digit of 1 is written before \<open>c_man\<close> and at the units, and left out before the other units.
\<close>

definition kanji_digit :: "nat \<Rightarrow> jschar" where
  "kanji_digit d = [c_maru, c_ichi, c_ni, c_san, c_yon, c_go, c_roku, c_nana, c_hachi, c_kyuu] ! d"

definition kanji_place :: "nat \<Rightarrow> jschar \<Rightarrow> jsstr" where
  "kanji_place d u = (if d = 0 then [] else if d = 1 then [u] else [kanji_digit d, u])"

definition kanji_of_nat :: "nat \<Rightarrow> jsstr" where
  "kanji_of_nat n =
     (if n div 10000 = 0 then [] else [kanji_digit (n div 10000), c_man]) @
     kanji_place (n div 1000 mod 10) c_sen @ kanji_place (n div 100 mod 10) c_hyaku @
     kanji_place (n div 10 mod 10) c_juu @ (if n mod 10 = 0 then [] else [kanji_digit (n mod 10)])"


lemma kanji_digit_val: "d < 10 \<Longrightarrow> map_of kanjiDigits (kanji_digit d) = Some (int d)"
proof -
  have "\<forall>d \<in> set [0..<10]. map_of kanjiDigits (kanji_digit d) = Some (int d)" by code_simp
  then show "d < 10 \<Longrightarrow> ?thesis" by simp
qed

lemma kanji_units_val [simp]:
  "map_of kanjiDigits c_man = None" "map_of kanjiUnits c_man = Some 10000"
  "map_of kanjiDigits c_sen = None" "map_of kanjiUnits c_sen = Some 1000"
  "map_of kanjiDigits c_hyaku = None" "map_of kanjiUnits c_hyaku = Some 100"
  "map_of kanjiDigits c_juu = None" "map_of kanjiUnits c_juu = Some 10"
  by (simp_all add: kanjiDigits_def kanjiUnits_def)

lemma foldl_kanji_place:
  "d < 10 \<Longrightarrow> map_of kanjiDigits u = None \<Longrightarrow> map_of kanjiUnits u = Some w \<Longrightarrow>
     foldl kanji_step (r, 0) (kanji_place d u) = (r + int d * w, 0)"
  by (auto simp: kanji_place_def kanji_digit_val)

lemma decimal_expand:
  "(n::nat) = n div 10000 * 10000 + n div 1000 mod 10 * 1000 + n div 100 mod 10 * 100 +
     n div 10 mod 10 * 10 + n mod 10"
proof -
  have "n div 10 = n div 100 * 10 + n div 10 mod 10"
    and "n div 100 = n div 1000 * 10 + n div 100 mod 10"
    and "n div 1000 = n div 10000 * 10 + n div 1000 mod 10"
    using div_mult_mod_eq [of "n div 10" 10] div_mult_mod_eq [of "n div 100" 10]
      div_mult_mod_eq [of "n div 1000" 10] by (simp_all add: div_mult2_eq [symmetric])
  then show ?thesis using div_mult_mod_eq [of n 10] by linarith
qed

lemma kanji_run_value_of_nat:
  assumes "n < 100000"
  shows "kanji_run_value (kanji_of_nat n) = int n"
proof -
  have m: "n div 10000 < 10" using assms by simp
  note n = decimal_expand [of n]
  have head: "foldl kanji_step (0, 0) (if n div 10000 = 0 then [] else [kanji_digit (n div 10000), c_man])
      = (int (n div 10000) * 10000, 0)"
    using m by (auto simp: kanji_digit_val)
  have last: "foldl kanji_step (r, 0) (if n mod 10 = 0 then [] else [kanji_digit (n mod 10)])
      = (r, int (n mod 10))" for r
    by (auto simp: kanji_digit_val)
  show ?thesis
    by (subst n [THEN arg_cong [of _ _ int]])
       (simp add: kanji_run_value_def kanji_of_nat_def head last foldl_kanji_place del: foldl_Cons)
qed

lemma kanji_of_nat_inj: "m < 100000 \<Longrightarrow> n < 100000 \<Longrightarrow> kanji_of_nat m = kanji_of_nat n \<longleftrightarrow> m = n"
  by (metis kanji_run_value_of_nat of_nat_eq_iff)

lemma kanji_place_set: "c \<in> set (kanji_place d u) \<Longrightarrow> c = kanji_digit d \<or> c = u"
  by (auto simp: kanji_place_def split: if_splits)

lemma kanji_of_nat_set:
  assumes "c \<in> set (kanji_of_nat n)" "n < 100000"
  shows "(\<exists>d < 10. c = kanji_digit d) \<or> c \<in> {c_man, c_sen, c_hyaku, c_juu}"
proof -
  have digit: "n div 10000 < 10" "n div 1000 mod 10 < 10" "n div 100 mod 10 < 10" "n div 10 mod 10 < 10" "n mod 10 < 10"
    using assms(2) by simp_all
  from assms(1) consider "c = kanji_digit (n div 10000) \<or> c = c_man"
    | "c \<in> set (kanji_place (n div 1000 mod 10) c_sen)" | "c \<in> set (kanji_place (n div 100 mod 10) c_hyaku)"
    | "c \<in> set (kanji_place (n div 10 mod 10) c_juu)" | "c = kanji_digit (n mod 10)"
    by (auto simp: kanji_of_nat_def simp del: div_eq_0_iff split: if_splits)
  then show ?thesis by cases (use digit kanji_place_set in blast)+
qed

lemma kanji_digit_class: "d < 10 \<Longrightarrow> in_cls False rng_kjall (kanji_digit d)"
proof -
  have "\<forall>d \<in> set [0..<10]. in_cls False rng_kjall (kanji_digit d)" by code_simp
  then show "d < 10 \<Longrightarrow> ?thesis" by simp
qed

lemma kanji_of_nat_class: "c \<in> set (kanji_of_nat n) \<Longrightarrow> n < 100000 \<Longrightarrow> in_cls False rng_kjall c"
proof -
  assume "c \<in> set (kanji_of_nat n)" "n < 100000"
  from kanji_of_nat_set [OF this] consider d where "d < 10" "c = kanji_digit d"
    | "c \<in> {c_man, c_sen, c_hyaku, c_juu}" by blast
  then show ?thesis
  proof cases
    case 1
    then show ?thesis by (simp only: kanji_digit_class)
  next
    case 2
    then show ?thesis by (auto simp: in_cls_def)
  qed
qed

lemma kanji_of_nat_nonempty: "0 < n \<Longrightarrow> kanji_of_nat n \<noteq> []"
proof
  assume "0 < n" "kanji_of_nat n = []"
  then have "n div 10000 = 0" "n div 1000 mod 10 = 0" "n div 100 mod 10 = 0" "n div 10 mod 10 = 0" "n mod 10 = 0"
    by (auto simp: kanji_of_nat_def kanji_place_def split: if_splits)
  then have "n = 0" using decimal_expand [of n] by simp
  with \<open>0 < n\<close> show False by simp
qed

lemma convertKanji_framed:
  assumes "0 < n" "n < 100000"
  shows "convertKanjiToNumber ([c_dai] @ kanji_of_nat n @ [c_jou]) = article_display (nat_str n)"
proof -
  have "convertKanjiToNumber ([c_dai] @ kanji_of_nat n @ [c_jou]) =
      [c_dai] @ int_str (kanji_run_value (kanji_of_nat n)) @ [c_jou]"
    unfolding convertKanjiToNumber_def
    using assms kanji_of_nat_class [of _ n] kanji_of_nat_nonempty [of n]
    by (subst replace_all_run) (auto simp: in_cls_def)
  then show ?thesis using assms by (simp add: kanji_run_value_of_nat article_display_def)
qed

lemma convertKanji_plain:
  "\<forall>c \<in> set s. \<not> in_cls False rng_kjall c \<Longrightarrow> convertKanjiToNumber s = s"
  unfolding convertKanjiToNumber_def by (rule replace_all_none)

lemma digit_not_kanji: "is_digit c \<Longrightarrow> \<not> in_cls False rng_kjall c"
  by (auto simp: is_digit_def in_cls_def)

lemma in_cls_digit: "in_cls False rng_digit c \<longleftrightarrow> is_digit c"
  by (simp add: in_cls_def is_digit_def)

lemma convertKanji_display:
  "\<forall>c \<in> set ds. is_digit c \<Longrightarrow> convertKanjiToNumber (article_display ds) = article_display ds"
proof (rule convertKanji_plain, rule ballI)
  fix c
  assume "\<forall>c \<in> set ds. is_digit c" "c \<in> set (article_display ds)"
  then have "is_digit c \<or> c = c_dai \<or> c = c_jou" by (auto simp: article_display_def)
  then show "\<not> in_cls False rng_kjall c" using digit_not_kanji by (auto simp: in_cls_def)
qed

section \<open>Normalising\<close>

lemma first_capture_display:
  assumes "\<forall>c \<in> set ds. is_digit c" "ds \<noteq> []"
  shows "first_capture article_patterns (article_display ds) = Some ds"
proof -
  have "rx_match (rseq [RLit [c_dai], RGrp 1 (rplus (RCls False rng_digit)), RLit [c_jou]]) (article_display ds) =
      Some \<lparr>m_index = 0, m_text = article_display ds, m_caps = [(1, ds)]\<rparr>"
    using match_framed_run [of ds False rng_digit "[c_jou]" "[c_dai]" 1 "[]"] assms
    by (simp add: in_cls_digit article_display_def is_digit_def del: rseq.simps)
  then show ?thesis by (simp add: article_patterns_def cap_def del: rseq.simps)
qed

text \<open>Whatever the input looks like before the conversion, a string that converts to the display form
  of a digit run normalises to that run.\<close>

lemma normalize_converted:
  assumes "convertKanjiToNumber s = article_display ds" "s \<noteq> []" "\<forall>c \<in> set ds. is_digit c" "ds \<noteq> []"
  shows "normalizeArticleNumber s =
    \<lparr>numeric = ds, display = article_display ds, original = s, value_num = Some (int (digits_val ds))\<rparr>"
  using assms first_capture_display [OF assms(3,4)]
  by (simp add: normalizeArticleNumber_def truthy_def parse_int10_digits)


lemma digits_capture: "spells is_digit (rplus (RCls False rng_digit)) \<and> 1 \<le> min_len (rplus (RCls False rng_digit))"
  by (simp add: in_cls_digit min_rounds_def)

lemma article_pattern_capture:
  assumes "p \<in> set article_patterns" and "rx_match p s = Some m"
  shows "\<exists>v. cap m 1 = Some v \<and> list_all is_digit v \<and> 1 \<le> length v"
proof (rule rx_match_cap [OF assms(2)])
  show "captures 1 p" using assms(1) by (auto simp: article_patterns_def)
  show "grp_all (\<lambda>r. spells is_digit r \<and> 1 \<le> min_len r) 1 p"
    using assms(1) digits_capture by (auto simp: article_patterns_def)
qed simp

lemma first_capture_digits:
  "set ps \<subseteq> set article_patterns \<Longrightarrow> first_capture ps s = Some v \<Longrightarrow> list_all is_digit v \<and> v \<noteq> []"
  by (induction ps) (fastforce split: option.splits dest: article_pattern_capture)+

lemma digits_match_capture:
  assumes "rx_match (RGrp 1 (rplus (RCls False rng_digit))) s = Some m"
  shows "\<exists>v. cap m 1 = Some v \<and> list_all is_digit v \<and> 1 \<le> length v"
  by (rule rx_match_cap [OF assms]) (use digits_capture in simp_all)

lemma normalize_cases:
  obtains (empty) "s = []" "normalizeArticleNumber s = \<lparr>numeric = [], display = [], original = [], value_num = Some 0\<rparr>"
  | (none) "s \<noteq> []" "normalizeArticleNumber s = \<lparr>numeric = [], display = s, original = s, value_num = Some 0\<rparr>"
  | (some) ds where "s \<noteq> []" "list_all is_digit ds" "ds \<noteq> []"
      "normalizeArticleNumber s =
         \<lparr>numeric = ds, display = article_display ds, original = s, value_num = Some (int (digits_val ds))\<rparr>"
proof (cases "s = []")
  case True
  then show ?thesis using empty by (simp add: normalizeArticleNumber_def)
next
  case False
  let ?n = "convertKanjiToNumber s"
  let ?f = "first_capture article_patterns ?n"
  let ?g = "case rx_match (RGrp 1 (rplus (RCls False rng_digit))) ?n of Some m \<Rightarrow> cap m 1 | None \<Rightarrow> None"
  let ?h = "if truthy ?f then ?f else ?g"
  have digits: "?h = Some ds \<Longrightarrow> list_all is_digit ds \<and> ds \<noteq> []" for ds
    using first_capture_digits [of article_patterns ?n] digits_match_capture [of ?n]
    by (fastforce split: option.splits if_splits)
  have norm: "normalizeArticleNumber s = (case ?h of
      Some ns \<Rightarrow> \<lparr>numeric = ns, display = article_display ns, original = s, value_num = parse_int10 ns\<rparr>
    | None \<Rightarrow> \<lparr>numeric = [], display = s, original = s, value_num = Some 0\<rparr>)"
    using False by (simp only: normalizeArticleNumber_def Let_def if_False)
  show ?thesis
  proof (cases ?h)
    case None
    with norm False show ?thesis by (intro none) simp_all
  next
    case (Some ds)
    with digits [OF Some] have "parse_int10 ds = Some (int (digits_val ds))"
      by (intro parse_int10_digits) (auto simp: list_all_iff)
    with norm Some digits [OF Some] False show ?thesis by (intro some [of ds]) simp_all
  qed
qed

lemma normalize_article_number:
  assumes "0 < n" and "n < 100000" and "s = article_display (nat_str n) \<or> s = article_display (kanji_of_nat n)"
  shows "normalizeArticleNumber s =
    \<lparr>numeric = nat_str n, display = article_display (nat_str n), original = s, value_num = Some (int n)\<rparr>"
proof -
  have "convertKanjiToNumber s = article_display (nat_str n)"
    using assms convertKanji_display [of "nat_str n"] convertKanji_framed [of n]
    by (auto simp: nat_str_digits article_display_def)
  moreover have "s \<noteq> []" using assms(3) by (auto simp: article_display_def)
  ultimately show ?thesis
    using normalize_converted [of s "nat_str n"] by (simp add: nat_str_digits)
qed

section \<open>Properties\<close>

text \<open>C11: every form of the article number n -- "dai n jou", and the kanji form
  "dai (n in kanji) jou" for 0 < n < 100000 -- normalises to the numeric form of n, the display form of
  n and the value n: a kanji reference and an Arabic reference to the same article are stored alike.\<close>

theorem normalize_numeric_form:
  assumes "0 < n" and "n < 100000" and "s = article_display (nat_str n) \<or> s = article_display (kanji_of_nat n)"
  shows "normalizeArticleNumber s =
    \<lparr>numeric = nat_str n, display = article_display (nat_str n), original = s, value_num = Some (int n)\<rparr>"
  by (rule normalize_article_number [OF assms])

theorem normalize_numeric_form_witness:
  "kanji_of_nat 566 = [c_go, c_hyaku, c_roku, c_juu, c_roku] \<and>
   value_num (normalizeArticleNumber (article_display (kanji_of_nat 566))) = Some 566"
proof
  show "kanji_of_nat 566 = [c_go, c_hyaku, c_roku, c_juu, c_roku]" by code_simp
  show "value_num (normalizeArticleNumber (article_display (kanji_of_nat 566))) = Some 566"
    using normalize_numeric_form [of 566 "article_display (kanji_of_nat 566)"] by simp
qed


text \<open>the display form is stable: displaying a display form, or displaying a
  numeric form, gives the same display form, and the numeric form of a display form is the numeric form.\<close>

theorem display_idempotent:
  "toDisplayFormat (toDisplayFormat s) = toDisplayFormat s \<and>
   toNumericFormat (toDisplayFormat s) = toNumericFormat s"
proof (cases s rule: normalize_cases)
  case (some ds)
  then have "normalizeArticleNumber (article_display ds) = \<lparr>numeric = ds, display = article_display ds,
      original = article_display ds, value_num = Some (int (digits_val ds))\<rparr>"
    by (intro normalize_converted convertKanji_display) (auto simp: list_all_iff article_display_def)
  with some show ?thesis by (auto simp: toDisplayFormat_def toNumericFormat_def article_display_def)
qed (auto simp: toDisplayFormat_def toNumericFormat_def)

text \<open>the range from article a to article b lists the display forms of a, a+1,
  ..., b, in order and each once.\<close>

theorem article_range_exact:
  assumes "0 < a" and "0 < b" and "a < 100000" and "b < 100000"
  shows "generateArticleRange (article_display (nat_str a)) (article_display (kanji_of_nat b)) =
    map (\<lambda>k. article_display (nat_str k)) [a..<Suc b]"
proof -
  have "map (\<lambda>k. article_display (int_str k)) [int a..int b] = map (\<lambda>k. article_display (nat_str k)) [a..<Suc b]"
    by (simp add: map_upto_int del: upt_Suc)
  then show ?thesis
    using assms by (simp add: generateArticleRange_def normalize_article_number [OF _ _ disjI1]
      normalize_article_number [OF _ _ disjI2] del: upt_Suc)
qed

theorem article_range_exact_witness:
  "map (\<lambda>k. article_display (nat_str k)) [2..<5] = [[c_dai, 0x32, c_jou], [c_dai, 0x33, c_jou], [c_dai, 0x34, c_jou]] \<and>
   generateArticleRange (article_display (nat_str 2)) (article_display (kanji_of_nat 4)) =
     [[c_dai, 0x32, c_jou], [c_dai, 0x33, c_jou], [c_dai, 0x34, c_jou]]"
proof -
  have "map (\<lambda>k. article_display (nat_str k)) [2..<5] = [[c_dai, 0x32, c_jou], [c_dai, 0x33, c_jou], [c_dai, 0x34, c_jou]]" by code_simp
  with article_range_exact [of 2 4] show ?thesis by (simp del: upt_Suc upt_rec_numeral)
qed


end
