(* ===== verification/RelativeResolver.thy ===== *)
theory RelativeResolver
  imports ArticleNormalizer
begin

text \<open>
  \<^verbatim>\<open>src/services/relative-reference-resolver.ts\<close>: a relative reference ("the previous article", "the
  next three paragraphs", "the same item") is resolved against the place where it stands. The result
  and the context are records with the fields of the source (prefix \<open>rr_\<close> and \<open>cx_\<close>), \<open>None\<close> is an
  absent optional field, confidences are exact rationals. An article number that does not parse is
  \<open>NaN\<close> and is followed through, as in the source.
\<close>

section \<open>The code\<close>

datatype resolutionMethod = Exact | Inferred | Fallback

record ResolvedReference =
  rr_lawId :: jsstr
  rr_articleNumber :: jsstr
  rr_articleDisplay :: jsstr
  rr_paragraphNumber :: "int option"
  rr_itemNumber :: "jsstr option"
  rr_confidence :: rat
  rr_resolutionMethod :: resolutionMethod
  rr_error :: "jsstr option"

record CurrentContext =
  cx_lawId :: jsstr
  cx_lawName :: "jsstr option"
  cx_articleNumber :: jsstr
  cx_paragraphNumber :: "int option"
  cx_itemNumber :: "jsstr option"
  cx_totalParagraphs :: "int option"

definition kanjiNumberMap :: "(jsstr \<times> int) list" where
  "kanjiNumberMap =
     [([c_ichi], 1), ([c_ni], 2), ([c_san], 3), ([c_yon], 4), ([c_go], 5),
      ([c_roku], 6), ([c_nana], 7), ([c_hachi], 8), ([c_kyuu], 9), ([c_juu], 10),
      ([c_juu, c_ichi], 11), ([c_juu, c_ni], 12), ([c_juu, c_san], 13), ([c_juu, c_yon], 14), ([c_juu, c_go], 15),
      ([c_juu, c_roku], 16), ([c_juu, c_nana], 17), ([c_juu, c_hachi], 18), ([c_juu, c_kyuu], 19), ([c_ni, c_juu], 20),
      ([c_ni, c_juu, c_ichi], 21), ([c_ni, c_juu, c_ni], 22), ([c_ni, c_juu, c_san], 23), ([c_ni, c_juu, c_yon], 24), ([c_ni, c_juu, c_go], 25),
      ([c_san, c_juu], 30), ([c_yon, c_juu], 40), ([c_go, c_juu], 50), ([c_roku, c_juu], 60), ([c_nana, c_juu], 70),
      ([c_hachi, c_juu], 80), ([c_kyuu, c_juu], 90), ([c_hyaku], 100)]"

definition kanjiToNumber :: "jsstr \<Rightarrow> int" where
  "kanjiToNumber kanji = (case map_of kanjiNumberMap kanji of Some n \<Rightarrow> n | None \<Rightarrow> 1)"

text \<open>The object literal that every branch of the source returns: the law of the context, an article
  number with its display form, and what the branch adds.\<close>

definition target :: "CurrentContext \<Rightarrow> jsstr \<Rightarrow> int option \<Rightarrow> jsstr option \<Rightarrow> rat \<Rightarrow> resolutionMethod \<Rightarrow>
    jsstr option \<Rightarrow> ResolvedReference" where
  "target context article para item conf method err =
     \<lparr>rr_lawId = cx_lawId context, rr_articleNumber = article, rr_articleDisplay = toDisplayFormat article,
      rr_paragraphNumber = para, rr_itemNumber = item, rr_confidence = conf,
      rr_resolutionMethod = method, rr_error = err\<rparr>"

text \<open>\<open>context.paragraphNumber || 1\<close>\<close>

definition currentPara :: "int option \<Rightarrow> int" where
  "currentPara p = (case p of None \<Rightarrow> 1 | Some k \<Rightarrow> if k = 0 then 1 else k)"

definition resolveArticleRelative :: "jsstr \<Rightarrow> CurrentContext \<Rightarrow> ResolvedReference option" where
  "resolveArticleRelative text context =
     (let cur = parse_int10 (cx_articleNumber context) in
      if text = [c_zen, c_jou] then
        (if nle cur 1 then
           Some (target context (cx_articleNumber context) None None (3/10) Fallback
                   (Some [c_zen, c_jou, 0x304C, 0x5B58, 0x5728, h_shi, h_ma, 0x305B, 0x3093, p_lparen, c_dai, 0x31, c_jou, p_rparen]))
         else Some (target context (num_str (nadd cur (-1))) None None (95/100) Exact None))
      else if text = [c_ji, c_jou] then
        Some (target context (num_str (nadd cur 1)) None None (95/100) Exact None)
      else case rx_match (rseq [RBol, RLit [c_zen], RGrp 1 (rplus (RCls False rng_kj10)), RLit [c_jou], REol]) text of
        Some m \<Rightarrow>
          (let n = kanjiToNumber (grp m 1); targetArticle = map_option (\<lambda>a. max 1 (a - n)) cur
           in Some (target context (num_str targetArticle) None None (90/100) Exact None))
      | None \<Rightarrow> (case rx_match (rseq [RBol, RLit [c_ji], RGrp 1 (rplus (RCls False rng_kj10)), RLit [c_jou], REol]) text of
          Some m \<Rightarrow>
            Some (target context (num_str (nadd cur (kanjiToNumber (grp m 1)))) None None (90/100) Exact None)
        | None \<Rightarrow> None))"

definition resolveParagraphRelative :: "jsstr \<Rightarrow> CurrentContext \<Rightarrow> ResolvedReference option" where
  "resolveParagraphRelative text context =
     (let para = currentPara (cx_paragraphNumber context); article = cx_articleNumber context in
      if text = [c_zen, c_kou] then
        (if para \<le> 1 then
           Some (target context article (Some 1) None (4/10) Fallback (Some [c_zen, c_kou, 0x304C, 0x5B58, 0x5728, h_shi, h_ma, 0x305B, 0x3093, p_lparen, c_dai, 0x31, c_kou, p_rparen]))
         else Some (target context article (Some (para - 1)) None (95/100) Exact None))
      else if text = [c_ji, c_kou] then
        Some (target context article (Some (para + 1)) None (95/100) Exact None)
      else case rx_match (rseq [RBol, RLit [c_zen], RGrp 1 (rplus (RCls False rng_kj10)), RLit [c_kou], REol]) text of
        Some m \<Rightarrow>
          Some (target context article (Some (max 1 (para - kanjiToNumber (grp m 1)))) None (90/100) Exact None)
      | None \<Rightarrow> (case rx_match (rseq [RBol, RLit [c_ji], RGrp 1 (rplus (RCls False rng_kj10)), RLit [c_kou], REol]) text of
          Some m \<Rightarrow>
            Some (target context article (Some (para + kanjiToNumber (grp m 1))) None (90/100) Exact None)
        | None \<Rightarrow>
            if text = [c_zen, c_kaku, c_kou] then
              Some (target context article (Some (para - 1)) None (85/100) Inferred
                     (Some ([c_dai, 0x31, c_kou, h_ka, h_ra, c_dai] @ int_str (para - 1) @ [c_kou, h_ma, h_de, h_wo, 0x6307, h_shi, h_ma, h_su])))
            else None))"

definition parseItemNumber :: "jsstr \<Rightarrow> jsstr" where
  "parseItemNumber itemNumber =
     (case rx_match (RGrp 1 (ralt [rplus (RCls False rng_digit), rplus (RCls False rng_kj10)])) itemNumber of
        Some m \<Rightarrow>
          (let num = grp m 1 in
           if rx_test (rplus (RCls False rng_digit)) num then num else int_str (kanjiToNumber num))
      | None \<Rightarrow> (str ''1''))"

definition getPreviousItem :: "jsstr \<Rightarrow> jsstr option" where
  "getPreviousItem currentItem =
     (let num = parse_int10 currentItem in
      if nle num 1 then None else Some (num_str (nadd num (-1))))"

definition getNextItem :: "jsstr \<Rightarrow> jsstr" where
  "getNextItem currentItem = num_str (nadd (parse_int10 currentItem) 1)"

definition resolveItemRelative :: "jsstr \<Rightarrow> CurrentContext \<Rightarrow> ResolvedReference option" where
  "resolveItemRelative text context =
     (if \<not> truthy (cx_itemNumber context) then None
      else
        let currentItem = parseItemNumber (the (cx_itemNumber context));
            article = cx_articleNumber context; para = cx_paragraphNumber context
        in if text = [c_zen, c_gou] then
             (case getPreviousItem currentItem of
                None \<Rightarrow>
                  Some (target context article para (Some currentItem) (3/10) Fallback (Some [c_zen, c_gou, 0x304C, 0x5B58, 0x5728, h_shi, h_ma, 0x305B, 0x3093]))
              | Some prevItem \<Rightarrow> Some (target context article para (Some prevItem) (95/100) Exact None))
           else if text = [c_ji, c_gou] then
             Some (target context article para (Some (getNextItem currentItem)) (95/100) Exact None)
           else if text = [c_zen, c_kaku, c_gou] then
             Some (target context article para (Some currentItem) (85/100) Inferred
                    (Some [c_dai, 0x31, c_gou, h_ka, h_ra, c_zen, c_gou, h_ma, h_de, h_wo, 0x6307, h_shi, h_ma, h_su]))
           else None)"

definition resolveComplexRelative :: "jsstr \<Rightarrow> CurrentContext \<Rightarrow> ResolvedReference option" where
  "resolveComplexRelative text context =
     (let cur = parse_int10 (cx_articleNumber context); para = currentPara (cx_paragraphNumber context) in
      case rx_match (rseq [RBol, RLit [c_zen, c_jou, c_dai], RGrp 1 (rplus (RCls False rng_kj10)), RLit [c_kou], REol]) text of
        Some m \<Rightarrow>
          (if nle cur 1 then None
           else Some (target context (num_str (nadd cur (-1))) (Some (kanjiToNumber (grp m 1))) None
                  (90/100) Exact None))
      | None \<Rightarrow> (case rx_match (rseq [RBol, RLit [c_ji, c_jou, c_dai], RGrp 1 (rplus (RCls False rng_kj10)), RLit [c_kou], REol]) text of
          Some m \<Rightarrow>
            Some (target context (num_str (nadd cur 1)) (Some (kanjiToNumber (grp m 1))) None
                   (90/100) Exact None)
        | None \<Rightarrow> (case rx_match (rseq [RBol, RLit [c_zen, c_kou, c_dai], RGrp 1 (rplus (RCls False rng_kj10)), RLit [c_gou], REol]) text of
            Some m \<Rightarrow>
              (if para \<le> 1 then None
               else Some (target context (cx_articleNumber context) (Some (para - 1))
                      (Some (int_str (kanjiToNumber (grp m 1)))) (90/100) Exact None))
          | None \<Rightarrow> None)))"

definition resolveSameReference :: "jsstr \<Rightarrow> CurrentContext \<Rightarrow> ResolvedReference option" where
  "resolveSameReference text context =
     (let article = cx_articleNumber context in
      if text = [c_dou, c_jou] \<or> text = [c_hon, c_jou] then
        Some (target context article None None (95/100) Exact None)
      else if text = [c_dou, c_kou] \<or> text = [c_hon, c_kou] then
        Some (target context article (Some (currentPara (cx_paragraphNumber context))) None (95/100) Exact None)
      else if text = [c_kaku, c_kou] then
        Some (target context article None None (85/100) Inferred (Some [c_tou, c_gai, c_jou, h_no, h_su, 0x3079, h_te, h_no, c_kou, h_wo, 0x6307, h_shi, h_ma, h_su]))
      else if text = [c_kaku, c_gou] then
        Some (target context article (cx_paragraphNumber context) None (85/100) Inferred
               (Some [c_tou, c_gai, c_kou, h_no, h_su, 0x3079, h_te, h_no, c_gou, h_wo, 0x6307, h_shi, h_ma, h_su]))
      else None)"

text \<open>The first resolver that returns a result.\<close>

fun first_result :: "(unit \<Rightarrow> 'a option) list \<Rightarrow> 'a option" where
  "first_result [] = None"
| "first_result (f # fs) = (case f () of Some r \<Rightarrow> Some r | None \<Rightarrow> first_result fs)"

definition resolve :: "jsstr \<Rightarrow> CurrentContext \<Rightarrow> ResolvedReference option" where
  "resolve referenceText context =
     (let text = trim referenceText in
      first_result
        [\<lambda>_. resolveArticleRelative text context,
         \<lambda>_. resolveParagraphRelative text context,
         \<lambda>_. resolveItemRelative text context,
         \<lambda>_. resolveComplexRelative text context,
         \<lambda>_. resolveSameReference text context])"

definition resolveMultiple :: "jsstr list \<Rightarrow> CurrentContext \<Rightarrow> (jsstr, ResolvedReference option) jsmap" where
  "resolveMultiple references context =
     foldl (\<lambda>results ref. AList.update ref (resolve ref context) results) [] references"

text \<open>The context after one reference of \<open>resolveContinuous\<close>.\<close>

definition context_after :: "CurrentContext \<Rightarrow> ResolvedReference option \<Rightarrow> CurrentContext" where
  "context_after c resolved =
     (case resolved of
        None \<Rightarrow> c
      | Some r \<Rightarrow>
          if 7/10 < rr_confidence r then
            (if rr_articleNumber r \<noteq> [] \<and> rr_articleNumber r \<noteq> cx_articleNumber c then
               c\<lparr>cx_articleNumber := rr_articleNumber r,
                 cx_paragraphNumber := Some (currentPara (rr_paragraphNumber r)),
                 cx_itemNumber := rr_itemNumber r\<rparr>
             else if rr_paragraphNumber r \<notin> {None, Some 0} \<and> rr_paragraphNumber r \<noteq> cx_paragraphNumber c then
               c\<lparr>cx_paragraphNumber := rr_paragraphNumber r, cx_itemNumber := rr_itemNumber r\<rparr>
             else if truthy (rr_itemNumber r) then c\<lparr>cx_itemNumber := rr_itemNumber r\<rparr>
             else c)
          else c)"

record continuousResult =
  cr_original :: jsstr
  cr_resolved :: "ResolvedReference option"
  cr_context :: CurrentContext

fun continuous :: "CurrentContext \<Rightarrow> jsstr list \<Rightarrow> continuousResult list" where
  "continuous c [] = []"
| "continuous c (t # ts) =
     (let resolved = resolve t c in
      \<lparr>cr_original = t, cr_resolved = resolved, cr_context = c\<rparr> # continuous (context_after c resolved) ts)"


text \<open>A context inside the numbering of a law: its article number is a positive number in numeric form,
  its paragraph number, if known, is positive.\<close>

definition context_ok :: "CurrentContext \<Rightarrow> bool" where
  "context_ok c \<longleftrightarrow>
     (case parse_int10 (cx_articleNumber c) of Some a \<Rightarrow> 1 \<le> a \<and> cx_articleNumber c = int_str a | None \<Rightarrow> False) \<and>
     (case cx_paragraphNumber c of Some p \<Rightarrow> 1 \<le> p | None \<Rightarrow> True)"

section \<open>Contexts stay inside the numbering\<close>

lemma context_ok_article:
  assumes "context_ok c"
  obtains a where "1 \<le> a" "cx_articleNumber c = int_str a" "parse_int10 (cx_articleNumber c) = Some a"
  using assms by (auto simp: context_ok_def split: option.splits)

lemma currentPara_pos: "context_ok c \<Longrightarrow> 1 \<le> currentPara (cx_paragraphNumber c)"
  by (auto simp: context_ok_def currentPara_def split: option.splits)


text \<open>Where a resolution may point: a positive article number in numeric form, and a paragraph number
  that is not negative.\<close>

definition target_ok :: "ResolvedReference \<Rightarrow> bool" where
  "target_ok r \<longleftrightarrow>
     (case parse_int10 (rr_articleNumber r) of Some a \<Rightarrow> 1 \<le> a \<and> rr_articleNumber r = int_str a | None \<Rightarrow> False) \<and>
     (case rr_paragraphNumber r of Some p \<Rightarrow> 0 \<le> p | None \<Rightarrow> True)"

lemma target_ok_target [simp]:
  "target_ok (target c article para item conf method err) \<longleftrightarrow>
     (case parse_int10 article of Some a \<Rightarrow> 1 \<le> a \<and> article = int_str a | None \<Rightarrow> False) \<and>
     (case para of Some p \<Rightarrow> 0 \<le> p | None \<Rightarrow> True)"
  by (simp add: target_ok_def target_def split: option.split)











lemma length_continuous [simp]: "length (continuous c ts) = length ts"
  by (induction ts arbitrary: c) (auto simp: Let_def)

section \<open>Counted references\<close>

text \<open>The table covers the kanji forms of 1 to 25, all of them words over the digits and ten.\<close>

lemma kanji_table_rows: "map (\<lambda>n. (kanji_of_nat n, int n)) [1..<26] = take 25 kanjiNumberMap"
proof -
  have n: "[1..<26] = [1, 2, 3, 4, 5, 6, 7, 8, 9, 10, 11, 12, 13, 14, 15, 16, 17, 18, 19, 20, 21, 22, 23, 24, 25::nat]" by code_simp
  show ?thesis unfolding n
    by (simp add: kanjiNumberMap_def kanji_of_nat_def kanji_place_def kanji_digit_def nth_Cons')
qed

lemma kanji_table_keys: "distinct (map fst kanjiNumberMap)"
  by (simp add: kanjiNumberMap_def)

lemma kanji_table_words: "\<forall>p \<in> set (take 25 kanjiNumberMap). list_all (in_cls False rng_kj10) (fst p) \<and> fst p \<noteq> []"
  by (simp add: kanjiNumberMap_def in_cls_def)

lemma kanji_table:
  assumes "0 < n" "n \<le> 25"
  shows "kanjiToNumber (kanji_of_nat n) = int n" "\<forall>c \<in> set (kanji_of_nat n). in_cls False rng_kj10 c"
    "kanji_of_nat n \<noteq> []"
proof -
  have "(kanji_of_nat n, int n) \<in> set (map (\<lambda>n. (kanji_of_nat n, int n)) [1..<26])"
    using assms by (simp del: upt_rec_numeral)
  then have mem: "(kanji_of_nat n, int n) \<in> set (take 25 kanjiNumberMap)" by (simp only: kanji_table_rows)
  with kanji_table_keys have "map_of kanjiNumberMap (kanji_of_nat n) = Some (int n)"
    by (intro map_of_is_SomeI) (auto dest: in_set_takeD)
  then show "kanjiToNumber (kanji_of_nat n) = int n" by (simp add: kanjiToNumber_def)
  from mem kanji_table_words show "\<forall>c \<in> set (kanji_of_nat n). in_cls False rng_kj10 c" "kanji_of_nat n \<noteq> []"
    unfolding list_all_iff by (metis fst_conv)+
qed

text \<open>How a pattern of the form \<open>^a([kanji]+)b$\<close> reads a counted reference, and when it does not.\<close>

definition counted :: "jsstr \<Rightarrow> jsstr \<Rightarrow> regex" where
  "counted a b = rseq [RBol, RLit a, RGrp 1 (rplus (RCls False rng_kj10)), RLit b, REol]"

lemma counted_reads:
  assumes "0 < n" "n \<le> 25" "b \<noteq> []" "\<not> in_cls False rng_kj10 (hd b)"
  shows "\<exists>m. rx_match (counted a b) (a @ kanji_of_nat n @ b) = Some m \<and> kanjiToNumber (grp m 1) = int n"
proof -
  note run = match_anchored_run [OF kanji_table(2,3) [OF assms(1,2)] assms(3,4), of a 1]
  have "kanjiToNumber (grp \<lparr>m_index = 0, m_text = a @ kanji_of_nat n @ b, m_caps = [(1, kanji_of_nat n)]\<rparr> 1) = int n"
    using kanji_table(1) [OF assms(1,2)] by (simp add: grp_def cap_def)
  with run show ?thesis unfolding counted_def by (intro exI conjI)
qed

lemma counted_rejects: "(\<nexists>u. s = a @ u @ b) \<Longrightarrow> rx_match (counted a b) s = None"
  using match_anchored_frame unfolding counted_def by (metis not_None_eq)

lemma trim_counted: "\<not> is_ws c \<Longrightarrow> \<not> is_ws d \<Longrightarrow> trim ([c] @ ks @ [d]) = [c] @ ks @ [d]"
  by (rule trim_id) simp

lemmas resolve_counted_defs = resolveArticleRelative_def [folded counted_def]
  resolveParagraphRelative_def [folded counted_def]

lemma not_framed: "c \<noteq> c' \<or> d \<noteq> d' \<Longrightarrow> \<nexists>u. [c] @ ks @ [d] = [c'] @ u @ [d']"
  by auto

lemma counted_reads1:
  assumes "0 < n" "n \<le> 25" "\<not> in_cls False rng_kj10 d"
  obtains m where "rx_match (counted [c] [d]) ([c] @ kanji_of_nat n @ [d]) = Some m" "kanjiToNumber (grp m 1) = int n"
  using counted_reads [OF assms(1,2), of "[d]" "[c]"] assms(3) by auto

lemma resolve_prev_articles:
  assumes "trim t = t" "t \<noteq> [c_zen, c_jou]" "t \<noteq> [c_ji, c_jou]" "rx_match (counted [c_zen] [c_jou]) t = Some m"
    "parse_int10 (cx_articleNumber c) = Some a"
  shows "resolve t c = Some (target c (int_str (max 1 (a - kanjiToNumber (grp m 1)))) None None (90/100) Exact None)"
  unfolding resolve_def resolve_counted_defs
  by (simp add: assms num_str_def)

lemma resolve_next_articles:
  assumes "trim t = t" "t \<noteq> [c_zen, c_jou]" "t \<noteq> [c_ji, c_jou]" "rx_match (counted [c_zen] [c_jou]) t = None"
    "rx_match (counted [c_ji] [c_jou]) t = Some m" "parse_int10 (cx_articleNumber c) = Some a"
  shows "resolve t c = Some (target c (int_str (a + kanjiToNumber (grp m 1))) None None (90/100) Exact None)"
  unfolding resolve_def resolve_counted_defs
  by (simp add: assms num_str_def nadd_def)

section \<open>Properties\<close>

text \<open>"the previous n articles" and "the next n articles" (n from 1 to 25, in kanji) stand
  for the article n before, but not before the first, and n after the current one.\<close>

theorem resolve_counted_article:
  assumes "0 < n" and "n \<le> 25" and "cx_articleNumber c = nat_str a"
  shows "resolve ([c_zen] @ kanji_of_nat n @ [c_jou]) c =
      Some (target c (nat_str (max 1 (a - n))) None None (90/100) Exact None) \<and>
    resolve ([c_ji] @ kanji_of_nat n @ [c_jou]) c =
      Some (target c (nat_str (a + n)) None None (90/100) Exact None)"
proof -
  note ne = kanji_table(3) [OF assms(1,2)]
  have a: "parse_int10 (cx_articleNumber c) = Some (int a)" using assms(3) by simp
  have jou: "\<not> in_cls False rng_kj10 c_jou" by (simp add: in_cls_def)
  have ws: "\<not> is_ws c_jou" "\<not> is_ws c_zen" "\<not> is_ws c_ji" by (simp_all add: is_ws_def)
  obtain p where p: "rx_match (counted [c_zen] [c_jou]) ([c_zen] @ kanji_of_nat n @ [c_jou]) = Some p"
    "kanjiToNumber (grp p 1) = int n" by (rule counted_reads1 [OF assms(1,2) jou])
  obtain q where q: "rx_match (counted [c_ji] [c_jou]) ([c_ji] @ kanji_of_nat n @ [c_jou]) = Some q"
    "kanjiToNumber (grp q 1) = int n" by (rule counted_reads1 [OF assms(1,2) jou])
  have no: "rx_match (counted [c_zen] [c_jou]) ([c_ji] @ kanji_of_nat n @ [c_jou]) = None"
    by (rule counted_rejects) simp
  have "nat (max 1 (int a - int n)) = max 1 (a - n)" "nat (int a + int n) = a + n" by simp_all
  with resolve_prev_articles [OF trim_counted [OF ws(2,1)] _ _ p(1) a]
    resolve_next_articles [OF trim_counted [OF ws(3,1)] _ _ no q(1) a] ne p(2) q(2)
  show ?thesis by (simp add: neq_Nil_conv)
qed

theorem resolve_counted_article_witness:
  "kanji_of_nat 12 = [c_juu, c_ni] \<and>
   map_option rr_articleNumber (resolve ([c_ji] @ [c_juu, c_ni] @ [c_jou])
     \<lparr>cx_lawId = [], cx_lawName = None, cx_articleNumber = nat_str 30, cx_paragraphNumber = None,
      cx_itemNumber = None, cx_totalParagraphs = None\<rparr>) = Some (nat_str 42)"
proof -
  have k: "kanji_of_nat 12 = [c_juu, c_ni]" by code_simp
  with resolve_counted_article [of 12 "\<lparr>cx_lawId = [], cx_lawName = None, cx_articleNumber = nat_str 30,
      cx_paragraphNumber = None, cx_itemNumber = None, cx_totalParagraphs = None\<rparr>" 30]
  show ?thesis by (simp add: target_def del: nat_str.simps)
qed


definition sample_context :: CurrentContext where
  "sample_context = \<lparr>cx_lawId = (str ''A''), cx_lawName = None, cx_articleNumber = (str ''3''),
     cx_paragraphNumber = Some 2, cx_itemNumber = None, cx_totalParagraphs = None\<rparr>"

lemma sample_context_ok: "context_ok sample_context"
  by code_simp


text \<open>following "the next article" and then "the previous article" leads back to
  the article one came from, and so do "the next paragraph" and "the previous paragraph".\<close>

theorem next_prev_roundtrip:
  assumes "context_ok c"
  shows "map_option rr_articleNumber (resolve [c_zen, c_jou] (context_after c (resolve [c_ji, c_jou] c))) = Some (cx_articleNumber c) \<and>
    map_option (\<lambda>r. (rr_articleNumber r, rr_paragraphNumber r)) (resolve [c_zen, c_kou] (context_after c (resolve [c_ji, c_kou] c))) =
      Some (cx_articleNumber c, Some (currentPara (cx_paragraphNumber c)))"
proof -
  from assms obtain a where a: "1 \<le> a" "cx_articleNumber c = int_str a"
    "parse_int10 (cx_articleNumber c) = Some a" by (rule context_ok_article)
  have tr: "trim [c_zen, c_jou] = [c_zen, c_jou]" "trim [c_ji, c_jou] = [c_ji, c_jou]" "trim [c_zen, c_kou] = [c_zen, c_kou]" "trim [c_ji, c_kou] = [c_ji, c_kou]"
    by (simp_all add: trim_def is_ws_def)
  have no: "rx_match (counted [c_zen] [c_jou]) [c_zen, c_kou] = None" "rx_match (counted [c_ji] [c_jou]) [c_zen, c_kou] = None"
    "rx_match (counted [c_zen] [c_jou]) [c_ji, c_kou] = None" "rx_match (counted [c_ji] [c_jou]) [c_ji, c_kou] = None"
    by (auto intro!: counted_rejects simp: Cons_eq_append_conv)
  have na: "resolve [c_ji, c_jou] d = Some (target d (num_str (nadd (parse_int10 (cx_articleNumber d)) 1)) None None (95/100) Exact None)"
    and np: "resolve [c_ji, c_kou] d = Some (target d (cx_articleNumber d)
        (Some (currentPara (cx_paragraphNumber d) + 1)) None (95/100) Exact None)" for d
    unfolding resolve_def resolve_counted_defs by (simp_all add: tr no)
  have pa: "\<not> nle (parse_int10 (cx_articleNumber d)) 1 \<Longrightarrow> resolve [c_zen, c_jou] d =
      Some (target d (num_str (nadd (parse_int10 (cx_articleNumber d)) (-1))) None None (95/100) Exact None)"
    and pp: "1 < currentPara (cx_paragraphNumber d) \<Longrightarrow> resolve [c_zen, c_kou] d =
      Some (target d (cx_articleNumber d) (Some (currentPara (cx_paragraphNumber d) - 1)) None (95/100) Exact None)" for d
    unfolding resolve_def resolve_counted_defs by (simp_all add: tr no)
  have after_a: "context_after c (resolve [c_ji, c_jou] c) =
      c\<lparr>cx_articleNumber := int_str (a + 1), cx_paragraphNumber := Some 1, cx_itemNumber := None\<rparr>"
    using a by (auto simp: na context_after_def target_def currentPara_def num_str_def nadd_def)
  let ?p = "currentPara (cx_paragraphNumber c)"
  have p: "1 \<le> ?p" by (rule currentPara_pos [OF assms])
  then have after_p: "currentPara (cx_paragraphNumber (context_after c (resolve [c_ji, c_kou] c))) = ?p + 1"
    "cx_articleNumber (context_after c (resolve [c_ji, c_kou] c)) = cx_articleNumber c"
    by (auto simp: np context_after_def target_def currentPara_def split: option.splits)
  have "map_option rr_articleNumber (resolve [c_zen, c_jou] (context_after c (resolve [c_ji, c_jou] c))) = Some (cx_articleNumber c)"
    unfolding after_a using a by (subst pa) (auto simp: nle_def target_def num_str_def nadd_def)
  moreover have "map_option (\<lambda>r. (rr_articleNumber r, rr_paragraphNumber r))
      (resolve [c_zen, c_kou] (context_after c (resolve [c_ji, c_kou] c))) = Some (cx_articleNumber c, Some ?p)"
    using p after_p by (subst pp) (auto simp: target_def)
  ultimately show ?thesis by blast
qed

theorem next_prev_roundtrip_witness:
  "context_ok sample_context \<and>
   map_option rr_articleNumber (resolve [c_zen, c_jou] (context_after sample_context (resolve [c_ji, c_jou] sample_context))) = Some (str ''3'')"
proof -
  have "cx_articleNumber sample_context = (str ''3'')" by (simp add: sample_context_def)
  with next_prev_roundtrip [OF sample_context_ok] sample_context_ok show ?thesis by simp
qed

text \<open>What the table does to a numeral it lacks, and "all preceding paragraphs" in a first paragraph: the
  resolver answers article 39 for "the previous 26 articles" of article 40, and paragraph 0.\<close>

lemma numeral_outside_table:
  "map_option rr_articleNumber (resolve [c_zen, c_ni, c_juu, c_roku, c_jou] (sample_context\<lparr>cx_articleNumber := (str ''40'')\<rparr>)) = Some (str ''39'')"
  by code_simp

lemma all_preceding_of_first:
  "map_option rr_paragraphNumber (resolve [c_zen, c_kaku, c_kou] (sample_context\<lparr>cx_paragraphNumber := Some 1\<rparr>)) = Some (Some 0)"
  by code_simp


end
