(* ===== verification/ReferenceCache.thy ===== *)
theory ReferenceCache
  imports Prelude
begin

text \<open>
  \<^verbatim>\<open>src/lib/reference-cache.ts\<close>: the cache of detection results, with a capacity, a lifetime and least
  recently used eviction. The \<open>Map\<close> is an insertion-ordered association list, \<open>accessOrder\<close> the list
  of keys from the least to the most recently used. The time is an argument of the operations that
  call \<open>Date.now\<close>. Two things are parameters (record \<open>env\<close>): the case folding of \<open>toLowerCase\<close>, a
  table of the host, and the SHA-256 digest of the crypto module; the results hold for all of them.
  The cached references are of an arbitrary type: the cache never looks into them. \<open>serialize\<close> and
  \<open>deserialize\<close> are modelled up to the JSON value they print and parse.
\<close>

section \<open>The code\<close>

record env =
  toLowerCase :: "jsstr \<Rightarrow> jsstr"
  sha256 :: "jsstr \<Rightarrow> jsstr"

record 'r CacheEntry =
  references :: "'r list"
  timestamp :: int
  hitCount :: nat
  entryVersion :: jsstr

record CacheStatistics =
  cs_totalHits :: nat
  cs_totalMisses :: nat
  cs_hitRate :: rat
  cs_cacheSize :: nat
  cs_maxSize :: nat
  cs_oldestEntry :: "int option"
  cs_mostHitEntry :: "(jsstr \<times> nat) option"

record 'r ReferenceCache =
  cache :: "(jsstr, 'r CacheEntry) jsmap"
  accessOrder :: "jsstr list"
  maxSize :: nat
  ttl :: int
  totalHits :: nat
  totalMisses :: nat
  detectorVersion :: jsstr

text \<open>\<open>options.x || d\<close>\<close>

definition or_default :: "'a::zero option \<Rightarrow> 'a \<Rightarrow> 'a" where
  "or_default x d = (case x of None \<Rightarrow> d | Some v \<Rightarrow> if v = 0 then d else v)"

definition or_str :: "jsstr option \<Rightarrow> jsstr \<Rightarrow> jsstr" where
  "or_str x d = (case x of None \<Rightarrow> d | Some v \<Rightarrow> if v = [] then d else v)"

definition new_cache :: "nat option \<Rightarrow> int option \<Rightarrow> jsstr option \<Rightarrow> 'r ReferenceCache" where
  "new_cache capacity lifetime version =
     \<lparr>cache = [], accessOrder = [], maxSize = or_default capacity 1000, ttl = or_default lifetime 3600000,
      totalHits = 0, totalMisses = 0, detectorVersion = or_str version (str ''4.0.0'')\<rparr>"

definition generateKey :: "env \<Rightarrow> jsstr \<Rightarrow> jsstr option \<Rightarrow> jsstr" where
  "generateKey e text context =
     (let normalizedText = toLowerCase e (trim text);
          contextPart = (case context of None \<Rightarrow> [] | Some c \<Rightarrow> if c = [] then [] else (str '':'') @ c);
          combined = normalizedText @ contextPart
      in if 100 < length combined then sha256 e combined else combined)"

text \<open>\<open>indexOf\<close> and \<open>splice\<close>: the first occurrence is removed.\<close>

definition removeFromAccessOrder :: "jsstr \<Rightarrow> 'r ReferenceCache \<Rightarrow> 'r ReferenceCache" where
  "removeFromAccessOrder key c = c\<lparr>accessOrder := remove1 key (accessOrder c)\<rparr>"

definition updateAccessOrder :: "jsstr \<Rightarrow> 'r ReferenceCache \<Rightarrow> 'r ReferenceCache" where
  "updateAccessOrder key c =
     (let c' = removeFromAccessOrder key c in c'\<lparr>accessOrder := accessOrder c' @ [key]\<rparr>)"

definition evictLRU :: "'r ReferenceCache \<Rightarrow> 'r ReferenceCache" where
  "evictLRU c =
     (case accessOrder c of
        [] \<Rightarrow> c
      | lruKey # rest \<Rightarrow> c\<lparr>cache := AList.delete lruKey (cache c), accessOrder := rest\<rparr>)"

definition expired :: "'r ReferenceCache \<Rightarrow> int \<Rightarrow> 'r CacheEntry \<Rightarrow> bool" where
  "expired c now entry \<longleftrightarrow> ttl c < now - timestamp entry"

definition drop_key :: "jsstr \<Rightarrow> 'r ReferenceCache \<Rightarrow> 'r ReferenceCache" where
  "drop_key key c = removeFromAccessOrder key (c\<lparr>cache := AList.delete key (cache c)\<rparr>)"

definition get :: "env \<Rightarrow> int \<Rightarrow> jsstr \<Rightarrow> jsstr option \<Rightarrow> 'r ReferenceCache \<Rightarrow> 'r list option \<times> 'r ReferenceCache" where
  "get e now text context c =
     (let key = generateKey e text context in
      case map_of (cache c) key of
        None \<Rightarrow> (None, c\<lparr>totalMisses := totalMisses c + 1\<rparr>)
      | Some entry \<Rightarrow>
          if expired c now entry then
            (let c' = drop_key key c in (None, c'\<lparr>totalMisses := totalMisses c' + 1\<rparr>))
          else if entryVersion entry \<noteq> detectorVersion c then
            (let c' = drop_key key c in (None, c'\<lparr>totalMisses := totalMisses c' + 1\<rparr>))
          else
            (let c1 = c\<lparr>totalHits := totalHits c + 1,
                       cache := AList.update key (entry\<lparr>hitCount := hitCount entry + 1\<rparr>) (cache c)\<rparr>
             in (Some (references entry), updateAccessOrder key c1)))"

definition set_refs :: "env \<Rightarrow> int \<Rightarrow> jsstr \<Rightarrow> 'r list \<Rightarrow> jsstr option \<Rightarrow> 'r ReferenceCache \<Rightarrow> 'r ReferenceCache" where
  "set_refs e now text refs context c =
     (let key = generateKey e text context;
          c1 = (if maxSize c \<le> length (cache c) \<and> \<not> map_has (cache c) key then evictLRU c else c);
          entry = \<lparr>references = refs, timestamp = now, hitCount = 0, entryVersion = detectorVersion c\<rparr>;
          c2 = c1\<lparr>cache := AList.update key entry (cache c1)\<rparr>
      in updateAccessOrder key c2)"

definition has :: "env \<Rightarrow> int \<Rightarrow> jsstr \<Rightarrow> jsstr option \<Rightarrow> 'r ReferenceCache \<Rightarrow> bool \<times> 'r ReferenceCache" where
  "has e now text context c =
     (let key = generateKey e text context in
      case map_of (cache c) key of
        None \<Rightarrow> (False, c)
      | Some entry \<Rightarrow>
          if expired c now entry \<or> entryVersion entry \<noteq> detectorVersion c then (False, drop_key key c)
          else (True, c))"

definition delete_entry :: "env \<Rightarrow> jsstr \<Rightarrow> jsstr option \<Rightarrow> 'r ReferenceCache \<Rightarrow> bool \<times> 'r ReferenceCache" where
  "delete_entry e text context c =
     (let key = generateKey e text context; c1 = removeFromAccessOrder key c
      in (map_has (cache c1) key, c1\<lparr>cache := AList.delete key (cache c1)\<rparr>))"

definition clear :: "'r ReferenceCache \<Rightarrow> 'r ReferenceCache" where
  "clear c = c\<lparr>cache := [], accessOrder := [], totalHits := 0, totalMisses := 0\<rparr>"

fun stats_step :: "int option \<times> (jsstr \<times> nat) option \<times> nat \<Rightarrow> jsstr \<times> 'r CacheEntry \<Rightarrow>
    int option \<times> (jsstr \<times> nat) option \<times> nat" where
  "stats_step (oldest, most, maxHits) (key, entry) =
     (let oldest' = (case oldest of
            None \<Rightarrow> Some (timestamp entry)
          | Some t \<Rightarrow> if timestamp entry < t then Some (timestamp entry) else oldest)
      in if maxHits < hitCount entry then (oldest', Some (key, hitCount entry), hitCount entry)
         else (oldest', most, maxHits))"

definition getStatistics :: "'r ReferenceCache \<Rightarrow> CacheStatistics" where
  "getStatistics c =
     (case foldl stats_step (None, None, 0) (cache c) of (oldest, most, _) \<Rightarrow>
        \<lparr>cs_totalHits = totalHits c, cs_totalMisses = totalMisses c,
         cs_hitRate = (if 0 < totalHits c + totalMisses c
           then rat_of_nat (totalHits c) / rat_of_nat (totalHits c + totalMisses c) else 0),
         cs_cacheSize = length (cache c), cs_maxSize = maxSize c,
         cs_oldestEntry = oldest, cs_mostHitEntry = most\<rparr>)"

definition size_of :: "'r ReferenceCache \<Rightarrow> nat" where
  "size_of c = length (cache c)"

definition pruneExpired :: "int \<Rightarrow> 'r ReferenceCache \<Rightarrow> nat \<times> 'r ReferenceCache" where
  "pruneExpired now c =
     (let keysToDelete = map fst (filter (\<lambda>(key, entry).
            expired c now entry \<or> entryVersion entry \<noteq> detectorVersion c) (cache c))
      in (length keysToDelete, foldl (\<lambda>d key. drop_key key d) c keysToDelete))"

definition estimateMemoryUsage :: "'r ReferenceCache \<Rightarrow> nat" where
  "estimateMemoryUsage c =
     sum_list (map (\<lambda>(key, entry). length key * 2 + (8 + 8 + 8) + length (references entry) * 200) (cache c)) +
     length (accessOrder c) * 50"

definition warmup :: "env \<Rightarrow> (int \<times> jsstr \<times> 'r list \<times> jsstr option) list \<Rightarrow> 'r ReferenceCache \<Rightarrow> 'r ReferenceCache" where
  "warmup e patterns c =
     foldl (\<lambda>d (now, text, refs, context). set_refs e now text refs context d) c patterns"

text \<open>The value that \<open>JSON.stringify\<close> prints and \<open>JSON.parse\<close> returns.\<close>

record 'r SerializedCache =
  sc_version :: jsstr
  sc_entries :: "(jsstr \<times> 'r CacheEntry) list"
  sc_statistics :: "(nat \<times> nat) option"


definition deserialize :: "'r SerializedCache \<Rightarrow> jsstr \<Rightarrow> 'r ReferenceCache" where
  "deserialize parsed version =
     (let c = new_cache None None (Some version) in
      if sc_version parsed = version then
        (let c1 = foldl (\<lambda>d (key, entry).
               d\<lparr>cache := AList.update key entry (cache d), accessOrder := accessOrder d @ [key]\<rparr>)
               c (sc_entries parsed)
         in case sc_statistics parsed of
              None \<Rightarrow> c1
            | Some (hits, misses) \<Rightarrow> c1\<lparr>totalHits := hits, totalMisses := misses\<rparr>)
      else c)"

text \<open>The module variable \<open>globalCache\<close>.\<close>

definition getGlobalCache :: "jsstr option \<Rightarrow> 'r ReferenceCache option \<Rightarrow> 'r ReferenceCache \<times> 'r ReferenceCache option" where
  "getGlobalCache version globalCache =
     (case globalCache of
        None \<Rightarrow> (let c = new_cache None None version in (c, Some c))
      | Some c \<Rightarrow> (c, Some c))"

definition clearGlobalCache :: "'r ReferenceCache option \<Rightarrow> 'r ReferenceCache option" where
  "clearGlobalCache globalCache = map_option clear globalCache"

section \<open>The invariant\<close>

text \<open>The keys are distinct, the access order is an arrangement of them, and the capacity is kept.\<close>

definition cache_ok :: "'r ReferenceCache \<Rightarrow> bool" where
  "cache_ok c \<longleftrightarrow> map_wf (cache c) \<and> distinct (accessOrder c) \<and>
     set (accessOrder c) = set (map_keys (cache c)) \<and> length (cache c) \<le> maxSize c \<and> 0 < maxSize c"

text \<open>The operations that change a cache, as data.\<close>

datatype 'r cache_op =
    Get int jsstr "jsstr option"
  | Put int jsstr "'r list" "jsstr option"
  | Has int jsstr "jsstr option"
  | Del jsstr "jsstr option"
  | Clear
  | Prune int
  | Warmup "(int \<times> jsstr \<times> 'r list \<times> jsstr option) list"

fun apply_op :: "env \<Rightarrow> 'r ReferenceCache \<Rightarrow> 'r cache_op \<Rightarrow> 'r ReferenceCache" where
  "apply_op e c (Get now t x) = snd (get e now t x c)"
| "apply_op e c (Put now t rs x) = set_refs e now t rs x c"
| "apply_op e c (Has now t x) = snd (has e now t x c)"
| "apply_op e c (Del t x) = snd (delete_entry e t x c)"
| "apply_op e c Clear = clear c"
| "apply_op e c (Prune now) = snd (pruneExpired now c)"
| "apply_op e c (Warmup ps) = warmup e ps c"

section \<open>Least recently used, as a specification\<close>

text \<open>
  The specification keeps one list of entries, from the least to the most recently used. Storing drops
  the head when the list is full and the key is new; a hit moves its entry to the end.
\<close>

type_synonym 'r lru = "(jsstr \<times> 'r CacheEntry) list"

definition lru_get :: "('r CacheEntry \<Rightarrow> bool) \<Rightarrow> jsstr \<Rightarrow> 'r lru \<Rightarrow> 'r list option \<times> 'r lru" where
  "lru_get fresh k xs =
     (case map_of xs k of
        None \<Rightarrow> (None, xs)
      | Some entry \<Rightarrow>
          if fresh entry
          then (Some (references entry), AList.delete k xs @ [(k, entry\<lparr>hitCount := hitCount entry + 1\<rparr>)])
          else (None, AList.delete k xs))"

definition lru_put :: "nat \<Rightarrow> jsstr \<Rightarrow> 'r CacheEntry \<Rightarrow> 'r lru \<Rightarrow> 'r lru" where
  "lru_put capacity k entry xs =
     (if map_of xs k = None then (if capacity \<le> length xs then tl xs else xs) else AList.delete k xs) @ [(k, entry)]"

definition recency :: "'r ReferenceCache \<Rightarrow> 'r lru" where
  "recency c = map (\<lambda>k. (k, the (map_of (cache c) k))) (accessOrder c)"

section \<open>Every operation keeps the invariant\<close>

lemmas order_defs = removeFromAccessOrder_def updateAccessOrder_def drop_key_def

lemma cache_okD:
  assumes "cache_ok c"
  shows "map_wf (cache c)" "distinct (accessOrder c)" "set (accessOrder c) = set (map_keys (cache c))"
    "length (cache c) \<le> maxSize c" "0 < maxSize c"
  using assms by (simp_all add: cache_ok_def)

lemma cache_ok_counters [simp]:
  "cache_ok (c\<lparr>totalHits := h\<rparr>) = cache_ok c" "cache_ok (c\<lparr>totalMisses := h\<rparr>) = cache_ok c"
  by (simp_all add: cache_ok_def)

lemma length_delete_le: "map_wf m \<Longrightarrow> length (AList.delete k m) = length m - (if map_of m k = None then 0 else 1)"
  using jsm.size_del [of m k] by simp

lemma length_update: "length (AList.update k v m) = length m + (if map_of m k = None then 1 else 0)"
  using jsm.size_put [of k v m] by simp

lemma drop_key_ok [inv_intros]: "cache_ok c \<Longrightarrow> cache_ok (drop_key k c)"
  by (auto simp: cache_ok_def order_defs jsm.wf_del jsm.set_keys_del length_delete_le)

lemma evictLRU_ok:
  assumes "cache_ok c"
  shows "cache_ok (evictLRU c)" "length (cache (evictLRU c)) = length (cache c) - 1" "maxSize (evictLRU c) = maxSize c"
proof -
  have ok: "cache_ok (evictLRU c) \<and> length (cache (evictLRU c)) = length (cache c) - 1"
  proof (cases "accessOrder c")
    case Nil
    with cache_okD(3) [OF assms] have "cache c = []" by (simp add: map_keys_def)
    with Nil assms show ?thesis by (simp add: evictLRU_def)
  next
    case (Cons k ks)
    with cache_okD(3) [OF assms] have "map_of (cache c) k \<noteq> None" 
      using Cons jsm.keys_get [of k "cache c"] by auto
    with Cons assms show ?thesis
      by (auto simp: evictLRU_def cache_ok_def jsm.wf_del jsm.set_keys_del length_delete_le)
  qed
  then show "cache_ok (evictLRU c)" "length (cache (evictLRU c)) = length (cache c) - 1" by simp_all
  show "maxSize (evictLRU c) = maxSize c" by (simp add: evictLRU_def split: list.splits)
qed

text \<open>Storing an entry and making its key the most recent, when there is room for it.\<close>

lemma update_touch_ok:
  assumes "cache_ok c" "map_of (cache c) k = None \<Longrightarrow> length (cache c) < maxSize c"
  shows "cache_ok (updateAccessOrder k (c\<lparr>cache := AList.update k v (cache c)\<rparr>))"
  using assms by (auto simp: cache_ok_def order_defs Let_def jsm.wf_put jsm.set_keys_put length_update)

lemma set_refs_ok [inv_intros]: "cache_ok c \<Longrightarrow> cache_ok (set_refs e now t rs x c)"
  using evictLRU_ok [of c] cache_okD(4,5) [of c]
  by (auto simp: set_refs_def Let_def map_has_def intro!: update_touch_ok)

lemma get_ok [inv_intros]: "cache_ok c \<Longrightarrow> cache_ok (snd (get e now t x c))"
  using update_touch_ok [of "c\<lparr>totalHits := totalHits c + 1\<rparr>" "generateKey e t x"]
  by (auto simp: get_def Let_def split: option.splits intro: drop_key_ok)

lemma has_ok [inv_intros]: "cache_ok c \<Longrightarrow> cache_ok (snd (has e now t x c))"
  by (auto simp: has_def Let_def split: option.splits intro: drop_key_ok)

lemma delete_entry_drop: "snd (delete_entry e t x c) = drop_key (generateKey e t x) c"
  by (simp add: delete_entry_def order_defs Let_def)

lemma drop_keys_ok: "cache_ok c \<Longrightarrow> cache_ok (foldl (\<lambda>d k. drop_key k d) c ks)"
  by (induction ks arbitrary: c) (auto intro: drop_key_ok)

lemma warmup_ok: "cache_ok c \<Longrightarrow> cache_ok (warmup e ps c)"
  unfolding warmup_def by (induction ps arbitrary: c) (auto intro: set_refs_ok)

lemma clear_ok: "cache_ok c \<Longrightarrow> cache_ok (clear c)"
  by (simp add: cache_ok_def clear_def map_wf_def map_keys_def)

lemma apply_op_ok: "cache_ok c \<Longrightarrow> cache_ok (apply_op e c p)"
  by (cases p) (auto simp: delete_entry_drop pruneExpired_def Let_def
    intro: inv_intros drop_keys_ok warmup_ok clear_ok)

interpretation caching: invariant_machine "apply_op e" cache_ok "\<lambda>_. True" for e
  by unfold_locales (rule apply_op_ok)

lemma new_cache_ok: "cache_ok (new_cache n l v)"
  by (auto simp: cache_ok_def new_cache_def map_wf_def map_keys_def or_default_def split: option.splits)

section \<open>The cache implements the specification\<close>

lemma map_of_recency: "cache_ok c \<Longrightarrow> map_of (recency c) k = map_of (cache c) k"
  using jsm.keys_get [of k "cache c"]
  by (auto simp: recency_def cache_ok_def map_of_map_restrict restrict_map_def)

lemma length_recency: "cache_ok c \<Longrightarrow> length (recency c) = length (cache c)"
  using distinct_card [of "accessOrder c"] distinct_card [of "map_keys (cache c)"]
  by (simp add: recency_def cache_ok_def map_wf_def map_keys_def)

lemma delete_recency:
  assumes "distinct (accessOrder c)"
  shows "AList.delete k (recency c) = recency (drop_key k c)"
proof -
  have "AList.delete k (recency c) = map (\<lambda>k. (k, the (map_of (cache c) k))) (filter (\<lambda>k'. k' \<noteq> k) (accessOrder c))"
    by (auto simp: recency_def AList.delete_eq filter_map o_def intro!: arg_cong [of _ _ "map _"] filter_cong)
  also have "\<dots> = recency (drop_key k c)"
    using assms by (auto simp: recency_def order_defs remove1_distinct_filter delete_conv')
  finally show ?thesis .
qed

lemma recency_touch:
  assumes "cache_ok c"
  shows "recency (updateAccessOrder k (c\<lparr>cache := AList.update k v (cache c)\<rparr>)) = AList.delete k (recency c) @ [(k, v)]"
proof -
  have d: "distinct (accessOrder c)" using assms by (rule cache_okD)
  then show ?thesis unfolding delete_recency [OF d]
    by (auto simp: recency_def order_defs Let_def update_conv' delete_conv' remove1_distinct_filter)
qed

lemma recency_counters [simp]:
  "recency (c\<lparr>totalHits := h\<rparr>) = recency c" "recency (c\<lparr>totalMisses := h\<rparr>) = recency c"
  by (simp_all add: recency_def)

lemma get_refines:
  assumes "cache_ok c"
  shows "lru_get (\<lambda>entry. \<not> expired c now entry \<and> entryVersion entry = detectorVersion c) (generateKey e t x) (recency c) =
    (fst (get e now t x c), recency (snd (get e now t x c)))"
proof -
  have "recency (updateAccessOrder k (c\<lparr>totalHits := h, cache := AList.update k v (cache c)\<rparr>)) =
      AList.delete k (recency c) @ [(k, v)]" for k v h
    using recency_touch [of "c\<lparr>totalHits := h\<rparr>" k v] assms by simp
  then show ?thesis
    using assms cache_okD(2) [OF assms]
    by (auto simp: lru_get_def get_def Let_def map_of_recency delete_recency split: option.splits)
qed

lemma recency_evict:
  assumes "cache_ok c"
  shows "recency (evictLRU c) = tl (recency c)"
  using cache_okD(2) [OF assms]
  by (auto simp: evictLRU_def recency_def delete_conv' split: list.splits)

lemma set_refines:
  assumes "cache_ok c"
  shows "recency (set_refs e now t rs x c) = lru_put (maxSize c) (generateKey e t x)
    \<lparr>references = rs, timestamp = now, hitCount = 0, entryVersion = detectorVersion c\<rparr> (recency c)"
proof -
  let ?k = "generateKey e t x"
  have new: "map_of xs k = None \<Longrightarrow> AList.delete k xs = xs" for xs :: "'a lru" and k
    by (auto simp: delete_id map_of_eq_None_iff)
  have tail: "map_of xs k = None \<Longrightarrow> map_of (tl xs) k = None" for xs :: "'a lru" and k
    by (cases xs) (auto split: if_splits)
  have ver: "detectorVersion (evictLRU c) = detectorVersion c"
    by (simp add: evictLRU_def split: list.splits)
  show ?thesis
    using assms evictLRU_ok(1) [OF assms] new tail map_of_recency [OF assms, of ?k]
    by (auto simp: set_refs_def lru_put_def Let_def recency_touch recency_evict length_recency map_has_def ver)
qed

text \<open>What the specification promises, independently of the cache.\<close>

lemma length_lru_put: "distinct (map fst xs) \<Longrightarrow> length xs \<le> n \<Longrightarrow> 0 < n \<Longrightarrow> length (lru_put n k v xs) \<le> n"
  by (auto simp: lru_put_def length_delete_le map_wf_def)

lemma map_of_tl: "distinct (map fst xs) \<Longrightarrow> map_of (tl xs) k = (if xs \<noteq> [] \<and> fst (hd xs) = k then None else map_of xs k)"
  by (cases xs) (auto simp: map_of_eq_None_iff)

lemma map_of_lru_put:
  assumes "distinct (map fst xs)"
  shows "map_of (lru_put n k v xs) k' =
    (if k' = k then Some v
     else if map_of xs k = None \<and> n \<le> length xs \<and> xs \<noteq> [] \<and> k' = fst (hd xs) then None
     else map_of xs k')"
  using assms by (auto simp: lru_put_def map_add_def delete_conv' map_of_tl split: option.splits)

lemma stored_entry:
  assumes "cache_ok c" and d_def: "d = set_refs e now t rs x c"
  shows "map_of (cache d) (generateKey e t x) =
      Some \<lparr>references = rs, timestamp = now, hitCount = 0, entryVersion = detectorVersion c\<rparr>"
    "ttl d = ttl c" "detectorVersion d = detectorVersion c"
proof -
  have dist: "distinct (map fst (recency c))" using cache_okD(2) [OF assms(1)] by (simp add: recency_def o_def)
  show "map_of (cache d) (generateKey e t x) =
      Some \<lparr>references = rs, timestamp = now, hitCount = 0, entryVersion = detectorVersion c\<rparr>"
    using map_of_recency [OF set_refs_ok [OF assms(1)], of e now t rs x "generateKey e t x"]
      set_refines [OF assms(1), of e now t rs x]
    by (simp add: map_of_lru_put [OF dist] d_def)
  show "ttl d = ttl c" "detectorVersion d = detectorVersion c"
    by (simp_all add: d_def set_refs_def Let_def order_defs evictLRU_def split: list.splits)
qed

lemma deserialize_entries:
  assumes "map_wf (cache d @ es)"
  shows "foldl (\<lambda>d (key, entry). d\<lparr>cache := AList.update key entry (cache d), accessOrder := accessOrder d @ [key]\<rparr>) d es =
    d\<lparr>cache := cache d @ es, accessOrder := accessOrder d @ map fst es\<rparr>"
  using assms
proof (induction es arbitrary: d)
  case (Cons x es)
  obtain k v where x: "x = (k, v)" by force
  with Cons.prems have "k \<notin> fst ` set (cache d)" by (auto simp: map_wf_def)
  then have "AList.update k v (cache d) = cache d @ [x]" by (simp add: x alist_update_new)
  with Cons show ?case by (simp add: x)
qed simp

section \<open>Properties\<close>

text \<open>C9: after any sequence of operations on a new cache, with any times and texts, the access
  order is an arrangement of exactly the cached keys, without repetition, and the number of entries
  is at most the capacity.\<close>

theorem cache_run_ok:
  "cache_ok (foldl (apply_op e) (new_cache capacity lifetime version) ops)"
  by (rule caching.run_inv [OF new_cache_ok]) (simp add: list_all_iff)

text \<open>C4: a cache with the invariant implements the specification of a least recently
  used list: \<open>get\<close> answers and reorders as \<open>lru_get\<close> does, \<open>set\<close> stores and evicts as \<open>lru_put\<close> does.\<close>

theorem cache_refines_lru:
  assumes "cache_ok c"
  shows "lru_get (\<lambda>entry. \<not> expired c now entry \<and> entryVersion entry = detectorVersion c) (generateKey e t x) (recency c) =
      (fst (get e now t x c), recency (snd (get e now t x c))) \<and>
    recency (set_refs e now t rs x c) = lru_put (maxSize c) (generateKey e t x)
      \<lparr>references = rs, timestamp = now, hitCount = 0, entryVersion = detectorVersion c\<rparr> (recency c)"
  using get_refines [OF assms] set_refines [OF assms] by blast

definition sample_env :: env where
  "sample_env = \<lparr>toLowerCase = \<lambda>s. s, sha256 = take 64\<rparr>"

definition sample_cache :: "nat ReferenceCache" where
  "sample_cache = set_refs sample_env 1 (str ''b'') [2, 3] None (set_refs sample_env 0 (str ''a'') [1] None (new_cache (Some 2) None None))"

lemma sample_cache_ok: "cache_ok sample_cache"
  by code_simp

theorem cache_refines_lru_witness:
  "cache_ok sample_cache \<and> map fst (recency sample_cache) = [(str ''a''), (str ''b'')] \<and>
   map fst (recency (set_refs sample_env 2 (str ''c'') [] None sample_cache)) = [(str ''b''), (str ''c'')]"
proof (intro conjI)
  show "cache_ok sample_cache" by (rule sample_cache_ok)
  show "map fst (recency sample_cache) = [(str ''a''), (str ''b'')]" by code_simp
  have "recency (set_refs sample_env 2 (str ''c'') [] None sample_cache) = lru_put 2 (str ''c'')
      \<lparr>references = [], timestamp = 2, hitCount = 0, entryVersion = (str ''4.0.0'')\<rparr> (recency sample_cache)"
    using cache_refines_lru [OF sample_cache_ok, of 2 sample_env "(str ''c'')" None "[]"]
    by (simp add: sample_cache_def sample_env_def generateKey_def trim_def is_ws_def set_refs_def Let_def
      order_defs evictLRU_def new_cache_def or_default_def or_str_def)
  moreover have "map fst (lru_put 2 (str ''c'') \<lparr>references = [], timestamp = 2, hitCount = 0, entryVersion = (str ''4.0.0'')\<rparr>
      (recency sample_cache)) = [(str ''b''), (str ''c'')]" by code_simp
  ultimately show "map fst (recency (set_refs sample_env 2 (str ''c'') [] None sample_cache)) = [(str ''b''), (str ''c'')]" by simp
qed

text \<open>what was stored is returned, by a look-up with the same text and context within the
  lifetime; after the lifetime the look-up misses.\<close>

theorem get_after_set:
  assumes "cache_ok c"
  shows "fst (get e now' t x (set_refs e now t rs x c)) = (if now' - now \<le> ttl c then Some rs else None)"
  using stored_entry [OF assms refl, of e now t rs x] by (simp add: get_def Let_def expired_def)

theorem get_after_set_witness:
  "cache_ok sample_cache \<and> ttl sample_cache = 3600000 \<and>
   fst (get sample_env 3600005 (str ''c'') None (set_refs sample_env 5 (str ''c'') [7] None sample_cache)) = Some [7]"
proof -
  have "ttl sample_cache = 3600000" by code_simp
  with get_after_set [OF sample_cache_ok, of sample_env 3600005 "(str ''c'')" None 5 "[7]"] sample_cache_ok show ?thesis by simp
qed



text \<open>Restoring forgets the capacity: a restored cache may hold more entries than its own capacity.\<close>

lemma deserialize_capacity:
  assumes "1000 < length (sc_entries s)" "map_wf (sc_entries s)"
  shows "\<not> cache_ok (deserialize s (sc_version s))"
proof -
  have "map_wf (cache (new_cache None None (Some (sc_version s))) @ sc_entries s)"
    using assms(2) by (simp add: new_cache_def)
  from deserialize_entries [OF this] assms(1) show ?thesis
    by (auto simp: deserialize_def Let_def new_cache_def or_default_def cache_ok_def split: option.splits)
qed

text \<open>Two different requests can share a key: the separator may occur in the text.\<close>

lemma key_collision: "generateKey sample_env (str ''a:b'') None = generateKey sample_env (str ''a'') (Some (str ''b''))"
  by code_simp


end
