(* ===== verification/DomainModel.thy ===== *)
theory DomainModel
  imports JSRegex
begin

text \<open>
  \<^verbatim>\<open>src/domain/models\<close>, \<^verbatim>\<open>src/domain/value-objects\<close> and \<^verbatim>\<open>src/shared\<close>: the identifiers of laws and articles,
  the law, article, paragraph and reference entities, and the errors. A constructor that throws
  returns a sum, \<open>Inl\<close> the error. A date is its number of milliseconds; \<open>now\<close> is the argument that
  stands for \<open>new Date()\<close>. The identifier made by the uuid package is an argument.
\<close>

section \<open>Errors\<close>

datatype severity = LOW | MEDIUM | HIGH | CRITICAL

text \<open>The classes of \<^verbatim>\<open>src/shared/errors\<close>, and the plain \<open>Error\<close> with its message.\<close>

datatype domain_error =
    InvalidLawIdError jsstr
  | InvalidLawTitleError jsstr
  | NotFoundError jsstr jsstr
  | ValidationError jsstr "json option"
  | UnauthorizedError "jsstr option"
  | ForbiddenError "jsstr option"
  | XMLValidationError jsstr
  | PipelineError jsstr jsstr severity
  | PlainError jsstr

fun error_message :: "domain_error \<Rightarrow> jsstr" where
  "error_message (InvalidLawIdError value) = [0x4E0D, c_sei, h_na, c_hou, c_rei_order, 0x49, 0x44, h_de, h_su, 0x3A, 0x20] @ value"
| "error_message (InvalidLawTitleError value) = [0x4E0D, c_sei, h_na, c_hou, c_rei_order, 0x540D, h_de, h_su, 0x3A, 0x20] @ value"
| "error_message (NotFoundError resource ident) = resource @ [0x304C, 0x898B, h_tsu, h_ka, h_ri, h_ma, 0x305B, 0x3093, 0x3A, 0x20] @ ident"
| "error_message (ValidationError message details) = message"
| "error_message (UnauthorizedError message) = (case message of None \<Rightarrow> [0x8A8D, 0x8A3C, 0x304C, 0x5FC5, 0x8981, h_de, h_su] | Some m \<Rightarrow> m)"
| "error_message (ForbiddenError message) = (case message of None \<Rightarrow> [0x30A2, 0x30AF, 0x30BB, 0x30B9, 0x6A29, 0x9650, 0x304C, h_a, h_ri, h_ma, 0x305B, 0x3093] | Some m \<Rightarrow> m)"
| "error_message (XMLValidationError filePath) = [0x58, 0x4D, 0x4C, 0x30D5, 0x30A1, 0x30A4, 0x30EB, 0x304C, 0x4E0D, c_sei, h_de, h_su, 0x3A, 0x20] @ filePath"
| "error_message (PipelineError message step sev) = message"
| "error_message (PlainError message) = message"

record ErrorResponse =
  er_code :: jsstr
  er_message :: jsstr
  er_details :: "json option"
  er_statusCode :: nat

definition handle :: "domain_error \<Rightarrow> ErrorResponse" where
  "handle err =
     (case err of
        ValidationError m details \<Rightarrow>
          \<lparr>er_code = (str ''VALIDATION_ERROR''), er_message = error_message err, er_details = details, er_statusCode = 400\<rparr>
      | NotFoundError r i \<Rightarrow>
          \<lparr>er_code = (str ''NOT_FOUND''), er_message = error_message err, er_details = None, er_statusCode = 404\<rparr>
      | UnauthorizedError m \<Rightarrow>
          \<lparr>er_code = (str ''UNAUTHORIZED''), er_message = error_message err, er_details = None, er_statusCode = 401\<rparr>
      | ForbiddenError m \<Rightarrow>
          \<lparr>er_code = (str ''FORBIDDEN''), er_message = error_message err, er_details = None, er_statusCode = 403\<rparr>
      | _ \<Rightarrow>
          \<lparr>er_code = (str ''INTERNAL_ERROR''), er_message = [0x30B5, 0x30FC, 0x30D0, 0x30FC, 0x30A8, 0x30E9, 0x30FC, 0x304C, 0x767A, 0x751F, h_shi, h_ma, h_shi, h_ta], er_details = None, er_statusCode = 500\<rparr>)"

type_synonym 'a result = "domain_error + 'a"

fun bind_result :: "'a result \<Rightarrow> ('a \<Rightarrow> 'b result) \<Rightarrow> 'b result" where
  "bind_result (Inl e) f = Inl e"
| "bind_result (Inr x) f = f x"

section \<open>Identifiers\<close>

datatype LawType = Act | CabinetOrder | MinisterialOrdinance | Rule | Regulation

datatype LawStatus = Active | Repealed | NotYetEnforced

datatype ReferenceType = APPLY | DEEM | REPLACE | EXCEPT | FOLLOW | LIMIT | REGARDLESS | RELATE
  | STIPULATE | EXAMPLE | SIMILAR | SUBSTITUTE | ADDITION

definition PRIMARY_REFERENCE_TYPES :: "ReferenceType list" where
  "PRIMARY_REFERENCE_TYPES = [APPLY, DEEM, REPLACE, EXCEPT]"

text \<open>The string of a reference type, as it appears in a template.\<close>

fun type_name :: "ReferenceType \<Rightarrow> jsstr" where
  "type_name APPLY = (str ''APPLY'')"
| "type_name DEEM = (str ''DEEM'')"
| "type_name REPLACE = (str ''REPLACE'')"
| "type_name EXCEPT = (str ''EXCEPT'')"
| "type_name FOLLOW = (str ''FOLLOW'')"
| "type_name LIMIT = (str ''LIMIT'')"
| "type_name REGARDLESS = (str ''REGARDLESS'')"
| "type_name RELATE = (str ''RELATE'')"
| "type_name STIPULATE = (str ''STIPULATE'')"
| "type_name EXAMPLE = (str ''EXAMPLE'')"
| "type_name SIMILAR = (str ''SIMILAR'')"
| "type_name SUBSTITUTE = (str ''SUBSTITUTE'')"
| "type_name ADDITION = (str ''ADDITION'')"

fun LAW_TYPE_CODES :: "LawType \<Rightarrow> jsstr" where
  "LAW_TYPE_CODES Act = (str ''AC'')"
| "LAW_TYPE_CODES CabinetOrder = (str ''CO'')"
| "LAW_TYPE_CODES MinisterialOrdinance = (str ''MO'')"
| "LAW_TYPE_CODES Rule = (str ''RL'')"
| "LAW_TYPE_CODES Regulation = (str ''RG'')"

datatype LawId = LawId (law_value: jsstr)

definition law_isValid :: "jsstr \<Rightarrow> bool" where
  "law_isValid value = rx_test (rseq [RBol, RRep (RCls False rng_digit) 3 (Some 3) True, RRep (RCls False [(0x41, 0x5A)]) 2 (Some 2) True, RRep (RCls False rng_digit) 10 (Some 10) True, REol]) value"

definition new_LawId :: "jsstr \<Rightarrow> LawId result" where
  "new_LawId value = (if law_isValid value then Inr (LawId value) else Inl (InvalidLawIdError value))"

definition generate_LawId :: "LawType \<Rightarrow> int \<Rightarrow> int \<Rightarrow> LawId result" where
  "generate_LawId type year num =
     (let typeCode = LAW_TYPE_CODES type;
          yearStr = pad_start 3 0x30 (int_str year);
          numStr = pad_start 10 0x30 (int_str num)
      in new_LawId (yearStr @ typeCode @ numStr))"

definition law_year :: "LawId \<Rightarrow> int option" where
  "law_year l = parse_int (substring (law_value l) 0 3)"

definition law_typeCode :: "LawId \<Rightarrow> jsstr" where
  "law_typeCode l = substring (law_value l) 3 5"

definition law_number :: "LawId \<Rightarrow> int option" where
  "law_number l = parse_int (drop 5 (law_value l))"

datatype ArticleId = ArticleId (article_value: jsstr)

definition article_isValid :: "jsstr \<Rightarrow> bool" where
  "article_isValid value = rx_test (rseq [RBol, RRep (RCls False [(0x30, 0x39), (0x41, 0x5A)]) 15 (Some 15) True, RLit (str ''_art''), rplus (RCls False rng_digit), REol]) value"

definition new_ArticleId :: "jsstr \<Rightarrow> ArticleId result" where
  "new_ArticleId value =
     (if article_isValid value then Inr (ArticleId value) else Inl (PlainError ([0x4E0D, c_sei, h_na, c_jou, 0x6587, 0x49, 0x44, h_de, h_su, 0x3A, 0x20] @ value)))"

definition generate_ArticleId :: "LawId \<Rightarrow> int \<Rightarrow> ArticleId result" where
  "generate_ArticleId l articleNum = new_ArticleId (law_value l @ (str ''_art'') @ int_str articleNum)"

definition article_lawId :: "ArticleId \<Rightarrow> jsstr" where
  "article_lawId a = hd (split_char 0x5F (article_value a))"

definition article_number :: "ArticleId \<Rightarrow> int option" where
  "article_number a =
     (case rx_match (rseq [RLit (str ''_art''), RGrp 1 (rplus (RCls False rng_digit)), REol]) (article_value a) of
        Some m \<Rightarrow> parse_int (grp m 1)
      | None \<Rightarrow> Some 0)"

datatype LawTitle = LawTitle (title_value: jsstr) (title_kana: "jsstr option")

definition new_LawTitle :: "jsstr \<Rightarrow> jsstr option \<Rightarrow> LawTitle result" where
  "new_LawTitle value kana =
     (if value = [] \<or> 500 < length value then Inl (InvalidLawTitleError value) else Inr (LawTitle value kana))"

definition getAbbreviation :: "LawTitle \<Rightarrow> jsstr" where
  "getAbbreviation t =
     replace_first (rseq [RLit [0x7B49, h_ni, 0x95A2, h_su, h_ru, c_hou, c_ritsu], REol]) (\<lambda>_. [0x7B49, c_hou])
       (replace_first (rseq [RLit [h_no, c_ichi, 0x90E8, h_wo, c_kai, c_sei, h_su, h_ru, c_hou, c_ritsu], REol]) (\<lambda>_. [c_kai, c_sei, c_hou])
         (replace_first (rseq [RLit [h_ni, 0x95A2, h_su, h_ru, c_hou, c_ritsu], REol]) (\<lambda>_. [c_hou]) (title_value t)))"

definition normalize_title :: "LawTitle \<Rightarrow> jsstr" where
  "normalize_title t =
     replace_all (RLit [c_fu, c_soku]) (\<lambda>_. [0x4ED8, c_soku])
       (replace_all (rseq [RLit [p_lparen], RGrp 1 (rplus (RCls True rng_eol)), RLit [p_rparen]]) (\<lambda>m. (str ''('') @ grp m 1 @ (str '')''))
         (replace_all (rplus (RCls False rng_ws)) (\<lambda>_. []) (title_value t)))"

datatype ReferenceId = ReferenceId (reference_value: jsstr)

definition new_ReferenceId :: "jsstr \<Rightarrow> ReferenceId result" where
  "new_ReferenceId value = (if value = [] then Inl (PlainError [0x53C2, 0x7167, 0x49, 0x44, 0x304C, 0x7A7A, h_de, h_su]) else Inr (ReferenceId value))"

definition generate_ReferenceId :: "jsstr \<Rightarrow> ReferenceId result" where
  "generate_ReferenceId uuid = new_ReferenceId ((str ''ref_'') @ uuid)"

section \<open>References\<close>

datatype NodeType = LawNode | ArticleNode | ParagraphNode | ItemNode

record ReferenceNode =
  rn_type :: NodeType
  rn_id :: jsstr
  rn_text :: "jsstr option"

record AIAnalysisResult =
  ai_confidence :: rat
  ai_model :: jsstr
  ai_analyzedAt :: int
  ai_reasoning :: "jsstr option"
  ai_ambiguityNotes :: "jsstr option"
  ai_verified :: bool

record Reference =
  ref_id :: ReferenceId
  ref_source :: ReferenceNode
  ref_target :: ReferenceNode
  ref_type :: ReferenceType
  ref_sourceText :: jsstr
  ref_confidence :: rat
  ref_aiAnalysis :: "AIAnalysisResult option"
  ref_humanVerified :: bool
  ref_createdAt :: int

definition create_Reference :: "jsstr \<Rightarrow> int \<Rightarrow> ReferenceNode \<Rightarrow> ReferenceNode \<Rightarrow> ReferenceType \<Rightarrow> jsstr \<Rightarrow>
    rat option \<Rightarrow> Reference result" where
  "create_Reference uuid now source tgt type sourceText confidence =
     bind_result (generate_ReferenceId uuid) (\<lambda>ident.
       Inr \<lparr>ref_id = ident, ref_source = source, ref_target = tgt, ref_type = type,
            ref_sourceText = sourceText, ref_confidence = (case confidence of None \<Rightarrow> 0 | Some c \<Rightarrow> c),
            ref_aiAnalysis = None, ref_humanVerified = False, ref_createdAt = now\<rparr>)"

definition verify :: "Reference \<Rightarrow> Reference" where
  "verify r = r\<lparr>ref_humanVerified := True, ref_confidence := 1\<rparr>"

definition updateAIAnalysis :: "AIAnalysisResult \<Rightarrow> Reference \<Rightarrow> Reference" where
  "updateAIAnalysis analysis r = r\<lparr>ref_aiAnalysis := Some analysis, ref_confidence := ai_confidence analysis\<rparr>"

definition isOutgoing :: "jsstr \<Rightarrow> Reference \<Rightarrow> bool" where
  "isOutgoing nodeId r \<longleftrightarrow> rn_id (ref_source r) = nodeId"

definition isIncoming :: "jsstr \<Rightarrow> Reference \<Rightarrow> bool" where
  "isIncoming nodeId r \<longleftrightarrow> rn_id (ref_target r) = nodeId"

definition isPrimaryType :: "Reference \<Rightarrow> bool" where
  "isPrimaryType r \<longleftrightarrow> ref_type r \<in> set PRIMARY_REFERENCE_TYPES"

definition needsReview :: "Reference \<Rightarrow> bool" where
  "needsReview r \<longleftrightarrow> ref_confidence r < 7/10 \<and> \<not> ref_humanVerified r"

section \<open>Paragraphs, articles and laws\<close>

record Paragraph =
  par_id :: jsstr
  par_articleId :: ArticleId
  par_number :: nat
  par_content :: jsstr
  par_items :: "jsstr list"
  par_createdAt :: int

definition create_Paragraph :: "int \<Rightarrow> ArticleId \<Rightarrow> nat \<Rightarrow> jsstr \<Rightarrow> Paragraph" where
  "create_Paragraph now a num content =
     \<lparr>par_id = article_value a @ (str ''_para'') @ nat_str num, par_articleId = a, par_number = num,
      par_content = content, par_items = [], par_createdAt = now\<rparr>"

definition addItem :: "jsstr \<Rightarrow> Paragraph \<Rightarrow> Paragraph" where
  "addItem item p = p\<lparr>par_items := par_items p @ [item]\<rparr>"

record ItemData =
  it_itemId :: jsstr
  it_paragraphId :: jsstr
  it_itemNum :: nat
  it_content :: jsstr

record ParagraphData =
  pd_paragraphId :: jsstr
  pd_articleId :: jsstr
  pd_paragraphNum :: nat
  pd_content :: jsstr
  pd_items :: "ItemData list"

record ArticleData =
  ad_articleId :: jsstr
  ad_lawId :: jsstr
  ad_articleNum :: int
  ad_articleTitle :: "jsstr option"
  ad_content :: jsstr
  ad_paragraphs :: "ParagraphData list"

definition paragraph_toJSON :: "Paragraph \<Rightarrow> ParagraphData" where
  "paragraph_toJSON p =
     \<lparr>pd_paragraphId = par_id p, pd_articleId = article_value (par_articleId p), pd_paragraphNum = par_number p,
      pd_content = par_content p,
      pd_items = map (\<lambda>(index, item).
        \<lparr>it_itemId = par_id p @ (str ''_item'') @ nat_str (index + 1), it_paragraphId = par_id p,
         it_itemNum = index + 1, it_content = item\<rparr>) (enumerate 0 (par_items p))\<rparr>"

record Article =
  art_id :: ArticleId
  art_lawId :: LawId
  art_number :: int
  art_title :: "jsstr option"
  art_paragraphs :: "Paragraph list"
  art_references :: "Reference list"
  art_createdAt :: int

definition create_Article :: "int \<Rightarrow> LawId \<Rightarrow> int \<Rightarrow> jsstr option \<Rightarrow> Article result" where
  "create_Article now l num title =
     bind_result (generate_ArticleId l num) (\<lambda>ident.
       Inr \<lparr>art_id = ident, art_lawId = l, art_number = num, art_title = (if truthy title then title else None),
            art_paragraphs = [], art_references = [], art_createdAt = now\<rparr>)"

definition addParagraph :: "int \<Rightarrow> jsstr \<Rightarrow> Article \<Rightarrow> Paragraph \<times> Article" where
  "addParagraph now content a =
     (let num = length (art_paragraphs a) + 1;
          paragraph = create_Paragraph now (art_id a) num content
      in (paragraph, a\<lparr>art_paragraphs := art_paragraphs a @ [paragraph]\<rparr>))"

definition addReference :: "Reference \<Rightarrow> Article \<Rightarrow> Article" where
  "addReference r a = a\<lparr>art_references := art_references a @ [r]\<rparr>"

definition getOutgoingReferences :: "Article \<Rightarrow> Reference list" where
  "getOutgoingReferences a = filter (isOutgoing (article_value (art_id a))) (art_references a)"

definition getIncomingReferences :: "Article \<Rightarrow> Reference list" where
  "getIncomingReferences a = filter (isIncoming (article_value (art_id a))) (art_references a)"

definition fullText :: "Article \<Rightarrow> jsstr" where
  "fullText a = join [0xA] (map par_content (art_paragraphs a))"

definition article_toJSON :: "Article \<Rightarrow> ArticleData" where
  "article_toJSON a =
     \<lparr>ad_articleId = article_value (art_id a), ad_lawId = law_value (art_lawId a), ad_articleNum = art_number a,
      ad_articleTitle = art_title a, ad_content = fullText a,
      ad_paragraphs = map paragraph_toJSON (art_paragraphs a)\<rparr>"

record CreateLawParams =
  cl_type :: LawType
  cl_year :: int
  cl_number :: int
  cl_title :: jsstr
  cl_titleKana :: "jsstr option"
  cl_promulgateDate :: int

record Law =
  lw_id :: LawId
  lw_title :: LawTitle
  lw_type :: LawType
  lw_status :: LawStatus
  lw_promulgateDate :: int
  lw_enforceDate :: "int option"
  lw_articles :: "Article list"
  lw_createdAt :: int
  lw_updatedAt :: int

definition create_Law :: "int \<Rightarrow> CreateLawParams \<Rightarrow> Law result" where
  "create_Law now params =
     bind_result (generate_LawId (cl_type params) (cl_year params) (cl_number params)) (\<lambda>ident.
     bind_result (new_LawTitle (cl_title params) (cl_titleKana params)) (\<lambda>title.
       Inr \<lparr>lw_id = ident, lw_title = title, lw_type = cl_type params, lw_status = NotYetEnforced,
            lw_promulgateDate = cl_promulgateDate params, lw_enforceDate = None, lw_articles = [],
            lw_createdAt = now, lw_updatedAt = now\<rparr>))"

definition enforce :: "int \<Rightarrow> int \<Rightarrow> Law \<Rightarrow> Law result" where
  "enforce now date l =
     (if lw_status l \<noteq> NotYetEnforced then Inl (PlainError [0x65E2, h_ni, 0x65BD, 0x884C, h_sa, h_re, h_te, h_i, h_ru, c_hou, c_rei_order, h_de, h_su])
      else if date < lw_promulgateDate l then Inl (PlainError [0x65BD, 0x884C, 0x65E5, h_ha, 0x516C, 0x5E03, 0x65E5, h_yo, h_ri, c_go_after, h_de, h_a, h_ru, 0x5FC5, 0x8981, 0x304C, h_a, h_ri, h_ma, h_su])
      else Inr (l\<lparr>lw_enforceDate := Some date, lw_status := Active, lw_updatedAt := now\<rparr>))"

definition repeal :: "int \<Rightarrow> int \<Rightarrow> Law \<Rightarrow> Law result" where
  "repeal now date l =
     (if lw_status l = Repealed then Inl (PlainError [0x65E2, h_ni, 0x5EC3, 0x6B62, h_sa, h_re, h_te, h_i, h_ru, c_hou, c_rei_order, h_de, h_su])
      else Inr (l\<lparr>lw_status := Repealed, lw_updatedAt := now\<rparr>))"

definition addArticle :: "int \<Rightarrow> Article \<Rightarrow> Law \<Rightarrow> Law result" where
  "addArticle now a l =
     (case find (\<lambda>b. art_number b = art_number a) (lw_articles l) of
        Some existing \<Rightarrow> Inl (PlainError ([c_jou, 0x756A, c_gou, 0x20] @ int_str (art_number a) @ [0x20, h_ha, 0x65E2, h_ni, 0x5B58, 0x5728, h_shi, h_ma, h_su]))
      | None \<Rightarrow> Inr (l\<lparr>lw_articles := sort_key art_number (lw_articles l @ [a]), lw_updatedAt := now\<rparr>))"

record LawData =
  ld_lawId :: jsstr
  ld_lawType :: LawType
  ld_lawTitle :: jsstr
  ld_lawTitleKana :: "jsstr option"
  ld_status :: LawStatus
  ld_promulgateDate :: int
  ld_enforceDate :: "int option"
  ld_articleCount :: nat
  ld_createdAt :: int
  ld_updatedAt :: int

definition law_toJSON :: "Law \<Rightarrow> LawData" where
  "law_toJSON l =
     \<lparr>ld_lawId = law_value (lw_id l), ld_lawType = lw_type l, ld_lawTitle = title_value (lw_title l),
      ld_lawTitleKana = title_kana (lw_title l), ld_status = lw_status l,
      ld_promulgateDate = lw_promulgateDate l, ld_enforceDate = lw_enforceDate l,
      ld_articleCount = length (lw_articles l), ld_createdAt = lw_createdAt l, ld_updatedAt = lw_updatedAt l\<rparr>"

definition reconstruct_Law :: "LawData \<Rightarrow> Law result" where
  "reconstruct_Law d =
     bind_result (new_LawId (ld_lawId d)) (\<lambda>ident.
     bind_result (new_LawTitle (ld_lawTitle d) (ld_lawTitleKana d)) (\<lambda>title.
       Inr \<lparr>lw_id = ident, lw_title = title, lw_type = ld_lawType d, lw_status = ld_status d,
            lw_promulgateDate = ld_promulgateDate d, lw_enforceDate = ld_enforceDate d, lw_articles = [],
            lw_createdAt = ld_createdAt d, lw_updatedAt = ld_updatedAt d\<rparr>))"

section \<open>What an identifier is\<close>

definition is_upper :: "jschar \<Rightarrow> bool" where
  "is_upper c \<longleftrightarrow> 0x41 \<le> c \<and> c \<le> 0x5A"

lemma cls_digit: "in_cls False rng_digit = is_digit"
  by (auto simp: in_cls_def is_digit_def fun_eq_iff)

lemma rx_seq_eol:
  "rx n (RSeq a b) st = concat (map (rx n b) (rx n a st))"
  "rx n REol (t, cs) = (if t = [] then [(t, cs)] else [])"
  "rx n (RLit w) (t, cs) = (if starts_with t w then [(drop (length w) t, cs)] else [])"
  by simp_all

lemma law_isValid_iff:
  "law_isValid s \<longleftrightarrow> length s = 15 \<and> list_all is_digit (take 3 s) \<and> list_all is_upper (take 2 (drop 3 s)) \<and>
     list_all is_digit (drop 5 s)"
proof -
  have cls: "in_cls False [(0x41, 0x5A)] = is_upper"
    by (auto simp: in_cls_def is_upper_def fun_eq_iff)
  show ?thesis
    unfolding law_isValid_def rseq.simps rx_test_anchored rx_seq_eol(1)
    by (auto simp: rx_cls_exact cls cls_digit rx_seq_eol(2) simp del: rx.simps)
qed

lemma law_isValid_parts:
  assumes "length y = 3" "length t = 2" "length n = 10"
  shows "law_isValid (y @ t @ n) \<longleftrightarrow> list_all is_digit y \<and> list_all is_upper t \<and> list_all is_digit n"
  using assms by (simp add: law_isValid_iff)

lemma digits_int_str: "list_all is_digit (int_str i) \<longleftrightarrow> 0 \<le> i"
  using nat_str_digits [of _ "nat i"] by (auto simp: int_str_def list_all_iff) (simp add: is_digit_def)

lemma digits_pad: "list_all is_digit (pad_start k 0x30 s) \<longleftrightarrow> list_all is_digit s"
  by (auto simp: pad_start_def list_all_iff is_digit_def)

lemma type_code_shape: "length (LAW_TYPE_CODES t) = 2 \<and> list_all is_upper (LAW_TYPE_CODES t)"
  by (cases t) (simp_all add: is_upper_def)

lemma length_pad_int:
  "0 \<le> i \<Longrightarrow> length (pad_start (Suc k) 0x30 (int_str i)) = Suc k \<longleftrightarrow> i < 10 ^ Suc k"
  using length_nat_str_le [of "nat i" k]
  by (simp add: length_pad_start max_def nat_less_iff zless_nat_eq_int_zless del: power_Suc) linarith

lemma parse_pad: "0 \<le> i \<Longrightarrow> parse_int (pad_start k 0x30 (int_str i)) = Some i"
  using parse_int_digits [of "pad_start k 0x30 (int_str i)"] digits_pad [of k "int_str i"] digits_int_str [of i]
  by (simp add: list_all_iff pad_start_def digits_val_zeros)

lemma article_isValid_iff:
  "article_isValid s \<longleftrightarrow> (\<exists>p ds. s = p @ (str ''_art'') @ ds \<and> length p = 15 \<and>
     list_all (\<lambda>c. is_digit c \<or> is_upper c) p \<and> ds \<noteq> [] \<and> list_all is_digit ds)"
proof -
  have cls: "in_cls False [(0x30, 0x39), (0x41, 0x5A)] = (\<lambda>c. is_digit c \<or> is_upper c)"
    by (auto simp: in_cls_def is_digit_def is_upper_def fun_eq_iff)
  have tail: "rx n (RSeq (RLit [0x5F, 0x61, 0x72, 0x74]) (RSeq (rplus (RCls False rng_digit)) REol)) (t, cs) =
      (if starts_with t [0x5F, 0x61, 0x72, 0x74] \<and> drop 4 t \<noteq> [] \<and> list_all is_digit (drop 4 t) then [([], cs)] else [])" for n t cs
    using rx_cls_eol [of n False rng_digit "drop 4 t" cs]
    by (subst rx_seq_eol(1), subst rx_seq_eol(3)) (simp add: cls_digit eval_nat_numeral del: rx.simps)
  have "article_isValid s \<longleftrightarrow> 15 \<le> length s \<and> list_all (\<lambda>c. is_digit c \<or> is_upper c) (take 15 s) \<and>
      starts_with (drop 15 s) (str ''_art'') \<and> drop 19 s \<noteq> [] \<and> list_all is_digit (drop 19 s)"
    unfolding article_isValid_def rseq.simps rx_test_anchored
    by (subst rx_seq_eol(1), subst rx_cls_exact) (auto simp: cls tail simp del: rx.simps)
  also have "\<dots> \<longleftrightarrow> (\<exists>p ds. s = p @ (str ''_art'') @ ds \<and> length p = 15 \<and>
     list_all (\<lambda>c. is_digit c \<or> is_upper c) p \<and> ds \<noteq> [] \<and> list_all is_digit ds)" (is "?l \<longleftrightarrow> ?r")
  proof
    assume ?l
    then obtain ds where "drop 15 s = (str ''_art'') @ ds" by (auto simp: starts_with_iff)
    moreover from this have "drop 19 s = ds" using drop_drop [of 4 15 s] by simp
    moreover have "s = take 15 s @ drop 15 s" by simp
    ultimately show ?r using \<open>?l\<close> by (intro exI [of _ "take 15 s"] exI [of _ ds]) auto
  qed (auto simp: starts_with_def)
  finally show ?thesis .
qed

lemma law_value_chars:
  assumes "law_isValid s"
  shows "length s = 15" "list_all (\<lambda>c. is_digit c \<or> is_upper c) s" "0x5F \<notin> set s"
proof -
  have "s = take 3 s @ take 2 (drop 3 s) @ drop 5 s"
    using append_take_drop_id [of 3 s] append_take_drop_id [of 2 "drop 3 s"] by (simp del: append_take_drop_id)
  then have "set s = set (take 3 s) \<union> set (take 2 (drop 3 s)) \<union> set (drop 5 s)"
    by (metis set_append Un_assoc)
  then show "list_all (\<lambda>c. is_digit c \<or> is_upper c) s"
    using assms by (auto simp: law_isValid_iff list_all_iff)
  then show "0x5F \<notin> set s" by (auto simp: list_all_iff is_digit_def is_upper_def)
  show "length s = 15" using assms by (simp add: law_isValid_iff)
qed

text \<open>The part of the article identifier before the suffix has no underscore, so the suffix is found at
  its place.\<close>

lemma article_number_suffix:
  assumes "0x5F \<notin> set p" "\<forall>c \<in> set ds. is_digit c" "ds \<noteq> []"
  shows "article_number (ArticleId (p @ (str ''_art'') @ ds)) = Some (int (digits_val ds))"
proof -
  let ?r = "(rseq [RLit (str ''_art''), RGrp 1 (rplus (RCls False rng_digit)), REol])"
  let ?s = "p @ (str ''_art'') @ ds"
  have skip: "rx n ?r (c # t, []) = []" if "c \<in> set p" for c t n
    using that assms(1) by (auto simp: starts_with_def)
  have run: "\<exists>ms. rx n (rplus (RCls False rng_digit)) (ds, []) = ([], []) # ms" for n
    using rx_run [of ds False rng_digit "[]" "Suc 0" n "[]"] assms(2,3) by (auto simp: cls_digit neq_Nil_conv)
  have "\<exists>ms. rx n ?r ((str ''_art'') @ ds, []) = ([], [(1, ds)]) # ms" for n
    using run [of n] by (auto simp: starts_with_def)
  then obtain ms where "rx (length ?s) ?r ((str ''_art'') @ ds, []) = ([], [(1, ds)]) # ms" by blast
  then have "rx_match ?r ?s = Some \<lparr>m_index = length p, m_text = (str ''_art'') @ ds, m_caps = [(1, ds)]\<rparr>"
    unfolding rx_match_def using search_skip_run [OF skip, of p "length ?s" 0 "(str ''_art'') @ ds"]
    by (simp add: search_here del: rseq.simps)
  then show ?thesis
    using parse_int_digits [OF assms(2,3)] by (simp add: article_number_def grp_def cap_def del: rseq.simps)
qed

lemma generate_LawId_cases:
  "generate_LawId t y n =
     (let v = pad_start 3 0x30 (int_str y) @ LAW_TYPE_CODES t @ pad_start 10 0x30 (int_str n) in
      if 0 \<le> y \<and> y < 1000 \<and> 0 \<le> n \<and> n < 10 ^ 10 then Inr (LawId v) else Inl (InvalidLawIdError v))"
proof -
  let ?y = "pad_start 3 0x30 (int_str y)" and ?n = "pad_start 10 0x30 (int_str n)" and ?t = "LAW_TYPE_CODES t"
  have len: "3 \<le> length ?y" "length ?t = 2" "10 \<le> length ?n"
    using type_code_shape [of t] by (simp_all add: length_pad_start)
  have "law_isValid (?y @ ?t @ ?n) \<longleftrightarrow> 0 \<le> y \<and> y < 1000 \<and> 0 \<le> n \<and> n < 10 ^ 10"
  proof (cases "length ?y = 3 \<and> length ?n = 10")
    case True
    then have "law_isValid (?y @ ?t @ ?n) \<longleftrightarrow> 0 \<le> y \<and> 0 \<le> n"
      using len type_code_shape [of t] by (simp add: law_isValid_parts digits_pad digits_int_str)
    with True length_pad_int [of y 2] length_pad_int [of n 9] show ?thesis by (auto simp: eval_nat_numeral)
  next
    case False
    then have "length (?y @ ?t @ ?n) \<noteq> 15" using len by auto
    then have "\<not> law_isValid (?y @ ?t @ ?n)" by (simp only: law_isValid_iff simp_thms)
    with False length_pad_int [of y 2] length_pad_int [of n 9] show ?thesis by (auto simp: eval_nat_numeral)
  qed
  then show ?thesis by (simp add: generate_LawId_def new_LawId_def Let_def)
qed

section \<open>The life of a law\<close>

text \<open>A step is an operation that does not throw.\<close>

inductive law_step :: "Law \<Rightarrow> Law \<Rightarrow> bool" where
  enforced: "enforce now date l = Inr l' \<Longrightarrow> law_step l l'"
| repealed: "repeal now date l = Inr l' \<Longrightarrow> law_step l l'"
| added: "addArticle now a l = Inr l' \<Longrightarrow> law_step l l'"

inductive_cases law_stepE: "law_step l l'"

text \<open>The articles stand in the order of their numbers, no number twice; an active law has an
  enforcement date that is not before its promulgation, and a law not yet enforced has none.\<close>

definition law_ok :: "Law \<Rightarrow> bool" where
  "law_ok l \<longleftrightarrow> sorted_wrt (<) (map art_number (lw_articles l)) \<and>
     (case lw_enforceDate l of None \<Rightarrow> lw_status l \<noteq> Active
      | Some d \<Rightarrow> lw_promulgateDate l \<le> d \<and> lw_status l \<noteq> NotYetEnforced)"

lemma addArticle_sorted:
  assumes "addArticle now a l = Inr l'" "sorted_wrt (<) (map art_number (lw_articles l))"
  shows "sorted_wrt (<) (map art_number (lw_articles l'))"
proof -
  from assms(1) have new: "art_number a \<notin> art_number ` set (lw_articles l)"
    and l': "lw_articles l' = sort_key art_number (lw_articles l @ [a])"
    by (auto simp: addArticle_def find_None_iff split: option.splits)
  have "distinct (map art_number (lw_articles l @ [a]))"
    using assms(2) new by (auto simp: strict_sorted_iff)
  then have "distinct (map art_number (lw_articles l'))"
    by (auto simp: l' distinct_map)
  then show ?thesis by (simp add: l' strict_sorted_iff sorted_sort_key)
qed

lemma law_step_ok: "law_step l l' \<Longrightarrow> law_ok l \<Longrightarrow> law_ok l'"
proof (erule law_stepE)
  fix now a
  assume "addArticle now a l = Inr l'" "law_ok l"
  moreover from this have "lw_enforceDate l' = lw_enforceDate l" "lw_status l' = lw_status l"
    "lw_promulgateDate l' = lw_promulgateDate l"
    by (auto simp: addArticle_def split: option.splits)
  ultimately show "law_ok l'" using addArticle_sorted [of now a l l']
    by (simp add: law_ok_def split: option.splits)
qed (auto simp: law_ok_def enforce_def repeal_def split: if_splits option.splits)

lemma law_run_ok: "law_step\<^sup>*\<^sup>* l l' \<Longrightarrow> law_ok l \<Longrightarrow> law_ok l'"
  by (induction rule: rtranclp_induct) (auto intro: law_step_ok)

lemma create_Law_ok: "create_Law now params = Inr l \<Longrightarrow> law_ok l"
  by (cases "generate_LawId (cl_type params) (cl_year params) (cl_number params)";
      cases "new_LawTitle (cl_title params) (cl_titleKana params)") (auto simp: create_Law_def law_ok_def)

lemma repealed_stays: "law_step\<^sup>*\<^sup>* l l' \<Longrightarrow> lw_status l = Repealed \<Longrightarrow> lw_status l' = Repealed"
  by (induction rule: rtranclp_induct)
     (auto elim!: law_stepE simp: enforce_def repeal_def addArticle_def split: if_splits option.splits)

section \<open>Paragraph numbers\<close>

lemma addParagraphs:
  "foldl (\<lambda>a (now, content). snd (addParagraph now content a)) a cs =
     a\<lparr>art_paragraphs := art_paragraphs a @
        map (\<lambda>(i, now, content). create_Paragraph now (art_id a) (Suc i) content)
          (enumerate (length (art_paragraphs a)) cs)\<rparr>"
  by (induction cs arbitrary: a) (auto simp: addParagraph_def Let_def)

section \<open>Properties\<close>

text \<open>an identifier is generated exactly for a year from 0 to 999 and a number from
  0 to 10 ^ 10 - 1, everything else being refused with the error that carries the malformed text, and
  the year, the type code and the number are read back from it.\<close>

theorem lawid_generate_roundtrip:
  "if 0 \<le> y \<and> y < 1000 \<and> 0 \<le> n \<and> n < 10 ^ 10
   then (case generate_LawId t y n of
       Inr l \<Rightarrow> law_isValid (law_value l) \<and> law_year l = Some y \<and> law_typeCode l = LAW_TYPE_CODES t \<and> law_number l = Some n
     | Inl _ \<Rightarrow> False)
   else generate_LawId t y n =
     Inl (InvalidLawIdError (pad_start 3 0x30 (int_str y) @ LAW_TYPE_CODES t @ pad_start 10 0x30 (int_str n)))"
proof (cases "0 \<le> y \<and> y < 1000 \<and> 0 \<le> n \<and> n < 10 ^ 10")
  case True
  let ?y = "pad_start 3 0x30 (int_str y)" and ?n = "pad_start 10 0x30 (int_str n)" and ?t = "LAW_TYPE_CODES t"
  let ?v = "?y @ ?t @ ?n"
  have g: "generate_LawId t y n = Inr (LawId ?v)"
    using True by (simp add: generate_LawId_cases Let_def)
  then have "law_isValid ?v" by (auto simp: generate_LawId_def new_LawId_def Let_def split: if_splits)
  moreover have len: "length ?y = 3" "length ?t = 2"
    using True length_pad_int [of y 2] type_code_shape [of t] by (simp_all add: eval_nat_numeral)
  moreover have "parse_int ?y = Some y" "parse_int ?n = Some n"
    using True parse_pad [of y 3] parse_pad [of n 10] by blast+
  ultimately show ?thesis
    using True g by (simp add: law_year_def law_typeCode_def law_number_def substring_def Let_def)
qed (auto simp: generate_LawId_cases Let_def)

text \<open>for a valid law identifier, an article identifier is generated exactly for the
  numbers that are not negative, and the law identifier and the article number are read back from it.\<close>

theorem articleid_roundtrip:
  assumes "law_isValid (law_value l)"
  shows "if 0 \<le> n
    then (case generate_ArticleId l n of
        Inr a \<Rightarrow> article_lawId a = law_value l \<and> article_number a = Some n
      | Inl _ \<Rightarrow> False)
    else generate_ArticleId l n = Inl (PlainError ([0x4E0D, c_sei, h_na, c_jou, 0x6587, 0x49, 0x44, h_de, h_su, 0x3A, 0x20] @ law_value l @ (str ''_art'') @ int_str n))"
proof (cases "0 \<le> n")
  case True
  note l = law_value_chars [OF assms]
  have ds: "\<forall>c \<in> set (nat_str (nat n)). is_digit c" by (simp add: nat_str_digits)
  have "article_isValid (law_value l @ (str ''_art'') @ nat_str (nat n))"
    unfolding article_isValid_iff using l ds by (intro exI conjI) (auto simp: list_all_iff)
  moreover have "split_char 0x5F (law_value l @ (str ''_art'') @ nat_str (nat n)) =
      law_value l # split_char 0x5F (str ''art'' @ nat_str (nat n))"
    using split_char_app [OF l(3), of "str ''art'' @ nat_str (nat n)"] by simp
  ultimately show ?thesis
    using True article_number_suffix [OF l(3) ds]
    by (simp add: generate_ArticleId_def new_ArticleId_def article_lawId_def)
next
  case False
  note l = law_value_chars [OF assms]
  have "\<not> article_isValid (law_value l @ (str ''_art'') @ int_str n)"
  proof
    assume "article_isValid (law_value l @ (str ''_art'') @ int_str n)"
    then obtain p ds where "law_value l @ (str ''_art'') @ int_str n = p @ (str ''_art'') @ ds" "length p = 15"
      "list_all is_digit ds" unfolding article_isValid_iff by blast
    with l(1) have "list_all is_digit (int_str n)" by simp
    with False show False by (simp add: digits_int_str)
  qed
  with False show ?thesis by (simp add: generate_ArticleId_def new_ArticleId_def)
qed

theorem articleid_roundtrip_witness:
  "law_isValid (str ''129AC0000000089'') \<and>
   generate_ArticleId (LawId (str ''129AC0000000089'')) 90 = Inr (ArticleId (str ''129AC0000000089_art90'')) \<and>
   article_number (ArticleId (str ''129AC0000000089_art90'')) = Some 90"
proof -
  have v: "law_isValid (str ''129AC0000000089'')" by code_simp
  have g: "generate_ArticleId (LawId (str ''129AC0000000089'')) 90 = Inr (ArticleId (str ''129AC0000000089_art90''))" by code_simp
  from articleid_roundtrip [of "LawId (str ''129AC0000000089'')" 90] v
  show ?thesis unfolding g by (simp del: str_simps)
qed

text \<open>C10: whatever operations succeed on a new law, its articles are in the order of their
  numbers without repetition, it is active only with an enforcement date not before its promulgation,
  and from a repealed state it never becomes active again.\<close>

theorem law_lifecycle:
  assumes "create_Law now params = Inr l" and "law_step\<^sup>*\<^sup>* l m" and "law_step\<^sup>*\<^sup>* m k"
  shows "law_ok m \<and> (lw_status m = Repealed \<longrightarrow> lw_status k = Repealed \<and> (\<exists>e. enforce now' date k = Inl e))"
  using law_run_ok [OF assms(2) create_Law_ok [OF assms(1)]] repealed_stays [OF assms(3)]
  by (auto simp: enforce_def)

definition sample_params :: CreateLawParams where
  "sample_params = \<lparr>cl_type = Act, cl_year = 129, cl_number = 89, cl_title = [c_min, c_hou], cl_titleKana = None,
     cl_promulgateDate = 100\<rparr>"

definition sample_law :: Law where
  "sample_law = \<lparr>lw_id = LawId (str ''129AC0000000089''), lw_title = LawTitle [c_min, c_hou] None, lw_type = Act,
     lw_status = NotYetEnforced, lw_promulgateDate = 100, lw_enforceDate = None, lw_articles = [],
     lw_createdAt = 1, lw_updatedAt = 1\<rparr>"

theorem law_lifecycle_witness:
  "create_Law 1 sample_params = Inr sample_law \<and>
   law_ok (sample_law\<lparr>lw_status := Repealed, lw_updatedAt := 5\<rparr>) \<and>
   (\<exists>e. enforce 6 200 (sample_law\<lparr>lw_status := Repealed, lw_updatedAt := 5\<rparr>) = Inl e)"
proof -
  let ?m = "sample_law\<lparr>lw_status := Repealed, lw_updatedAt := 5\<rparr>"
  have c: "create_Law 1 sample_params = Inr sample_law" by code_simp
  have "repeal 5 150 sample_law = Inr ?m" by (simp add: repeal_def sample_law_def)
  then have s: "law_step\<^sup>*\<^sup>* sample_law ?m" by (auto intro: law_step.repealed)
  from law_lifecycle [OF c s rtranclp.rtrancl_refl, of 6 200] c show ?thesis by simp
qed

text \<open>paragraphs added to a new article are numbered 1, 2, 3, ... in the order in
  which they were added, their identifiers are pairwise different, and the full text is their contents
  joined by newlines.\<close>

theorem paragraphs_numbered:
  assumes "create_Article now l n title = Inr a"
  shows "let b = foldl (\<lambda>a (now, content). snd (addParagraph now content a)) a cs in
    map par_number (art_paragraphs b) = [1..<Suc (length cs)] \<and>
    distinct (map par_id (art_paragraphs b)) \<and> fullText b = join [0xA] (map snd cs)"
proof -
  have "art_paragraphs a = []"
    using assms by (cases "generate_ArticleId l n") (auto simp: create_Article_def)
  then have b: "art_paragraphs (foldl (\<lambda>a (now, content). snd (addParagraph now content a)) a cs) =
      map (\<lambda>(i, now, content). create_Paragraph now (art_id a) (Suc i) content) (enumerate 0 cs)"
    by (simp add: addParagraphs)
  have nums: "map (\<lambda>(i, now, content). Suc i) (enumerate 0 cs) = [1..<Suc (length cs)]"
    by (rule nth_equalityI) (auto simp: nth_enumerate_eq simp del: upt_Suc)
  have "map (\<lambda>(i, now, content). article_value (art_id a) @ (str ''_para'') @ nat_str (Suc i)) (enumerate 0 cs) =
      map (\<lambda>k. article_value (art_id a) @ (str ''_para'') @ nat_str k) [1..<Suc (length cs)]"
    unfolding nums [symmetric] by (simp add: split_def o_def)
  moreover have "distinct (map (\<lambda>k. article_value (art_id a) @ (str ''_para'') @ nat_str k) [1..<Suc (length cs)])"
    by (simp add: distinct_map inj_on_def del: upt_Suc)
  moreover have "map (\<lambda>(i, now, content). content) (enumerate 0 cs) = map snd cs"
    by (rule nth_equalityI) (auto simp: nth_enumerate_eq split_def)
  ultimately show ?thesis
    using nums unfolding Let_def fullText_def b
    by (simp add: create_Paragraph_def split_def o_def del: upt_Suc)
qed

theorem paragraphs_numbered_witness:
  "\<exists>a. create_Article 0 (LawId (str ''129AC0000000089'')) 1 None = Inr a \<and>
     map par_number (art_paragraphs (foldl (\<lambda>a (now, content). snd (addParagraph now content a)) a [(1, (str ''x'')), (2, (str ''y''))])) = [1, 2]"
proof -
  have "isl (create_Article 0 (LawId (str ''129AC0000000089'')) 1 None) = False" by code_simp
  then obtain a where a: "create_Article 0 (LawId (str ''129AC0000000089'')) 1 None = Inr a"
    by (cases "create_Article 0 (LawId (str ''129AC0000000089'')) 1 None") auto
  from paragraphs_numbered [OF a, of "[(1, (str ''x'')), (2, (str ''y''))]"] a show ?thesis
    by (intro exI [of _ a]) (simp add: Let_def upt_rec)
qed


end
