(* ===== verification/ImpactAnalysis.thy ===== *)
theory ImpactAnalysis
  imports DomainModel "HOL-Library.Multiset"
begin

text \<open>
  \<^verbatim>\<open>src/domain/services/ImpactAnalysisService.ts\<close>: which articles an amendment affects, by breadth-first
  search along the incoming references. The two repositories are interfaces with no implementation
  in the sources: \<open>findIncoming\<close> and \<open>findById\<close> are arguments, functions of the state of the store
  during one analysis. The work list is the source's queue; an entry keeps its depth and its path. The
  search is a total function: the entries that a step adds are one level deeper, and the depth is
  bounded. Confidences are exact rationals. Constructors that throw make the analysis fail.
\<close>

section \<open>The code\<close>

record ImpactAnalysisOptions =
  op_depth :: "nat option"
  op_includeIndirect :: "bool option"
  op_confidenceThreshold :: "rat option"

datatype ImpactType = DirectApplication | TextReplacement | LegalFiction | Exception | General

record ImpactedNode =
  im_nodeId :: jsstr
  im_nodeType :: NodeType
  im_impactType :: ImpactType
  im_impactPath :: "jsstr list"
  im_confidence :: rat
  im_depth :: nat

record AffectedArticle =
  aa_articleId :: jsstr
  aa_articleNum :: "int option"
  aa_impactType :: ImpactType
  aa_impactPath :: "jsstr list"
  aa_confidence :: rat

record AffectedItem =
  ai_lawId :: jsstr
  ai_lawTitle :: jsstr
  ai_affectedArticles :: "AffectedArticle list"

record ImpactAnalysisResult =
  ia_amendedLawId :: jsstr
  ia_amendedArticles :: "int list"
  ia_totalAffectedLaws :: nat
  ia_totalAffectedArticles :: nat
  ia_directImpacts :: nat
  ia_indirectImpacts :: nat
  ia_maxDepthReached :: nat
  ia_affectedItems :: "AffectedItem list"
  ia_executedAt :: int

record ProcessingNode =
  pn_nodeId :: jsstr
  pn_nodeType :: NodeType
  pn_depth :: nat
  pn_path :: "jsstr list"

type_synonym impact_map = "(jsstr, ImpactedNode) jsmap"

fun determineImpactType :: "ReferenceType \<Rightarrow> ImpactType" where
  "determineImpactType APPLY = DirectApplication"
| "determineImpactType REPLACE = TextReplacement"
| "determineImpactType DEEM = LegalFiction"
| "determineImpactType EXCEPT = Exception"
| "determineImpactType _ = General"

text \<open>One reference of the inner loop: the impact map and the entries pushed so far.\<close>

definition visit_ref :: "bool \<Rightarrow> ProcessingNode \<Rightarrow> impact_map \<times> ProcessingNode list \<Rightarrow> Reference \<Rightarrow>
    impact_map \<times> ProcessingNode list" where
  "visit_ref includeIndirect current st r =
     (case st of (impactedNodes, pushed) \<Rightarrow>
        let impactedId = rn_id (ref_source r) in
        if map_has impactedNodes impactedId then (impactedNodes, pushed)
        else
          let impacted = \<lparr>im_nodeId = impactedId, im_nodeType = rn_type (ref_source r),
                im_impactType = determineImpactType (ref_type r),
                im_impactPath = pn_path current @ [impactedId],
                im_confidence = ref_confidence r * (9/10) ^ pn_depth current,
                im_depth = pn_depth current + 1\<rparr>
          in (AList.update impactedId impacted impactedNodes,
              if includeIndirect
              then pushed @ [\<lparr>pn_nodeId = impactedId, pn_nodeType = rn_type (ref_source r),
                     pn_depth = pn_depth current + 1, pn_path = im_impactPath impacted\<rparr>]
              else pushed))"

definition visit :: "(jsstr \<Rightarrow> Reference list) \<Rightarrow> bool \<Rightarrow> ProcessingNode \<Rightarrow> impact_map \<Rightarrow>
    impact_map \<times> ProcessingNode list" where
  "visit incoming includeIndirect current m =
     foldl (visit_ref includeIndirect current) (m, []) (incoming (pn_nodeId current))"

text \<open>What a visit pushes is one level deeper.\<close>

lemma visit_fold_depth:
  "x \<in> set (snd (foldl (visit_ref ind cur) (m, ps) rs)) \<Longrightarrow> x \<in> set ps \<or> pn_depth x = Suc (pn_depth cur)"
proof (induction rs arbitrary: m ps)
  case (Cons r rs)
  obtain m' ps' where st: "visit_ref ind cur (m, ps) r = (m', ps')" by force
  then have "y \<in> set ps' \<Longrightarrow> y \<in> set ps \<or> pn_depth y = Suc (pn_depth cur)" for y
    by (auto simp: visit_ref_def Let_def split: if_splits)
  with Cons.IH [of m' ps'] Cons.prems st show ?case by auto
qed simp

lemma visit_depth: "x \<in> set (snd (visit inc ind cur m)) \<Longrightarrow> pn_depth x = Suc (pn_depth cur)"
  unfolding visit_def by (drule visit_fold_depth) simp

function search_impacts :: "(jsstr \<Rightarrow> Reference list) \<Rightarrow> bool \<Rightarrow> nat \<Rightarrow> ProcessingNode list \<Rightarrow> impact_map \<Rightarrow>
    impact_map" where
  "search_impacts incoming includeIndirect depth [] m = m"
| "search_impacts incoming includeIndirect depth (current # toProcess) m =
     (if depth \<le> pn_depth current then search_impacts incoming includeIndirect depth toProcess m
      else case visit incoming includeIndirect current m of (m', pushed) \<Rightarrow>
        search_impacts incoming includeIndirect depth (toProcess @ pushed) m')"
  by pat_completeness auto
termination
proof (relation "inv_image (mult {(a, b). a < b})
    (\<lambda>(inc, ind, depth, q, m). image_mset (\<lambda>x. depth - pn_depth x) (mset q))")
  show "wf (inv_image (mult {(a, b). a < b})
      (\<lambda>(inc, ind, depth, q, m). image_mset (\<lambda>x. depth - pn_depth x) (mset q)))"
    by (intro wf_inv_image wf_mult wf_less)
next
  fix inc :: "jsstr \<Rightarrow> Reference list" and ind depth cur q m
  show "((inc, ind, depth, q, m), (inc, ind, depth, cur # q, m)) \<in> inv_image (mult {(a, b). a < b})
      (\<lambda>(inc, ind, depth, q, m). image_mset (\<lambda>x. depth - pn_depth x) (mset q))"
    using one_step_implies_mult [of "{#depth - pn_depth cur#}" "{#}" _ "image_mset (\<lambda>x. depth - pn_depth x) (mset q)"]
    by simp
next
  fix inc :: "jsstr \<Rightarrow> Reference list" and ind depth cur q m m' ps
  assume depth: "\<not> depth \<le> pn_depth cur" and v: "(m', ps) = visit inc ind cur m"
  have "ps = snd (visit inc ind cur m)" using v by (metis snd_conv)
  then have "\<forall>x \<in> set ps. depth - pn_depth x < depth - pn_depth cur"
    using depth visit_depth [of _ inc ind cur m] by fastforce
  then show "((inc, ind, depth, q @ ps, m'), (inc, ind, depth, cur # q, m)) \<in> inv_image (mult {(a, b). a < b})
      (\<lambda>(inc, ind, depth, q, m). image_mset (\<lambda>x. depth - pn_depth x) (mset q))"
    using one_step_implies_mult [of "{#depth - pn_depth cur#}" "image_mset (\<lambda>x. depth - pn_depth x) (mset ps)"
        "{(a, b). a < b}" "image_mset (\<lambda>x. depth - pn_depth x) (mset q)"]
    by simp
qed

fun start_nodes :: "LawId \<Rightarrow> int list \<Rightarrow> ProcessingNode list result" where
  "start_nodes l [] = Inr []"
| "start_nodes l (articleNum # ns) =
     bind_result (generate_ArticleId l articleNum) (\<lambda>articleId.
     bind_result (start_nodes l ns) (\<lambda>rest.
       Inr (\<lparr>pn_nodeId = article_value articleId, pn_nodeType = ArticleNode, pn_depth = 0,
             pn_path = [article_value articleId]\<rparr> # rest)))"

text \<open>One entry of the impact map in \<open>buildAnalysisResult\<close>: the articles by law, the maximal depth and the
  two counters.\<close>

type_synonym build_state = "(jsstr, AffectedArticle list) jsmap \<times> nat \<times> nat \<times> nat"

fun build_step :: "build_state \<Rightarrow> jsstr \<times> ImpactedNode \<Rightarrow> build_state" where
  "build_step (affectedByLaw, maxDepth, directCount, indirectCount) (_, node) =
     (let lawId = hd (split_char 0x5F (im_nodeId node));
          articles = (case map_of affectedByLaw lawId of None \<Rightarrow> [] | Some as \<Rightarrow> as);
          articles' = (if im_nodeType node = ArticleNode then
              articles @ [\<lparr>aa_articleId = im_nodeId node,
                aa_articleNum = (case split_str (im_nodeId node) (str ''_art'') of
                    _ # s # _ \<Rightarrow> parse_int s | _ \<Rightarrow> None),
                aa_impactType = im_impactType node, aa_impactPath = im_impactPath node,
                aa_confidence = im_confidence node\<rparr>]
            else articles)
      in (AList.update lawId articles' affectedByLaw, max maxDepth (im_depth node),
          if im_depth node = 1 then directCount + 1 else directCount,
          if im_depth node = 1 then indirectCount else indirectCount + 1))"

fun affected_items :: "(LawId \<Rightarrow> Law option) \<Rightarrow> (jsstr \<times> AffectedArticle list) list \<Rightarrow> AffectedItem list result" where
  "affected_items findById [] = Inr []"
| "affected_items findById ((lawId, articles) # rest) =
     bind_result (new_LawId lawId) (\<lambda>l.
     bind_result (affected_items findById rest) (\<lambda>items.
       Inr (case findById l of
              None \<Rightarrow> items
            | Some law \<Rightarrow> \<lparr>ai_lawId = lawId, ai_lawTitle = title_value (lw_title law),
                ai_affectedArticles = articles\<rparr> # items)))"

definition buildAnalysisResult :: "(LawId \<Rightarrow> Law option) \<Rightarrow> int \<Rightarrow> impact_map \<Rightarrow> LawId \<Rightarrow> int list \<Rightarrow>
    ImpactAnalysisResult result" where
  "buildAnalysisResult findById now impactedNodes amendedLawId amendedArticles =
     (case foldl build_step ([], 0, 0, 0) impactedNodes of
        (affectedByLaw, maxDepth, directCount, indirectCount) \<Rightarrow>
          bind_result (affected_items findById affectedByLaw) (\<lambda>items.
            Inr \<lparr>ia_amendedLawId = law_value amendedLawId, ia_amendedArticles = amendedArticles,
                 ia_totalAffectedLaws = length affectedByLaw,
                 ia_totalAffectedArticles = length impactedNodes,
                 ia_directImpacts = directCount, ia_indirectImpacts = indirectCount,
                 ia_maxDepthReached = maxDepth, ia_affectedItems = items, ia_executedAt = now\<rparr>))"

definition analyzeAmendmentImpact :: "(jsstr \<Rightarrow> rat \<Rightarrow> Reference list) \<Rightarrow> (LawId \<Rightarrow> Law option) \<Rightarrow> int \<Rightarrow>
    LawId \<Rightarrow> int list \<Rightarrow> ImpactAnalysisOptions \<Rightarrow> ImpactAnalysisResult result" where
  "analyzeAmendmentImpact findIncoming findById now amendedLawId amendedArticles options =
     (let depth = (case op_depth options of None \<Rightarrow> 3 | Some d \<Rightarrow> if d = 0 then 3 else d);
          includeIndirect = (case op_includeIndirect options of None \<Rightarrow> True | Some b \<Rightarrow> b);
          confidenceThreshold = (case op_confidenceThreshold options of
              None \<Rightarrow> 7/10 | Some c \<Rightarrow> if c = 0 then 7/10 else c)
      in bind_result (start_nodes amendedLawId amendedArticles) (\<lambda>toProcess.
           buildAnalysisResult findById now
             (search_impacts (\<lambda>n. findIncoming n confidenceThreshold) includeIndirect depth toProcess [])
             amendedLawId amendedArticles))"

section \<open>The graph of references\<close>

text \<open>The nodes that refer to \<open>u\<close>, the nodes at the end of a chain of \<open>k\<close> such references from the amended
  articles \<open>S\<close>, and the chains themselves.\<close>

definition referrers :: "(jsstr \<Rightarrow> Reference list) \<Rightarrow> jsstr \<Rightarrow> jsstr set" where
  "referrers inc u = (\<lambda>r. rn_id (ref_source r)) ` set (inc u)"

fun reached :: "(jsstr \<Rightarrow> Reference list) \<Rightarrow> jsstr set \<Rightarrow> nat \<Rightarrow> jsstr set" where
  "reached inc S 0 = S"
| "reached inc S (Suc k) = (\<Union>u \<in> reached inc S k. referrers inc u)"

definition chain :: "(jsstr \<Rightarrow> Reference list) \<Rightarrow> jsstr set \<Rightarrow> jsstr list \<Rightarrow> bool" where
  "chain inc S p \<longleftrightarrow> p \<noteq> [] \<and> hd p \<in> S \<and> successively (\<lambda>u v. v \<in> referrers inc u) p"

lemma chain_snoc: "chain inc S p \<Longrightarrow> v \<in> referrers inc (last p) \<Longrightarrow> chain inc S (p @ [v])"
  by (auto simp: chain_def successively_append_iff)

section \<open>A visit\<close>

lemma visit_fold:
  assumes "foldl (visit_ref True cur) (m, ps) rs = (m', ps')"
  shows "dom (map_of m') = dom (map_of m) \<union> (\<lambda>r. rn_id (ref_source r)) ` set rs"
    and "v \<in> dom (map_of m) \<Longrightarrow> map_of m' v = map_of m v"
    and "v \<notin> dom (map_of m) \<Longrightarrow> map_of m' v = Some e \<Longrightarrow> im_depth e = Suc (pn_depth cur)"
    and "pn_nodeId ` set ps' = pn_nodeId ` set ps \<union> ((\<lambda>r. rn_id (ref_source r)) ` set rs - dom (map_of m))"
proof -
  have "dom (map_of m') = dom (map_of m) \<union> (\<lambda>r. rn_id (ref_source r)) ` set rs \<and>
      (\<forall>v \<in> dom (map_of m). map_of m' v = map_of m v) \<and>
      (\<forall>v e. v \<notin> dom (map_of m) \<longrightarrow> map_of m' v = Some e \<longrightarrow> im_depth e = Suc (pn_depth cur)) \<and>
      pn_nodeId ` set ps' = pn_nodeId ` set ps \<union> ((\<lambda>r. rn_id (ref_source r)) ` set rs - dom (map_of m))"
    using assms
  proof (induction rs arbitrary: m ps)
    case (Cons r rs)
    show ?case
    proof (cases "map_has m (rn_id (ref_source r))")
      case True
      then have "visit_ref True cur (m, ps) r = (m, ps)" by (simp add: visit_ref_def)
      with Cons.prems have "foldl (visit_ref True cur) (m, ps) rs = (m', ps')" by simp
      with Cons.IH [OF this] True show ?thesis by (auto simp: map_has_def)
    next
      case False
      then have fresh: "rn_id (ref_source r) \<notin> dom (map_of m)" by (auto simp: map_has_def)
      obtain e x where st: "visit_ref True cur (m, ps) r = (AList.update (rn_id (ref_source r)) e m, ps @ [x])"
        and e: "im_depth e = Suc (pn_depth cur)" and x: "pn_nodeId x = rn_id (ref_source r)"
        using False by (simp add: visit_ref_def Let_def)
      from Cons.prems st have "foldl (visit_ref True cur) (AList.update (rn_id (ref_source r)) e m, ps @ [x]) rs = (m', ps')"
        by simp
      note IH = Cons.IH [OF this]
      have d1: "dom (map_of (AList.update (rn_id (ref_source r)) e m)) = insert (rn_id (ref_source r)) (dom (map_of m))"
        by (auto simp: update_conv')
      have "im_depth e' = Suc (pn_depth cur)" if "v \<notin> dom (map_of m)" "map_of m' v = Some e'" for v e'
        using IH e that unfolding d1 by (cases "v = rn_id (ref_source r)") (auto simp: update_conv')
      moreover have "map_of m' v = map_of m v" if "v \<in> dom (map_of m)" for v
        using IH that fresh unfolding d1 by (auto simp: update_conv')
      ultimately show ?thesis using IH x fresh unfolding d1 by auto
    qed
  qed auto
  note fact = this
  show "dom (map_of m') = dom (map_of m) \<union> (\<lambda>r. rn_id (ref_source r)) ` set rs"
    by (rule conjunct1 [OF fact])
  show "v \<in> dom (map_of m) \<Longrightarrow> map_of m' v = map_of m v"
    by (rule bspec [OF conjunct1 [OF conjunct2 [OF fact]]])
  show "v \<notin> dom (map_of m) \<Longrightarrow> map_of m' v = Some e \<Longrightarrow> im_depth e = Suc (pn_depth cur)"
    by (rule conjunct1 [OF conjunct2 [OF conjunct2 [OF fact]], rule_format])
  show "pn_nodeId ` set ps' = pn_nodeId ` set ps \<union> ((\<lambda>r. rn_id (ref_source r)) ` set rs - dom (map_of m))"
    by (rule conjunct2 [OF conjunct2 [OF conjunct2 [OF fact]]])
qed

lemmas visit_effect = visit_fold [of cur m "[]" "inc (pn_nodeId cur)" for cur m inc,
  folded visit_def referrers_def, simplified]

section \<open>A level\<close>

text \<open>The queue holds the entries of one depth and then those of the next: the search visits whole levels.\<close>

fun level :: "(jsstr \<Rightarrow> Reference list) \<Rightarrow> ProcessingNode list \<Rightarrow> impact_map \<Rightarrow> impact_map \<times> ProcessingNode list" where
  "level inc [] m = (m, [])"
| "level inc (x # q) m =
     (case visit inc True x m of (m', ps) \<Rightarrow> case level inc q m' of (m'', ps') \<Rightarrow> (m'', ps @ ps'))"

lemma search_level:
  "\<forall>x \<in> set q. pn_depth x < D \<Longrightarrow> level inc q m = (m', ps) \<Longrightarrow>
     search_impacts inc True D (q @ r) m = search_impacts inc True D (r @ ps) m'"
proof (induction q arbitrary: m r m' ps)
  case (Cons x q)
  obtain m1 p1 where v: "visit inc True x m = (m1, p1)" by force
  obtain m2 p2 where l: "level inc q m1 = (m2, p2)" by force
  from Cons.prems v l have "m' = m2" "ps = p1 @ p2" by auto
  moreover have "search_impacts inc True D ((x # q) @ r) m = search_impacts inc True D (q @ (r @ p1)) m1"
    using Cons.prems v by simp
  moreover have "\<dots> = search_impacts inc True D ((r @ p1) @ p2) m2"
    using Cons.prems l by (intro Cons.IH) auto
  ultimately show ?case by simp
qed auto

lemma level_effect:
  assumes "level inc q m = (m', ps)" and "\<forall>x \<in> set q. pn_depth x = d"
  shows "dom (map_of m') = dom (map_of m) \<union> (\<Union>x \<in> set q. referrers inc (pn_nodeId x)) \<and>
    (\<forall>v \<in> dom (map_of m). map_of m' v = map_of m v) \<and>
    (\<forall>v e. v \<notin> dom (map_of m) \<longrightarrow> map_of m' v = Some e \<longrightarrow> im_depth e = Suc d) \<and>
    pn_nodeId ` set ps = (\<Union>x \<in> set q. referrers inc (pn_nodeId x)) - dom (map_of m) \<and>
    (\<forall>x \<in> set ps. pn_depth x = Suc d)"
  using assms
proof (induction q arbitrary: m m' ps)
  case (Cons x q)
  obtain m1 p1 where v: "visit inc True x m = (m1, p1)" by force
  obtain m2 p2 where l: "level inc q m1 = (m2, p2)" by force
  from Cons.prems v l have eq: "m' = m2" "ps = p1 @ p2" and x: "pn_depth x = d" and q: "\<forall>x \<in> set q. pn_depth x = d"
    by auto
  note IH = Cons.IH [OF l q]
  note vis = visit_effect [OF v]
  have p1: "\<forall>y \<in> set p1. pn_depth y = Suc d" using visit_depth [of _ inc True x m] v x by auto
  have new: "im_depth e = Suc d" if "v \<notin> dom (map_of m)" "map_of m2 v = Some e" for v e
  proof (cases "v \<in> dom (map_of m1)")
    case True
    with IH that(2) have "map_of m1 v = Some e" by auto
    with vis(3) [OF that(1) this] x show ?thesis by simp
  next
    case False
    with IH that(2) show ?thesis by auto
  qed
  have old: "map_of m2 v = map_of m v" if "v \<in> dom (map_of m)" for v
    using that IH vis(1,2) by auto
  show ?case
    unfolding eq using IH vis(1,4) p1 new old by (auto simp: image_Un)
qed auto

section \<open>Breadth-first distances\<close>

definition distance :: "(jsstr \<Rightarrow> Reference list) \<Rightarrow> jsstr set \<Rightarrow> jsstr \<Rightarrow> nat" where
  "distance inc S v = (LEAST k. 1 \<le> k \<and> v \<in> reached inc S k)"

text \<open>After \<open>j\<close> levels the map holds the nodes at the distances 1 to \<open>j\<close>, each with its distance, and the queue
  holds the nodes first reached at level \<open>j\<close>.\<close>

definition level_inv :: "(jsstr \<Rightarrow> Reference list) \<Rightarrow> jsstr set \<Rightarrow> nat \<Rightarrow> ProcessingNode list \<Rightarrow> impact_map \<Rightarrow> bool" where
  "level_inv inc S j q m \<longleftrightarrow> (\<forall>x \<in> set q. pn_depth x = j) \<and>
     dom (map_of m) = (\<Union>i \<in> {1..j}. reached inc S i) \<and>
     (\<forall>v e. map_of m v = Some e \<longrightarrow> im_depth e = distance inc S v) \<and>
     pn_nodeId ` set q = reached inc S j - (\<Union>i \<in> {1..<j}. reached inc S i)"

lemma next_level_nodes:
  assumes "pn_nodeId ` set q = reached inc S j - (\<Union>i \<in> {1..<j}. reached inc S i)"
  shows "(\<Union>i \<in> {1..j}. reached inc S i) \<union> (\<Union>x \<in> set q. referrers inc (pn_nodeId x)) = (\<Union>i \<in> {1..Suc j}. reached inc S i)"
    (is "?d \<union> ?n = ?r")
proof
  have "?n = (\<Union>u \<in> pn_nodeId ` set q. referrers inc u)" by blast
  then have "?n \<subseteq> reached inc S (Suc j)" using assms by auto
  then show "?d \<union> ?n \<subseteq> ?r" by (auto simp: atLeastAtMostSuc_conv)
  have "reached inc S (Suc j) \<subseteq> ?d \<union> ?n"
  proof
    fix v
    assume "v \<in> reached inc S (Suc j)"
    then obtain u where u: "u \<in> reached inc S j" "v \<in> referrers inc u" by auto
    show "v \<in> ?d \<union> ?n"
    proof (cases "u \<in> pn_nodeId ` set q")
      case True
      with u show ?thesis by blast
    next
      case False
      with assms u obtain i where i: "1 \<le> i" "i < j" "u \<in> reached inc S i" by auto
      with u(2) have "v \<in> reached inc S (Suc i)" by auto
      with i show ?thesis by (intro UnI1 UN_I [of "Suc i"]) auto
    qed
  qed
  then show "?r \<subseteq> ?d \<union> ?n" by (simp only: atLeastAtMostSuc_conv) auto
qed

lemma level_inv_step:
  assumes "level_inv inc S j q m" and "level inc q m = (m', ps)"
  shows "level_inv inc S (Suc j) ps m'"
proof -
  from assms(1) have q: "\<forall>x \<in> set q. pn_depth x = j"
    and dm: "dom (map_of m) = (\<Union>i \<in> {1..j}. reached inc S i)"
    and dist: "\<And>v e. map_of m v = Some e \<Longrightarrow> im_depth e = distance inc S v"
    and qs: "pn_nodeId ` set q = reached inc S j - (\<Union>i \<in> {1..<j}. reached inc S i)"
    by (auto simp: level_inv_def)
  note eff = level_effect [OF assms(2) q]
  note nodes = next_level_nodes [OF qs]
  have dm': "dom (map_of m') = (\<Union>i \<in> {1..Suc j}. reached inc S i)"
    using eff dm nodes by simp
  have "im_depth e = distance inc S v" if e: "map_of m' v = Some e" for v e
  proof (cases "v \<in> dom (map_of m)")
    case True
    with eff e dist show ?thesis by (metis domD)
  next
    case False
    with eff e have "im_depth e = Suc j" by blast
    moreover from e have "v \<in> dom (map_of m')" by blast
    with dm' dm False have "v \<in> reached inc S (Suc j)" by (auto simp: atLeastAtMostSuc_conv)
    with False dm have "distance inc S v = Suc j"
      unfolding distance_def by (intro Least_equality) (auto simp: not_less_eq_eq [symmetric])
    ultimately show ?thesis by simp
  qed
  moreover have "pn_nodeId ` set ps = reached inc S (Suc j) - (\<Union>i \<in> {1..<Suc j}. reached inc S i)"
  proof -
    have "{1..<Suc j} = {1..j}" by auto
    then show ?thesis using eff dm nodes by (auto simp: atLeastAtMostSuc_conv)
  qed
  ultimately show ?thesis using eff dm' by (auto simp: level_inv_def)
qed

lemma search_stop: "\<forall>x \<in> set q. D \<le> pn_depth x \<Longrightarrow> search_impacts inc ind D q m = m"
  by (induction q) auto

lemma search_distances:
  "level_inv inc S j q m \<Longrightarrow> j \<le> D \<Longrightarrow>
     \<exists>q'. level_inv inc S D q' (search_impacts inc True D q m)"
proof (induction "D - j" arbitrary: j q m)
  case 0
  then have "\<forall>x \<in> set q. D \<le> pn_depth x" by (auto simp: level_inv_def)
  moreover from 0 have "j = D" by simp
  ultimately show ?case using 0 by (auto simp: search_stop)
next
  case (Suc k)
  obtain m' ps where l: "level inc q m = (m', ps)" by force
  have "\<forall>x \<in> set q. pn_depth x < D" using Suc by (auto simp: level_inv_def)
  from search_level [OF this l, of "[]"] have "search_impacts inc True D q m = search_impacts inc True D ps m'"
    by simp
  moreover have "k = D - Suc j" "Suc j \<le> D" using Suc.hyps(2) by auto
  ultimately show ?case using Suc.hyps(1) level_inv_step [OF Suc.prems(1) l] by metis
qed

section \<open>Paths\<close>

definition node_ok :: "(jsstr \<Rightarrow> Reference list) \<Rightarrow> jsstr set \<Rightarrow> ProcessingNode \<Rightarrow> bool" where
  "node_ok inc S x \<longleftrightarrow> chain inc S (pn_path x) \<and> last (pn_path x) = pn_nodeId x \<and> length (pn_path x) = Suc (pn_depth x)"

definition entry_ok :: "(jsstr \<Rightarrow> Reference list) \<Rightarrow> jsstr set \<Rightarrow> nat \<Rightarrow> jsstr \<times> ImpactedNode \<Rightarrow> bool" where
  "entry_ok inc S D p \<longleftrightarrow> (case p of (v, e) \<Rightarrow> im_nodeId e = v \<and> chain inc S (im_impactPath e) \<and>
     last (im_impactPath e) = v \<and> length (im_impactPath e) = Suc (im_depth e) \<and> 1 \<le> im_depth e \<and> im_depth e \<le> D)"

definition impacts_ok :: "(jsstr \<Rightarrow> Reference list) \<Rightarrow> jsstr set \<Rightarrow> nat \<Rightarrow> impact_map \<Rightarrow> bool" where
  "impacts_ok inc S D m \<longleftrightarrow> map_wf m \<and> list_all (entry_ok inc S D) m"

lemma impacts_ok_new:
  assumes "impacts_ok inc S D m" "\<not> map_has m v" "entry_ok inc S D (v, e)"
  shows "impacts_ok inc S D (AList.update v e m)"
proof -
  have "AList.update v e m = m @ [(v, e)]"
    using assms(2) by (intro alist_update_new) (simp add: map_has_def fst_set_map_of)
  then show ?thesis
    using assms(1,3) jsm.wf_put [of m v e] by (simp add: impacts_ok_def)
qed

lemma visit_fold_ok:
  "impacts_ok inc S D m \<Longrightarrow> list_all (node_ok inc S) ps \<Longrightarrow> node_ok inc S cur \<Longrightarrow> pn_depth cur < D \<Longrightarrow>
     set rs \<subseteq> set (inc (pn_nodeId cur)) \<Longrightarrow> foldl (visit_ref ind cur) (m, ps) rs = (m', ps') \<Longrightarrow>
     impacts_ok inc S D m' \<and> list_all (node_ok inc S) ps'"
proof (induction rs arbitrary: m ps)
  case (Cons r rs)
  let ?v = "rn_id (ref_source r)"
  obtain m1 p1 where st: "visit_ref ind cur (m, ps) r = (m1, p1)" by force
  have v: "?v \<in> referrers inc (last (pn_path cur))"
    using Cons.prems by (auto simp: referrers_def node_ok_def)
  with Cons.prems have c: "chain inc S (pn_path cur @ [?v])" by (intro chain_snoc) (auto simp: node_ok_def)
  have len: "length (pn_path cur) = Suc (pn_depth cur)" using Cons.prems(3) by (simp add: node_ok_def)
  have "impacts_ok inc S D m1 \<and> list_all (node_ok inc S) p1"
  proof (cases "map_has m ?v")
    case True
    with st Cons.prems(1,2) show ?thesis by (simp add: visit_ref_def)
  next
    case False
    define e where "e = \<lparr>im_nodeId = ?v, im_nodeType = rn_type (ref_source r),
      im_impactType = determineImpactType (ref_type r), im_impactPath = pn_path cur @ [?v],
      im_confidence = ref_confidence r * (9/10) ^ pn_depth cur, im_depth = pn_depth cur + 1\<rparr>"
    define x where "x = \<lparr>pn_nodeId = ?v, pn_nodeType = rn_type (ref_source r),
      pn_depth = pn_depth cur + 1, pn_path = pn_path cur @ [?v]\<rparr>"
    have "m1 = AList.update ?v e m" "p1 = (if ind then ps @ [x] else ps)"
      using st False by (auto simp: visit_ref_def Let_def e_def x_def)
    moreover have "entry_ok inc S D (?v, e)" using c len Cons.prems(4) by (simp add: entry_ok_def e_def)
    moreover have "node_ok inc S x" using c len by (simp add: node_ok_def x_def)
    ultimately show ?thesis using Cons.prems(1,2) False by (simp add: impacts_ok_new)
  qed
  with Cons.IH [of m1 p1] Cons.prems st show ?case by simp
qed auto

lemma search_ok:
  "impacts_ok inc S D m \<Longrightarrow> list_all (node_ok inc S) q \<Longrightarrow> impacts_ok inc S D (search_impacts inc ind D q m)"
proof (induction inc ind D q m rule: search_impacts.induct)
  case (2 inc ind D cur q m)
  obtain m' ps where v: "visit inc ind cur m = (m', ps)" by force
  show ?case
  proof (cases "D \<le> pn_depth cur")
    case True
    with 2 show ?thesis by simp
  next
    case False
    with 2 v visit_fold_ok [of inc S D m "[]" cur "inc (pn_nodeId cur)" ind m' ps]
    have "impacts_ok inc S D m' \<and> list_all (node_ok inc S) ps" by (simp add: visit_def)
    with 2 False v show ?thesis by simp
  qed
qed simp

lemma start_nodes_ids:
  "start_nodes l ns = Inr q \<Longrightarrow>
     pn_nodeId ` set q = (\<lambda>n. law_value l @ (str ''_art'') @ int_str n) ` set ns \<and>
     (\<forall>x \<in> set q. pn_depth x = 0 \<and> pn_path x = [pn_nodeId x])"
proof (induction ns arbitrary: q)
  case (Cons n ns)
  then obtain a q' where a: "generate_ArticleId l n = Inr a" and q': "start_nodes l ns = Inr q'"
    by (cases "generate_ArticleId l n"; cases "start_nodes l ns") auto
  from a have v: "article_value a = law_value l @ (str ''_art'') @ int_str n"
    by (auto simp: generate_ArticleId_def new_ArticleId_def split: if_splits)
  from a q' Cons.prems have q: "q = \<lparr>pn_nodeId = article_value a, pn_nodeType = ArticleNode, pn_depth = 0,
      pn_path = [article_value a]\<rparr> # q'" by simp
  from Cons.IH [OF q'] show ?case unfolding q v by (simp del: str_simps)
qed simp

lemma start_nodes_ok:
  assumes "start_nodes l ns = Inr q"
  shows "list_all (node_ok inc (pn_nodeId ` set q)) q" "level_inv inc (pn_nodeId ` set q) 0 q []"
  using start_nodes_ids [OF assms]
  by (auto simp: list_all_iff node_ok_def chain_def level_inv_def)

section \<open>The summary\<close>

lemma build_counts:
  "foldl build_step (a, mx, dc, ic) m = (a', mx', dc', ic') \<Longrightarrow>
     dc' = dc + length (filter (\<lambda>p. im_depth (snd p) = 1) m) \<and>
     dc' + ic' = dc + ic + length m \<and> (mx \<le> D \<longrightarrow> list_all (\<lambda>p. im_depth (snd p) \<le> D) m \<longrightarrow> mx' \<le> D)"
proof (induction m arbitrary: a mx dc ic)
  case (Cons p m)
  obtain k n where p: "p = (k, n)" by force
  from Cons.prems obtain a1 where "foldl build_step (a1, max mx (im_depth n),
      if im_depth n = 1 then dc + 1 else dc, if im_depth n = 1 then ic else ic + 1) m = (a', mx', dc', ic')"
    by (auto simp: p Let_def)
  from Cons.IH [OF this] show ?case by (auto simp: p split: if_splits)
qed simp

lemma card_entries: "map_wf m \<Longrightarrow> length (filter P m) = card {v. \<exists>e. map_of m v = Some e \<and> P (v, e)}"
proof -
  assume "map_wf m"
  then have d: "distinct (map fst m)" by (simp add: map_wf_def)
  then have "{v. \<exists>e. map_of m v = Some e \<and> P (v, e)} = set (map fst (filter P m))"
    by force
  moreover have "distinct (map fst (filter P m))" using d by (simp add: distinct_map_filter)
  ultimately show ?thesis using distinct_card [of "map fst (filter P m)"] by simp
qed

lemma distance_1:
  assumes "v \<in> (\<Union>i \<in> {1..D}. reached inc S i)"
  shows "distance inc S v = 1 \<longleftrightarrow> v \<in> reached inc S 1"
proof
  assume "v \<in> reached inc S 1"
  then show "distance inc S v = 1" unfolding distance_def by (intro Least_equality) auto
next
  from assms obtain k where "1 \<le> k \<and> v \<in> reached inc S k" by auto
  then have "v \<in> reached inc S (distance inc S v)" unfolding distance_def by (rule LeastI2) simp
  then show "distance inc S v = 1 \<Longrightarrow> v \<in> reached inc S 1" by simp
qed

section \<open>Properties\<close>

text \<open>C3: the search from the amended articles finds exactly the nodes that a chain of 1 to
  \<open>depth\<close> references leads to, and gives each the length of the shortest such chain as its depth.\<close>

theorem impact_search_exact:
  assumes "start_nodes l ns = Inr q"
  shows "let m = search_impacts inc True depth q []; S = pn_nodeId ` set q in
    dom (map_of m) = (\<Union>k \<in> {1..depth}. reached inc S k) \<and>
    (\<forall>v e. map_of m v = Some e \<longrightarrow> im_depth e = distance inc S v)"
  using search_distances [OF start_nodes_ok(2) [OF assms], of depth inc]
  by (auto simp: level_inv_def Let_def)

text \<open>A small store: article 2 refers to article 1, article 3 to article 2, and article 1 to article 3.\<close>

definition sample_ref :: "int \<Rightarrow> int \<Rightarrow> Reference" where
  "sample_ref s t = \<lparr>ref_id = ReferenceId (str ''r''),
     ref_source = \<lparr>rn_type = ArticleNode, rn_id = (str ''129AC0000000089_art'') @ int_str s, rn_text = None\<rparr>,
     ref_target = \<lparr>rn_type = ArticleNode, rn_id = (str ''129AC0000000089_art'') @ int_str t, rn_text = None\<rparr>,
     ref_type = APPLY, ref_sourceText = [], ref_confidence = 9/10, ref_aiAnalysis = None,
     ref_humanVerified = False, ref_createdAt = 0\<rparr>"

definition sample_store :: "jsstr \<Rightarrow> rat \<Rightarrow> Reference list" where
  "sample_store n c = filter (\<lambda>r. isIncoming n r \<and> c \<le> ref_confidence r) [sample_ref 2 1, sample_ref 3 2, sample_ref 1 3]"

definition sample_start :: "ProcessingNode list" where
  "sample_start = [\<lparr>pn_nodeId = (str ''129AC0000000089_art1''), pn_nodeType = ArticleNode, pn_depth = 0,
     pn_path = [(str ''129AC0000000089_art1'')]\<rparr>]"

lemma sample_start_nodes: "start_nodes (LawId (str ''129AC0000000089'')) [1] = Inr sample_start"
  by code_simp

theorem impact_search_exact_witness:
  "start_nodes (LawId (str ''129AC0000000089'')) [1] = Inr sample_start \<and>
   map fst (search_impacts (\<lambda>n. sample_store n (7/10)) True 2 sample_start []) =
     [(str ''129AC0000000089_art2''), (str ''129AC0000000089_art3'')] \<and>
   (str ''129AC0000000089_art3'') \<in> (\<Union>k \<in> {1..2}. reached (\<lambda>n. sample_store n (7/10)) (pn_nodeId ` set sample_start) k)"
proof (intro conjI)
  let ?m = "search_impacts (\<lambda>n. sample_store n (7/10)) True 2 sample_start []"
  show "start_nodes (LawId (str ''129AC0000000089'')) [1] = Inr sample_start" by (rule sample_start_nodes)
  show keys: "map fst ?m = [(str ''129AC0000000089_art2''), (str ''129AC0000000089_art3'')]" by code_simp
  have "(str ''129AC0000000089_art3'') \<in> set (map fst ?m)" unfolding keys by simp
  then have "(str ''129AC0000000089_art3'') \<in> dom (map_of ?m)" by (simp add: dom_map_of_conv_image_fst)
  then show "(str ''129AC0000000089_art3'') \<in> (\<Union>k \<in> {1..2}. reached (\<lambda>n. sample_store n (7/10)) (pn_nodeId ` set sample_start) k)"
    using impact_search_exact [OF sample_start_nodes, of "\<lambda>n. sample_store n (7/10)" 2] by (simp only: Let_def)
qed

text \<open>C22: with or without indirect impacts, no node is listed twice and the path of every
  listed node is a chain of references that starts in an amended article, ends in the node, has as many
  steps as the depth says, and is not longer than the bound.\<close>

theorem impact_paths_real:
  assumes "start_nodes l ns = Inr q"
  shows "let S = (\<lambda>n. law_value l @ (str ''_art'') @ int_str n) ` set ns in
    impacts_ok inc S depth (search_impacts inc includeIndirect depth q [])"
proof -
  have "impacts_ok inc (pn_nodeId ` set q) depth []" by (simp add: impacts_ok_def map_wf_def)
  from search_ok [OF this start_nodes_ok(1) [OF assms]] start_nodes_ids [OF assms] show ?thesis
    by (simp add: Let_def del: str_simps)
qed

theorem impact_paths_real_witness:
  "start_nodes (LawId (str ''129AC0000000089'')) [1] = Inr sample_start \<and>
   impacts_ok (\<lambda>n. sample_store n (7/10)) ((\<lambda>n. (str ''129AC0000000089'') @ (str ''_art'') @ int_str n) ` {1}) 3
     (search_impacts (\<lambda>n. sample_store n (7/10)) False 3 sample_start [])"
  using impact_paths_real [OF sample_start_nodes, of "\<lambda>n. sample_store n (7/10)" 3 False] sample_start_nodes
  by (simp add: Let_def del: str_simps)

text \<open>the summary of a completed analysis counts what it says: the affected nodes are
  all nodes within \<open>depth\<close> references of the amended articles, the direct impacts are those that refer to
  an amended article itself, the indirect impacts are the others, and the maximal depth is within the bound.\<close>

theorem impact_summary_exact:
  assumes "analyzeAmendmentImpact findIncoming findById now l ns options = Inr r"
    and "op_depth options = Some depth" and "depth \<noteq> 0"
    and "op_includeIndirect options = None" and "op_confidenceThreshold options = None"
  shows "let inc = (\<lambda>n. findIncoming n (7/10)); S = (\<lambda>n. law_value l @ (str ''_art'') @ int_str n) ` set ns in
    ia_totalAffectedArticles r = card (\<Union>k \<in> {1..depth}. reached inc S k) \<and>
    ia_directImpacts r = card (reached inc S 1) \<and>
    ia_directImpacts r + ia_indirectImpacts r = ia_totalAffectedArticles r \<and> ia_maxDepthReached r \<le> depth"
proof -
  let ?inc = "\<lambda>n. findIncoming n (7/10)"
  from assms obtain q where q: "start_nodes l ns = Inr q"
    by (cases "start_nodes l ns") (auto simp: analyzeAmendmentImpact_def Let_def)
  let ?S = "pn_nodeId ` set q"
  let ?m = "search_impacts ?inc True depth q []"
  have b: "buildAnalysisResult findById now ?m l ns = Inr r"
    using assms q by (simp add: analyzeAmendmentImpact_def Let_def)
  obtain a mx dc ic where f: "foldl build_step ([], 0, 0, 0) ?m = (a, mx, dc, ic)" by (metis prod_cases4)
  with b have r: "ia_totalAffectedArticles r = length ?m" "ia_directImpacts r = dc" "ia_indirectImpacts r = ic"
      "ia_maxDepthReached r = mx"
    by (cases "affected_items findById a"; auto simp: buildAnalysisResult_def)+
  have ok: "impacts_ok ?inc ?S depth ?m"
    using search_ok [OF _ start_nodes_ok(1) [OF q]] by (simp add: impacts_ok_def map_wf_def)
  then have wf: "map_wf ?m" and bound: "list_all (\<lambda>p. im_depth (snd p) \<le> depth) ?m"
    by (auto simp: impacts_ok_def entry_ok_def list_all_iff)
  from search_distances [OF start_nodes_ok(2) [OF q], of depth ?inc]
  have d: "dom (map_of ?m) = (\<Union>k \<in> {1..depth}. reached ?inc ?S k)"
    and dist: "map_of ?m v = Some e \<Longrightarrow> im_depth e = distance ?inc ?S v" for v e
    by (auto simp: level_inv_def)
  have "{v. \<exists>e. map_of ?m v = Some e \<and> im_depth (snd (v, e)) = 1} = reached ?inc ?S 1"
  proof (rule set_eqI)
    fix v
    have "v \<in> reached ?inc ?S 1 \<Longrightarrow> v \<in> dom (map_of ?m)" unfolding d using assms(3) by (intro UN_I [of 1]) auto
    moreover have "im_depth e = 1 \<longleftrightarrow> v \<in> reached ?inc ?S 1" if e: "map_of ?m v = Some e" for e
    proof -
      from e have "v \<in> dom (map_of ?m)" by (rule domI)
      then have "v \<in> (\<Union>k \<in> {1..depth}. reached ?inc ?S k)" by (simp only: d)
      from distance_1 [OF this] dist [OF e] show ?thesis by simp
    qed
    ultimately show "v \<in> {v. \<exists>e. map_of ?m v = Some e \<and> im_depth (snd (v, e)) = 1} \<longleftrightarrow> v \<in> reached ?inc ?S 1" by auto
  qed
  then have "dc = card (reached ?inc ?S 1)"
    using build_counts [OF f, of depth] card_entries [OF wf, of "\<lambda>p. im_depth (snd p) = 1"] by simp
  moreover have "length ?m = card (\<Union>k \<in> {1..depth}. reached ?inc ?S k)"
    using card_entries [OF wf, of "\<lambda>_. True"] d by (simp add: dom_def)
  ultimately show ?thesis
    using r build_counts [OF f, of depth] bound start_nodes_ids [OF q] by (simp add: Let_def del: str_simps)
qed

definition sample_options :: ImpactAnalysisOptions where
  "sample_options = \<lparr>op_depth = Some 2, op_includeIndirect = None, op_confidenceThreshold = None\<rparr>"

theorem impact_summary_exact_witness:
  "\<exists>r. analyzeAmendmentImpact sample_store (\<lambda>_. None) 0 (LawId (str ''129AC0000000089'')) [1] sample_options = Inr r \<and>
     ia_totalAffectedArticles r = 2 \<and> card (reached (\<lambda>n. sample_store n (7/10))
       ((\<lambda>n. (str ''129AC0000000089'') @ (str ''_art'') @ int_str n) ` {1}) 1) = 1"
proof -
  let ?a = "analyzeAmendmentImpact sample_store (\<lambda>_. None) 0 (LawId (str ''129AC0000000089'')) [1] sample_options"
  have "(case ?a of Inr r \<Rightarrow> ia_totalAffectedArticles r = 2 \<and> ia_directImpacts r = 1 | Inl _ \<Rightarrow> False)" by code_simp
  then obtain r where r: "?a = Inr r" "ia_totalAffectedArticles r = 2" "ia_directImpacts r = 1"
    by (cases ?a) auto
  have "op_depth sample_options = Some 2" "op_includeIndirect sample_options = None"
    "op_confidenceThreshold sample_options = None" by (simp_all add: sample_options_def)
  from impact_summary_exact [OF r(1) this(1) _ this(2,3)] r show ?thesis
    by (intro exI [of _ r]) (simp add: Let_def del: str_simps)
qed


end
