(* ===== verification/PatternMatching.thy ===== *)
theory PatternMatching
  imports DomainModel ArticleNormalizer
begin

text \<open>
  \<^verbatim>\<open>src/infrastructure/external/patterns\<close> and \<^verbatim>\<open>src/domain/services/ReferenceAnalysisService.ts\<close>: the
  regular-expression pattern matcher, and the service that resolves its matches and consolidates the
  references. A \<open>while ((match = regex.exec(text)) !== null)\<close> loop is the list \<open>exec_all\<close> of its
  matches; no pattern matches the empty string, so by \<open>exec_loop_total\<close> every such loop ends with
  exactly these. The resolver that asks a language model is an argument of the service, and so are the
  identifiers of the uuid package, one per pattern, and the time.
\<close>

section \<open>Patterns\<close>

record Pattern =
  pt_name :: jsstr
  pt_regex :: regex
  pt_type :: jsstr

abbreviation pattern :: "jsstr \<Rightarrow> regex \<Rightarrow> jsstr \<Rightarrow> Pattern" where
  "pattern n r t \<equiv> \<lparr>pt_name = n, pt_regex = r, pt_type = t\<rparr>"

definition structural_patterns :: "Pattern list" where
  "structural_patterns =
     [pattern (str ''article'') (rseq [RLit [c_dai], RGrp 1 (ralt [rplus (RCls False rng_kj1000), rplus (RCls False rng_digit)]), RLit [c_jou]]) (str ''ARTICLE''),
      pattern (str ''paragraph'') (rseq [RGrp 1 (ralt [rplus (RCls False rng_kj10), rplus (RCls False rng_digit)]), RLit [c_kou]]) (str ''PARAGRAPH''),
      pattern (str ''item'') (rseq [RLit [c_dai], RGrp 1 (ralt [rplus (RCls False rng_kj10), rplus (RCls False rng_digit)]), RLit [c_gou]]) (str ''ITEM''),
      pattern (str ''range'') (rseq [RLit [c_dai], RGrp 1 (ralt [rplus (RCls False rng_kj1000), rplus (RCls False rng_digit)]), RLit [c_jou, h_ka, h_ra, c_dai], RGrp 2 (ralt [rplus (RCls False rng_kj1000), rplus (RCls False rng_digit)]), RLit [c_jou, h_ma, h_de]]) (str ''RANGE'')]"

definition basic_patterns :: "Pattern list" where
  "basic_patterns =
     [pattern (str ''apply'') (rseq [ropt (ralt [RLit [h_ni, h_tsu, h_i, h_te], RLit [h_wo]]), RLit [c_jun, c_you], ralt [RLit [h_su, h_ru], RLit [h_shi]]]) (str ''APPLY''),
      pattern (str ''deem'') (ralt [rseq [ropt (RLit [h_to]), RLit [h_mi, h_na, h_su]], RLit [0x770B, 0x505A, h_su]]) (str ''DEEM''),
      pattern (str ''replace'') (rseq [RLit [0x8AAD, h_mi, 0x66FF, h_e], ralt [RLit [h_ru], RLit [h_te], RLit [h_ru, h_mo, h_no, h_to, h_su, h_ru]]]) (str ''REPLACE''),
      pattern (str ''except'') (rseq [ropt (ralt [RLit [h_wo], RLit [0x5834, 0x5408, h_wo]]), RLit [0x9664], ralt [RLit [h_ku], RLit [h_ki], RLit [h_i, h_te]]]) (str ''EXCEPT''),
      pattern (str ''follow'') (ralt [rseq [ropt (RLit [h_ni]), RLit [0x5F93], ralt [RLit [h_i], RLit [0x3063, h_te]]], rseq [RLit [0x57FA, 0x3065], ralt [RLit [h_ki], RLit [h_i, h_te]]], RLit [h_ni, h_yo, h_ru]]) (str ''FOLLOW''),
      pattern (str ''limit'') (rseq [ropt (RLit [h_ko, h_no]), RLit [0x9650, h_ri], ropt (RLit [h_de]), ropt (RLit [h_na, h_i])]) (str ''LIMIT''),
      pattern (str ''regardless'') (ralt [rseq [ropt (RLit [h_ni]), RLit [h_ka, h_ka, h_wa, h_ra, h_zu]], RLit [h_wo, 0x554F, h_wa, h_zu]]) (str ''REGARDLESS''),
      pattern (str ''stipulate'') (rseq [RLit [c_ki, c_tei], ralt [RLit [h_su, h_ru], RLit [h_shi], RLit [h_sa, h_re, h_ru]]]) (str ''STIPULATE''),
      pattern (str ''relate'') (rseq [RLit [h_ni, 0x95A2], ralt [RLit [h_shi], RLit [h_shi, h_te], RLit [h_su, h_ru]]]) (str ''RELATE'')]"

definition implicit_patterns :: "Pattern list" where
  "implicit_patterns =
     [pattern (str ''previous'') (ralt [RLit [c_zen, c_jou], RLit [c_zen, c_kou], RLit [c_zen, c_gou]]) (str ''PREVIOUS''),
      pattern (str ''next'') (ralt [RLit [c_ji, c_jou], RLit [c_ji, c_kou], RLit [c_ji, c_gou]]) (str ''NEXT''),
      pattern (str ''same'') (ralt [RLit [c_dou, c_jou], RLit [c_dou, c_kou], RLit [c_dou, c_gou]]) (str ''SAME''),
      pattern (str ''thisLaw'') (ralt [RLit [h_ko, h_no, c_hou, c_ritsu], RLit [c_hon, c_hou]]) (str ''THIS_LAW''),
      pattern (str ''otherLaw'') (ralt [RLit [0x4ED6, h_no, c_hou, c_rei_order], RLit [c_betsu, h_ni, c_hou, c_ritsu, h_de, c_tei, h_me, h_ru]]) (str ''OTHER_LAW'')]"

definition compound_patterns :: "Pattern list" where
  "compound_patterns =
     [pattern (str ''conditionalApply'') (rseq [RGrp 1 (RRep (RCls True rng_eol) 1 (Some 50) True), RLit [h_no, 0x5834, 0x5408, h_ni], ropt (RLit [0x9650, h_ri]), RGrp 2 (RRep (RCls True rng_eol) 1 (Some 50) True), RLit [c_jun, c_you]]) (str ''CONDITIONAL_APPLY''),
      pattern (str ''exceptedApply'') (rseq [RGrp 1 (RRep (RCls True rng_eol) 1 (Some 50) True), RLit [h_wo, 0x9664, h_ki], RGrp 2 (RRep (RCls True rng_eol) 1 (Some 50) True), RLit [c_jun, c_you]]) (str ''EXCEPTED_APPLY''),
      pattern (str ''replacedApply'') (rseq [RGrp 1 (RRep (RCls True rng_eol) 1 (Some 50) True), RLit [h_to, 0x8AAD, h_mi, 0x66FF, h_e, h_te], RGrp 2 (RRep (RCls True rng_eol) 1 (Some 50) True), RLit [c_jun, c_you]]) (str ''REPLACED_APPLY'')]"

definition kanjiMap :: "(jschar \<times> int) list" where
  "kanjiMap = [(c_ichi, 1), (c_ni, 2), (c_san, 3), (c_yon, 4), (c_go, 5), (c_roku, 6), (c_nana, 7),
     (c_hachi, 8), (c_kyuu, 9), (c_juu, 10), (c_hyaku, 100), (c_sen, 1000), (c_man, 10000)]"

text \<open>One character of the loop: \<open>(result, temp, prevValue)\<close>.\<close>

fun kanji_char :: "int \<times> int \<times> int \<Rightarrow> jschar \<Rightarrow> int \<times> int \<times> int" where
  "kanji_char (result, temp, prevValue) c =
     (case map_of kanjiMap c of
        None \<Rightarrow> (result, temp, prevValue)
      | Some v \<Rightarrow>
          if v = 10 \<or> v = 100 \<or> v = 1000 \<or> v = 10000
          then (result + (if temp = 0 then 1 else temp) * v, 0, v)
          else if prevValue = 10 \<or> prevValue = 100 \<or> prevValue = 1000 then (result + v, temp, v)
          else (result, v, v))"

definition kanjiToNumber :: "jsstr \<Rightarrow> int" where
  "kanjiToNumber kanjiStr =
     (if kanjiStr = [] then 0
      else case parse_int kanjiStr of
        Some arabicNum \<Rightarrow> arabicNum
      | None \<Rightarrow> (case foldl kanji_char (0, 0, 0) kanjiStr of (result, temp, _) \<Rightarrow> result + temp))"

section \<open>The matcher\<close>

text \<open>\<open>metadata\<close>: the fields that the code sets; an absent field is \<open>None\<close>.\<close>

record Metadata =
  md_number :: "int option"
  md_startNumber :: "int option"
  md_endNumber :: "int option"
  md_condition :: "jsstr option"
  md_target :: "jsstr option"

datatype category = Structural | Basic | Implicit | Compound

record ExtractedPattern =
  ep_text :: jsstr
  ep_type :: jsstr
  ep_position :: nat
  ep_category :: category
  ep_metadata :: Metadata

definition extractMetadata :: "rmatch \<Rightarrow> Pattern \<Rightarrow> Metadata" where
  "extractMetadata match pat =
     (let none = \<lparr>md_number = None, md_startNumber = None, md_endNumber = None, md_condition = None, md_target = None\<rparr>
      in if pt_type pat = (str ''ARTICLE'') \<or> pt_type pat = (str ''PARAGRAPH'') \<or> pt_type pat = (str ''ITEM'') then
           (if truthy (cap match 1) then none\<lparr>md_number := Some (kanjiToNumber (grp match 1))\<rparr> else none)
         else if pt_type pat = (str ''RANGE'') then
           (if truthy (cap match 1) \<and> truthy (cap match 2)
            then none\<lparr>md_startNumber := Some (kanjiToNumber (grp match 1)),
                      md_endNumber := Some (kanjiToNumber (grp match 2))\<rparr>
            else none)
         else none)"

definition applyPatterns :: "jsstr \<Rightarrow> Pattern list \<Rightarrow> category \<Rightarrow> ExtractedPattern list" where
  "applyPatterns text patterns category =
     concat (map (\<lambda>pat. map (\<lambda>m. \<lparr>ep_text = m_text m, ep_type = pt_type pat, ep_position = m_index m,
       ep_category = category, ep_metadata = extractMetadata m pat\<rparr>) (exec_all (pt_regex pat) text)) patterns)"

definition applyCompoundPatterns :: "jsstr \<Rightarrow> Pattern list \<Rightarrow> ExtractedPattern list" where
  "applyCompoundPatterns text patterns =
     concat (map (\<lambda>pat. map (\<lambda>m. \<lparr>ep_text = m_text m, ep_type = pt_type pat, ep_position = m_index m,
       ep_category = Compound,
       ep_metadata = \<lparr>md_number = None, md_startNumber = None, md_endNumber = None,
         md_condition = map_option trim (cap m 1), md_target = map_option trim (cap m 2)\<rparr>\<rparr>)
       (exec_all (pt_regex pat) text)) patterns)"

definition calculateConfidence :: "ExtractedPattern \<Rightarrow> rat" where
  "calculateConfidence pat =
     (if ep_type pat = (str ''ARTICLE'') \<and> md_number (ep_metadata pat) \<notin> {None, Some 0} then 98/100
      else case ep_category pat of
        Structural \<Rightarrow> 95/100 | Basic \<Rightarrow> 85/100 | Implicit \<Rightarrow> 7/10 | Compound \<Rightarrow> 8/10)"

record MatchedPattern =
  mp_text :: jsstr
  mp_type :: jsstr
  mp_position :: nat
  mp_confidence :: rat

definition posKey :: "ExtractedPattern \<Rightarrow> jsstr" where
  "posKey pat = nat_str (ep_position pat) @ (str ''-'') @ ep_text pat"

fun first_of_key :: "jsstr list \<Rightarrow> ExtractedPattern list \<Rightarrow> MatchedPattern list" where
  "first_of_key processed [] = []"
| "first_of_key processed (pat # ps) =
     (if posKey pat \<in> set processed then first_of_key processed ps
      else \<lparr>mp_text = ep_text pat, mp_type = ep_type pat, mp_position = ep_position pat,
            mp_confidence = calculateConfidence pat\<rparr> # first_of_key (posKey pat # processed) ps)"

definition consolidatePatterns :: "ExtractedPattern list \<Rightarrow> MatchedPattern list" where
  "consolidatePatterns patterns = first_of_key [] (sort_key ep_position patterns)"

definition findPatterns :: "jsstr \<Rightarrow> MatchedPattern list" where
  "findPatterns text =
     consolidatePatterns
       (applyPatterns text structural_patterns Structural @ applyPatterns text basic_patterns Basic @
        applyPatterns text implicit_patterns Implicit @ applyCompoundPatterns text compound_patterns)"

section \<open>The analysis service\<close>

text \<open>\<open>pattern.confidence > 0.95\<close> with the document's article number.\<close>

definition tryBasicResolution :: "jsstr \<Rightarrow> int \<Rightarrow> MatchedPattern \<Rightarrow> Article \<Rightarrow> Reference option result" where
  "tryBasicResolution uuid now pat sourceArticle =
     (if mp_type pat = (str ''ARTICLE'') \<and> 95/100 < mp_confidence pat then
        (case rx_match (rseq [RLit [c_dai], RGrp 1 (rplus (RCls False rng_digit)), RLit [c_jou]]) (mp_text pat) of
           Some m \<Rightarrow>
             bind_result (create_Reference uuid now
               \<lparr>rn_type = ArticleNode, rn_id = article_value (art_id sourceArticle), rn_text = Some (fullText sourceArticle)\<rparr>
               \<lparr>rn_type = ArticleNode,
                rn_id = hd (split_char 0x5F (article_value (art_id sourceArticle))) @ (str ''_art'') @ grp m 1,
                rn_text = Some []\<rparr>
               RELATE (mp_text pat) (Some (mp_confidence pat))) (\<lambda>r. Inr (Some r))
         | None \<Rightarrow> Inr None)
      else Inr None)"

definition resolveReference :: "(MatchedPattern \<Rightarrow> Article \<Rightarrow> Reference option) \<Rightarrow> jsstr \<Rightarrow> int \<Rightarrow> MatchedPattern \<Rightarrow>
    Article \<Rightarrow> Reference option result" where
  "resolveReference aiResolve uuid now pat sourceArticle =
     bind_result (tryBasicResolution uuid now pat sourceArticle) (\<lambda>basicResolution.
       case basicResolution of
         Some r \<Rightarrow>
           if 9/10 < ref_confidence r then Inr (Some r)
           else Inr (case aiResolve pat sourceArticle of
               None \<Rightarrow> None | Some a \<Rightarrow> if ref_confidence a < 5/10 then None else Some a)
       | None \<Rightarrow> Inr (case aiResolve pat sourceArticle of
               None \<Rightarrow> None | Some a \<Rightarrow> if ref_confidence a < 5/10 then None else Some a))"

definition group_key :: "Reference \<Rightarrow> jsstr" where
  "group_key r = rn_id (ref_source r) @ (str ''_'') @ rn_id (ref_target r) @ (str ''_'') @ type_name (ref_type r)"

definition group_refs :: "Reference list \<Rightarrow> (jsstr, Reference list) jsmap" where
  "group_refs refs = foldl (\<lambda>grouped r.
     AList.update (group_key r) ((case map_of grouped (group_key r) of None \<Rightarrow> [] | Some g \<Rightarrow> g) @ [r]) grouped) [] refs"

text \<open>\<open>reduce\<close> keeps the earlier one of two equally confident references. A group is never empty.\<close>

fun best_of :: "Reference list \<Rightarrow> Reference option" where
  "best_of [] = None"
| "best_of (r # rs) = Some (foldl (\<lambda>best current.
     if ref_confidence best < ref_confidence current then current else best) r rs)"

definition consolidateReferences :: "Reference list \<Rightarrow> Reference list" where
  "consolidateReferences refs = List.map_filter (\<lambda>(_, group). best_of group) (group_refs refs)"

fun resolve_all :: "(MatchedPattern \<Rightarrow> Article \<Rightarrow> Reference option) \<Rightarrow> (nat \<Rightarrow> jsstr) \<Rightarrow> int \<Rightarrow> Article \<Rightarrow> nat \<Rightarrow>
    MatchedPattern list \<Rightarrow> Reference list result" where
  "resolve_all aiResolve uuid now article k [] = Inr []"
| "resolve_all aiResolve uuid now article k (pat # ps) =
     bind_result (resolveReference aiResolve (uuid k) now pat article) (\<lambda>resolved.
     bind_result (resolve_all aiResolve uuid now article (Suc k) ps) (\<lambda>rest.
       Inr (case resolved of None \<Rightarrow> rest | Some r \<Rightarrow> r # rest)))"

definition analyzeArticle :: "(MatchedPattern \<Rightarrow> Article \<Rightarrow> Reference option) \<Rightarrow> (nat \<Rightarrow> jsstr) \<Rightarrow> int \<Rightarrow> Article \<Rightarrow>
    Reference list result" where
  "analyzeArticle aiResolve uuid now article =
     bind_result (resolve_all aiResolve uuid now article 0 (findPatterns (fullText article))) (\<lambda>refs.
       Inr (consolidateReferences refs))"

section \<open>Numerals\<close>

lemma kanjiMap_digit: "0 < d \<Longrightarrow> d < 10 \<Longrightarrow> map_of kanjiMap (kanji_digit d) = Some (int d)"
proof -
  have "\<forall>d \<in> set [1..<10]. map_of kanjiMap (kanji_digit d) = Some (int d)" by code_simp
  then show "0 < d \<Longrightarrow> d < 10 \<Longrightarrow> ?thesis" by simp
qed

lemma kanjiMap_units: "map_of kanjiMap c_juu = Some 10" "map_of kanjiMap c_hyaku = Some 100"
  by (simp_all add: kanjiMap_def)

lemma small_digit: "0 < d \<Longrightarrow> d < 10 \<Longrightarrow> int d \<notin> {10, 100, 1000, 10000, 0}"
  by auto

lemma fold_hundreds:
  "h < 10 \<Longrightarrow> foldl kanji_char (0, 0, 0) (kanji_place h c_hyaku) = (100 * int h, 0, if h = 0 then 0 else 100)"
  using small_digit [of h] by (auto simp: kanji_place_def kanjiMap_digit kanjiMap_units)

lemma fold_tens:
  "t < 10 \<Longrightarrow> p = 0 \<or> p = 100 \<Longrightarrow> foldl kanji_char (r, 0, p) (kanji_place t c_juu) =
     (if t = 0 then (r, 0, p) else (if p = 100 \<and> 2 \<le> t then r + int t + 10 else r + 10 * int t, 0, 10))"
  using small_digit [of t] by (auto simp: kanji_place_def kanjiMap_digit kanjiMap_units)

lemma fold_ones:
  "u < 10 \<Longrightarrow> p = 0 \<or> p = 10 \<or> p = 100 \<Longrightarrow>
     (case foldl kanji_char (r, 0, p) (if u = 0 then [] else [kanji_digit u]) of (result, temp, _) \<Rightarrow> result + temp) = r + int u"
  using small_digit [of u] by (auto simp: kanjiMap_digit)

lemma kanji_code: "in_cls False rng_kjall c \<Longrightarrow> 0x3006 < c"
  by (auto simp: in_cls_def)

lemma parse_int_kanji: "in_cls False rng_kjall (hd s) \<Longrightarrow> s \<noteq> [] \<Longrightarrow> parse_int s = None"
proof (cases s)
  case (Cons c t)
  assume "in_cls False rng_kjall (hd s)"
  with Cons kanji_code [of c] have c: "0x3006 < c" by simp
  then have "\<not> is_ws c \<or> c = 0xFEFF" "\<not> is_digit c" "c \<noteq> 0x2D" "c \<noteq> 0x2B" "c \<noteq> 0x30"
    by (auto simp: is_ws_def is_digit_def)
  moreover have "c \<noteq> 0xFEFF" using \<open>in_cls False rng_kjall (hd s)\<close> Cons by (auto simp: in_cls_def)
  ultimately show ?thesis
    by (cases t) (simp_all add: Cons parse_int_def parse_auto_def parse_digits_def)
qed simp

section \<open>The matcher keeps its promise\<close>

definition all_patterns :: "Pattern list" where
  "all_patterns = structural_patterns @ basic_patterns @ implicit_patterns @ compound_patterns"

lemma patterns_consume: "list_all (\<lambda>p. 0 < min_len (pt_regex p)) all_patterns"
  by code_simp

definition extracted :: "jsstr \<Rightarrow> ExtractedPattern list" where
  "extracted text = applyPatterns text structural_patterns Structural @ applyPatterns text basic_patterns Basic @
     applyPatterns text implicit_patterns Implicit @ applyCompoundPatterns text compound_patterns"

abbreviation spans :: "jsstr \<Rightarrow> Pattern list \<Rightarrow> (nat \<times> jsstr) set" where
  "spans s ps \<equiv> \<Union>p \<in> set ps. (\<lambda>m. (m_index m, m_text m)) ` set (exec_all (pt_regex p) s)"

lemma applied_spans:
  "(\<lambda>e. (ep_position e, ep_text e)) ` set (applyPatterns s ps c) = spans s ps"
  "(\<lambda>e. (ep_position e, ep_text e)) ` set (applyCompoundPatterns s ps) = spans s ps"
  by (simp_all add: applyPatterns_def applyCompoundPatterns_def image_UN image_image)

lemma extracted_spans: "(\<lambda>e. (ep_position e, ep_text e)) ` set (extracted s) = spans s all_patterns"
  by (simp add: extracted_def all_patterns_def image_Un applied_spans Un_assoc)

lemma posKey_iff: "posKey a = posKey b \<longleftrightarrow> ep_position a = ep_position b \<and> ep_text a = ep_text b"
proof
  have tw: "takeWhile is_digit (posKey e) = nat_str (ep_position e)" for e
    by (simp add: posKey_def takeWhile_append is_digit_def nat_str_digits takeWhile_eq_all_conv)
  assume eq: "posKey a = posKey b"
  from tw [of a] tw [of b] eq have p: "ep_position a = ep_position b" by simp
  with eq show "ep_position a = ep_position b \<and> ep_text a = ep_text b" by (simp add: posKey_def)
qed (simp add: posKey_def)

lemma first_of_key_set:
  "(\<lambda>r. (mp_position r, mp_text r)) ` set (first_of_key ks es) = {(ep_position e, ep_text e) |e. e \<in> set es \<and> posKey e \<notin> set ks}"
proof (induction es arbitrary: ks)
  case (Cons e es)
  show ?case
  proof (cases "posKey e \<in> set ks")
    case True
    with Cons show ?thesis by auto
  next
    case False
    with Cons [of "posKey e # ks"] show ?thesis using posKey_iff [of _ e] by auto
  qed
qed simp

lemma first_of_key_sorted:
  "sorted (map ep_position es) \<Longrightarrow> sorted (map mp_position (first_of_key ks es))"
proof (induction es arbitrary: ks)
  case (Cons e es)
  have "mp_position r \<in> ep_position ` set es" if "r \<in> set (first_of_key (posKey e # ks) es)" for r
    using that first_of_key_set [of "posKey e # ks" es] by (auto simp: set_eq_iff image_iff)
  with Cons show ?case by force
qed simp

lemma first_of_key_distinct: "distinct (map (\<lambda>r. (mp_position r, mp_text r)) (first_of_key ks es))"
proof (induction es arbitrary: ks)
  case (Cons e es)
  have "(ep_position e, ep_text e) \<notin> (\<lambda>r. (mp_position r, mp_text r)) ` set (first_of_key (posKey e # ks) es)"
    unfolding first_of_key_set by (auto simp: posKey_iff)
  with Cons show ?case by simp
qed simp

lemma findPatterns_set:
  "(\<lambda>r. (mp_position r, mp_text r)) ` set (findPatterns s) = spans s all_patterns"
  unfolding findPatterns_def consolidatePatterns_def extracted_def [symmetric] first_of_key_set extracted_spans [symmetric]
  by auto

lemma findPatterns_located:
  assumes "r \<in> set (findPatterns s)"
  shows "occurs_at s (mp_position r) (mp_text r)"
proof -
  from assms have "(mp_position r, mp_text r) \<in> (\<lambda>r. (mp_position r, mp_text r)) ` set (findPatterns s)" by (rule imageI)
  then obtain p m where "p \<in> set all_patterns" "m \<in> set (exec_all (pt_regex p) s)"
    "mp_text r = m_text m" "mp_position r = m_index m" unfolding findPatterns_set by auto
  with patterns_consume exec_all_occurs [of "pt_regex p" m s] show ?thesis by (simp add: list_all_iff)
qed

interpretation matcher_results: located_detector findPatterns mp_text mp_position
  by unfold_locales (rule findPatterns_located)

section \<open>Consolidation\<close>

lemma best_fold:
  fixes r :: Reference
  defines "pick \<equiv> \<lambda>best current :: Reference. if ref_confidence best < ref_confidence current then current else best"
  shows "foldl pick r rs \<in> set (r # rs) \<and> (\<forall>x \<in> set (r # rs). ref_confidence x \<le> ref_confidence (foldl pick r rs))"
proof (induction rs arbitrary: r)
  case (Cons y rs)
  show ?case
  proof (cases "ref_confidence r < ref_confidence y")
    case True
    then have "pick r y = y" by (simp add: pick_def)
    with Cons [of y] True show ?thesis by auto
  next
    case False
    then have "pick r y = r" by (simp add: pick_def)
    with Cons [of r] False show ?thesis by auto
  qed
qed simp

lemma best_of_max:
  "rs \<noteq> [] \<Longrightarrow> \<exists>b. best_of rs = Some b \<and> b \<in> set rs \<and> (\<forall>x \<in> set rs. ref_confidence x \<le> ref_confidence b)"
  using best_fold by (cases rs) auto

text \<open>The groups: the keys are distinct, and the group of a key is the list of the references with it.\<close>

lemma group_refs_snoc:
  "group_refs (rs @ [r]) = AList.update (group_key r)
     ((case map_of (group_refs rs) (group_key r) of None \<Rightarrow> [] | Some g \<Rightarrow> g) @ [r]) (group_refs rs)"
  by (simp add: group_refs_def)

lemma group_refs_of:
  "map_of (group_refs rs) k = (let g = filter (\<lambda>r. group_key r = k) rs in if g = [] then None else Some g)"
proof (induction rs rule: rev_induct)
  case (snoc r rs)
  then show ?case unfolding group_refs_snoc by (auto simp: update_conv' Let_def)
qed (simp add: group_refs_def)

lemma group_refs_wf: "map_wf (group_refs rs)"
proof (induction rs rule: rev_induct)
  case (snoc r rs)
  then show ?case unfolding group_refs_snoc by (rule jsm.wf_put)
qed (simp add: group_refs_def map_wf_def)

lemma group_member:
  assumes "(k, g) \<in> set (group_refs rs)"
  shows "g = filter (\<lambda>r. group_key r = k) rs" "g \<noteq> []"
proof -
  have "map_of (group_refs rs) k = Some g" using group_refs_wf assms by (simp add: map_wf_def map_of_is_SomeI)
  then show "g = filter (\<lambda>r. group_key r = k) rs" "g \<noteq> []" by (auto simp: group_refs_of Let_def split: if_splits)
qed

lemma group_best:
  assumes "(k, g) \<in> set (group_refs rs)"
  obtains b where "best_of g = Some b" "b \<in> set rs" "group_key b = k"
    "\<forall>r \<in> set rs. group_key r = k \<longrightarrow> ref_confidence r \<le> ref_confidence b"
proof -
  from best_of_max [OF group_member(2) [OF assms]] obtain b where b: "best_of g = Some b" "b \<in> set g"
    "\<forall>x \<in> set g. ref_confidence x \<le> ref_confidence b" by blast
  with group_member(1) [OF assms] show thesis by (intro that [of b]) auto
qed

lemma consolidated_keys: "map group_key (consolidateReferences rs) = map fst (group_refs rs)"
proof -
  have "\<forall>p \<in> set ps. best_of (snd p) \<noteq> None \<and> group_key (the (best_of (snd p))) = fst p \<Longrightarrow>
      map group_key (List.map_filter (\<lambda>(_, group). best_of group) ps) = map fst ps" for ps
    by (induction ps) (auto simp: map_filter_simps split: option.splits)
  moreover have "\<forall>p \<in> set (group_refs rs). best_of (snd p) \<noteq> None \<and> group_key (the (best_of (snd p))) = fst p"
    by (auto elim!: group_best)
  ultimately show ?thesis unfolding consolidateReferences_def by blast
qed

lemma consolidated_best:
  assumes "b \<in> set (consolidateReferences rs)"
  shows "b \<in> set rs" "\<forall>r \<in> set rs. group_key r = group_key b \<longrightarrow> ref_confidence r \<le> ref_confidence b"
proof -
  from assms obtain k g where g: "(k, g) \<in> set (group_refs rs)" "best_of g = Some b"
    by (auto simp: consolidateReferences_def List.map_filter_def split: prod.splits)
  from g(1) obtain b' where b': "best_of g = Some b'" "b' \<in> set rs" "group_key b' = k"
    "\<forall>r \<in> set rs. group_key r = k \<longrightarrow> ref_confidence r \<le> ref_confidence b'" by (rule group_best)
  with g(2) show "b \<in> set rs" "\<forall>r \<in> set rs. group_key r = group_key b \<longrightarrow> ref_confidence r \<le> ref_confidence b"
    by auto
qed

lemma consolidated_covers: "group_key ` set (consolidateReferences rs) = group_key ` set rs"
proof -
  have "group_key ` set (consolidateReferences rs) = dom (map_of (group_refs rs))"
    using arg_cong [OF consolidated_keys [of rs], of set] by (simp add: dom_map_of_conv_image_fst)
  also have "\<dots> = group_key ` set rs"
    by (auto simp: group_refs_of Let_def filter_empty_conv dom_def)
  finally show ?thesis .
qed

lemma consolidated_distinct: "distinct (map group_key (consolidateReferences rs))"
  using group_refs_wf [of rs] by (simp only: consolidated_keys map_wf_def)

section \<open>The service\<close>

lemma tryBasic_total: "\<exists>x. tryBasicResolution uuid now pat a = Inr x"
  by (simp add: tryBasicResolution_def create_Reference_def generate_ReferenceId_def new_ReferenceId_def
    del: rseq.simps split: option.splits)

lemma resolveReference_total:
  "\<exists>x. resolveReference ai uuid now pat a = Inr x \<and> (\<forall>r. x = Some r \<longrightarrow> 5/10 \<le> ref_confidence r)"
  using tryBasic_total [of uuid now pat a] by (auto simp: resolveReference_def split: option.splits)

lemma resolve_all_total:
  "\<exists>rs. resolve_all ai uuid now a k ps = Inr rs \<and> (\<forall>r \<in> set rs. 5/10 \<le> ref_confidence r)"
proof (induction ps arbitrary: k)
  case (Cons p ps)
  from Cons [of "Suc k"] resolveReference_total [of ai "uuid k" now p a] show ?case
    by (fastforce split: option.splits)
qed simp

section \<open>Properties\<close>

text \<open>C35: the matcher returns the spans of exactly the matches of its patterns, each span
  once, in the order of their positions, and every returned text stands in the input at the returned
  position.\<close>

theorem find_patterns_exact:
  "(\<lambda>r. (mp_position r, mp_text r)) ` set (findPatterns s) = spans s all_patterns \<and>
   distinct (map (\<lambda>r. (mp_position r, mp_text r)) (findPatterns s)) \<and>
   sorted (map mp_position (findPatterns s)) \<and>
   list_all (\<lambda>r. substring s (mp_position r) (mp_position r + length (mp_text r)) = mp_text r) (findPatterns s)"
proof (intro conjI)
  show "(\<lambda>r. (mp_position r, mp_text r)) ` set (findPatterns s) = spans s all_patterns" by (rule findPatterns_set)
  show "distinct (map (\<lambda>r. (mp_position r, mp_text r)) (findPatterns s))"
    unfolding findPatterns_def consolidatePatterns_def by (rule first_of_key_distinct)
  show "sorted (map mp_position (findPatterns s))"
    unfolding findPatterns_def consolidatePatterns_def by (rule first_of_key_sorted) simp
  show "list_all (\<lambda>r. substring s (mp_position r) (mp_position r + length (mp_text r)) = mp_text r) (findPatterns s)"
    by (simp add: list_all_iff matcher_results.detected_substring)
qed

text \<open>the loop of every pattern ends, whatever the text, with exactly the list of matches that
  the model uses, so the matcher always returns.\<close>

theorem pattern_loops_end:
  "list_all (\<lambda>p. \<forall>s ms. exec_loop (pt_regex p) s 0 ms = (ms = exec_all (pt_regex p) s)) all_patterns"
  using patterns_consume exec_loop_total by (simp add: list_all_iff exec_all_def)

text \<open>the numeral reader is right on the kanji numerals below 1000 except when a
  hundreds digit is followed by two or more tens: then the tens digit is counted as ones, and ten is
  added once.\<close>

theorem kanji_number_value:
  assumes "0 < n" and "n < 1000"
  shows "kanjiToNumber (kanji_of_nat n) =
    (if n div 100 \<noteq> 0 \<and> 2 \<le> n div 10 mod 10
     then int (n div 100 * 100 + n div 10 mod 10 + 10 + n mod 10) else int n)"
proof -
  define h t u where "h = n div 100" and "t = n div 10 mod 10" and "u = n mod 10"
  have small: "n div 10000 = 0" "n div 1000 mod 10 = 0" "n div 100 mod 10 = h" using assms by (simp_all add: h_def)
  have lt: "h < 10" "t < 10" "u < 10" using assms by (simp_all add: h_def t_def u_def)
  have k: "kanji_of_nat n = kanji_place h c_hyaku @ kanji_place t c_juu @ (if u = 0 then [] else [kanji_digit u])"
    unfolding kanji_of_nat_def small by (simp add: kanji_place_def t_def u_def)
  have ne: "kanji_of_nat n \<noteq> []" using assms by (simp add: kanji_of_nat_nonempty)
  have "parse_int (kanji_of_nat n) = None"
    using ne assms kanji_of_nat_class [of "hd (kanji_of_nat n)" n] by (intro parse_int_kanji) auto
  with ne have "kanjiToNumber (kanji_of_nat n) =
      (case foldl kanji_char (0, 0, 0) (kanji_of_nat n) of (result, temp, _) \<Rightarrow> result + temp)"
    by (simp add: kanjiToNumber_def)
  also have "\<dots> = (if h \<noteq> 0 \<and> 2 \<le> t then 100 * int h + int t + 10 + int u else 100 * int h + 10 * int t + int u)"
  proof -
    let ?r = "if h \<noteq> 0 \<and> 2 \<le> t then 100 * int h + int t + 10 else 100 * int h + 10 * int t"
    let ?p = "if t = 0 then (if h = 0 then 0 else 100) else 10 :: int"
    have "foldl kanji_char (foldl kanji_char (0, 0, 0) (kanji_place h c_hyaku)) (kanji_place t c_juu) = (?r, 0, ?p)"
      using lt by (simp add: fold_hundreds fold_tens)
    then show ?thesis unfolding k foldl_append using fold_ones [OF lt(3), of ?p ?r] by auto
  qed
  finally show ?thesis using decimal_expand [of n] small by (simp add: h_def t_def u_def)
qed

theorem kanji_number_value_witness:
  "kanji_of_nat 45 = [c_yon, c_juu, c_go] \<and> kanjiToNumber (kanji_of_nat 45) = 45 \<and>
   kanji_of_nat 230 = [c_ni, c_hyaku, c_san, c_juu] \<and> kanjiToNumber (kanji_of_nat 230) = 213"
proof -
  have "kanji_of_nat 45 = [c_yon, c_juu, c_go]" "kanji_of_nat 230 = [c_ni, c_hyaku, c_san, c_juu]" by code_simp+
  with kanji_number_value [of 45] kanji_number_value [of 230] show ?thesis by simp
qed

text \<open>consolidating keeps one reference for every combination of source, target and type
  that occurs, namely one of the given references with the highest confidence among those with it.\<close>

theorem consolidate_best:
  "distinct (map group_key (consolidateReferences rs)) \<and>
   group_key ` set (consolidateReferences rs) = group_key ` set rs \<and>
   list_all (\<lambda>b. b \<in> set rs \<and> list_all (\<lambda>r. ref_confidence r \<le> ref_confidence b) (filter (\<lambda>r. group_key r = group_key b) rs))
     (consolidateReferences rs)"
  using consolidated_best [of _ rs] consolidated_distinct [of rs] consolidated_covers [of rs]
  by (auto simp: list_all_iff)

text \<open>the analysis of an article always completes, whatever the language-model resolver
  answers, and returns references of confidence at least 0.5, no two of them for the same source,
  target and type.\<close>

theorem analysis_total:
  "\<exists>rs. analyzeArticle aiResolve uuid now article = Inr rs \<and>
     distinct (map group_key rs) \<and> list_all (\<lambda>r. 5/10 \<le> ref_confidence r) rs"
proof -
  from resolve_all_total obtain qs where
    qs: "resolve_all aiResolve uuid now article 0 (findPatterns (fullText article)) = Inr qs"
      "\<forall>r \<in> set qs. 5/10 \<le> ref_confidence r" by blast
  then have "list_all (\<lambda>r. 5/10 \<le> ref_confidence r) (consolidateReferences qs)"
    using consolidated_best(1) [of _ qs] by (auto simp: list_all_iff)
  with qs(1) consolidated_distinct show ?thesis by (simp add: analyzeArticle_def)
qed


end
