(* ===== verification/NegativePatterns.thy ===== *)
theory NegativePatterns
  imports JSRegex
begin

text \<open>
  \<^verbatim>\<open>scripts/negative-patterns.ts\<close>: texts that mention an article without referring to it. The patterns are
  \<open>RegExp\<close> objects with the global flag, so each carries a \<open>lastIndex\<close> that \<open>test\<close> reads and writes and
  \<open>matchAll\<close> reads: the state of a filter is the list of these numbers, next to the set of enabled
  categories. References are records of any type with an optional context and an optional text.
\<close>

section \<open>The code\<close>

record NegativePattern =
  np_name :: jsstr
  np_pattern :: regex

abbreviation negative :: "jsstr \<Rightarrow> regex \<Rightarrow> NegativePattern" where
  "negative n r \<equiv> \<lparr>np_name = n, np_pattern = r\<rparr>"

definition DELETION_PATTERNS :: "NegativePattern list" where
  "DELETION_PATTERNS =
     [negative [c_jou, 0x6587, 0x524A, 0x9664] (rseq [RLit [c_dai], rplus (RCls False rng_digit), RLit [c_jou, h_wo, 0x524A, 0x9664]]),
      negative [0x5EC3, 0x6B62, c_ki, c_tei] (rseq [RLit [c_dai], rplus (RCls False rng_digit), RLit [c_jou], ropt (rseq [RLit [h_ka, h_ra, c_dai], rplus (RCls False rng_digit), RLit [c_jou, h_ma, h_de]]), RLit [h_wo, 0x5EC3, 0x6B62]]),
      negative [0x524A, 0x9664, 0x6E08, h_mi, c_jou, 0x6587] (rseq [RLit [c_dai], rplus (RCls False rng_digit), RLit [c_jou], rstar (RCls False (rng_ws @ [(p_wspace, p_wspace)])), RLit [0x524A, 0x9664]]),
      negative [0x6B20, 0x756A] (rseq [RLit [c_dai], rplus (RCls False rng_digit), RLit [c_jou], rstar (RCls False (rng_ws @ [(p_wspace, p_wspace)])), RLit [0x6B20]])]"

definition OLD_LAW_PATTERNS :: "NegativePattern list" where
  "OLD_LAW_PATTERNS =
     [negative [c_kyu_old, c_hou, 0x53C2, 0x7167] (rseq [RLit [c_kyu_old], rstar (RCls True rng_eol), RLit [c_dai], rplus (RCls False rng_digit), RLit [c_jou]]),
      negative [c_kai, c_sei, c_zen, c_jou, 0x6587] (rseq [RLit [c_kai, c_sei, c_zen, h_no], rstar (RCls True rng_eol), RLit [c_dai], rplus (RCls False rng_digit), RLit [c_jou]]),
      negative [0x5EC3, 0x6B62, c_hou, c_rei_order] (rseq [RLit [0x5EC3, 0x6B62, h_sa, h_re, h_ta], rstar (RCls True rng_eol), RLit [c_dai], rplus (RCls False rng_digit), RLit [c_jou]]),
      negative [0x5931, 0x52B9, c_jou, 0x6587] (rseq [RLit [0x5931, 0x52B9, h_shi, h_ta], rstar (RCls True rng_eol), RLit [c_dai], rplus (RCls False rng_digit), RLit [c_jou]])]"

definition DRAFT_PATTERNS :: "NegativePattern list" where
  "DRAFT_PATTERNS =
     [negative [0x4EEE, 0x79F0, c_jou, 0x6587] (rseq [ralt [RLit [0x4EEE, 0x79F0], RLit [0x4EEE]], rstar (RCls True rng_eol), RLit [c_dai], rplus (RCls False rng_digit), RLit [c_jou]]),
      negative [0x8349, 0x6848, c_jou, 0x6587] (rseq [RLit [0x8349, 0x6848], rstar (RCls True rng_eol), RLit [c_dai], rplus (RCls False rng_digit), RLit [c_jou]]),
      negative [0x691C, 0x8A0E, 0x4E2D, c_jou, 0x6587] (rseq [RLit [0x691C, 0x8A0E, 0x4E2D, h_no], rstar (RCls True rng_eol), RLit [c_dai], rplus (RCls False rng_digit), RLit [c_jou]]),
      negative [0x4E88, c_tei, c_jou, 0x6587] (rseq [RLit [0x4E88, c_tei, h_no], rstar (RCls True rng_eol), RLit [c_dai], rplus (RCls False rng_digit), RLit [c_jou]])]"

definition AMENDMENT_INSTRUCTION_PATTERNS :: "NegativePattern list" where
  "AMENDMENT_INSTRUCTION_PATTERNS =
     [negative [c_jou, 0x6587, c_kai, c_sei, 0x6307, 0x793A] (rseq [RLit [c_dai], rplus (RCls False rng_digit), RLit [c_jou, 0x4E2D, p_lquote], rplus (RCls True [(p_rquote, p_rquote)]), RLit [p_rquote, h_wo, p_lquote], rplus (RCls True [(p_rquote, p_rquote)]), RLit [p_rquote, h_ni, c_kai, h_me, h_ru]]),
      negative [c_jou, 0x6587, 0x8FFD, 0x52A0, 0x6307, 0x793A] (rseq [RLit [c_dai], rplus (RCls False rng_digit), RLit [c_jou, h_no, c_ji, h_ni, c_ji, h_no], rplus (RCls False rng_digit), RLit [c_jou, h_wo, 0x52A0, h_e, h_ru]]),
      negative [c_jou, 0x6587, 0x79FB, 0x52D5, 0x6307, 0x793A] (rseq [RLit [c_dai], rplus (RCls False rng_digit), RLit [c_jou, h_wo, c_dai], rplus (RCls False rng_digit), RLit [c_jou, h_to, h_su, h_ru]]),
      negative [c_kou, 0x8FFD, 0x52A0, 0x6307, 0x793A] (rseq [RLit [c_dai], rplus (RCls False rng_digit), RLit [c_jou, h_ni, c_ji, h_no], rplus (RCls False rng_digit), RLit [c_kou, h_wo, 0x52A0, h_e, h_ru]])]"

definition EXPLANATION_PATTERNS :: "NegativePattern list" where
  "EXPLANATION_PATTERNS =
     [negative [c_jou, 0x6587, 0x8AAC, 0x660E] (rseq [RLit [c_dai], rplus (RCls False rng_digit), RLit [c_jou], ralt [RLit [h_ha], RLit [h_to, h_ha], RLit [h_ni, h_tsu, h_i, h_te], RLit [h_ni, 0x95A2, h_shi, h_te]]]),
      negative [c_jou, 0x6587, 0x89E3, 0x8AAC] (rseq [RLit [c_dai], rplus (RCls False rng_digit), RLit [c_jou, h_no], ralt [RLit [0x8DA3, 0x65E8], RLit [c_moku, 0x7684], RLit [0x610F, 0x7FA9], RLit [0x89E3, 0x91C8]]]),
      negative [c_jou, 0x6587, 0x4F8B, 0x793A] (rseq [RLit [0x4F8B, h_e, 0x3070, c_dai], rplus (RCls False rng_digit), RLit [c_jou]]),
      negative [c_jou, 0x6587, 0x6BD4, 0x8F03] (rseq [RLit [c_dai], rplus (RCls False rng_digit), RLit [c_jou, h_to, 0x6BD4, 0x8F03, h_shi, h_te]])]"

definition ALL_NEGATIVE_PATTERNS :: "NegativePattern list" where
  "ALL_NEGATIVE_PATTERNS = DELETION_PATTERNS @ OLD_LAW_PATTERNS @ DRAFT_PATTERNS @
     AMENDMENT_INSTRUCTION_PATTERNS @ EXPLANATION_PATTERNS"

text \<open>A pattern with the \<open>lastIndex\<close> of its \<open>RegExp\<close> object.\<close>

record NegativePatternFilter =
  nf_patterns :: "(NegativePattern \<times> nat) list"
  nf_enabledCategories :: "jsstr list"

text \<open>A filter whose \<open>RegExp\<close> objects are unused. The source's filters share the objects of the module.\<close>

definition new_filter :: NegativePatternFilter where
  "new_filter = \<lparr>nf_patterns = map (\<lambda>p. (p, 0)) ALL_NEGATIVE_PATTERNS,
     nf_enabledCategories = [(str ''deletion''), (str ''old_law''), (str ''draft''), (str ''amendment''), (str ''explanation'')]\<rparr>"

definition setCategory :: "jsstr \<Rightarrow> bool \<Rightarrow> NegativePatternFilter \<Rightarrow> NegativePatternFilter" where
  "setCategory category enabled f =
     (if enabled then f\<lparr>nf_enabledCategories := List.insert category (nf_enabledCategories f)\<rparr>
      else f\<lparr>nf_enabledCategories := removeAll category (nf_enabledCategories f)\<rparr>)"

fun test_patterns :: "jsstr \<Rightarrow> (NegativePattern \<times> nat) list \<Rightarrow> bool \<times> (NegativePattern \<times> nat) list" where
  "test_patterns text [] = (False, [])"
| "test_patterns text ((p, li) # ps) =
     (case test_g (np_pattern p) text li of (hit, li') \<Rightarrow>
        if hit then (True, (p, li') # ps)
        else case test_patterns text ps of (b, ps') \<Rightarrow> (b, (p, li') # ps'))"

definition isNegative :: "jsstr \<Rightarrow> NegativePatternFilter \<Rightarrow> bool \<times> NegativePatternFilter" where
  "isNegative text f = (case test_patterns text (nf_patterns f) of (b, ps) \<Rightarrow> (b, f\<lparr>nf_patterns := ps\<rparr>))"

record ContextualRef =
  cr_context :: "jsstr option"
  cr_text :: "jsstr option"

definition getContext :: "'a ContextualRef_scheme \<Rightarrow> jsstr" where
  "getContext reference =
     (if truthy (cr_context reference) then the (cr_context reference)
      else if truthy (cr_text reference) then the (cr_text reference) else [])"

text \<open>\<open>filter\<close> and \<open>getStatistics\<close> test the references one after another, on the same \<open>RegExp\<close> objects.\<close>

fun filter_refs :: "'a ContextualRef_scheme list \<Rightarrow> NegativePatternFilter \<Rightarrow>
    'a ContextualRef_scheme list \<times> NegativePatternFilter" where
  "filter_refs [] f = ([], f)"
| "filter_refs (r # rs) f =
     (case isNegative (getContext r) f of (neg, f1) \<Rightarrow>
      case filter_refs rs f1 of (kept, f2) \<Rightarrow> (if neg then kept else r # kept, f2))"

record FilterStatistics =
  fs_total :: nat
  fs_filtered :: nat
  fs_passed :: nat
  fs_filterRate :: rat

fun count_negative :: "'a ContextualRef_scheme list \<Rightarrow> NegativePatternFilter \<Rightarrow> nat \<times> NegativePatternFilter" where
  "count_negative [] f = (0, f)"
| "count_negative (r # rs) f =
     (case isNegative (getContext r) f of (neg, f1) \<Rightarrow>
      case count_negative rs f1 of (n, f2) \<Rightarrow> (if neg then n + 1 else n, f2))"

definition getStatistics :: "'a ContextualRef_scheme list \<Rightarrow> NegativePatternFilter \<Rightarrow>
    FilterStatistics \<times> NegativePatternFilter" where
  "getStatistics references f =
     (case count_negative references f of (filteredCount, f1) \<Rightarrow>
        let total = length references in
        (\<lparr>fs_total = total, fs_filtered = filteredCount, fs_passed = total - filteredCount,
          fs_filterRate = (if 0 < total then rat_of_nat filteredCount / rat_of_nat total * 100 else 0)\<rparr>, f1))"

text \<open>\<open>matchAll\<close> works on a copy of the \<open>RegExp\<close> that starts at its \<open>lastIndex\<close>.\<close>

definition getMatchDetails :: "jsstr \<Rightarrow> NegativePatternFilter \<Rightarrow> (NegativePattern \<times> rmatch list) list" where
  "getMatchDetails text f =
     filter (\<lambda>(p, ms). ms \<noteq> []) (map (\<lambda>(p, li). (p, exec_from (np_pattern p) text li)) (nf_patterns f))"

section \<open>What a test tells\<close>

text \<open>A pattern hits exactly when it matches somewhere at or after its \<open>lastIndex\<close>; a miss resets it.\<close>

lemma test_g_fresh: "fst (test_g r s 0) = rx_test r s"
  by (simp add: test_g_def exec_def rx_test_def rx_match_def split: option.splits)

lemma search_later:
  assumes "search n r i (drop k s) = Some m"
  shows "\<exists>m'. search n r j s = Some m'"
proof (rule ccontr)
  assume "\<nexists>m'. search n r j s = Some m'"
  then have none: "search n r j s = None" by auto
  have "search n r j s = None \<Longrightarrow> rx n r (drop k s, []) = []" for k
  proof (induction s arbitrary: j k)
    case Nil
    then show ?case by (simp add: search.simps split: list.splits prod.splits)
  next
    case (Cons c s)
    then have "rx n r (c # s, []) = []" by (subst (asm) search.simps) (auto split: list.splits prod.splits)
    with Cons show ?case by (cases k) (simp_all add: search_skip)
  qed
  then have no: "rx n r (drop k' s, []) = []" for k' using none by blast
  have "search n r i (drop k s) = None"
  proof (induction "length s - k" arbitrary: i k)
    case 0
    then have "drop k s = []" by simp
    then show ?case using no [of k] by (simp add: search.simps)
  next
    case (Suc l)
    then obtain c t where d: "drop k s = c # t" by (cases "drop k s") auto
    then have t: "t = drop (Suc k) s" by (metis drop_Suc list.sel(3) tl_drop)
    from Suc have "search n r (Suc i) (drop (Suc k) s) = None" by (intro Suc.hyps) simp
    with no [of k] show ?case by (simp add: d t [symmetric] search_skip)
  qed
  with assms show False by simp
qed

lemma test_g_sound: "fst (test_g r s li) \<Longrightarrow> rx_test r s"
  using search_later [of "length s" r li li s _ 0]
  by (auto simp: test_g_def exec_def rx_test_def rx_match_def split: if_splits option.splits)

definition any_pattern :: "jsstr \<Rightarrow> NegativePatternFilter \<Rightarrow> bool" where
  "any_pattern text f \<longleftrightarrow> list_ex (\<lambda>p. rx_test (np_pattern (fst p)) text) (nf_patterns f)"

definition fresh :: "NegativePatternFilter \<Rightarrow> bool" where
  "fresh f \<longleftrightarrow> list_all (\<lambda>p. snd p = 0) (nf_patterns f)"

lemma test_patterns_sound:
  "fst (test_patterns t ps) \<Longrightarrow> \<exists>p \<in> set ps. rx_test (np_pattern (fst p)) t"
proof (induction t ps rule: test_patterns.induct)
  case (2 t p li ps)
  then show ?case using test_g_sound [of "np_pattern p" t li] by (auto split: if_splits prod.splits)
qed simp

lemma test_patterns_fresh:
  "list_all (\<lambda>p. snd p = 0) ps \<Longrightarrow> fst (test_patterns t ps) = list_ex (\<lambda>p. rx_test (np_pattern (fst p)) t) ps"
proof (induction t ps rule: test_patterns.induct)
  case (2 t p li ps)
  then show ?case using test_g_fresh [of "np_pattern p" t] by (auto split: if_splits prod.splits)
qed simp

lemma test_patterns_keep: "map fst (snd (test_patterns t ps)) = map fst ps"
  by (induction t ps rule: test_patterns.induct) (auto split: if_splits prod.splits)

lemma isNegative_sound: "fst (isNegative t f) \<Longrightarrow> any_pattern t f"
  using test_patterns_sound [of t "nf_patterns f"]
  by (auto simp: isNegative_def any_pattern_def list_ex_iff split: prod.splits)

lemma isNegative_fresh: "fresh f \<Longrightarrow> fst (isNegative t f) = any_pattern t f"
  using test_patterns_fresh [of "nf_patterns f" t]
  by (simp add: isNegative_def any_pattern_def fresh_def case_prod_beta)

text \<open>A test moves only the indices: the patterns, and so what \<open>any_pattern\<close> says, stay.\<close>

lemma any_pattern_keep: "any_pattern u (snd (isNegative t f)) = any_pattern u f"
proof -
  have "list_ex (\<lambda>p. rx_test (np_pattern (fst p)) u) ps = list_ex (\<lambda>q. rx_test (np_pattern q) u) (map fst ps)" for ps :: "(NegativePattern \<times> nat) list"
    by (simp add: list_ex_iff)
  then show ?thesis
    using test_patterns_keep [of t "nf_patterns f"] by (simp add: any_pattern_def isNegative_def case_prod_beta)
qed

lemma filter_refs_safe:
  "subseq (filter (\<lambda>r. \<not> any_pattern (getContext r) f) rs) (fst (filter_refs rs f)) \<and> subseq (fst (filter_refs rs f)) rs"
proof (induction rs arbitrary: f)
  case (Cons r rs)
  obtain neg f1 where n: "isNegative (getContext r) f = (neg, f1)" by force
  obtain kept f2 where k: "filter_refs rs f1 = (kept, f2)" by force
  have "any_pattern u f1 = any_pattern u f" for u using any_pattern_keep [of u "getContext r" f] n by simp
  moreover have "neg \<Longrightarrow> any_pattern (getContext r) f" using isNegative_sound [of "getContext r" f] n by simp
  ultimately show ?case using Cons [of f1] n k by (auto intro: subseq_Cons')
qed simp

lemma count_negative_length: "fst (count_negative rs f) + length (fst (filter_refs rs f)) = length rs"
proof (induction rs arbitrary: f)
  case (Cons r rs)
  obtain neg f1 where n: "isNegative (getContext r) f = (neg, f1)" by force
  with Cons [of f1] show ?case by (auto split: prod.splits)
qed simp

section \<open>Properties\<close>

text \<open>C40: a text is reported negative only if one of the patterns matches it, and the report is
  exact when the patterns have not been used since their last miss.\<close>

theorem negative_exact:
  "(fst (isNegative t f) \<longrightarrow> any_pattern t f) \<and> (fresh f \<longrightarrow> fst (isNegative t f) = any_pattern t f)"
  using isNegative_sound isNegative_fresh by blast

theorem negative_exact_witness:
  "fresh new_filter \<and> fst (isNegative [c_dai, 0x31, 0x30, c_jou, h_wo, 0x524A, 0x9664, h_su, h_ru] new_filter) \<and> \<not> fst (isNegative [c_min, c_hou, c_dai, 0x39, 0x30, c_jou] new_filter)"
proof -
  have "fresh new_filter" "any_pattern [c_dai, 0x31, 0x30, c_jou, h_wo, 0x524A, 0x9664, h_su, h_ru] new_filter" "\<not> any_pattern [c_min, c_hou, c_dai, 0x39, 0x30, c_jou] new_filter"
    by code_simp+
  with negative_exact [of "[c_dai, 0x31, 0x30, c_jou, h_wo, 0x524A, 0x9664, h_su, h_ru]" new_filter] negative_exact [of "[c_min, c_hou, c_dai, 0x39, 0x30, c_jou]" new_filter] show ?thesis by simp
qed

text \<open>whatever the state of the patterns, filtering keeps the order, invents nothing, and
  never drops a reference whose context no pattern matches; the statistics of the same state count the
  dropped and the kept references.\<close>

theorem negative_filter_safe:
  "subseq (filter (\<lambda>r. \<not> any_pattern (getContext r) f) rs) (fst (filter_refs rs f)) \<and>
   subseq (fst (filter_refs rs f)) rs \<and>
   fs_passed (fst (getStatistics rs f)) = length (fst (filter_refs rs f)) \<and>
   fs_filtered (fst (getStatistics rs f)) + fs_passed (fst (getStatistics rs f)) = length rs"
  using filter_refs_safe [of f rs] count_negative_length [of rs f]
  by (auto simp: getStatistics_def Let_def split: prod.splits)

text \<open>The state matters: asked twice about the same text, the filter answers yes and then no, and the
  details of a text just reported negative do not name the pattern.\<close>

lemma negative_flips:
  "fst (isNegative [c_dai, 0x31, 0x30, c_jou, h_wo, 0x524A, 0x9664, h_su, h_ru] new_filter) \<and>
   \<not> fst (isNegative [c_dai, 0x31, 0x30, c_jou, h_wo, 0x524A, 0x9664, h_su, h_ru] (snd (isNegative [c_dai, 0x31, 0x30, c_jou, h_wo, 0x524A, 0x9664, h_su, h_ru] new_filter)))"
  by code_simp

lemma details_after_test:
  "length (getMatchDetails [c_dai, 0x31, 0x30, c_jou, h_wo, 0x524A, 0x9664, h_su, h_ru] new_filter) = 1 \<and>
   getMatchDetails [c_dai, 0x31, 0x30, c_jou, h_wo, 0x524A, 0x9664, h_su, h_ru] (snd (isNegative [c_dai, 0x31, 0x30, c_jou, h_wo, 0x524A, 0x9664, h_su, h_ru] new_filter)) = []"
  by code_simp

text \<open>Disabling a category changes no answer.\<close>

lemma category_ignored: "fst (isNegative t (setCategory c b f)) = fst (isNegative t f)"
  by (simp add: isNegative_def setCategory_def split: prod.splits)


end
