(* ===== verification/DetectorCore.thy ===== *)
theory DetectorCore
  imports RelativeResolver NegativePatterns
begin

text \<open>
  \<^verbatim>\<open>scripts/detector.ts\<close>, part 1: the data of the main detector and the methods its phases call. The
  generated law dictionary is not part of the sources (the build makes it), so its two look-up
  functions are arguments, in the record \<open>env\<close>, together with the constructor \<open>RegExp\<close> for a pattern
  that is put together at run time (\<open>None\<close> is the \<open>SyntaxError\<close>) and the two methods that ask the
  language model. The title and metadata caches are never filled by the sources; they are fields of
  \<open>env\<close>, too. Field prefixes: \<open>dr_\<close> a detected reference, \<open>cs_\<close> the context state.
\<close>

section \<open>Data\<close>

datatype refType = External | Internal | Relative | StructuralRef | Application | Contextual | Defined
  | Range | Conditional

datatype resolutionKind = ByPattern | ByDictionary | ByContext | ByLLM | ByDefinition | ByLawNumber | ByRelative

text \<open>A paragraph target is a number, except that the phase of the context stores the matched string.\<close>

datatype paragraphTarget = ParaNumber int | ParaText jsstr

record enhancedInfo =
  en_startPos :: nat
  en_endPos :: nat
  en_lineNumber :: nat
  en_paragraphNumber :: int
  en_targetParagraph :: "int option"

text \<open>An article number may be absent or \<open>NaN\<close>: \<open>None\<close> and \<open>Some None\<close>. \<open>dr_extra\<close> holds the properties that
  the interface does not declare.\<close>

record DetectedReference =
  dr_type :: refType
  dr_text :: jsstr
  dr_targetLaw :: "jsstr option"
  dr_targetLawId :: "jsstr option"
  dr_targetArticle :: "jsstr option"
  dr_targetParagraph :: "paragraphTarget option"
  dr_articleNumber :: "int option option"
  dr_confidence :: rat
  dr_resolutionMethod :: resolutionKind
  dr_position :: "int option"
  dr_enhanced :: "enhancedInfo option"
  dr_rangeStart :: "jsstr option"
  dr_rangeEnd :: "jsstr option"
  dr_extra :: "(jsstr \<times> jsstr) list"

text \<open>The object literal with the four required properties.\<close>

definition found :: "refType \<Rightarrow> jsstr \<Rightarrow> rat \<Rightarrow> resolutionKind \<Rightarrow> DetectedReference" where
  "found type text conf method =
     \<lparr>dr_type = type, dr_text = text, dr_targetLaw = None, dr_targetLawId = None, dr_targetArticle = None,
      dr_targetParagraph = None, dr_articleNumber = None, dr_confidence = conf, dr_resolutionMethod = method,
      dr_position = None, dr_enhanced = None, dr_rangeStart = None, dr_rangeEnd = None, dr_extra = []\<rparr>"

definition at_pos :: "nat \<Rightarrow> DetectedReference \<Rightarrow> DetectedReference" where
  "at_pos i r = r\<lparr>dr_position := Some (int i)\<rparr>"

record Definition =
  df_term :: jsstr
  df_actualLaw :: jsstr
  df_position :: nat

record RecentLaw =
  rl_lawId :: jsstr
  rl_lawName :: jsstr
  rl_position :: nat

record ContextState =
  cs_currentLawId :: jsstr
  cs_currentLawName :: jsstr
  cs_currentArticle :: jsstr
  cs_currentArticleNumber :: int
  cs_currentParagraphNumber :: int
  cs_recentLaws :: "RecentLaw list"
  cs_recentArticles :: "jsstr list"
  cs_definitions :: "(jsstr, Definition) jsmap"

record LLMAnswer =
  la_lawName :: jsstr
  la_lawId :: "jsstr option"
  la_article :: "jsstr option"
  la_confidence :: rat
  la_referenceType :: "refType option"

record env =
  findLawIdByName :: "jsstr \<Rightarrow> jsstr option"
  findLawIdByNumber :: "jsstr \<Rightarrow> jsstr option"
  compileRegExp :: "jsstr \<Rightarrow> regex option"
  lawTitleCache :: "(jsstr, jsstr) jsmap"
  lawMetadataCache :: "(jsstr, int) jsmap"
  queryLLM :: "jsstr \<Rightarrow> jsstr \<Rightarrow> jsstr \<Rightarrow> DetectedReference list \<Rightarrow> LLMAnswer option"
  analyzeApplication :: "rmatch \<Rightarrow> jsstr \<Rightarrow> jsstr \<Rightarrow> DetectedReference list \<Rightarrow> DetectedReference list option"

definition new_context :: ContextState where
  "new_context = \<lparr>cs_currentLawId = [], cs_currentLawName = [], cs_currentArticle = [],
     cs_currentArticleNumber = 1, cs_currentParagraphNumber = 1, cs_recentLaws = [], cs_recentArticles = [],
     cs_definitions = []\<rparr>"

section \<open>Numbers\<close>

definition singleDigits :: "(jschar \<times> int) list" where
  "singleDigits = [(c_maru, 0), (c_rei, 0), (c_ichi, 1), (c_ni, 2), (c_san, 3), (c_yon, 4), (c_go, 5),
     (c_roku, 6), (c_nana, 7), (c_hachi, 8), (c_kyuu, 9)]"

definition is_unit :: "jschar \<Rightarrow> bool" where
  "is_unit c \<longleftrightarrow> c = c_sen \<or> c = c_hyaku \<or> c = c_juu"

text \<open>What one character adds to \<open>result\<close>, given the characters before and after it. The variable
  \<open>currentNumber\<close> of the source is written and never read.\<close>

definition kanji_add :: "jschar option \<Rightarrow> jschar \<Rightarrow> jschar option \<Rightarrow> int" where
  "kanji_add prev c nxt =
     (if c = c_sen then
        (case prev of None \<Rightarrow> 1000
         | Some p \<Rightarrow> (case map_of singleDigits p of Some d \<Rightarrow> d * 1000 | None \<Rightarrow> 1000))
      else if c = c_hyaku then
        (case prev of None \<Rightarrow> 100
         | Some p \<Rightarrow> if is_unit p then 100
             else (case map_of singleDigits p of Some d \<Rightarrow> d * 100 | None \<Rightarrow> 100))
      else if c = c_juu then
        (case prev of None \<Rightarrow> 10
         | Some p \<Rightarrow> if is_unit p then 10
             else (case map_of singleDigits p of Some d \<Rightarrow> d * 10 | None \<Rightarrow> 10))
      else case map_of singleDigits c of
        Some d \<Rightarrow> (case nxt of Some n \<Rightarrow> if is_unit n then 0 else d | None \<Rightarrow> d)
      | None \<Rightarrow> 0)"

fun kanji_loop :: "jschar option \<Rightarrow> jsstr \<Rightarrow> int \<Rightarrow> int" where
  "kanji_loop prev [] result = result"
| "kanji_loop prev (c # cs) result =
     kanji_loop (Some c) cs (result + kanji_add prev c (case cs of [] \<Rightarrow> None | n # _ \<Rightarrow> Some n))"

text \<open>The second attempt, when the loop found nothing.\<close>

definition kanji_retry :: "jsstr \<Rightarrow> int" where
  "kanji_retry text =
     (case rx_match (rseq [RBol, ropt (RGrp 1 (RCls False rng_kj9)), ropt (RLit [c_sen]), ropt (RGrp 2 (RCls False rng_kj9)), ropt (RLit [c_hyaku]), ropt (RGrp 3 (RCls False rng_kj9)), ropt (RLit [c_juu]), ropt (RGrp 4 (RCls False rng_kj9)), REol]) text of
        None \<Rightarrow> 0
      | Some m \<Rightarrow>
          (let digit = (\<lambda>k. case map_of singleDigits (hd (grp m k)) of Some d \<Rightarrow> d | None \<Rightarrow> 0);
               place = (\<lambda>k w u. (if truthy (cap m k) then (if digit k = 0 then 1 else digit k) * w else 0) +
                                (if str_includes text [u] \<and> \<not> truthy (cap m k) then w else 0))
           in place 1 1000 c_sen + place 2 100 c_hyaku + place 3 10 c_juu +
              (if truthy (cap m 4) then digit 4 else 0)))"

definition kanjiToNumber :: "jsstr \<Rightarrow> int option" where
  "kanjiToNumber text =
     (if text = [] then None
      else if length text = 1 \<and> map_of singleDigits (hd text) \<noteq> None then map_of singleDigits (hd text)
      else
        let result = kanji_loop None text 0;
            result = (if result = 0 then kanji_retry text else result)
        in if 0 < result then Some result else None)"

definition convert_retry :: "jsstr \<Rightarrow> int" where
  "convert_retry text =
     (case rx_match (rseq [RBol, ropt (RGrp 1 (RCls False rng_kj9)), ropt (RLit [c_sen]), ropt (RGrp 2 (RCls False rng_kj9)), ropt (RLit [c_hyaku]), ropt (RGrp 3 (RCls False rng_kj9)), ropt (RLit [c_juu]), ropt (RGrp 4 (RCls False rng_kj9)), REol]) text of
        None \<Rightarrow> 0
      | Some m \<Rightarrow>
          (let digit = (\<lambda>k. case map_of singleDigits (hd (grp m k)) of Some d \<Rightarrow> d | None \<Rightarrow> 0);
               place = (\<lambda>k w u. (if truthy (cap m k) then digit k * w else 0) +
                                (if str_includes text [u] \<and> \<not> truthy (cap m k) then w else 0))
           in place 1 1000 c_sen + place 2 100 c_hyaku + place 3 10 c_juu +
              (if truthy (cap m 4) then digit 4 else 0)))"

definition convertKanji :: "jsstr \<Rightarrow> int option" where
  "convertKanji text =
     (if text = [] then None
      else if length text = 1 \<and> map_of singleDigits (hd text) \<noteq> None then map_of singleDigits (hd text)
      else
        let result = kanji_loop None text 0;
            result = (if result = 0 then convert_retry text else result)
        in if 0 < result then Some result else None)"

definition eraMap :: "(jsstr \<times> jsstr) list" where
  "eraMap = [([0x660E, 0x6CBB], (str ''1'')), ([0x5927, c_sei], (str ''2'')), ([0x662D, 0x548C], (str ''3'')), ([0x5E73, 0x6210], (str ''4'')), ([c_rei_order, 0x548C], (str ''5''))]"

definition parseLawNumber :: "env \<Rightarrow> jsstr option \<Rightarrow> jsstr option" where
  "parseLawNumber e text =
     (case text of
        None \<Rightarrow> None
      | Some t \<Rightarrow>
          if t = [] then None
          else if truthy (findLawIdByNumber e t) then findLawIdByNumber e t
          else case rx_match (rseq [RGrp 1 (ralt [RLit [0x660E, 0x6CBB], RLit [0x5927, c_sei], RLit [0x662D, 0x548C], RLit [0x5E73, 0x6210], RLit [c_rei_order, 0x548C]]), RGrp 2 (rplus (RCls True [(0x5E74, 0x5E74)])), RLit [0x5E74, c_hou, c_ritsu, c_dai], RGrp 3 (rplus (RCls True [(c_gou, c_gou)])), RLit [c_gou]]) t of
            None \<Rightarrow> None
          | Some m \<Rightarrow>
              (case (map_of eraMap (grp m 1), convertKanji (grp m 2), convertKanji (grp m 3)) of
                 (Some era, Some year, Some number) \<Rightarrow>
                   Some (era @ pad_start 2 0x30 (int_str year) @ (str ''AC'') @ pad_start 10 0x30 (int_str number))
               | _ \<Rightarrow> None))"

section \<open>Laws and articles\<close>

definition BASIC_LAW_DICTIONARY :: "(jsstr \<times> jsstr) list" where
  "BASIC_LAW_DICTIONARY =
     [([c_min, c_hou], (str ''129AC0000000089'')),
      ([c_shou_com, c_hou], (str ''132AC0000000048'')),
      ([c_kai_meet, c_sha, c_hou], (str ''417AC0000000086'')),
      ([c_kei, c_hou], (str ''140AC0000000045'')),
      ([0x61B2, c_hou], (str ''321CO0000000000'')),
      ([0x65E5, c_hon, 0x56FD, 0x61B2, c_hou], (str ''321CO0000000000'')),
      ([c_min, 0x4E8B, 0x8A34, 0x8A1F, c_hou], (str ''408AC0000000109'')),
      ([c_kei, 0x4E8B, 0x8A34, 0x8A1F, c_hou], (str ''323AC0000000131'')),
      ([0x52B4, 0x50CD, 0x57FA, c_jun, c_hou], (str ''322AC0000000049'')),
      ([0x884C, 0x653F, 0x624B, 0x7D9A, c_hou], (str ''405AC0000000088''))]"

definition findLawId :: "env \<Rightarrow> ContextState \<Rightarrow> jsstr \<Rightarrow> jsstr option" where
  "findLawId e cs lawName =
     (case map_of BASIC_LAW_DICTIONARY lawName of
        Some i \<Rightarrow> Some i
      | None \<Rightarrow>
          if truthy (findLawIdByName e lawName) then findLawIdByName e lawName
          else if lawName = [c_shin, c_hou] \<or> lawName = [c_kyu_old, c_hou] then Some (cs_currentLawId cs)
          else map_of (lawTitleCache e) lawName)"

definition knownMaxArticles :: "(jsstr \<times> int) list" where
  "knownMaxArticles =
     [((str ''344AC0000000057''), 26), ((str ''129AC0000000089''), 1050), ((str ''132AC0000000048''), 850),
      ((str ''140AC0000000045''), 264), ((str ''417AC0000000086''), 979)]"

definition validateArticleNumber :: "env \<Rightarrow> jsstr \<Rightarrow> int \<Rightarrow> bool" where
  "validateArticleNumber e lawId articleNumber =
     (case map_of knownMaxArticles lawId of
        Some mx \<Rightarrow> articleNumber \<le> mx
      | None \<Rightarrow> (case map_of (lawMetadataCache e) lawId of
          Some mx \<Rightarrow> articleNumber \<le> mx
        | None \<Rightarrow> articleNumber \<le> 1000))"

definition updateContext :: "jsstr \<Rightarrow> jsstr \<Rightarrow> nat \<Rightarrow> ContextState \<Rightarrow> ContextState" where
  "updateContext lawId lawName position cs =
     (let laws = \<lparr>rl_lawId = lawId, rl_lawName = lawName, rl_position = position\<rparr> # cs_recentLaws cs
      in cs\<lparr>cs_recentLaws := (if 5 < length laws then butlast laws else laws)\<rparr>)"

definition getLineNumber :: "jsstr \<Rightarrow> nat \<Rightarrow> nat" where
  "getLineNumber text position = length (split_char 0xA (substring text 0 position))"

record RelativeNumbers =
  rn_articleNumber :: "int option"
  rn_paragraphNumber :: "int option"

definition resolveRelative :: "jsstr \<Rightarrow> ContextState \<Rightarrow> RelativeNumbers option" where
  "resolveRelative reference cs =
     (let a = cs_currentArticleNumber cs; p = cs_currentParagraphNumber cs;
          to = (\<lambda>x y. Some \<lparr>rn_articleNumber = Some x, rn_paragraphNumber = y\<rparr>)
      in if reference = [c_zen, c_jou] then to (max 1 (a - 1)) None
         else if reference = [c_ji, c_jou] then to (a + 1) None
         else if reference = [c_zen, c_kou] then to a (Some (max 1 (p - 1)))
         else if reference = [c_ji, c_kou] then to a (Some (p + 1))
         else if reference = [c_zen, c_ni, c_kou] then to a (Some (max 1 (p - 2)))
         else if reference = [c_zen, c_san, c_kou] then to a (Some (max 1 (p - 3)))
         else if reference = [c_zen, c_kaku, c_kou] then to a (Some (-1))
         else case rx_match (rseq [RLit [c_zen, c_jou, c_dai], RGrp 1 (rplus (RCls False rng_kj10)), RLit [c_kou]]) reference of
           Some m \<Rightarrow> to (max 1 (a - 1))
             (Some (case map_of [([c_ichi], 1), ([c_ni], 2), ([c_san], 3), ([c_yon], 4), ([c_go], 5), ([c_roku], 6),
                 ([c_nana], 7), ([c_hachi], 8), ([c_kyuu], 9), ([c_juu], 10)] (grp m 1) of Some k \<Rightarrow> k | None \<Rightarrow> 1))
         | None \<Rightarrow> None)"

section \<open>Definitions\<close>

definition definition_patterns :: "regex list" where
  "definition_patterns =
     [(rseq [RLit [h_ko, h_no], ralt [RLit [c_hou, c_ritsu], RLit [0x653F, c_rei_order], RLit [0x7701, c_rei_order], RLit [c_ki, c_soku]], RLit [h_ni, h_yo, h_ru, c_kai, c_sei, c_go_after, h_no], RGrp 1 (rplus (RCls True [(p_lparen, p_lparen)])), RLit [p_lparen, 0x4EE5, 0x4E0B, p_lquote], RGrp 2 (rplus (RCls True [(p_rquote, p_rquote)])), RLit [p_rquote, h_to, h_i, h_u], ropt (RLit [p_stop]), RLit [p_rparen]]),
      (rseq [RLit [c_kai, c_sei, c_zen, h_no], RGrp 1 (rplus (RCls True [(p_lparen, p_lparen)])), RLit [p_lparen, 0x4EE5, 0x4E0B, p_lquote], RGrp 2 (rplus (RCls True [(p_rquote, p_rquote)])), RLit [p_rquote, h_to, h_i, h_u], ropt (RLit [p_stop]), RLit [p_rparen]]),
      (rseq [RGrp 1 (RRep (RCls True [(p_comma, p_comma), (p_stop, p_stop), (p_lparen, p_lparen)]) 2 None True), RLit [p_lparen, 0x4EE5, 0x4E0B, p_lquote], RGrp 2 (rplus (RCls True [(p_rquote, p_rquote)])), RLit [p_rquote, h_to, h_i, h_u], ropt (RLit [p_stop]), RLit [p_rparen]]),
      (rseq [RGrp 1 (RRep (RCls True [(p_comma, p_comma), (p_stop, p_stop), (p_lparen, p_lparen)]) 2 None True), RLit [p_lparen, 0x4EE5, 0x4E0B, p_lquote], RGrp 2 (rplus (RCls True [(p_rquote, p_rquote)])), RLit [p_rquote, h_to, 0x7565, h_su], ropt (RLit [p_stop]), RLit [p_rparen]]),
      (rseq [RGrp 1 (RRep (RCls True [(p_comma, p_comma), (p_stop, p_stop), (p_lparen, p_lparen)]) 2 None True), RLit [p_lparen, 0x4EE5, 0x4E0B, 0x5358, h_ni, p_lquote], RGrp 2 (rplus (RCls True [(p_rquote, p_rquote)])), RLit [p_rquote, h_to, h_i, h_u], ropt (RLit [p_stop]), RLit [p_rparen]]),
      (rseq [RLit [h_ko, h_no], ralt [RLit [c_fu, c_soku], RLit [c_ki, c_tei], RLit [c_shou], RLit [c_setsu], RLit [c_jou]], RLit [h_de, p_comma], RGrp 1 (rplus (RCls True [(h_to, h_to)])), RLit [h_to, h_ha, p_comma], RGrp 2 (rplus (RCls True [(h_wo, h_wo)])), RLit [h_wo, h_i, h_i]]),
      (rseq [RLit [p_lquote], RGrp 1 (rplus (RCls True [(p_rquote, p_rquote)])), RLit [p_rquote, h_to, h_ha, p_comma], RGrp 2 (rplus (RCls True [(h_wo, h_wo), (p_stop, p_stop)])), RLit [h_wo, h_i, h_u]]),
      (rseq [RLit [h_ko, h_no], ralt [RLit [c_hou, c_ritsu], RLit [0x653F, c_rei_order], RLit [0x7701, c_rei_order], RLit [c_ki, c_soku]], RLit [h_ni, h_o, h_i, h_te, p_lquote], RGrp 1 (rplus (RCls True [(p_rquote, p_rquote)])), RLit [p_rquote, h_to, h_ha, p_comma], RGrp 2 (rplus (RCls True [(h_wo, h_wo), (p_stop, p_stop)])), RLit [h_wo, h_i, h_u]])]"

text \<open>\<open>a || b\<close> on strings that may be undefined.\<close>

definition or_else :: "jsstr option \<Rightarrow> jsstr option \<Rightarrow> jsstr option" where
  "or_else a b = (if truthy a then a else b)"

definition record_definition :: "(jsstr, Definition) jsmap \<Rightarrow> rmatch \<Rightarrow> (jsstr, Definition) jsmap" where
  "record_definition defs m =
     (let term = or_else (cap m 2) (cap m 1); meaning = or_else (cap m 1) (cap m 2)
      in if truthy term \<and> truthy meaning \<and> term \<noteq> meaning \<and> \<not> map_has defs (the term)
         then AList.update (the term)
           \<lparr>df_term = the term, df_actualLaw = the meaning, df_position = m_index m\<rparr> defs
         else defs)"

definition detectDefinitions :: "jsstr \<Rightarrow> ContextState \<Rightarrow> ContextState" where
  "detectDefinitions text cs =
     cs\<lparr>cs_definitions := foldl record_definition (cs_definitions cs)
       (concat (map (\<lambda>p. exec_all p text) definition_patterns))\<rparr>"

section \<open>Numerals and law numbers\<close>

lemma singleDigits_digit: "d < 10 \<Longrightarrow> map_of singleDigits (kanji_digit d) = Some (int d)"
proof -
  have "\<forall>d \<in> set [0..<10]. map_of singleDigits (kanji_digit d) = Some (int d)" by code_simp
  then show "d < 10 \<Longrightarrow> ?thesis" by simp
qed

lemma singleDigits_unit: "is_unit u \<Longrightarrow> map_of singleDigits u = None"
  by (auto simp: is_unit_def singleDigits_def)

lemma digit_not_unit: "d < 10 \<Longrightarrow> \<not> is_unit (kanji_digit d)"
  using singleDigits_digit singleDigits_unit by fastforce

lemma kanji_add_digit:
  "d < 10 \<Longrightarrow> kanji_add prev (kanji_digit d) nxt = (case nxt of Some n \<Rightarrow> if is_unit n then 0 else int d | None \<Rightarrow> int d)"
  using digit_not_unit [of d] by (simp add: kanji_add_def singleDigits_digit is_unit_def)

text \<open>The characters before a unit that the loop meets in a well-formed numeral: none, another unit, a digit.\<close>

definition unit_value :: "jschar \<Rightarrow> int" where
  "unit_value u = (if u = c_sen then 1000 else if u = c_hyaku then 100 else 10)"

lemma kanji_add_unit:
  assumes "is_unit u"
  shows "kanji_add None u nxt = unit_value u"
    and "is_unit p \<Longrightarrow> kanji_add (Some p) u nxt = unit_value u"
    and "d < 10 \<Longrightarrow> kanji_add (Some (kanji_digit d)) u nxt = int d * unit_value u"
  using assms singleDigits_unit [of p] singleDigits_digit [of d] digit_not_unit [of d]
  by (auto simp: kanji_add_def unit_value_def is_unit_def)

lemma kanji_loop_place:
  assumes "d < 10" "is_unit u" "prev = None \<or> (\<exists>p. prev = Some p \<and> is_unit p)"
  shows "kanji_loop prev (kanji_place d u @ s) r =
    kanji_loop (if d = 0 then prev else Some u) s (r + int d * unit_value u)"
  using assms by (auto simp: kanji_place_def kanji_add_digit kanji_add_unit)

lemma kanji_loop_of_nat:
  assumes "n < 10000"
  shows "kanji_loop None (kanji_of_nat n) 0 = int n"
proof -
  have u: "is_unit c_sen" "is_unit c_hyaku" "is_unit c_juu" by (simp_all add: is_unit_def)
  have v: "unit_value c_sen = 1000" "unit_value c_hyaku = 100" "unit_value c_juu = 10" by (simp_all add: unit_value_def)
  have ones: "kanji_loop prev (if d = 0 then [] else [kanji_digit d]) r = r + int d" if "d < 10" for prev d r
    using that by (simp add: kanji_add_digit)
  from assms have "n div 10000 = 0" by simp
  then show ?thesis using decimal_expand [of n, THEN arg_cong [of _ _ int]]
    by (simp add: kanji_of_nat_def kanji_loop_place u v ones del: div_eq_0_iff)
qed

lemma kanji_single:
  assumes "0 < n" "n < 10000" "length (kanji_of_nat n) = 1" "map_of singleDigits (hd (kanji_of_nat n)) = Some d"
  shows "d = int n"
proof -
  from assms(3) obtain c where c: "kanji_of_nat n = [c]" by (auto simp: length_Suc_conv)
  with assms(4) have d: "map_of singleDigits c = Some d" by simp
  then have "\<not> is_unit c" using singleDigits_unit by fastforce
  then have "kanji_add None c None = d" using d by (simp add: kanji_add_def is_unit_def)
  with kanji_loop_of_nat [OF assms(2)] c show ?thesis by simp
qed

lemma kanjiToNumber_of_nat: "0 < n \<Longrightarrow> n < 10000 \<Longrightarrow> kanjiToNumber (kanji_of_nat n) = Some (int n)"
  using kanji_single [of n] kanji_of_nat_nonempty [of n] kanji_loop_of_nat [of n]
  by (auto simp: kanjiToNumber_def)

lemma convertKanji_of_nat: "0 < n \<Longrightarrow> n < 10000 \<Longrightarrow> convertKanji (kanji_of_nat n) = Some (int n)"
  using kanji_single [of n] kanji_of_nat_nonempty [of n] kanji_loop_of_nat [of n]
  by (auto simp: convertKanji_def)

text \<open>A captured run of characters other than a closing one, and the literal that starts with it.\<close>

lemma rx_captured_run:
  assumes "d \<notin> set w" "w \<noteq> []"
  shows "\<exists>ms. rx n (RGrp k (rplus (RCls True [(d, d)]))) (w @ d # s, cs) = (d # s, (k, w) # cs) # ms"
proof -
  have "\<forall>c \<in> set w. in_cls True [(d, d)] c" using assms(1) by (auto simp: in_cls_def)
  from rx_run [OF this, of "d # s" "Suc 0" n cs] assms obtain ms
    where "rx n (rplus (RCls True [(d, d)])) (w @ d # s, cs) = (d # s, cs) # ms"
    by (auto simp: neq_Nil_conv in_cls_def)
  then show ?thesis by simp
qed

lemma rx_seq_first:
  "rx n a (s, cs) = (t, ds) # ms \<Longrightarrow> rx n b (t, ds) = (u, es) # ms' \<Longrightarrow>
     \<exists>ms. rx n (RSeq a b) (s, cs) = (u, es) # ms"
  by simp

lemma law_number_match:
  assumes "(era, x) \<in> set eraMap" and "0x5E74 \<notin> set y" "y \<noteq> []" and "c_gou \<notin> set k" "k \<noteq> []"
  shows "\<exists>i t. rx_match (rseq [RGrp 1 (ralt [RLit [0x660E, 0x6CBB], RLit [0x5927, c_sei], RLit [0x662D, 0x548C], RLit [0x5E73, 0x6210], RLit [c_rei_order, 0x548C]]), RGrp 2 (rplus (RCls True [(0x5E74, 0x5E74)])), RLit [0x5E74, c_hou, c_ritsu, c_dai], RGrp 3 (rplus (RCls True [(c_gou, c_gou)])), RLit [c_gou]])
      (era @ y @ [0x5E74, c_hou, c_ritsu, c_dai] @ k @ [c_gou]) = Some \<lparr>m_index = i, m_text = t, m_caps = [(3, k), (2, y), (1, era)]\<rparr>"
proof -
  let ?s = "era @ y @ [0x5E74, c_hou, c_ritsu, c_dai] @ k @ [c_gou]" and ?n = "length (era @ y @ [0x5E74, c_hou, c_ritsu, c_dai] @ k @ [c_gou])"
  let ?E = "RGrp 1 (ralt [RLit [0x660E, 0x6CBB], RLit [0x5927, c_sei], RLit [0x662D, 0x548C], RLit [0x5E73, 0x6210], RLit [c_rei_order, 0x548C]])" and ?K = "RGrp 3 (rplus (RCls True [(c_gou, c_gou)]))"
  obtain m1 where 1: "rx ?n ?E (?s, []) = (y @ [0x5E74, c_hou, c_ritsu, c_dai] @ k @ [c_gou], [(1, era)]) # m1"
    using assms(1) by (auto simp: eraMap_def starts_with_def)
  obtain m2 where 2: "rx ?n (RGrp 2 (rplus (RCls True [(0x5E74, 0x5E74)]))) (y @ [0x5E74, c_hou, c_ritsu, c_dai] @ k @ [c_gou], [(1, era)])
      = ([0x5E74, c_hou, c_ritsu, c_dai] @ k @ [c_gou], [(2, y), (1, era)]) # m2"
    using rx_captured_run [OF assms(2,3), of ?n 2 "[c_hou, c_ritsu, c_dai] @ k @ [c_gou]" "[(1, era)]"] by (auto simp del: rx.simps)
  obtain m3 where 3: "rx ?n ?K (k @ [c_gou], [(2, y), (1, era)]) = ([c_gou], [(3, k), (2, y), (1, era)]) # m3"
    using rx_captured_run [OF assms(4,5), of ?n 3 "[]" "[(2, y), (1, era)]"] by (auto simp del: rx.simps)
  have "\<exists>ms. rx ?n (RSeq ?K (RLit [c_gou])) (k @ [c_gou], [(2, y), (1, era)]) = ([], [(3, k), (2, y), (1, era)]) # ms"
    by (rule rx_seq_first [OF 3]) (simp add: starts_with_def)
  then obtain m4 where 4: "rx ?n (RSeq ?K (RLit [c_gou])) (k @ [c_gou], [(2, y), (1, era)]) = ([], [(3, k), (2, y), (1, era)]) # m4" ..
  have "\<exists>ms. rx ?n (RSeq (RLit [0x5E74, c_hou, c_ritsu, c_dai]) (RSeq ?K (RLit [c_gou]))) ([0x5E74, c_hou, c_ritsu, c_dai] @ k @ [c_gou], [(2, y), (1, era)])
      = ([], [(3, k), (2, y), (1, era)]) # ms"
    by (rule rx_seq_first [OF _ 4]) (simp add: starts_with_def)
  then obtain m5 where 5: "rx ?n (RSeq (RLit [0x5E74, c_hou, c_ritsu, c_dai]) (RSeq ?K (RLit [c_gou]))) ([0x5E74, c_hou, c_ritsu, c_dai] @ k @ [c_gou], [(2, y), (1, era)])
      = ([], [(3, k), (2, y), (1, era)]) # m5" ..
  from rx_seq_first [OF 2 5] obtain m6 where
    "rx ?n (RSeq (RGrp 2 (rplus (RCls True [(0x5E74, 0x5E74)]))) (RSeq (RLit [0x5E74, c_hou, c_ritsu, c_dai]) (RSeq ?K (RLit [c_gou]))))
      (y @ [0x5E74, c_hou, c_ritsu, c_dai] @ k @ [c_gou], [(1, era)]) = ([], [(3, k), (2, y), (1, era)]) # m6" by blast
  from rx_seq_first [OF 1 this] show ?thesis
    unfolding rx_match_def by (auto simp only: rseq.simps dest: search_here)
qed

lemma kanji_not_mark: "n < 100000 \<Longrightarrow> 0x5E74 \<notin> set (kanji_of_nat n)" "n < 100000 \<Longrightarrow> c_gou \<notin> set (kanji_of_nat n)"
  using kanji_of_nat_class [of _ n] by (fastforce simp: in_cls_def)+

section \<open>Properties\<close>

text \<open>C12: the numeral reader of the detector is right on every kanji numeral below 10000.\<close>

theorem kanji_numeral_exact:
  assumes "0 < n" and "n < 10000"
  shows "kanjiToNumber (kanji_of_nat n) = Some (int n)"
  using assms by (rule kanjiToNumber_of_nat)

theorem kanji_numeral_exact_witness:
  "kanji_of_nat 1234 = [c_sen, c_ni, c_hyaku, c_san, c_juu, c_yon] \<and> kanjiToNumber (kanji_of_nat 1234) = Some 1234"
proof -
  have "kanji_of_nat 1234 = [c_sen, c_ni, c_hyaku, c_san, c_juu, c_yon]" by code_simp
  with kanji_numeral_exact [of 1234] show ?thesis by simp
qed

text \<open>C33: the law number of an era, a year and a number in kanji that the dictionary does not know
  becomes the identifier with the digit of the era, the year in two digits and the number in ten.\<close>

theorem law_number_exact:
  assumes "(era, x) \<in> set eraMap" and "0 < year" "year < 100" and "0 < number" "number < 10000"
    and "findLawIdByNumber e (era @ kanji_of_nat year @ [0x5E74, c_hou, c_ritsu, c_dai] @ kanji_of_nat number @ [c_gou]) = None"
  shows "parseLawNumber e (Some (era @ kanji_of_nat year @ [0x5E74, c_hou, c_ritsu, c_dai] @ kanji_of_nat number @ [c_gou])) =
    Some (x @ pad_start 2 0x30 (nat_str year) @ (str ''AC'') @ pad_start 10 0x30 (nat_str number))"
proof -
  have y: "convertKanji (kanji_of_nat year) = Some (int year)" "convertKanji (kanji_of_nat number) = Some (int number)"
    using assms by (simp_all add: convertKanji_of_nat)
  have e: "map_of eraMap era = Some x" using assms(1) by (auto simp: eraMap_def)
  obtain i t where "rx_match (rseq [RGrp 1 (ralt [RLit [0x660E, 0x6CBB], RLit [0x5927, c_sei], RLit [0x662D, 0x548C], RLit [0x5E73, 0x6210], RLit [c_rei_order, 0x548C]]), RGrp 2 (rplus (RCls True [(0x5E74, 0x5E74)])), RLit [0x5E74, c_hou, c_ritsu, c_dai], RGrp 3 (rplus (RCls True [(c_gou, c_gou)])), RLit [c_gou]])
      (era @ kanji_of_nat year @ [0x5E74, c_hou, c_ritsu, c_dai] @ kanji_of_nat number @ [c_gou]) =
      Some \<lparr>m_index = i, m_text = t, m_caps = [(3, kanji_of_nat number), (2, kanji_of_nat year), (1, era)]\<rparr>"
    using law_number_match [OF assms(1) kanji_not_mark(1) [of year] _ kanji_not_mark(2) [of number]] assms
    by (auto simp: kanji_of_nat_nonempty)
  then show ?thesis using assms(6) y e
    by (simp add: parseLawNumber_def truthy_def grp_def cap_def del: rseq.simps ralt.simps str_simps)
qed

definition no_services :: env where
  "no_services = \<lparr>findLawIdByName = (\<lambda>_. None), findLawIdByNumber = (\<lambda>_. None), compileRegExp = (\<lambda>s. Some (RLit s)),
     lawTitleCache = [], lawMetadataCache = [], queryLLM = (\<lambda>_ _ _ _. None), analyzeApplication = (\<lambda>_ _ _ _. None)\<rparr>"

theorem law_number_exact_witness:
  "parseLawNumber no_services (Some [0x662D, 0x548C, c_san, c_juu, c_yon, 0x5E74, c_hou, c_ritsu, c_dai, c_hyaku, c_ni, c_juu, c_ichi, c_gou]) = Some (str ''334AC0000000121'')"
proof -
  have "([0x662D, 0x548C], (str ''3'')) \<in> set eraMap" by (simp add: eraMap_def)
  moreover have "kanji_of_nat 34 = [c_san, c_juu, c_yon]" "kanji_of_nat 121 = [c_hyaku, c_ni, c_juu, c_ichi]"
    "(str ''3'') @ pad_start 2 0x30 (nat_str 34) @ (str ''AC'') @ pad_start 10 0x30 (nat_str 121) = (str ''334AC0000000121'')" by code_simp+
  ultimately show ?thesis using law_number_exact [of "[0x662D, 0x548C]" "(str ''3'')" 34 121 no_services]
    by (simp add: no_services_def del: str_simps)
qed


end
