(* ===== verification/DetectorPatterns.thy ===== *)
theory DetectorPatterns
  imports DetectorCore
begin

text \<open>
  \<^verbatim>\<open>scripts/detector.ts\<close>, part 2: the method \<open>detectByPattern\<close>, one definition per numbered pattern of the
  source, in its order. A block takes the references found so far and returns them with its own
  appended. The loops \<open>while ((match = p.exec(text)) !== null)\<close> are the lists \<open>exec_all\<close>; only the
  pattern that is compiled at run time (number 25) can be malformed or match the empty string, which
  makes the method throw or loop forever: its result is an \<open>outcome\<close>.
\<close>

text \<open>The state in which an exception leaves the object is part of the outcome.\<close>

datatype ('a, 's) outcome = Returns 'a | SyntaxError 's | Diverges

section \<open>Texts\<close>

definition jou :: "jsstr \<Rightarrow> jsstr" where "jou n = [c_dai] @ n @ [c_jou]"
definition kou :: "jsstr \<Rightarrow> jsstr" where "kou n = [c_dai] @ n @ [c_kou]"
definition gou :: "jsstr \<Rightarrow> jsstr" where "gou n = [c_dai] @ n @ [c_gou]"

text \<open>\<open>match[k] ? f(match[k]) : ''\<close>\<close>

definition opt_part :: "rmatch \<Rightarrow> nat \<Rightarrow> (jsstr \<Rightarrow> jsstr) \<Rightarrow> jsstr" where
  "opt_part m k f = (if truthy (cap m k) then f (grp m k) else [])"

text \<open>\<open>match.index + match[0].indexOf(s)\<close> and the same with \<open>lastIndexOf\<close>.\<close>

definition pos_of_part :: "rmatch \<Rightarrow> jsstr \<Rightarrow> int" where
  "pos_of_part m s = int (m_index m) + idx (index_of (m_text m) s)"

definition last_pos_of_part :: "rmatch \<Rightarrow> jsstr \<Rightarrow> int" where
  "last_pos_of_part m s = int (m_index m) + idx (last_index_of (m_text m) s)"

text \<open>The truth value of a number.\<close>

definition num_true :: "int option \<Rightarrow> bool" where
  "num_true n \<longleftrightarrow> n \<noteq> None \<and> n \<noteq> Some 0"

type_synonym refs = "DetectedReference list"

section \<open>Patterns 1 and 2: names of laws\<close>

definition pattern1_regex :: regex where
  "pattern1_regex = (rseq [RGrp 1 (rseq [rstar (RCls True (rng_ws @ [(p_comma, p_comma), (p_stop, p_stop), (p_lparen, p_lparen), (p_rparen, p_rparen)])), RLit [c_hou]]), ropt (rseq [RLit [p_lparen], rplus (RCls True [(p_rparen, p_rparen)]), RLit [p_rparen]])])"

fun pattern1_step :: "env \<Rightarrow> refs \<times> ContextState \<Rightarrow> rmatch \<Rightarrow> refs \<times> ContextState" where
  "pattern1_step e (references, cs) m =
     (let lawName = grp m 1;
          lawIdFromNumber = parseLawNumber e (cap m 2);
          lawId = or_else lawIdFromNumber (findLawId e cs lawName)
      in if truthy lawId then
           (references @ [at_pos (m_index m)
              ((found External (m_text m) (if truthy lawIdFromNumber then 98/100 else 95/100)
                 (if truthy lawIdFromNumber then ByLawNumber else ByDictionary))
               \<lparr>dr_targetLaw := Some lawName, dr_targetLawId := lawId\<rparr>)],
            updateContext (the lawId) lawName (m_index m) cs)
         else (references, cs))"

definition pattern1 :: "env \<Rightarrow> jsstr \<Rightarrow> ContextState \<Rightarrow> refs \<times> ContextState" where
  "pattern1 e text cs = foldl (pattern1_step e) ([], cs) (exec_all pattern1_regex text)"

definition pattern2a_ref :: "env \<Rightarrow> ContextState \<Rightarrow> rmatch \<Rightarrow> refs" where
  "pattern2a_ref e cs m =
     (let lawName = grp m 1; lawId = findLawId e cs lawName
      in if truthy lawId \<and> lawId \<noteq> Some (cs_currentLawId cs) then
           [at_pos (m_index m)
             ((found External (lawName @ jou (grp m 2) @ opt_part m 3 kou) (95/100) ByDictionary)
              \<lparr>dr_targetLaw := Some lawName, dr_targetLawId := lawId,
               dr_targetArticle := Some (toNumericFormat (jou (grp m 2)) @ opt_part m 3 kou),
               dr_articleNumber := Some (parse_int (grp m 2))\<rparr>)]
         else [])"

definition pattern2a :: "env \<Rightarrow> jsstr \<Rightarrow> ContextState \<Rightarrow> refs \<Rightarrow> refs" where
  "pattern2a e text cs references = references @
     concat (map (pattern2a_ref e cs)
       (exec_all (rseq [RGrp 1 (rseq [rplus (RCls True (rng_ws @ [(p_comma, p_comma), (p_stop, p_stop), (p_lparen, p_lparen), (p_rparen, p_rparen), (p_lquote, p_lquote), (p_rquote, p_rquote), (p_ldquote, p_ldquote), (p_rdquote, p_rdquote)])), ralt [RLit [c_hou], RLit [c_rei_order], RLit [c_ki, c_soku], RLit [c_jou, 0x4F8B]]]), RLit [c_dai], RGrp 2 (rplus (RCls False rng_digit)), RLit [c_jou], ropt (rseq [RLit [c_dai], RGrp 3 (rplus (RCls False rng_digit)), RLit [c_kou]])]) text))"

text \<open>The name of the law behind a definition such as "the commercial code as amended by this law".\<close>

definition defined_law_name :: "jsstr \<Rightarrow> jsstr option" where
  "defined_law_name actualLaw =
     (case rx_match (rseq [ropt (RLit [h_ko, h_no, c_hou, c_ritsu, h_ni, h_yo, h_ru]), RLit [c_kai, c_sei], RCls False [(c_zen, c_zen), (c_go_after, c_go_after)], RLit [h_no], RGrp 1 (rplus (RCls True rng_eol))]) actualLaw of Some m \<Rightarrow> cap m 1 | None \<Rightarrow> None)"

definition pattern2b_defined :: "env \<Rightarrow> ContextState \<Rightarrow> jsstr \<Rightarrow> rmatch \<Rightarrow> DetectedReference" where
  "pattern2b_defined e cs lawName m =
     (let (targetLawName, targetLawId) =
        (case map_of (cs_definitions cs) lawName of
           None \<Rightarrow> (cs_currentLawName cs, Some (cs_currentLawId cs))
         | Some d \<Rightarrow>
             (let name = (case defined_law_name (df_actualLaw d) of Some n \<Rightarrow> n | None \<Rightarrow> cs_currentLawName cs)
              in (name, or_else (findLawId e cs name) (Some (cs_currentLawId cs)))))
      in at_pos (m_index m) ((found Defined (m_text m) (9/10) ByDefinition)
           \<lparr>dr_targetLaw := Some targetLawName, dr_targetLawId := targetLawId,
            dr_targetArticle := Some (jou (grp m 2))\<rparr>))"

definition pattern2b_step :: "env \<Rightarrow> ContextState \<Rightarrow> refs \<Rightarrow> rmatch \<Rightarrow> refs" where
  "pattern2b_step e cs references m =
     (let lawName = grp m 1 in
      if \<not> truthy (cap m 1) \<or> 25 < length lawName then references
      else if (ends_with lawName [h_su, h_ru, c_hou] \<or> ends_with lawName [h_ni, h_yo, h_ru, c_hou] \<or> ends_with lawName [h_ni, 0x95A2, h_su, h_ru, c_hou] \<or>
               ends_with lawName [h_no, c_hou]) \<and> \<not> truthy (findLawId e cs lawName) then references
      else if lawName = [h_ko, h_no, c_hou] \<or> lawName = [c_dou, c_hou] then references
      else if lawName = [c_shin, c_hou] \<or> lawName = [c_kyu_old, c_hou] then references @ [pattern2b_defined e cs lawName m]
      else
        let lawId = findLawId e cs lawName;
            alreadyDetected = list_ex (\<lambda>r. str_includes (dr_text r) lawName \<and> str_includes (dr_text r) [p_lparen]) references;
            articleNumber = kanjiToNumber (grp m 2)
        in if \<not> alreadyDetected \<and> truthy lawId \<and> num_true articleNumber \<and>
              validateArticleNumber e (the lawId) (the articleNumber)
           then references @ [at_pos (m_index m) ((found External (m_text m) (9/10) ByDictionary)
                  \<lparr>dr_targetLaw := Some lawName, dr_targetLawId := lawId,
                   dr_targetArticle := Some (jou (grp m 2)), dr_articleNumber := Some articleNumber\<rparr>)]
           else references)"

definition pattern2b :: "env \<Rightarrow> jsstr \<Rightarrow> ContextState \<Rightarrow> refs \<Rightarrow> refs" where
  "pattern2b e text cs references = foldl (pattern2b_step e cs) references
     (exec_all (rseq [ralt [RBol, RCls False (rng_ws @ [(p_comma, p_comma), (p_stop, p_stop), (p_lparen, p_lparen), (p_lquote, p_lquote), (p_ldquote, p_ldquote)])], RGrp 1 (rseq [ropt (RRep (RCls True (rng_ws @ [(p_comma, p_comma), (p_stop, p_stop), (p_lparen, p_lparen), (p_rparen, p_rparen), (p_lquote, p_lquote), (p_rdquote, p_rdquote)])) 2 (Some 30) True), RLit [c_hou], ropt (RLit [c_ritsu])]), RLit [c_dai], RGrp 2 (rplus (RCls False rng_kj1000)), RLit [c_jou]]) text)"

definition at_position :: "refs \<Rightarrow> nat \<Rightarrow> bool" where
  "at_position references i \<longleftrightarrow> list_ex (\<lambda>r. dr_position r = Some (int i)) references"

definition pattern2c_step :: "ContextState \<Rightarrow> refs \<Rightarrow> rmatch \<Rightarrow> refs" where
  "pattern2c_step cs references m =
     (let articleNumber = kanjiToNumber (grp m 1) in
      if at_position references (m_index m) \<or> \<not> num_true articleNumber then references
      else references @ [at_pos (m_index m) ((found Internal (m_text m) (95/100) ByPattern)
             \<lparr>dr_targetLawId := Some (cs_currentLawId cs), dr_targetLaw := Some (cs_currentLawName cs),
              dr_targetArticle := Some (m_text m), dr_articleNumber := Some articleNumber\<rparr>)])"

definition pattern2c :: "jsstr \<Rightarrow> ContextState \<Rightarrow> refs \<Rightarrow> refs" where
  "pattern2c text cs references = foldl (pattern2c_step cs) references
     (exec_all (rseq [RLit [c_dai], RGrp 1 (rplus (RCls False rng_kj1000)), RLit [c_jou]]) text)"

definition pattern2_5a_step :: "ContextState \<Rightarrow> refs \<Rightarrow> rmatch \<Rightarrow> refs" where
  "pattern2_5a_step cs references m =
     (if at_position references (m_index m) then references
      else
        let refText = jou (grp m 1) @ opt_part m 2 kou @ opt_part m 3 gou
        in references @ [at_pos (m_index m) ((found Internal refText (95/100) ByPattern)
             \<lparr>dr_targetLawId := Some (cs_currentLawId cs), dr_targetLaw := Some (cs_currentLawName cs),
              dr_targetArticle := Some refText, dr_articleNumber := Some (parse_int (grp m 1))\<rparr>)])"

definition pattern2_5a :: "jsstr \<Rightarrow> ContextState \<Rightarrow> refs \<Rightarrow> refs" where
  "pattern2_5a text cs references = foldl (pattern2_5a_step cs) references
     (exec_all (rseq [RLit [c_dai], RGrp 1 (rplus (RCls False rng_digit)), RLit [c_jou], ropt (rseq [RLit [c_dai], RGrp 2 (rplus (RCls False rng_digit)), RLit [c_kou]]), ropt (rseq [RLit [c_dai], RGrp 3 (rplus (RCls False rng_digit)), RLit [c_gou]])]) text)"

definition pattern2_6 :: "jsstr \<Rightarrow> refs" where
  "pattern2_6 text = concat (map (\<lambda>m.
     [at_pos (m_index m) ((found Internal (jou (grp m 1)) (95/100) ByPattern)\<lparr>dr_targetArticle := cap m 1\<rparr>),
      (found Internal (jou (grp m 2)) (95/100) ByPattern)
        \<lparr>dr_targetArticle := cap m 2, dr_position := Some (pos_of_part m (jou (grp m 2)))\<rparr>])
     (exec_all (rseq [RLit [c_dai], RGrp 1 (rplus (RCls False rng_digit)), RLit [c_jou], ralt [RLit [c_oyo, h_bi], RLit [c_nara, h_bi, h_ni]], RLit [c_dai], RGrp 2 (rplus (RCls False rng_digit)), RLit [c_jou]]) text))"

section \<open>Patterns 3 and 4: this law, relative references\<close>

definition pattern3 :: "jsstr \<Rightarrow> ContextState \<Rightarrow> refs" where
  "pattern3 text cs = map (\<lambda>m.
     (found Internal (m_text m) (85/100) ByPattern)
       \<lparr>dr_targetLawId := Some (cs_currentLawId cs),
        dr_targetArticle := (if truthy (cap m 2) then Some (jou (grp m 2)) else None)\<rparr>)
     (exec_all (rseq [RGrp 1 (ralt [RLit [h_ko, h_no, c_hou, c_ritsu], RLit [c_hon, c_hou]]), ropt (rseq [RLit [c_dai], RGrp 2 (rplus (RCls False rng_kj1000)), RLit [c_jou]])]) text)"

definition relativePatterns :: "jsstr list" where
  "relativePatterns =
     [[c_zen, c_jou], [c_ji, c_jou], [c_zen, c_kou], [c_ji, c_kou], [c_zen, c_ni, c_kou], [c_zen, c_san, c_kou], [c_zen, c_kaku, c_kou],
      [c_dou, c_jou], [c_hon, c_jou], [c_dou, c_kou], [c_hon, c_kou], [c_kaku, c_kou], [c_zen, c_gou], [c_ji, c_gou], [c_zen, c_kaku, c_gou]]"

definition relative_context :: "ContextState \<Rightarrow> CurrentContext" where
  "relative_context cs =
     \<lparr>cx_lawId = cs_currentLawId cs, cx_lawName = Some (cs_currentLawName cs),
      cx_articleNumber = toNumericFormat (cs_currentArticle cs),
      cx_paragraphNumber = (if cs_currentParagraphNumber cs = 0 then None else Some (cs_currentParagraphNumber cs)),
      cx_itemNumber = None, cx_totalParagraphs = None\<rparr>"

definition pattern4_ref :: "jsstr \<Rightarrow> ContextState \<Rightarrow> jsstr \<Rightarrow> rmatch \<Rightarrow> DetectedReference" where
  "pattern4_ref text cs pat m =
     (case resolve pat (relative_context cs) of
        Some r \<Rightarrow> at_pos (m_index m) ((found Relative pat (rr_confidence r) ByRelative)
          \<lparr>dr_targetLawId := Some (rr_lawId r), dr_targetLaw := Some (cs_currentLawName cs),
           dr_targetArticle := Some (rr_articleNumber r),
           dr_articleNumber := Some (parse_int10 (rr_articleNumber r)),
           dr_targetParagraph := map_option ParaNumber (rr_paragraphNumber r),
           dr_enhanced := Some \<lparr>en_startPos = m_index m, en_endPos = m_index m + length pat,
             en_lineNumber = getLineNumber text (m_index m), en_paragraphNumber = cs_currentParagraphNumber cs,
             en_targetParagraph = rr_paragraphNumber r\<rparr>\<rparr>)
      | None \<Rightarrow> at_pos (m_index m) ((found Relative pat (3/10) ByRelative)
          \<lparr>dr_targetLawId := Some (cs_currentLawId cs), dr_targetLaw := Some (cs_currentLawName cs)\<rparr>))"

definition pattern4 :: "jsstr \<Rightarrow> ContextState \<Rightarrow> refs" where
  "pattern4 text cs =
     concat (map (\<lambda>pat. map (pattern4_ref text cs pat) (exec_all (RLit pat) text)) relativePatterns)"

section \<open>Pattern 5: ranges\<close>

definition expand_articles :: "ContextState \<Rightarrow> nat \<Rightarrow> int \<Rightarrow> int \<Rightarrow> refs" where
  "expand_articles cs i a b = map (\<lambda>k.
     at_pos i ((found Internal (jou (int_str k)) (85/100) ByPattern)
       \<lparr>dr_targetLawId := Some (cs_currentLawId cs), dr_targetArticle := Some (jou (int_str k))\<rparr>)) [a..b]"

definition expand_branches :: "ContextState \<Rightarrow> nat \<Rightarrow> int \<Rightarrow> int \<Rightarrow> int \<Rightarrow> refs" where
  "expand_branches cs i article a b = map (\<lambda>k.
     let t = jou (int_str article) @ [h_no] @ int_str k in
     at_pos i ((found Internal t (85/100) ByPattern)
       \<lparr>dr_targetLawId := Some (cs_currentLawId cs), dr_targetArticle := Some t\<rparr>)) [a..b]"

definition range_ref :: "ContextState \<Rightarrow> rmatch \<Rightarrow> jsstr \<Rightarrow> DetectedReference" where
  "range_ref cs m tgt = at_pos (m_index m) ((found Range (m_text m) (90/100) ByPattern)
     \<lparr>dr_targetLawId := Some (cs_currentLawId cs), dr_targetLaw := Some (cs_currentLawName cs),
      dr_targetArticle := Some tgt\<rparr>)"

definition pattern5_refs :: "ContextState \<Rightarrow> rmatch \<Rightarrow> refs" where
  "pattern5_refs cs m =
     (let startArticle = kanjiToNumber (grp m 1);
          startBranch = (if truthy (cap m 2) then kanjiToNumber (grp m 2) else None);
          endArticle = kanjiToNumber (grp m 3);
          endBranch = (if truthy (cap m 4) then kanjiToNumber (grp m 4) else None)
      in if num_true startArticle \<and> num_true endArticle then
           range_ref cs m (jou (int_str (the startArticle)) @ [h_ka, h_ra] @ jou (int_str (the endArticle)) @ [h_ma, h_de]) #
           (if startArticle = endArticle \<and> num_true startBranch \<and> num_true endBranch
            then expand_branches cs (m_index m) (the startArticle) (the startBranch) (the endBranch)
            else if \<not> num_true startBranch \<and> \<not> num_true endBranch
            then expand_articles cs (m_index m) (the startArticle) (the endArticle)
            else [])
         else [])"

definition pattern5 :: "jsstr \<Rightarrow> ContextState \<Rightarrow> refs" where
  "pattern5 text cs = concat (map (pattern5_refs cs)
     (exec_all (rseq [RLit [c_dai], RGrp 1 (rplus (RCls False rng_kj1000)), RLit [c_jou], ropt (rseq [RLit [h_no], RGrp 2 (RCls False rng_kj10)]), RLit [h_ka, h_ra, c_dai], RGrp 3 (rplus (RCls False rng_kj1000)), RLit [c_jou], ropt (rseq [RLit [h_no], RGrp 4 (RCls False rng_kj10)]), RLit [h_ma, h_de]]) text))"

definition pattern5b :: "jsstr \<Rightarrow> ContextState \<Rightarrow> refs" where
  "pattern5b text cs = concat (map (\<lambda>m.
     let a = parse_int (grp m 1); b = parse_int (grp m 2) in
     if num_true a \<and> num_true b
     then [range_ref cs m (jou (num_str a) @ [h_ka, h_ra] @ jou (num_str b) @ [h_ma, h_de])] else [])
     (exec_all (rseq [RLit [c_dai], RGrp 1 (rplus (RCls False rng_digit)), RLit [c_jou, h_ka, h_ra, c_dai], RGrp 2 (rplus (RCls False rng_digit)), RLit [c_jou, h_ma, h_de]]) text))"

definition pattern5c :: "jsstr \<Rightarrow> ContextState \<Rightarrow> refs" where
  "pattern5c text cs = concat (map (\<lambda>m.
     let a = parse_int (grp m 1); ab = parse_int (grp m 2); b = parse_int (grp m 3); bb = parse_int (grp m 4) in
     if num_true a \<and> num_true ab \<and> num_true b \<and> num_true bb
     then [range_ref cs m (jou (num_str a) @ [h_no] @ num_str ab @ [h_ka, h_ra] @ jou (num_str b) @ [h_no] @ num_str bb @ [h_ma, h_de])]
     else [])
     (exec_all (rseq [RLit [c_dai], RGrp 1 (rplus (RCls False rng_digit)), RLit [c_jou, h_no], RGrp 2 (rplus (RCls False rng_digit)), RLit [h_ka, h_ra, c_dai], RGrp 3 (rplus (RCls False rng_digit)), RLit [c_jou, h_no], RGrp 4 (rplus (RCls False rng_digit)), RLit [h_ma, h_de]]) text))"

definition pattern5d :: "jsstr \<Rightarrow> ContextState \<Rightarrow> refs" where
  "pattern5d text cs = concat (map (\<lambda>m.
     let a = parse_int (grp m 1); p = parse_int (grp m 2); q = parse_int (grp m 3) in
     if num_true a \<and> num_true p \<and> num_true q
     then [range_ref cs m (jou (num_str a) @ kou (num_str p) @ [h_ka, h_ra] @ kou (num_str q) @ [h_ma, h_de])] else [])
     (exec_all (rseq [RLit [c_dai], RGrp 1 (rplus (RCls False rng_digit)), RLit [c_jou, c_dai], RGrp 2 (rplus (RCls False rng_digit)), RLit [c_kou, h_ka, h_ra, c_dai], RGrp 3 (rplus (RCls False rng_digit)), RLit [c_kou, h_ma, h_de]]) text))"

definition pattern5_5 :: "jsstr \<Rightarrow> refs" where
  "pattern5_5 text = map (\<lambda>m. at_pos (m_index m) ((found StructuralRef (m_text m) (85/100) ByPattern)
     \<lparr>dr_targetArticle := Some ([c_shou] @ grp m 1 @ opt_part m 2 (\<lambda>s. [c_setsu] @ s))\<rparr>))
     (exec_all (rseq [RLit [c_dai], RGrp 1 (rplus (RCls False rng_digit)), RLit [c_shou], ropt (rseq [RLit [c_dai], RGrp 2 (rplus (RCls False rng_digit)), RLit [c_setsu]])]) text)"

section \<open>Patterns 6 to 10: defined terms, brackets, application, several laws\<close>

definition definedTerms :: "jsstr list" where
  "definedTerms = [[c_shin, c_hou], [c_kyu_old, c_hou], [c_shin, c_shou_com, c_hou], [c_kyu_old, c_shou_com, c_hou], [c_kai, c_sei, c_hou]]"

definition pattern6_refs :: "env \<Rightarrow> ContextState \<Rightarrow> jsstr \<Rightarrow> rmatch \<Rightarrow> refs" where
  "pattern6_refs e cs trm m =
     (case map_of (cs_definitions cs) trm of
        Some d \<Rightarrow>
          (let targetLawName = (case defined_law_name (df_actualLaw d) of Some n \<Rightarrow> n | None \<Rightarrow> df_actualLaw d);
               lawId = or_else (findLawId e cs targetLawName) (Some (cs_currentLawId cs))
           in [at_pos (m_index m) ((found Defined trm (95/100) ByDefinition)
                \<lparr>dr_targetLaw := Some (df_actualLaw d), dr_targetLawId := lawId\<rparr>)])
      | None \<Rightarrow>
          if trm \<in> {[c_shin, c_hou], [c_shin, c_shou_com, c_hou], [c_kyu_old, c_hou], [c_kyu_old, c_shou_com, c_hou]} then
            [at_pos (m_index m) ((found Defined trm (85/100) ByContext)
               \<lparr>dr_targetLaw := or_else (Some (cs_currentLawName cs)) (Some [c_shou_com, c_hou]),
                dr_targetLawId := or_else (Some (cs_currentLawId cs)) (Some (str ''132AC0000000048''))\<rparr>)]
          else [])"

definition pattern6 :: "env \<Rightarrow> jsstr \<Rightarrow> ContextState \<Rightarrow> refs" where
  "pattern6 e text cs =
     concat (map (\<lambda>trm. concat (map (pattern6_refs e cs trm) (exec_all (RLit trm) text))) definedTerms)"

definition pattern7_refs :: "rmatch \<Rightarrow> refs" where
  "pattern7_refs m =
     at_pos (m_index m) ((found Internal (jou (grp m 1)) (95/100) ByPattern)\<lparr>dr_targetArticle := Some (jou (grp m 1))\<rparr>) #
     (let innerText = grp m 2 in
      if str_includes innerText [c_dai] \<and> (str_includes innerText [c_jou] \<or> str_includes innerText [c_kou]) then
        map (\<lambda>im. (found Internal (m_text im) (90/100) ByPattern)
          \<lparr>dr_targetArticle := Some (m_text im), dr_position := Some (pos_of_part m (m_text im)),
           dr_extra := [((str ''inBracket''), (str ''true''))]\<rparr>)
          (exec_all (rseq [RLit [c_dai], RGrp 1 (rplus (RCls False rng_digit)), RLit [c_jou], ropt (rseq [RLit [c_dai], RGrp 2 (rplus (RCls False rng_digit)), RLit [c_kou]])]) innerText)
      else [])"

definition pattern7 :: "jsstr \<Rightarrow> refs" where
  "pattern7 text = concat (map pattern7_refs (exec_all (rseq [RLit [c_dai], RGrp 1 (rplus (RCls False rng_digit)), RLit [c_jou, p_lparen], RGrp 2 (rplus (RCls True [(p_rparen, p_rparen)])), RLit [p_rparen]]) text))"

definition pattern8 :: "jsstr \<Rightarrow> ContextState \<Rightarrow> refs" where
  "pattern8 text cs = map (\<lambda>m. at_pos (m_index m) ((found Application (m_text m) (95/100) ByPattern)
     \<lparr>dr_targetLawId := Some (cs_currentLawId cs), dr_targetLaw := Some (cs_currentLawName cs),
      dr_targetArticle := Some (if truthy (cap m 2) then jou (grp m 1) @ [h_ka, h_ra] @ jou (grp m 2) @ [h_ma, h_de] else jou (grp m 1)),
      dr_extra := [((str ''applicationMethod''), (str ''junyo''))]\<rparr>))
     (exec_all (rseq [RLit [c_dai], RGrp 1 (rplus (RCls False rng_digit)), RLit [c_jou], ropt (rseq [RLit [h_ka, h_ra, c_dai], RGrp 2 (rplus (RCls False rng_digit)), RLit [c_jou, h_ma, h_de]]), RLit [h_no, c_ki, c_tei], RCls False [(h_ha, h_ha), (h_wo, h_wo)], ropt (RLit [p_comma]), ropt (RGrp 3 (rseq [rplus (RCls True [(p_stop, p_stop)]), RLit [h_ni, h_tsu, h_i, h_te]])), RLit [c_jun, c_you]]) text)"

definition pattern9 :: "jsstr \<Rightarrow> ContextState \<Rightarrow> refs" where
  "pattern9 text cs = map (\<lambda>m. at_pos (m_index m) ((found Application (m_text m) (95/100) ByPattern)
     \<lparr>dr_targetLawId := Some (cs_currentLawId cs), dr_targetLaw := Some (cs_currentLawName cs),
      dr_targetArticle := Some (jou (grp m 1) @ opt_part m 2 kou),
      dr_extra := [((str ''applicationMethod''), (str ''yomikae'')), ((str ''originalTerm''), grp m 3), ((str ''replacedTerm''), grp m 4)]\<rparr>))
     (exec_all (rseq [RLit [c_dai], RGrp 1 (rplus (RCls False rng_digit)), RLit [c_jou], ropt (rseq [RLit [c_dai], RGrp 2 (rplus (RCls False rng_digit)), RLit [c_kou]]), RLit [0x4E2D, p_lquote], RGrp 3 (rplus (RCls True [(p_rquote, p_rquote)])), RLit [p_rquote, h_to, h_a, h_ru, h_no, h_ha, p_lquote], RGrp 4 (rplus (RCls True [(p_rquote, p_rquote)])), RLit [p_rquote, h_to, 0x8AAD, h_mi, 0x66FF, h_e]]) text)"

definition law_article_ref :: "jsstr \<Rightarrow> jsstr \<Rightarrow> jsstr \<Rightarrow> jsstr \<Rightarrow> int \<Rightarrow> DetectedReference" where
  "law_article_ref text lawName lawId article pos =
     (found External text (95/100) ByPattern)
       \<lparr>dr_targetLaw := Some lawName, dr_targetLawId := Some lawId, dr_targetArticle := Some (jou article),
        dr_position := Some pos\<rparr>"

definition pattern10_refs :: "env \<Rightarrow> ContextState \<Rightarrow> rmatch \<Rightarrow> refs" where
  "pattern10_refs e cs m =
     (let firstLaw = grp m 1; firstArticle = grp m 2; firstLawId = findLawId e cs firstLaw;
          secondLaw = grp m 3; secondArticle = grp m 4; secondLawId = findLawId e cs secondLaw
      in (if truthy firstLawId
          then [law_article_ref (firstLaw @ jou firstArticle) firstLaw (the firstLawId) firstArticle (int (m_index m))]
          else []) @
         (if truthy (cap m 3) \<and> truthy (cap m 4) \<and> truthy secondLawId
          then [law_article_ref (secondLaw @ jou secondArticle) secondLaw (the secondLawId) secondArticle
                  (pos_of_part m secondLaw)]
          else []))"

definition pattern10 :: "env \<Rightarrow> jsstr \<Rightarrow> ContextState \<Rightarrow> refs" where
  "pattern10 e text cs = concat (map (pattern10_refs e cs)
     (exec_all (rseq [RGrp 1 (rseq [rplus (RCls True (rng_ws @ [(p_comma, p_comma), (p_stop, p_stop), (p_lparen, p_lparen), (p_rparen, p_rparen), (p_lquote, p_lquote), (p_rquote, p_rquote), (p_ldquote, p_ldquote), (p_rdquote, p_rdquote)])), RLit [c_hou]]), RLit [c_dai], RGrp 2 (rplus (RCls False rng_digit)), RLit [c_jou], rplus (rseq [ralt [RLit [c_oyo, h_bi], RLit [c_nara, h_bi, h_ni], RLit [c_mata, h_ha], RLit [c_moshi, h_shi, h_ku, h_ha]], RGrp 3 (rseq [rplus (RCls True (rng_ws @ [(p_comma, p_comma), (p_stop, p_stop), (p_lparen, p_lparen), (p_rparen, p_rparen), (p_lquote, p_lquote), (p_rquote, p_rquote), (p_ldquote, p_ldquote), (p_rdquote, p_rdquote)])), RLit [c_hou]]), RLit [c_dai], RGrp 4 (rplus (RCls False rng_digit)), RLit [c_jou]])]) text))"

definition pattern10b_refs :: "env \<Rightarrow> ContextState \<Rightarrow> rmatch \<Rightarrow> refs" where
  "pattern10b_refs e cs m =
     (let lawName = grp m 1; firstArticle = grp m 2; secondArticle = grp m 3; lawId = findLawId e cs lawName
      in if truthy lawId then
           law_article_ref (lawName @ jou firstArticle) lawName (the lawId) firstArticle (int (m_index m)) #
           (if truthy (cap m 3)
            then [law_article_ref (jou secondArticle) lawName (the lawId) secondArticle
                    (last_pos_of_part m (jou secondArticle))]
            else [])
         else [])"

definition pattern10b :: "env \<Rightarrow> jsstr \<Rightarrow> ContextState \<Rightarrow> refs" where
  "pattern10b e text cs = concat (map (pattern10b_refs e cs)
     (exec_all (rseq [RGrp 1 (rseq [rplus (RCls True (rng_ws @ [(p_comma, p_comma), (p_stop, p_stop), (p_lparen, p_lparen), (p_rparen, p_rparen), (p_lquote, p_lquote), (p_rquote, p_rquote), (p_ldquote, p_ldquote), (p_rdquote, p_rdquote)])), RLit [c_hou]]), RLit [c_dai], RGrp 2 (rplus (RCls False rng_digit)), RLit [c_jou], rplus (rseq [ralt [RLit [c_oyo, h_bi], RLit [c_nara, h_bi, h_ni], RLit [c_mata, h_ha], RLit [c_moshi, h_shi, h_ku, h_ha]], RLit [c_dai], RGrp 3 (rplus (RCls False rng_digit)), RLit [c_jou]])]) text))"

section \<open>Patterns 11 to 19: structure, mixed ranges, regulations, enumerations\<close>

definition pattern11 :: "jsstr \<Rightarrow> refs" where
  "pattern11 text = map (\<lambda>m. at_pos (m_index m) (found StructuralRef (m_text m) (85/100) ByPattern))
     (exec_all (rseq [RLit [c_dai], RGrp 1 (rplus (RCls False rng_kj1000)), RGrp 2 (ralt [RLit [c_hen], RLit [c_shou], RLit [c_setsu], RLit [c_kan], RLit [c_moku]]), ropt (rseq [RLit [c_dai], RGrp 3 (rplus (RCls False rng_kj1000)), RGrp 4 (ralt [RLit [c_hen], RLit [c_shou], RLit [c_setsu], RLit [c_kan], RLit [c_moku]])]), ropt (rseq [RLit [c_dai], RGrp 5 (rplus (RCls False rng_kj1000)), RGrp 6 (ralt [RLit [c_hen], RLit [c_shou], RLit [c_setsu], RLit [c_kan], RLit [c_moku]])]), ropt (rseq [RLit [c_dai], RGrp 7 (rplus (RCls False rng_kj1000)), RGrp 8 (ralt [RLit [c_hen], RLit [c_shou], RLit [c_setsu], RLit [c_kan], RLit [c_moku]])])]) text)"

definition pattern12 :: "jsstr \<Rightarrow> refs" where
  "pattern12 text = map (\<lambda>m. at_pos (m_index m) (found Relative (m_text m) (8/10) ByPattern))
     (exec_all (rseq [RGrp 1 (ralt [RLit [c_zen, 0x3005], RLit [c_ji, 0x3005]]), RGrp 2 (ralt [RLit [c_jou], RLit [c_kou], RLit [c_gou]])]) text)"

definition range_between :: "rmatch \<Rightarrow> rat \<Rightarrow> jsstr \<Rightarrow> jsstr \<Rightarrow> DetectedReference" where
  "range_between m conf a b = at_pos (m_index m) ((found Range (m_text m) conf ByPattern)
     \<lparr>dr_rangeStart := Some a, dr_rangeEnd := Some b\<rparr>)"

definition pattern13 :: "jsstr \<Rightarrow> refs" where
  "pattern13 text = map (\<lambda>m. range_between m (9/10) (jou (grp m 1) @ kou (grp m 2)) (jou (grp m 3) @ kou (grp m 4)))
     (exec_all (rseq [RLit [c_dai], RGrp 1 (rplus (RCls False rng_digit)), RLit [c_jou, c_dai], RGrp 2 (rplus (RCls False rng_digit)), RLit [c_kou, h_ka, h_ra, c_dai], RGrp 3 (rplus (RCls False rng_digit)), RLit [c_jou, c_dai], RGrp 4 (rplus (RCls False rng_digit)), RLit [c_kou, h_ma, h_de]]) text)"

definition pattern14 :: "jsstr \<Rightarrow> refs" where
  "pattern14 text = concat (map (\<lambda>m.
     if truthy (cap m 4) \<or> truthy (cap m 3)
     then [at_pos (m_index m) ((found External (m_text m) (85/100) ByPattern)
            \<lparr>dr_targetLaw := Some (trim (replace_first (rseq [RLit [c_dai], rplus (RCls False rng_digit), RLit [c_jou], rstar (RCls True rng_eol)]) (\<lambda>_. []) (m_text m))),
             dr_targetArticle := (if truthy (cap m 4) then Some (jou (grp m 4)) else None)\<rparr>)]
     else [])
     (exec_all (rseq [ropt (rseq [ralt [RLit [0x5E73, 0x6210], RLit [c_rei_order, 0x548C], RLit [0x662D, 0x548C]], RGrp 1 (rplus (RCls False rng_kj10)), RLit [0x5E74]]), ropt (RGrp 2 (rseq [rstar (RCls True (rng_ws @ [(p_comma, p_comma), (p_stop, p_stop), (p_lparen, p_lparen), (p_rparen, p_rparen), (p_lquote, p_lquote), (p_rquote, p_rquote), (p_ldquote, p_ldquote), (p_rdquote, p_rdquote)])), ralt [RLit [0x7701], RLit [0x5E9C], RLit [0x5E81], RLit [0x59D4, 0x54E1, c_kai_meet]]])), ralt [RLit [0x544A, 0x793A], RLit [0x65BD, 0x884C, c_rei_order], RLit [0x65BD, 0x884C, c_ki, c_soku], RLit [0x7701, c_rei_order], RLit [0x653F, c_rei_order], RLit [c_ki, c_soku]], ropt (rseq [RLit [c_dai], RGrp 3 (rplus (RCls False rng_kj1000)), RLit [c_gou]]), ropt (rseq [RLit [c_dai], RGrp 4 (rplus (RCls False rng_digit)), RLit [c_jou]]), ropt (rseq [RLit [c_dai], RGrp 5 (rplus (RCls False rng_digit)), RLit [c_kou]])]) text))"

definition pattern15 :: "jsstr \<Rightarrow> refs" where
  "pattern15 text = map (\<lambda>m.
     let stem = jou (grp m 1) @ opt_part m 2 kou @ gou (grp m 3)
     in range_between m (85/100) (stem @ grp m 4) (stem @ grp m 5))
     (exec_all (rseq [RLit [c_dai], RGrp 1 (rplus (RCls False rng_digit)), RLit [c_jou], ropt (rseq [RLit [c_dai], RGrp 2 (rplus (RCls False rng_digit)), RLit [c_kou]]), RLit [c_dai], RGrp 3 (rplus (RCls False rng_digit)), RLit [c_gou], RGrp 4 (RCls False [(0x30A4, 0x30A4), (0x30ED, 0x30ED), (0x30CF, 0x30CF), (0x30CB, 0x30CB), (0x30DB, 0x30DB), (0x30D8, 0x30D8), (0x30C8, 0x30C8), (0x30C1, 0x30C1), (0x30EA, 0x30EA), (0x30CC, 0x30CC), (0x30EB, 0x30EB), (0x30F2, 0x30F2), (0x30EF, 0x30EF), (0x30AB, 0x30AB), (0x30E8, 0x30E8), (0x30BF, 0x30BF), (0x30EC, 0x30EC), (0x30BD, 0x30BD), (0x30C4, 0x30C4), (0x30CD, 0x30CD), (0x30CA, 0x30CA), (0x30E9, 0x30E9), (0x30E0, 0x30E0), (0x30A6, 0x30A6), (0x30F0, 0x30F0), (0x30CE, 0x30CE), (0x30AA, 0x30AA), (0x30AF, 0x30AF), (0x30E4, 0x30E4), (0x30DE, 0x30DE), (0x30B1, 0x30B1), (0x30D5, 0x30D5), (0x30B3, 0x30B3), (0x30A8, 0x30A8), (0x30C6, 0x30C6), (0x30A2, 0x30A2), (0x30B5, 0x30B5), (0x30AD, 0x30AD), (0x30E6, 0x30E6), (0x30E1, 0x30E1), (0x30DF, 0x30DF), (0x30B7, 0x30B7), (0x30F1, 0x30F1), (0x30D2, 0x30D2), (0x30E2, 0x30E2), (0x30BB, 0x30BB), (0x30B9, 0x30B9)]), RLit [h_ka, h_ra], RGrp 5 (RCls False [(0x30A4, 0x30A4), (0x30ED, 0x30ED), (0x30CF, 0x30CF), (0x30CB, 0x30CB), (0x30DB, 0x30DB), (0x30D8, 0x30D8), (0x30C8, 0x30C8), (0x30C1, 0x30C1), (0x30EA, 0x30EA), (0x30CC, 0x30CC), (0x30EB, 0x30EB), (0x30F2, 0x30F2), (0x30EF, 0x30EF), (0x30AB, 0x30AB), (0x30E8, 0x30E8), (0x30BF, 0x30BF), (0x30EC, 0x30EC), (0x30BD, 0x30BD), (0x30C4, 0x30C4), (0x30CD, 0x30CD), (0x30CA, 0x30CA), (0x30E9, 0x30E9), (0x30E0, 0x30E0), (0x30A6, 0x30A6), (0x30F0, 0x30F0), (0x30CE, 0x30CE), (0x30AA, 0x30AA), (0x30AF, 0x30AF), (0x30E4, 0x30E4), (0x30DE, 0x30DE), (0x30B1, 0x30B1), (0x30D5, 0x30D5), (0x30B3, 0x30B3), (0x30A8, 0x30A8), (0x30C6, 0x30C6), (0x30A2, 0x30A2), (0x30B5, 0x30B5), (0x30AD, 0x30AD), (0x30E6, 0x30E6), (0x30E1, 0x30E1), (0x30DF, 0x30DF), (0x30B7, 0x30B7), (0x30F1, 0x30F1), (0x30D2, 0x30D2), (0x30E2, 0x30E2), (0x30BB, 0x30BB), (0x30B9, 0x30B9)]), RLit [h_ma, h_de]]) text)"

definition article_ref :: "jsstr \<Rightarrow> rat \<Rightarrow> int \<Rightarrow> DetectedReference" where
  "article_ref t conf pos = (found Internal t conf ByPattern)\<lparr>dr_targetArticle := Some t, dr_position := Some pos\<rparr>"

definition pattern16 :: "jsstr \<Rightarrow> refs" where
  "pattern16 text = concat (map (\<lambda>m.
     [article_ref (jou (grp m 1)) (95/100) (int (m_index m)),
      article_ref (jou (grp m 2)) (95/100) (last_pos_of_part m (jou (grp m 2)))])
     (exec_all (rseq [RLit [c_dai], RGrp 1 (rplus (RCls False rng_digit)), RLit [c_jou], ralt [RLit [c_moshi, h_shi, h_ku, h_ha], RLit [c_mata, h_ha], RLit [c_nara, h_bi, h_ni]], RLit [c_dai], RGrp 2 (rplus (RCls False rng_digit)), RLit [c_jou]]) text))"

definition pattern17 :: "jsstr \<Rightarrow> refs" where
  "pattern17 text = map (\<lambda>m.
     if truthy (cap m 2)
     then range_between m (85/100) ([c_fu, c_soku] @ jou (grp m 1)) ([c_fu, c_soku] @ jou (grp m 2))
     else at_pos (m_index m) ((found Internal (m_text m) (9/10) ByPattern)
            \<lparr>dr_targetArticle := Some ([c_fu, c_soku] @ jou (grp m 1) @ opt_part m 3 kou)\<rparr>))
     (exec_all (rseq [RLit [c_fu, c_soku, c_dai], RGrp 1 (rplus (RCls False rng_digit)), RLit [c_jou], ropt (rseq [RLit [h_ka, h_ra, c_dai], RGrp 2 (rplus (RCls False rng_digit)), RLit [c_jou, h_ma, h_de]]), ropt (rseq [RLit [c_dai], RGrp 3 (rplus (RCls False rng_digit)), RLit [c_kou]])]) text)"

definition pattern18 :: "jsstr \<Rightarrow> refs" where
  "pattern18 text = concat (map (\<lambda>m.
     [at_pos (m_index m) (found Internal (gou (grp m 1)) (9/10) ByPattern),
      (found Internal (gou (grp m 2)) (9/10) ByPattern)
        \<lparr>dr_position := Some (last_pos_of_part m (gou (grp m 2)))\<rparr>])
     (exec_all (rseq [ropt (RLit [c_dou, c_kou]), RLit [c_dai], RGrp 1 (rplus (RCls False rng_kj10)), RLit [c_gou], ralt [RLit [c_oyo, h_bi], RLit [c_nara, h_bi, h_ni], RLit [c_mata, h_ha], RLit [c_moshi, h_shi, h_ku, h_ha]], RLit [c_dai], RGrp 2 (rplus (RCls False rng_kj10)), RLit [c_gou]]) text))"

definition pattern19 :: "jsstr \<Rightarrow> refs" where
  "pattern19 text = concat (map (\<lambda>m.
     let t1 = jou (grp m 1) @ opt_part m 2 kou; t2 = jou (grp m 3) @ opt_part m 4 kou in
     [article_ref t1 (95/100) (int (m_index m)),
      at_pos (m_index m) ((found Application (t2 @ [h_ni, h_o, h_i, h_te, c_jun, c_you]) (95/100) ByPattern)\<lparr>dr_targetArticle := Some t2\<rparr>)])
     (exec_all (rseq [RLit [c_dai], RGrp 1 (rplus (RCls False rng_digit)), RLit [c_jou], ropt (rseq [RLit [c_dai], RGrp 2 (rplus (RCls False rng_digit)), RLit [c_kou]]), RLit [p_lparen, c_dai], RGrp 3 (rplus (RCls False rng_digit)), RLit [c_jou], ropt (rseq [RLit [c_dai], RGrp 4 (rplus (RCls False rng_digit)), RLit [c_kou]]), RLit [h_ni, h_o, h_i, h_te, c_jun, c_you, h_su, h_ru, 0x5834, 0x5408, h_wo, 0x542B, 0x3080, p_stop, p_rparen]]) text))"

section \<open>Patterns 20 to 25, and the second 20 to 22\<close>

definition pattern20 :: "jsstr \<Rightarrow> refs" where
  "pattern20 text = map (\<lambda>m. range_between m (9/10) (jou (grp m 1)) (jou (grp m 2) @ [h_no] @ grp m 3))
     (exec_all (rseq [RLit [c_dai], RGrp 1 (rplus (RCls False rng_digit)), RLit [c_jou, h_ka, h_ra, c_dai], RGrp 2 (rplus (RCls False rng_digit)), RLit [c_jou, h_no], RGrp 3 (rplus (RCls False rng_digit)), RLit [h_ma, h_de]]) text)"

text \<open>A number or \<open>null\<close> in a template.\<close>

definition null_str :: "int option \<Rightarrow> jsstr" where
  "null_str n = (case n of None \<Rightarrow> (str ''null'') | Some i \<Rightarrow> int_str i)"

definition pattern21 :: "jsstr \<Rightarrow> refs" where
  "pattern21 text = map (\<lambda>m. at_pos (m_index m) ((found Internal (m_text m) (95/100) ByPattern)
     \<lparr>dr_targetArticle := Some (jou (grp m 1) @ kou (null_str (kanjiToNumber (grp m 2))) @
        gou (null_str (kanjiToNumber (grp m 3))))\<rparr>))
     (exec_all (rseq [RLit [c_dai], RGrp 1 (rplus (RCls False rng_digit)), RLit [c_jou, c_dai], RGrp 2 (rplus (RCls False rng_kj10)), RLit [c_kou, c_dai], RGrp 3 (rplus (RCls False rng_kj10)), RLit [c_gou]]) text)"

definition pattern22 :: "jsstr \<Rightarrow> refs" where
  "pattern22 text = map (\<lambda>m. at_pos (m_index m) ((found Application (m_text m) (9/10) ByPattern)
     \<lparr>dr_targetArticle := Some (jou (grp m 1) @ opt_part m 3 kou)\<rparr>))
     (exec_all (rseq [RLit [c_dai], RGrp 1 (rplus (RCls False rng_digit)), RLit [c_jou], ropt (rseq [RLit [c_dai], RGrp 2 (rplus (RCls False rng_digit)), RLit [c_kou]]), RLit [h_ni, h_o, h_i, h_te, c_jun, c_you, h_su, h_ru], ropt (RLit [c_dou, c_jou]), RLit [c_dai], RGrp 3 (rplus (RCls False rng_digit)), RLit [c_kou]]) text)"

definition pattern23 :: "jsstr \<Rightarrow> refs" where
  "pattern23 text = map (\<lambda>m. at_pos (m_index m) ((found Internal (m_text m) (95/100) ByPattern)
     \<lparr>dr_targetArticle := Some (jou (grp m 1) @ [h_no] @ null_str (kanjiToNumber (grp m 2)))\<rparr>))
     (exec_all (rseq [RLit [c_dai], RGrp 1 (rplus (RCls False rng_digit)), RLit [c_jou, h_no], RGrp 2 (rplus (RCls False rng_kj2_10))]) text)"

definition pattern24 :: "jsstr \<Rightarrow> refs" where
  "pattern24 text = map (\<lambda>m. at_pos (m_index m) ((found Conditional (m_text m) (85/100) ByPattern)
     \<lparr>dr_targetArticle := Some (jou (grp m 1) @ opt_part m 2 kou)\<rparr>))
     (exec_all (rseq [ralt [RLit [h_no, 0x5834, 0x5408, h_ni, h_ha], RLit [h_no, 0x5834, 0x5408, h_ni, h_o, h_i, h_te]], RLit [p_comma, c_dai], RGrp 1 (rplus (RCls False rng_digit)), RLit [c_jou], ropt (rseq [RLit [c_dai], RGrp 2 (rplus (RCls False rng_digit)), RLit [c_kou]]), ropt (RLit [h_no, c_ki, c_tei])]) text)"

definition abbreviation_source :: "jsstr \<Rightarrow> jsstr" where
  "abbreviation_source abbr = abbr @ [c_dai, 0x28] @ [0x5C, 0x64] @ [0x2B, 0x29, c_jou]"

fun pattern25 :: "env \<Rightarrow> jsstr \<Rightarrow> (jsstr \<times> Definition) list \<Rightarrow> (refs, unit) outcome" where
  "pattern25 e text [] = Returns []"
| "pattern25 e text ((abbr, d) # ds) =
     (case compileRegExp e (abbreviation_source abbr) of
        None \<Rightarrow> SyntaxError ()
      | Some r \<Rightarrow> (case exec_while r text of
          None \<Rightarrow> Diverges
        | Some ms \<Rightarrow> (case pattern25 e text ds of
            Returns rest \<Rightarrow>
              Returns (map (\<lambda>m. at_pos (m_index m) ((found External (m_text m) (85/100) ByContext)
                \<lparr>dr_targetLaw := Some (df_actualLaw d), dr_targetArticle := Some (jou (grp m 1))\<rparr>)) ms @ rest)
          | SyntaxError u \<Rightarrow> SyntaxError u
          | Diverges \<Rightarrow> Diverges)))"

definition alternativePattern :: "jsstr \<Rightarrow> refs" where
  "alternativePattern text = concat (map (\<lambda>m.
     [(article_ref (jou (grp m 1) @ opt_part m 2 kou) (95/100) (int (m_index m)))
        \<lparr>dr_articleNumber := Some (parse_int (grp m 1))\<rparr>,
      (article_ref (jou (grp m 3) @ opt_part m 4 kou) (95/100) (pos_of_part m (jou (grp m 3))))
        \<lparr>dr_articleNumber := Some (parse_int (grp m 3))\<rparr>])
     (exec_all (rseq [RLit [c_dai], RGrp 1 (rplus (RCls False rng_digit)), RLit [c_jou], ropt (rseq [RLit [c_dai], RGrp 2 (rplus (RCls False rng_digit)), RLit [c_kou]]), ralt [RLit [c_moshi, h_shi, h_ku, h_ha], RLit [c_mata, h_ha]], RLit [c_dai], RGrp 3 (rplus (RCls False rng_digit)), RLit [c_jou], ropt (rseq [RLit [c_dai], RGrp 4 (rplus (RCls False rng_digit)), RLit [c_kou]])]) text))"

definition exclusionPattern :: "jsstr \<Rightarrow> refs" where
  "exclusionPattern text = concat (map (\<lambda>m.
     if truthy (cap m 2)
     then [at_pos (m_index m) ((found Internal (m_text m) (95/100) ByPattern)
            \<lparr>dr_targetArticle := Some (jou (grp m 1)), dr_articleNumber := Some (parse_int (grp m 1)),
             dr_extra := [((str ''exclusion''), kou (grp m 2))]\<rparr>)]
     else [])
     (exec_all (rseq [RLit [c_dai], RGrp 1 (rplus (RCls False rng_digit)), RLit [c_jou], ropt (rseq [RLit [p_lparen, c_dai], RGrp 2 (rplus (RCls False rng_digit)), RLit [c_kou, h_wo, 0x9664, h_ku], ropt (RLit [p_stop]), RLit [p_rparen]])]) text))"

definition itemRangePattern :: "jsstr \<Rightarrow> refs" where
  "itemRangePattern text = map (\<lambda>m. at_pos (m_index m) ((found Internal (m_text m) (95/100) ByPattern)
     \<lparr>dr_targetArticle := Some (jou (grp m 1) @ opt_part m 2 kou),
      dr_extra := [((str ''itemRange''), gou (grp m 3) @ [h_ka, h_ra] @ gou (grp m 4) @ [h_ma, h_de])]\<rparr>))
     (exec_all (rseq [RLit [c_dai], RGrp 1 (rplus (RCls False rng_digit)), RLit [c_jou], ropt (rseq [RLit [c_dai], RGrp 2 (rplus (RCls False rng_digit)), RLit [c_kou]]), RLit [c_dai], RGrp 3 (rplus (RCls False rng_digit)), RLit [c_gou, h_ka, h_ra, c_dai], RGrp 4 (rplus (RCls False rng_digit)), RLit [c_gou, h_ma, h_de]]) text)"

section \<open>The method\<close>

text \<open>What the patterns 2 to 24 append to the references of the first.\<close>

definition patterns2_24 :: "env \<Rightarrow> jsstr \<Rightarrow> ContextState \<Rightarrow> refs \<Rightarrow> refs" where
  "patterns2_24 e text cs r1 =
     pattern2_5a text cs (pattern2c text cs (pattern2b e text cs (pattern2a e text cs r1))) @
     pattern2_6 text @ pattern3 text cs @ pattern4 text cs @ pattern5 text cs @
     pattern5b text cs @ pattern5c text cs @ pattern5d text cs @ pattern5_5 text @
     pattern6 e text cs @ pattern7 text @ pattern8 text cs @ pattern9 text cs @
     pattern10 e text cs @ pattern10b e text cs @ pattern11 text @ pattern12 text @ pattern13 text @
     pattern14 text @ pattern15 text @ pattern16 text @ pattern17 text @ pattern18 text @
     pattern19 text @ pattern20 text @ pattern21 text @ pattern22 text @ pattern23 text @ pattern24 text"

definition detectByPattern :: "env \<Rightarrow> jsstr \<Rightarrow> ContextState \<Rightarrow> (refs \<times> ContextState, ContextState) outcome" where
  "detectByPattern e text cs0 =
     (case pattern1 e text cs0 of (r1, cs) \<Rightarrow>
        case pattern25 e text (cs_definitions cs) of
          Returns r25 \<Rightarrow>
            Returns (patterns2_24 e text cs r1 @ r25 @ alternativePattern text @ exclusionPattern text @
              itemRangePattern text, cs)
        | SyntaxError _ \<Rightarrow> SyntaxError cs
        | Diverges \<Rightarrow> Diverges)"

end
