(* ===== verification/Detector.thy ===== *)
theory Detector
  imports DetectorPatterns
begin

text \<open>
  \<^verbatim>\<open>scripts/detector.ts\<close>, part 3: the phases of \<open>detectReferences\<close> after the patterns (context, language
  model, removal of contained references, negative filter) and the entry point. The state of a
  detector is its context, its negative filter and whether a language model is available.
\<close>

section \<open>The context phase\<close>

datatype contextKey = SameLaw | MentionedLaw | ThisLaw | MainLaw | ThisLawShort | SameArticlePara
  | SameParagraph | SameItem | Appendix

definition contextPatterns :: "(regex \<times> contextKey) list" where
  "contextPatterns =
     [((rseq [RLit [c_dou, c_hou], ropt (rseq [RLit [c_dai], RGrp 1 (rplus (RCls False rng_kj1000)), RLit [c_jou]])]), SameLaw),
      ((rseq [RLit [c_tou, c_gai], RGrp 1 (rseq [rplus (RCls True rng_eol), RLit [c_hou]]), ropt (rseq [RLit [c_dai], RGrp 2 (rplus (RCls False rng_kj1000)), RLit [c_jou]])]), MentionedLaw),
      ((RLit [h_ko, h_no, c_hou, c_ritsu]), ThisLaw),
      ((RLit [c_hon, c_hou]), MainLaw),
      ((RLit [h_ko, h_no, c_hou]), ThisLawShort),
      ((rseq [RLit [c_dou, c_jou, c_dai], RGrp 1 (rplus (RCls False rng_digit)), RLit [c_kou]]), SameArticlePara),
      ((RLit [c_dou, c_kou]), SameParagraph),
      ((RLit [c_dou, c_gou]), SameItem),
      ((rseq [RLit [c_betsu, c_hyou, c_dai], RGrp 1 (rplus (RCls False rng_kj10))]), Appendix)]"

text \<open>The branches on the key. The source compares the key of the second pattern with another string than
  the one it has, so that this key falls through all branches.\<close>

fun context_refs :: "ContextState \<Rightarrow> contextKey \<Rightarrow> rmatch \<Rightarrow> refs" where
  "context_refs cs SameArticlePara m =
     [at_pos (m_index m) ((found Contextual (m_text m) (85/100) ByContext)
       \<lparr>dr_targetLawId := Some (cs_currentLawId cs), dr_targetLaw := Some (cs_currentLawName cs),
        dr_targetArticle := Some (cs_currentArticle cs), dr_targetParagraph := map_option ParaText (cap m 1)\<rparr>)]"
| "context_refs cs Appendix m =
     [at_pos (m_index m) ((found StructuralRef (m_text m) (85/100) ByPattern)
       \<lparr>dr_targetLawId := Some (cs_currentLawId cs), dr_targetLaw := Some (cs_currentLawName cs),
        dr_targetArticle := Some ([c_betsu, c_hyou, c_dai] @ null_str (kanjiToNumber (grp m 1)))\<rparr>)]"
| "context_refs cs SameLaw m =
     (case find (\<lambda>law. rl_position law < m_index m) (cs_recentLaws cs) of
        None \<Rightarrow> []
      | Some law \<Rightarrow>
          [at_pos (m_index m) ((found Contextual (m_text m) (85/100) ByContext)
            \<lparr>dr_targetLaw := Some (rl_lawName law), dr_targetLawId := Some (rl_lawId law),
             dr_targetArticle := (if truthy (cap m 1) then Some (jou (grp m 1)) else None)\<rparr>)])"
| "context_refs cs MentionedLaw m = []"
| "context_refs cs key m =
     (if key = SameParagraph \<or> key = SameItem then
        [at_pos (m_index m) ((found Contextual (m_text m) (80/100) ByContext)
          \<lparr>dr_targetLawId := Some (cs_currentLawId cs), dr_targetLaw := Some (cs_currentLawName cs),
           dr_targetArticle := Some (cs_currentArticle cs)\<rparr>)]
      else
        [at_pos (m_index m) ((found Contextual (m_text m) (9/10) ByContext)
          \<lparr>dr_targetLaw := Some (cs_currentLawName cs), dr_targetLawId := Some (cs_currentLawId cs)\<rparr>)])"

definition pos :: "DetectedReference \<Rightarrow> int" where
  "pos r = (case dr_position r of None \<Rightarrow> 0 | Some p \<Rightarrow> p)"

text \<open>The second look at "the same law": the nearest external reference before it, among the references of
  this phase.\<close>

definition same_law_step :: "refs \<Rightarrow> rmatch \<Rightarrow> refs" where
  "same_law_step references m =
     (case sort_key (\<lambda>r. - pos r) (filter (\<lambda>r. dr_type r = External \<and>
             (case dr_position r of None \<Rightarrow> False | Some p \<Rightarrow> p < int (m_index m))) references) of
        [] \<Rightarrow> references
      | recent # _ \<Rightarrow> references @
          [at_pos (m_index m) ((found Contextual (m_text m) (85/100) ByContext)
            \<lparr>dr_targetLaw := dr_targetLaw recent, dr_targetLawId := dr_targetLawId recent,
             dr_targetArticle := (if truthy (cap m 1) then Some (jou (grp m 1)) else None)\<rparr>)])"

definition detectByContext :: "jsstr \<Rightarrow> ContextState \<Rightarrow> refs" where
  "detectByContext text cs =
     (let refs1 = concat (map (\<lambda>(p, key). concat (map (context_refs cs key) (exec_all p text))) contextPatterns);
          refs2 = (if str_includes text [c_dou, c_hou]
            then foldl same_law_step refs1 (exec_all (rseq [RLit [c_dou, c_hou], ropt (rseq [RLit [c_dai], RGrp 1 (rplus (RCls False rng_digit)), RLit [c_jou]])]) text) else refs1)
      in refs2 @ (if str_includes text [c_tou, c_gai]
           then map (\<lambda>m. at_pos (m_index m) (found Contextual (m_text m) (60/100) ByContext))
             (exec_all (rseq [RLit [c_tou, c_gai], RRep (RCls True [(p_comma, p_comma), (p_stop, p_stop)]) 1 (Some 10) True]) text)
           else []))"

section \<open>The phase of the language model\<close>

definition ambiguousPatterns :: "(regex \<times> jsstr) list" where
  "ambiguousPatterns =
     [((rseq [RLit [c_dou, c_hou], ropt (rseq [RLit [c_dai], RGrp 1 (rplus (RCls False rng_digit)), RLit [c_jou]])]), (str ''same_law'')),
      ((rseq [RLit [c_tou, c_gai], RRep (RCls True [(p_comma, p_comma), (p_stop, p_stop)]) 1 (Some 20) True]), (str ''current_ref'')),
      ((rseq [RLit [c_betsu, c_hyou, c_dai], rplus (RCls False rng_kj10), RLit [h_ni, 0x63B2, h_ge, h_ru, c_hou, c_ritsu]]), (str ''appendix_law'')),
      ((RLit [c_zen, c_kaku, c_gou, h_no, c_hou]), (str ''previous_items'')),
      ((RLit [0x95A2, 0x4FC2, c_hou, c_rei_order]), (str ''related_laws'')),
      ((rseq [RLit [c_kai, c_sei, c_zen, h_no], RGrp 1 (rseq [rplus (RCls True rng_eol), RLit [c_hou]])]), (str ''old_law'')),
      ((rseq [RLit [p_lquote], RGrp 1 (rseq [RRep (RCls True rng_eol) 1 (Some 20) True, RLit [c_hou]]), RLit [p_rquote]]), (str ''quoted_law''))]"

definition applicationPatterns :: "(regex \<times> jsstr) list" where
  "applicationPatterns =
     [((rseq [RGrp 1 (rplus (RCls True rng_eol)), RLit [h_no, c_ki, c_tei, h_ha], ropt (RLit [p_comma]), RGrp 2 (rplus (RCls True rng_eol)), RLit [h_ni, h_tsu, h_i, h_te, c_jun, c_you, h_su, h_ru]]), (str ''junyo'')),
      ((rseq [RGrp 1 (rplus (RCls True rng_eol)), RLit [0x4E2D, p_lquote], RGrp 2 (rplus (RCls True rng_eol)), RLit [p_rquote, h_to, h_a, h_ru, h_no, h_ha, p_lquote], RGrp 3 (rplus (RCls True rng_eol)), RLit [p_rquote, h_to, 0x8AAD, h_mi, 0x66FF, h_e, h_ru]]), (str ''yomikae'')),
      ((rseq [RGrp 1 (rplus (RCls True rng_eol)), RLit [h_no, c_ki, c_tei, h_wo, c_jun, c_you, h_su, h_ru, 0x5834, 0x5408, h_ni, h_o, h_i, h_te]]), (str ''junyo_conditional''))]"

definition ask_llm :: "env \<Rightarrow> jsstr \<Rightarrow> refs \<Rightarrow> jsstr \<Rightarrow> rmatch \<Rightarrow> refs" where
  "ask_llm e text existing type m =
     (if list_ex (\<lambda>r. dr_text r = m_text m \<or> dr_position r = Some (int (m_index m))) existing then []
      else case queryLLM e (m_text m) text type existing of
        None \<Rightarrow> []
      | Some a \<Rightarrow>
          if 6/10 < la_confidence a then
            [at_pos (m_index m)
              ((found (case la_referenceType a of Some t \<Rightarrow> t | None \<Rightarrow> Contextual) (m_text m) (la_confidence a) ByLLM)
               \<lparr>dr_targetLaw := Some (la_lawName a), dr_targetLawId := la_lawId a, dr_targetArticle := la_article a\<rparr>)]
          else [])"

definition detectByLLM :: "env \<Rightarrow> jsstr \<Rightarrow> refs \<Rightarrow> refs" where
  "detectByLLM e text existing =
     concat (map (\<lambda>(p, type). concat (map (ask_llm e text existing type) (exec_all p text))) ambiguousPatterns) @
     concat (map (\<lambda>(p, type). concat (map (\<lambda>m. case analyzeApplication e m text type existing of
         None \<Rightarrow> [] | Some rs \<Rightarrow> rs) (exec_all p text))) applicationPatterns)"

section \<open>Removing contained references\<close>

definition ref_end :: "DetectedReference \<Rightarrow> int" where
  "ref_end r = pos r + int (length (dr_text r))"

text \<open>The set \<open>covered\<close> holds strings "start-end", decoded by \<open>split('-').map(Number)\<close>; \<open>Number\<close> of the empty
  string is 0.\<close>

definition range_key :: "int \<Rightarrow> int \<Rightarrow> jsstr" where
  "range_key a b = int_str a @ (str ''-'') @ int_str b"

definition js_number :: "jsstr \<Rightarrow> int option" where
  "js_number s = (if s = [] then Some 0 else if list_all is_digit s then Some (int (digits_val s)) else None)"

definition range_covers :: "jsstr \<Rightarrow> int \<Rightarrow> int \<Rightarrow> bool" where
  "range_covers rng a b =
     (case map js_number (split_char 0x2D rng) of
        Some coveredStart # Some coveredEnd # _ \<Rightarrow> coveredStart \<le> a \<and> b \<le> coveredEnd
      | _ \<Rightarrow> False)"

fun dedup_step :: "refs \<times> jsstr list \<Rightarrow> DetectedReference \<Rightarrow> refs \<times> jsstr list" where
  "dedup_step (unique, covered) ref =
     (let start = pos ref; fin = ref_end ref in
      if list_ex (\<lambda>rng. range_covers rng start fin) covered then (unique, covered)
      else (filter (\<lambda>existing. \<not> (start \<le> pos existing \<and> ref_end existing \<le> fin)) unique @ [ref],
            List.insert (range_key start fin) covered))"

definition deduplicateAndSort :: "refs \<Rightarrow> refs" where
  "deduplicateAndSort references =
     sort_key pos (fst (foldl dedup_step ([], []) (sort_key pos references)))"

section \<open>The negative filter and the entry point\<close>

definition ref_context :: "jsstr \<Rightarrow> DetectedReference \<Rightarrow> jsstr" where
  "ref_context fullText r =
     substring fullText (nat (max 0 (pos r - 30))) (nat (min (int (length fullText)) (ref_end r + 30)))"

fun filterNegativePatterns :: "jsstr \<Rightarrow> refs \<Rightarrow> NegativePatternFilter \<Rightarrow> refs \<times> NegativePatternFilter" where
  "filterNegativePatterns fullText [] f = ([], f)"
| "filterNegativePatterns fullText (r # rs) f =
     (case isNegative (ref_context fullText r) f of (neg, f1) \<Rightarrow>
      case filterNegativePatterns fullText rs f1 of (kept, f2) \<Rightarrow> (if neg then kept else r # kept, f2))"

record DetectorState =
  ds_context :: ContextState
  ds_llmAvailable :: bool
  ds_negativeFilter :: NegativePatternFilter

text \<open>\<open>reachable\<close> stands for the probe of the local server in \<open>checkLLMAvailability\<close>.\<close>

definition new_detector :: "bool \<Rightarrow> bool \<Rightarrow> DetectorState" where
  "new_detector enableLLM reachable =
     \<lparr>ds_context = new_context, ds_llmAvailable = enableLLM \<and> reachable, ds_negativeFilter = new_filter\<rparr>"

definition enter_article :: "jsstr option \<Rightarrow> jsstr option \<Rightarrow> jsstr option \<Rightarrow> ContextState \<Rightarrow> ContextState" where
  "enter_article lawId lawName article cs =
     (let cs1 = (if truthy lawId then cs\<lparr>cs_currentLawId := the lawId\<rparr> else cs);
          cs2 = (if truthy lawName then cs1\<lparr>cs_currentLawName := the lawName\<rparr> else cs1)
      in if truthy article then
           (let cs3 = cs2\<lparr>cs_currentArticle := the article\<rparr>;
                cs4 = (case rx_match (rseq [RLit [c_dai], RGrp 1 (rplus (RCls False rng_digit)), RLit [c_jou]]) (the article) of
                    Some m \<Rightarrow> (case parse_int (grp m 1) of
                        Some n \<Rightarrow> cs3\<lparr>cs_currentArticleNumber := n\<rparr> | None \<Rightarrow> cs3)
                  | None \<Rightarrow> cs3)
            in cs4\<lparr>cs_recentArticles := push_bounded 5 (the article) (cs_recentArticles cs4)\<rparr>)
         else cs2)"

text \<open>The references of the first three phases, given those of the patterns.\<close>

definition allReferences :: "env \<Rightarrow> jsstr \<Rightarrow> bool \<Rightarrow> refs \<times> ContextState \<Rightarrow> refs" where
  "allReferences e text llmAvailable p =
     (let references = fst p @ detectByContext text (snd p)
      in references @ (if llmAvailable \<and> length text < 10000 then detectByLLM e text references else []))"

definition detectReferences :: "env \<Rightarrow> jsstr \<Rightarrow> jsstr option \<Rightarrow> jsstr option \<Rightarrow> jsstr option \<Rightarrow> DetectorState \<Rightarrow>
    (refs \<times> DetectorState, DetectorState) outcome" where
  "detectReferences e text lawId lawName article st =
     (case detectByPattern e text (detectDefinitions text (enter_article lawId lawName article (ds_context st))) of
        Returns p \<Rightarrow>
          (case filterNegativePatterns text (deduplicateAndSort (allReferences e text (ds_llmAvailable st) p))
               (ds_negativeFilter st) of
             (filtered, f) \<Rightarrow> Returns (filtered, st\<lparr>ds_context := snd p, ds_negativeFilter := f\<rparr>))
      | SyntaxError cs \<Rightarrow> SyntaxError (st\<lparr>ds_context := cs\<rparr>)
      | Diverges \<Rightarrow> Diverges)"

section \<open>Facts on the removal of contained references\<close>

lemma js_number_nat_str: "js_number (nat_str n) = Some (int n)"
  using nat_str_digits [of _ n] by (auto simp: js_number_def list_all_iff)

lemma range_covers_key:
  assumes "0 \<le> a" "0 \<le> b"
  shows "range_covers (range_key a b) c d \<longleftrightarrow> a \<le> c \<and> d \<le> b"
proof -
  have "0x2D \<notin> set (nat_str (nat a))" "0x2D \<notin> set (nat_str (nat b))"
    using nat_str_digits by (force simp: is_digit_def)+
  then have "split_char 0x2D (range_key a b) = [nat_str (nat a), nat_str (nat b)]"
    using assms by (simp add: range_key_def split_char_app split_char_no_sep)
  then show ?thesis using assms by (simp add: range_covers_def js_number_nat_str)
qed

text \<open>\<open>contains u r\<close>: the span of \<open>u\<close> contains that of \<open>r\<close>. \<open>apart\<close>: both ends move on, so that none of the two
  contains the other.\<close>

definition contains :: "DetectedReference \<Rightarrow> DetectedReference \<Rightarrow> bool" where
  "contains u r \<longleftrightarrow> pos u \<le> pos r \<and> ref_end r \<le> ref_end u"

definition apart :: "DetectedReference \<Rightarrow> DetectedReference \<Rightarrow> bool" where
  "apart u r \<longleftrightarrow> pos u < pos r \<and> ref_end u < ref_end r"

lemma apart_eq: "apart = (\<lambda>u r. pos u < pos r \<and> ref_end u < ref_end r)"
  by (intro ext) (simp add: apart_def)

lemma contains_trans: "contains a b \<Longrightarrow> contains b c \<Longrightarrow> contains a c"
  by (auto simp: contains_def)

text \<open>What holds of the list \<open>unique\<close> and the set \<open>covered\<close> after the references \<open>done\<close>.\<close>

definition dedup_inv :: "refs \<Rightarrow> refs \<times> jsstr list \<Rightarrow> bool" where
  "dedup_inv seen st \<longleftrightarrow> (case st of (unique, covered) \<Rightarrow>
     set unique \<subseteq> set seen \<and> sorted_wrt apart unique \<and>
     (\<forall>r \<in> set seen. \<exists>u \<in> set unique. contains u r) \<and>
     set (map (\<lambda>u. range_key (pos u) (ref_end u)) unique) \<subseteq> set covered \<and>
     set covered \<subseteq> set (map (\<lambda>u. range_key (pos u) (ref_end u)) seen))"

lemma key_covers:
  "0 \<le> pos u \<Longrightarrow> range_covers (range_key (pos u) (ref_end u)) (pos r) (ref_end r) \<longleftrightarrow> contains u r"
  by (simp add: range_covers_key contains_def ref_end_def)

lemma dedup_step_inv:
  assumes inv: "dedup_inv seen (unique, covered)" and nonneg: "\<forall>r \<in> set seen. 0 \<le> pos r \<and> pos r \<le> pos x"
  shows "dedup_inv (seen @ [x]) (dedup_step (unique, covered) x)"
proof (cases "list_ex (\<lambda>k. range_covers k (pos x) (ref_end x)) covered")
  case True
  then obtain k where k: "k \<in> set covered" "range_covers k (pos x) (ref_end x)" by (auto simp: list_ex_iff)
  with inv obtain r where r: "r \<in> set seen" "k = range_key (pos r) (ref_end r)" by (auto simp: dedup_inv_def)
  with k nonneg have "contains r x" by (simp add: key_covers)
  moreover from inv r obtain u where "u \<in> set unique" "contains u r" by (auto simp: dedup_inv_def)
  ultimately have "\<exists>u \<in> set unique. contains u x" using contains_trans by blast
  with inv True show ?thesis by (auto simp: dedup_inv_def)
next
  case False
  let ?kept = "filter (\<lambda>u. \<not> (pos x \<le> pos u \<and> ref_end u \<le> ref_end x)) unique"
  have step: "dedup_step (unique, covered) x = (?kept @ [x], List.insert (range_key (pos x) (ref_end x)) covered)"
    using False by (simp add: Let_def)
  have before: "apart u x" if "u \<in> set ?kept" for u
  proof -
    from that have u: "u \<in> set unique" "\<not> (pos x \<le> pos u \<and> ref_end u \<le> ref_end x)" by auto
    with inv nonneg have p: "0 \<le> pos u" "pos u \<le> pos x" "range_key (pos u) (ref_end u) \<in> set covered"
      by (auto simp: dedup_inv_def)
    with False have "\<not> contains u x" using key_covers [of u x] by (auto simp: list_ex_iff)
    with u p show ?thesis by (auto simp: contains_def apart_def)
  qed
  have cover: "\<exists>u \<in> set (?kept @ [x]). contains u r" if "r \<in> set (seen @ [x])" for r
  proof (cases "r = x")
    case True
    then show ?thesis by (simp add: contains_def)
  next
    case False
    with that inv obtain u where u: "u \<in> set unique" "contains u r" by (auto simp: dedup_inv_def)
    show ?thesis
    proof (cases "u \<in> set ?kept")
      case True
      with u show ?thesis by auto
    next
      case False
      with u have "contains x u" by (simp add: contains_def)
      with u show ?thesis using contains_trans by auto
    qed
  qed
  from inv have "sorted_wrt apart (?kept @ [x])"
    using before by (simp add: dedup_inv_def sorted_wrt_append sorted_wrt_filter)
  moreover from inv have "set (?kept @ [x]) \<subseteq> set (seen @ [x])" by (auto simp: dedup_inv_def)
  moreover from inv have "set (map (\<lambda>u. range_key (pos u) (ref_end u)) (?kept @ [x])) \<subseteq>
      set (List.insert (range_key (pos x) (ref_end x)) covered)"
    "set (List.insert (range_key (pos x) (ref_end x)) covered) \<subseteq>
      set (map (\<lambda>u. range_key (pos u) (ref_end u)) (seen @ [x]))" by (auto simp: dedup_inv_def)
  ultimately show ?thesis using cover unfolding step dedup_inv_def by blast
qed

lemma dedup_fold_inv:
  "sorted (map pos (seen @ rs)) \<Longrightarrow> \<forall>r \<in> set (seen @ rs). 0 \<le> pos r \<Longrightarrow> dedup_inv seen st \<Longrightarrow>
     dedup_inv (seen @ rs) (foldl dedup_step st rs)"
proof (induction rs arbitrary: seen st)
  case (Cons x rs)
  from Cons.prems have "dedup_inv (seen @ [x]) (dedup_step st x)"
    by (cases st) (auto intro!: dedup_step_inv simp: sorted_append simp del: dedup_step.simps)
  with Cons.IH [of "seen @ [x]" "dedup_step st x"] Cons.prems show ?case by simp
qed simp

lemma apart_sorted: "sorted_wrt apart us \<Longrightarrow> sorted (map pos us)"
  by (induction us) (auto simp: apart_def intro: less_imp_le)

lemma dedup_result:
  assumes "\<forall>r \<in> set rs. 0 \<le> pos r"
  shows "set (deduplicateAndSort rs) \<subseteq> set rs" "sorted_wrt apart (deduplicateAndSort rs)"
    "\<forall>r \<in> set rs. \<exists>u \<in> set (deduplicateAndSort rs). contains u r"
proof -
  obtain unique covered where f: "foldl dedup_step ([], []) (sort_key pos rs) = (unique, covered)" by force
  have "dedup_inv [] ([], [])" by (simp add: dedup_inv_def)
  with dedup_fold_inv [of "[]" "sort_key pos rs" "([], [])"] assms f
  have inv: "dedup_inv (sort_key pos rs) (unique, covered)" by simp
  then have "sorted (map pos unique)" by (auto simp: dedup_inv_def intro: apart_sorted)
  then have "deduplicateAndSort rs = unique" by (simp add: deduplicateAndSort_def f sort_key_id_if_sorted)
  with inv show "set (deduplicateAndSort rs) \<subseteq> set rs" "sorted_wrt apart (deduplicateAndSort rs)"
    "\<forall>r \<in> set rs. \<exists>u \<in> set (deduplicateAndSort rs). contains u r"
    by (auto simp: dedup_inv_def)
qed


section \<open>The negative filter\<close>


lemma filterNegative_patterns:
  "map fst (nf_patterns (snd (filterNegativePatterns t rs f))) = map fst (nf_patterns f)"
proof (induction rs arbitrary: f)
  case (Cons r rs)
  then show ?case using test_patterns_keep [of "ref_context t r" "nf_patterns f"]
    by (simp add: isNegative_def case_prod_beta)
qed simp

section \<open>The context\<close>

definition memory_ok :: "ContextState \<Rightarrow> bool" where
  "memory_ok cs \<longleftrightarrow> length (cs_recentLaws cs) \<le> 5 \<and> length (cs_recentArticles cs) \<le> 5 \<and> map_wf (cs_definitions cs) \<and>
     list_all (\<lambda>(k, d). k = df_term d \<and> df_term d \<noteq> [] \<and> df_actualLaw d \<noteq> [] \<and> df_term d \<noteq> df_actualLaw d)
       (cs_definitions cs)"

lemma enter_article_ok [inv_intros]: "memory_ok cs \<Longrightarrow> memory_ok (enter_article l n a cs)"
  by (auto simp: memory_ok_def enter_article_def Let_def length_push_bounded split: option.splits)

lemma enter_article_definitions [simp]: "cs_definitions (enter_article l n a cs) = cs_definitions cs"
  by (auto simp: enter_article_def Let_def split: option.splits)

lemma updateContext_ok [inv_intros]: "memory_ok cs \<Longrightarrow> memory_ok (updateContext i n p cs)"
  by (auto simp: memory_ok_def updateContext_def Let_def)

lemma updateContext_definitions [simp]: "cs_definitions (updateContext i n p cs) = cs_definitions cs"
  by (simp add: updateContext_def Let_def)

lemma record_definition_cases:
  obtains "record_definition defs m = defs"
  | d where "record_definition defs m = defs @ [(df_term d, d)]" "df_term d \<notin> fst ` set defs"
      "df_term d \<noteq> []" "df_actualLaw d \<noteq> []" "df_term d \<noteq> df_actualLaw d"
proof (cases "record_definition defs m = defs")
  case False
  let ?t = "or_else (cap m 2) (cap m 1)" and ?w = "or_else (cap m 1) (cap m 2)"
  from False have c: "truthy ?t" "truthy ?w" "?t \<noteq> ?w" "\<not> map_has defs (the ?t)"
    by (auto simp: record_definition_def Let_def split: if_splits)
  let ?d = "\<lparr>df_term = the ?t, df_actualLaw = the ?w, df_position = m_index m\<rparr>"
  from c have "the ?t \<notin> fst ` set defs" by (simp add: map_has_def map_of_eq_None_iff)
  moreover from this c have "record_definition defs m = defs @ [(the ?t, ?d)]"
    by (simp add: record_definition_def Let_def alist_update_new)
  moreover from c have "the ?t \<noteq> []" "the ?w \<noteq> []" "the ?t \<noteq> the ?w" by (auto simp: truthy_def)
  ultimately show thesis by (intro that(2) [of ?d]) auto
qed (rule that(1))

lemma record_definition_ok:
  "memory_ok (cs\<lparr>cs_definitions := defs\<rparr>) \<Longrightarrow> memory_ok (cs\<lparr>cs_definitions := record_definition defs m\<rparr>)"
  by (rule record_definition_cases [of defs m]) (auto simp: memory_ok_def map_wf_def)

lemma detectDefinitions_ok [inv_intros]:
  assumes "memory_ok cs"
  shows "memory_ok (detectDefinitions text cs)"
proof -
  have "memory_ok (cs\<lparr>cs_definitions := defs\<rparr>) \<Longrightarrow>
      memory_ok (cs\<lparr>cs_definitions := foldl record_definition defs ms\<rparr>)" for defs ms
    by (induction ms arbitrary: defs) (auto intro: record_definition_ok)
  with assms show ?thesis by (simp add: detectDefinitions_def)
qed

lemma detectDefinitions_keeps: "\<exists>new. cs_definitions (detectDefinitions text cs) = cs_definitions cs @ new"
proof -
  have "\<exists>new. foldl record_definition defs ms = defs @ new" for defs ms
  proof (induction ms arbitrary: defs)
    case (Cons m ms)
    obtain new where "record_definition defs m = defs @ new" by (rule record_definition_cases [of defs m]) auto
    moreover obtain more where "foldl record_definition (record_definition defs m) ms = record_definition defs m @ more"
      using Cons by blast
    ultimately show ?case by simp
  qed simp
  then show ?thesis by (simp add: detectDefinitions_def)
qed

lemma pattern1_fold:
  "snd (foldl (pattern1_step e) (rs, cs) ms) = cs' \<Longrightarrow>
     cs_definitions cs' = cs_definitions cs \<and> (memory_ok cs \<longrightarrow> memory_ok cs')"
proof (induction ms arbitrary: rs cs)
  case (Cons m ms)
  obtain rs1 cs1 where s: "pattern1_step e (rs, cs) m = (rs1, cs1)" by force
  then have "cs_definitions cs1 = cs_definitions cs \<and> (memory_ok cs \<longrightarrow> memory_ok cs1)"
    by (auto simp: Let_def inv_intros split: if_splits)
  with Cons.IH [of rs1 cs1] Cons.prems s show ?case by simp
qed simp

lemma detectByPattern_context:
  assumes "detectByPattern e text cs = Returns (rs, cs') \<or> detectByPattern e text cs = SyntaxError cs'"
  shows "cs_definitions cs' = cs_definitions cs" "memory_ok cs \<Longrightarrow> memory_ok cs'"
proof -
  obtain r1 cs1 where p: "pattern1 e text cs = (r1, cs1)" by force
  with assms have "cs' = cs1"
    by (auto simp: detectByPattern_def split: outcome.splits)
  with p pattern1_fold [of e "[]" cs "exec_all pattern1_regex text" cs']
  show "cs_definitions cs' = cs_definitions cs" "memory_ok cs \<Longrightarrow> memory_ok cs'" by (auto simp: pattern1_def)
qed


section \<open>Runs of the detector\<close>

record call =
  ca_text :: jsstr
  ca_lawId :: "jsstr option"
  ca_lawName :: "jsstr option"
  ca_article :: "jsstr option"

text \<open>The state after a call. A call that never returns leaves no later state; the model keeps the old one.\<close>

definition after_call :: "env \<Rightarrow> DetectorState \<Rightarrow> call \<Rightarrow> DetectorState" where
  "after_call e st c =
     (case detectReferences e (ca_text c) (ca_lawId c) (ca_lawName c) (ca_article c) st of
        Returns p \<Rightarrow> snd p | SyntaxError st' \<Rightarrow> st' | Diverges \<Rightarrow> st)"

definition detector_ok :: "DetectorState \<Rightarrow> bool" where
  "detector_ok st \<longleftrightarrow> memory_ok (ds_context st) \<and>
     map fst (nf_patterns (ds_negativeFilter st)) = map fst (nf_patterns new_filter)"

lemma detectReferences_cases:
  obtains (Returns) p where
      "detectByPattern e t (detectDefinitions t (enter_article l n a (ds_context st))) = Returns p"
      "detectReferences e t l n a st =
         (case filterNegativePatterns t (deduplicateAndSort (allReferences e t (ds_llmAvailable st) p)) (ds_negativeFilter st)
          of (filtered, f) \<Rightarrow> Returns (filtered, st\<lparr>ds_context := snd p, ds_negativeFilter := f\<rparr>))"
  | (SyntaxError) cs where
      "detectByPattern e t (detectDefinitions t (enter_article l n a (ds_context st))) = SyntaxError cs"
      "detectReferences e t l n a st = SyntaxError (st\<lparr>ds_context := cs\<rparr>)"
  | (Diverges) "detectReferences e t l n a st = Diverges"
  by (cases "detectByPattern e t (detectDefinitions t (enter_article l n a (ds_context st)))")
     (auto simp: detectReferences_def)

lemma after_call_context:
  "ds_context (after_call e st c) = ds_context st \<or>
   (\<exists>rs cs'. ds_context (after_call e st c) = cs' \<and>
      (detectByPattern e (ca_text c) (detectDefinitions (ca_text c)
         (enter_article (ca_lawId c) (ca_lawName c) (ca_article c) (ds_context st))) = Returns (rs, cs') \<or>
       detectByPattern e (ca_text c) (detectDefinitions (ca_text c)
         (enter_article (ca_lawId c) (ca_lawName c) (ca_article c) (ds_context st))) = SyntaxError cs'))"
  by (rule detectReferences_cases [of e "ca_text c" "ca_lawId c" "ca_lawName c" "ca_article c" st])
     (auto simp: after_call_def case_prod_beta)

lemma after_call_ok:
  assumes "detector_ok st"
  shows "detector_ok (after_call e st c)"
proof -
  from assms have "memory_ok (ds_context st)" by (simp add: detector_ok_def)
  then have "memory_ok (detectDefinitions (ca_text c) (enter_article (ca_lawId c) (ca_lawName c) (ca_article c) (ds_context st)))"
    by (intro inv_intros)
  then have "memory_ok (ds_context (after_call e st c))"
    using after_call_context [of e st c] detectByPattern_context(2) \<open>memory_ok (ds_context st)\<close> by metis
  moreover have "map fst (nf_patterns (ds_negativeFilter (after_call e st c))) = map fst (nf_patterns (ds_negativeFilter st))"
    by (rule detectReferences_cases [of e "ca_text c" "ca_lawId c" "ca_lawName c" "ca_article c" st])
       (auto simp: after_call_def case_prod_beta filterNegative_patterns)
  ultimately show ?thesis using assms by (simp add: detector_ok_def)
qed

lemma after_call_definitions: "\<exists>new. cs_definitions (ds_context (after_call e st c)) = cs_definitions (ds_context st) @ new"
  using after_call_context [of e st c] detectDefinitions_keeps detectByPattern_context(1)
  by (metis append_Nil2 enter_article_definitions)

interpretation detector: invariant_machine "after_call e" detector_ok "\<lambda>_. True" for e
  by unfold_locales (rule after_call_ok)

interpretation definitions: invariant_machine "after_call e"
  "\<lambda>st. \<exists>new. cs_definitions (ds_context st) = defs @ new" "\<lambda>_. True" for e defs
  by unfold_locales (metis after_call_definitions append_assoc)

lemma new_detector_ok: "detector_ok (new_detector llm up)"
  by (simp add: detector_ok_def new_detector_def memory_ok_def new_context_def map_wf_def)

section \<open>The loop on a pattern made at run time\<close>




section \<open>Properties\<close>

text \<open>C2: for references with positions, removing the contained ones returns some of the given references,
  with strictly increasing starts and strictly increasing ends (so that none contains another), and
  every given reference lies within one of them.\<close>

theorem dedup_exact:
  assumes "list_all (\<lambda>r. 0 \<le> pos r) rs"
  shows "set (deduplicateAndSort rs) \<subseteq> set rs \<and>
    sorted_wrt (\<lambda>u r. pos u < pos r \<and> ref_end u < ref_end r) (deduplicateAndSort rs) \<and>
    list_all (\<lambda>r. list_ex (\<lambda>u. pos u \<le> pos r \<and> ref_end r \<le> ref_end u) (deduplicateAndSort rs)) rs"
proof -
  have "\<forall>r \<in> set rs. 0 \<le> pos r" using assms by (simp add: list_all_iff)
  from dedup_result [OF this] show ?thesis by (auto simp: list_all_iff list_ex_iff contains_def apart_eq)
qed

theorem dedup_exact_witness:
  "deduplicateAndSort [at_pos 2 (found Internal [c_dai, c_kyuu, c_juu, c_jou] 1 ByPattern), at_pos 0 (found External [c_min, c_hou, c_dai, c_kyuu, c_juu, c_jou] 1 ByPattern)]
     = [at_pos 0 (found External [c_min, c_hou, c_dai, c_kyuu, c_juu, c_jou] 1 ByPattern)] \<and>
   list_all (\<lambda>r. list_ex (\<lambda>u. pos u \<le> pos r \<and> ref_end r \<le> ref_end u)
       [at_pos 0 (found External [c_min, c_hou, c_dai, c_kyuu, c_juu, c_jou] 1 ByPattern)])
     [at_pos 2 (found Internal [c_dai, c_kyuu, c_juu, c_jou] 1 ByPattern), at_pos 0 (found External [c_min, c_hou, c_dai, c_kyuu, c_juu, c_jou] 1 ByPattern)]"
proof -
  let ?rs = "[at_pos 2 (found Internal [c_dai, c_kyuu, c_juu, c_jou] 1 ByPattern), at_pos 0 (found External [c_min, c_hou, c_dai, c_kyuu, c_juu, c_jou] 1 ByPattern)]"
  have "list_all (\<lambda>r. 0 \<le> pos r) ?rs" by code_simp
  moreover have "deduplicateAndSort ?rs = [at_pos 0 (found External [c_min, c_hou, c_dai, c_kyuu, c_juu, c_jou] 1 ByPattern)]" by code_simp
  ultimately show ?thesis using dedup_exact [of ?rs] by metis
qed



text \<open>C8: whatever texts are processed, the memory of the detector stays bounded (five laws, five
  articles), no term is defined twice, each definition is stored under its term with a non-empty
  meaning that differs from it, and the patterns of the negative filter stay.\<close>

theorem detector_run_ok: "detector_ok (foldl (after_call e) (new_detector llm up) calls)"
  by (rule detector.run_inv) (simp_all add: new_detector_ok list_all_iff)

text \<open>a definition is never changed or forgotten: the definitions after any number of calls
  start with those before.\<close>

theorem definitions_permanent:
  "\<exists>new. cs_definitions (ds_context (foldl (after_call e) st calls)) = cs_definitions (ds_context st) @ new"
  by (rule definitions.run_inv) (simp_all add: list_all_iff)



text \<open>An abbreviation that starts with a bar makes a pattern with an empty alternative: the loop over its
  matches never ends, on any text.\<close>

lemma empty_alternative_diverges: "\<not> exec_loop (RAlt REps r) s 0 ms"
proof -
  have "search (length s) (RAlt REps r) 0 s = Some \<lparr>m_index = 0, m_text = [], m_caps = []\<rparr>"
    by (subst search.simps) simp
  then have "exec (RAlt REps r) s 0 = (Some \<lparr>m_index = 0, m_text = [], m_caps = []\<rparr>, 0)"
    by (simp add: exec_def m_end_def)
  then show ?thesis using exec_stuck by metis
qed

text \<open>The first pattern has no second group, so the law number that its loop reads is always missing and
  no reference of it is resolved by number.\<close>

lemma law_number_never_read:
  assumes "m \<in> set (exec_all pattern1_regex s)"
  shows "parseLawNumber e (cap m 2) = None"
proof -
  from assms obtain i where "search (length s) pattern1_regex i (drop i s) = Some m"
    using exec_from_search [of m pattern1_regex s 0] by (auto simp: exec_all_def)
  from search_rx [OF this] obtain s' t where "(t, m_caps m) \<in> set (rx (length s) pattern1_regex (s', []))" by blast
  moreover have "2 \<notin> set (groups pattern1_regex)" by (simp add: pattern1_regex_def)
  ultimately have "map_of (m_caps m) 2 = None" using rx_keeps by fastforce
  then show ?thesis by (simp add: parseLawNumber_def cap_def)
qed


end
