(* ===== verification/ErrorHandling.thy ===== *)
theory ErrorHandling
  imports DomainModel
begin

text \<open>
  \<^verbatim>\<open>src/shared/utils/error-handler.ts\<close>: the error class, the handler that formats, prints and rethrows, and
  the wrappers for promises, retries and timeouts. An action that may reject is its settled value, an
  element of \<open>js_error + 'a\<close>; the action that \<open>retry\<close> runs is a function of the number of earlier
  attempts. What the code prints, writes, runs and waits for is a list of effects, in order. The time
  stamp is an argument, and so is whether the log file can be written. The errors that the code itself
  makes carry no stack trace in the model. \<open>checkMemoryUsage\<close>, which prints a reading of the operating
  system, is left out.
\<close>

section \<open>Errors\<close>

text \<open>A \<open>LawFinderError\<close> with the JSON text of its details, or another \<open>Error\<close> with its name and stack.\<close>

datatype js_error =
    LawFinderError (err_message: jsstr) (err_code: jsstr) (err_status: nat) (err_details: "jsstr option")
      (err_stack: "jsstr option")
  | OtherError (err_name: jsstr) (err_message: jsstr) (err_stack: "jsstr option")

datatype ErrorCode = DB_CONNECTION_ERROR | DB_QUERY_ERROR | DB_TRANSACTION_ERROR | DETECTION_ERROR
  | INVALID_LAW_ID | INVALID_ARTICLE_NUMBER | FILE_NOT_FOUND | FILE_READ_ERROR | FILE_WRITE_ERROR
  | XML_PARSE_ERROR | API_ERROR | NEO4J_CONNECTION_ERROR | LLM_CONNECTION_ERROR | VALIDATION_ERROR
  | INVALID_INPUT | UNKNOWN_ERROR | TIMEOUT_ERROR | MEMORY_ERROR

fun code_str :: "ErrorCode \<Rightarrow> jsstr" where
  "code_str DB_CONNECTION_ERROR = (str ''DB_CONNECTION_ERROR'')"
| "code_str DB_QUERY_ERROR = (str ''DB_QUERY_ERROR'')"
| "code_str DB_TRANSACTION_ERROR = (str ''DB_TRANSACTION_ERROR'')"
| "code_str DETECTION_ERROR = (str ''DETECTION_ERROR'')"
| "code_str INVALID_LAW_ID = (str ''INVALID_LAW_ID'')"
| "code_str INVALID_ARTICLE_NUMBER = (str ''INVALID_ARTICLE_NUMBER'')"
| "code_str FILE_NOT_FOUND = (str ''FILE_NOT_FOUND'')"
| "code_str FILE_READ_ERROR = (str ''FILE_READ_ERROR'')"
| "code_str FILE_WRITE_ERROR = (str ''FILE_WRITE_ERROR'')"
| "code_str XML_PARSE_ERROR = (str ''XML_PARSE_ERROR'')"
| "code_str API_ERROR = (str ''API_ERROR'')"
| "code_str NEO4J_CONNECTION_ERROR = (str ''NEO4J_CONNECTION_ERROR'')"
| "code_str LLM_CONNECTION_ERROR = (str ''LLM_CONNECTION_ERROR'')"
| "code_str VALIDATION_ERROR = (str ''VALIDATION_ERROR'')"
| "code_str INVALID_INPUT = (str ''INVALID_INPUT'')"
| "code_str UNKNOWN_ERROR = (str ''UNKNOWN_ERROR'')"
| "code_str TIMEOUT_ERROR = (str ''TIMEOUT_ERROR'')"
| "code_str MEMORY_ERROR = (str ''MEMORY_ERROR'')"

datatype LogLevel = DEBUG | INFO | WARN | ERROR | FATAL

fun level_str :: "LogLevel \<Rightarrow> jsstr" where
  "level_str DEBUG = (str ''DEBUG'')"
| "level_str INFO = (str ''INFO'')"
| "level_str WARN = (str ''WARN'')"
| "level_str ERROR = (str ''ERROR'')"
| "level_str FATAL = (str ''FATAL'')"

section \<open>Effects\<close>

datatype console = ConsoleError | ConsoleWarn | ConsoleInfo | ConsoleLog

datatype effect = Print console jsstr | Append jsstr | Call nat | Sleep nat

record ErrorHandler =
  eh_logFile :: "jsstr option"
  eh_isProduction :: bool

record world =
  w_now :: jsstr
  w_fileOk :: bool

definition logToConsole :: "jsstr \<Rightarrow> effect list" where
  "logToConsole message =
     [Print (if str_includes message (str ''[FATAL]'') then ConsoleError
             else if str_includes message (str ''[ERROR]'') then ConsoleError
             else if str_includes message (str ''[WARN]'') then ConsoleWarn
             else if str_includes message (str ''[INFO]'') then ConsoleInfo
             else ConsoleLog) message]"

definition logToFile :: "world \<Rightarrow> ErrorHandler \<Rightarrow> jsstr \<Rightarrow> effect list" where
  "logToFile w h message =
     (if \<not> truthy (eh_logFile h) then []
      else if w_fileOk w then [Append (message @ [0xA])]
      else [Print ConsoleError [0x30ED, 0x30B0, 0x30D5, 0x30A1, 0x30A4, 0x30EB, 0x3078, h_no, 0x66F8, h_ki, 0x8FBC, h_mi, h_ni, 0x5931, 0x6557, 0x3A]])"

definition formatError :: "world \<Rightarrow> js_error \<Rightarrow> jsstr option \<Rightarrow> jsstr" where
  "formatError w error context =
     (str ''['') @ w_now w @ (str '']'') @
     (if truthy context then (str '' ['') @ the context @ (str '']'') else []) @
     (case error of
        LawFinderError message code status details stack \<Rightarrow>
          (str '' ['') @ code @ (str '']'') @ (str '' '') @ message @
          (case details of Some d \<Rightarrow> (str '' Details: '') @ d | None \<Rightarrow> [])
      | OtherError name message stack \<Rightarrow> (str '' ['') @ code_str UNKNOWN_ERROR @ (str '']'') @ (str '' '') @ message)"

definition handle_error :: "world \<Rightarrow> ErrorHandler \<Rightarrow> js_error \<Rightarrow> jsstr option \<Rightarrow> effect list" where
  "handle_error w h error context =
     (let errorInfo = formatError w error context in
      logToConsole errorInfo @
      (if eh_isProduction h \<and> truthy (eh_logFile h) then logToFile w h errorInfo else []) @
      (if \<not> eh_isProduction h \<and> truthy (err_stack error) then [Print ConsoleError (the (err_stack error))] else []))"

definition log_message :: "world \<Rightarrow> ErrorHandler \<Rightarrow> LogLevel \<Rightarrow> jsstr \<Rightarrow> jsstr option \<Rightarrow> effect list" where
  "log_message w h level message context =
     (let logMessage = (str ''['') @ w_now w @ (str ''] ['') @ level_str level @ (str '']'') @
        (if truthy context then (str '' ['') @ the context @ (str '']'') else []) @ (str '' '') @ message
      in logToConsole logMessage @
         (if eh_isProduction h \<and> truthy (eh_logFile h) then logToFile w h logMessage else []))"

section \<open>Wrappers\<close>

text \<open>What \<open>handleAndThrow\<close> throws.\<close>

fun rethrown :: "js_error \<Rightarrow> js_error" where
  "rethrown (LawFinderError m c s d st) = LawFinderError m c s d st"
| "rethrown (OtherError name m st) =
     LawFinderError m (code_str UNKNOWN_ERROR) 500 (Some ([0x7B, 0x22, 0x6F, 0x72, 0x69, 0x67, 0x69, 0x6E, 0x61, 0x6C, 0x45, 0x72, 0x72, 0x6F, 0x72, 0x22, 0x3A, 0x22] @ name @ [0x22, 0x7D])) None"

definition handleAndThrow :: "world \<Rightarrow> ErrorHandler \<Rightarrow> js_error \<Rightarrow> jsstr option \<Rightarrow> (js_error + 'a) \<times> effect list" where
  "handleAndThrow w h error context = (Inl (rethrown error), handle_error w h error context)"

definition handleAsync :: "world \<Rightarrow> ErrorHandler \<Rightarrow> js_error + 'a \<Rightarrow> jsstr option \<Rightarrow> 'a option \<times> effect list" where
  "handleAsync w h settled context =
     (case settled of Inr v \<Rightarrow> (Some v, []) | Inl e \<Rightarrow> (None, handle_error w h e context))"

function retry_from :: "world \<Rightarrow> ErrorHandler \<Rightarrow> (nat \<Rightarrow> js_error + 'a) \<Rightarrow> nat \<Rightarrow> nat \<Rightarrow> jsstr option \<Rightarrow>
    nat \<Rightarrow> js_error option \<Rightarrow> (js_error + 'a) \<times> effect list" where
  "retry_from w h fn retries delay context i lastError =
     (if i < retries then
        (case fn i of
           Inr v \<Rightarrow> (Inr v, [Call i])
         | Inl error \<Rightarrow>
             (case retry_from w h fn retries delay context (Suc i) (Some error) of (r, eff) \<Rightarrow>
               (r, Call i #
                 (if i < retries - 1
                  then log_message w h WARN ([0x30EA, 0x30C8, 0x30E9, 0x30A4, 0x20] @ nat_str (i + 1) @ (str ''/'') @ nat_str retries @ (str '': '') @ err_message error) context @
                    [Sleep (delay * (i + 1))]
                  else []) @ eff)))
      else handleAndThrow w h
             (case lastError of Some e \<Rightarrow> e | None \<Rightarrow> OtherError (str ''Error'') (str ''Unknown error in retry'') None) context)"
  by pat_completeness auto
termination
  by (relation "measure (\<lambda>(w, h, fn, retries, delay, context, i, e). retries - i)") auto

declare retry_from.simps [simp del]

definition retry :: "world \<Rightarrow> ErrorHandler \<Rightarrow> (nat \<Rightarrow> js_error + 'a) \<Rightarrow> nat \<Rightarrow> nat \<Rightarrow> jsstr option \<Rightarrow>
    (js_error + 'a) \<times> effect list" where
  "retry w h fn retries delay context = retry_from w h fn retries delay context 0 None"

definition handleErrorDecorator :: "world \<Rightarrow> ErrorHandler \<Rightarrow> jsstr option \<Rightarrow> jsstr \<Rightarrow> jsstr \<Rightarrow> js_error + 'a \<Rightarrow>
    (js_error + 'a) \<times> effect list" where
  "handleErrorDecorator w h context className propertyKey settled =
     (case settled of
        Inr v \<Rightarrow> (Inr v, [])
      | Inl e \<Rightarrow> (Inl e, handle_error w h e
          (if truthy context then context else Some (className @ (str ''.'') @ propertyKey))))"

text \<open>A promise settles at some time with some value, or never. The argument \<open>tie\<close> says which side of the
  race comes first when both settle at the same time.\<close>

definition withTimeout :: "world \<Rightarrow> ErrorHandler \<Rightarrow> (nat \<times> (js_error + 'a)) option \<Rightarrow> nat \<Rightarrow> jsstr \<Rightarrow> jsstr option \<Rightarrow> bool \<Rightarrow>
    (js_error + 'a) \<times> effect list" where
  "withTimeout w h promise timeoutMs detailsText context tie =
     (let timeout = Inl (LawFinderError ((str ''Operation timed out after '') @ nat_str timeoutMs @ (str ''ms''))
            (code_str TIMEOUT_ERROR) 408 (Some detailsText) None);
          settled = (case promise of
              None \<Rightarrow> timeout
            | Some (t, r) \<Rightarrow> if t < timeoutMs \<or> t = timeoutMs \<and> tie then r else timeout)
      in case settled of Inr v \<Rightarrow> (Inr v, []) | Inl e \<Rightarrow> handleAndThrow w h e context)"

section \<open>Facts\<close>

definition calls :: "effect list \<Rightarrow> nat list" where
  "calls effs = concat (map (\<lambda>x. case x of Call i \<Rightarrow> [i] | _ \<Rightarrow> []) effs)"

definition slept :: "effect list \<Rightarrow> nat" where
  "slept effs = sum_list (map (\<lambda>x. case x of Sleep n \<Rightarrow> n | _ \<Rightarrow> 0) effs)"

lemma calls_simps [simp]:
  "calls [] = []" "calls (Call i # es) = i # calls es" "calls (Sleep n # es) = calls es"
  "calls (Print c s # es) = calls es" "calls (Append s # es) = calls es" "calls (xs @ ys) = calls xs @ calls ys"
  by (simp_all add: calls_def)

lemma slept_simps [simp]:
  "slept [] = 0" "slept (Call i # es) = slept es" "slept (Sleep n # es) = n + slept es"
  "slept (Print c s # es) = slept es" "slept (Append s # es) = slept es" "slept (xs @ ys) = slept xs + slept ys"
  by (simp_all add: slept_def)

text \<open>Printing neither runs the action nor waits.\<close>

lemma print_effects [simp]:
  "calls (logToConsole m) = []" "slept (logToConsole m) = 0"
  "calls (logToFile w h m) = []" "slept (logToFile w h m) = 0"
  "calls (log_message w h l m c) = []" "slept (log_message w h l m c) = 0"
  "calls (handle_error w h e c) = []" "slept (handle_error w h e c) = 0"
  by (simp_all add: logToConsole_def logToFile_def log_message_def handle_error_def Let_def)

text \<open>How many attempts fail before the first success, or before the attempts run out.\<close>

definition failures :: "(nat \<Rightarrow> js_error + 'a) \<Rightarrow> nat \<Rightarrow> nat" where
  "failures fn n = length (takeWhile isl (map fn [0..<n]))"

lemma upt_takeWhile_fail:
  "i < n \<Longrightarrow> takeWhile isl (map fn [i..<n]) =
     (case fn i of Inr v \<Rightarrow> [] | Inl e \<Rightarrow> fn i # takeWhile isl (map fn [Suc i..<n]))"
  by (simp add: upt_conv_Cons split: sum.splits)

lemma retry_from_spec:
  assumes "i \<le> n" and "0 < i \<Longrightarrow> e = Some (projl (fn (i - 1)))" and "i = 0 \<Longrightarrow> e = None"
    and k: "k = i + length (takeWhile isl (map fn [i..<n]))"
  shows "fst (retry_from w h fn n d c i e) =
      (if k < n then Inr (projr (fn k))
       else Inl (rethrown (if n = 0 then OtherError (str ''Error'') (str ''Unknown error in retry'') None else projl (fn (n - 1))))) \<and>
    calls (snd (retry_from w h fn n d c i e)) = [i..<min n (Suc k)] \<and>
    slept (snd (retry_from w h fn n d c i e)) = d * (\<Sum>j = i..<min (n - 1) k. Suc j)"
  using assms
proof (induction "n - i" arbitrary: i e)
  case 0
  then have "i = n" by simp
  with 0 show ?case by (subst (1 2 3) retry_from.simps) (auto simp: handleAndThrow_def)
next
  case (Suc m)
  then have i: "i < n" by simp
  show ?case
  proof (cases "fn i")
    case (Inr v)
    with Suc.prems(4) i have "k = i" by (simp add: upt_takeWhile_fail)
    with i Inr show ?thesis by (subst (1 2 3) retry_from.simps) auto
  next
    case (Inl x)
    with Suc.prems(4) i have k: "k = Suc i + length (takeWhile isl (map fn [Suc i..<n]))"
      by (simp add: upt_takeWhile_fail)
    obtain r eff where rec: "retry_from w h fn n d c (Suc i) (Some x) = (r, eff)" by force
    have IH: "r = (if k < n then Inr (projr (fn k))
         else Inl (rethrown (if n = 0 then OtherError (str ''Error'') (str ''Unknown error in retry'') None else projl (fn (n - 1)))))"
      "calls eff = [Suc i..<min n (Suc k)]" "slept eff = d * (\<Sum>j = Suc i..<min (n - 1) k. Suc j)"
      using Suc.hyps(1) [of "Suc i" "Some x"] Suc.hyps(2) i Inl k rec by auto
    from k i have ik: "i < min n (Suc k)" "i < k" by auto
    then have "[i..<min n (Suc k)] = i # [Suc i..<min n (Suc k)]" by (simp add: upt_conv_Cons)
    moreover have "d * (\<Sum>j = i..<min (n - 1) k. Suc j) =
        (if i < n - 1 then d * Suc i else 0) + d * (\<Sum>j = Suc i..<min (n - 1) k. Suc j)"
      using ik by (auto simp: sum.atLeast_Suc_lessThan add_mult_distrib2)
    ultimately show ?thesis using IH i Inl rec by (subst (1 2 3) retry_from.simps) (auto simp: Let_def)
  qed
qed

section \<open>Properties\<close>

text \<open>C32: \<open>retry\<close> always settles. With \<open>k\<close> failures before the first success it returns the result of
  the attempt number \<open>k\<close>; when all attempts fail it throws the last error, as a \<open>LawFinderError\<close>.
  It runs the action exactly once for every attempt up to that point, in order, and waits
  \<open>delay\<close>, \<open>2 delay\<close>, \<open>3 delay\<close> and so on between them.\<close>

theorem retry_exact:
  "let k = failures fn retries; (r, eff) = retry w h fn retries delay context in
     r = (if k < retries then Inr (projr (fn k))
          else Inl (rethrown (if retries = 0 then OtherError (str ''Error'') (str ''Unknown error in retry'') None
                              else projl (fn (retries - 1))))) \<and>
     calls eff = [0..<min retries (Suc k)] \<and>
     slept eff = delay * (\<Sum>j < min (retries - 1) k. Suc j)"
  using retry_from_spec [of 0 retries None fn "failures fn retries" w h delay "context"]
  by (simp add: retry_def failures_def case_prod_beta lessThan_atLeast0 del: prod.case)

text \<open>An error that is handled is printed as a plain message: the tags that \<open>logToConsole\<close> looks for are those
  of the log levels, and a formatted error carries its code instead.\<close>

lemma handled_error_not_marked:
  "hd (handle_error \<lparr>w_now = (str ''2025''), w_fileOk = True\<rparr> \<lparr>eh_logFile = None, eh_isProduction = True\<rparr>
     (LawFinderError (str ''x'') (code_str DETECTION_ERROR) 500 None None) None) = Print ConsoleLog (str ''[2025] [DETECTION_ERROR] x'')"
  by code_simp


end
