(* ===== verification/Logging.thy ===== *)
theory Logging
  imports DomainModel "HOL-Library.Multiset"
begin

text \<open>
  \<^verbatim>\<open>src/lib/logger.ts\<close>: the logger with its level, its buffer and its timers. The record holds, beside the
  fields of the class, what has been written: the lines of the log file and of the console, each as the
  entry it prints. The time is an argument of every operation that reads it. The data of an entry is a
  JSON value.
\<close>

section \<open>The code\<close>

datatype LogLevel = DEBUG | INFO | WARN | ERROR | FATAL

fun level_num :: "LogLevel \<Rightarrow> nat" where
  "level_num DEBUG = 0"
| "level_num INFO = 1"
| "level_num WARN = 2"
| "level_num ERROR = 3"
| "level_num FATAL = 4"

record ErrorInfo =
  ei_name :: jsstr
  ei_message :: jsstr
  ei_stack :: "jsstr option"

record LogEntry =
  le_timestamp :: int
  le_level :: LogLevel
  le_message :: jsstr
  le_data :: "json option"
  le_error :: "ErrorInfo option"

record Logger =
  lg_logLevel :: LogLevel
  lg_logFile :: "jsstr option"
  lg_buffer :: "LogEntry list"
  lg_performanceMetrics :: "(jsstr, int list) jsmap"
  lg_file :: "LogEntry list"
  lg_console :: "LogEntry list"

definition bufferSize :: nat where "bufferSize = 100"

text \<open>\<open>upper\<close> stands for \<open>toUpperCase\<close>, a table of the host.\<close>

definition parseLogLevel :: "(jsstr \<Rightarrow> jsstr) \<Rightarrow> jsstr \<Rightarrow> LogLevel" where
  "parseLogLevel upper level =
     (let l = upper level in
      if l = (str ''DEBUG'') then DEBUG else if l = (str ''INFO'') then INFO else if l = (str ''WARN'') then WARN
      else if l = (str ''ERROR'') then ERROR else if l = (str ''FATAL'') then FATAL else INFO)"

definition new_Logger :: "(jsstr \<Rightarrow> jsstr) \<Rightarrow> jsstr option \<Rightarrow> jsstr option \<Rightarrow> Logger" where
  "new_Logger upper envLevel envFile =
     \<lparr>lg_logLevel = parseLogLevel upper (if truthy envLevel then the envLevel else (str ''INFO'')),
      lg_logFile = (if truthy envFile then envFile else None),
      lg_buffer = [], lg_performanceMetrics = [], lg_file = [], lg_console = []\<rparr>"

definition shouldLog :: "LogLevel \<Rightarrow> Logger \<Rightarrow> bool" where
  "shouldLog level l \<longleftrightarrow> level_num (lg_logLevel l) \<le> level_num level"

definition writeToFile :: "LogEntry \<Rightarrow> Logger \<Rightarrow> Logger" where
  "writeToFile entry l = (if truthy (lg_logFile l) then l\<lparr>lg_file := lg_file l @ [entry]\<rparr> else l)"

definition writeToConsole :: "LogEntry \<Rightarrow> Logger \<Rightarrow> Logger" where
  "writeToConsole entry l = l\<lparr>lg_console := lg_console l @ [entry]\<rparr>"

definition flush :: "Logger \<Rightarrow> Logger" where
  "flush l =
     (if lg_buffer l = [] then l
      else (if truthy (lg_logFile l) then l\<lparr>lg_file := lg_file l @ lg_buffer l\<rparr> else l)\<lparr>lg_buffer := []\<rparr>)"

definition log_entry :: "int \<Rightarrow> LogLevel \<Rightarrow> jsstr \<Rightarrow> json option \<Rightarrow> ErrorInfo option \<Rightarrow> Logger \<Rightarrow> Logger" where
  "log_entry now level message data error l =
     (if \<not> shouldLog level l then l
      else
        let entry = \<lparr>le_timestamp = now, le_level = level, le_message = message, le_data = data, le_error = error\<rparr>;
            l1 = l\<lparr>lg_buffer := lg_buffer l @ [entry]\<rparr>;
            l2 = (if bufferSize < length (lg_buffer l1) then flush l1 else l1)
        in writeToFile entry (writeToConsole entry l2))"

definition debug :: "int \<Rightarrow> jsstr \<Rightarrow> json option \<Rightarrow> Logger \<Rightarrow> Logger" where
  "debug now message data = log_entry now DEBUG message data None"

definition info :: "int \<Rightarrow> jsstr \<Rightarrow> json option \<Rightarrow> Logger \<Rightarrow> Logger" where
  "info now message data = log_entry now INFO message data None"

definition warn :: "int \<Rightarrow> jsstr \<Rightarrow> json option \<Rightarrow> Logger \<Rightarrow> Logger" where
  "warn now message data = log_entry now WARN message data None"

definition error_log :: "int \<Rightarrow> jsstr \<Rightarrow> ErrorInfo option \<Rightarrow> json option \<Rightarrow> Logger \<Rightarrow> Logger" where
  "error_log now message error data = log_entry now ERROR message data error"

definition fatal :: "int \<Rightarrow> jsstr \<Rightarrow> ErrorInfo option \<Rightarrow> json option \<Rightarrow> Logger \<Rightarrow> Logger" where
  "fatal now message error data l = flush (log_entry now FATAL message data error l)"

definition startTimer :: "int \<Rightarrow> jsstr \<Rightarrow> Logger \<Rightarrow> Logger" where
  "startTimer now label l =
     (let metrics = (case map_of (lg_performanceMetrics l) label of Some m \<Rightarrow> m | None \<Rightarrow> [])
      in l\<lparr>lg_performanceMetrics := AList.update label (metrics @ [now]) (lg_performanceMetrics l)\<rparr>)"

text \<open>The message is logged before an emptied list of timers is deleted.\<close>

definition endTimer :: "int \<Rightarrow> jsstr \<Rightarrow> Logger \<Rightarrow> int \<times> Logger" where
  "endTimer now label l =
     (case map_of (lg_performanceMetrics l) label of
        Some (m # ms) \<Rightarrow>
          (let startTime = last (m # ms); metrics = butlast (m # ms); duration = now - startTime;
               l1 = l\<lparr>lg_performanceMetrics := AList.update label metrics (lg_performanceMetrics l)\<rparr>;
               l2 = debug now ((str ''Performance: '') @ label) (Some (JObj [((str ''duration''), JStr (int_str duration @ (str ''ms'')))])) l1
           in (duration,
               if metrics = [] then l2\<lparr>lg_performanceMetrics := AList.delete label (lg_performanceMetrics l2)\<rparr> else l2))
      | _ \<Rightarrow> (0, warn now ((str ''Timer '') @ [0x27] @ label @ [0x27] @ (str '' was not started'')) None l))"

record LoggedReference =
  lr_type :: jsstr
  lr_confidence :: "rat option"

definition groupByType :: "LoggedReference list \<Rightarrow> (jsstr, nat) jsmap" where
  "groupByType references = tally lr_type references"

definition calculateAvgConfidence :: "LoggedReference list \<Rightarrow> rat" where
  "calculateAvgConfidence references =
     (if references = [] then 0
      else
        let total = foldl (\<lambda>acc r. acc + (case lr_confidence r of Some c \<Rightarrow> c | None \<Rightarrow> 0)) 0 references
        in of_int \<lfloor>total / of_nat (length references) * 100 + 1/2\<rfloor> / 100)"

definition logDetectionSummary :: "int \<Rightarrow> jsstr \<Rightarrow> LoggedReference list \<Rightarrow> int \<Rightarrow> Logger \<Rightarrow> Logger" where
  "logDetectionSummary now lawId references processingTime =
     info now (str ''Detection Summary'') (Some (JObj
       [((str ''lawId''), JStr lawId), ((str ''totalReferences''), JNum (of_nat (length references))),
        ((str ''byType''), JObj (map (\<lambda>(k, n). (k, JNum (of_nat n))) (groupByType references))),
        ((str ''processingTime''), JStr (int_str processingTime @ (str ''ms''))),
        ((str ''avgConfidence''), JNum (calculateAvgConfidence references))]))"

definition setLogLevel :: "(jsstr \<Rightarrow> jsstr) \<Rightarrow> LogLevel + jsstr \<Rightarrow> Logger \<Rightarrow> Logger" where
  "setLogLevel upper level l =
     l\<lparr>lg_logLevel := (case level of Inl n \<Rightarrow> n | Inr s \<Rightarrow> parseLogLevel upper s)\<rparr>"

definition getStatistics :: "Logger \<Rightarrow> nat \<times> (jsstr \<times> nat) list" where
  "getStatistics l =
     (length (lg_buffer l), map (\<lambda>(label, ts). (label, length ts)) (lg_performanceMetrics l))"

section \<open>What is written\<close>

datatype log_op = Debug jsstr "json option" | Info jsstr "json option" | Warn jsstr "json option"
  | Error jsstr "ErrorInfo option" "json option" | Fatal jsstr "ErrorInfo option" "json option"
  | Start jsstr | End jsstr | Summary jsstr "LoggedReference list" int | Flush | Level "LogLevel + jsstr"

fun log_step :: "(jsstr \<Rightarrow> jsstr) \<Rightarrow> Logger \<Rightarrow> int \<times> log_op \<Rightarrow> Logger" where
  "log_step up l (t, Debug m d) = debug t m d l"
| "log_step up l (t, Info m d) = info t m d l"
| "log_step up l (t, Warn m d) = warn t m d l"
| "log_step up l (t, Error m e d) = error_log t m e d l"
| "log_step up l (t, Fatal m e d) = fatal t m e d l"
| "log_step up l (t, Start lb) = startTimer t lb l"
| "log_step up l (t, End lb) = snd (endTimer t lb l)"
| "log_step up l (t, Summary i rs p) = logDetectionSummary t i rs p l"
| "log_step up l (t, Flush) = flush l"
| "log_step up l (t, Level x) = setLogLevel up x l"

text \<open>With a log file, each entry on the console is in the file once and, a second time, in the file or still
  in the buffer. The buffer is bounded and no list of timers is empty.\<close>

definition logger_ok :: "Logger \<Rightarrow> bool" where
  "logger_ok l \<longleftrightarrow> length (lg_buffer l) \<le> bufferSize \<and>
     list_all (\<lambda>(k, ts). ts \<noteq> []) (lg_performanceMetrics l) \<and> map_wf (lg_performanceMetrics l) \<and>
     (if truthy (lg_logFile l)
      then mset (lg_file l) + mset (lg_buffer l) = mset (lg_console l) + mset (lg_console l)
      else lg_file l = [])"

lemma flush_ok [inv_intros]: "logger_ok l \<Longrightarrow> logger_ok (flush l)"
  by (auto simp: logger_ok_def flush_def)

lemma flushed_file:
  "logger_ok l \<Longrightarrow> mset (lg_file (flush l)) =
     (if truthy (lg_logFile l) then mset (lg_console l) + mset (lg_console l) else {#})"
  by (auto simp: logger_ok_def flush_def)

lemma log_entry_ok [inv_intros]: "logger_ok l \<Longrightarrow> logger_ok (log_entry t lv m d e l)"
  by (auto simp: logger_ok_def log_entry_def flush_def writeToFile_def writeToConsole_def Let_def)

lemma log_entry_metrics [simp]: "lg_performanceMetrics (log_entry t lv m d e l) = lg_performanceMetrics l"
  by (simp add: log_entry_def flush_def writeToFile_def writeToConsole_def Let_def)

lemma set_alist_update: "p \<in> set (AList.update k v m) \<Longrightarrow> p = (k, v) \<or> p \<in> set m"
  by (induction m) (auto split: if_splits)

lemma startTimer_ok [inv_intros]: "logger_ok l \<Longrightarrow> logger_ok (startTimer t lb l)"
  using jsm.wf_put by (auto simp: logger_ok_def startTimer_def Let_def list_all_iff dest!: set_alist_update)

text \<open>Logging looks at the timers of no label, so the order of its effects and theirs does not matter.\<close>

lemma log_entry_other:
  "log_entry t lv m d e (l\<lparr>lg_performanceMetrics := pm\<rparr>) = (log_entry t lv m d e l)\<lparr>lg_performanceMetrics := pm\<rparr>"
  by (simp add: log_entry_def shouldLog_def flush_def writeToFile_def writeToConsole_def Let_def)

lemma logger_ok_metrics:
  "logger_ok l \<Longrightarrow> map_wf pm \<Longrightarrow> list_all (\<lambda>(k, ts). ts \<noteq> []) pm \<Longrightarrow> logger_ok (l\<lparr>lg_performanceMetrics := pm\<rparr>)"
  by (simp add: logger_ok_def)

lemma delete_update: "AList.delete k (AList.update k v m) = AList.delete k m"
  by (induction m) auto

lemma endTimer_ok [inv_intros]:
  assumes "logger_ok l"
  shows "logger_ok (snd (endTimer t lb l))"
proof (cases "map_of (lg_performanceMetrics l) lb")
  case None
  with assms show ?thesis by (simp add: endTimer_def warn_def log_entry_ok)
next
  case (Some ts)
  then have "(lb, ts) \<in> set (lg_performanceMetrics l)" by (rule map_of_SomeD)
  with assms have "ts \<noteq> []" by (auto simp: logger_ok_def list_all_iff)
  then obtain m ms where ts: "ts = m # ms" by (cases ts) auto
  have wf: "map_wf (lg_performanceMetrics l)" and ne: "list_all (\<lambda>(k, ts). ts \<noteq> []) (lg_performanceMetrics l)"
    using assms by (simp_all add: logger_ok_def)
  have "list_all (\<lambda>(k, ts). ts \<noteq> []) (AList.update lb x (lg_performanceMetrics l))" if "x \<noteq> []" for x
    using ne that by (auto simp: list_all_iff dest!: set_alist_update)
  moreover have "list_all (\<lambda>(k, ts). ts \<noteq> []) (AList.delete lb (lg_performanceMetrics l))"
    using ne by (auto simp: list_all_iff AList.delete_eq)
  ultimately show ?thesis using Some ts wf jsm.wf_put jsm.wf_del log_entry_ok [OF assms]
    by (auto simp: endTimer_def debug_def Let_def log_entry_other delete_update intro!: logger_ok_metrics)
qed

lemma log_step_ok: "logger_ok l \<Longrightarrow> logger_ok (log_step up l x)"
proof (cases x)
  case (Pair t op)
  assume "logger_ok l"
  then show ?thesis unfolding Pair
    by (cases op) (auto simp: debug_def info_def warn_def error_log_def fatal_def logDetectionSummary_def setLogLevel_def
      intro: inv_intros, simp add: logger_ok_def)
qed

interpretation logging: invariant_machine "log_step up" logger_ok "\<lambda>_. True" for up
  by unfold_locales (rule log_step_ok)

lemma new_Logger_ok: "logger_ok (new_Logger up lv f)"
  by (simp add: logger_ok_def new_Logger_def map_wf_def)

lemma log_step_file: "lg_logFile (log_step up l x) = lg_logFile l"
proof (cases x)
  case (Pair t op)
  show ?thesis unfolding Pair
    by (cases op) (auto simp: debug_def info_def warn_def error_log_def fatal_def logDetectionSummary_def setLogLevel_def
      startTimer_def endTimer_def log_entry_def flush_def writeToFile_def writeToConsole_def Let_def split: option.splits list.splits)
qed

section \<open>Properties\<close>

text \<open>after any sequence of operations and a final flush, a logger with a log file has written
  every entry that it printed on the console to the file, exactly twice each, and its buffer never
  holds more than a hundred entries.\<close>

theorem log_lines_twice:
  "let l = foldl (log_step up) (new_Logger up level file) ops in
     length (lg_buffer l) \<le> 100 \<and>
     mset (lg_file (flush l)) = (if truthy file then mset (lg_console l) + mset (lg_console l) else {#})"
proof -
  let ?l = "foldl (log_step up) (new_Logger up level file) ops"
  have ok: "logger_ok ?l" by (rule logging.run_inv) (simp_all add: new_Logger_ok list_all_iff)
  have "lg_logFile (foldl (log_step up) l ops) = lg_logFile l" for l
    by (induction ops arbitrary: l) (simp_all add: log_step_file)
  then have f: "truthy (lg_logFile ?l) = truthy file" by (auto simp: new_Logger_def truthy_def)
  from ok have "length (lg_buffer ?l) \<le> 100" by (simp add: logger_ok_def bufferSize_def)
  with flushed_file [OF ok] show ?thesis unfolding Let_def f by blast
qed

text \<open>ending a timer returns the time since its start and leaves all timers, those of the same
  label that were started before included, as they were.\<close>

theorem timer_roundtrip:
  assumes "logger_ok l"
  shows "fst (endTimer t2 label (startTimer t1 label l)) = t2 - t1 \<and>
    map_of (lg_performanceMetrics (snd (endTimer t2 label (startTimer t1 label l)))) = map_of (lg_performanceMetrics l)"
proof (cases "map_of (lg_performanceMetrics l) label")
  case None
  then show ?thesis
    by (auto simp: endTimer_def startTimer_def debug_def log_entry_other update_conv' delete_conv' Let_def)
next
  case (Some ts)
  then have "(label, ts) \<in> set (lg_performanceMetrics l)" by (rule map_of_SomeD)
  with assms have "ts \<noteq> []" by (auto simp: logger_ok_def list_all_iff)
  then obtain m ms where "ts = m # ms" by (cases ts) auto
  with Some show ?thesis
    by (auto simp: endTimer_def startTimer_def debug_def log_entry_other update_conv' Let_def butlast_append)
qed

theorem timer_roundtrip_witness:
  "fst (endTimer 130 (str ''scan'') (startTimer 100 (str ''scan'') (startTimer 40 (str ''scan'') (new_Logger id None None)))) = 30"
  using timer_roundtrip [of "startTimer 40 (str ''scan'') (new_Logger id None None)" 130 "(str ''scan'')" 100]
  by (simp add: startTimer_ok new_Logger_ok)


end
