(* ===== verification/Performance.thy ===== *)
theory Performance
  imports ErrorHandling
begin

text \<open>
  \<^verbatim>\<open>src/shared/utils/performance-monitor.ts\<close>: the monitor that times operations and keeps their measurements.
  What the code reads from the process is a record \<open>reading\<close> (clock, used heap, processor time), an
  argument of the operations; the text of \<open>Math.random()\<close> is an argument of \<open>start\<close>. A measured action
  may itself use the monitor: it is a function of the monitor's state. The report is modelled up to the
  JSON value it is printed from; the console table and the exit hook are not.
\<close>

section \<open>The code\<close>

record reading =
  rd_now :: int
  rd_heapUsed :: int
  rd_cpu :: "int \<times> int"

type_synonym metadata = "(jsstr, json) jsmap"

record PerformanceMetrics =
  mt_operation :: jsstr
  mt_startTime :: int
  mt_endTime :: int
  mt_duration :: int
  mt_memoryUsed :: int
  mt_cpuUsage :: "int \<times> int"
  mt_metadata :: "metadata option"

record PerformanceStats =
  st_operation :: jsstr
  st_count :: nat
  st_totalDuration :: int
  st_averageDuration :: rat
  st_minDuration :: int
  st_maxDuration :: int
  st_averageMemory :: rat

record Timer =
  tm_startTime :: int
  tm_startMemory :: int
  tm_startCpu :: "int \<times> int"

record PerformanceMonitor =
  pm_metrics :: "(jsstr, PerformanceMetrics list) jsmap"
  pm_activeTimers :: "(jsstr, Timer) jsmap"

definition timer_id :: "jsstr \<Rightarrow> int \<Rightarrow> jsstr \<Rightarrow> jsstr" where
  "timer_id operation now random = operation @ (str ''_'') @ int_str now @ (str ''_'') @ random"

definition start :: "reading \<Rightarrow> jsstr \<Rightarrow> jsstr \<Rightarrow> PerformanceMonitor \<Rightarrow> jsstr \<times> PerformanceMonitor" where
  "start rd random operation s =
     (let ident = timer_id operation (rd_now rd) random
      in (ident, s\<lparr>pm_activeTimers := AList.update ident
            \<lparr>tm_startTime = rd_now rd, tm_startMemory = rd_heapUsed rd, tm_startCpu = rd_cpu rd\<rparr> (pm_activeTimers s)\<rparr>))"

definition finish :: "reading \<Rightarrow> jsstr \<Rightarrow> metadata option \<Rightarrow> PerformanceMonitor \<Rightarrow>
    PerformanceMetrics option \<times> PerformanceMonitor" where
  "finish rd ident md s =
     (case map_of (pm_activeTimers s) ident of
        None \<Rightarrow> (None, s)
      | Some timer \<Rightarrow>
          (let operation = hd (split_char 0x5F ident);
               metrics = \<lparr>mt_operation = operation, mt_startTime = tm_startTime timer, mt_endTime = rd_now rd,
                 mt_duration = rd_now rd - tm_startTime timer,
                 mt_memoryUsed = rd_heapUsed rd - tm_startMemory timer,
                 mt_cpuUsage = (fst (rd_cpu rd) - fst (tm_startCpu timer), snd (rd_cpu rd) - snd (tm_startCpu timer)),
                 mt_metadata = md\<rparr>;
               old = (case map_of (pm_metrics s) operation of None \<Rightarrow> [] | Some ms \<Rightarrow> ms)
           in (Some metrics,
               s\<lparr>pm_metrics := AList.update operation (old @ [metrics]) (pm_metrics s),
                 pm_activeTimers := AList.delete ident (pm_activeTimers s)\<rparr>)))"

text \<open>\<open>measure\<close> and \<open>measureSync\<close> have the same body, up to waiting for the action.\<close>

fun success_data :: "metadata option \<Rightarrow> js_error + 'a \<Rightarrow> metadata" where
  "success_data md (Inr v) = AList.update (str ''success'') (JBool True) (case md of None \<Rightarrow> [] | Some m \<Rightarrow> m)"
| "success_data md (Inl e) = AList.update (str ''error'') (JStr (err_message e))
     (AList.update (str ''success'') (JBool False) (case md of None \<Rightarrow> [] | Some m \<Rightarrow> m))"

definition measure :: "reading \<Rightarrow> reading \<Rightarrow> jsstr \<Rightarrow> jsstr \<Rightarrow>
    (PerformanceMonitor \<Rightarrow> (js_error + 'a) \<times> PerformanceMonitor) \<Rightarrow> metadata option \<Rightarrow> PerformanceMonitor \<Rightarrow>
    (js_error + 'a) \<times> PerformanceMonitor" where
  "measure rd1 rd2 random operation fn md s =
     (case start rd1 random operation s of (ident, s1) \<Rightarrow>
      case fn s1 of (result, s2) \<Rightarrow> (result, snd (finish rd2 ident (Some (success_data md result)) s2)))"

definition measureSync :: "reading \<Rightarrow> reading \<Rightarrow> jsstr \<Rightarrow> jsstr \<Rightarrow>
    (PerformanceMonitor \<Rightarrow> (js_error + 'a) \<times> PerformanceMonitor) \<Rightarrow> metadata option \<Rightarrow> PerformanceMonitor \<Rightarrow>
    (js_error + 'a) \<times> PerformanceMonitor" where
  "measureSync = measure"

definition stats_of :: "jsstr \<Rightarrow> PerformanceMetrics list \<Rightarrow> PerformanceStats" where
  "stats_of op metrics =
     (let durations = map mt_duration metrics; memories = map mt_memoryUsed metrics
      in \<lparr>st_operation = op, st_count = length metrics, st_totalDuration = foldl (+) 0 durations,
          st_averageDuration = of_int (foldl (+) 0 durations) / of_nat (length durations),
          st_minDuration = foldl min (hd durations) durations, st_maxDuration = foldl max (hd durations) durations,
          st_averageMemory = of_int (foldl (+) 0 memories) / of_nat (length memories)\<rparr>)"

definition getStats :: "jsstr option \<Rightarrow> PerformanceMonitor \<Rightarrow> PerformanceStats list" where
  "getStats operation s =
     concat (map (\<lambda>op. case map_of (pm_metrics s) op of
         None \<Rightarrow> [] | Some [] \<Rightarrow> [] | Some metrics \<Rightarrow> [stats_of op metrics])
       (if truthy operation then [the operation] else map_keys (pm_metrics s)))"

record Report =
  rp_timestamp :: jsstr
  rp_stats :: "PerformanceStats list"
  rp_details :: "(jsstr \<times> PerformanceMetrics list) list"

text \<open>The report that \<open>saveReport\<close> writes, if any: of each operation at most the last hundred measurements.\<close>

definition saveReport :: "jsstr \<Rightarrow> PerformanceMonitor \<Rightarrow> Report option" where
  "saveReport timestamp s =
     (let stats = getStats None s in
      if stats = [] then None
      else Some \<lparr>rp_timestamp = timestamp, rp_stats = stats,
             rp_details = map (\<lambda>(op, metrics). (op, drop (length metrics - 100) metrics)) (pm_metrics s)\<rparr>)"

definition clear :: "jsstr option \<Rightarrow> PerformanceMonitor \<Rightarrow> PerformanceMonitor" where
  "clear operation s =
     s\<lparr>pm_metrics := (if truthy operation then AList.delete (the operation) (pm_metrics s) else [])\<rparr>"

definition cleanup :: "jsstr \<Rightarrow> PerformanceMonitor \<Rightarrow> Report option \<times> PerformanceMonitor" where
  "cleanup timestamp s = (saveReport timestamp s, clear None s)"

text \<open>The decorator measures a method under its own name, or under that of the class and the method.\<close>

definition measureDecorator :: "reading \<Rightarrow> reading \<Rightarrow> jsstr \<Rightarrow> jsstr option \<Rightarrow> jsstr \<Rightarrow> jsstr \<Rightarrow> nat \<Rightarrow>
    (PerformanceMonitor \<Rightarrow> (js_error + 'a) \<times> PerformanceMonitor) \<Rightarrow> PerformanceMonitor \<Rightarrow>
    (js_error + 'a) \<times> PerformanceMonitor" where
  "measureDecorator rd1 rd2 random operation className propertyKey args fn =
     measure rd1 rd2 random (if truthy operation then the operation else className @ (str ''.'') @ propertyKey) fn
       (Some [((str ''args''), JNum (of_nat args))])"

section \<open>Facts\<close>

lemma timer_operation:
  "0x5F \<notin> set op \<Longrightarrow> hd (split_char 0x5F (timer_id op now random)) = op"
  by (simp add: timer_id_def split_char_app)

lemma foldl_sum: "foldl (+) a xs = a + sum_list (xs :: int list)"
  by (induction xs arbitrary: a) auto

lemma foldl_min: "foldl min a xs = Min (set (a # xs))" for a :: int
proof (induction xs arbitrary: a)
  case (Cons x xs)
  then show ?case by (cases xs) (auto simp: min.assoc min.commute min.left_commute)
qed simp

lemma foldl_max: "foldl max a xs = Max (set (a # xs))" for a :: int
proof (induction xs arbitrary: a)
  case (Cons x xs)
  then show ?case by (cases xs) (auto simp: max.assoc max.commute max.left_commute)
qed simp

lemma hd_extreme:
  "xs \<noteq> [] \<Longrightarrow> foldl min (hd xs) xs = Min (set xs)" "xs \<noteq> [] \<Longrightarrow> foldl max (hd xs) xs = Max (set xs)" for xs :: "int list"
  by (simp_all add: foldl_min foldl_max insert_absorb)

lemma sum_list_ge: "\<forall>x \<in> set xs. a \<le> x \<Longrightarrow> int (length xs) * a \<le> sum_list xs" for a :: int
  by (induction xs) (auto simp: algebra_simps)

lemma sum_list_le: "\<forall>x \<in> set xs. x \<le> a \<Longrightarrow> sum_list xs \<le> int (length xs) * a" for a :: int
  by (induction xs) (auto simp: algebra_simps)

lemma average_bounds:
  assumes "xs \<noteq> []"
  shows "of_int (Min (set xs)) \<le> (of_int (sum_list xs) / of_nat (length xs) :: rat)"
    "(of_int (sum_list xs) / of_nat (length xs) :: rat) \<le> of_int (Max (set xs))"
proof -
  have pos: "0 < (of_nat (length xs) :: rat)" using assms by simp
  have "of_int (of_nat (length xs) * Min (set xs)) \<le> (of_int (sum_list xs) :: rat)"
    "(of_int (sum_list xs) :: rat) \<le> of_int (of_nat (length xs) * Max (set xs))"
    unfolding of_int_le_iff by (auto intro: sum_list_ge sum_list_le)
  with pos show "of_int (Min (set xs)) \<le> (of_int (sum_list xs) / of_nat (length xs) :: rat)"
    "(of_int (sum_list xs) / of_nat (length xs) :: rat) \<le> of_int (Max (set xs))"
    by (simp_all add: pos_le_divide_eq pos_divide_le_eq mult.commute)
qed

text \<open>A row of the statistics against the measurements it stands for.\<close>

definition stats_match :: "PerformanceMetrics list \<Rightarrow> PerformanceStats \<Rightarrow> bool" where
  "stats_match ms st \<longleftrightarrow>
       st_count st = length ms \<and> st_totalDuration st = sum_list (map mt_duration ms) \<and>
       st_minDuration st \<in> mt_duration ` set ms \<and> st_maxDuration st \<in> mt_duration ` set ms \<and>
       of_int (st_minDuration st) \<le> st_averageDuration st \<and> st_averageDuration st \<le> of_int (st_maxDuration st)"

lemma stats_of_match: "ms \<noteq> [] \<Longrightarrow> stats_match ms (stats_of op ms)"
  using average_bounds [of "map mt_duration ms"] Min_in [of "mt_duration ` set ms"] Max_in [of "mt_duration ` set ms"]
  by (simp add: stats_match_def stats_of_def Let_def foldl_sum hd_extreme)

lemma stats_of_operation [simp]: "st_operation (stats_of op ms) = op"
  by (simp add: stats_of_def Let_def)

definition op_stats :: "PerformanceMonitor \<Rightarrow> jsstr \<Rightarrow> PerformanceStats list" where
  "op_stats s op = (case map_of (pm_metrics s) op of None \<Rightarrow> [] | Some [] \<Rightarrow> [] | Some metrics \<Rightarrow> [stats_of op metrics])"

lemma getStats_all: "getStats None s = concat (map (op_stats s) (map_keys (pm_metrics s)))"
  unfolding getStats_def op_stats_def truthy_def by simp

lemma getStats_operations:
  "map st_operation (getStats None s) = filter (\<lambda>op. map_of (pm_metrics s) op \<notin> {None, Some []}) (map_keys (pm_metrics s))"
proof -
  have "map st_operation (concat (map (op_stats s) ks)) = filter (\<lambda>op. map_of (pm_metrics s) op \<notin> {None, Some []}) ks" for ks
    by (induction ks) (auto simp: op_stats_def split: option.splits list.splits)
  then show ?thesis by (simp only: getStats_all)
qed

lemma getStats_member:
  assumes "st \<in> set (getStats None s)"
  shows "\<exists>ms. map_of (pm_metrics s) (st_operation st) = Some ms \<and> stats_match ms st"
proof -
  from assms obtain op where "st \<in> set (op_stats s op)" unfolding getStats_all by auto
  then obtain a ms where "map_of (pm_metrics s) op = Some (a # ms)" "st = stats_of op (a # ms)"
    by (cases "map_of (pm_metrics s) op"; cases "the (map_of (pm_metrics s) op)") (auto simp: op_stats_def)
  then show ?thesis using stats_of_match [of "a # ms" op] by simp
qed

section \<open>Properties\<close>

text \<open>measuring an action returns or throws what the action does; if the name of the operation has
  no underscore and the action leaves the timer alone, exactly one measurement is added, to this
  operation, with the elapsed time, and the timer is gone.\<close>

theorem measure_exact:
  assumes "0x5F \<notin> set op" and "start rd1 random op s = (ident, s1)" and "fn s1 = (result, s2)"
    and "map_of (pm_activeTimers s2) ident = map_of (pm_activeTimers s1) ident"
    and "measure rd1 rd2 random op fn md s = (r, s')"
  shows "r = result \<and> map_of (pm_activeTimers s') = (map_of (pm_activeTimers s2))(ident := None) \<and>
    (\<exists>m. mt_operation m = op \<and> mt_duration m = rd_now rd2 - rd_now rd1 \<and> mt_metadata m = Some (success_data md result) \<and>
       map_of (pm_metrics s') = (map_of (pm_metrics s2))
         (op \<mapsto> (case map_of (pm_metrics s2) op of None \<Rightarrow> [] | Some ms \<Rightarrow> ms) @ [m]))"
proof -
  from assms(2) have ident: "ident = timer_id op (rd_now rd1) random"
    and t: "map_of (pm_activeTimers s1) ident = Some \<lparr>tm_startTime = rd_now rd1, tm_startMemory = rd_heapUsed rd1, tm_startCpu = rd_cpu rd1\<rparr>"
    by (auto simp: start_def Let_def update_conv')
  have "hd (split_char 0x5F ident) = op" unfolding ident using assms(1) by (rule timer_operation)
  moreover define m where "m = \<lparr>mt_operation = op, mt_startTime = rd_now rd1, mt_endTime = rd_now rd2,
      mt_duration = rd_now rd2 - rd_now rd1, mt_memoryUsed = rd_heapUsed rd2 - rd_heapUsed rd1,
      mt_cpuUsage = (fst (rd_cpu rd2) - fst (rd_cpu rd1), snd (rd_cpu rd2) - snd (rd_cpu rd1)),
      mt_metadata = Some (success_data md result)\<rparr>"
  ultimately show ?thesis using assms(2-5) t
    by (intro conjI exI [of _ m]) (auto simp: measure_def finish_def Let_def update_conv' delete_conv' m_def)
qed

definition idle_monitor :: PerformanceMonitor where
  "idle_monitor = \<lparr>pm_metrics = [], pm_activeTimers = []\<rparr>"

theorem measure_exact_witness:
  "fst (measure \<lparr>rd_now = 100, rd_heapUsed = 0, rd_cpu = (0, 0)\<rparr> \<lparr>rd_now = 130, rd_heapUsed = 8, rd_cpu = (2, 1)\<rparr>
       (str ''0.5'') (str ''scan'') (\<lambda>s. (Inr (7 :: nat), s)) None idle_monitor) = Inr 7"
proof -
  let ?a = "\<lparr>rd_now = 100, rd_heapUsed = 0, rd_cpu = (0, 0)\<rparr>" and ?b = "\<lparr>rd_now = 130, rd_heapUsed = 8, rd_cpu = (2, 1)\<rparr>"
  have "0x5F \<notin> set (str ''scan'')" by code_simp
  from measure_exact [OF this, of ?a "(str ''0.5'')" idle_monitor _ _ "\<lambda>s. (Inr (7 :: nat), s)" "Inr 7" _ ?b None]
  show ?thesis by (metis prod.collapse)
qed

text \<open>the statistics list the operations that have measurements, in the order of their first one; each
  counts its measurements, its total is their sum, and its average lies between its minimum and its
  maximum, both of which some measurement has.\<close>

theorem stats_exact:
  "map st_operation (getStats None s) = filter (\<lambda>op. map_of (pm_metrics s) op \<notin> {None, Some []}) (map_keys (pm_metrics s)) \<and>
   list_all (\<lambda>st. case map_of (pm_metrics s) (st_operation st) of None \<Rightarrow> False | Some ms \<Rightarrow>
       st_count st = length ms \<and> st_totalDuration st = sum_list (map mt_duration ms) \<and>
       st_minDuration st \<in> mt_duration ` set ms \<and> st_maxDuration st \<in> mt_duration ` set ms \<and>
       of_int (st_minDuration st) \<le> st_averageDuration st \<and> st_averageDuration st \<le> of_int (st_maxDuration st))
     (getStats None s)"
  using getStats_operations [of s] getStats_member [of _ s] by (fastforce simp: list_all_iff stats_match_def)

text \<open>The name of an operation is cut at its first underscore.\<close>

lemma operation_name_cut:
  "map_keys (pm_metrics (snd (measure \<lparr>rd_now = 1, rd_heapUsed = 0, rd_cpu = (0, 0)\<rparr> \<lparr>rd_now = 2, rd_heapUsed = 0, rd_cpu = (0, 0)\<rparr>
     (str ''0.5'') (str ''detect_all'') (\<lambda>s. (Inr (), s)) None idle_monitor))) = [(str ''detect'')]"
  by code_simp


end
