(* ===== verification/NumberSort.thy ===== *)
theory NumberSort
  imports ArticleNormalizer
begin

text \<open>
  \<^verbatim>\<open>src/utils/japanese-number-sort.ts\<close>: the order of items and articles with kanji numbers. A number such as
  "three of two" is read as 3 + 2/100, an exact rational here. \<open>sort\<close> with a comparator that is a
  consistent order is the stable sort; it is written as stable insertion, and the comparison of strings
  by the rules of the locale is an argument.
\<close>

section \<open>The code\<close>

definition kanjiNumbers :: "(jsstr \<times> rat) list" where
  "kanjiNumbers =
     [([c_ichi], 1), ([c_ni], 2), ([c_san], 3), ([c_yon], 4), ([c_go], 5),
      ([c_roku], 6), ([c_nana], 7), ([c_hachi], 8), ([c_kyuu], 9), ([c_juu], 10),
      ([c_juu, c_ichi], 11), ([c_juu, c_ni], 12), ([c_juu, c_san], 13), ([c_juu, c_yon], 14), ([c_juu, c_go], 15),
      ([c_juu, c_roku], 16), ([c_juu, c_nana], 17), ([c_juu, c_hachi], 18), ([c_juu, c_kyuu], 19), ([c_ni, c_juu], 20),
      ([c_ni, c_juu, c_ichi], 21), ([c_ni, c_juu, c_ni], 22), ([c_ni, c_juu, c_san], 23), ([c_ni, c_juu, c_yon], 24), ([c_ni, c_juu, c_go], 25),
      ([c_ni, c_juu, c_roku], 26), ([c_ni, c_juu, c_nana], 27), ([c_ni, c_juu, c_hachi], 28), ([c_ni, c_juu, c_kyuu], 29), ([c_san, c_juu], 30),
      ([c_san, c_juu, c_ichi], 31), ([c_san, c_juu, c_ni], 32), ([c_san, c_juu, c_san], 33), ([c_san, c_juu, c_yon], 34), ([c_san, c_juu, c_go], 35),
      ([c_san, c_juu, c_roku], 36), ([c_san, c_juu, c_nana], 37), ([c_san, c_juu, c_hachi], 38), ([c_san, c_juu, c_kyuu], 39), ([c_yon, c_juu], 40),
      ([c_yon, c_juu, c_ichi], 41), ([c_yon, c_juu, c_ni], 42), ([c_yon, c_juu, c_san], 43), ([c_yon, c_juu, c_yon], 44), ([c_yon, c_juu, c_go], 45),
      ([c_yon, c_juu, c_roku], 46), ([c_yon, c_juu, c_nana], 47), ([c_yon, c_juu, c_hachi], 48), ([c_yon, c_juu, c_kyuu], 49), ([c_go, c_juu], 50)]"

definition compound_regex :: regex where
  "compound_regex = (rseq [RBol, RGrp 1 (rplus (RCls True rng_eol)), RLit [h_no], RGrp 2 (rplus (RCls True rng_eol)), REol])"

text \<open>A match cuts the string at one of its \<open>h_no\<close> into two non-empty parts.\<close>

lemma compound_parts:
  assumes "rx_match compound_regex s = Some m"
  shows "\<exists>a b. s = a @ h_no # b \<and> a \<noteq> [] \<and> b \<noteq> [] \<and> cap m 1 = Some a \<and> cap m 2 = Some b"
proof -
  let ?D = "rplus (RCls True rng_eol)"
  from assms obtain s' t where s': "suffix s' s" "(t, m_caps m) \<in> set (rx (length s) compound_regex (s', []))"
    unfolding rx_match_def using search_rx by blast
  then have c: "(t, m_caps m) \<in> set (rx (length s) (RSeq RBol (RSeq (RGrp 1 ?D) (RSeq (RLit [h_no]) (RSeq (RGrp 2 ?D) REol)))) (s', []))"
    by (simp only: compound_regex_def rseq.simps)
  then have "length s' = length s" by (auto elim!: rx_seq_cases split: if_splits)
  with s'(1) have s: "s' = s" by (auto simp: suffix_def)
  from c obtain t0 d0 where "(t0, d0) \<in> set (rx (length s) RBol (s', []))"
    "(t, m_caps m) \<in> set (rx (length s) (RSeq (RGrp 1 ?D) (RSeq (RLit [h_no]) (RSeq (RGrp 2 ?D) REol))) (t0, d0))"
    by (rule rx_seq_cases)
  with s have "(t, m_caps m) \<in> set (rx (length s) (RSeq (RGrp 1 ?D) (RSeq (RLit [h_no]) (RSeq (RGrp 2 ?D) REol))) (s, []))"
    by (auto split: if_splits)
  then obtain t1 d1 where 1: "(t1, d1) \<in> set (rx (length s) (RGrp 1 ?D) (s, []))"
    "(t, m_caps m) \<in> set (rx (length s) (RSeq (RLit [h_no]) (RSeq (RGrp 2 ?D) REol)) (t1, d1))" by (rule rx_seq_cases)
  from 1(2) obtain t2 d2 where 2: "(t2, d2) \<in> set (rx (length s) (RLit [h_no]) (t1, d1))"
    "(t, m_caps m) \<in> set (rx (length s) (RSeq (RGrp 2 ?D) REol) (t2, d2))" by (rule rx_seq_cases)
  from 2(2) obtain t3 d3 where 3: "(t3, d3) \<in> set (rx (length s) (RGrp 2 ?D) (t2, d2))"
    "(t, m_caps m) \<in> set (rx (length s) REol (t3, d3))" by (rule rx_seq_cases)
  from 3(2) have t3: "t3 = []" "m_caps m = d3" by (auto split: if_splits)
  from rx_atom_caps(1) [OF 2(1)] have t2: "d2 = d1" "t1 = h_no # t2" by auto
  obtain a d1' where a: "d1 = (1, a) # d1'" "s = a @ t1" "1 \<le> length a"
    using 1(1) by (rule rx_grp_cases) (auto simp: min_rounds_def)
  from 3(1) obtain d3' where b3: "(t3, d3') \<in> set (rx (length s) ?D (t2, d2))" "d3 = (2, consumed t2 t3) # d3'"
    "t2 = consumed t2 t3 @ t3" "min_len ?D \<le> length (consumed t2 t3)" by (rule rx_grp_cases)
  define b where "b = consumed t2 t3"
  from b3 have b: "(t3, d3') \<in> set (rx (length s) ?D (t2, d2))" "d3 = (2, b) # d3'" "t2 = b @ t3" "1 \<le> length b"
    by (simp_all add: b_def min_rounds_def del: rx.simps)
  have "map_of d3' 1 = map_of d2 1" by (rule rx_keeps [OF _ b(1)]) simp
  then have "cap m 1 = Some a" "cap m 2 = Some b" using t3 b a t2 by (simp_all add: cap_def)
  with a b t2 t3 show ?thesis by (intro exI [of _ a] exI [of _ b]) auto
qed

function kanjiToNumber :: "jsstr \<Rightarrow> rat" where
  "kanjiToNumber kanji =
     (case rx_match compound_regex kanji of
        Some m \<Rightarrow> kanjiToNumber (grp m 1) + kanjiToNumber (grp m 2) * (1/100)
      | None \<Rightarrow> (case map_of kanjiNumbers kanji of Some n \<Rightarrow> n | None \<Rightarrow> 999))"
  by pat_completeness auto
termination
  by (relation "measure length") (auto dest!: compound_parts simp: grp_def)

declare kanjiToNumber.simps [simp del]

definition sortItemsByNumber :: "('a \<Rightarrow> jsstr) \<Rightarrow> 'a list \<Rightarrow> 'a list" where
  "sortItemsByNumber itemNumber items = sort_key (\<lambda>a. kanjiToNumber (itemNumber a)) items"

definition compareArticles :: "(jsstr \<Rightarrow> jsstr \<Rightarrow> int) \<Rightarrow> jsstr \<Rightarrow> jsstr \<Rightarrow> rat" where
  "compareArticles localeCompare a b =
     (case (parse_int a, parse_int b) of
        (Some numA, Some numB) \<Rightarrow> of_int (numA - numB)
      | _ \<Rightarrow>
          (let kanjiA = kanjiToNumber a; kanjiB = kanjiToNumber b in
           if kanjiA \<noteq> 999 \<or> kanjiB \<noteq> 999 then kanjiA - kanjiB
           else of_int (localeCompare a b)))"

fun insert_by :: "('a \<Rightarrow> 'a \<Rightarrow> rat) \<Rightarrow> 'a \<Rightarrow> 'a list \<Rightarrow> 'a list" where
  "insert_by cmp x [] = [x]"
| "insert_by cmp x (y # ys) = (if cmp x y \<le> 0 then x # y # ys else y # insert_by cmp x ys)"

definition sortArticlesByNumber :: "(jsstr \<Rightarrow> jsstr \<Rightarrow> int) \<Rightarrow> ('a \<Rightarrow> jsstr) \<Rightarrow> 'a list \<Rightarrow> 'a list" where
  "sortArticlesByNumber localeCompare articleNumber articles =
     foldr (insert_by (\<lambda>a b. compareArticles localeCompare (articleNumber a) (articleNumber b))) articles []"

section \<open>Facts\<close>

definition plain :: "jsstr \<Rightarrow> bool" where
  "plain s \<longleftrightarrow> s \<noteq> [] \<and> h_no \<notin> set s \<and> list_all (in_cls True rng_eol) s"

lemma dot_mem: "plain ds \<Longrightarrow> (rest, cs) \<in> set (rx n (rplus (RCls True rng_eol)) (ds @ rest, cs))"
  using rep_cls_mem [of True rng_eol ds 1 rest cs n]
  by (cases ds) (auto simp: plain_def)

lemma compound_match:
  assumes "plain a" "plain b"
  shows "\<exists>m. rx_match compound_regex (a @ h_no # b) = Some m \<and> cap m 1 = Some a \<and> cap m 2 = Some b"
proof -
  let ?s = "a @ h_no # b" and ?n = "length (a @ h_no # b)" and ?D = "rplus (RCls True rng_eol)"
  have "(h_no # b, [(1, a)]) \<in> set (rx ?n (RGrp 1 ?D) (?s, []))"
    using dot_mem [OF assms(1), of "h_no # b" "[]" ?n] by (force simp del: rx.simps(6))
  moreover have "([], [(2, b), (1, a)]) \<in> set (rx ?n (RGrp 2 ?D) (b, [(1, a)]))"
    using dot_mem [OF assms(2), of "[]" "[(1, a)]" ?n] by (force simp del: rx.simps(6))
  ultimately have "([], [(2, b), (1, a)]) \<in>
      set (rx ?n (RSeq (RGrp 1 ?D) (RSeq (RLit [h_no]) (RSeq (RGrp 2 ?D) REol))) (?s, []))"
    by (force simp: starts_with_def simp del: rx.simps(6,7))
  then have "rx_test compound_regex ?s"
    unfolding compound_regex_def rseq.simps rx_test_anchored by (metis length_pos_if_in_set less_numeral_extra(3) list.size(3))
  then obtain m where m: "rx_match compound_regex ?s = Some m" by (auto simp: rx_test_def)
  from compound_parts [OF m] obtain a' b' where ab: "?s = a' @ h_no # b'" "cap m 1 = Some a'" "cap m 2 = Some b'" by blast
  moreover have "a' = a \<and> b' = b"
    using ab(1) assms append_Cons_eq_iff [of h_no a b a' b'] by (auto simp: plain_def)
  ultimately show ?thesis using m by blast
qed

lemma kanji_char_plain: "in_cls False rng_kjall c \<Longrightarrow> c \<noteq> h_no \<and> in_cls True rng_eol c"
  by (auto simp: in_cls_def)

lemma kanji_plain: "0 < n \<Longrightarrow> n < 100000 \<Longrightarrow> plain (kanji_of_nat n)"
  unfolding plain_def list_all_iff using kanji_of_nat_nonempty [of n] kanji_of_nat_class [of _ n] kanji_char_plain by blast

text \<open>The table lists the kanji numerals of 1 to 50.\<close>

lemma kanjiNumbers_table: "kanjiNumbers = map (\<lambda>n. (kanji_of_nat n, of_nat n)) [1..<51]"
  by code_simp

lemma kanjiNumbers_of_nat: "0 < n \<Longrightarrow> n \<le> 50 \<Longrightarrow> map_of kanjiNumbers (kanji_of_nat n) = Some (of_nat n)"
  unfolding kanjiNumbers_table by (rule map_of_table) (auto simp: kanji_of_nat_inj)

lemma kanjiToNumber_simple: "0 < n \<Longrightarrow> n \<le> 50 \<Longrightarrow> kanjiToNumber (kanji_of_nat n) = of_nat n"
proof -
  assume n: "0 < n" "n \<le> 50"
  then have "rx_match compound_regex (kanji_of_nat n) = None"
    using compound_parts [of "kanji_of_nat n"] kanji_plain [of n] by (cases "rx_match compound_regex (kanji_of_nat n)") (auto simp: plain_def)
  then show ?thesis using n by (subst kanjiToNumber.simps) (simp add: kanjiNumbers_of_nat)
qed

text \<open>The number of an item: a main number, and a branch number unless it is 0.\<close>

definition item_text :: "nat \<times> nat \<Rightarrow> jsstr" where
  "item_text p = (case p of (n, m) \<Rightarrow> if m = 0 then kanji_of_nat n else kanji_of_nat n @ h_no # kanji_of_nat m)"

lemma kanjiToNumber_item:
  "0 < n \<Longrightarrow> n \<le> 50 \<Longrightarrow> m \<le> 50 \<Longrightarrow> kanjiToNumber (item_text (n, m)) = of_nat n + of_nat m * (1/100)"
proof (cases "m = 0")
  case True
  then show "0 < n \<Longrightarrow> n \<le> 50 \<Longrightarrow> ?thesis" by (simp add: item_text_def kanjiToNumber_simple)
next
  case False
  assume n: "0 < n" "n \<le> 50" "m \<le> 50"
  with False compound_match [of "kanji_of_nat n" "kanji_of_nat m"] obtain x where
    "rx_match compound_regex (kanji_of_nat n @ h_no # kanji_of_nat m) = Some x"
    "cap x 1 = Some (kanji_of_nat n)" "cap x 2 = Some (kanji_of_nat m)" by (auto simp: kanji_plain)
  with n False show ?thesis
    by (subst kanjiToNumber.simps) (simp add: item_text_def grp_def kanjiToNumber_simple)
qed

text \<open>Keys that order the elements in the same way sort in the same way.\<close>

lemma insort_key_cong:
  "(\<And>y. y \<in> set ys \<Longrightarrow> f x \<le> f y \<longleftrightarrow> g x \<le> g y) \<Longrightarrow> insort_key f x ys = insort_key g x ys"
  by (induction ys) auto

lemma sort_key_cong:
  "(\<And>x y. x \<in> set xs \<Longrightarrow> y \<in> set xs \<Longrightarrow> f x \<le> f y \<longleftrightarrow> g x \<le> g y) \<Longrightarrow> sort_key f xs = sort_key g xs"
proof (induction xs)
  case (Cons x xs)
  then have "sort_key f xs = sort_key g xs" by simp
  then show ?case using insort_key_cong [of "sort_key g xs" f x g] Cons.prems by simp
qed simp

lemma insert_by_insort:
  "(\<And>y. y \<in> set ys \<Longrightarrow> cmp x y \<le> 0 \<longleftrightarrow> f x \<le> f y) \<Longrightarrow> insert_by cmp x ys = insort_key f x ys"
  by (induction ys) auto

lemma insert_by_sort:
  "(\<And>x y. x \<in> set xs \<Longrightarrow> y \<in> set xs \<Longrightarrow> cmp x y \<le> 0 \<longleftrightarrow> f x \<le> f y) \<Longrightarrow> foldr (insert_by cmp) xs [] = sort_key f xs"
proof (induction xs)
  case (Cons x xs)
  then have "foldr (insert_by cmp) xs [] = sort_key f xs" by simp
  then show ?case using insert_by_insort [of "sort_key f xs" cmp x f] Cons.prems by simp
qed simp

section \<open>Properties\<close>

text \<open>items with main numbers 1 to 50 and branch numbers up to 50 are sorted by main number
  first and branch number second, an item without a branch number before those with one; articles
  with Arabic numbers are sorted by their value. Items and articles with equal numbers keep their order.\<close>

theorem sort_items_exact:
  assumes "list_all (\<lambda>x. 0 < fst (num x) \<and> fst (num x) \<le> 50 \<and> snd (num x) \<le> 50) items"
    and "list_all (\<lambda>a. parse_int (art a) \<noteq> None) articles"
  shows "sortItemsByNumber (\<lambda>x. item_text (num x)) items = sort_key (\<lambda>x. 100 * fst (num x) + snd (num x)) items \<and>
    sortArticlesByNumber lc art articles = sort_key (\<lambda>a. the (parse_int (art a))) articles"
proof
  have v: "kanjiToNumber (item_text (num x)) = of_nat (100 * fst (num x) + snd (num x)) / 100" if "x \<in> set items" for x
    using that assms(1) kanjiToNumber_item [of "fst (num x)" "snd (num x)"] by (simp add: list_all_iff add_divide_distrib)
  show "sortItemsByNumber (\<lambda>x. item_text (num x)) items = sort_key (\<lambda>x. 100 * fst (num x) + snd (num x)) items"
    unfolding sortItemsByNumber_def by (rule sort_key_cong) (simp add: v divide_le_cancel del: of_nat_add of_nat_mult)
  show "sortArticlesByNumber lc art articles = sort_key (\<lambda>a. the (parse_int (art a))) articles"
    unfolding sortArticlesByNumber_def using assms(2)
    by (intro insert_by_sort) (auto simp: compareArticles_def list_all_iff split: option.splits)
qed

theorem sort_items_exact_witness:
  "map item_text [(3, 0), (3, 2), (4, 0)] = [[c_san], [c_san, h_no, c_ni], [c_yon]] \<and>
   sortItemsByNumber item_text [(4, 0), (3, 2), (3, 0)] = [(3, 0), (3, 2), (4, 0)] \<and>
   sortArticlesByNumber (\<lambda>_ _. 0) id [(str ''10''), (str ''9'')] = [(str ''9''), (str ''10'')]"
proof -
  have a: "list_all (\<lambda>x. 0 < fst (id x) \<and> fst (id x) \<le> 50 \<and> snd (id x) \<le> 50) [(4, 0), (3, 2), (3 :: nat, 0 :: nat)]" by simp
  have b: "list_all (\<lambda>a. parse_int (id a) \<noteq> None) [(str ''10''), (str ''9'')]" by code_simp
  have "sort_key (\<lambda>x. 100 * fst (id x) + snd (id x)) [(4, 0), (3, 2), (3, 0)] = [(3, 0), (3, 2), (4 :: nat, 0 :: nat)]" by simp
  moreover have "sort_key (\<lambda>a. the (parse_int (id a))) [(str ''10''), (str ''9'')] = [(str ''9''), (str ''10'')]" by code_simp
  moreover have "map item_text [(3, 0), (3, 2), (4, 0)] = [[c_san], [c_san, h_no, c_ni], [c_yon]]" by code_simp
  ultimately show ?thesis using sort_items_exact [OF a b, of "\<lambda>_ _. 0"] by (simp add: id_def)
qed


end
