(* ===== verification/AmbiguousResolver.thy ===== *)
theory AmbiguousResolver
  imports JSRegex
begin

text \<open>
  \<^verbatim>\<open>src/domain/services/AmbiguousReferenceResolver.ts\<close>: delegations to cabinet and ministerial orders, which
  name no article. The database is an argument: the orders, their latest texts, and the first law with
  (or containing) a title; what the method creates in it is its result. The call of the language model
  and the printed percentage of the report are not modelled.
\<close>

section \<open>The catalogue\<close>

text \<open>A regular expression literal with its global flag: \<open>matchAll\<close> throws without it.\<close>

record js_regexp =
  re_body :: regex
  re_global :: bool

datatype type_error = TypeError

definition match_all :: "js_regexp \<Rightarrow> jsstr \<Rightarrow> type_error + rmatch list" where
  "match_all r s = (if re_global r then Inr (exec_all (re_body r) s) else Inl TypeError)"

abbreviation plain_re :: "regex \<Rightarrow> js_regexp" where
  "plain_re r \<equiv> \<lparr>re_body = r, re_global = False\<rparr>"

record AmbiguousPattern =
  ap_type :: jsstr
  ap_forwardPattern :: js_regexp
  ap_reversePattern :: "js_regexp option"
  ap_requiresLLM :: bool
  ap_confidence :: rat

abbreviation ambiguous :: "jsstr \<Rightarrow> regex \<Rightarrow> regex option \<Rightarrow> bool \<Rightarrow> rat \<Rightarrow> AmbiguousPattern" where
  "ambiguous t f r l c \<equiv> \<lparr>ap_type = t, ap_forwardPattern = plain_re f, ap_reversePattern = map_option plain_re r,
     ap_requiresLLM = l, ap_confidence = c\<rparr>"

definition ambiguousPatterns :: "AmbiguousPattern list" where
  "ambiguousPatterns =
     [ambiguous [0x653F, c_rei_order, 0x59D4, 0x4EFB] ((rseq [RLit [0x653F, c_rei_order, h_de], ralt [RLit [c_tei, h_me, h_ru], RLit [c_ki, c_tei, h_su, h_ru], RLit [0x59D4, 0x4EFB, h_su, h_ru]]])) (Some ((rseq [RGrp 1 (rseq [rplus (RCls True rng_eol), RLit [c_hou]]), ralt [RLit [h_no, c_ki, c_tei, h_ni, 0x57FA, 0x3065, h_ki], RLit [h_ni, 0x57FA, 0x3065, h_ku], RLit [h_ni, h_yo, h_ri]]]))) True (6/10),
      ambiguous [0x7701, c_rei_order, 0x59D4, 0x4EFB] ((rseq [ropt (RLit [0x4E3B, 0x52D9]), RLit [0x7701, c_rei_order, h_de], ralt [RLit [c_tei, h_me, h_ru], RLit [c_ki, c_tei, h_su, h_ru]]])) (Some ((rseq [RGrp 1 (rseq [rplus (RCls True rng_eol), RLit [c_hou]]), ropt (rseq [RLit [c_dai], rplus (RCls False rng_digit), RLit [c_jou]]), rstar (RCls True rng_eol), RLit [0x7701, c_rei_order]]))) True (5/10),
      ambiguous [c_ki, c_soku, 0x59D4, 0x4EFB] ((rseq [ralt [RLit [0x5185, 0x95A3, 0x5E9C, c_rei_order], RLit [c_ki, c_soku]], RLit [h_de], ralt [RLit [c_tei, h_me, h_ru], RLit [c_ki, c_tei, h_su, h_ru]]])) (Some ((rseq [RGrp 1 (rseq [rplus (RCls True rng_eol), RLit [c_hou]]), rstar (RCls True rng_eol), ralt [RLit [c_ki, c_soku], RLit [0x5185, 0x95A3, 0x5E9C, c_rei_order]]]))) True (5/10),
      ambiguous [0x544A, 0x793A, 0x59D4, 0x4EFB] ((rseq [RLit [0x544A, 0x793A, h_de], ralt [RLit [c_tei, h_me, h_ru], RLit [c_ki, c_tei, h_su, h_ru]]])) (Some ((rseq [RGrp 1 (rplus (RCls True rng_eol)), RLit [h_ni, 0x95A2, h_su, h_ru, 0x544A, 0x793A]]))) True (4/10),
      ambiguous [c_betsu, c_hyou, 0x53C2, 0x7167] ((rseq [RLit [c_betsu, c_hyou], ropt (rseq [RLit [c_dai], rplus (RCls False rng_kj10)]), ralt [RLit [h_ni, 0x63B2, h_ge, h_ru], RLit [h_ni, h_yo, h_ru]]])) None False (9/10),
      ambiguous [c_fu, c_soku, 0x53C2, 0x7167] ((rseq [RLit [c_fu, c_soku], ropt (rseq [RLit [c_dai], rplus (RCls False rng_kj10), RLit [c_jou]])])) None False (9/10),
      ambiguous [c_jou, 0x7D04, 0x53C2, 0x7167] ((rseq [RLit [c_jou, 0x7D04], ropt (rseq [RLit [c_dai], rplus (RCls False rng_kj10), RLit [c_jou]])])) (Some ((rseq [RGrp 1 (rplus (RCls True rng_eol)), ralt [RLit [c_jou, 0x7D04], RLit [0x5354, c_tei], RLit [0x8B70, c_tei, 0x66F8]]]))) True (5/10),
      ambiguous [0x5354, c_tei, 0x53C2, 0x7167] ((rseq [ralt [RLit [0x5354, c_tei], RLit [0x53D6, 0x6C7A, h_me]], ralt [RLit [h_ni, h_yo, h_ri], RLit [h_ni, 0x57FA, 0x3065, h_ki]]])) (Some ((rseq [RGrp 1 (rplus (RCls True rng_eol)), ralt [RLit [0x5354, c_tei], RLit [0x53D6, 0x6C7A, h_me]]]))) True (4/10),
      ambiguous [0x6700, 0x9AD8, 0x88C1, 0x5224, 0x6240, c_ki, c_soku] ((rseq [RLit [0x6700, 0x9AD8, 0x88C1, 0x5224, 0x6240, c_ki, c_soku, h_de], ralt [RLit [c_tei, h_me, h_ru], RLit [c_ki, c_tei, h_su, h_ru]]])) (Some ((rseq [RLit [0x6700, 0x9AD8, 0x88C1, 0x5224, 0x6240], rstar (RCls True rng_eol), RLit [c_ki, c_soku]]))) True (6/10),
      ambiguous [0x4EBA, 0x4E8B, 0x9662, c_ki, c_soku] ((rseq [RLit [0x4EBA, 0x4E8B, 0x9662, c_ki, c_soku, h_de], ralt [RLit [c_tei, h_me, h_ru], RLit [c_ki, c_tei, h_su, h_ru]]])) (Some ((RLit [0x4EBA, 0x4E8B, 0x9662, c_ki, c_soku]))) True (6/10),
      ambiguous [0x5730, 0x65B9, 0x516C, 0x5171, 0x56E3, 0x4F53, c_jou, 0x4F8B] ((rseq [ralt [RLit [0x90FD, 0x9053, 0x5E9C, 0x770C], RLit [0x5E02, 0x753A, 0x6751], RLit [0x5730, 0x65B9, 0x516C, 0x5171, 0x56E3, 0x4F53]], RLit [h_no, c_jou, 0x4F8B, h_de], ralt [RLit [c_tei, h_me, h_ru], RLit [c_ki, c_tei, h_su, h_ru]]])) (Some ((rseq [RGrp 1 (rplus (RCls True rng_eol)), RLit [c_jou, 0x4F8B]]))) True (3/10),
      ambiguous [0x57FA, c_jun, 0x30FB, 0x6307, 0x91DD, 0x53C2, 0x7167] ((rseq [ralt [RLit [0x57FA, c_jun], RLit [0x6307, 0x91DD], RLit [0x30AC, 0x30A4, 0x30C9, 0x30E9, 0x30A4, 0x30F3]], ralt [RLit [h_ni, h_yo, h_ri], RLit [h_ni, 0x5F93, h_i]]])) (Some ((rseq [RGrp 1 (rplus (RCls True rng_eol)), ralt [RLit [0x57FA, c_jun], RLit [0x6307, 0x91DD], RLit [0x30AC, 0x30A4, 0x30C9, 0x30E9, 0x30A4, 0x30F3]]]))) True (3/10),
      ambiguous [c_zen, c_hou, 0x53C2, 0x7167] ((rseq [ralt [RLit [c_kyu_old], rseq [RLit [c_kai, c_sei, c_zen], ropt (RLit [h_no])]], RGrp 1 (rseq [rplus (RCls True rng_eol), RLit [c_hou]])])) None True (7/10),
      ambiguous [0x4ED6, c_hou, c_jun, c_you] ((rseq [RGrp 1 (rseq [rplus (RCls True rng_eol), RLit [c_hou]]), rstar (RCls True rng_eol), RLit [h_no, c_ki, c_tei, h_wo, c_jun, c_you, h_su, h_ru]])) None False (8/10)]"

section \<open>Operations\<close>

record AmbiguousRef =
  ar_lawId :: jsstr
  ar_type :: jsstr
  ar_text :: jsstr
  ar_requiresLLM :: bool
  ar_confidence :: rat
  ar_detectionMethod :: jsstr

text \<open>The loop over the patterns: the references so far, or the exception.\<close>

fun detect_patterns :: "jsstr \<Rightarrow> jsstr \<Rightarrow> AmbiguousPattern list \<Rightarrow> AmbiguousRef list \<Rightarrow> type_error + AmbiguousRef list" where
  "detect_patterns lawId content [] refs = Inr refs"
| "detect_patterns lawId content (p # ps) refs =
     (if rx_test (re_body (ap_forwardPattern p)) content then
        (case match_all (ap_forwardPattern p) content of
           Inl e \<Rightarrow> Inl e
         | Inr ms \<Rightarrow> detect_patterns lawId content ps (refs @ map (\<lambda>m.
             \<lparr>ar_lawId = lawId, ar_type = ap_type p, ar_text = m_text m, ar_requiresLLM = ap_requiresLLM p,
              ar_confidence = ap_confidence p, ar_detectionMethod = (str ''forward'')\<rparr>) ms))
      else detect_patterns lawId content ps refs)"

definition detectAmbiguousReferences :: "jsstr \<Rightarrow> jsstr \<Rightarrow> type_error + AmbiguousRef list" where
  "detectAmbiguousReferences lawId content = detect_patterns lawId content ambiguousPatterns []"

record LawMaster =
  lm_id :: jsstr
  lm_title :: jsstr

record database =
  db_lawMaster :: "LawMaster list"
  db_findByTitle :: "jsstr \<Rightarrow> LawMaster option"
  db_latestXml :: "jsstr \<Rightarrow> jsstr option"

definition title_patterns :: "regex list" where
  "title_patterns =
     [(rseq [RBol, RGrp 1 (rseq [rplus (RCls True rng_eol), RLit [c_hou]]), RLit [0x65BD, 0x884C, c_rei_order], REol]), (rseq [RBol, RGrp 1 (rseq [rplus (RCls True rng_eol), RLit [c_hou]]), RLit [0x65BD, 0x884C, c_ki, c_soku], REol]), (rseq [RBol, RGrp 1 (rseq [rplus (RCls True rng_eol), RLit [c_hou]]), RLit [h_no, 0x65BD, 0x884C, h_ni, 0x95A2, h_su, h_ru], ralt [RLit [0x653F, c_rei_order], RLit [0x7701, c_rei_order]], REol]),
      (rseq [RBol, RGrp 1 (rplus (RCls True rng_eol)), RLit [h_ni, 0x95A2, h_su, h_ru], ralt [RLit [0x653F, c_rei_order], RLit [0x7701, c_rei_order], RLit [c_ki, c_soku]], REol]), (rseq [RBol, RGrp 1 (rseq [rplus (RCls True rng_eol), RLit [c_hou]]), RLit [c_dai], rplus (RCls True rng_eol), RLit [c_jou], rstar (RCls True rng_eol), RLit [h_no], ralt [RLit [0x653F, c_rei_order], RLit [0x7701, c_rei_order]], REol])]"

fun infer_parent :: "database \<Rightarrow> jsstr \<Rightarrow> regex list \<Rightarrow> LawMaster option" where
  "infer_parent db title [] = None"
| "infer_parent db title (p # ps) =
     (case rx_match p title of
        None \<Rightarrow> infer_parent db title ps
      | Some m \<Rightarrow> (case db_findByTitle db (grp m 1) of
          Some parentLaw \<Rightarrow> Some parentLaw
        | None \<Rightarrow> infer_parent db title ps))"

definition inferParentLawFromTitle :: "database \<Rightarrow> jsstr \<Rightarrow> LawMaster option" where
  "inferParentLawFromTitle db title = infer_parent db title title_patterns"

text \<open>The spread of a \<open>Set\<close>: the first occurrences, in order.\<close>

definition unique_first :: "'a list \<Rightarrow> 'a list" where
  "unique_first xs = rev (remdups (rev xs))"

definition findBasisArticles :: "jsstr \<Rightarrow> jsstr list" where
  "findBasisArticles xmlContent =
     unique_first (concat (map (\<lambda>p. concat (map (\<lambda>m.
         if truthy (cap m 2) then [[c_dai] @ grp m 2 @ [c_jou]] else []) (exec_all p xmlContent)))
       [(rseq [RGrp 1 (rseq [rplus (RCls True rng_eol), RLit [c_hou]]), RLit [c_dai], RGrp 2 (rplus (RCls False rng_kjd10000)), RLit [c_jou]]), (rseq [RGrp 1 (rseq [rplus (RCls True rng_eol), RLit [c_hou]]), rstar (RCls True rng_eol), RLit [h_no, c_ki, c_tei, h_ni, 0x57FA, 0x3065, h_ki]]), (rseq [RGrp 1 (rseq [rplus (RCls True rng_eol), RLit [c_hou]]), rstar (RCls True rng_eol), RLit [h_ni, h_yo, h_ri]])]))"

record ReverseReference =
  rv_sourceLawId :: jsstr
  rv_sourceArticle :: jsstr
  rv_targetLawId :: jsstr
  rv_targetArticle :: jsstr
  rv_referenceType :: jsstr
  rv_referenceText :: jsstr
  rv_confidence :: rat
  rv_detectionMethod :: jsstr
  rv_requiresLLMCheck :: bool
  rv_isAmbiguous :: bool
  rv_metadata :: "(jsstr \<times> jsstr) list"

definition createReverseReference :: "jsstr \<Rightarrow> jsstr \<Rightarrow> jsstr \<Rightarrow> jsstr \<Rightarrow> ReverseReference" where
  "createReverseReference parentLawId decreeLawId article decreeTitle =
     \<lparr>rv_sourceLawId = parentLawId, rv_sourceArticle = (if article = [] then [0x5168, 0x4F53] else article),
      rv_targetLawId = decreeLawId, rv_targetArticle = [0x5168, 0x4F53], rv_referenceType = (str ''delegation''),
      rv_referenceText = decreeTitle @ [0x3078, h_no, 0x59D4, 0x4EFB], rv_confidence = 8/10, rv_detectionMethod = (str ''reverse''),
      rv_requiresLLMCheck = True, rv_isAmbiguous = True,
      rv_metadata = [((str ''method''), (str ''title_inference'')), ((str ''decreeTitle''), decreeTitle)]\<rparr>"

definition is_decree :: "LawMaster \<Rightarrow> bool" where
  "is_decree law \<longleftrightarrow> str_includes (lm_id law) (str ''CO'') \<or> str_includes (lm_id law) (str ''M'') \<or>
     list_ex (str_includes (lm_title law)) [[0x653F, c_rei_order], [0x65BD, 0x884C, c_rei_order], [0x65BD, 0x884C, c_ki, c_soku], [0x7701, c_rei_order]]"

definition decree_refs :: "database \<Rightarrow> LawMaster \<Rightarrow> ReverseReference list" where
  "decree_refs db decree =
     (case inferParentLawFromTitle db (lm_title decree) of
        None \<Rightarrow> []
      | Some parentLaw \<Rightarrow> (case db_latestXml db (lm_id decree) of
          None \<Rightarrow> []
        | Some xml \<Rightarrow> map (\<lambda>article. createReverseReference (lm_id parentLaw) (lm_id decree) article (lm_title decree))
            (findBasisArticles xml)))"

definition resolveDecreeReferences :: "database \<Rightarrow> ReverseReference list" where
  "resolveDecreeReferences db = concat (map (decree_refs db) (filter is_decree (db_lawMaster db)))"

text \<open>The report on the stored references. The rate is the number that the source prints with two decimals;
  \<open>None\<close> is the \<open>NaN\<close> of an empty table.\<close>

record AmbiguityReport =
  ab_totalReferences :: nat
  ab_ambiguousReferences :: nat
  ab_requiresLLMCheck :: nat
  ab_byType :: "(jsstr, nat) jsmap"
  ab_byDetectionMethod :: "(jsstr, nat) jsmap"
  ab_ambiguityRate :: "rat option"
  ab_patterns :: "(jsstr \<times> bool \<times> rat) list"

definition generateAmbiguityReport :: "ReverseReference list \<Rightarrow> AmbiguityReport" where
  "generateAmbiguityReport table =
     (let references = filter rv_isAmbiguous table
      in \<lparr>ab_totalReferences = length table, ab_ambiguousReferences = length references,
          ab_requiresLLMCheck = length (filter rv_requiresLLMCheck table),
          ab_byType = tally rv_referenceType references, ab_byDetectionMethod = tally rv_detectionMethod references,
          ab_ambiguityRate = (if table = [] then None
            else Some (of_nat (length references) / of_nat (length table) * 100)),
          ab_patterns = map (\<lambda>p. (ap_type p, ap_requiresLLM p, ap_confidence p)) ambiguousPatterns\<rparr>)"

section \<open>Facts\<close>

lemma ambiguous_not_global: "list_all (\<lambda>p. \<not> re_global (ap_forwardPattern p)) ambiguousPatterns"
  by (simp add: ambiguousPatterns_def)

lemma detect_patterns_throws:
  "list_all (\<lambda>p. \<not> re_global (ap_forwardPattern p)) ps \<Longrightarrow>
     detect_patterns lawId content ps refs =
       (if list_ex (\<lambda>p. rx_test (re_body (ap_forwardPattern p)) content) ps then Inl TypeError else Inr refs)"
  by (induction ps) (auto simp: match_all_def)

lemma unique_first_set [simp]: "set (unique_first xs) = set xs"
  by (simp add: unique_first_def)

lemma unique_first_distinct [simp]: "distinct (unique_first xs)"
  by (simp add: unique_first_def)

text \<open>The report after the reverse look-up has filled an empty table: everything is ambiguous, to be checked,
  of one type and of one method.\<close>

lemma created_fields: "r \<in> set (resolveDecreeReferences db) \<Longrightarrow>
    rv_isAmbiguous r \<and> rv_requiresLLMCheck r \<and> rv_referenceType r = (str ''delegation'')"
  by (auto simp: resolveDecreeReferences_def decree_refs_def createReverseReference_def split: option.splits)

lemma report_of_decrees:
  "let table = resolveDecreeReferences db; report = generateAmbiguityReport table
   in ab_ambiguousReferences report = ab_totalReferences report \<and> ab_requiresLLMCheck report = ab_totalReferences report \<and>
      sum_list (map snd (ab_byType report)) = ab_ambiguousReferences report \<and>
      map_of (ab_byType report) (str ''delegation'') = (if table = [] then None else Some (length table))"
proof -
  let ?table = "resolveDecreeReferences db"
  have "filter rv_isAmbiguous ?table = ?table" "filter rv_requiresLLMCheck ?table = ?table"
    "filter (\<lambda>r. rv_isAmbiguous r \<and> rv_referenceType r = (str ''delegation'')) ?table = ?table"
    using created_fields by (auto simp: filter_id_conv simp del: str_simps)
  then show ?thesis by (simp add: generateAmbiguityReport_def Let_def sum_tally tally_of del: str_simps)
qed

section \<open>Properties\<close>

text \<open>the catalogue search never returns a reference: it returns the empty list when no pattern
  matches, and throws a \<open>TypeError\<close> as soon as one does, because the patterns lack the global flag
  that \<open>matchAll\<close> asks for.\<close>

theorem ambiguous_exact:
  "detectAmbiguousReferences lawId content =
     (if list_ex (\<lambda>p. rx_test (re_body (ap_forwardPattern p)) content) ambiguousPatterns then Inl TypeError else Inr [])"
  unfolding detectAmbiguousReferences_def by (rule detect_patterns_throws [OF ambiguous_not_global])

text \<open>the reverse look-up creates references exactly from a parent law, found by the title of an
  order, to this order, one for every article that its text names, and never the same one twice for
  an order that the database lists once.\<close>

theorem decree_refs_exact:
  "set (resolveDecreeReferences db) =
     {createReverseReference (lm_id p) (lm_id d) a (lm_title d) | p d a xml.
        d \<in> set (db_lawMaster db) \<and> is_decree d \<and> inferParentLawFromTitle db (lm_title d) = Some p \<and>
        db_latestXml db (lm_id d) = Some xml \<and> a \<in> set (findBasisArticles xml)} \<and>
   distinct (findBasisArticles xml')"
proof
  show "distinct (findBasisArticles xml')" by (simp add: findBasisArticles_def)
  show "set (resolveDecreeReferences db) =
     {createReverseReference (lm_id p) (lm_id d) a (lm_title d) | p d a xml.
        d \<in> set (db_lawMaster db) \<and> is_decree d \<and> inferParentLawFromTitle db (lm_title d) = Some p \<and>
        db_latestXml db (lm_id d) = Some xml \<and> a \<in> set (findBasisArticles xml)}"
    (is "?L = ?R")
  proof (intro equalityI subsetI)
    fix r assume "r \<in> ?L"
    then obtain d where d: "d \<in> set (db_lawMaster db)" "is_decree d" "r \<in> set (decree_refs db d)"
      by (auto simp: resolveDecreeReferences_def)
    then obtain p xml where "inferParentLawFromTitle db (lm_title d) = Some p" "db_latestXml db (lm_id d) = Some xml"
      "r \<in> (\<lambda>a. createReverseReference (lm_id p) (lm_id d) a (lm_title d)) ` set (findBasisArticles xml)"
      by (cases "inferParentLawFromTitle db (lm_title d)"; cases "db_latestXml db (lm_id d)") (auto simp: decree_refs_def)
    with d show "r \<in> ?R" by blast
  next
    fix r assume "r \<in> ?R"
    then obtain p d a xml where d: "d \<in> set (db_lawMaster db)" "is_decree d"
      and "inferParentLawFromTitle db (lm_title d) = Some p" "db_latestXml db (lm_id d) = Some xml"
        "a \<in> set (findBasisArticles xml)" "r = createReverseReference (lm_id p) (lm_id d) a (lm_title d)" by blast
    then have "r \<in> set (decree_refs db d)" by (auto simp: decree_refs_def)
    with d show "r \<in> ?L" by (auto simp: resolveDecreeReferences_def)
  qed
qed


end
