(* ===== verification/StaticDetector.thy ===== *)
theory StaticDetector
  imports ArticleNormalizer
begin

text \<open>
  \<^verbatim>\<open>src/utils/reference-detector.ts\<close>: the detector of the static site. The patterns are tried from the longest
  to the shortest; a text that was found once is not reported again. The numerals of a reference are
  rewritten to kanji. A paragraph number that does not parse is \<open>Some None\<close>, an absent one \<open>None\<close>.
\<close>

section \<open>Data\<close>

datatype ReferenceType = INTERNAL | EXTERNAL | RELATIVE | COMPLEX | STRUCTURAL | APPLICATION

datatype ReferenceSubType = RANGE | MULTIPLE | ITEM_LIST | WITH_PARAGRAPH | WITH_ITEM | CHAPTER | PART | SECTION
  | SUBSECTION | DIVISION

datatype direction = Previous | Next | Same

record sourceContext =
  sx_paragraphNumber :: "int option"
  sx_itemNumber :: "jsstr option"

record DetectedReference =
  sd_sourceArticleNumber :: jsstr
  sd_sourceText :: jsstr
  sd_type :: ReferenceType
  sd_subType :: "ReferenceSubType option"
  sd_targetArticleNumber :: "jsstr option"
  sd_targetArticleNumberEnd :: "jsstr option"
  sd_targetParagraphNumber :: "int option option"
  sd_targetItemNumber :: "jsstr option"
  sd_targetLawName :: "jsstr option"
  sd_targetLawId :: "jsstr option"
  sd_relativeDirection :: "direction option"
  sd_relativeCount :: "int option"
  sd_structureType :: "jsstr option"
  sd_confidence :: rat
  sd_context :: "sourceContext option"

definition lawIdMap :: "(jsstr \<times> jsstr) list" where
  "lawIdMap =
     [([c_min, c_hou], (str ''129AC0000000089'')), ([c_shou_com, c_hou], (str ''132AC0000000048'')), ([c_kei, c_hou], (str ''140AC0000000045'')),
      ([c_min, 0x4E8B, 0x8A34, 0x8A1F, c_hou], (str ''404AC0000000109'')), ([c_kai_meet, c_sha, c_hou], (str ''417AC0000000086'')), ([0x72EC, 0x5360, 0x7981, 0x6B62, c_hou], (str ''322AC0000000054'')),
      ([0x52B4, 0x50CD, 0x57FA, c_jun, c_hou], (str ''322AC0000000049'')), ([0x6D88, 0x8CBB, 0x7A0E, c_hou], (str ''363AC0000000108''))]"

text \<open>A pattern with the number of its groups, which is one less than the length of its match arrays.\<close>

record pattern =
  sp_regex :: regex
  sp_groups :: nat
  sp_type :: ReferenceType
  sp_subType :: "ReferenceSubType option"

abbreviation pat :: "regex \<Rightarrow> nat \<Rightarrow> ReferenceType \<Rightarrow> ReferenceSubType option \<Rightarrow> pattern" where
  "pat r g t s \<equiv> \<lparr>sp_regex = r, sp_groups = g, sp_type = t, sp_subType = s\<rparr>"

definition patterns :: "pattern list" where
  "patterns =
     [pat ((rseq [RGrp 1 (ralt [RLit [c_min, c_hou], RLit [c_shou_com, c_hou], RLit [c_kei, c_hou], RLit [c_min, 0x4E8B, 0x8A34, 0x8A1F, c_hou], RLit [0x72EC, 0x5360, 0x7981, 0x6B62, c_hou], RLit [0x52B4, 0x50CD, 0x57FA, c_jun, c_hou], RLit [0x6D88, 0x8CBB, 0x7A0E, c_hou], RLit [c_kai_meet, c_sha, c_hou]]), ropt (rseq [RLit [p_lparen], rplus (RCls True [(p_rparen, p_rparen)]), RLit [p_rparen]]), RLit [c_dai], RGrp 2 (rplus (RCls False rng_kjfw10000)), RLit [c_jou]])) 2 EXTERNAL None,
      pat ((rseq [RLit [c_dai], RGrp 1 (rplus (RCls False rng_kjfw10000)), RLit [c_jou, h_ka, h_ra, c_dai], RGrp 2 (rplus (RCls False rng_kjfw10000)), RLit [c_jou, h_ma, h_de]])) 2 INTERNAL (Some RANGE),
      pat ((rseq [RLit [c_dai], RGrp 1 (rplus (RCls False rng_kjfw10000)), RLit [c_jou, h_no], RGrp 2 (rplus (RCls False rng_kjfw10)), RLit [h_ka, h_ra, c_dai], RGrp 3 (rplus (RCls False rng_kjfw10000)), RLit [c_jou, h_no], RGrp 4 (rplus (RCls False rng_kjfw10)), RLit [h_ma, h_de]])) 4 INTERNAL (Some RANGE),
      pat ((rseq [RLit [c_zen], RGrp 1 (RCls False rng_kj2_10), RLit [c_jou]])) 1 RELATIVE (Some MULTIPLE),
      pat ((rseq [RLit [h_ko, h_no], RGrp 1 (ralt [RLit [c_shou], RLit [c_hen], RLit [c_setsu], RLit [c_kan], RLit [c_moku]])])) 1 STRUCTURAL None,
      pat ((ralt [RLit [c_ji, h_no, c_kaku, c_gou], RLit [c_ji, h_ni, 0x63B2, h_ge, h_ru]])) 0 COMPLEX (Some ITEM_LIST),
      pat ((RLit [c_kaku, c_gou, h_no, c_ichi])) 0 COMPLEX (Some ITEM_LIST),
      pat ((RGrp 1 (ralt [RLit [c_jun, c_you, h_su, h_ru], RLit [c_jun, c_you, h_sa, h_re, h_ru]]))) 1 APPLICATION None,
      pat ((rseq [RLit [c_fu, c_soku, c_dai], RGrp 1 (rplus (RCls False rng_kjfw10000)), RLit [c_jou]])) 1 INTERNAL None,
      pat ((rseq [RLit [c_betsu, c_hyou, c_dai], RGrp 1 (rplus (RCls False rng_kjfw10000))])) 1 INTERNAL None,
      pat ((rseq [RLit [c_dai], RGrp 1 (rplus (RCls False rng_kjfw10)), RLit [c_gou]])) 1 INTERNAL (Some WITH_ITEM),
      pat ((ralt [RLit [h_ta, 0x3060, h_shi, 0x66F8], RLit [c_hon, 0x6587]])) 0 COMPLEX None,
      pat ((rseq [RLit [c_dai], RGrp 1 (rplus (RCls False rng_kjfw10000)), RLit [c_jou, h_no], RGrp 2 (rplus (RCls False rng_kjfw10)), RLook False (RLit [c_kou])])) 2 INTERNAL None,
      pat ((rseq [RLit [c_dai], RGrp 1 (rplus (RCls False rng_kjfw10000)), RLit [c_jou, c_dai], RGrp 2 (rplus (RCls False rng_kjfw10)), RLit [c_kou]])) 2 INTERNAL (Some WITH_PARAGRAPH),
      pat ((rseq [RLit [c_dai], RGrp 1 (rplus (RCls False rng_kjfw10000)), RLit [c_jou, c_dai], RGrp 2 (rplus (RCls False rng_kjfw10)), RLit [c_kou, c_dai], RGrp 3 (rplus (RCls False rng_kjfw10)), RLit [c_gou]])) 3 INTERNAL (Some WITH_ITEM),
      pat ((rseq [RLit [c_dai], RGrp 1 (rplus (RCls False rng_kjfw10000)), RLit [c_shou]])) 1 STRUCTURAL (Some CHAPTER),
      pat ((rseq [RLit [c_dai], RGrp 1 (rplus (RCls False rng_kjfw10000)), RLit [c_hen]])) 1 STRUCTURAL (Some PART),
      pat ((rseq [RLit [c_dai], RGrp 1 (rplus (RCls False rng_kjfw10000)), RLit [c_setsu]])) 1 STRUCTURAL (Some SECTION),
      pat ((ralt [RLit [c_zen, c_kou], RLit [c_ji, c_kou], RLit [c_dou, c_kou], RLit [c_dou, c_jou]])) 0 RELATIVE None,
      pat ((rseq [RLit [c_dou, c_kou, c_dai], RGrp 1 (rplus (RCls False rng_kjfw10)), RLit [c_gou]])) 1 COMPLEX (Some WITH_ITEM),
      pat ((rseq [RLit [c_zen, c_kou, c_dai], RGrp 1 (rplus (RCls False rng_kjfw10)), RLit [c_gou]])) 1 COMPLEX (Some WITH_ITEM),
      pat ((rseq [RLit [c_dou, c_jou, c_dai], RGrp 1 (rplus (RCls False rng_kjfw10)), RLit [c_kou]])) 1 COMPLEX (Some WITH_PARAGRAPH),
      pat ((rseq [RLit [c_dai], RGrp 1 (rplus (RCls False rng_kjfw10000)), RLit [c_jou], RLook False (ralt [RLit [h_no], RLit [c_dai], RLit [h_ka, h_ra]])])) 1 INTERNAL None,
      pat ((ralt [RLit [c_zen, c_jou], RLit [c_ji, c_jou]])) 0 RELATIVE None,
      pat ((ralt [RLit [c_zen, c_shou], RLit [c_ji, c_shou]])) 0 RELATIVE (Some CHAPTER)]"

section \<open>Numerals\<close>

definition arabicToKanjiMap :: "(jsstr \<times> jsstr) list" where
  "arabicToKanjiMap =
     [((str ''1''), [c_ichi]), ((str ''2''), [c_ni]), ((str ''3''), [c_san]), ((str ''4''), [c_yon]), ((str ''5''), [c_go]),
      ((str ''6''), [c_roku]), ((str ''7''), [c_nana]), ((str ''8''), [c_hachi]), ((str ''9''), [c_kyuu]), ((str ''10''), [c_juu]),
      ((str ''11''), [c_juu, c_ichi]), ((str ''12''), [c_juu, c_ni]), ((str ''13''), [c_juu, c_san]), ((str ''14''), [c_juu, c_yon]), ((str ''15''), [c_juu, c_go]),
      ((str ''16''), [c_juu, c_roku]), ((str ''17''), [c_juu, c_nana]), ((str ''18''), [c_juu, c_hachi]), ((str ''19''), [c_juu, c_kyuu]), ((str ''20''), [c_ni, c_juu]),
      ((str ''21''), [c_ni, c_juu, c_ichi]), ((str ''22''), [c_ni, c_juu, c_ni]), ((str ''23''), [c_ni, c_juu, c_san]), ((str ''24''), [c_ni, c_juu, c_yon]), ((str ''25''), [c_ni, c_juu, c_go]),
      ((str ''26''), [c_ni, c_juu, c_roku]), ((str ''27''), [c_ni, c_juu, c_nana]), ((str ''28''), [c_ni, c_juu, c_hachi]), ((str ''29''), [c_ni, c_juu, c_kyuu]), ((str ''30''), [c_san, c_juu]),
      ((str ''31''), [c_san, c_juu, c_ichi]), ((str ''32''), [c_san, c_juu, c_ni]), ((str ''33''), [c_san, c_juu, c_san]), ((str ''34''), [c_san, c_juu, c_yon]), ((str ''35''), [c_san, c_juu, c_go]),
      ((str ''36''), [c_san, c_juu, c_roku]), ((str ''37''), [c_san, c_juu, c_nana]), ((str ''38''), [c_san, c_juu, c_hachi]), ((str ''39''), [c_san, c_juu, c_kyuu]), ((str ''40''), [c_yon, c_juu]),
      ((str ''41''), [c_yon, c_juu, c_ichi]), ((str ''42''), [c_yon, c_juu, c_ni]), ((str ''43''), [c_yon, c_juu, c_san]), ((str ''44''), [c_yon, c_juu, c_yon]), ((str ''45''), [c_yon, c_juu, c_go]),
      ((str ''46''), [c_yon, c_juu, c_roku]), ((str ''47''), [c_yon, c_juu, c_nana]), ((str ''48''), [c_yon, c_juu, c_hachi]), ((str ''49''), [c_yon, c_juu, c_kyuu]), ((str ''50''), [c_go, c_juu])]"

definition kanjiToArabicMap :: "(jsstr \<times> jsstr) list" where
  "kanjiToArabicMap =
     [([c_ichi], (str ''1'')), ([c_ni], (str ''2'')), ([c_san], (str ''3'')), ([c_yon], (str ''4'')), ([c_go], (str ''5'')),
      ([c_roku], (str ''6'')), ([c_nana], (str ''7'')), ([c_hachi], (str ''8'')), ([c_kyuu], (str ''9'')), ([c_juu], (str ''10'')),
      ([c_juu, c_ichi], (str ''11'')), ([c_juu, c_ni], (str ''12'')), ([c_juu, c_san], (str ''13'')), ([c_juu, c_yon], (str ''14'')), ([c_juu, c_go], (str ''15'')),
      ([c_juu, c_roku], (str ''16'')), ([c_juu, c_nana], (str ''17'')), ([c_juu, c_hachi], (str ''18'')), ([c_juu, c_kyuu], (str ''19'')), ([c_ni, c_juu], (str ''20'')),
      ([c_ni, c_juu, c_ichi], (str ''21'')), ([c_ni, c_juu, c_ni], (str ''22'')), ([c_ni, c_juu, c_san], (str ''23'')), ([c_ni, c_juu, c_yon], (str ''24'')), ([c_ni, c_juu, c_go], (str ''25'')),
      ([c_ni, c_juu, c_roku], (str ''26'')), ([c_ni, c_juu, c_nana], (str ''27'')), ([c_ni, c_juu, c_hachi], (str ''28'')), ([c_ni, c_juu, c_kyuu], (str ''29'')), ([c_san, c_juu], (str ''30'')),
      ([c_san, c_juu, c_ichi], (str ''31'')), ([c_san, c_juu, c_ni], (str ''32'')), ([c_san, c_juu, c_san], (str ''33'')), ([c_san, c_juu, c_yon], (str ''34'')), ([c_san, c_juu, c_go], (str ''35'')),
      ([c_san, c_juu, c_roku], (str ''36'')), ([c_san, c_juu, c_nana], (str ''37'')), ([c_san, c_juu, c_hachi], (str ''38'')), ([c_san, c_juu, c_kyuu], (str ''39'')), ([c_yon, c_juu], (str ''40'')),
      ([c_yon, c_juu, c_ichi], (str ''41'')), ([c_yon, c_juu, c_ni], (str ''42'')), ([c_yon, c_juu, c_san], (str ''43'')), ([c_yon, c_juu, c_yon], (str ''44'')), ([c_yon, c_juu, c_go], (str ''45'')),
      ([c_yon, c_juu, c_roku], (str ''46'')), ([c_yon, c_juu, c_nana], (str ''47'')), ([c_yon, c_juu, c_hachi], (str ''48'')), ([c_yon, c_juu, c_kyuu], (str ''49'')), ([c_go, c_juu], (str ''50''))]"

text \<open>A value of a table in a template string.\<close>

definition undef :: "jsstr option \<Rightarrow> jsstr" where
  "undef x = (case x of None \<Rightarrow> (str ''undefined'') | Some s \<Rightarrow> s)"

definition halfWidth :: "jsstr \<Rightarrow> jsstr" where
  "halfWidth s = map (\<lambda>c. if 0xFF10 \<le> c \<and> c \<le> 0xFF19 then c - 0xFEE0 else c) s"

text \<open>The digits of a number that is not zero: \<open>parseInt\<close> of them.\<close>

definition digits_num :: "jsstr \<Rightarrow> nat" where
  "digits_num s = nat (case parse_int s of None \<Rightarrow> 0 | Some i \<Rightarrow> i)"

lemma digits_num_nat_str [simp]: "digits_num (nat_str n) = n"
  using parse_int_digits [of "nat_str n"] by (simp add: digits_num_def nat_str_digits)

lemma halfWidth_nat_str [simp]: "halfWidth (nat_str n) = nat_str n"
proof -
  have "map (\<lambda>c. if 0xFF10 \<le> c \<and> c \<le> 0xFF19 then c - 0xFEE0 else c) s = s" if "\<forall>c \<in> set s. is_digit c" for s
    using that by (induction s) (auto simp: is_digit_def)
  then show ?thesis by (simp add: halfWidth_def nat_str_digits)
qed

function convertToKanji :: "jsstr \<Rightarrow> jsstr" where
  "convertToKanji arabicNum =
     (if arabicNum = [] then []
      else
        let hw = halfWidth arabicNum in
        if \<not> (list_all is_digit hw) then arabicNum
        else
          let num = digits_num hw in
          case map_of arabicToKanjiMap hw of
            Some k \<Rightarrow> k
          | None \<Rightarrow>
              if 50 < num \<and> num < 100 then
                undef (map_of arabicToKanjiMap (nat_str (num div 10))) @ [c_juu] @
                (if 0 < num mod 10 then undef (map_of arabicToKanjiMap (nat_str (num mod 10))) else [])
              else if 100 \<le> num then
                (if num div 100 = 1 then [] else undef (map_of arabicToKanjiMap (nat_str (num div 100)))) @ [c_hyaku] @
                (if 0 < num mod 100 then convertToKanji (nat_str (num mod 100)) else [])
              else arabicNum)"
  by pat_completeness auto
termination
proof (relation "measure (\<lambda>s. digits_num (halfWidth s))")
  fix s hw num assume "hw = halfWidth s" "num = digits_num hw" "100 \<le> num"
  moreover have "num mod 100 < 100" by simp
  ultimately show "(nat_str (num mod 100), s) \<in> measure (\<lambda>s. digits_num (halfWidth s))" by simp
qed simp

declare convertToKanji.simps [simp del]

text \<open>\<open>parts[0]\<close> and \<open>parts[1]\<close> of a split: shorter than the string, if the separator occurs.\<close>

definition part :: "nat \<Rightarrow> jschar \<Rightarrow> jsstr \<Rightarrow> jsstr" where
  "part k d s = (let ps = split_char d s in if k < length ps then ps ! k else [])"

lemma split_char_shorter: "p \<in> set (split_char d s) \<Longrightarrow> length p + (if d \<in> set s then 1 else 0) \<le> length s"
proof (induction s arbitrary: p)
  case (Cons c s)
  show ?case
  proof (cases "c = d")
    case True
    with Cons.prems Cons.IH [of p] show ?thesis by (auto split: if_splits)
  next
    case False
    show ?thesis
    proof (cases "split_char d s")
      case Nil
      with False Cons.prems show ?thesis by (cases s) (auto split: if_splits list.splits)
    next
      case (Cons w ws)
      with False Cons.prems consider "p = c # w" | "p \<in> set ws" by auto
      then show ?thesis using Cons False Cons.IH [of w] Cons.IH [of p] by cases auto
    qed
  qed
qed simp

lemma part_shorter: "d \<in> set s \<Longrightarrow> length (part k d s) < length s"
proof (cases "k < length (split_char d s)")
  case True
  then have "split_char d s ! k \<in> set (split_char d s)" by simp
  from split_char_shorter [OF this] True show "d \<in> set s \<Longrightarrow> ?thesis" by (simp add: part_def Let_def)
next
  case False
  then show "d \<in> set s \<Longrightarrow> ?thesis" by (auto simp: part_def Let_def intro: length_pos_if_in_set)
qed

text \<open>\<open>convertToArabic\<close>, with the calls of \<open>kanjiToNumber\<close> written out: \<open>parseInt\<close> of the result, or 1.\<close>

definition nan_one :: "jsstr \<Rightarrow> int" where
  "nan_one s = (case parse_int s of None \<Rightarrow> 1 | Some n \<Rightarrow> n)"

function convertToArabic :: "jsstr \<Rightarrow> jsstr" where
  "convertToArabic num =
     (if num = [] then []
      else if c_hyaku \<in> set num then
        (let p0 = part 0 c_hyaku num; p1 = part 1 c_hyaku num
         in int_str ((if p0 = [] then 1 else nan_one (convertToArabic p0)) * 100 +
              (if p1 \<noteq> [] then nan_one (convertToArabic p1) else 0)))
      else if c_juu \<in> set num \<and> map_of kanjiToArabicMap num = None then
        (let p0 = part 0 c_juu num; p1 = part 1 c_juu num
         in int_str ((if p0 = [] then 1 else nan_one (convertToArabic p0)) * 10 +
              (if p1 \<noteq> [] then nan_one (convertToArabic p1) else 0)))
      else (case map_of kanjiToArabicMap num of Some s \<Rightarrow> s | None \<Rightarrow> num))"
  by pat_completeness auto
termination
  by (relation "measure length") (auto simp: part_shorter)

declare convertToArabic.simps [simp del]

definition kanjiToNumber :: "jsstr \<Rightarrow> int" where
  "kanjiToNumber kanji = nan_one (convertToArabic kanji)"

section \<open>Detection\<close>

text \<open>Arguments that may be undefined.\<close>

definition kanji_arg :: "jsstr option \<Rightarrow> jsstr" where
  "kanji_arg x = (case x of None \<Rightarrow> [] | Some s \<Rightarrow> convertToKanji s)"

definition arabic_arg :: "jsstr option \<Rightarrow> jsstr" where
  "arabic_arg x = (case x of None \<Rightarrow> [] | Some s \<Rightarrow> convertToArabic s)"

definition base_reference :: "rmatch \<Rightarrow> pattern \<Rightarrow> jsstr \<Rightarrow> sourceContext option \<Rightarrow> DetectedReference" where
  "base_reference m p sourceArticleNumber ctx =
     \<lparr>sd_sourceArticleNumber = sourceArticleNumber, sd_sourceText = m_text m, sd_type = sp_type p, sd_subType = sp_subType p,
      sd_targetArticleNumber = None, sd_targetArticleNumberEnd = None, sd_targetParagraphNumber = None,
      sd_targetItemNumber = None, sd_targetLawName = None, sd_targetLawId = None, sd_relativeDirection = None,
      sd_relativeCount = None, sd_structureType = None, sd_confidence = 9/10, sd_context = ctx\<rparr>"

definition default_reference :: "rmatch \<Rightarrow> pattern \<Rightarrow> DetectedReference \<Rightarrow> DetectedReference" where
  "default_reference m p base =
     (if sp_type p = EXTERNAL then
        base\<lparr>sd_targetLawName := Some (grp m 1), sd_targetLawId := map_of lawIdMap (grp m 1),
          sd_targetArticleNumber := Some (kanji_arg (cap m 2))\<rparr>
      else if sp_type p = RELATIVE then
        base\<lparr>sd_relativeDirection := Some (if str_includes (m_text m) [c_zen] then Previous
          else if str_includes (m_text m) [c_ji] then Next else Same)\<rparr>
      else if sp_type p = INTERNAL then
        (if starts_with (m_text m) [c_fu, c_soku] then base\<lparr>sd_targetArticleNumber := Some ([c_fu, c_soku, c_dai] @ kanji_arg (cap m 1) @ [c_jou])\<rparr>
         else if starts_with (m_text m) [c_betsu, c_hyou] then base\<lparr>sd_targetArticleNumber := Some ([c_betsu, c_hyou, c_dai] @ kanji_arg (cap m 1))\<rparr>
         else if str_includes (m_text m) [c_gou] \<and> \<not> str_includes (m_text m) [c_jou] then
           base\<lparr>sd_targetItemNumber := Some (kanji_arg (cap m 1))\<rparr>
         else if str_includes (m_text m) [h_no] then
           base\<lparr>sd_targetArticleNumber := Some (kanji_arg (cap m 1) @ [h_no] @ kanji_arg (cap m 2))\<rparr>
         else base\<lparr>sd_targetArticleNumber := Some (kanji_arg (cap m 1))\<rparr>)
      else if sp_type p = COMPLEX \<and> (m_text m = [h_ta, 0x3060, h_shi, 0x66F8] \<or> m_text m = [c_hon, 0x6587]) then
        base\<lparr>sd_relativeDirection := Some Same\<rparr>
      else base)"

definition createReference :: "rmatch \<Rightarrow> pattern \<Rightarrow> jsstr \<Rightarrow> sourceContext option \<Rightarrow> DetectedReference" where
  "createReference m p sourceArticleNumber ctx =
     (let base = base_reference m p sourceArticleNumber ctx;
          structural = (if starts_with (m_text m) [h_ko, h_no]
            then base\<lparr>sd_structureType := cap m 1, sd_relativeDirection := Some Same\<rparr>
            else base\<lparr>sd_targetArticleNumber := Some (kanji_arg (cap m 1))\<rparr>)
      in case sp_subType p of
           Some RANGE \<Rightarrow>
             (if 3 < sp_groups p then
                base\<lparr>sd_targetArticleNumber := Some (kanji_arg (cap m 1) @ [h_no] @ kanji_arg (cap m 2)),
                  sd_targetArticleNumberEnd := Some (kanji_arg (cap m 3) @ [h_no] @ kanji_arg (cap m 4))\<rparr>
              else base\<lparr>sd_targetArticleNumber := Some (kanji_arg (cap m 1)),
                  sd_targetArticleNumberEnd := Some (kanji_arg (cap m 2))\<rparr>)
         | Some MULTIPLE \<Rightarrow>
             base\<lparr>sd_relativeDirection := Some Previous, sd_relativeCount := Some (kanjiToNumber (grp m 1))\<rparr>
         | Some WITH_PARAGRAPH \<Rightarrow>
             base\<lparr>sd_targetArticleNumber := Some (kanji_arg (cap m 1)),
               sd_targetParagraphNumber := Some (parse_int (arabic_arg (cap m 2)))\<rparr>
         | Some WITH_ITEM \<Rightarrow>
             (if sp_type p = COMPLEX then
                base\<lparr>sd_relativeDirection := Some (if starts_with (m_text m) [c_dou] then Same else Previous),
                  sd_targetItemNumber := Some (kanji_arg (cap m 1))\<rparr>
              else base\<lparr>sd_targetArticleNumber := Some (kanji_arg (cap m 1)),
                  sd_targetParagraphNumber := Some (parse_int (arabic_arg (cap m 2))),
                  sd_targetItemNumber := Some (kanji_arg (cap m 3))\<rparr>)
         | Some CHAPTER \<Rightarrow> structural
         | Some PART \<Rightarrow> structural
         | Some SECTION \<Rightarrow> structural
         | _ \<Rightarrow> default_reference m p base)"

fun detect_step :: "jsstr \<Rightarrow> sourceContext option \<Rightarrow> DetectedReference list \<times> jsstr list \<Rightarrow> pattern \<times> rmatch \<Rightarrow>
    DetectedReference list \<times> jsstr list" where
  "detect_step art ctx (references, detectedTexts) (p, m) =
     (if m_text m \<in> set detectedTexts then (references, detectedTexts)
      else (references @ [createReference m p art ctx], List.insert (m_text m) detectedTexts))"

definition detectReferences :: "jsstr \<Rightarrow> jsstr \<Rightarrow> sourceContext option \<Rightarrow> DetectedReference list" where
  "detectReferences text sourceArticleNumber ctx =
     fst (foldl (detect_step sourceArticleNumber ctx) ([], [])
       (concat (map (\<lambda>p. map (\<lambda>m. (p, m)) (exec_all (sp_regex p) text)) patterns)))"

section \<open>Facts on numerals\<close>

lemma arabic_table: "arabicToKanjiMap = map (\<lambda>n. (nat_str n, kanji_of_nat n)) [1..<51]"
  by code_simp

lemma kanji_words: "kanjiToArabicMap = map (\<lambda>n. (kanji_of_nat n, nat_str n)) [1..<51]"
  by code_simp

lemma arabic_lookup: "map_of arabicToKanjiMap (nat_str n) = (if 0 < n \<and> n \<le> 50 then Some (kanji_of_nat n) else None)"
proof (cases "0 < n \<and> n \<le> 50")
  case True
  then show ?thesis unfolding arabic_table using map_of_table [of n "[1..<51]" nat_str kanji_of_nat] by simp
next
  case False
  then show ?thesis unfolding arabic_table by (auto simp: map_of_eq_None_iff)
qed

lemma kanji_lookup:
  "n < 100000 \<Longrightarrow> map_of kanjiToArabicMap (kanji_of_nat n) = (if 0 < n \<and> n \<le> 50 then Some (nat_str n) else None)"
proof (cases "0 < n \<and> n \<le> 50")
  case True
  then show ?thesis unfolding kanji_words using map_of_table [of n "[1..<51]" kanji_of_nat nat_str] by (simp add: kanji_of_nat_inj)
next
  case False
  assume "n < 100000"
  with False show ?thesis unfolding kanji_words by (auto simp: map_of_eq_None_iff kanji_of_nat_inj)
qed

text \<open>The numeral of a number below 100, and of one below 1000.\<close>

lemma kanji_digit_string: "0 < d \<Longrightarrow> d < 10 \<Longrightarrow> kanji_of_nat d = [kanji_digit d]"
  by (simp add: kanji_of_nat_def kanji_place_def)

lemma kanji_below_100:
  "n < 100 \<Longrightarrow> kanji_of_nat n = kanji_place (n div 10) c_juu @ (if n mod 10 = 0 then [] else kanji_of_nat (n mod 10))"
  by (simp add: kanji_of_nat_def kanji_place_def)

lemma kanji_below_1000:
  assumes "n < 1000"
  shows "kanji_of_nat n = kanji_place (n div 100) c_hyaku @ (if n mod 100 = 0 then [] else kanji_of_nat (n mod 100))"
proof -
  define t u where "t = n div 10 mod 10" and "u = n mod 10"
  have r: "n mod 100 = 10 * t + u" unfolding t_def u_def by (simp add: mod_mult2_eq [of n 10 10, simplified])
  have tu: "t < 10" "u < 10" by (simp_all add: t_def u_def)
  then have low: "kanji_of_nat (n mod 100) = kanji_place t c_juu @ (if u = 0 then [] else [kanji_digit u])"
    unfolding r by (simp add: kanji_of_nat_def kanji_place_def)
  have high: "n div 10000 = 0" "n div 1000 mod 10 = 0" "n div 100 mod 10 = n div 100" using assms by simp_all
  have "kanji_of_nat n = kanji_place (n div 100) c_hyaku @ kanji_place t c_juu @ (if u = 0 then [] else [kanji_digit u])"
    unfolding kanji_of_nat_def high t_def u_def by (simp add: kanji_place_def)
  moreover have "n mod 100 = 0 \<longleftrightarrow> t = 0 \<and> u = 0" unfolding r by simp
  ultimately show ?thesis using low by (auto simp: kanji_place_def)
qed

lemma convertToKanji_below_100:
  assumes "0 < n" "n < 100"
  shows "convertToKanji (nat_str n) = kanji_of_nat n"
proof (cases "n \<le> 50")
  case True
  with assms show ?thesis
    by (subst convertToKanji.simps) (simp add: arabic_lookup list_all_iff nat_str_digits Let_def)
next
  case False
  then have t: "1 < n div 10" "n div 10 < 10" "n div 10 \<noteq> 1" using assms by (auto simp: div_less_iff_less_mult)
  with False assms show ?thesis
    by (subst convertToKanji.simps)
      (auto simp: arabic_lookup list_all_iff nat_str_digits Let_def undef_def kanji_below_100 [of n] kanji_place_def
        kanji_digit_string)
qed

lemma convertToKanji_below_1000:
  assumes "0 < n" "n < 1000"
  shows "convertToKanji (nat_str n) = kanji_of_nat n"
proof (cases "n < 100")
  case False
  then have h: "0 < n div 100" "n div 100 < 10" using assms by (auto simp: div_less_iff_less_mult)
  have "convertToKanji (nat_str (n mod 100)) = kanji_of_nat (n mod 100)" if "0 < n mod 100"
    using that by (rule convertToKanji_below_100) simp
  with False assms h show ?thesis
    by (subst convertToKanji.simps)
      (auto simp: arabic_lookup list_all_iff nat_str_digits Let_def undef_def kanji_below_1000 [of n] kanji_place_def
        kanji_digit_string)
qed (simp add: assms convertToKanji_below_100)

lemma nan_one_nat_str [simp]: "nan_one (nat_str n) = int n"
  using parse_int_digits [of "nat_str n"] by (simp add: nan_one_def nat_str_digits)

text \<open>The parts of a numeral at a unit that occurs once.\<close>

lemma parts_at:
  "d \<notin> set p \<Longrightarrow> d \<notin> set q \<Longrightarrow> part 0 d (p @ d # q) = p \<and> part 1 d (p @ d # q) = q"
  by (simp add: part_def split_char_app split_char_no_sep)

lemma kanji_digit_not_unit: "d < 10 \<Longrightarrow> kanji_digit d \<notin> {c_juu, c_hyaku, c_sen, c_man}"
proof -
  have "\<forall>d \<in> set [0..<10]. kanji_digit d \<notin> {c_juu, c_hyaku, c_sen, c_man}" by code_simp
  then show "d < 10 \<Longrightarrow> ?thesis" by simp
qed

lemma no_hyaku_below_100: "n < 100 \<Longrightarrow> c_hyaku \<notin> set (kanji_of_nat n)"
  using kanji_digit_not_unit [of "n div 10"] kanji_digit_not_unit [of "n mod 10"]
  by (auto simp: kanji_of_nat_def kanji_place_def div_less_iff_less_mult split: if_splits)

lemma kanji_place_split:
  "0 < d \<Longrightarrow> kanji_place d u = (if d = 1 then [] else kanji_of_nat d) @ [u]" if "d < 10"
  using that by (simp add: kanji_place_def kanji_digit_string)

lemma convertToArabic_table: "0 < n \<Longrightarrow> n \<le> 50 \<Longrightarrow> convertToArabic (kanji_of_nat n) = nat_str n"
  using no_hyaku_below_100 [of n] kanji_of_nat_nonempty [of n]
  by (subst convertToArabic.simps) (simp add: kanji_lookup)

text \<open>What the code computes at a unit \<open>u\<close> of weight \<open>w\<close>.\<close>

definition at_unit :: "jschar \<Rightarrow> int \<Rightarrow> jsstr \<Rightarrow> int" where
  "at_unit u w num =
     (if part 0 u num = [] then 1 else nan_one (convertToArabic (part 0 u num))) * w +
     (if part 1 u num \<noteq> [] then nan_one (convertToArabic (part 1 u num)) else 0)"

lemma convertToArabic_hyaku: "c_hyaku \<in> set num \<Longrightarrow> convertToArabic num = int_str (at_unit c_hyaku 100 num)"
  unfolding at_unit_def by (subst convertToArabic.simps) (auto simp: Let_def)

lemma convertToArabic_juu:
  "c_juu \<in> set num \<Longrightarrow> c_hyaku \<notin> set num \<Longrightarrow> map_of kanjiToArabicMap num = None \<Longrightarrow>
     convertToArabic num = int_str (at_unit c_juu 10 num)"
  unfolding at_unit_def by (subst convertToArabic.simps) (auto simp: Let_def)

lemma at_unit_place:
  assumes "0 < d" "d < 10" "u \<in> {c_juu, c_hyaku}" "u \<notin> set rest" "rest \<noteq> [] \<Longrightarrow> convertToArabic rest = nat_str r" "rest = [] \<Longrightarrow> r = 0"
  shows "at_unit u w (kanji_place d u @ rest) = int d * w + int r"
proof -
  let ?p = "if d = 1 then [] else kanji_of_nat d"
  have "u \<notin> set ?p" using assms kanji_digit_not_unit [of d] by (auto simp: kanji_digit_string)
  with parts_at [of u ?p rest] assms have "part 0 u (kanji_place d u @ rest) = ?p" "part 1 u (kanji_place d u @ rest) = rest"
    by (simp_all add: kanji_place_split)
  moreover have "convertToArabic (kanji_of_nat d) = nat_str d" using assms by (simp add: convertToArabic_table)
  moreover have "kanji_of_nat d \<noteq> []" using assms by (simp add: kanji_of_nat_nonempty)
  ultimately show ?thesis using assms unfolding at_unit_def by auto
qed

lemma int_div_mod: "int (n div k) * int k + int (n mod k) = int n"
  by (metis div_mult_mod_eq of_nat_add of_nat_mult)

lemma convertToArabic_below_100:
  assumes "0 < n" "n < 100"
  shows "convertToArabic (kanji_of_nat n) = nat_str n"
proof (cases "n \<le> 50")
  case False
  let ?rest = "if n mod 10 = 0 then [] else kanji_of_nat (n mod 10)"
  have d: "0 < n div 10" "n div 10 < 10" using False assms by (auto simp: div_less_iff_less_mult)
  have k: "kanji_of_nat n = kanji_place (n div 10) c_juu @ ?rest" using assms by (simp add: kanji_below_100)
  have "c_juu \<notin> set ?rest" using kanji_digit_not_unit [of "n mod 10"] by (auto simp: kanji_digit_string)
  then have "at_unit c_juu 10 (kanji_of_nat n) = int (n div 10) * 10 + int (n mod 10)"
    unfolding k by (intro at_unit_place d) (auto simp: convertToArabic_table kanji_of_nat_nonempty split: if_splits)
  then have u: "at_unit c_juu 10 (kanji_of_nat n) = int n" using int_div_mod [of n 10] by simp
  have "c_juu \<in> set (kanji_of_nat n)" unfolding k using d by (simp add: kanji_place_def)
  moreover have "map_of kanjiToArabicMap (kanji_of_nat n) = None" using False assms by (simp add: kanji_lookup)
  ultimately show ?thesis using no_hyaku_below_100 [OF assms(2)] u by (simp add: convertToArabic_juu)
qed (simp add: assms convertToArabic_table)

lemma convertToArabic_below_1000:
  assumes "0 < n" "n < 1000"
  shows "convertToArabic (kanji_of_nat n) = nat_str n"
proof (cases "n < 100")
  case False
  let ?rest = "if n mod 100 = 0 then [] else kanji_of_nat (n mod 100)"
  have d: "0 < n div 100" "n div 100 < 10" using False assms by (auto simp: div_less_iff_less_mult)
  have k: "kanji_of_nat n = kanji_place (n div 100) c_hyaku @ ?rest" using assms by (simp add: kanji_below_1000)
  have "c_hyaku \<notin> set ?rest" using no_hyaku_below_100 [of "n mod 100"] by auto
  then have "at_unit c_hyaku 100 (kanji_of_nat n) = int (n div 100) * 100 + int (n mod 100)"
    unfolding k by (intro at_unit_place d) (auto simp: convertToArabic_below_100 kanji_of_nat_nonempty split: if_splits)
  then have u: "at_unit c_hyaku 100 (kanji_of_nat n) = int n" using int_div_mod [of n 100] by simp
  have "c_hyaku \<in> set (kanji_of_nat n)" unfolding k using d by (simp add: kanji_place_def)
  then show ?thesis using u by (simp add: convertToArabic_hyaku)
qed (simp add: assms convertToArabic_below_100)

section \<open>Facts on detection\<close>

lemma base_reference_text [simp]: "sd_sourceText (base_reference m p a c) = m_text m"
  by (simp add: base_reference_def)

lemma default_reference_text [simp]: "sd_sourceText (default_reference m p b) = sd_sourceText b"
  by (simp add: default_reference_def)

lemma createReference_text [simp]: "sd_sourceText (createReference m p a c) = m_text m"
proof (cases "sp_subType p")
  case None
  then show ?thesis by (simp add: createReference_def)
next
  case (Some s)
  then show ?thesis by (cases s) (simp_all add: createReference_def Let_def)
qed

lemma detect_fold:
  assumes "foldl (detect_step a c) (refs, texts) pms = (refs', texts')" "distinct (map sd_sourceText refs)"
    "set texts = sd_sourceText ` set refs"
  shows "distinct (map sd_sourceText refs') \<and> sd_sourceText ` set refs' = sd_sourceText ` set refs \<union> (m_text \<circ> snd) ` set pms"
  using assms
proof (induction pms arbitrary: refs texts)
  case (Cons pm pms)
  obtain p m where pm: "pm = (p, m)" by force
  show ?case
  proof (cases "m_text m \<in> set texts")
    case True
    with Cons.prems pm Cons.IH [of refs texts] show ?thesis by auto
  next
    case False
    with Cons.prems pm Cons.IH [of "refs @ [createReference m p a c]" "List.insert (m_text m) texts"]
    show ?thesis by auto
  qed
qed simp

lemma static_patterns_consume: "list_all (\<lambda>p. 0 < min_len (sp_regex p)) patterns"
  unfolding patterns_def by (simp add: min_rounds_def)

section \<open>Properties\<close>

text \<open>for the numbers 1 to 999, Arabic digits are rewritten to the kanji numeral and the kanji
  numeral to the Arabic digits.\<close>

theorem numeral_roundtrip:
  assumes "0 < n" and "n < 1000"
  shows "convertToKanji (nat_str n) = kanji_of_nat n \<and> convertToArabic (kanji_of_nat n) = nat_str n"
  using assms by (simp add: convertToKanji_below_1000 convertToArabic_below_1000)

theorem numeral_roundtrip_witness:
  "convertToKanji (str ''566'') = [c_go, c_hyaku, c_roku, c_juu, c_roku] \<and> convertToArabic [c_go, c_hyaku, c_roku, c_juu, c_roku] = (str ''566'')"
proof -
  have "nat_str 566 = (str ''566'')" "kanji_of_nat 566 = [c_go, c_hyaku, c_roku, c_juu, c_roku]" by code_simp+
  with numeral_roundtrip [of 566] show ?thesis by simp
qed

text \<open>the detector reports each text that some pattern matches exactly once, and nothing else,
  and all its loops end.\<close>

theorem static_detect_exact:
  "distinct (map sd_sourceText (detectReferences t art ctx)) \<and>
   sd_sourceText ` set (detectReferences t art ctx) = {m_text m | p m. p \<in> set patterns \<and> m \<in> set (exec_all (sp_regex p) t)} \<and>
   list_all (\<lambda>p. exec_loop (sp_regex p) t 0 (exec_all (sp_regex p) t)) patterns"
proof -
  let ?pms = "concat (map (\<lambda>p. map (\<lambda>m. (p, m)) (exec_all (sp_regex p) t)) patterns)"
  obtain refs texts where f: "foldl (detect_step art ctx) ([], []) ?pms = (refs, texts)" by force
  from detect_fold [OF f] have "distinct (map sd_sourceText refs)" "sd_sourceText ` set refs = (m_text \<circ> snd) ` set ?pms" by auto
  moreover have "(m_text \<circ> snd) ` set ?pms = {m_text m | p m. p \<in> set patterns \<and> m \<in> set (exec_all (sp_regex p) t)}"
    by (auto simp: image_iff) force+
  moreover have "list_all (\<lambda>p. exec_loop (sp_regex p) t 0 (exec_all (sp_regex p) t)) patterns"
    using static_patterns_consume by (simp add: list_all_iff exec_loop_total exec_all_def)
  ultimately show ?thesis using f by (simp add: detectReferences_def)
qed

text \<open>A thousand and more is written as so many hundreds, and the number of an item alone is reported as an
  article number.\<close>

lemma thousands_as_hundreds: "convertToKanji (str ''1234'') = [c_juu, c_ni, c_hyaku, c_san, c_juu, c_yon]"
  by code_simp

lemma item_as_article:
  "map (\<lambda>r. (sd_targetArticleNumber r, sd_targetItemNumber r)) (detectReferences [c_dai, c_san, c_gou] [] None) = [(Some [c_san], Some [])]"
  by code_simp


end
