(* ===== verification/PositionDetector.thy ===== *)
theory PositionDetector
  imports JSRegex
begin

text \<open>
  \<^verbatim>\<open>src/services/enhanced-detector.ts\<close> and \<^verbatim>\<open>src/types/reference.ts\<close>: the detector that records where in the text and
  in the law a reference stands. The identifiers of the uuid package and the clock are arguments; the
  optional fields that no code fills are left out of the records. A number that may be \<open>NaN\<close> prints as
  \<open>num_str\<close> does.
\<close>

section \<open>Data\<close>

datatype ReferenceType = External | Internal | Relative | Structural | Range | Multiple | Application | Contextual
  | Conditional | Defined

datatype DetectionMethod = ByPattern | ByDictionary | ByContext | ByLLM | ByDefinition | ByLawNumber | ByRelative

record StructuralPosition =
  sp_lawId :: jsstr
  sp_lawName :: "jsstr option"
  sp_articleNumber :: jsstr
  sp_paragraphNumber :: "int option"
  sp_itemNumber :: "jsstr option"

record PartialPosition =
  pp_articleNumber :: "jsstr option"
  pp_paragraphNumber :: "int option"
  pp_itemNumber :: "jsstr option"

record TextPosition =
  tp_text :: jsstr
  tp_startPosition :: nat
  tp_endPosition :: nat
  tp_lineNumber :: nat
  tp_columnNumber :: int

record ReferenceRange =
  rg_startArticle :: jsstr
  rg_startParagraph :: "int option"
  rg_endArticle :: jsstr
  rg_endParagraph :: "int option"
  rg_inclusive :: bool

record EnhancedReference =
  er_id :: jsstr
  er_position :: TextPosition
  er_structural :: StructuralPosition
  er_context :: "jsstr option"
  er_targetLawId :: jsstr
  er_targetLawName :: jsstr
  er_target :: PartialPosition
  er_range :: "ReferenceRange option"
  er_type :: ReferenceType
  er_confidence :: rat
  er_detectionMethod :: DetectionMethod
  er_detectedAt :: int
  er_version :: jsstr

record DetectedReference =
  dt_type :: ReferenceType
  dt_text :: jsstr
  dt_targetLaw :: jsstr
  dt_targetLawId :: jsstr
  dt_targetArticle :: "jsstr option"
  dt_targetParagraph :: "int option"
  dt_articleNumber :: "int option option"
  dt_confidence :: rat
  dt_resolutionMethod :: DetectionMethod
  dt_position :: nat
  dt_enhanced :: EnhancedReference

text \<open>\<open>s.replace(/[^0-9]/g, '')\<close>\<close>

definition only_digits :: "jsstr \<Rightarrow> jsstr" where
  "only_digits s = replace_all (RCls True rng_digit) (\<lambda>_. []) s"

definition toDetectedReference :: "EnhancedReference \<Rightarrow> DetectedReference" where
  "toDetectedReference e =
     \<lparr>dt_type = er_type e, dt_text = tp_text (er_position e), dt_targetLaw = er_targetLawName e,
      dt_targetLawId = er_targetLawId e, dt_targetArticle = pp_articleNumber (er_target e),
      dt_targetParagraph = pp_paragraphNumber (er_target e),
      dt_articleNumber = (if sp_articleNumber (er_structural e) = [] then None
        else Some (parse_int (only_digits (sp_articleNumber (er_structural e))))),
      dt_confidence = er_confidence e, dt_resolutionMethod = er_detectionMethod e,
      dt_position = tp_startPosition (er_position e), dt_enhanced = e\<rparr>"

record Statistics =
  ss_total :: nat
  ss_byType :: "(ReferenceType, nat) jsmap"
  ss_high :: nat
  ss_medium :: nat
  ss_low :: nat
  ss_byMethod :: "(DetectionMethod, nat) jsmap"

record ReferenceDetectionResult =
  rs_references :: "EnhancedReference list"
  rs_statistics :: Statistics
  rs_processingTime :: int

section \<open>Helpers\<close>

definition normalizeNumber :: "jsstr \<Rightarrow> jsstr" where
  "normalizeNumber num = map (\<lambda>c. if 0xFF10 \<le> c \<and> c \<le> 0xFF19 then c - 0xFEE0 else c) num"

definition kanjiToNumber :: "jsstr \<Rightarrow> int" where
  "kanjiToNumber kanji =
     (case map_of [([c_ichi], 1), ([c_ni], 2), ([c_san], 3), ([c_yon], 4), ([c_go], 5), ([c_roku], 6), ([c_nana], 7), ([c_hachi], 8),
         ([c_kyuu], 9), ([c_juu], 10), ([c_juu, c_ichi], 11), ([c_juu, c_ni], 12), ([c_juu, c_san], 13), ([c_juu, c_yon], 14), ([c_juu, c_go], 15),
         ([c_ni, c_juu], 20), ([c_san, c_juu], 30), ([c_yon, c_juu], 40), ([c_go, c_juu], 50), ([c_hyaku], 100), ([c_sen], 1000)] kanji of
        Some n \<Rightarrow> n
      | None \<Rightarrow> (case parse_int (normalizeNumber kanji) of Some n \<Rightarrow> n | None \<Rightarrow> 0))"

definition getLawId :: "jsstr \<Rightarrow> jsstr" where
  "getLawId lawName =
     (case map_of [([c_min, c_hou], (str ''129AC0000000089'')), ([c_shou_com, c_hou], (str ''132AC0000000048'')), ([c_kei, c_hou], (str ''140AC0000000045'')),
         ([c_kai_meet, c_sha, c_hou], (str ''417AC0000000086'')), ([0x52B4, 0x50CD, 0x57FA, c_jun, c_hou], (str ''322AC0000000049''))] lawName of
        Some i \<Rightarrow> i | None \<Rightarrow> [])"

record currentContext =
  cc_lawId :: jsstr
  cc_lawName :: "jsstr option"

text \<open>The last characters before a position.\<close>

definition window :: "nat \<Rightarrow> jsstr \<Rightarrow> nat \<Rightarrow> jsstr" where
  "window n xml position = substring xml (position - n) position"

definition extractContext :: "currentContext option \<Rightarrow> jsstr \<Rightarrow> nat \<Rightarrow> StructuralPosition" where
  "extractContext cc xml position =
     (let articleMatch = rx_match (rseq [RLit [0x3C, 0x41, 0x72, 0x74, 0x69, 0x63, 0x6C, 0x65, 0x4E, 0x75, 0x6D, 0x3E, c_dai], RGrp 1 (rplus (RCls False rng_fwdigit)), RLit [c_jou]]) (window 1000 xml position);
          paragraphMatch = rx_match (rseq [RLit (str ''<ParagraphNum>''), RGrp 1 (rplus (RCls False rng_fwdigit)), RLit (str ''<'')]) (window 500 xml position);
          itemMatch = rx_match (rseq [RLit (str ''<ItemNum>''), RGrp 1 (rplus (RCls False rng_fwdigit)), RLit (str ''<'')]) (window 200 xml position)
      in \<lparr>sp_lawId = (case cc of None \<Rightarrow> [] | Some c \<Rightarrow> cc_lawId c),
          sp_lawName = (case cc of None \<Rightarrow> None | Some c \<Rightarrow> cc_lawName c),
          sp_articleNumber = (case articleMatch of None \<Rightarrow> [] | Some m \<Rightarrow> [c_dai] @ normalizeNumber (grp m 1) @ [c_jou]),
          sp_paragraphNumber = map_option (\<lambda>m. kanjiToNumber (grp m 1)) paragraphMatch,
          sp_itemNumber = (case itemMatch of None \<Rightarrow> None | Some m \<Rightarrow> cap m 1)\<rparr>)"

definition createTextPosition :: "rmatch \<Rightarrow> jsstr \<Rightarrow> TextPosition" where
  "createTextPosition m fullText =
     (let startPosition = m_index m; beforeText = substring fullText 0 startPosition
      in \<lparr>tp_text = m_text m, tp_startPosition = startPosition, tp_endPosition = startPosition + length (m_text m),
          tp_lineNumber = length (split_char 0xA beforeText),
          tp_columnNumber = (case last_index_of beforeText [0xA] of
              None \<Rightarrow> int startPosition + 1 | Some i \<Rightarrow> int startPosition - int i)\<rparr>)"

definition createEnhancedReference :: "TextPosition \<Rightarrow> StructuralPosition \<Rightarrow> jsstr \<Rightarrow> jsstr \<Rightarrow> PartialPosition \<Rightarrow>
    ReferenceType \<Rightarrow> rat \<Rightarrow> DetectionMethod \<Rightarrow> EnhancedReference" where
  "createEnhancedReference position structural lawId lawName target type confidence method =
     \<lparr>er_id = [], er_position = position, er_structural = structural, er_context = Some ((str ''...'') @ tp_text position @ (str ''...'')),
      er_targetLawId = lawId, er_targetLawName = lawName, er_target = target, er_range = None, er_type = type,
      er_confidence = confidence, er_detectionMethod = method, er_detectedAt = 0, er_version = (str ''2.0.0'')\<rparr>"

section \<open>The three searches\<close>

definition opt_number :: "rmatch \<Rightarrow> nat \<Rightarrow> int option" where
  "opt_number m k = (if truthy (cap m k) then Some (kanjiToNumber (grp m k)) else None)"

definition article_reference :: "currentContext option \<Rightarrow> jsstr \<Rightarrow> rmatch \<Rightarrow> EnhancedReference" where
  "article_reference cc text m =
     createEnhancedReference (createTextPosition m text) (extractContext cc text (m_index m))
       (getLawId (grp m 1)) (grp m 1)
       \<lparr>pp_articleNumber = Some ([c_dai] @ normalizeNumber (grp m 2) @ [c_jou]), pp_paragraphNumber = opt_number m 3,
        pp_itemNumber = (if truthy (cap m 4) then cap m 4 else None)\<rparr>
       External (95/100) ByPattern"

definition article_regex :: regex where
  "article_regex =
     (rseq [RGrp 1 (rseq [rplus (RCls True (rng_ws @ [(p_comma, p_comma), (p_stop, p_stop), (p_lparen, p_lparen), (p_rparen, p_rparen), (p_lquote, p_lquote), (p_rquote, p_rquote), (p_ldquote, p_ldquote), (p_rdquote, p_rdquote)])), ralt [RLit [c_hou], RLit [c_rei_order], RLit [c_ki, c_soku], RLit [c_jou, 0x4F8B]]]), RLit [c_dai], RGrp 2 (rplus (RCls False rng_fwdigit)), RLit [c_jou], ropt (rseq [RLit [c_dai], RGrp 3 (rplus (RCls False rng_fwdigit)), RLit [c_kou]]), ropt (rseq [RLit [c_dai], RGrp 4 (rplus (RCls False rng_fwdigit)), RLit [c_gou]])])"

definition detectArticleReferences :: "currentContext option \<Rightarrow> jsstr \<Rightarrow> EnhancedReference list" where
  "detectArticleReferences cc text = map (article_reference cc text) (exec_all article_regex text)"

datatype relativeType = PreviousArticle | NextArticle | PreviousParagraph | NextParagraph | PreviousNArticles
  | PreviousNParagraphs

definition relative_patterns :: "(regex \<times> relativeType) list" where
  "relative_patterns =
     [((RLit [c_zen, c_jou]), PreviousArticle), ((RLit [c_ji, c_jou]), NextArticle), ((RLit [c_zen, c_kou]), PreviousParagraph),
      ((RLit [c_ji, c_kou]), NextParagraph), ((rseq [RLit [c_zen], RGrp 1 (rplus (RCls False rng_kj2_10)), RLit [c_jou]]), PreviousNArticles),
      ((rseq [RLit [c_zen], RGrp 1 (rplus (RCls False rng_kj2_10)), RLit [c_kou]]), PreviousNParagraphs)]"

text \<open>\<open>x || d\<close> on a number that may be missing.\<close>

definition or_num :: "int option \<Rightarrow> int \<Rightarrow> int" where
  "or_num x d = (case x of None \<Rightarrow> d | Some k \<Rightarrow> if k = 0 then d else k)"

definition resolveRelativeReference :: "StructuralPosition \<Rightarrow> relativeType \<Rightarrow> jsstr option \<Rightarrow> PartialPosition" where
  "resolveRelativeReference current type n =
     (let cur = parse_int (only_digits (sp_articleNumber current));
          num = (if truthy n then kanjiToNumber (the n) else 1);
          article = (\<lambda>a. \<lparr>pp_articleNumber = Some ([c_dai] @ num_str a @ [c_jou]), pp_paragraphNumber = None, pp_itemNumber = None\<rparr>);
          paragraph = (\<lambda>p. \<lparr>pp_articleNumber = Some (sp_articleNumber current), pp_paragraphNumber = Some p, pp_itemNumber = None\<rparr>)
      in case type of
           PreviousArticle \<Rightarrow> article (nadd cur (-1))
         | NextArticle \<Rightarrow> article (nadd cur 1)
         | PreviousParagraph \<Rightarrow> paragraph (or_num (sp_paragraphNumber current) 2 - 1)
         | NextParagraph \<Rightarrow> paragraph (or_num (sp_paragraphNumber current) 1 + 1)
         | PreviousNArticles \<Rightarrow> article (nadd cur (- num))
         | PreviousNParagraphs \<Rightarrow> paragraph (or_num (sp_paragraphNumber current) (num + 1) - num))"

definition relative_reference :: "currentContext option \<Rightarrow> jsstr \<Rightarrow> relativeType \<Rightarrow> rmatch \<Rightarrow> EnhancedReference" where
  "relative_reference cc text type m =
     (let structural = extractContext cc text (m_index m)
      in createEnhancedReference (createTextPosition m text) structural (sp_lawId structural)
           (case sp_lawName structural of None \<Rightarrow> [] | Some n \<Rightarrow> n)
           (resolveRelativeReference structural type (cap m 1)) Relative (9/10) ByRelative)"

definition detectRelativeReferences :: "currentContext option \<Rightarrow> jsstr \<Rightarrow> EnhancedReference list" where
  "detectRelativeReferences cc text =
     concat (map (\<lambda>(r, type). map (relative_reference cc text type) (exec_all r text)) relative_patterns)"

definition range_reference :: "currentContext option \<Rightarrow> jsstr \<Rightarrow> rmatch \<Rightarrow> EnhancedReference" where
  "range_reference cc text m =
     (let structural = extractContext cc text (m_index m)
      in \<lparr>er_id = [], er_position = createTextPosition m text, er_structural = structural, er_context = None,
          er_targetLawId = sp_lawId structural,
          er_targetLawName = (case sp_lawName structural of None \<Rightarrow> [] | Some n \<Rightarrow> n),
          er_target = \<lparr>pp_articleNumber = None, pp_paragraphNumber = None, pp_itemNumber = None\<rparr>,
          er_range = Some \<lparr>rg_startArticle = [c_dai] @ normalizeNumber (grp m 1) @ [c_jou], rg_startParagraph = opt_number m 2,
            rg_endArticle = [c_dai] @ normalizeNumber (grp m 3) @ [c_jou], rg_endParagraph = opt_number m 4, rg_inclusive = True\<rparr>,
          er_type = Range, er_confidence = 95/100, er_detectionMethod = ByPattern, er_detectedAt = 0,
          er_version = (str ''2.0.0'')\<rparr>)"

definition range_regex :: regex where
  "range_regex = (rseq [RLit [c_dai], RGrp 1 (rplus (RCls False rng_fwdigit)), RLit [c_jou], ropt (rseq [RLit [c_dai], RGrp 2 (rplus (RCls False rng_fwdigit)), RLit [c_kou]]), RLit [h_ka, h_ra, c_dai], RGrp 3 (rplus (RCls False rng_fwdigit)), RLit [c_jou], ropt (rseq [RLit [c_dai], RGrp 4 (rplus (RCls False rng_fwdigit)), RLit [c_kou]]), RLit [h_ma, h_de]])"

definition detectRangeReferences :: "currentContext option \<Rightarrow> jsstr \<Rightarrow> EnhancedReference list" where
  "detectRangeReferences cc text = map (range_reference cc text) (exec_all range_regex text)"

section \<open>The method\<close>

definition duplicate_key :: "EnhancedReference \<Rightarrow> jsstr" where
  "duplicate_key r = nat_str (tp_startPosition (er_position r)) @ (str ''-'') @ er_targetLawId r @ (str ''-'') @
     (case pp_articleNumber (er_target r) of None \<Rightarrow> (str ''undefined'') | Some a \<Rightarrow> a)"

definition removeDuplicates :: "EnhancedReference list \<Rightarrow> EnhancedReference list" where
  "removeDuplicates refs = first_by duplicate_key [] refs"

definition generateStatistics :: "EnhancedReference list \<Rightarrow> Statistics" where
  "generateStatistics refs =
     \<lparr>ss_total = length refs, ss_byType = tally er_type refs,
      ss_high = length (filter (\<lambda>r. 9/10 \<le> er_confidence r) refs),
      ss_medium = length (filter (\<lambda>r. \<not> 9/10 \<le> er_confidence r \<and> 7/10 \<le> er_confidence r) refs),
      ss_low = length (filter (\<lambda>r. \<not> 9/10 \<le> er_confidence r \<and> \<not> 7/10 \<le> er_confidence r) refs),
      ss_byMethod = tally er_detectionMethod refs\<rparr>"

text \<open>The identifier and the time of each reference, in the order in which the references are made.\<close>

definition with_ids :: "(nat \<Rightarrow> jsstr) \<Rightarrow> (nat \<Rightarrow> int) \<Rightarrow> EnhancedReference list \<Rightarrow> EnhancedReference list" where
  "with_ids uuid clock refs = map (\<lambda>(k, r). r\<lparr>er_id := uuid k, er_detectedAt := clock k\<rparr>) (enumerate 0 refs)"

definition set_context :: "jsstr option \<Rightarrow> jsstr option \<Rightarrow> currentContext option \<Rightarrow> currentContext option" where
  "set_context lawId lawName cc =
     (if truthy lawId then Some \<lparr>cc_lawId = the lawId, cc_lawName = lawName\<rparr> else cc)"

definition detectReferences :: "(nat \<Rightarrow> jsstr) \<Rightarrow> (nat \<Rightarrow> int) \<Rightarrow> int \<Rightarrow> int \<Rightarrow> jsstr \<Rightarrow> jsstr option \<Rightarrow> jsstr option \<Rightarrow> currentContext option \<Rightarrow>
    ReferenceDetectionResult \<times> currentContext option" where
  "detectReferences uuid clock startTime endTime text lawId lawName cc =
     (let cc1 = set_context lawId lawName cc;
          refs = removeDuplicates (with_ids uuid clock (detectArticleReferences cc1 text @
            detectRelativeReferences cc1 text @ detectRangeReferences cc1 text))
      in (\<lparr>rs_references = refs, rs_statistics = generateStatistics refs, rs_processingTime = endTime - startTime\<rparr>, cc1))"

definition detectReferencesCompat :: "(nat \<Rightarrow> jsstr) \<Rightarrow> (nat \<Rightarrow> int) \<Rightarrow> int \<Rightarrow> int \<Rightarrow> jsstr \<Rightarrow> jsstr option \<Rightarrow> currentContext option \<Rightarrow>
    DetectedReference list \<times> currentContext option" where
  "detectReferencesCompat uuid clock startTime endTime text lawId cc =
     (case detectReferences uuid clock startTime endTime text lawId None cc of
        (result, cc1) \<Rightarrow> (map toDetectedReference (rs_references result), cc1))"

section \<open>Lines and columns\<close>

lemma length_split_char: "length (split_char d s) = Suc (count_list s d)"
proof (induction s)
  case (Cons c s)
  then show ?case by (cases "split_char d s") auto
qed simp

lemma last_index_absent: "d \<notin> set s \<Longrightarrow> last_index_from i s [d] = None"
  by (induction s arbitrary: i) (auto simp: starts_with_def)

lemma last_index_from_char: "d \<notin> set b \<Longrightarrow> last_index_from i (a @ d # b) [d] = Some (i + length a)"
proof (induction a arbitrary: i)
  case Nil
  then have "last_index_from (Suc i) b [d] = None" by (rule last_index_absent)
  then show ?case by (simp add: starts_with_def)
qed simp

text \<open>The text before a position splits into whole lines and the current line.\<close>

lemma current_line:
  "\<exists>lines cur. s = lines @ cur \<and> d \<notin> set cur \<and> (lines = [] \<or> last lines = d) \<and>
     (case last_index_of s [d] of None \<Rightarrow> int (length s) + 1 | Some i \<Rightarrow> int (length s) - int i) = int (length cur) + 1 \<and>
     count_list lines d = count_list s d"
proof (cases "d \<in> set s")
  case True
  then obtain a b where s: "s = a @ d # b" "d \<notin> set b" by (metis split_list_last)
  then have "last_index_of s [d] = Some (length a)" by (simp add: last_index_of_def last_index_from_char)
  with s show ?thesis by - (rule exI [of _ "a @ [d]"], rule exI [of _ b], simp add: count_list_0_iff)
next
  case False
  then have "last_index_from 0 s [d] = None" by (rule last_index_absent)
  with False show ?thesis by - (rule exI [of _ "[]"], rule exI [of _ s], simp add: last_index_of_def count_list_0_iff)
qed

definition placed :: "jsstr \<Rightarrow> TextPosition \<Rightarrow> bool" where
  "placed s p \<longleftrightarrow> (\<exists>lines cur rest. s = lines @ cur @ tp_text p @ rest \<and> 0xA \<notin> set cur \<and>
     (lines = [] \<or> last lines = 0xA) \<and> tp_startPosition p = length (lines @ cur) \<and>
     tp_endPosition p = length (lines @ cur @ tp_text p) \<and>
     tp_lineNumber p = Suc (count_list lines 0xA) \<and> tp_columnNumber p = int (length cur) + 1)"

lemma createTextPosition_placed:
  assumes "occurs_at s (m_index m) (m_text m)"
  shows "placed s (createTextPosition m s)"
proof -
  from assms obtain a b where s: "s = a @ m_text m @ b" "m_index m = length a" by (auto simp: occurs_at_split)
  then have a: "substring s 0 (length a) = a" by (simp add: substring_def)
  obtain lines cur where l: "a = lines @ cur" "0xA \<notin> set cur" "lines = [] \<or> last lines = 0xA"
    "(case last_index_of a [0xA] of None \<Rightarrow> int (length a) + 1 | Some i \<Rightarrow> int (length a) - int i) = int (length cur) + 1"
    "count_list lines 0xA = count_list a 0xA" using current_line [of a "0xA"] by blast
  moreover have "createTextPosition m s = \<lparr>tp_text = m_text m, tp_startPosition = length a,
      tp_endPosition = length a + length (m_text m), tp_lineNumber = Suc (count_list a 0xA),
      tp_columnNumber = int (length cur) + 1\<rparr>"
    using l(4) by (simp add: createTextPosition_def Let_def s(2) a length_split_char)
  ultimately show ?thesis using s unfolding placed_def
    by - (rule exI [of _ lines], rule exI [of _ cur], rule exI [of _ b], simp)
qed

lemma placed_occurs: "placed s p \<Longrightarrow> occurs_at s (tp_startPosition p) (tp_text p)"
  by (auto simp: placed_def occurs_at_def)

text \<open>What every reference of the three searches has, whatever its identifier and time.\<close>

definition all_references :: "currentContext option \<Rightarrow> jsstr \<Rightarrow> EnhancedReference list" where
  "all_references cc s = detectArticleReferences cc s @ detectRelativeReferences cc s @ detectRangeReferences cc s"

lemma searches_consume:
  "0 < min_len article_regex" "0 < min_len range_regex" "list_all (\<lambda>(r, k). 0 < min_len r) relative_patterns"
  by code_simp+

lemma made_position [simp]:
  "er_position (article_reference cc s m) = createTextPosition m s"
  "er_position (relative_reference cc s k m) = createTextPosition m s"
  "er_position (range_reference cc s m) = createTextPosition m s"
  by (simp_all add: article_reference_def relative_reference_def range_reference_def createEnhancedReference_def Let_def)

lemma all_references_placed:
  assumes "r \<in> set (all_references cc s)"
  shows "placed s (er_position r)"
proof -
  have "\<exists>m g. 0 < min_len g \<and> m \<in> set (exec_all g s) \<and> er_position r = createTextPosition m s"
    using assms searches_consume
    by (fastforce simp: all_references_def detectArticleReferences_def detectRelativeReferences_def
        detectRangeReferences_def list_all_iff)
  then show ?thesis using exec_all_occurs createTextPosition_placed by metis
qed

lemma with_ids_member:
  "r \<in> set (with_ids uuid clock rs) \<Longrightarrow> \<exists>r' k. r' \<in> set rs \<and> r = r'\<lparr>er_id := uuid k, er_detectedAt := clock k\<rparr>"
  by (auto simp: with_ids_def in_set_enumerate_eq) (metis nth_mem)

lemma with_ids_keys: "duplicate_key ` set (with_ids uuid clock rs) = duplicate_key ` set rs"
proof -
  have "map duplicate_key (with_ids uuid clock rs) = map (duplicate_key \<circ> snd) (enumerate 0 rs)"
    by (auto simp: with_ids_def duplicate_key_def)
  also have "\<dots> = map duplicate_key rs" by (simp flip: map_map)
  finally have "set (map duplicate_key (with_ids uuid clock rs)) = set (map duplicate_key rs)" by simp
  then show ?thesis by simp
qed

lemma detected_references:
  "rs_references (fst (detectReferences uuid clock t0 t1 s lawId lawName cc)) =
     removeDuplicates (with_ids uuid clock (all_references (set_context lawId lawName cc) s))"
  by (simp add: detectReferences_def all_references_def Let_def)

interpretation positions: located_detector
  "\<lambda>s. rs_references (fst (detectReferences uuid clock t0 t1 s lawId lawName cc))"
  "\<lambda>r. tp_text (er_position r)" "\<lambda>r. tp_startPosition (er_position r)"
  for uuid clock t0 t1 lawId lawName cc
proof
  fix r s assume "r \<in> set (rs_references (fst (detectReferences uuid clock t0 t1 s lawId lawName cc)))"
  then obtain r' where "r' \<in> set (all_references (set_context lawId lawName cc) s)" "er_position r = er_position r'"
    unfolding detected_references by (fastforce simp: removeDuplicates_def dest: first_by_sub with_ids_member)
  then show "occurs_at s (tp_startPosition (er_position r)) (tp_text (er_position r))"
    using all_references_placed by (auto intro: placed_occurs)
qed

section \<open>Properties\<close>

text \<open>every reference of a result stands in the text where it says, by character, line and
  column: the text splits into whole lines, the part of the current line before the reference, the
  reference and the rest. The text between its two positions is the reference.\<close>

theorem positions_exact:
  assumes "r \<in> set (rs_references (fst (detectReferences uuid clock t0 t1 s lawId lawName cc)))"
  shows "\<exists>lines cur rest. s = lines @ cur @ tp_text (er_position r) @ rest \<and> 0xA \<notin> set cur \<and>
     (lines = [] \<or> last lines = 0xA) \<and> tp_startPosition (er_position r) = length (lines @ cur) \<and>
     tp_endPosition (er_position r) = length (lines @ cur @ tp_text (er_position r)) \<and>
     tp_lineNumber (er_position r) = Suc (count_list lines 0xA) \<and>
     tp_columnNumber (er_position r) = int (length cur) + 1"
proof -
  obtain r' where "r' \<in> set (all_references (set_context lawId lawName cc) s)" "er_position r = er_position r'"
    using assms unfolding detected_references by (fastforce simp: removeDuplicates_def dest: first_by_sub with_ids_member)
  then show ?thesis using all_references_placed [of r'] by (simp add: placed_def)
qed

text \<open>A reference of the second line: the positions of the model and the split that the theorem gives.\<close>

theorem positions_exact_witness:
  "\<exists>r \<in> set (rs_references (fst (detectReferences (\<lambda>_. []) int 0 1 ([h_a] @ 0xA # [c_mata, h_ha, c_zen, c_jou]) (Some (str ''L'')) None None))).
     tp_lineNumber (er_position r) = 2 \<and> tp_columnNumber (er_position r) = 3 \<and>
     (\<exists>lines cur rest. [h_a] @ 0xA # [c_mata, h_ha, c_zen, c_jou] = lines @ cur @ tp_text (er_position r) @ rest \<and> 0xA \<notin> set cur \<and>
       tp_columnNumber (er_position r) = int (length cur) + 1)"
proof -
  let ?refs = "rs_references (fst (detectReferences (\<lambda>_. []) int 0 1 ([h_a] @ 0xA # [c_mata, h_ha, c_zen, c_jou]) (Some (str ''L'')) None None))"
  have "map (\<lambda>r. (tp_lineNumber (er_position r), tp_columnNumber (er_position r))) ?refs = [(2, 3)]" by code_simp
  then obtain r where r: "?refs = [r]" "tp_lineNumber (er_position r) = 2" "tp_columnNumber (er_position r) = 3" by auto
  then have "r \<in> set ?refs" by simp
  from positions_exact [OF this] r show ?thesis by auto
qed

text \<open>no two references of a result have the same start, law and article, every such key of the
  three searches is there, and the statistics count each reference once by confidence, once by type
  and once by method.\<close>

theorem statistics_exact:
  "let result = fst (detectReferences uuid clock t0 t1 s lawId lawName cc); refs = rs_references result;
       stats = rs_statistics result; cc1 = set_context lawId lawName cc
   in distinct (map duplicate_key refs) \<and>
      duplicate_key ` set refs = duplicate_key ` set (detectArticleReferences cc1 s @ detectRelativeReferences cc1 s @
        detectRangeReferences cc1 s) \<and>
      ss_total stats = length refs \<and> ss_high stats + ss_medium stats + ss_low stats = length refs \<and>
      sum_list (map snd (ss_byType stats)) = length refs \<and> sum_list (map snd (ss_byMethod stats)) = length refs \<and>
      (\<forall>k. map_of (ss_byType stats) k = (let n = length (filter (\<lambda>r. er_type r = k) refs) in if n = 0 then None else Some n))"
proof -
  have split3: "length (filter P xs) + length (filter (\<lambda>x. \<not> P x \<and> Q x) xs) +
      length (filter (\<lambda>x. \<not> P x \<and> \<not> Q x) xs) = length xs" for P Q and xs :: "EnhancedReference list"
    by (induction xs) auto
  show ?thesis
    using first_by_keys [of duplicate_key "[]"] with_ids_keys [of uuid clock "all_references (set_context lawId lawName cc) s"]
      split3 [of "\<lambda>r. 9/10 \<le> er_confidence r" _ "\<lambda>r. 7/10 \<le> er_confidence r"]
    by (simp add: detectReferences_def removeDuplicates_def generateStatistics_def Let_def sum_tally tally_of all_references_def)
qed

text \<open>The article number is the first in the window, not the nearest; an unknown numeral counts as zero; and the
  article before the first one is numbered zero.\<close>

lemma first_article_in_window:
  "sp_articleNumber (extractContext None [0x3C, 0x41, 0x72, 0x74, 0x69, 0x63, 0x6C, 0x65, 0x4E, 0x75, 0x6D, 0x3E, c_dai, 0x31, c_jou, 0x3C, 0x41, 0x72, 0x74, 0x69, 0x63, 0x6C, 0x65, 0x4E, 0x75, 0x6D, 0x3E, c_dai, 0x32, c_jou] 30) = [c_dai, 0x31, c_jou]"
  by code_simp

lemma unknown_numeral_zero: "kanjiToNumber [c_juu, c_roku] = 0"
  by code_simp

lemma article_before_first:
  "pp_articleNumber (resolveRelativeReference
     \<lparr>sp_lawId = [], sp_lawName = None, sp_articleNumber = [c_dai, 0x31, c_jou], sp_paragraphNumber = None, sp_itemNumber = None\<rparr>
     PreviousArticle None) = Some [c_dai, 0x30, c_jou]"
  by code_simp


end
