(* ===== verification/Abbreviations.thy ===== *)
theory Abbreviations
  imports JSRegex
begin

text \<open>
  \<^verbatim>\<open>src/lib/abbreviation-dictionary.ts\<close>: the dictionary of abbreviated law names and the search for them. The pattern
  of a name is made at run time from the escaped name, so it matches exactly the characters of the
  name: the model builds that pattern. A name that is empty makes a pattern that matches everywhere
  without consuming anything, and then the search does not end; \<open>None\<close> is that outcome. The state of
  the \<open>RegExp\<close> objects is reset before each use and is left out.
\<close>

section \<open>Data\<close>

datatype category = Procedure | Commercial | Criminal | Civil | Administrative | Special

record AbbreviationEntry =
  ae_abbreviation :: jsstr
  ae_fullName :: jsstr
  ae_lawNumber :: "jsstr option"
  ae_category :: category
  ae_commonArticles :: "jsstr list option"
  ae_aliases :: "jsstr list option"

abbreviation entry :: "jsstr \<Rightarrow> jsstr \<Rightarrow> jsstr option \<Rightarrow> category \<Rightarrow> jsstr list option \<Rightarrow> jsstr list option \<Rightarrow> AbbreviationEntry" where
  "entry a f n c arts al \<equiv> \<lparr>ae_abbreviation = a, ae_fullName = f, ae_lawNumber = n, ae_category = c,
     ae_commonArticles = arts, ae_aliases = al\<rparr>"

record AbbreviationDictionary =
  ad_dictionary :: "(jsstr, AbbreviationEntry) jsmap"
  ad_regexPatterns :: "(jsstr, regex) jsmap"

text \<open>The entries of the source: first the laws of procedure, commerce, insolvency, labour and intellectual property;
  then tax, administrative and special-measures laws, other frequent ones and the environment;
  then welfare, education, medicine, finance and international relations;
  then other important laws, consumers and real estate.\<close>

definition procedure_entries :: "AbbreviationEntry list" where
  "procedure_entries =
     [entry [c_min, 0x8A34] [c_min, 0x4E8B, 0x8A34, 0x8A1F, c_hou] (Some [0x5E73, 0x6210, c_hachi, 0x5E74, c_hou, c_ritsu, c_dai, c_hyaku, c_kyuu, c_gou]) Procedure
        (Some [[c_dai, c_ni, c_hyaku, c_yon, c_juu, c_hachi, c_jou], [c_dai, c_hyaku, c_jou], [c_dai, c_hyaku, c_juu, c_nana, c_jou]]) (Some [[c_min, 0x8A34, c_hou], [c_min, 0x4E8B, 0x8A34, 0x8A1F]]),
      entry [c_kei, 0x8A34] [c_kei, 0x4E8B, 0x8A34, 0x8A1F, c_hou] (Some [0x662D, 0x548C, c_ni, c_juu, c_san, 0x5E74, c_hou, c_ritsu, c_dai, c_hyaku, c_san, c_juu, c_ichi, c_gou]) Procedure
        (Some [[c_dai, c_san, c_hyaku, c_jou], [c_dai, c_ni, c_hyaku, c_jou]]) (Some [[c_kei, 0x8A34, c_hou], [c_kei, 0x4E8B, 0x8A34, 0x8A1F]]),
      entry [c_min, 0x57F7] [c_min, 0x4E8B, 0x57F7, 0x884C, c_hou] (Some [0x662D, 0x548C, c_go, c_juu, c_yon, 0x5E74, c_hou, c_ritsu, c_dai, c_yon, c_gou]) Procedure
        (Some [[c_dai, c_ni, c_juu, c_jou], [c_dai, c_ni, c_juu, c_ni, c_jou]]) (Some [[c_min, 0x57F7, c_hou], [c_min, 0x4E8B, 0x57F7, 0x884C]]),
      entry [c_min, 0x4FDD] [c_min, 0x4E8B, 0x4FDD, 0x5168, c_hou] (Some [0x5E73, 0x6210, 0x5143, 0x5E74, c_hou, c_ritsu, c_dai, c_kyuu, c_juu, c_ichi, c_gou]) Procedure
        (Some [[c_dai, c_ni, c_juu, c_jou], [c_dai, c_ni, c_juu, c_san, c_jou]]) (Some [[c_min, 0x4FDD, c_hou], [c_min, 0x4E8B, 0x4FDD, 0x5168]]),
      entry [0x91D1, c_shou_com, c_hou] [0x91D1, 0x878D, c_shou_com, 0x54C1, 0x53D6, 0x5F15, c_hou] (Some [0x662D, 0x548C, c_ni, c_juu, c_san, 0x5E74, c_hou, c_ritsu, c_dai, c_ni, c_juu, c_go, c_gou]) Commercial
        (Some [[c_dai, c_ni, c_jou], [c_dai, c_hyaku, c_kyuu, c_juu, c_nana, c_jou]]) (Some [[0x91D1, 0x878D, c_shou_com, 0x54C1, 0x53D6, 0x5F15], [0x8A3C, 0x53D6, c_hou]]),
      entry [0x72EC, 0x7981, c_hou] [0x79C1, 0x7684, 0x72EC, 0x5360, h_no, 0x7981, 0x6B62, c_oyo, h_bi, 0x516C, c_sei, 0x53D6, 0x5F15, h_no, 0x78BA, 0x4FDD, h_ni, 0x95A2, h_su, h_ru, c_hou, c_ritsu] (Some [0x662D, 0x548C, c_ni, c_juu, c_ni, 0x5E74, c_hou, c_ritsu, c_dai, c_go, c_juu, c_yon, c_gou]) Commercial
        (Some [[c_dai, c_san, c_jou], [c_dai, c_juu, c_kyuu, c_jou]]) (Some [[0x72EC, 0x5360, 0x7981, 0x6B62, c_hou], [0x53CD, 0x30C8, 0x30E9, 0x30B9, 0x30C8, c_hou]]),
      entry [0x4E0B, 0x8ACB, c_hou] [0x4E0B, 0x8ACB, 0x4EE3, 0x91D1, 0x652F, 0x6255, 0x9045, 0x5EF6, 0x7B49, 0x9632, 0x6B62, c_hou] (Some [0x662D, 0x548C, c_san, c_juu, c_ichi, 0x5E74, c_hou, c_ritsu, c_dai, c_hyaku, c_ni, c_juu, c_gou]) Commercial
        (Some [[c_dai, c_san, c_jou], [c_dai, c_yon, c_jou]]) (Some [[0x4E0B, 0x8ACB, 0x4EE3, 0x91D1, c_hou]]),
      entry [0x7834, 0x7523, c_hou] [0x7834, 0x7523, c_hou] (Some [0x5E73, 0x6210, c_juu, c_roku, 0x5E74, c_hou, c_ritsu, c_dai, c_nana, c_juu, c_go, c_gou]) Commercial
        (Some [[c_dai, c_ni, c_jou], [c_dai, c_hyaku, c_roku, c_juu, c_jou]]) (Some [[0x7834, 0x7523]]),
      entry [c_min, 0x518D, c_hou] [c_min, 0x4E8B, 0x518D, 0x751F, c_hou] (Some [0x5E73, 0x6210, c_juu, c_ichi, 0x5E74, c_hou, c_ritsu, c_dai, c_ni, c_hyaku, c_ni, c_juu, c_go, c_gou]) Commercial
        (Some [[c_dai, c_ni, c_jou], [c_dai, c_hyaku, c_nana, c_juu, c_yon, c_jou]]) (Some [[c_min, 0x4E8B, 0x518D, 0x751F], [c_min, 0x518D]]),
      entry [c_kai_meet, 0x66F4, c_hou] [c_kai_meet, c_sha, 0x66F4, 0x751F, c_hou] (Some [0x5E73, 0x6210, c_juu, c_yon, 0x5E74, c_hou, c_ritsu, c_dai, c_hyaku, c_go, c_juu, c_yon, c_gou]) Commercial
        (Some [[c_dai, c_ni, c_jou], [c_dai, c_ni, c_hyaku, c_jou]]) (Some [[c_kai_meet, c_sha, 0x66F4, 0x751F], [c_kai_meet, 0x66F4]]),
      entry [0x52B4, 0x57FA, c_hou] [0x52B4, 0x50CD, 0x57FA, c_jun, c_hou] (Some [0x662D, 0x548C, c_ni, c_juu, c_ni, 0x5E74, c_hou, c_ritsu, c_dai, c_yon, c_juu, c_kyuu, c_gou]) Administrative
        (Some [[c_dai, c_san, c_juu, c_ni, c_jou], [c_dai, c_san, c_juu, c_roku, c_jou]]) (Some [[0x52B4, 0x50CD, 0x57FA, c_jun], [0x52B4, 0x57FA]]),
      entry [0x52B4, 0x5951, c_hou] [0x52B4, 0x50CD, 0x5951, 0x7D04, c_hou] (Some [0x5E73, 0x6210, c_juu, c_kyuu, 0x5E74, c_hou, c_ritsu, c_dai, c_hyaku, c_ni, c_juu, c_hachi, c_gou]) Administrative
        (Some [[c_dai, c_juu, c_roku, c_jou], [c_dai, c_juu, c_nana, c_jou]]) (Some [[0x52B4, 0x50CD, 0x5951, 0x7D04]]),
      entry [0x52B4, 0x7D44, c_hou] [0x52B4, 0x50CD, 0x7D44, 0x5408, c_hou] (Some [0x662D, 0x548C, c_ni, c_juu, c_yon, 0x5E74, c_hou, c_ritsu, c_dai, c_hyaku, c_nana, c_juu, c_yon, c_gou]) Administrative
        (Some [[c_dai, c_nana, c_jou], [c_dai, c_juu, c_yon, c_jou]]) (Some [[0x52B4, 0x50CD, 0x7D44, 0x5408]]),
      entry [0x7279, 0x8A31, c_hou] [0x7279, 0x8A31, c_hou] (Some [0x662D, 0x548C, c_san, c_juu, c_yon, 0x5E74, c_hou, c_ritsu, c_dai, c_hyaku, c_ni, c_juu, c_ichi, c_gou]) Special
        (Some [[c_dai, c_hyaku, c_go, c_jou], [c_dai, c_hyaku, c_go, c_jou, h_no, c_san]]) (Some [[0x7279, 0x8A31]]),
      entry [0x8457, 0x4F5C, 0x6A29, c_hou] [0x8457, 0x4F5C, 0x6A29, c_hou] (Some [0x662D, 0x548C, c_yon, c_juu, c_go, 0x5E74, c_hou, c_ritsu, c_dai, c_yon, c_juu, c_hachi, c_gou]) Special
        (Some [[c_dai, c_ni, c_jou], [c_dai, c_hyaku, c_juu, c_yon, c_jou]]) (Some [[0x8457, 0x4F5C, 0x6A29], [0x8457, 0x4F5C]]),
      entry [c_shou_com, 0x6A19, c_hou] [c_shou_com, 0x6A19, c_hou] (Some [0x662D, 0x548C, c_san, c_juu, c_yon, 0x5E74, c_hou, c_ritsu, c_dai, c_hyaku, c_ni, c_juu, c_nana, c_gou]) Special
        (Some [[c_dai, c_ni, c_jou], [c_dai, c_san, c_juu, c_hachi, c_jou]]) (Some [[c_shou_com, 0x6A19]])]"

definition tax_entries :: "AbbreviationEntry list" where
  "tax_entries =
     [entry [0x6240, 0x5F97, 0x7A0E, c_hou] [0x6240, 0x5F97, 0x7A0E, c_hou] (Some [0x662D, 0x548C, c_yon, c_juu, 0x5E74, c_hou, c_ritsu, c_dai, c_san, c_juu, c_san, c_gou]) Administrative
        (Some [[c_dai, c_ni, c_jou], [c_dai, c_san, c_juu, c_roku, c_jou]]) (Some [[0x6240, 0x5F97, 0x7A0E], [0x6240, 0x7A0E]]),
      entry [c_hou, 0x4EBA, 0x7A0E, c_hou] [c_hou, 0x4EBA, 0x7A0E, c_hou] (Some [0x662D, 0x548C, c_yon, c_juu, 0x5E74, c_hou, c_ritsu, c_dai, c_san, c_juu, c_yon, c_gou]) Administrative
        (Some [[c_dai, c_ni, c_jou], [c_dai, c_ni, c_juu, c_ni, c_jou]]) (Some [[c_hou, 0x4EBA, 0x7A0E], [c_hou, 0x7A0E]]),
      entry [0x6D88, 0x8CBB, 0x7A0E, c_hou] [0x6D88, 0x8CBB, 0x7A0E, c_hou] (Some [0x662D, 0x548C, c_roku, c_juu, c_san, 0x5E74, c_hou, c_ritsu, c_dai, c_hyaku, c_hachi, c_gou]) Administrative
        (Some [[c_dai, c_ni, c_jou], [c_dai, c_ni, c_juu, c_hachi, c_jou]]) (Some [[0x6D88, 0x8CBB, 0x7A0E], [0x6D88, 0x7A0E]]),
      entry [0x884C, 0x653F, 0x624B, 0x7D9A, c_hou] [0x884C, 0x653F, 0x624B, 0x7D9A, c_hou] (Some [0x5E73, 0x6210, c_go, 0x5E74, c_hou, c_ritsu, c_dai, c_hachi, c_juu, c_hachi, c_gou]) Administrative
        (Some [[c_dai, c_ni, c_jou], [c_dai, c_juu, c_ni, c_jou]]) (Some [[0x884C, 0x624B, c_hou], [0x884C, 0x653F, 0x624B, 0x7D9A]]),
      entry [0x884C, 0x653F, 0x4E8B, 0x4EF6, 0x8A34, 0x8A1F, c_hou] [0x884C, 0x653F, 0x4E8B, 0x4EF6, 0x8A34, 0x8A1F, c_hou] (Some [0x662D, 0x548C, c_san, c_juu, c_nana, 0x5E74, c_hou, c_ritsu, c_dai, c_hyaku, c_san, c_juu, c_kyuu, c_gou]) Administrative
        (Some [[c_dai, c_san, c_jou], [c_dai, c_kyuu, c_jou]]) (Some [[0x884C, 0x8A34, c_hou], [0x884C, 0x8A34]]),
      entry [0x56FD, 0x5BB6, 0x8CE0, 0x511F, c_hou] [0x56FD, 0x5BB6, 0x8CE0, 0x511F, c_hou] (Some [0x662D, 0x548C, c_ni, c_juu, c_ni, 0x5E74, c_hou, c_ritsu, c_dai, c_hyaku, c_ni, c_juu, c_go, c_gou]) Administrative
        (Some [[c_dai, c_ichi, c_jou], [c_dai, c_ni, c_jou]]) (Some [[0x56FD, 0x8CE0, c_hou], [0x56FD, 0x8CE0]]),
      entry [0x7279, 0x63AA, c_hou] [0x7279, c_betsu, 0x63AA, 0x7F6E, c_hou] None Special
        None (Some [[0x7279, c_betsu, 0x63AA, 0x7F6E]]),
      entry [0x66AB, c_tei, 0x63AA, 0x7F6E, c_hou] [0x66AB, c_tei, 0x63AA, 0x7F6E, c_hou] None Special
        None (Some [[0x66AB, c_tei, 0x63AA, 0x7F6E]]),
      entry [0x5EFA, 0x57FA, c_hou] [0x5EFA, 0x7BC9, 0x57FA, c_jun, c_hou] (Some [0x662D, 0x548C, c_ni, c_juu, c_go, 0x5E74, c_hou, c_ritsu, c_dai, c_ni, c_hyaku, c_ichi, c_gou]) Administrative
        (Some [[c_dai, c_ni, c_jou], [c_dai, c_roku, c_jou]]) (Some [[0x5EFA, 0x7BC9, 0x57FA, c_jun]]),
      entry [0x90FD, 0x8A08, c_hou] [0x90FD, 0x5E02, 0x8A08, 0x753B, c_hou] (Some [0x662D, 0x548C, c_yon, c_juu, c_san, 0x5E74, c_hou, c_ritsu, c_dai, c_hyaku, c_gou]) Administrative
        (Some [[c_dai, c_yon, c_jou], [c_dai, c_ni, c_juu, c_kyuu, c_jou]]) (Some [[0x90FD, 0x5E02, 0x8A08, 0x753B]]),
      entry [0x666F, c_hyou, c_hou] [0x4E0D, c_tou, 0x666F, 0x54C1, 0x985E, c_oyo, h_bi, 0x4E0D, c_tou, c_hyou, 0x793A, 0x9632, 0x6B62, c_hou] (Some [0x662D, 0x548C, c_san, c_juu, c_nana, 0x5E74, c_hou, c_ritsu, c_dai, c_hyaku, c_san, c_juu, c_yon, c_gou]) Commercial
        (Some [[c_dai, c_yon, c_jou], [c_dai, c_go, c_jou]]) (Some [[0x666F, 0x54C1, c_hyou, 0x793A, c_hou], [0x4E0D, c_tou, c_hyou, 0x793A, 0x9632, 0x6B62, c_hou]]),
      entry [0x500B, 0x60C5, c_hou] [0x500B, 0x4EBA, 0x60C5, 0x5831, h_no, 0x4FDD, 0x8B77, h_ni, 0x95A2, h_su, h_ru, c_hou, c_ritsu] (Some [0x5E73, 0x6210, c_juu, c_go, 0x5E74, c_hou, c_ritsu, c_dai, c_go, c_juu, c_nana, c_gou]) Administrative
        (Some [[c_dai, c_ni, c_jou], [c_dai, c_ni, c_juu, c_san, c_jou]]) (Some [[0x500B, 0x4EBA, 0x60C5, 0x5831, 0x4FDD, 0x8B77, c_hou], [0x500B, 0x4EBA, 0x60C5, 0x5831, c_hou]]),
      entry [0x74B0, 0x5883, 0x57FA, c_hon, c_hou] [0x74B0, 0x5883, 0x57FA, c_hon, c_hou] (Some [0x5E73, 0x6210, c_go, 0x5E74, c_hou, c_ritsu, c_dai, c_kyuu, c_juu, c_ichi, c_gou]) Administrative
        (Some [[c_dai, c_ni, c_jou], [c_dai, c_juu, c_yon, c_jou]]) (Some [[0x74B0, 0x5883, c_hou]]),
      entry [0x5EC3, 0x6383, c_hou] [0x5EC3, 0x68C4, 0x7269, h_no, 0x51E6, 0x7406, c_oyo, h_bi, 0x6E05, 0x6383, h_ni, 0x95A2, h_su, h_ru, c_hou, c_ritsu] (Some [0x662D, 0x548C, c_yon, c_juu, c_go, 0x5E74, c_hou, c_ritsu, c_dai, c_hyaku, c_san, c_juu, c_nana, c_gou]) Administrative
        (Some [[c_dai, c_ni, c_jou], [c_dai, c_juu, c_yon, c_jou]]) (Some [[0x5EC3, 0x68C4, 0x7269, 0x51E6, 0x7406, c_hou], [0x5EC3, 0x68C4, 0x7269, c_hou]]),
      entry [0x5927, 0x9632, c_hou] [0x5927, 0x6C17, 0x6C5A, 0x67D3, 0x9632, 0x6B62, c_hou] (Some [0x662D, 0x548C, c_yon, c_juu, c_san, 0x5E74, c_hou, c_ritsu, c_dai, c_kyuu, c_juu, c_nana, c_gou]) Administrative
        (Some [[c_dai, c_ni, c_jou], [c_dai, c_juu, c_hachi, c_jou]]) (Some [[0x5927, 0x6C17, 0x6C5A, 0x67D3, c_hou]]),
      entry [0x6C34, 0x6FC1, c_hou] [0x6C34, 0x8CEA, 0x6C5A, 0x6FC1, 0x9632, 0x6B62, c_hou] (Some [0x662D, 0x548C, c_yon, c_juu, c_go, 0x5E74, c_hou, c_ritsu, c_dai, c_hyaku, c_san, c_juu, c_hachi, c_gou]) Administrative
        (Some [[c_dai, c_ni, c_jou], [c_dai, c_juu, c_ni, c_jou]]) (Some [[0x6C34, 0x8CEA, 0x6C5A, 0x6FC1, c_hou]])]"

definition welfare_entries :: "AbbreviationEntry list" where
  "welfare_entries =
     [entry [0x751F, 0x6D3B, 0x4FDD, 0x8B77, c_hou] [0x751F, 0x6D3B, 0x4FDD, 0x8B77, c_hou] (Some [0x662D, 0x548C, c_ni, c_juu, c_go, 0x5E74, c_hou, c_ritsu, c_dai, c_hyaku, c_yon, c_juu, c_yon, c_gou]) Administrative
        (Some [[c_dai, c_ichi, c_jou], [c_dai, c_nana, c_jou]]) (Some [[0x751F, 0x4FDD, c_hou], [0x751F, 0x6D3B, 0x4FDD, 0x8B77]]),
      entry [0x5150, 0x798F, c_hou] [0x5150, 0x7AE5, 0x798F, 0x7949, c_hou] (Some [0x662D, 0x548C, c_ni, c_juu, c_ni, 0x5E74, c_hou, c_ritsu, c_dai, c_hyaku, c_roku, c_juu, c_yon, c_gou]) Administrative
        (Some [[c_dai, c_ichi, c_jou], [c_dai, c_roku, c_jou]]) (Some [[0x5150, 0x7AE5, 0x798F, 0x7949], [0x5150, 0x7AE5, c_hou]]),
      entry [0x4ECB, 0x8B77, 0x4FDD, 0x967A, c_hou] [0x4ECB, 0x8B77, 0x4FDD, 0x967A, c_hou] (Some [0x5E73, 0x6210, c_kyuu, 0x5E74, c_hou, c_ritsu, c_dai, c_hyaku, c_ni, c_juu, c_san, c_gou]) Administrative
        (Some [[c_dai, c_ichi, c_jou], [c_dai, c_nana, c_jou]]) (Some [[0x4ECB, 0x8B77, c_hou], [0x4ECB, 0x8B77, 0x4FDD, 0x967A]]),
      entry [0x969C, 0x5BB3, 0x8005, 0x7DCF, 0x5408, 0x652F, 0x63F4, c_hou] [0x969C, 0x5BB3, 0x8005, h_no, 0x65E5, 0x5E38, 0x751F, 0x6D3B, c_oyo, h_bi, c_sha, c_kai_meet, 0x751F, 0x6D3B, h_wo, 0x7DCF, 0x5408, 0x7684, h_ni, 0x652F, 0x63F4, h_su, h_ru, h_ta, h_me, h_no, c_hou, c_ritsu] (Some [0x5E73, 0x6210, c_juu, c_nana, 0x5E74, c_hou, c_ritsu, c_dai, c_hyaku, c_ni, c_juu, c_san, c_gou]) Administrative
        (Some [[c_dai, c_ichi, c_jou], [c_dai, c_yon, c_jou]]) (Some [[0x969C, 0x5BB3, 0x8005, 0x652F, 0x63F4, c_hou], [0x7DCF, 0x5408, 0x652F, 0x63F4, c_hou]]),
      entry [0x6559, 0x57FA, c_hou] [0x6559, 0x80B2, 0x57FA, c_hon, c_hou] (Some [0x5E73, 0x6210, c_juu, c_hachi, 0x5E74, c_hou, c_ritsu, c_dai, c_hyaku, c_ni, c_juu, c_gou]) Administrative
        (Some [[c_dai, c_ichi, c_jou], [c_dai, c_ni, c_jou]]) (Some [[0x6559, 0x80B2, 0x57FA, c_hon], [0x6559, 0x80B2, c_hou]]),
      entry [0x5B66, 0x6559, c_hou] [0x5B66, 0x6821, 0x6559, 0x80B2, c_hou] (Some [0x662D, 0x548C, c_ni, c_juu, c_ni, 0x5E74, c_hou, c_ritsu, c_dai, c_ni, c_juu, c_roku, c_gou]) Administrative
        (Some [[c_dai, c_ichi, c_jou], [c_dai, c_ni, c_juu, c_kyuu, c_jou]]) (Some [[0x5B66, 0x6821, 0x6559, 0x80B2], [0x5B66, 0x6821, c_hou]]),
      entry [0x533B, 0x7642, c_hou] [0x533B, 0x7642, c_hou] (Some [0x662D, 0x548C, c_ni, c_juu, c_san, 0x5E74, c_hou, c_ritsu, c_dai, c_ni, c_hyaku, c_go, c_gou]) Administrative
        (Some [[c_dai, c_ichi, c_jou], [c_dai, c_nana, c_jou]]) (Some [[0x533B, 0x7642]]),
      entry [0x85AC, 0x6A5F, c_hou] [0x533B, 0x85AC, 0x54C1, p_comma, 0x533B, 0x7642, 0x6A5F, 0x5668, 0x7B49, h_no, 0x54C1, 0x8CEA, p_comma, 0x6709, 0x52B9, 0x6027, c_oyo, h_bi, 0x5B89, 0x5168, 0x6027, h_no, 0x78BA, 0x4FDD, 0x7B49, h_ni, 0x95A2, h_su, h_ru, c_hou, c_ritsu] (Some [0x662D, 0x548C, c_san, c_juu, c_go, 0x5E74, c_hou, c_ritsu, c_dai, c_hyaku, c_yon, c_juu, c_go, c_gou]) Administrative
        (Some [[c_dai, c_ni, c_jou], [c_dai, c_juu, c_yon, c_jou]]) (Some [[0x85AC, 0x4E8B, c_hou], [0x533B, 0x85AC, 0x54C1, 0x533B, 0x7642, 0x6A5F, 0x5668, c_hou], [0x85AC, 0x6A5F]]),
      entry [0x5065, 0x4FDD, c_hou] [0x5065, 0x5EB7, 0x4FDD, 0x967A, c_hou] (Some [0x5927, c_sei, c_juu, c_ichi, 0x5E74, c_hou, c_ritsu, c_dai, c_nana, c_juu, c_gou]) Administrative
        (Some [[c_dai, c_ichi, c_jou], [c_dai, c_roku, c_juu, c_san, c_jou]]) (Some [[0x5065, 0x5EB7, 0x4FDD, 0x967A], [0x5065, 0x4FDD]]),
      entry [0x9280, 0x884C, c_hou] [0x9280, 0x884C, c_hou] (Some [0x662D, 0x548C, c_go, c_juu, c_roku, 0x5E74, c_hou, c_ritsu, c_dai, c_go, c_juu, c_kyuu, c_gou]) Commercial
        (Some [[c_dai, c_ichi, c_jou], [c_dai, c_yon, c_jou]]) (Some [[0x9280, 0x884C]]),
      entry [0x4FDD, 0x967A, 0x696D, c_hou] [0x4FDD, 0x967A, 0x696D, c_hou] (Some [0x5E73, 0x6210, c_nana, 0x5E74, c_hou, c_ritsu, c_dai, c_hyaku, c_go, c_gou]) Commercial
        (Some [[c_dai, c_ichi, c_jou], [c_dai, c_san, c_jou]]) (Some [[0x4FDD, 0x967A, 0x696D], [0x4FDD, 0x967A, c_hou]]),
      entry [0x8CC7, 0x91D1, 0x6C7A, 0x6E08, c_hou] [0x8CC7, 0x91D1, 0x6C7A, 0x6E08, h_ni, 0x95A2, h_su, h_ru, c_hou, c_ritsu] (Some [0x5E73, 0x6210, c_ni, c_juu, c_ichi, 0x5E74, c_hou, c_ritsu, c_dai, c_go, c_juu, c_kyuu, c_gou]) Commercial
        (Some [[c_dai, c_ni, c_jou], [c_dai, c_san, c_juu, c_nana, c_jou]]) (Some [[0x8CC7, 0x91D1, 0x6C7A, 0x6E08], [0x6C7A, 0x6E08, c_hou]]),
      entry [0x5165, 0x7BA1, c_hou] [0x51FA, 0x5165, 0x56FD, 0x7BA1, 0x7406, c_oyo, h_bi, 0x96E3, c_min, 0x8A8D, c_tei, c_hou] (Some [0x662D, 0x548C, c_ni, c_juu, c_roku, 0x5E74, 0x653F, c_rei_order, c_dai, c_san, c_hyaku, c_juu, c_kyuu, c_gou]) Administrative
        (Some [[c_dai, c_ni, c_jou], [c_dai, c_ni, c_juu, c_ni, c_jou]]) (Some [[0x51FA, 0x5165, 0x56FD, 0x7BA1, 0x7406, c_hou], [0x5165, 0x7BA1, 0x96E3, c_min, c_hou], [0x5165, 0x7BA1]]),
      entry [0x5916, 0x70BA, c_hou] [0x5916, 0x56FD, 0x70BA, 0x66FF, c_oyo, h_bi, 0x5916, 0x56FD, 0x8CBF, 0x6613, c_hou] (Some [0x662D, 0x548C, c_ni, c_juu, c_yon, 0x5E74, c_hou, c_ritsu, c_dai, c_ni, c_hyaku, c_ni, c_juu, c_hachi, c_gou]) Commercial
        (Some [[c_dai, c_ichi, c_jou], [c_dai, c_ni, c_juu, c_go, c_jou]]) (Some [[0x5916, 0x56FD, 0x70BA, 0x66FF, c_hou], [0x5916, 0x70BA]])]"

definition other_entries :: "AbbreviationEntry list" where
  "other_entries =
     [entry [0x516C, 0x9078, c_hou] [0x516C, 0x8077, 0x9078, 0x6319, c_hou] (Some [0x662D, 0x548C, c_ni, c_juu, c_go, 0x5E74, c_hou, c_ritsu, c_dai, c_hyaku, c_gou]) Administrative
        (Some [[c_dai, c_ichi, c_jou], [c_dai, c_kyuu, c_jou]]) (Some [[0x516C, 0x8077, 0x9078, 0x6319], [0x9078, 0x6319, c_hou]]),
      entry [0x5730, 0x81EA, c_hou] [0x5730, 0x65B9, 0x81EA, 0x6CBB, c_hou] (Some [0x662D, 0x548C, c_ni, c_juu, c_ni, 0x5E74, c_hou, c_ritsu, c_dai, c_roku, c_juu, c_nana, c_gou]) Administrative
        (Some [[c_dai, c_ichi, c_jou], [c_dai, c_ni, c_jou]]) (Some [[0x5730, 0x65B9, 0x81EA, 0x6CBB], [0x81EA, 0x6CBB, c_hou]]),
      entry [0x56FD, 0x516C, c_hou] [0x56FD, 0x5BB6, 0x516C, 0x52D9, 0x54E1, c_hou] (Some [0x662D, 0x548C, c_ni, c_juu, c_ni, 0x5E74, c_hou, c_ritsu, c_dai, c_hyaku, c_ni, c_juu, c_gou]) Administrative
        (Some [[c_dai, c_ichi, c_jou], [c_dai, c_nana, c_juu, c_go, c_jou]]) (Some [[0x56FD, 0x5BB6, 0x516C, 0x52D9, 0x54E1], [0x516C, 0x52D9, 0x54E1, c_hou]]),
      entry [0x5730, 0x516C, c_hou] [0x5730, 0x65B9, 0x516C, 0x52D9, 0x54E1, c_hou] (Some [0x662D, 0x548C, c_ni, c_juu, c_go, 0x5E74, c_hou, c_ritsu, c_dai, c_ni, c_hyaku, c_roku, c_juu, c_ichi, c_gou]) Administrative
        (Some [[c_dai, c_ichi, c_jou], [c_dai, c_ni, c_juu, c_kyuu, c_jou]]) (Some [[0x5730, 0x65B9, 0x516C, 0x52D9, 0x54E1]]),
      entry [0x60C5, 0x516C, 0x958B, c_hou] [0x884C, 0x653F, 0x6A5F, 0x95A2, h_no, 0x4FDD, 0x6709, h_su, h_ru, 0x60C5, 0x5831, h_no, 0x516C, 0x958B, h_ni, 0x95A2, h_su, h_ru, c_hou, c_ritsu] (Some [0x5E73, 0x6210, c_juu, c_ichi, 0x5E74, c_hou, c_ritsu, c_dai, c_yon, c_juu, c_ni, c_gou]) Administrative
        (Some [[c_dai, c_ichi, c_jou], [c_dai, c_go, c_jou]]) (Some [[0x60C5, 0x5831, 0x516C, 0x958B, c_hou], [0x60C5, 0x5831, 0x516C, 0x958B], [0x884C, 0x653F, 0x60C5, 0x5831, 0x516C, 0x958B, c_hou]]),
      entry [0x516C, 0x6587, 0x7BA1, 0x7406, c_hou] [0x516C, 0x6587, 0x66F8, 0x7B49, h_no, 0x7BA1, 0x7406, h_ni, 0x95A2, h_su, h_ru, c_hou, c_ritsu] (Some [0x5E73, 0x6210, c_ni, c_juu, c_ichi, 0x5E74, c_hou, c_ritsu, c_dai, c_roku, c_juu, c_roku, c_gou]) Administrative
        (Some [[c_dai, c_ichi, c_jou], [c_dai, c_yon, c_jou]]) (Some [[0x516C, 0x6587, 0x66F8, 0x7BA1, 0x7406, c_hou], [0x6587, 0x66F8, 0x7BA1, 0x7406, c_hou]]),
      entry [0x6D88, 0x5951, c_hou] [0x6D88, 0x8CBB, 0x8005, 0x5951, 0x7D04, c_hou] (Some [0x5E73, 0x6210, c_juu, c_ni, 0x5E74, c_hou, c_ritsu, c_dai, c_roku, c_juu, c_ichi, c_gou]) Civil
        (Some [[c_dai, c_ichi, c_jou], [c_dai, c_yon, c_jou]]) (Some [[0x6D88, 0x8CBB, 0x8005, 0x5951, 0x7D04], [0x6D88, 0x8CBB, 0x8005, c_hou]]),
      entry [0x7279, c_shou_com, c_hou] [0x7279, c_tei, c_shou_com, 0x53D6, 0x5F15, h_ni, 0x95A2, h_su, h_ru, c_hou, c_ritsu] (Some [0x662D, 0x548C, c_go, c_juu, c_ichi, 0x5E74, c_hou, c_ritsu, c_dai, c_go, c_juu, c_nana, c_gou]) Commercial
        (Some [[c_dai, c_ichi, c_jou], [c_dai, c_kyuu, c_jou]]) (Some [[0x7279, c_tei, c_shou_com, 0x53D6, 0x5F15, c_hou], [0x8A2A, 0x554F, 0x8CA9, 0x58F2, c_hou]]),
      entry [0x5272, 0x8CA9, c_hou] [0x5272, 0x8CE6, 0x8CA9, 0x58F2, c_hou] (Some [0x662D, 0x548C, c_san, c_juu, c_roku, 0x5E74, c_hou, c_ritsu, c_dai, c_hyaku, c_go, c_juu, c_kyuu, c_gou]) Commercial
        (Some [[c_dai, c_ichi, c_jou], [c_dai, c_san, c_juu, c_jou]]) (Some [[0x5272, 0x8CE6, 0x8CA9, 0x58F2], [0x30AF, 0x30EC, 0x30B8, 0x30C3, 0x30C8, c_hou]]),
      entry [0x5B85, 0x5EFA, 0x696D, c_hou] [0x5B85, 0x5730, 0x5EFA, 0x7269, 0x53D6, 0x5F15, 0x696D, c_hou] (Some [0x662D, 0x548C, c_ni, c_juu, c_nana, 0x5E74, c_hou, c_ritsu, c_dai, c_hyaku, c_nana, c_juu, c_roku, c_gou]) Commercial
        (Some [[c_dai, c_ichi, c_jou], [c_dai, c_san, c_juu, c_go, c_jou]]) (Some [[0x5B85, 0x5EFA, c_hou], [0x5B85, 0x5730, 0x5EFA, 0x7269, 0x53D6, 0x5F15, c_hou]]),
      entry [0x501F, 0x5730, 0x501F, 0x5BB6, c_hou] [0x501F, 0x5730, 0x501F, 0x5BB6, c_hou] (Some [0x5E73, 0x6210, c_san, 0x5E74, c_hou, c_ritsu, c_dai, c_kyuu, c_juu, c_gou]) Civil
        (Some [[c_dai, c_ichi, c_jou], [c_dai, c_ni, c_juu, c_hachi, c_jou]]) (Some [[0x501F, 0x5730, 0x501F, 0x5BB6], [0x501F, 0x5BB6, c_hou]]),
      entry [0x533A, 0x5206, 0x6240, 0x6709, c_hou] [0x5EFA, 0x7269, h_no, 0x533A, 0x5206, 0x6240, 0x6709, 0x7B49, h_ni, 0x95A2, h_su, h_ru, c_hou, c_ritsu] (Some [0x662D, 0x548C, c_san, c_juu, c_nana, 0x5E74, c_hou, c_ritsu, c_dai, c_roku, c_juu, c_kyuu, c_gou]) Civil
        (Some [[c_dai, c_ichi, c_jou], [c_dai, c_san, c_juu, c_jou]]) (Some [[0x30DE, 0x30F3, 0x30B7, 0x30E7, 0x30F3, c_hou], [0x533A, 0x5206, 0x6240, 0x6709]]),
      entry [0x4E0D, 0x767B, c_hou] [0x4E0D, 0x52D5, 0x7523, 0x767B, 0x8A18, c_hou] (Some [0x5E73, 0x6210, c_juu, c_roku, 0x5E74, c_hou, c_ritsu, c_dai, c_hyaku, c_ni, c_juu, c_san, c_gou]) Procedure
        (Some [[c_dai, c_ichi, c_jou], [c_dai, c_juu, c_roku, c_jou]]) (Some [[0x4E0D, 0x52D5, 0x7523, 0x767B, 0x8A18], [0x767B, 0x8A18, c_hou]])]"

section \<open>Registration\<close>

definition name_regex :: "jsstr \<Rightarrow> regex" where
  "name_regex pattern = RSeq (RGrp 1 (RLit pattern))
     (RRep (RGrp 2 ((rseq [RLit [c_dai], rplus (RCls False rng_kjd10000), RLit [c_jou], ropt (rseq [RLit [h_no], rplus (RCls False (rng_digit @ [(c_ichi, c_ichi), (c_ni, c_ni), (c_san, c_san), (c_yon, c_yon), (c_go, c_go), (c_roku, c_roku), (c_nana, c_nana), (c_hachi, c_hachi), (c_kyuu, c_kyuu), (c_juu, c_juu)]))])]))) 0 (Some 1) True)"

definition entry_names :: "AbbreviationEntry \<Rightarrow> jsstr list" where
  "entry_names e = ae_abbreviation e # (case ae_aliases e of None \<Rightarrow> [] | Some as \<Rightarrow> as)"

definition add_patterns :: "AbbreviationEntry \<Rightarrow> (jsstr, regex) jsmap \<Rightarrow> (jsstr, regex) jsmap" where
  "add_patterns e ps = foldl (\<lambda>ps p. AList.update p (name_regex p) ps) ps (entry_names e)"

definition register_entry :: "AbbreviationDictionary \<Rightarrow> AbbreviationEntry \<Rightarrow> AbbreviationDictionary" where
  "register_entry d e =
     \<lparr>ad_dictionary = foldl (\<lambda>m k. AList.update k e m) (ad_dictionary d) (entry_names e),
      ad_regexPatterns = add_patterns e (ad_regexPatterns d)\<rparr>"

definition initializeDictionary :: "AbbreviationDictionary" where
  "initializeDictionary = foldl register_entry \<lparr>ad_dictionary = [], ad_regexPatterns = []\<rparr>
     (procedure_entries @ tax_entries @ welfare_entries @ other_entries)"

definition addCustomAbbreviation :: "AbbreviationDictionary \<Rightarrow> AbbreviationEntry \<Rightarrow> AbbreviationDictionary" where
  "addCustomAbbreviation d e =
     \<lparr>ad_dictionary = AList.update (ae_abbreviation e) e (ad_dictionary d),
      ad_regexPatterns = add_patterns e (ad_regexPatterns d)\<rparr>"

section \<open>Look-ups\<close>

definition lookup :: "AbbreviationDictionary \<Rightarrow> jsstr \<Rightarrow> AbbreviationEntry option" where
  "lookup d abbreviation = map_of (ad_dictionary d) abbreviation"

record Expansion =
  ex_original :: jsstr
  ex_expanded :: jsstr
  ex_start :: nat
  ex_end :: nat
  ex_entry :: AbbreviationEntry
  ex_article :: "jsstr option"

definition expansion :: "AbbreviationEntry \<Rightarrow> rmatch \<Rightarrow> Expansion" where
  "expansion e m =
     \<lparr>ex_original = m_text m, ex_expanded = ae_fullName e @ (case cap m 2 of None \<Rightarrow> [] | Some a \<Rightarrow> a),
      ex_start = m_index m, ex_end = m_index m + length (m_text m), ex_entry = e, ex_article = cap m 2\<rparr>"

fun pattern_results :: "AbbreviationDictionary \<Rightarrow> jsstr \<Rightarrow> jsstr \<times> regex \<Rightarrow> Expansion list option" where
  "pattern_results d text (pattern, regex) =
     (case map_of (ad_dictionary d) pattern of
        None \<Rightarrow> Some []
      | Some e \<Rightarrow> map_option (map (expansion e)) (exec_while regex text))"

definition span :: "Expansion \<Rightarrow> nat \<times> nat" where
  "span r = (ex_start r, ex_end r)"

definition expandAbbreviations :: "AbbreviationDictionary \<Rightarrow> jsstr \<Rightarrow> Expansion list option" where
  "expandAbbreviations d text =
     map_option (\<lambda>rss. sort_key ex_start (first_by span [] (concat rss)))
       (those (map (pattern_results d text) (ad_regexPatterns d)))"

definition getAllAbbreviations :: "AbbreviationDictionary \<Rightarrow> jsstr list" where
  "getAllAbbreviations d = first_by id [] (map (ae_abbreviation \<circ> snd) (ad_dictionary d))"

definition by_full_name :: "AbbreviationEntry list \<Rightarrow> (jsstr, AbbreviationEntry) jsmap" where
  "by_full_name es = foldl (\<lambda>m e. AList.update (ae_fullName e) e m) [] es"

definition getAbbreviationsByCategory :: "AbbreviationDictionary \<Rightarrow> category \<Rightarrow> AbbreviationEntry list" where
  "getAbbreviationsByCategory d c =
     map snd (by_full_name (filter (\<lambda>e. ae_category e = c) (map snd (ad_dictionary d))))"

definition getAbbreviationByFullName :: "AbbreviationDictionary \<Rightarrow> jsstr \<Rightarrow> jsstr option" where
  "getAbbreviationByFullName d fullName =
     map_option fst (find (\<lambda>(abbr, e). ae_fullName e = fullName \<and> abbr = ae_abbreviation e) (ad_dictionary d))"

record DictionaryStatistics =
  ds_totalEntries :: nat
  ds_byCategory :: "(category, nat) jsmap"
  ds_withLawNumbers :: nat
  ds_withAliases :: nat

definition getStatistics :: "AbbreviationDictionary \<Rightarrow> DictionaryStatistics" where
  "getStatistics d =
     (let uniqueEntries = map snd (by_full_name (map snd (ad_dictionary d)))
      in \<lparr>ds_totalEntries = length uniqueEntries, ds_byCategory = tally ae_category uniqueEntries,
          ds_withLawNumbers = length (filter (\<lambda>e. truthy (ae_lawNumber e)) uniqueEntries),
          ds_withAliases = length (filter (\<lambda>e. case ae_aliases e of None \<Rightarrow> False | Some as \<Rightarrow> as \<noteq> []) uniqueEntries)\<rparr>)"

section \<open>Facts\<close>

lemma min_len_name [simp]: "min_len (name_regex p) = length p"
  by (simp add: name_regex_def min_rounds_def)

text \<open>An optional group takes what it captures, or nothing.\<close>

lemma rx_optional_group:
  assumes "(t, ds) \<in> set (rx n (RRep (RGrp k r) 0 (Some 1) True) (s, cs))" "map_of cs k = None"
  shows "s = (case map_of ds k of None \<Rightarrow> [] | Some a \<Rightarrow> a) @ t"
  using rx_rep_mem [OF assms(1)]
proof (cases rule: rep_cases)
  case base
  with assms(2) show ?thesis by simp
next
  case (round t' ds')
  then have "t = t'" "ds = ds'" by (simp_all add: rep.simps)
  with round(2) obtain es where "ds = (k, consumed s t) # es" "s = consumed s t @ t" by (blast elim: rx_grp_cases)
  then show ?thesis by simp
qed

text \<open>A match of the pattern of a name is the name and the article number behind it, if there is one.\<close>

lemma name_match:
  assumes "m \<in> set (exec_all (name_regex p) s)"
  shows "m_text m = p @ (case cap m 2 of None \<Rightarrow> [] | Some a \<Rightarrow> a)"
proof -
  obtain i where "search (length s) (name_regex p) i (drop i s) = Some m"
    using exec_from_search assms unfolding exec_all_def by blast
  from search_rx [OF this] obtain s' t where mem: "(t, m_caps m) \<in> set (rx (length s) (name_regex p) (s', []))"
    and mt: "m_text m = take (length s' - length t) s'" by blast
  obtain u us where u: "(u, us) \<in> set (rx (length s) (RGrp 1 (RLit p)) (s', []))" and opt: "(t, m_caps m) \<in> set (rx (length s)
      (RRep (RGrp 2 ((rseq [RLit [c_dai], rplus (RCls False rng_kjd10000), RLit [c_jou], ropt (rseq [RLit [h_no], rplus (RCls False (rng_digit @ [(c_ichi, c_ichi), (c_ni, c_ni), (c_san, c_san), (c_yon, c_yon), (c_go, c_go), (c_roku, c_roku), (c_nana, c_nana), (c_hachi, c_hachi), (c_kyuu, c_kyuu), (c_juu, c_juu)]))])]))) 0 (Some 1) True) (u, us))"
    using mem unfolding name_regex_def by (rule rx_seq_cases)
  from u obtain es where "(u, es) \<in> set (rx (length s) (RLit p) (s', []))" "us = (1, consumed s' u) # es" by (rule rx_grp_cases)
  then have s': "s' = p @ u" and "map_of us 2 = None" using rx_atom_caps(1) by fastforce+
  from rx_optional_group [OF opt this(2)] have "u = (case map_of (m_caps m) 2 of None \<Rightarrow> [] | Some a \<Rightarrow> a) @ t" .
  then have "s' = (p @ (case map_of (m_caps m) 2 of None \<Rightarrow> [] | Some a \<Rightarrow> a)) @ t" using s' by simp
  with mt show ?thesis by (simp add: cap_def)
qed

definition dictionary_ok :: "AbbreviationDictionary \<Rightarrow> bool" where
  "dictionary_ok d \<longleftrightarrow> map_wf (ad_dictionary d) \<and> map_wf (ad_regexPatterns d) \<and>
     (\<forall>(p, r) \<in> set (ad_regexPatterns d). r = name_regex p \<and> p \<noteq> []) \<and>
     (\<forall>p. map_of (ad_dictionary d) p \<noteq> None \<longrightarrow> map_of (ad_regexPatterns d) p \<noteq> None)"

lemma add_names:
  "map_wf m \<Longrightarrow> map_wf (foldl (\<lambda>m k. AList.update k (f k) m) m ks) \<and>
     map_of (foldl (\<lambda>m k. AList.update k (f k) m) m ks) = (\<lambda>k. if k \<in> set ks then Some (f k) else map_of m k)"
proof (induction ks arbitrary: m)
  case (Cons k ks)
  have "map_wf (AList.update k (f k) m)" using Cons.prems by (rule jsm.wf_put)
  from Cons.IH [OF this] show ?case by (auto simp: update_conv')
qed simp

lemma add_patterns_ok:
  assumes "map_wf ps" "\<forall>(p, r) \<in> set ps. r = name_regex p \<and> p \<noteq> []" "list_all (\<lambda>p. p \<noteq> []) (entry_names e)"
  shows "map_wf (add_patterns e ps) \<and> (\<forall>(p, r) \<in> set (add_patterns e ps). r = name_regex p \<and> p \<noteq> []) \<and>
    (\<forall>p. map_of (add_patterns e ps) p = (if p \<in> set (entry_names e) then Some (name_regex p) else map_of ps p))"
proof -
  have wf: "map_wf (add_patterns e ps)" and get: "map_of (add_patterns e ps) =
      (\<lambda>p. if p \<in> set (entry_names e) then Some (name_regex p) else map_of ps p)"
    using add_names [OF assms(1), of name_regex "entry_names e"] by (simp_all add: add_patterns_def)
  have "r = name_regex p \<and> p \<noteq> []" if "(p, r) \<in> set (add_patterns e ps)" for p r
  proof -
    from that wf have "map_of (add_patterns e ps) p = Some r" by (simp add: map_wf_def)
    with get assms(2,3) show ?thesis by (auto simp: list_all_iff split: if_splits dest: map_of_SomeD)
  qed
  with wf get show ?thesis by auto
qed

lemma addCustom_ok:
  "dictionary_ok d \<Longrightarrow> list_all (\<lambda>p. p \<noteq> []) (entry_names e) \<Longrightarrow> dictionary_ok (addCustomAbbreviation d e)"
  using add_patterns_ok [of "ad_regexPatterns d" e] jsm.wf_put [of "ad_dictionary d" "ae_abbreviation e" e]
  unfolding dictionary_ok_def addCustomAbbreviation_def by (auto simp: update_conv' entry_names_def)

lemma register_ok:
  "dictionary_ok d \<Longrightarrow> list_all (\<lambda>p. p \<noteq> []) (entry_names e) \<Longrightarrow> dictionary_ok (register_entry d e)"
  using add_patterns_ok [of "ad_regexPatterns d" e] add_names [of "ad_dictionary d" "\<lambda>_. e" "entry_names e"]
  unfolding dictionary_ok_def register_entry_def by (auto split: if_splits)

interpretation dictionary: invariant_machine addCustomAbbreviation dictionary_ok
  "\<lambda>e. list_all (\<lambda>p. p \<noteq> []) (entry_names e)"
  by unfold_locales (rule addCustom_ok)

interpretation registration: invariant_machine register_entry dictionary_ok
  "\<lambda>e. list_all (\<lambda>p. p \<noteq> []) (entry_names e)"
  by unfold_locales (rule register_ok)

abbreviation all_entries :: "AbbreviationEntry list" where
  "all_entries \<equiv> procedure_entries @ tax_entries @ welfare_entries @ other_entries"

lemma entries_named: "list_all (\<lambda>e. list_all (\<lambda>p. p \<noteq> []) (entry_names e)) all_entries"
  by code_simp

lemma entries_distinct: "distinct (concat (map entry_names all_entries))"
  by (simp add: procedure_entries_def tax_entries_def welfare_entries_def other_entries_def entry_names_def)

lemma initial_ok: "dictionary_ok initializeDictionary"
  unfolding initializeDictionary_def
  by (rule registration.run_inv [OF _ entries_named]) (simp add: dictionary_ok_def map_wf_def)

lemma register_lookup:
  "map_wf (ad_dictionary d) \<Longrightarrow> map_wf (ad_dictionary (foldl register_entry d es)) \<and>
     (k \<notin> set (concat (map entry_names es)) \<longrightarrow> lookup (foldl register_entry d es) k = lookup d k) \<and>
     (distinct (concat (map entry_names es)) \<longrightarrow>
        (\<forall>e \<in> set es. k \<in> set (entry_names e) \<longrightarrow> lookup (foldl register_entry d es) k = Some e))"
proof (induction es arbitrary: d)
  case (Cons e es)
  have step: "map_wf (ad_dictionary (register_entry d e))"
    "lookup (register_entry d e) k = (if k \<in> set (entry_names e) then Some e else lookup d k)"
    using add_names [OF Cons.prems, of "\<lambda>_. e" "entry_names e"] by (auto simp: register_entry_def lookup_def)
  show ?case using Cons.IH [OF step(1)] step(2) by auto
qed simp

lemma those_map: "list_all (\<lambda>x. f x = Some (g x)) xs \<Longrightarrow> those (map f xs) = Some (map g xs)"
  by (induction xs) auto

text \<open>With patterns that consume something, the search returns; what it collects are the expansions of the
  matches of the registered names that the dictionary knows.\<close>

definition found :: "AbbreviationDictionary \<Rightarrow> jsstr \<Rightarrow> Expansion list" where
  "found d text = concat (map (\<lambda>(p, r). case map_of (ad_dictionary d) p of None \<Rightarrow> []
     | Some e \<Rightarrow> map (expansion e) (exec_all r text)) (ad_regexPatterns d))"

lemma expand_returns:
  assumes "dictionary_ok d"
  shows "expandAbbreviations d s = Some (sort_key ex_start (first_by span [] (found d s)))"
proof -
  have "pattern_results d s (p, r) = Some (case map_of (ad_dictionary d) p of None \<Rightarrow> []
      | Some e \<Rightarrow> map (expansion e) (exec_all r s))" if "(p, r) \<in> set (ad_regexPatterns d)" for p r
  proof -
    from that assms have "0 < min_len r" by (auto simp: dictionary_ok_def)
    then show ?thesis by (cases "map_of (ad_dictionary d) p") (simp_all add: exec_while_consumes)
  qed
  then have "those (map (pattern_results d s) (ad_regexPatterns d)) =
      Some (map (\<lambda>(p, r). case map_of (ad_dictionary d) p of None \<Rightarrow> []
        | Some e \<Rightarrow> map (expansion e) (exec_all r s)) (ad_regexPatterns d))"
    by (intro those_map) (auto simp: list_all_iff)
  then show ?thesis by (simp add: expandAbbreviations_def found_def)
qed

lemma found_member:
  assumes "dictionary_ok d"
  shows "r \<in> set (found d s) \<longleftrightarrow>
    (\<exists>p e m. lookup d p = Some e \<and> m \<in> set (exec_all (name_regex p) s) \<and> r = expansion e m)"
proof
  assume "r \<in> set (found d s)"
  then obtain p g where p: "(p, g) \<in> set (ad_regexPatterns d)"
    and r: "r \<in> set (case map_of (ad_dictionary d) p of None \<Rightarrow> [] | Some e \<Rightarrow> map (expansion e) (exec_all g s))"
    by (auto simp: found_def)
  from p assms have "g = name_regex p" by (auto simp: dictionary_ok_def)
  with r show "\<exists>p e m. lookup d p = Some e \<and> m \<in> set (exec_all (name_regex p) s) \<and> r = expansion e m"
    by (cases "map_of (ad_dictionary d) p") (auto simp: lookup_def)
next
  assume "\<exists>p e m. lookup d p = Some e \<and> m \<in> set (exec_all (name_regex p) s) \<and> r = expansion e m"
  then obtain p e m where p: "lookup d p = Some e" "m \<in> set (exec_all (name_regex p) s)" "r = expansion e m" by blast
  then obtain g where "map_of (ad_regexPatterns d) p = Some g" using assms by (auto simp: dictionary_ok_def lookup_def)
  then have "(p, g) \<in> set (ad_regexPatterns d)" by (rule map_of_SomeD)
  moreover from this assms have "g = name_regex p" by (auto simp: dictionary_ok_def)
  ultimately show "r \<in> set (found d s)" using p by (force simp: found_def lookup_def)
qed

lemma known_named: "dictionary_ok d \<Longrightarrow> lookup d p = Some e \<Longrightarrow> p \<noteq> []"
proof -
  assume ok: "dictionary_ok d" and "lookup d p = Some e"
  then obtain g where "map_of (ad_regexPatterns d) p = Some g" by (auto simp: dictionary_ok_def lookup_def)
  then have "(p, g) \<in> set (ad_regexPatterns d)" by (rule map_of_SomeD)
  with ok show ?thesis by (auto simp: dictionary_ok_def)
qed

section \<open>Properties\<close>

text \<open>in the dictionary as it is made every abbreviation and every alias leads to its own entry
  and nothing else is known; a custom entry is found under its abbreviation and changes no other
  look-up.\<close>

theorem dictionary_exact:
  "lookup initializeDictionary k = find (\<lambda>e. k \<in> set (entry_names e)) (procedure_entries @ tax_entries @ welfare_entries @ other_entries) \<and>
   lookup (addCustomAbbreviation d e) k = (if k = ae_abbreviation e then Some e else lookup d k)"
proof
  let ?d = "\<lparr>ad_dictionary = [], ad_regexPatterns = []\<rparr>"
  have wf: "map_wf (ad_dictionary ?d)" by (simp add: map_wf_def)
  note reg = register_lookup [OF this, where es = all_entries and k = k, folded initializeDictionary_def]
  show "lookup initializeDictionary k = find (\<lambda>e. k \<in> set (entry_names e)) all_entries"
  proof (cases "find (\<lambda>e. k \<in> set (entry_names e)) all_entries")
    case None
    then have "k \<notin> set (concat (map entry_names all_entries))" by (auto simp: find_None_iff)
    with reg None show ?thesis by (simp add: lookup_def)
  next
    case (Some e)
    then have "e \<in> set all_entries" "k \<in> set (entry_names e)" by (auto simp: find_Some_iff simp del: set_append)
    with reg entries_distinct Some show ?thesis by simp
  qed
  show "lookup (addCustomAbbreviation d e) k = (if k = ae_abbreviation e then Some e else lookup d k)"
    by (simp add: addCustomAbbreviation_def lookup_def update_conv')
qed

text \<open>C37: after any additions of entries without empty names the search for abbreviations returns. Its
  results are ordered by position, no two have the same span, their spans are exactly those of the
  matches of the known names, and each result stands in the text at its position and replaces the
  name by the full name of its entry, keeping the article number.\<close>

theorem expand_exact:
  assumes "list_all (\<lambda>e. list_all (\<lambda>p. p \<noteq> []) (entry_names e)) adds"
  shows "let d = foldl addCustomAbbreviation initializeDictionary adds
     in \<exists>rs. expandAbbreviations d s = Some rs \<and> sorted (map ex_start rs) \<and>
       distinct (map (\<lambda>r. (ex_start r, ex_end r)) rs) \<and>
       (\<lambda>r. (ex_start r, ex_end r)) ` set rs =
         {(m_index m, m_end m) | p e m. lookup d p = Some e \<and> m \<in> set (exec_all (name_regex p) s)} \<and>
       list_all (\<lambda>r. occurs_at s (ex_start r) (ex_original r) \<and> ex_end r = ex_start r + length (ex_original r) \<and>
         (\<exists>p article. lookup d p = Some (ex_entry r) \<and> ex_original r = p @ article \<and>
            ex_expanded r = ae_fullName (ex_entry r) @ article)) rs"
proof -
  let ?d = "foldl addCustomAbbreviation initializeDictionary adds"
  let ?rs = "sort_key ex_start (first_by span [] (found ?d s))"
  have ok: "dictionary_ok ?d" using initial_ok assms by (rule dictionary.run_inv)
  have keys: "distinct (map span (first_by span [] (found ?d s)))" "span ` set (first_by span [] (found ?d s)) = span ` set (found ?d s)"
    using first_by_keys [of span "[]" "found ?d s"] by simp_all
  have "distinct (map span ?rs)"
    using keys(1) by (metis distinct_map distinct_sort set_sort)
  moreover have "span ` set ?rs = {(m_index m, m_end m) | p e m. lookup ?d p = Some e \<and> m \<in> set (exec_all (name_regex p) s)}"
    unfolding set_sort keys(2) by (force simp: found_member [OF ok] span_def expansion_def m_end_def)
  moreover have "occurs_at s (ex_start r) (ex_original r) \<and> ex_end r = ex_start r + length (ex_original r) \<and>
      (\<exists>p article. lookup ?d p = Some (ex_entry r) \<and> ex_original r = p @ article \<and>
         ex_expanded r = ae_fullName (ex_entry r) @ article)" if "r \<in> set ?rs" for r
  proof -
    from that have "r \<in> set (found ?d s)" by (simp add: first_by_sub)
    then obtain p e m where p: "lookup ?d p = Some e" "m \<in> set (exec_all (name_regex p) s)" "r = expansion e m"
      by (auto simp: found_member [OF ok])
    then have "p \<noteq> []" using known_named [OF ok] by blast
    then have "occurs_at s (m_index m) (m_text m)" using p(2) by (intro exec_all_occurs) simp_all
    with p name_match [OF p(2)] show ?thesis by (auto simp: expansion_def)
  qed
  ultimately show ?thesis using expand_returns [OF ok, of s]
    by (simp add: Let_def list_all_iff span_def [abs_def])
qed

theorem expand_exact_witness:
  "let e = entry [0x7279, c_hou] [0x7279, c_betsu, c_hou] None Special None None; d = addCustomAbbreviation initializeDictionary e
   in (\<exists>rs. expandAbbreviations d [0x7279, c_hou, c_dai, c_ni, c_jou] = Some rs \<and> sorted (map ex_start rs)) \<and> lookup d [0x7279, c_hou] = Some e"
  using expand_exact [of "[entry [0x7279, c_hou] [0x7279, c_betsu, c_hou] None Special None None]" "[0x7279, c_hou, c_dai, c_ni, c_jou]"]
  by (auto simp: Let_def entry_names_def lookup_def addCustomAbbreviation_def update_conv' simp del: str_simps)

text \<open>The aliases of a custom entry get a pattern but no place in the dictionary, so they are never found; and an
  entry with an empty name makes the search run for ever.\<close>

lemma custom_alias_ignored:
  "lookup d p = None \<Longrightarrow> p \<noteq> ae_abbreviation e \<Longrightarrow> pattern_results (addCustomAbbreviation d e) s (p, r) = Some []"
  by (simp add: lookup_def addCustomAbbreviation_def update_conv')

lemma empty_name_diverges:
  "expandAbbreviations (addCustomAbbreviation \<lparr>ad_dictionary = [], ad_regexPatterns = []\<rparr> (entry [] [c_hou] None Special None None)) [0x7532] = None"
  by code_simp


end
