(* ===== verification/TwoPassDetector.thy ===== *)
theory TwoPassDetector
  imports JSRegex "HOL-Library.Product_Lexorder"
begin

text \<open>
  \<^verbatim>\<open>src/domain/services/EnhancedReferenceDetectorV37.ts\<close>: the detector in two passes. The first collects candidates from
  every family of patterns, each with its span and a priority; the second sorts them and resolves
  duplicates and conflicts. (\<^verbatim>\<open>EnhancedReferenceDetectorV36.ts\<close> is the same code under another class name.)
  \<open>null\<close> and a missing field are both \<open>None\<close>; a key of the metadata with the value \<open>undefined\<close> is left
  out. The pattern of the known law names is made at run time from names without special characters.
\<close>

section \<open>Data\<close>

datatype ReferenceType = Internal | External | Relative | Structural | Range | Multiple | Application

record Reference =
  rf_type :: ReferenceType
  rf_sourceText :: jsstr
  rf_text :: "jsstr option"
  rf_targetLawId :: "jsstr option"
  rf_targetLaw :: "jsstr option"
  rf_targetArticleNumber :: "jsstr option"
  rf_targetArticle :: "jsstr option"
  rf_confidence :: rat
  rf_metadata :: "(jsstr \<times> json) list option"

record ReferenceCandidate = Reference +
  rc_startPos :: int
  rc_endPos :: int
  rc_priority :: int

text \<open>The common shape of the object literals: both article fields are the same, \<open>text\<close> is always given.\<close>

abbreviation candidate_at :: "int \<Rightarrow> nat \<Rightarrow> int \<Rightarrow> ReferenceType \<Rightarrow> jsstr \<Rightarrow> jsstr \<Rightarrow> jsstr option \<Rightarrow> jsstr option \<Rightarrow> jsstr option \<Rightarrow>
    rat \<Rightarrow> (jsstr \<times> json) list option \<Rightarrow> ReferenceCandidate" where
  "candidate_at start len priority type source text lawId law article confidence metadata \<equiv>
     \<lparr>rf_type = type, rf_sourceText = source, rf_text = Some text, rf_targetLawId = lawId, rf_targetLaw = law,
      rf_targetArticleNumber = article, rf_targetArticle = article, rf_confidence = confidence, rf_metadata = metadata,
      rc_startPos = start, rc_endPos = start + int len, rc_priority = priority\<rparr>"

abbreviation candidate :: "rmatch \<Rightarrow> int \<Rightarrow> ReferenceType \<Rightarrow> jsstr \<Rightarrow> jsstr \<Rightarrow> jsstr option \<Rightarrow> jsstr option \<Rightarrow> jsstr option \<Rightarrow>
    rat \<Rightarrow> (jsstr \<times> json) list option \<Rightarrow> ReferenceCandidate" where
  "candidate m \<equiv> candidate_at (int (m_index m)) (length (m_text m))"

text \<open>A key of a metadata object whose value may be \<open>undefined\<close>, and \<open>x || y\<close> on strings.\<close>

definition field :: "jsstr \<Rightarrow> jsstr option \<Rightarrow> (jsstr \<times> json) list" where
  "field k v = (case v of None \<Rightarrow> [] | Some s \<Rightarrow> [(k, JStr s)])"

definition or_else :: "jsstr option \<Rightarrow> jsstr option \<Rightarrow> jsstr option" where
  "or_else x y = (if truthy x then x else y)"

section \<open>Tables\<close>

definition kanjiToNumber :: "(jschar \<times> int) list" where
  "kanjiToNumber =
     [(c_rei, 0), (c_ichi, 1), (c_ni, 2), (c_san, 3), (c_yon, 4), (c_go, 5), (c_roku, 6), (c_nana, 7), (c_hachi, 8),
      (c_kyuu, 9), (c_juu, 10), (c_hyaku, 100), (c_sen, 1000), (c_man, 10000)]"

definition lawNameToId :: "(jsstr \<times> jsstr) list" where
  "lawNameToId =
     [([0x65E5, c_hon, 0x56FD, 0x61B2, c_hou], (str ''321CONSTITUTION'')),
      ([0x61B2, c_hou], (str ''321CONSTITUTION'')),
      ([c_min, c_hou], (str ''129AC0000000089'')),
      ([c_shou_com, c_hou], (str ''132AC0000000048'')),
      ([c_kai_meet, c_sha, c_hou], (str ''417AC0000000086'')),
      ([c_kei, c_hou], (str ''140AC0000000045'')),
      ([c_min, 0x4E8B, 0x8A34, 0x8A1F, c_hou], (str ''109AC0000000109'')),
      ([c_kei, 0x4E8B, 0x8A34, 0x8A1F, c_hou], (str ''123AC0000000131'')),
      ([0x52B4, 0x50CD, 0x57FA, c_jun, c_hou], (str ''322AC0000000049'')),
      ([0x52B4, 0x50CD, 0x7D44, 0x5408, c_hou], (str ''324AC0000000174'')),
      ([0x52B4, 0x50CD, 0x95A2, 0x4FC2, 0x8ABF, 0x6574, c_hou], (str ''321AC0000000025'')),
      ([0x884C, 0x653F, 0x624B, 0x7D9A, c_hou], (str ''405AC0000000088'')),
      ([0x884C, 0x653F, 0x4E0D, 0x670D, 0x5BE9, 0x67FB, c_hou], (str ''439AC0000000068'')),
      ([0x884C, 0x653F, 0x4E8B, 0x4EF6, 0x8A34, 0x8A1F, c_hou], (str ''337AC0000000139'')),
      ([0x56FD, 0x5BB6, 0x516C, 0x52D9, 0x54E1, c_hou], (str ''322AC0000000120'')),
      ([0x5730, 0x65B9, 0x516C, 0x52D9, 0x54E1, c_hou], (str ''325AC0000000261'')),
      ([0x5730, 0x65B9, 0x81EA, 0x6CBB, c_hou], (str ''322AC0000000067'')),
      ([0x7279, 0x8A31, c_hou], (str ''334AC0000000121'')),
      ([0x8457, 0x4F5C, 0x6A29, c_hou], (str ''345AC0000000048'')),
      ([c_shou_com, 0x6A19, c_hou], (str ''334AC0000000127'')),
      ([0x610F, 0x5320, c_hou], (str ''334AC0000000125'')),
      ([0x4E0D, c_sei, 0x7AF6, 0x4E89, 0x9632, 0x6B62, c_hou], (str ''405AC0000000047'')),
      ([0x6240, 0x5F97, 0x7A0E, c_hou], (str ''340AC0000000033'')),
      ([c_hou, 0x4EBA, 0x7A0E, c_hou], (str ''340AC0000000034'')),
      ([0x6D88, 0x8CBB, 0x7A0E, c_hou], (str ''363AC0000000108'')),
      ([0x76F8, 0x7D9A, 0x7A0E, c_hou], (str ''325AC0000000073'')),
      ([0x5730, 0x65B9, 0x7A0E, c_hou], (str ''325AC0000000226'')),
      ([0x7834, 0x7523, c_hou], (str ''416AC0000000075'')),
      ([0x500B, 0x4EBA, 0x60C5, 0x5831, 0x4FDD, 0x8B77, c_hou], (str ''415AC0000000057'')),
      ([0x72EC, 0x5360, 0x7981, 0x6B62, c_hou], (str ''322AC0000000054'')),
      ([0x91D1, 0x878D, c_shou_com, 0x54C1, 0x53D6, 0x5F15, c_hou], (str ''323AC0000000025'')),
      ([0x5EFA, 0x7BC9, 0x57FA, c_jun, c_hou], (str ''325AC0000000201''))]"

definition lawTypePatterns :: "(jsstr \<times> regex list) list" where
  "lawTypePatterns =
     [([0x653F, c_rei_order], [(rseq [RGrp 1 (rseq [rplus (RCls True (rng_ws @ [(p_comma, p_comma), (p_stop, p_stop), (c_oyo, c_oyo), (c_nara, c_nara)])), ralt [RLit [0x65BD, 0x884C, c_rei_order], RLit [0x653F, c_rei_order]]]), ropt (rseq [RLit [c_dai], RGrp 2 (rplus (RCls False rng_kjd10000)), RLit [c_jou]])]),
        (rseq [RGrp 1 (rseq [rplus (RCls True (rng_ws @ [(p_comma, p_comma), (p_stop, p_stop), (c_oyo, c_oyo), (c_nara, c_nara)])), RLit [c_rei_order]]), ropt (rseq [RLit [c_dai], RGrp 2 (rplus (RCls False rng_kjd10000)), RLit [c_jou]]), RLook False (RLit [0x548C])])]),
      ([0x5E9C, c_rei_order], [(rseq [RLit [0x5185, 0x95A3, 0x5E9C, c_rei_order], ropt (rseq [RLit [c_dai], RGrp 1 (rplus (RCls False rng_kjd10000)), RLit [c_gou]])]),
        (rseq [RGrp 1 (rseq [rplus (RCls True (rng_ws @ [(p_comma, p_comma), (p_stop, p_stop)])), RLit [0x5E9C, c_rei_order]]), ropt (rseq [RLit [c_dai], RGrp 2 (rplus (RCls False rng_kjd10000)), RLit [c_jou]])])]),
      ([0x7701, c_rei_order], [(rseq [RGrp 1 (rseq [rplus (RCls True (rng_ws @ [(p_comma, p_comma), (p_stop, p_stop)])), ralt [RLit [0x7701, c_rei_order], RLit [0x65BD, 0x884C, c_ki, c_soku]]]), ropt (rseq [RLit [c_dai], RGrp 2 (rplus (RCls False rng_kjd10000)), RLit [c_jou]])]),
        (rseq [RGrp 1 (rseq [rplus (RCls True (rng_ws @ [(p_comma, p_comma), (p_stop, p_stop)])), RLit [0x7701]]), RLit [c_rei_order], ropt (rseq [RLit [c_dai], RGrp 2 (rplus (RCls False rng_kjd10000)), RLit [c_gou]])]),
        (rseq [RLit [0x539A, 0x751F, 0x52B4, 0x50CD, 0x7701, c_rei_order], ropt (rseq [RLit [c_dai], RGrp 1 (rplus (RCls False rng_kjd10000)), RLit [c_gou]])]),
        (rseq [RLit [0x7D4C, 0x6E08, 0x7523, 0x696D, 0x7701, c_rei_order], ropt (rseq [RLit [c_dai], RGrp 1 (rplus (RCls False rng_kjd10000)), RLit [c_gou]])]),
        (rseq [RLit [0x56FD, 0x571F, 0x4EA4, 0x901A, 0x7701, c_rei_order], ropt (rseq [RLit [c_dai], RGrp 1 (rplus (RCls False rng_kjd10000)), RLit [c_gou]])]),
        (rseq [RLit [0x6587, 0x90E8, 0x79D1, 0x5B66, 0x7701, c_rei_order], ropt (rseq [RLit [c_dai], RGrp 1 (rplus (RCls False rng_kjd10000)), RLit [c_gou]])]),
        (rseq [RLit [0x7DCF, 0x52D9, 0x7701, c_rei_order], ropt (rseq [RLit [c_dai], RGrp 1 (rplus (RCls False rng_kjd10000)), RLit [c_gou]])])]),
      ([c_ki, c_soku], [(rseq [RGrp 1 (rseq [rplus (RCls True (rng_ws @ [(p_comma, p_comma), (p_stop, p_stop)])), RLit [c_ki, c_soku]]), ropt (rseq [RLit [c_dai], RGrp 2 (rplus (RCls False rng_kjd10000)), RLit [c_jou]])]),
        (rseq [RLit [0x6700, 0x9AD8, 0x88C1, 0x5224, 0x6240, c_ki, c_soku], ropt (rseq [RLit [c_dai], RGrp 1 (rplus (RCls False rng_kjd10000)), RLit [c_gou]])]),
        (rseq [RLit [0x4EBA, 0x4E8B, 0x9662, c_ki, c_soku], ropt (rseq [RGrp 1 (rplus (RCls False rng_kjd10000)), RCls False [(0x2015, 0x2015), (0x30FC, 0x30FC), (0xFF0D, 0xFF0D), (0x2014, 0x2014), (0x2D, 0x2D)], RGrp 2 (rplus (RCls False rng_kjd10000))])]),
        (rseq [RLit [c_kai_meet, 0x8A08, 0x691C, 0x67FB, 0x9662, c_ki, c_soku], ropt (rseq [RLit [c_dai], RGrp 1 (rplus (RCls False rng_kjd10000)), RLit [c_gou]])]),
        (rseq [RGrp 1 (rseq [rplus (RCls True (rng_ws @ [(p_comma, p_comma), (p_stop, p_stop)])), RLit [0x59D4, 0x54E1, c_kai_meet, c_ki, c_soku]]), ropt (rseq [RLit [c_dai], RGrp 2 (rplus (RCls False rng_kjd10000)), RLit [c_gou]])]),
        (rseq [RLit [0x516C, c_sei, 0x53D6, 0x5F15, 0x59D4, 0x54E1, c_kai_meet, c_ki, c_soku], ropt (rseq [RLit [c_dai], RGrp 1 (rplus (RCls False rng_kjd10000)), RLit [c_gou]])])]),
      ([c_jou, 0x4F8B], [(rseq [RGrp 1 (rseq [rplus (RCls True (rng_ws @ [(p_comma, p_comma), (p_stop, p_stop)])), ralt [RLit [0x90FD], RLit [0x9053], RLit [0x5E9C], RLit [0x770C], RLit [0x5E02], RLit [0x533A], RLit [0x753A], RLit [0x6751]]]), RLit [c_jou, 0x4F8B], ropt (rseq [RLit [c_dai], RGrp 2 (rplus (RCls False rng_kjd10000)), RLit [c_jou]])]),
        (rseq [RGrp 1 (rseq [rplus (RCls True (rng_ws @ [(p_comma, p_comma), (p_stop, p_stop)])), RLit [c_jou, 0x4F8B]]), ropt (rseq [RLit [c_dai], RGrp 2 (rplus (RCls False rng_kjd10000)), RLit [c_jou]])]),
        (rseq [RLit [0x6771, 0x4EAC, 0x90FD, c_jou, 0x4F8B], ropt (rseq [RLit [c_dai], RGrp 1 (rplus (RCls False rng_kjd10000)), RLit [c_gou]])]),
        (rseq [RLit [0x7279, c_betsu, 0x533A, c_jou, 0x4F8B], ropt (rseq [RLit [c_dai], RGrp 1 (rplus (RCls False rng_kjd10000)), RLit [c_gou]])])]),
      ([0x544A, 0x793A], [(rseq [RGrp 1 (rseq [rplus (RCls True (rng_ws @ [(p_comma, p_comma), (p_stop, p_stop)])), ralt [RLit [0x5927, 0x81E3], RLit [0x7701], RLit [0x5E81], RLit [0x59D4, 0x54E1, c_kai_meet]]]), RLit [0x544A, 0x793A], ropt (rseq [RLit [c_dai], RGrp 2 (rplus (RCls False rng_kjd10000)), RLit [c_gou]])]),
        (rseq [RLit [0x544A, 0x793A], rseq [RLit [c_dai], RGrp 1 (rplus (RCls False rng_kjd10000)), RLit [c_gou]]]),
        (RLit [0x544A, 0x793A, h_ni, h_yo, h_ri]),
        (rseq [RLit [0x544A, 0x793A, h_ni, 0x57FA, 0x3065], RCls False [(h_ki, h_ki), (h_ku, h_ku)]]),
        (rseq [RLit [0x5E73, 0x6210], RGrp 1 (rplus (RCls False rng_kjd10000)), RLit [0x5E74], rstar (RCls True rng_eol), RLit [0x544A, 0x793A], ropt (rseq [RLit [c_dai], RGrp 2 (rplus (RCls False rng_kjd10000)), RLit [c_gou]])]),
        (rseq [RLit [c_rei_order, 0x548C], RGrp 1 (rplus (RCls False rng_kjd10000)), RLit [0x5E74], rstar (RCls True rng_eol), RLit [0x544A, 0x793A], ropt (rseq [RLit [c_dai], RGrp 2 (rplus (RCls False rng_kjd10000)), RLit [c_gou]])]),
        (rseq [RLit [0x662D, 0x548C], RGrp 1 (rplus (RCls False rng_kjd10000)), RLit [0x5E74], rstar (RCls True rng_eol), RLit [0x544A, 0x793A], ropt (rseq [RLit [c_dai], RGrp 2 (rplus (RCls False rng_kjd10000)), RLit [c_gou]])])]),
      ([0x901A, 0x9054], [(rseq [RGrp 1 (rseq [rplus (RCls True (rng_ws @ [(p_comma, p_comma), (p_stop, p_stop)])), RLit [0x767A]]), ropt (rseq [ropt (RLit [c_dai]), RGrp 2 (rplus (RCls False (rng_digit @ [(c_ichi, c_ichi), (c_ni, c_ni), (c_san, c_san), (c_yon, c_yon), (c_go, c_go), (c_roku, c_roku), (c_nana, c_nana), (c_hachi, c_hachi), (c_kyuu, c_kyuu), (c_juu, c_juu), (c_hyaku, c_hyaku), (c_sen, c_sen), (c_man, c_man), (c_maru, c_maru)]))), RLit [c_gou]])]),
        (rseq [RGrp 1 (rseq [RRep (RCls True (rng_ws @ [(p_comma, p_comma), (p_stop, p_stop)])) 0 None False, ralt [RLit [0x901A, 0x9054], RLit [0x901A, 0x77E5]]]), ropt (rseq [RLit [c_dai], RGrp 2 (rplus (RCls False rng_kjd10000)), RLit [c_gou]])]),
        (rseq [RGrp 1 (rseq [RRep (RCls True (rng_ws @ [(p_comma, p_comma), (p_stop, p_stop)])) 0 None False, ralt [RLit [0x7701], RLit [0x5E81], RLit [0x5C40], RLit [0x90E8], RLit [0x8AB2], RLit [0x5BA4], RLit [c_hon, 0x90E8], RLit [0x30BB, 0x30F3, 0x30BF, 0x30FC]], RRep (RCls True (rng_ws @ [(p_comma, p_comma), (p_stop, p_stop)])) 0 None False, ropt (ralt [RLit [0x9577], RLit [c_ji, 0x9577], RLit [0x5BE9, 0x8B70, 0x5B98], RLit [0x53C2, 0x4E8B, 0x5B98], RLit [0x5BA4, 0x9577]])]), ropt (RCls False [(h_no, h_no), (h_ni, h_ni)]), ropt (RLit [h_yo, h_ru]), RLit [0x901A, 0x77E5]]),
        (rseq [RGrp 1 (rseq [RRep (RCls True (rng_ws @ [(p_comma, p_comma), (p_stop, p_stop)])) 0 None False, ralt [RLit [0x7701], RLit [0x5E81], RLit [0x5C40], RLit [0x90E8], RLit [0x8AB2], RLit [0x5BA4], RLit [c_hon, 0x90E8], RLit [0x30BB, 0x30F3, 0x30BF, 0x30FC]], RRep (RCls True (rng_ws @ [(p_comma, p_comma), (p_stop, p_stop)])) 0 None False, ropt (ralt [RLit [0x9577], RLit [c_ji, 0x9577], RLit [0x5BE9, 0x8B70, 0x5B98], RLit [0x53C2, 0x4E8B, 0x5B98], RLit [0x5BA4, 0x9577]])]), ropt (RCls False [(h_no, h_no), (h_ni, h_ni)]), ropt (RLit [h_yo, h_ru]), RLit [0x901A, 0x9054]]),
        (rseq [RGrp 1 (rseq [rplus (RCls True (rng_ws @ [(p_comma, p_comma), (p_stop, p_stop)])), RLit [0x5C40, 0x9577]]), RLit [0x901A, 0x77E5]]),
        (rseq [RGrp 1 (rseq [rplus (RCls True (rng_ws @ [(p_comma, p_comma), (p_stop, p_stop)])), RLit [0x90E8, 0x9577]]), RLit [0x901A, 0x77E5]]),
        (rseq [RGrp 1 (rseq [rplus (RCls True (rng_ws @ [(p_comma, p_comma), (p_stop, p_stop)])), RLit [0x8AB2, 0x9577]]), RLit [0x901A, 0x77E5]]),
        (rseq [RGrp 1 (rseq [rplus (RCls True (rng_ws @ [(p_comma, p_comma), (p_stop, p_stop)])), RLit [0x5C40, 0x9577]]), RLit [0x901A, 0x9054]]),
        (rseq [RGrp 1 (rseq [rplus (RCls True (rng_ws @ [(p_comma, p_comma), (p_stop, p_stop)])), RLit [0x90E8, 0x9577]]), RLit [0x901A, 0x9054]]),
        (rseq [RGrp 1 (rseq [rplus (RCls True (rng_ws @ [(p_comma, p_comma), (p_stop, p_stop)])), RLit [0x8AB2, 0x9577]]), RLit [0x901A, 0x9054]]),
        (rseq [RGrp 1 (rseq [RRep (RCls True (rng_ws @ [(p_comma, p_comma), (p_stop, p_stop)])) 0 None False, RLit [0x7701], RRep (RCls True (rng_ws @ [(p_comma, p_comma), (p_stop, p_stop)])) 0 None False, RLit [0x5C40], RRep (RCls True (rng_ws @ [(p_comma, p_comma), (p_stop, p_stop)])) 0 None False]), RLit [0x901A, 0x77E5]]),
        (rseq [RGrp 1 (rseq [RRep (RCls True (rng_ws @ [(p_comma, p_comma), (p_stop, p_stop)])) 0 None False, RLit [0x7701], RRep (RCls True (rng_ws @ [(p_comma, p_comma), (p_stop, p_stop)])) 0 None False, RLit [0x5C40], RRep (RCls True (rng_ws @ [(p_comma, p_comma), (p_stop, p_stop)])) 0 None False]), RLit [0x901A, 0x9054]])]),
      ([0x8A13, c_rei_order], [(rseq [RGrp 1 (rseq [rplus (RCls True (rng_ws @ [(p_comma, p_comma), (p_stop, p_stop)])), RLit [0x8A13, c_rei_order]]), ropt (rseq [RLit [c_dai], RGrp 2 (rplus (RCls False rng_kjd10000)), RLit [c_gou]])]),
        (rseq [RLit [0x8A13, c_rei_order], rseq [RLit [c_dai], RGrp 1 (rplus (RCls False rng_kjd10000)), RLit [c_gou]]]),
        (rseq [RGrp 1 (rseq [rplus (RCls True (rng_ws @ [(p_comma, p_comma), (p_stop, p_stop)])), ralt [RLit [0x7701], RLit [0x5E81]]]), RLit [0x8A13, c_rei_order], ropt (rseq [RLit [c_dai], RGrp 2 (rplus (RCls False rng_kjd10000)), RLit [c_gou]])])]),
      ([0x52C5, c_rei_order], [(rseq [RLit [0x52C5, c_rei_order], ropt (rseq [RLit [c_dai], RGrp 1 (rplus (RCls False rng_kjd10000)), RLit [c_gou]])]),
        (rseq [RLit [0x660E, 0x6CBB], RGrp 1 (rplus (RCls False rng_kjd10000)), RLit [0x5E74, 0x52C5, c_rei_order], ropt (rseq [RLit [c_dai], RGrp 2 (rplus (RCls False rng_kjd10000)), RLit [c_gou]])]),
        (rseq [RLit [0x5927, c_sei], RGrp 1 (rplus (RCls False rng_kjd10000)), RLit [0x5E74, 0x52C5, c_rei_order], ropt (rseq [RLit [c_dai], RGrp 2 (rplus (RCls False rng_kjd10000)), RLit [c_gou]])]),
        (rseq [RLit [0x662D, 0x548C], RGrp 1 (rplus (RCls False rng_kjd10000)), RLit [0x5E74, 0x52C5, c_rei_order], ropt (rseq [RLit [c_dai], RGrp 2 (rplus (RCls False rng_kjd10000)), RLit [c_gou]])])])]"

section \<open>Numerals\<close>

text \<open>One round of the loop: the character before the current one, the sum, the current number and the flag.\<close>

definition digit_before :: "jschar option \<Rightarrow> int" where
  "digit_before prev =
     (case prev of None \<Rightarrow> 1
      | Some c \<Rightarrow> (case map_of kanjiToNumber c of None \<Rightarrow> 1 | Some v \<Rightarrow> if v < 10 then v else 1))"

fun arabic_step :: "jschar option \<times> int \<times> int \<times> bool \<Rightarrow> jschar \<Rightarrow> jschar option \<times> int \<times> int \<times> bool" where
  "arabic_step (prev, result, currentNum, inThousands) char =
     (case map_of kanjiToNumber char of
        None \<Rightarrow> (Some char, result, currentNum, inThousands)
      | Some value \<Rightarrow>
          let one = (if currentNum = 0 then 1 else currentNum) in
          if value = 10000 then (Some char, result + one * value, 0, False)
          else if value = 1000 then (Some char, result, one * value, True)
          else if value = 100 then
            (Some char, result, (if inThousands then currentNum + digit_before prev * value else one * value), inThousands)
          else if value = 10 then
            (Some char, result, (if 100 \<le> currentNum then currentNum + digit_before prev * value else one * value), inThousands)
          else if value < 10 then
            (Some char, result,
             (if currentNum = 0 then value else if currentNum mod 10 = 0 then currentNum + value
              else currentNum * 10 + value), inThousands)
          else (Some char, result, currentNum, inThousands))"

definition kanjiToArabic :: "jsstr \<Rightarrow> int" where
  "kanjiToArabic kanjiStr =
     (let cleaned = filter (\<lambda>c. c \<noteq> c_dai \<and> c \<noteq> c_jou) kanjiStr in
      if cleaned = [] then 0
      else case parse_int cleaned of
        Some n \<Rightarrow> n
      | None \<Rightarrow> (case foldl arabic_step (None, 0, 0, False) cleaned of (_, result, currentNum, _) \<Rightarrow> result + currentNum))"

definition kanji_digit_of :: "int \<Rightarrow> jsstr" where
  "kanji_digit_of n =
     (if 0 \<le> n \<and> n < 10 then [[c_rei, c_ichi, c_ni, c_san, c_yon, c_go, c_roku, c_nana, c_hachi, c_kyuu] ! nat n]
      else (str ''undefined''))"

definition kanji_unit :: "int \<Rightarrow> int \<Rightarrow> jschar \<Rightarrow> jsstr" where
  "kanji_unit num unit sign =
     (if num < unit then [] else (if 1 < num div unit then kanji_digit_of (num div unit) else []) @ [sign])"

definition arabicToKanjiArticle :: "int \<Rightarrow> jsstr" where
  "arabicToKanjiArticle num =
     (if num \<le> 0 then []
      else [c_dai] @ kanji_unit num 1000 c_sen @
        (let num = (if 1000 \<le> num then num mod 1000 else num) in kanji_unit num 100 c_hyaku @
          (let num = (if 100 \<le> num then num mod 100 else num) in kanji_unit num 10 c_juu @
            (let num = (if 10 \<le> num then num mod 10 else num) in if 0 < num then kanji_digit_of num else []))) @ [c_jou])"

definition resolveRelativeReference :: "jsstr \<Rightarrow> jsstr option \<Rightarrow> jsstr option" where
  "resolveRelativeReference refType currentArticle =
     (if \<not> truthy currentArticle then None
      else let currentNum = kanjiToArabic (the currentArticle) in
        if currentNum = 0 then None
        else case (if refType = [c_zen, c_jou] then Some (currentNum - 1)
                   else if refType = [c_ji, c_jou] then Some (currentNum + 1) else None) of
            None \<Rightarrow> None
          | Some targetNum \<Rightarrow> if targetNum \<le> 0 then None else Some (arabicToKanjiArticle targetNum))"

section \<open>Pass 1\<close>

text \<open>The replacement \<open>$1$2\<close>, comma, \<open>$3$4\<close>.\<close>

definition parted :: "rmatch \<Rightarrow> jsstr" where
  "parted m = (let g = (\<lambda>k. case cap m k of None \<Rightarrow> [] | Some s \<Rightarrow> s) in g 1 @ g 2 @ [p_comma] @ g 3 @ g 4)"

definition preprocessParallelReferences :: "jsstr \<Rightarrow> jsstr" where
  "preprocessParallelReferences text =
     replace_all (rseq [RGrp 1 (rseq [rplus (RCls True (rng_ws @ [(p_comma, p_comma), (p_stop, p_stop)])), RLit [0x7701, c_rei_order]]), RGrp 2 (rseq [RLit [c_dai], rplus (RCls False rng_kjd10000), RLit [c_gou]]), ralt [RLit [c_oyo, h_bi], RLit [c_nara, h_bi, h_ni]], RGrp 3 (rseq [rplus (RCls True (rng_ws @ [(p_comma, p_comma), (p_stop, p_stop)])), RLit [0x7701, c_rei_order]]), RGrp 4 (rseq [RLit [c_dai], rplus (RCls False rng_kjd10000), RLit [c_gou]])]) parted
      (replace_all (rseq [RGrp 1 (rseq [rplus (RCls True (rng_ws @ [(p_comma, p_comma), (p_stop, p_stop)])), RLit [0x653F, c_rei_order]]), RGrp 2 (rseq [RLit [c_dai], rplus (RCls False rng_kjd10000), RLit [c_jou]]), ralt [RLit [c_oyo, h_bi], RLit [c_nara, h_bi, h_ni]], RGrp 3 (rseq [rplus (RCls True (rng_ws @ [(p_comma, p_comma), (p_stop, p_stop)])), RLit [0x653F, c_rei_order]]), RGrp 4 (rseq [RLit [c_dai], rplus (RCls False rng_kjd10000), RLit [c_jou]])]) parted
       (replace_all (rseq [RGrp 1 (rseq [rplus (RCls True (rng_ws @ [(p_comma, p_comma), (p_stop, p_stop)])), RLit [0x65BD, 0x884C, c_rei_order]]), RGrp 2 (rseq [RLit [c_dai], rplus (RCls False rng_kjd10000), RLit [c_jou]]), ralt [RLit [c_oyo, h_bi], RLit [c_nara, h_bi, h_ni]], RGrp 3 (rseq [rplus (RCls True (rng_ws @ [(p_comma, p_comma), (p_stop, p_stop)])), RLit [0x65BD, 0x884C, c_rei_order]]), RGrp 4 (rseq [RLit [c_dai], rplus (RCls False rng_kjd10000), RLit [c_jou]])]) parted text))"

definition generalPatterns :: "(regex \<times> jsstr) list" where
  "generalPatterns =
     [((rseq [RLit [0x7701, c_rei_order], ralt [RLit [h_ni, h_yo, h_ri], rseq [RLit [h_ni, 0x57FA, 0x3065], RCls False [(h_ki, h_ki), (h_ku, h_ku)]], RLit [h_de, c_tei, h_me, h_ru]]]), [0x7701, c_rei_order]),
      ((rseq [RLit [0x653F, c_rei_order], ralt [RLit [h_ni, h_yo, h_ri], rseq [RLit [h_ni, 0x57FA, 0x3065], RCls False [(h_ki, h_ki), (h_ku, h_ku)]], RLit [h_de, c_tei, h_me, h_ru]]]), [0x653F, c_rei_order]),
      ((rseq [RLit [c_ki, c_soku], ralt [RLit [h_ni, h_yo, h_ri], rseq [RLit [h_ni, 0x57FA, 0x3065], RCls False [(h_ki, h_ki), (h_ku, h_ku)]], RLit [h_de, c_tei, h_me, h_ru]]]), [c_ki, c_soku]),
      ((rseq [RLit [0x544A, 0x793A], ralt [RLit [h_ni, h_yo, h_ri], rseq [RLit [h_ni, 0x57FA, 0x3065], RCls False [(h_ki, h_ki), (h_ku, h_ku)]], RLit [h_de, c_tei, h_me, h_ru]]]), [0x544A, 0x793A]),
      ((rseq [RLit [0x901A, 0x9054], ralt [RLit [h_ni, h_yo, h_ri], rseq [RLit [h_ni, 0x57FA, 0x3065], RCls False [(h_ki, h_ki), (h_ku, h_ku)]]]]), [0x901A, 0x9054]),
      ((rseq [RLit [c_jou, 0x4F8B], ralt [RLit [h_ni, h_yo, h_ri], rseq [RLit [h_ni, 0x57FA, 0x3065], RCls False [(h_ki, h_ki), (h_ku, h_ku)]], RLit [h_de, c_tei, h_me, h_ru]]]), [c_jou, 0x4F8B]),
      ((rseq [RLit [0x8A13, c_rei_order], ralt [RLit [h_ni, h_yo, h_ri], rseq [RLit [h_ni, 0x57FA, 0x3065], RCls False [(h_ki, h_ki), (h_ku, h_ku)]]]]), [0x8A13, c_rei_order])]"

definition collectGeneralExpressionCandidates :: "jsstr \<Rightarrow> ReferenceCandidate list" where
  "collectGeneralExpressionCandidates text =
     concat (map (\<lambda>(pattern, type). map (\<lambda>m. candidate m 7 External (m_text m) (m_text m) None (Some (m_text m)) None (75/100)
       (Some [((str ''lawType''), JStr type), ((str ''isGeneralExpression''), JBool True)])) (exec_all pattern text)) generalPatterns)"

definition external_regex :: regex where
  "external_regex = rseq [RGrp 1 (ralt (map (RLit \<circ> fst) lawNameToId)),
     RGrp 2 ((rseq [RLit [c_dai], rplus (RCls False rng_kjd10000), RLit [c_jou]])),
     RRep (rseq [RLit [c_dai], RGrp 3 ((rplus (RCls False (rng_digit @ [(c_ichi, c_ichi), (c_ni, c_ni), (c_san, c_san), (c_yon, c_yon), (c_go, c_go), (c_roku, c_roku), (c_nana, c_nana), (c_hachi, c_hachi), (c_kyuu, c_kyuu), (c_juu, c_juu)])))), RLit [c_kou]]) 0 (Some 1) True]"

definition collectExternalCandidates :: "jsstr \<Rightarrow> ReferenceCandidate list" where
  "collectExternalCandidates text =
     map (\<lambda>m. candidate m 10 External (m_text m) (m_text m) (map_of lawNameToId (grp m 1)) (cap m 1) (cap m 2) (95/100)
       (if truthy (cap m 3) then Some [((str ''paragraph''), JStr ([c_dai] @ grp m 3 @ [c_kou]))] else None)) (exec_all external_regex text)"

text \<open>The name, the article, the number and the rule number that the groups of a match mean.\<close>

definition law_parts :: "jsstr \<Rightarrow> rmatch \<Rightarrow> jsstr \<times> jsstr \<times> jsstr \<times> jsstr" where
  "law_parts typeName m =
     (let (lawName, articleNum, numberNum, ruleNumber) =
        (if typeName = [c_ki, c_soku] \<and> str_includes (m_text m) [0x4EBA, 0x4E8B, 0x9662, c_ki, c_soku] then
           if truthy (cap m 1) \<and> truthy (cap m 2)
           then let ruleNumber = grp m 1 @ [0x2015] @ grp m 2 in ([0x4EBA, 0x4E8B, 0x9662, c_ki, c_soku] @ ruleNumber, [], [], ruleNumber)
           else ([0x4EBA, 0x4E8B, 0x9662, c_ki, c_soku], [], [], [])
         else if truthy (cap m 1) then
           let article = (if truthy (cap m 2) then grp m 2 else []) in
           if rx_test (rseq [RBol, rplus (RCls False rng_kjd10000), REol]) (grp m 1) then ([], article, grp m 1, []) else (grp m 1, article, [], [])
         else ([], [], [], []))
      in (if lawName = [] \<and> typeName \<noteq> [] then m_text m else lawName, articleNum, numberNum, ruleNumber))"

definition law_type_candidate :: "jsstr \<Rightarrow> rmatch \<Rightarrow> ReferenceCandidate list" where
  "law_type_candidate typeName m =
     (case law_parts typeName m of (lawName, articleNum, numberNum, ruleNumber) \<Rightarrow>
        if lawName = [] \<or> map_of lawNameToId lawName \<noteq> None then []
        else if articleNum \<noteq> [] then
          [candidate m 9 External (m_text m) (m_text m) None (Some lawName) (Some ([c_dai] @ articleNum @ [c_jou])) (85/100)
             (Some (((str ''lawType''), JStr typeName) # field (str ''number'')
               (or_else (or_else (Some numberNum) (Some ruleNumber)) None)))]
        else
          [candidate m 8 External (m_text m) (m_text m) None (Some lawName) None (80/100)
             (Some (((str ''lawType''), JStr typeName) # field (str ''number'')
               (or_else (or_else (Some numberNum) (Some ruleNumber)) (Some (m_text m)))))])"

definition collectLawTypeCandidates :: "jsstr \<Rightarrow> ReferenceCandidate list" where
  "collectLawTypeCandidates text =
     concat (map (\<lambda>(typeName, patterns). concat (map (\<lambda>pattern.
       concat (map (law_type_candidate typeName) (exec_all pattern text))) patterns)) lawTypePatterns)"

definition range_candidates :: "jsstr \<Rightarrow> rmatch \<Rightarrow> ReferenceCandidate list" where
  "range_candidates text m =
     (let rangeText = grp m 1;
          afterContext = substring text (m_end m) (min (length text) (m_end m + 30));
          isApplication = str_includes afterContext [c_jun, c_you]
      in case rx_match (rseq [RLit [c_dai], RGrp 1 (rplus (RCls False rng_kjd10000)), RLit [c_jou, h_ka, h_ra, c_dai], RGrp 2 (rplus (RCls False rng_kjd10000)), RLit [c_jou, h_ma, h_de]]) rangeText of
           None \<Rightarrow> []
         | Some rangeMatch \<Rightarrow>
             let startNum = kanjiToArabic ([c_dai] @ grp rangeMatch 1 @ [c_jou]); endNum = kanjiToArabic ([c_dai] @ grp rangeMatch 2 @ [c_jou])
             in if 0 < startNum \<and> 0 < endNum \<and> startNum \<le> endNum \<and> endNum - startNum \<le> 100
                then map (\<lambda>i. candidate m (if isApplication then 7 else 8) (if isApplication then Application else Range)
                    rangeText rangeText None None (Some (arabicToKanjiArticle i)) (9/10)
                    (Some ([((str ''rangeStart''), JStr (arabicToKanjiArticle startNum)), ((str ''rangeEnd''), JStr (arabicToKanjiArticle endNum)),
                       ((str ''isRangeMember''), JBool True)] @ field (str ''applicationType'') (if isApplication then Some [c_jun, c_you] else None))))
                  [startNum..endNum]
                else [])"

definition range_regex :: regex where
  "range_regex = (RGrp 1 (rseq [RLit [c_dai], rplus (RCls False rng_kjd10000), RLit [c_jou, h_ka, h_ra, c_dai], rplus (RCls False rng_kjd10000), RLit [c_jou, h_ma, h_de]]))"

definition collectRangeCandidates :: "jsstr \<Rightarrow> ReferenceCandidate list" where
  "collectRangeCandidates text = concat (map (range_candidates text) (exec_all range_regex text))"

definition application_regex :: regex where
  "application_regex = (rseq [RGrp 1 (rseq [RLit [c_dai], rplus (RCls False rng_kjd10000), RLit [c_jou]]), ropt (rseq [RLit [c_dai], rplus (RCls False (rng_digit @ [(c_ichi, c_ichi), (c_ni, c_ni), (c_san, c_san), (c_yon, c_yon), (c_go, c_go), (c_roku, c_roku), (c_nana, c_nana), (c_hachi, c_hachi), (c_kyuu, c_kyuu), (c_juu, c_juu)])), RLit [c_kou]]), RLit [h_no, c_ki, c_tei], RCls False [(h_ha, h_ha), (h_wo, h_wo)], rstar (RCls True [(p_stop, p_stop)]), RLit [c_jun, c_you]])"

definition collectApplicationCandidates :: "jsstr \<Rightarrow> ReferenceCandidate list" where
  "collectApplicationCandidates text =
     concat (map (\<lambda>m. if str_includes (grp m 1) [h_ka, h_ra] then []
         else [candidate m 7 Application (m_text m) (grp m 1) None None (cap m 1) (85/100)
                 (Some [((str ''applicationType''), JStr [c_jun, c_you])])])
       (exec_all application_regex text))"

definition paragraph_regex :: regex where
  "paragraph_regex = (rseq [RGrp 1 (rseq [RLit [c_dai], rplus (RCls False rng_kjd10000), RLit [c_jou]]), RGrp 2 (rseq [RLit [c_dai], rplus (RCls False (rng_digit @ [(c_ichi, c_ichi), (c_ni, c_ni), (c_san, c_san), (c_yon, c_yon), (c_go, c_go), (c_roku, c_roku), (c_nana, c_nana), (c_hachi, c_hachi), (c_kyuu, c_kyuu), (c_juu, c_juu)])), RLit [c_kou]]), ropt (RGrp 3 (rseq [RLit [c_dai], rplus (RCls False (rng_digit @ [(c_ichi, c_ichi), (c_ni, c_ni), (c_san, c_san), (c_yon, c_yon), (c_go, c_go), (c_roku, c_roku), (c_nana, c_nana), (c_hachi, c_hachi), (c_kyuu, c_kyuu), (c_juu, c_juu)])), RLit [c_gou]]))])"

definition same_article_regex :: regex where
  "same_article_regex = (rseq [RGrp 1 (RLit [c_dou, c_jou]), RGrp 2 (rseq [RLit [c_dai], rplus (RCls False (rng_digit @ [(c_ichi, c_ichi), (c_ni, c_ni), (c_san, c_san), (c_yon, c_yon), (c_go, c_go), (c_roku, c_roku), (c_nana, c_nana), (c_hachi, c_hachi), (c_kyuu, c_kyuu), (c_juu, c_juu)])), RLit [c_kou]]), ropt (RGrp 3 (rseq [RLit [c_dai], rplus (RCls False (rng_digit @ [(c_ichi, c_ichi), (c_ni, c_ni), (c_san, c_san), (c_yon, c_yon), (c_go, c_go), (c_roku, c_roku), (c_nana, c_nana), (c_hachi, c_hachi), (c_kyuu, c_kyuu), (c_juu, c_juu)])), RLit [c_gou]]))])"

definition collectParagraphCandidates :: "jsstr \<Rightarrow> jsstr option \<Rightarrow> ReferenceCandidate list" where
  "collectParagraphCandidates text currentArticle =
     map (\<lambda>m. candidate m 9 Internal (m_text m) (m_text m) None None (cap m 1) (95/100)
         (Some (field (str ''paragraph'') (cap m 2) @ field (str ''item'') (or_else (cap m 3) None))))
       (exec_all paragraph_regex text) @
     map (\<lambda>m. candidate m 9 Internal (m_text m) (m_text m) None None (or_else currentArticle (Some [c_dai, c_ichi, c_jou]))
         (if truthy currentArticle then 95/100 else 7/10)
         (Some (field (str ''paragraph'') (cap m 2) @ field (str ''item'') (or_else (cap m 3) None) @ [((str ''originalText''), JStr [c_dou, c_jou])])))
       (exec_all same_article_regex text)"

text \<open>\<open>indexOf\<close> from a position.\<close>

definition index_from_pos :: "jsstr \<Rightarrow> jsstr \<Rightarrow> nat \<Rightarrow> int" where
  "index_from_pos text p i = (case index_of (drop i text) p of None \<Rightarrow> -1 | Some k \<Rightarrow> int (i + k))"

fun multiple_step :: "jsstr \<Rightarrow> jsstr list \<times> ReferenceCandidate list \<Rightarrow> rmatch \<times> nat \<Rightarrow> jsstr list \<times> ReferenceCandidate list" where
  "multiple_step text (processedPairs, candidates) (m, i) =
     (if \<not> truthy (cap m i) then (processedPairs, candidates)
      else let article = [c_dai] @ grp m i @ [c_jou]; pairKey = nat_str (m_index m) @ (str ''-'') @ article in
        if pairKey \<in> set processedPairs then (processedPairs, candidates)
        else (pairKey # processedPairs, candidates @ [candidate_at (index_from_pos text article (m_index m)) (length article) 6
          Internal article article None None (Some article) (9/10) (Some [((str ''isMultiple''), JBool True)])]))"

definition multiple_patterns :: "(regex \<times> nat) list" where
  "multiple_patterns =
     [((rseq [RLit [c_dai], RGrp 1 (rplus (RCls False rng_kjd10000)), RLit [c_jou], ralt [RLit [c_oyo, h_bi], RLit [c_nara, h_bi, h_ni]], RLit [c_dai], RGrp 2 (rplus (RCls False rng_kjd10000)), RLit [c_jou]]), 2),
      ((rseq [RLit [c_dai], RGrp 1 (rplus (RCls False rng_kjd10000)), RLit [c_jou, p_comma, c_dai], RGrp 2 (rplus (RCls False rng_kjd10000)), RLit [c_jou], ralt [RLit [c_oyo, h_bi], RLit [c_nara, h_bi, h_ni]], RLit [c_dai], RGrp 3 (rplus (RCls False rng_kjd10000)), RLit [c_jou]]), 3)]"

definition collectMultipleCandidates :: "jsstr \<Rightarrow> ReferenceCandidate list" where
  "collectMultipleCandidates text =
     snd (foldl (multiple_step text) ([], [])
       (concat (map (\<lambda>(pattern, groups). concat (map (\<lambda>m. map (\<lambda>i. (m, i)) [1..<Suc groups]) (exec_all pattern text)))
          multiple_patterns)))"

definition internal_regex :: regex where
  "internal_regex = (rseq [RLit [c_dai], RGrp 1 (rplus (RCls False rng_kjd10000)), RLit [c_jou]])"

definition collectInternalCandidates :: "jsstr \<Rightarrow> ReferenceCandidate list" where
  "collectInternalCandidates text =
     map (\<lambda>m. candidate m 5 Internal (m_text m) (m_text m) None None (Some (m_text m)) (8/10) (Some []))
       (exec_all internal_regex text)"

definition previous_regex :: regex where
  "previous_regex = (RLit [c_zen, c_jou])"

definition next_regex :: regex where
  "next_regex = (RLit [c_ji, c_jou])"

definition collectRelativeCandidates :: "jsstr \<Rightarrow> jsstr option \<Rightarrow> ReferenceCandidate list" where
  "collectRelativeCandidates text currentArticle =
     concat (map (\<lambda>(regex, type). map (\<lambda>m. let resolved = resolveRelativeReference type currentArticle in
         candidate m 6 Relative (m_text m) (m_text m) None None (or_else resolved (Some type))
           (if truthy resolved then 95/100 else 7/10)
           (Some (((str ''relativeType''), JStr type) # field (str ''currentArticle'') currentArticle)))
       (exec_all regex text)) [(previous_regex, [c_zen, c_jou]), (next_regex, [c_ji, c_jou])])"

definition collectAllCandidates :: "jsstr \<Rightarrow> jsstr option \<Rightarrow> ReferenceCandidate list" where
  "collectAllCandidates text currentArticle =
     (let expandedText = preprocessParallelReferences text
      in collectExternalCandidates expandedText @ collectLawTypeCandidates expandedText @
         collectRangeCandidates expandedText @ collectApplicationCandidates expandedText @
         collectParagraphCandidates expandedText currentArticle @ collectMultipleCandidates expandedText @
         collectInternalCandidates expandedText @ collectRelativeCandidates expandedText currentArticle @
         collectGeneralExpressionCandidates text)"

section \<open>Pass 2\<close>

definition isRangeMember :: "ReferenceCandidate \<Rightarrow> bool" where
  "isRangeMember c \<longleftrightarrow> (case rf_metadata c of None \<Rightarrow> False | Some md \<Rightarrow> map_of md (str ''isRangeMember'') = Some (JBool True))"

definition candidate_key :: "ReferenceCandidate \<Rightarrow> jsstr" where
  "candidate_key c = int_str (rc_startPos c) @ (str ''-'') @ int_str (rc_endPos c) @ (str ''-'') @
     (case rf_targetArticle c of None \<Rightarrow> (str ''null'') | Some a \<Rightarrow> a)"

definition hasHigherPriority :: "ReferenceCandidate list \<Rightarrow> ReferenceCandidate \<Rightarrow> bool" where
  "hasHigherPriority candidates c \<longleftrightarrow>
     rf_type c = Internal \<and> rc_priority c \<le> 5 \<and>
     list_ex (\<lambda>other. rc_priority c < rc_priority other \<and> rc_startPos other \<le> rc_startPos c \<and> rc_endPos c \<le> rc_endPos other)
       candidates"

fun resolve_loop :: "ReferenceCandidate list \<Rightarrow> jsstr list \<Rightarrow> ReferenceCandidate list \<Rightarrow> ReferenceCandidate list" where
  "resolve_loop all processedKeys [] = []"
| "resolve_loop all processedKeys (c # cs) =
     (if isRangeMember c then c # resolve_loop all processedKeys cs
      else if candidate_key c \<in> set processedKeys then resolve_loop all processedKeys cs
      else if hasHigherPriority all c then resolve_loop all (candidate_key c # processedKeys) cs
      else c # resolve_loop all (candidate_key c # processedKeys) cs)"

definition resolveConflicts :: "ReferenceCandidate list \<Rightarrow> ReferenceCandidate list" where
  "resolveConflicts candidates =
     (let sorted = sort_key (\<lambda>c. (rc_startPos c, - rc_priority c)) candidates in resolve_loop sorted [] sorted)"

definition normalize_reference :: "ReferenceCandidate \<Rightarrow> Reference" where
  "normalize_reference ref =
     (let ref1 = (if truthy (rf_targetArticleNumber ref) \<and> \<not> truthy (rf_targetArticle ref)
                  then ref\<lparr>rf_targetArticle := rf_targetArticleNumber ref\<rparr>
                  else if truthy (rf_targetArticle ref) \<and> \<not> truthy (rf_targetArticleNumber ref)
                  then ref\<lparr>rf_targetArticleNumber := rf_targetArticle ref\<rparr> else ref);
          ref2 = (if \<not> truthy (rf_text ref1) \<and> rf_sourceText ref1 \<noteq> [] then ref1\<lparr>rf_text := Some (rf_sourceText ref1)\<rparr> else ref1)
      in Reference.truncate ref2)"

definition normalizeReferences :: "ReferenceCandidate list \<Rightarrow> Reference list" where
  "normalizeReferences references = map normalize_reference references"

definition detectReferences :: "jsstr \<Rightarrow> jsstr option \<Rightarrow> Reference list" where
  "detectReferences text currentArticle = normalizeReferences (resolveConflicts (collectAllCandidates text currentArticle))"

section \<open>The second pass\<close>

lemma int_str_dash: "int_str a @ 0x2D # r = int_str b @ 0x2D # s \<longleftrightarrow> a = b \<and> r = s"
proof
  have tw: "takeWhile is_digit (nat_str n @ 0x2D # u) = nat_str n" for n and u :: jsstr
    by (simp add: takeWhile_append is_digit_def nat_str_digits takeWhile_eq_all_conv)
  have nat: "m = n \<and> u = v" if "nat_str m @ 0x2D # u = nat_str n @ 0x2D # v" for m n and u v :: jsstr
  proof -
    from that tw [of m u] tw [of n v] have "nat_str m = nat_str n" by simp
    with that show ?thesis by (simp add: nat_str_inj)
  qed
  have first: "nat_str n @ u \<noteq> 0x2D # v" for n and u v :: jsstr
    using nat_str_digits [of "0x2D" n] nat_str_nonempty [of n] by (cases "nat_str n") (auto simp: is_digit_def)
  assume eq: "int_str a @ 0x2D # r = int_str b @ 0x2D # s"
  show "a = b \<and> r = s"
  proof (cases "a < 0"; cases "b < 0")
    assume "a < 0" "b < 0"
    with eq nat [of "nat (- a)" r "nat (- b)" s] show ?thesis by (simp add: int_str_def eq_nat_nat_iff)
  next
    assume "a < 0" "\<not> b < 0"
    with eq first [of "nat b" "0x2D # s"] show ?thesis by (metis append_Cons int_str_def)
  next
    assume "\<not> a < 0" "b < 0"
    with eq first [of "nat a" "0x2D # r"] show ?thesis by (metis append_Cons int_str_def)
  next
    assume "\<not> a < 0" "\<not> b < 0"
    with eq nat [of "nat a" r "nat b" s] show ?thesis by (simp add: eq_nat_nat_iff)
  qed
qed simp

lemma key_span:
  "candidate_key a = candidate_key b \<Longrightarrow> rc_startPos a = rc_startPos b \<and> rc_endPos a = rc_endPos b"
  unfolding candidate_key_def by (simp add: int_str_dash)

definition covered_by :: "ReferenceCandidate \<Rightarrow> ReferenceCandidate \<Rightarrow> bool" where
  "covered_by c other \<longleftrightarrow>
     rc_priority c < rc_priority other \<and> rc_startPos other \<le> rc_startPos c \<and> rc_endPos c \<le> rc_endPos other"

text \<open>In the sorted list the first candidate of a key has the highest priority.\<close>

abbreviation first_highest :: "ReferenceCandidate list \<Rightarrow> bool" where
  "first_highest cs \<equiv> sorted_wrt (\<lambda>a b. candidate_key a = candidate_key b \<longrightarrow> rc_priority b \<le> rc_priority a) cs"

lemma sorted_first_highest: "first_highest (sort_key (\<lambda>c. (rc_startPos c, - rc_priority c)) cs)"
proof -
  have "sorted_wrt (\<lambda>a b. (rc_startPos a, - rc_priority a) \<le> (rc_startPos b, - rc_priority b))
      (sort_key (\<lambda>c. (rc_startPos c, - rc_priority c)) cs)"
    using sorted_sort_key [of "\<lambda>c. (rc_startPos c, - rc_priority c)" cs] by (simp add: sorted_wrt_map)
  then show ?thesis by (rule sorted_wrt_mono_rel [rotated]) (auto dest: key_span)
qed

lemma resolve_loop_subseq: "subseq (resolve_loop all ks cs) cs"
  by (induction all ks cs rule: resolve_loop.induct) auto

lemma resolve_loop_members: "c \<in> set cs \<Longrightarrow> isRangeMember c \<Longrightarrow> c \<in> set (resolve_loop all ks cs)"
  by (induction all ks cs rule: resolve_loop.induct) auto

lemma resolve_loop_keys:
  "distinct (map candidate_key (filter (\<lambda>c. \<not> isRangeMember c) (resolve_loop all ks cs))) \<and>
   (\<forall>c \<in> set (resolve_loop all ks cs). isRangeMember c \<or> candidate_key c \<notin> set ks \<and> \<not> hasHigherPriority all c)"
  by (induction all ks cs rule: resolve_loop.induct) auto

lemma resolve_loop_keeps:
  "first_highest cs \<Longrightarrow> c \<in> set cs \<Longrightarrow> \<not> isRangeMember c \<Longrightarrow>
     candidate_key c \<in> set ks \<or>
     (\<exists>c' \<in> set (resolve_loop all ks cs). candidate_key c' = candidate_key c \<and> rc_priority c \<le> rc_priority c') \<or>
     (\<exists>other \<in> set all. covered_by c other)"
proof (induction all ks cs rule: resolve_loop.induct)
  case (2 all ks x cs)
  have hidden: "\<exists>other \<in> set all. covered_by c other"
    if "hasHigherPriority all x" "candidate_key c = candidate_key x" "rc_priority c \<le> rc_priority x"
    using that key_span [of c x] by (force simp: hasHigherPriority_def covered_by_def list_ex_iff)
  have prio: "rc_priority c \<le> rc_priority x" if "candidate_key c = candidate_key x"
    using that "2.prems"(1,2) by auto
  consider "isRangeMember x" | "\<not> isRangeMember x" "candidate_key x \<in> set ks"
    | "\<not> isRangeMember x" "candidate_key x \<notin> set ks" "hasHigherPriority all x"
    | "\<not> isRangeMember x" "candidate_key x \<notin> set ks" "\<not> hasHigherPriority all x" by blast
  then show ?case
  proof cases
    case 1
    with "2.IH"(1) "2.prems" show ?thesis by auto
  next
    case 2
    with "2.IH"(2) "2.prems" show ?thesis by auto
  next
    case 3
    with "2.IH"(3) "2.prems" prio hidden show ?thesis by auto
  next
    case 4
    with "2.IH"(4) "2.prems" prio show ?thesis by auto
  qed
qed simp

section \<open>Numerals below a thousand\<close>

text \<open>The parts of the numeral, and what the reader makes of each.\<close>

definition unit_part :: "int \<Rightarrow> jschar \<Rightarrow> jsstr" where
  "unit_part d sign = (if d = 0 then [] else (if 1 < d then kanji_digit_of d else []) @ [sign])"

definition ones_part :: "int \<Rightarrow> jsstr" where
  "ones_part d = (if d = 0 then [] else kanji_digit_of d)"

lemma digit_cases:
  "d \<in> {0..9} \<Longrightarrow> d = 0 \<or> d = 1 \<or> d = 2 \<or> d = 3 \<or> d = 4 \<or> d = 5 \<or> d = 6 \<or> d = 7 \<or> d = 8 \<or> d = (9 :: int)"
  by (auto; presburger)

lemma read_hundreds:
  "h \<in> {0..9} \<Longrightarrow> foldl arabic_step (None, 0, 0, False) (unit_part h c_hyaku) =
     (if h = 0 then (None, 0, 0, False) else (Some c_hyaku, 0, 100 * h, False))"
  by (drule digit_cases, elim disjE) (simp_all add: unit_part_def kanji_digit_of_def kanjiToNumber_def)

lemma read_tens:
  "d \<in> {0..9} \<Longrightarrow> foldl arabic_step (None, 0, 0, False) (unit_part d c_juu) =
     (if d = 0 then (None, 0, 0, False) else (Some c_juu, 0, 10 * d, False))"
  by (drule digit_cases, elim disjE) (simp_all add: unit_part_def kanji_digit_of_def kanjiToNumber_def)

lemma read_tens_after:
  "d \<in> {0..9} \<Longrightarrow> 0 < h \<Longrightarrow> foldl arabic_step (Some c_hyaku, 0, 100 * h, False) (unit_part d c_juu) =
     (if d = 0 then (Some c_hyaku, 0, 100 * h, False)
      else (Some c_juu, 0, (if d = 1 then 100 * h + 10 else 100 * h + 11 * d), False))"
  by (drule digit_cases, elim disjE)
     (simp_all add: unit_part_def kanji_digit_of_def kanjiToNumber_def digit_before_def)

lemma read_before_ones:
  assumes "h \<in> {0..9}" "d \<in> {0..9}"
  shows "\<exists>p. foldl arabic_step (None, 0, 0, False) (unit_part h c_hyaku @ unit_part d c_juu) =
    (p, 0, (if h = 0 then 10 * d else if d \<le> 1 then 100 * h + 10 * d else 100 * h + 11 * d), False)"
proof (cases "h = 0")
  case True
  with read_hundreds [OF assms(1)] read_tens [OF assms(2)] show ?thesis by (cases "d = 0") simp_all
next
  case False
  with assms have "0 < h" by simp
  from read_hundreds [OF assms(1)] read_tens_after [OF assms(2) this] False assms(2) show ?thesis
    by (cases "d = 0"; cases "d = 1") simp_all
qed

lemma read_ones:
  "d \<in> {0..9} \<Longrightarrow> (case foldl arabic_step (p, 0, c, False) (ones_part d) of (_, result, currentNum, _) \<Rightarrow> result + currentNum) =
     (if d = 0 then c else if c = 0 then d else if c mod 10 = 0 then c + d else c * 10 + d)"
  by (drule digit_cases, elim disjE) (simp_all add: ones_part_def kanji_digit_of_def kanjiToNumber_def)

lemma parts_chars:
  "d \<in> {0..9} \<Longrightarrow> list_all (\<lambda>c. c \<noteq> c_dai \<and> c \<noteq> c_jou \<and> 0x3000 < c \<and> c < 0xFE00) (unit_part d c_hyaku @ unit_part d c_juu @ ones_part d)"
  by (drule digit_cases, elim disjE) (simp_all add: unit_part_def ones_part_def kanji_digit_of_def)

lemma decimal_digits:
  assumes "h \<in> {0..9}" "d \<in> {0..9}" "u \<in> {0..9}"
  shows "(100 * h + 10 * d + u) div 100 = h" "(100 * h + 10 * d + u) mod 100 = 10 * d + u"
    "(100 * h + 10 * d + u) div 10 mod 10 = d" "(100 * h + 10 * d + u) mod 10 = u"
    "(10 * d + u) div 10 = d" "(10 * d + u) mod 10 = (u :: int)"
proof -
  have "(100 * h + 10 * d + u) div 10 = 10 * h + d" "(100 * h + 10 * d + u) mod 10 = u"
    using assms by (intro int_div_pos_eq [of _ _ _ u] int_mod_pos_eq [of _ _ "10 * h + d"]; simp)+
  moreover have "(10 * h + d) mod 10 = d" using assms by (intro int_mod_pos_eq [of _ _ h]) auto
  ultimately show "(100 * h + 10 * d + u) div 10 mod 10 = d" "(100 * h + 10 * d + u) mod 10 = u" by simp_all
  show "(100 * h + 10 * d + u) div 100 = h" using assms by (intro int_div_pos_eq [of _ _ _ "10 * d + u"]) auto
  show "(100 * h + 10 * d + u) mod 100 = 10 * d + u" using assms by (intro int_mod_pos_eq [of _ _ h]) auto
  show "(10 * d + u) div 10 = d" using assms by (intro int_div_pos_eq [of _ _ _ u]) auto
  show "(10 * d + u) mod 10 = u" using assms by (intro int_mod_pos_eq [of _ _ d]) auto
qed

lemma decimal_split:
  assumes "0 < n" "n < 1000"
  obtains h d u where "h \<in> {0..9}" "d \<in> {0..9}" "u \<in> {0..9}" "n = 100 * h + 10 * d + (u :: int)"
proof
  show "n div 100 \<in> {0..9}" "n div 10 mod 10 \<in> {0..9}" "n mod 10 \<in> {0..9}" using assms by auto
  have "n div 100 = n div 10 div 10" using zdiv_zmult2_eq [of 10 n 10] by simp
  then show "n = 100 * (n div 100) + 10 * (n div 10 mod 10) + n mod 10"
    using mult_div_mod_eq [of 10 n] mult_div_mod_eq [of 10 "n div 10"] by linarith
qed

lemma read_parts:
  assumes "h \<in> {0..9}" "d \<in> {0..9}" "u \<in> {0..9}" "0 < 100 * h + 10 * d + u"
  shows "kanjiToArabic (arabicToKanjiArticle (100 * h + 10 * d + u)) = (case foldl arabic_step (None, 0, 0, False)
      (unit_part h c_hyaku @ unit_part d c_juu @ ones_part u) of (_, result, currentNum, _) \<Rightarrow> result + currentNum)"
proof -
  let ?n = "100 * h + 10 * d + u" and ?parts = "unit_part h c_hyaku @ unit_part d c_juu @ ones_part u"
  note digits = decimal_digits [OF assms(1-3)]
  have units: "kanji_unit ?n 1000 c_sen = []" "kanji_unit ?n 100 c_hyaku = unit_part h c_hyaku" "kanji_unit (10 * d + u) 10 c_juu = unit_part d c_juu"
    using assms by (auto simp: kanji_unit_def unit_part_def digits)
  have rests: "(if 1000 \<le> ?n then ?n mod 1000 else ?n) = ?n" "(if 100 \<le> ?n then ?n mod 100 else ?n) = 10 * d + u"
    "(if 10 \<le> 10 * d + u then (10 * d + u) mod 10 else 10 * d + u) = u"
    using assms by (auto simp: digits)
  have ones: "(if 0 < u then kanji_digit_of u else []) = ones_part u" using assms(3) by (auto simp: ones_part_def)
  have art: "arabicToKanjiArticle ?n = [c_dai] @ ?parts @ [c_jou]"
    using assms(4) unfolding arabicToKanjiArticle_def Let_def units rests ones by simp
  have chars: "list_all (\<lambda>c. c \<noteq> c_dai \<and> c \<noteq> c_jou \<and> 0x3000 < c \<and> c < 0xFE00) ?parts"
    using parts_chars [OF assms(1)] parts_chars [OF assms(2)] parts_chars [OF assms(3)] by simp
  then have clean: "filter (\<lambda>c. c \<noteq> c_dai \<and> c \<noteq> c_jou) (arabicToKanjiArticle ?n) = ?parts"
    unfolding art by (simp add: list_all_iff)
  have "?parts \<noteq> []" using assms by (auto simp: unit_part_def ones_part_def kanji_digit_of_def)
  then obtain c cs where parts: "?parts = c # cs" by (cases ?parts) auto
  with chars have "0x3000 < c" "c < 0xFE00" by simp_all
  then have "parse_int ?parts = None"
    by (cases cs) (simp_all add: parts parse_int_def is_ws_def parse_auto_def parse_digits_def is_digit_def)
  with parts show ?thesis by (simp add: kanjiToArabic_def clean Let_def)
qed

section \<open>Properties\<close>

text \<open>C31: the second pass orders the candidates by position and keeps every member of a range. Of the
  other candidates no two that it keeps have the same span and article, none that it keeps is a bare
  article inside a candidate of higher priority, and a candidate is lost only to one with the same
  span and article and no lower priority, or to one of higher priority that contains it.\<close>

theorem conflicts_exact:
  "set (resolveConflicts cs) \<subseteq> set cs \<and> sorted (map rc_startPos (resolveConflicts cs)) \<and>
   filter isRangeMember (resolveConflicts cs) = filter isRangeMember (sort_key (\<lambda>c. (rc_startPos c, - rc_priority c)) cs) \<and>
   distinct (map candidate_key (filter (\<lambda>c. \<not> isRangeMember c) (resolveConflicts cs))) \<and>
   list_all (\<lambda>c. isRangeMember c \<or> hasHigherPriority cs c = False) (resolveConflicts cs) \<and>
   list_all (\<lambda>c. isRangeMember c \<or>
     list_ex (\<lambda>c'. candidate_key c' = candidate_key c \<and> rc_priority c \<le> rc_priority c') (resolveConflicts cs) \<or>
     list_ex (\<lambda>other. rc_priority c < rc_priority other \<and> rc_startPos other \<le> rc_startPos c \<and> rc_endPos c \<le> rc_endPos other) cs) cs"
proof -
  let ?s = "sort_key (\<lambda>c. (rc_startPos c, - rc_priority c)) cs"
  have rs: "resolveConflicts cs = resolve_loop ?s [] ?s" by (simp add: resolveConflicts_def Let_def)
  have sub: "subseq (resolveConflicts cs) ?s" unfolding rs by (rule resolve_loop_subseq)
  have "sorted (map rc_startPos ?s)"
    using sorted_sort_key [of "\<lambda>c. (rc_startPos c, - rc_priority c)" cs]
    by (auto simp: sorted_wrt_map elim!: sorted_wrt_mono_rel [rotated])
  then have "sorted (map rc_startPos (resolveConflicts cs))"
    using sorted_wrt_subseq [OF sub] by (simp add: sorted_wrt_map)
  moreover have "filter isRangeMember (resolve_loop all ks xs) = filter isRangeMember xs" for all ks xs
    by (induction all ks xs rule: resolve_loop.induct) auto
  moreover have "hasHigherPriority ?s = hasHigherPriority cs" by (auto simp: fun_eq_iff hasHigherPriority_def list_ex_iff)
  moreover note resolve_loop_keys [of ?s "[]" ?s]
  moreover have "isRangeMember c \<or>
      (\<exists>c' \<in> set (resolveConflicts cs). candidate_key c' = candidate_key c \<and> rc_priority c \<le> rc_priority c') \<or>
      (\<exists>other \<in> set cs. rc_priority c < rc_priority other \<and> rc_startPos other \<le> rc_startPos c \<and> rc_endPos c \<le> rc_endPos other)"
    if "c \<in> set cs" for c
    using that resolve_loop_keeps [OF sorted_first_highest, of c cs "[]" ?s] by (auto simp: rs covered_by_def)
  ultimately show ?thesis using set_subseq [OF sub] unfolding list_all_iff list_ex_iff rs by auto
qed

text \<open>an article number below a thousand, written by \<open>arabicToKanjiArticle\<close> and read back by
  \<open>kanjiToArabic\<close>. It comes back below a hundred and where the tens digit is 0 or 1; otherwise the tens
  digit is counted twice, and the units digit is appended instead of added.\<close>

theorem two_pass_numerals:
  assumes "0 < n" "n < 1000"
  shows "kanjiToArabic (arabicToKanjiArticle n) =
    (if n < 100 \<or> n div 10 mod 10 \<le> 1 then n
     else let tens = n div 100 * 100 + n div 10 mod 10 * 11 in if n mod 10 = 0 then tens else tens * 10 + n mod 10)"
proof -
  from assms obtain h d u where dig: "h \<in> {0..9}" "d \<in> {0..9}" "u \<in> {0..9}" and n: "n = 100 * h + 10 * d + u"
    by (rule decimal_split)
  define c where "c = (if h = 0 then 10 * d else if d \<le> 1 then 100 * h + 10 * d else 100 * h + 11 * d)"
  obtain p where "foldl arabic_step (None, 0, 0, False) (unit_part h c_hyaku @ unit_part d c_juu) = (p, 0, c, False)"
    using read_before_ones [OF dig(1,2)] unfolding c_def by blast
  with read_parts [OF dig] assms n read_ones [OF dig(3), of p c] have r: "kanjiToArabic (arabicToKanjiArticle n) =
      (if u = 0 then c else if c = 0 then u else if c mod 10 = 0 then c + u else c * 10 + u)"
    by (simp flip: append_assoc)
  have small: "n < 100 \<longleftrightarrow> h = 0" using dig n by auto
  have "c mod 10 = (if h = 0 \<or> d \<le> 1 then 0 else d)"
    using dig(2) int_mod_pos_eq [of c 10 "10 * h + d" d] by (auto simp: c_def add.commute)
  then show ?thesis unfolding r small unfolding n decimal_digits [OF dig] Let_def using dig by (auto simp: c_def split: if_splits)
qed

theorem two_pass_numerals_witness:
  "kanjiToArabic (arabicToKanjiArticle 115) = 115 \<and> kanjiToArabic (arabicToKanjiArticle 122) = 1222"
  using two_pass_numerals [of 115] two_pass_numerals [of 122] by simp

text \<open>every \<open>exec\<close> loop of the detector ends, on every text, with the matches that the model uses.\<close>

theorem two_pass_loops_end:
  "list_all (\<lambda>r. exec_loop r s 0 (exec_all r s))
     ([external_regex, range_regex, application_regex, paragraph_regex, same_article_regex, internal_regex, previous_regex,
       next_regex] @ concat (map snd lawTypePatterns) @ map fst generalPatterns @ map fst multiple_patterns)"
proof -
  have "list_all (\<lambda>r. 0 < min_len r)
     ([external_regex, range_regex, application_regex, paragraph_regex, same_article_regex, internal_regex, previous_regex,
       next_regex] @ concat (map snd lawTypePatterns) @ map fst generalPatterns @ map fst multiple_patterns)"
    by code_simp
  then show ?thesis by (simp add: list_all_iff exec_loop_total exec_all_def)
qed

text \<open>A rule of the personnel authority that is cited by article gets its own name as its number.\<close>

lemma rule_named_twice:
  "map (\<lambda>r. (rf_targetLaw r, rf_targetArticle r)) (detectReferences [0x4EBA, 0x4E8B, 0x9662, c_ki, c_soku, c_dai, c_san, c_jou] None) =
     [(Some [0x4EBA, 0x4E8B, 0x9662, c_ki, c_soku, 0x4EBA, 0x4E8B, 0x9662, c_ki, c_soku, 0x2015, c_san], None), (Some [0x4EBA, 0x4E8B, 0x9662, c_ki, c_soku], None)]"
  by code_simp


end
