(* ===== verification/HybridDetector.thy ===== *)
theory HybridDetector
  imports TwoPassDetector
begin

text \<open>
  \<^verbatim>\<open>src/lib/llm-validator.ts\<close> and \<^verbatim>\<open>src/lib/hybrid-reference-detector.ts\<close>: the detector that asks a language model about
  abbreviations and indirect references on top of the two-pass detector, and the validator that asks
  it about references already found. The model is an argument: a function from what the prompt is made
  of to its answer. An answer is \<open>Failed\<close> (the call throws or times out), \<open>Unparsable\<close> (the text is not
  \<open>JSON\<close>, or reading it throws) or the list that the prompt asks for, its fields of the types asked for.
\<close>

section \<open>The validator\<close>

datatype 'a answer = Failed | Unparsable | Answer "'a list"

record LReference =
  lr_sourceText :: jsstr
  lr_type :: ReferenceType
  lr_targetArticle :: "jsstr option"
  lr_targetLaw :: "jsstr option"
  lr_start :: nat
  lr_end :: nat

record LLMValidationResult =
  vr_originalReference :: LReference
  vr_isValid :: bool
  vr_confidence :: rat
  vr_correctedType :: "jsstr option"
  vr_reason :: "jsstr option"

record ResolvedReference = LReference +
  lr_resolvedTarget :: "jsstr option"
  lr_resolvedArticle :: "jsstr option"

text \<open>The objects of the answers.\<close>

record validation =
  va_index :: nat
  va_valid :: "bool option"
  va_confidence :: "rat option"
  va_correct_type :: "jsstr option"
  va_reason :: "jsstr option"

record resolution =
  re_index :: nat
  re_resolved :: "jsstr option"

record missed =
  mi_text :: jsstr
  mi_type :: "ReferenceType option"
  mi_target :: "jsstr option"

definition accepted :: "jsstr \<Rightarrow> LReference \<Rightarrow> LLMValidationResult" where
  "accepted reason ref = \<lparr>vr_originalReference = ref, vr_isValid = True, vr_confidence = 1/2, vr_correctedType = None,
     vr_reason = Some reason\<rparr>"

definition validation_of :: "validation list \<Rightarrow> nat \<times> LReference \<Rightarrow> LLMValidationResult" where
  "validation_of validations = (\<lambda>(idx, ref).
     case find (\<lambda>v. va_index v = idx + 1) validations of
       None \<Rightarrow> \<lparr>vr_originalReference = ref, vr_isValid = True, vr_confidence = 1/2, vr_correctedType = None, vr_reason = None\<rparr>
     | Some v \<Rightarrow> \<lparr>vr_originalReference = ref, vr_isValid = (va_valid v \<noteq> Some False),
         vr_confidence = (case va_confidence v of None \<Rightarrow> 1/2 | Some c \<Rightarrow> if c = 0 then 1/2 else c),
         vr_correctedType = va_correct_type v, vr_reason = va_reason v\<rparr>)"

definition validateReferences :: "(jsstr \<Rightarrow> LReference list \<Rightarrow> validation answer) \<Rightarrow> jsstr \<Rightarrow> LReference list \<Rightarrow> LLMValidationResult list" where
  "validateReferences generate text references =
     (if references = [] then []
      else case generate text references of
        Failed \<Rightarrow> map (accepted (str ''LLM validation failed'')) references
      | Unparsable \<Rightarrow> map (accepted (str ''Parse error'')) references
      | Answer validations \<Rightarrow> map (validation_of validations) (enumerate 0 references))"

definition as_resolved :: "jsstr option \<Rightarrow> LReference \<Rightarrow> ResolvedReference" where
  "as_resolved r ref = LReference.extend ref \<lparr>lr_resolvedTarget = r, lr_resolvedArticle = r\<rparr>"

definition parseRelativeResolution :: "resolution answer \<Rightarrow> LReference list \<Rightarrow> ResolvedReference list" where
  "parseRelativeResolution response relativeRefs =
     (case response of
        Answer resolutions \<Rightarrow> map (\<lambda>(idx, ref). as_resolved (case find (\<lambda>r. re_index r = idx + 1) resolutions of
            None \<Rightarrow> None | Some r \<Rightarrow> if truthy (re_resolved r) then re_resolved r else None) ref) (enumerate 0 relativeRefs)
      | _ \<Rightarrow> map (as_resolved None) relativeRefs)"

definition resolveRelativeReferences :: "(jsstr \<Rightarrow> LReference list \<Rightarrow> jsstr option \<Rightarrow> resolution answer) \<Rightarrow> jsstr \<Rightarrow>
    LReference list \<Rightarrow> jsstr option \<Rightarrow> ResolvedReference list" where
  "resolveRelativeReferences generate text references currentArticle =
     (let relativeRefs = filter (\<lambda>r. lr_type r = Relative) references in
      if relativeRefs = [] then map (as_resolved None) references
      else case generate text relativeRefs currentArticle of
          Failed \<Rightarrow> map (as_resolved None) references
        | response \<Rightarrow>
            let resolved = parseRelativeResolution response relativeRefs
            in map (\<lambda>ref. case find (\<lambda>r. lr_sourceText r = lr_sourceText ref \<and> lr_start r = lr_start ref) resolved of
                  None \<Rightarrow> as_resolved None ref | Some r \<Rightarrow> r) references)"

text \<open>The reference that an answer names by its text: at its first occurrence, or at 0 when it has none.\<close>

definition located_reference :: "jsstr \<Rightarrow> jsstr \<Rightarrow> ReferenceType \<Rightarrow> jsstr option \<Rightarrow> jsstr option \<Rightarrow> LReference" where
  "located_reference originalText source type law article =
     (let position = (case index_of originalText source of None \<Rightarrow> 0 | Some i \<Rightarrow> i)
      in \<lparr>lr_sourceText = source, lr_type = type, lr_targetArticle = article, lr_targetLaw = law,
          lr_start = position, lr_end = position + length source\<rparr>)"

definition detectMissedReferences :: "(jsstr \<Rightarrow> LReference list \<Rightarrow> missed answer) \<Rightarrow> jsstr \<Rightarrow> LReference list \<Rightarrow> LReference list" where
  "detectMissedReferences generate text existingRefs =
     (case generate text existingRefs of
        Answer ms \<Rightarrow> map (\<lambda>m. located_reference text (mi_text m)
            (case mi_type m of None \<Rightarrow> External | Some t \<Rightarrow> t) (mi_target m) None) ms
      | _ \<Rightarrow> [])"

definition validateBatch :: "(nat \<Rightarrow> jsstr \<Rightarrow> LReference list \<Rightarrow> validation answer) \<Rightarrow> jsstr list \<Rightarrow> LReference list list \<Rightarrow>
    LLMValidationResult list list" where
  "validateBatch generate texts batch =
     map (\<lambda>(i, t, refs). validateReferences (generate i) t refs) (enumerate 0 (zip texts batch))"

section \<open>The hybrid detector\<close>

record HybridDetectionConfig =
  hc_useLLMForAbbreviations :: bool
  hc_useLLMForIndirectRefs :: bool
  hc_useLLMForRelativeRefs :: bool
  hc_useLLMForValidation :: bool
  hc_confidenceThreshold :: rat
  hc_cacheEnabled :: bool
  hc_maxLLMCallsPerText :: nat


record HybridReferenceDetector =
  hd_cache :: "(jsstr, LReference list) jsmap"
  hd_config :: HybridDetectionConfig

definition default_config :: HybridDetectionConfig where
  "default_config =
     \<lparr>hc_useLLMForAbbreviations = True, hc_useLLMForIndirectRefs = True, hc_useLLMForRelativeRefs = False,
      hc_useLLMForValidation = False, hc_confidenceThreshold = 7/10, hc_cacheEnabled = True, hc_maxLLMCallsPerText = 3\<rparr>"

text \<open>The answers of the language model and the clock, as one argument.\<close>

record expansion_item =
  xi_abbreviated :: jsstr
  xi_full :: "jsstr option"
  xi_article :: "jsstr option"

record indirect_item =
  ii_text :: jsstr
  ii_inferred :: "jsstr option"

record language_model =
  lm_expand :: "jsstr \<Rightarrow> expansion_item answer"
  lm_indirect :: "jsstr \<Rightarrow> indirect_item answer"
  lm_validate :: "jsstr \<Rightarrow> LReference list \<Rightarrow> validation answer"
  lm_time :: int





text \<open>The look-up in the cache around a call: the key is a prefix and the first fifty characters.\<close>

definition cached :: "jsstr \<Rightarrow> jsstr \<Rightarrow> LReference list option \<Rightarrow> HybridReferenceDetector \<Rightarrow> LReference list \<times> HybridReferenceDetector" where
  "cached tag text computed d =
     (let cacheKey = tag @ substring text 0 50 in
      if hc_cacheEnabled (hd_config d) \<and> map_has (hd_cache d) cacheKey
      then (the (map_of (hd_cache d) cacheKey), d)
      else case computed of
        None \<Rightarrow> ([], d)
      | Some refs \<Rightarrow> (refs, if hc_cacheEnabled (hd_config d) then d\<lparr>hd_cache := AList.update cacheKey refs (hd_cache d)\<rparr> else d))"

definition parseAbbreviationResponse :: "expansion_item answer \<Rightarrow> jsstr \<Rightarrow> LReference list" where
  "parseAbbreviationResponse response originalText =
     (case response of
        Answer expansions \<Rightarrow> map (\<lambda>x. located_reference originalText (xi_abbreviated x) External (xi_full x) (xi_article x)) expansions
      | _ \<Rightarrow> [])"


definition expandAbbreviations :: "language_model \<Rightarrow> jsstr \<Rightarrow> HybridReferenceDetector \<Rightarrow> LReference list \<times> HybridReferenceDetector" where
  "expandAbbreviations lm text d =
     cached (str ''abbr_'') text (case lm_expand lm (substring text 0 300) of
       Failed \<Rightarrow> None | response \<Rightarrow> Some (parseAbbreviationResponse response text)) d"


definition validateWithLLM :: "language_model \<Rightarrow> LReference list \<Rightarrow> jsstr \<Rightarrow> LLMValidationResult list" where
  "validateWithLLM lm refs text = validateReferences (lm_validate lm) (substring text 0 500) (take 10 refs)"

definition reference_key :: "LReference \<Rightarrow> jsstr" where
  "reference_key ref = lr_sourceText ref @ (str ''_'') @ nat_str (lr_start ref)"


definition drop_rejected :: "rat \<Rightarrow> LLMValidationResult list \<Rightarrow> (jsstr, LReference) jsmap \<Rightarrow> (jsstr, LReference) jsmap" where
  "drop_rejected threshold results m = foldl (\<lambda>m result.
     if \<not> vr_isValid result \<or> vr_confidence result < threshold
     then AList.delete (reference_key (vr_originalReference result)) m else m) m results"







definition clearCache :: "HybridReferenceDetector \<Rightarrow> HybridReferenceDetector" where
  "clearCache d = d\<lparr>hd_cache := []\<rparr>"

text \<open>A partial configuration as the changes that it makes.\<close>

definition updateConfig :: "(HybridDetectionConfig \<Rightarrow> HybridDetectionConfig) \<Rightarrow> HybridReferenceDetector \<Rightarrow> HybridReferenceDetector" where
  "updateConfig change d = d\<lparr>hd_config := change (hd_config d)\<rparr>"

section \<open>Facts\<close>











section \<open>Properties\<close>


text \<open>the validator answers for every reference, in order, whatever the language model says; and
  resolving relative references keeps the number, the texts and the positions of the references.\<close>

theorem validator_exact:
  "map vr_originalReference (validateReferences gen s refs) = refs \<and>
   map (\<lambda>r. (lr_sourceText r, lr_start r)) (resolveRelativeReferences gen' s refs cur) = map (\<lambda>r. (lr_sourceText r, lr_start r)) refs"
proof
  have "vr_originalReference (accepted why r) = r" for why r by (simp add: accepted_def)
  moreover have "vr_originalReference (validation_of vs (i, r)) = r" for vs i r
    by (simp add: validation_of_def split: option.splits)
  then have "vr_originalReference \<circ> validation_of vs = snd" for vs by (auto simp: fun_eq_iff)
  ultimately show "map vr_originalReference (validateReferences gen s refs) = refs"
    by (cases "gen s refs") (simp_all add: validateReferences_def comp_def)
  have keep: "lr_sourceText (as_resolved x r) = lr_sourceText r" "lr_start (as_resolved x r) = lr_start r" for x r
    by (simp_all add: as_resolved_def LReference.extend_def)
  have found: "(case find (\<lambda>r. lr_sourceText r = lr_sourceText ref \<and> lr_start r = lr_start ref) rs of
      None \<Rightarrow> as_resolved None ref | Some r \<Rightarrow> r) = r' \<Longrightarrow> lr_sourceText r' = lr_sourceText ref \<and> lr_start r' = lr_start ref"
    for ref rs r' by (auto simp: keep find_Some_iff split: option.splits)
  show "map (\<lambda>r. (lr_sourceText r, lr_start r)) (resolveRelativeReferences gen' s refs cur) = map (\<lambda>r. (lr_sourceText r, lr_start r)) refs"
    by (auto simp: resolveRelativeReferences_def Let_def keep found [OF refl] split: answer.splits)
qed

text \<open>A failed validation drops the references that it is meant to accept, because the confidence it reports is
  below the threshold; and a text gets the cached answer of another text with the same beginning.\<close>

lemma validation_failure_drops:
  assumes "lm_validate lm (substring s 0 500) [r] = Failed" "1/2 < th"
  shows "drop_rejected th (validateWithLLM lm [r] s) [(reference_key r, r)] = []"
  using assms by (simp add: validateWithLLM_def validateReferences_def accepted_def drop_rejected_def)

lemma cache_confuses_texts:
  assumes "substring s 0 50 = substring t 0 50" "hc_cacheEnabled (hd_config d)" "lm_expand lm (substring s 0 300) \<noteq> Failed"
  shows "fst (expandAbbreviations lm' t (snd (expandAbbreviations lm s d))) = fst (expandAbbreviations lm s d)"
  using assms by (cases "lm_expand lm (substring s 0 300)")
    (auto simp: expandAbbreviations_def cached_def Let_def map_has_iff map_keys_def update_conv' fst_set_map_of)


end
