(* ===== verification/CachingDetector.thy ===== *)
theory CachingDetector
  imports ReferenceCache Abbreviations
begin

text \<open>
  \<^verbatim>\<open>src/domain/services/EnhancedReferenceDetectorV41.ts\<close>: the detector behind the reference endpoint of the web
  application, which keeps a context between calls (the current article, the last ten articles, the
  laws named so far) and a cache of results. It composes the cache of \<open>ReferenceCache\<close> and the
  dictionary of \<open>Abbreviations\<close>. The dictionary is an argument: the module variable can be extended by
  other code; its search may run for ever on a dictionary with an empty name, and then \<open>None\<close> is the
  outcome of the whole call. The two readings of the clock in one call (look-up and store) are
  arguments. The fields \<open>currentLaw\<close> and \<open>currentSection\<close> of the context are never set and are left out.
\<close>

section \<open>Data\<close>

text \<open>The shapes of the field \<open>metadata\<close>.\<close>

datatype metadata =
    NoMetadata
  | DeletedRange int int
  | Deleted
  | AmendmentInfo jsstr jsstr jsstr jsstr
  | NestedLevel nat jsstr
  | StructureType jsstr
  | Conditional jsstr jsstr
  | ExpandedFrom jsstr "jsstr option" category
  | RelativeType jsstr "jsstr option"
  | IndirectType jsstr "jsstr list"

record Reference =
  r_sourceText :: jsstr
  r_type :: jsstr
  r_targetLaw :: "jsstr option"
  r_targetArticle :: "jsstr option"
  r_start :: nat
  r_end :: nat
  r_confidence :: rat
  r_metadata :: metadata

record DetectionContext =
  dc_currentArticle :: "jsstr option"
  dc_previousArticles :: "jsstr list"
  dc_detectedLaws :: "jsstr list"

record EnhancedReferenceDetectorV41 =
  dv_context :: DetectionContext
  dv_cache :: "Reference ReferenceCache"

definition VERSION :: jsstr where
  "VERSION = (str ''4.1.0'')"

definition empty_context :: DetectionContext where
  "empty_context = \<lparr>dc_currentArticle = None, dc_previousArticles = [], dc_detectedLaws = []\<rparr>"

text \<open>The option \<open>enableCache\<close> is not read by the constructor.\<close>

definition new_detector :: EnhancedReferenceDetectorV41 where
  "new_detector = \<lparr>dv_context = empty_context, dv_cache = new_cache (Some 5000) (Some 3600000) (Some VERSION)\<rparr>"

text \<open>\<open>Set.add\<close>: the elements in the order of insertion.\<close>

definition set_add :: "'a \<Rightarrow> 'a list \<Rightarrow> 'a list" where
  "set_add x xs = (if x \<in> set xs then xs else xs @ [x])"

text \<open>A reference made from a match, with the position of the match.\<close>

definition match_reference :: "rmatch \<Rightarrow> jsstr \<Rightarrow> jsstr option \<Rightarrow> jsstr option \<Rightarrow> rat \<Rightarrow> metadata \<Rightarrow> Reference" where
  "match_reference m type law article confidence meta =
     \<lparr>r_sourceText = m_text m, r_type = type, r_targetLaw = law, r_targetArticle = article, r_start = m_index m,
      r_end = m_end m, r_confidence = confidence, r_metadata = meta\<rparr>"

section \<open>Numerals\<close>

definition kanji_value :: "jschar \<Rightarrow> int option" where
  "kanji_value c = map_of (zip [c_maru, c_ichi, c_ni, c_san, c_yon, c_go, c_roku, c_nana, c_hachi, c_kyuu, c_juu, c_hyaku, c_sen, c_man] [0, 1, 2, 3, 4, 5, 6, 7, 8, 9, 10, 100, 1000, 10000]) c"

fun kanji_step :: "int \<times> int \<times> int \<Rightarrow> jschar \<Rightarrow> int \<times> int \<times> int" where
  "kanji_step (result, temp, prevValue) c =
     (case kanji_value c of
        None \<Rightarrow> (result, temp, prevValue)
      | Some value \<Rightarrow>
          if value = 10 \<or> value = 100 \<or> value = 1000 \<or> value = 10000
          then (result + (if temp = 0 then 1 else temp) * value, 0, value)
          else if 10 \<le> prevValue then (result + value, 0, value)
          else (result, temp * 10 + value, value))"

definition kanjiToNumber :: "jsstr \<Rightarrow> int" where
  "kanjiToNumber kanji =
     (if rx_test (rseq [RBol, rplus (RCls False rng_digit), REol]) kanji then the (parse_int10 kanji)
      else case foldl kanji_step (0, 0, 0) kanji of (result, temp, _) \<Rightarrow> result + temp)"

definition kanjiDigits :: jsstr where
  "kanjiDigits = [c_maru, c_ichi, c_ni, c_san, c_yon, c_go, c_roku, c_nana, c_hachi, c_kyuu]"

text \<open>The callers pass positive numbers.\<close>

definition numberToKanji :: "int \<Rightarrow> jsstr" where
  "numberToKanji num =
     (if num = 0 then [c_maru]
      else if num < 10 then [kanjiDigits ! nat num]
      else if num < 100 then
        (let tens = num div 10; ones = num mod 10
         in if tens = 1 then (if ones = 0 then [c_juu] else [c_juu] @ [kanjiDigits ! nat ones])
            else if ones = 0 then [kanjiDigits ! nat tens] @ [c_juu]
            else [kanjiDigits ! nat tens] @ [c_juu] @ [kanjiDigits ! nat ones])
      else int_str num)"

section \<open>Deleted articles\<close>

definition deleted_range :: "rmatch \<Rightarrow> Reference" where
  "deleted_range m =
     match_reference m (str ''deleted_range'') None (Some ([c_dai] @ grp m 1 @ [c_jou, h_ka, h_ra, c_dai] @ grp m 2 @ [c_jou, h_ma, h_de])) (95/100)
       (DeletedRange (kanjiToNumber (grp m 1)) (kanjiToNumber (grp m 2)))"

definition deleted_single :: "rmatch \<Rightarrow> Reference" where
  "deleted_single m =
     match_reference m (str ''deleted'') None
       (Some (if truthy (cap m 2) then [c_dai] @ grp m 1 @ [c_jou, c_dai] @ grp m 2 @ [c_kou] else [c_dai] @ grp m 1 @ [c_jou])) (95/100) Deleted"

definition amended :: "rmatch \<Rightarrow> Reference" where
  "amended m =
     match_reference m (str ''pre_amendment'') (Some (grp m 1 @ grp m 2 @ [0x5E74, c_hou, c_ritsu, c_dai] @ grp m 3 @ [c_gou])) (cap m 4) (9/10)
       (AmendmentInfo (grp m 1) (grp m 2) (grp m 3) (grp m 4))"

definition rangeDeletePattern :: regex where
  "rangeDeletePattern = (rseq [RLit [c_dai], RGrp 1 (rplus (RCls False rng_kjd10000)), RLit [c_jou, h_ka, h_ra, c_dai], RGrp 2 (rplus (RCls False rng_kjd10000)), RLit [c_jou, h_ma, h_de], rstar (RCls False (rng_ws @ [(p_wspace, p_wspace)])), RLit [0x524A, 0x9664]])"

definition singleDeletePattern :: regex where
  "singleDeletePattern = (rseq [RLit [c_dai], RGrp 1 (rplus (RCls False rng_kjd10000)), RLit [c_jou], ropt (rseq [RLit [c_dai], RGrp 2 (rplus (RCls False (rng_digit @ [(c_ichi, c_ichi), (c_ni, c_ni), (c_san, c_san), (c_yon, c_yon), (c_go, c_go), (c_roku, c_roku), (c_nana, c_nana), (c_hachi, c_hachi), (c_kyuu, c_kyuu), (c_juu, c_juu)]))), RLit [c_kou]]), rstar (RCls False (rng_ws @ [(p_wspace, p_wspace)])), RLit [0x524A, 0x9664]])"

definition amendmentPattern :: regex where
  "amendmentPattern = (rseq [RGrp 1 (ralt [RLit [0x5E73, 0x6210], RLit [0x662D, 0x548C], RLit [c_rei_order, 0x548C]]), RGrp 2 (rplus (RCls False (rng_digit @ [(c_ichi, c_ichi), (c_ni, c_ni), (c_san, c_san), (c_yon, c_yon), (c_go, c_go), (c_roku, c_roku), (c_nana, c_nana), (c_hachi, c_hachi), (c_kyuu, c_kyuu), (c_juu, c_juu)]))), RLit [0x5E74, c_hou, c_ritsu, c_dai], RGrp 3 (rplus (RCls False rng_kjd10000)), RLit [c_gou, h_ni, h_yo, h_ru, c_kai, c_sei, c_zen, h_no], RGrp 4 (rseq [RRep (RCls True rng_eol) 1 None False, RLit [c_jou]])])"

definition detectDeletedArticles :: "jsstr \<Rightarrow> Reference list" where
  "detectDeletedArticles text =
     map deleted_range (exec_all rangeDeletePattern text) @ map deleted_single (exec_all singleDeletePattern text) @
     map amended (exec_all amendmentPattern text)"

section \<open>Nested references\<close>

definition nested_item :: "rmatch \<Rightarrow> Reference" where
  "nested_item m =
     match_reference m (str ''nested_range'') None (Some ([c_dai] @ grp m 2 @ [c_gou] @ grp m 3 @ [h_ka, h_ra] @ grp m 4 @ [h_ma, h_de])) (85/100)
       (NestedLevel 3 (str ''katakana_items''))"

definition nested_excluding :: "rmatch \<Rightarrow> Reference" where
  "nested_excluding m =
     match_reference m (str ''special_structure'') None
       (Some (if truthy (cap m 2) then [c_dai] @ grp m 1 @ [c_jou, c_dai] @ grp m 2 @ [c_kou, c_kaku, c_gou, 0x5217, 0x8A18, 0x4EE5, 0x5916, h_no, 0x90E8, 0x5206]
              else [c_dai] @ grp m 1 @ [c_jou, c_kaku, c_gou, 0x5217, 0x8A18, 0x4EE5, 0x5916, h_no, 0x90E8, 0x5206])) (9/10) (StructureType (str ''excluding_listed_items''))"

definition nested_conditional :: "rmatch \<Rightarrow> Reference" where
  "nested_conditional m =
     match_reference m (str ''conditional'') None
       (Some (if truthy (cap m 2) then [c_dai] @ grp m 1 @ [c_jou, c_dai] @ grp m 2 @ [c_kou, c_dai] @ grp m 3 @ [c_gou]
              else [c_dai] @ grp m 1 @ [c_jou, c_dai] @ grp m 3 @ [c_gou])) (85/100)
       (Conditional ([c_dai] @ grp m 4 @ [c_gou, h_wo, 0x9664, h_ku]) (str ''exclusion''))"

definition nestedItemPattern :: regex where
  "nestedItemPattern =
     (rseq [ralt [RLit [c_dou], RLit [c_zen], RLit [c_ji]], RGrp 1 (RCls False [(c_jou, c_jou), (c_kou, c_kou)]), RLit [c_dai], RGrp 2 (rplus (RCls False (rng_digit @ [(c_ichi, c_ichi), (c_ni, c_ni), (c_san, c_san), (c_yon, c_yon), (c_go, c_go), (c_roku, c_roku), (c_nana, c_nana), (c_hachi, c_hachi), (c_kyuu, c_kyuu), (c_juu, c_juu)]))), RLit [c_gou], RGrp 3 (RCls False [(0x30A4, 0x30A4), (0x30ED, 0x30ED), (0x30CF, 0x30CF), (0x30CB, 0x30CB), (0x30DB, 0x30DB), (0x30D8, 0x30D8), (0x30C8, 0x30C8), (0x30C1, 0x30C1), (0x30EA, 0x30EA), (0x30CC, 0x30CC)]), RLit [h_ka, h_ra], RGrp 4 (RCls False [(0x30A4, 0x30A4), (0x30ED, 0x30ED), (0x30CF, 0x30CF), (0x30CB, 0x30CB), (0x30DB, 0x30DB), (0x30D8, 0x30D8), (0x30C8, 0x30C8), (0x30C1, 0x30C1), (0x30EA, 0x30EA), (0x30CC, 0x30CC)]), RLit [h_ma, h_de]])"

definition excludingPattern :: regex where
  "excludingPattern = (rseq [RLit [c_dai], RGrp 1 (rplus (RCls False rng_kjd10000)), RLit [c_jou], ropt (rseq [RLit [c_dai], RGrp 2 (rplus (RCls False (rng_digit @ [(c_ichi, c_ichi), (c_ni, c_ni), (c_san, c_san), (c_yon, c_yon), (c_go, c_go), (c_roku, c_roku), (c_nana, c_nana), (c_hachi, c_hachi), (c_kyuu, c_kyuu), (c_juu, c_juu)]))), RLit [c_kou]]), RLit [c_kaku, c_gou, 0x5217, 0x8A18, 0x4EE5, 0x5916, h_no, 0x90E8, 0x5206]])"

definition excludingNumberPattern :: regex where
  "excludingNumberPattern =
     (rseq [RLit [c_dai], RGrp 1 (rplus (RCls False rng_kjd10000)), RLit [c_jou], ropt (rseq [RLit [c_dai], RGrp 2 (rplus (RCls False (rng_digit @ [(c_ichi, c_ichi), (c_ni, c_ni), (c_san, c_san), (c_yon, c_yon), (c_go, c_go), (c_roku, c_roku), (c_nana, c_nana), (c_hachi, c_hachi), (c_kyuu, c_kyuu), (c_juu, c_juu)]))), RLit [c_kou]]), RLit [c_dai], RGrp 3 (rplus (RCls False (rng_digit @ [(c_ichi, c_ichi), (c_ni, c_ni), (c_san, c_san), (c_yon, c_yon), (c_go, c_go), (c_roku, c_roku), (c_nana, c_nana), (c_hachi, c_hachi), (c_kyuu, c_kyuu), (c_juu, c_juu)]))), RLit [c_gou, p_lparen, c_dai], RGrp 4 (rplus (RCls False (rng_digit @ [(c_ichi, c_ichi), (c_ni, c_ni), (c_san, c_san), (c_yon, c_yon), (c_go, c_go), (c_roku, c_roku), (c_nana, c_nana), (c_hachi, c_hachi), (c_kyuu, c_kyuu), (c_juu, c_juu)]))), RLit [c_gou, h_wo, 0x9664, h_ku], ropt (RLit [p_stop]), RLit [p_rparen]])"

definition detectNestedReferences :: "jsstr \<Rightarrow> Reference list" where
  "detectNestedReferences text =
     map nested_item (exec_all nestedItemPattern text) @ map nested_excluding (exec_all excludingPattern text) @
     map nested_conditional (exec_all excludingNumberPattern text)"

section \<open>Abbreviations\<close>

definition expanded_reference :: "Expansion \<Rightarrow> Reference" where
  "expanded_reference x =
     \<lparr>r_sourceText = ex_original x, r_type = (str ''external''), r_targetLaw = Some (ae_fullName (ex_entry x)),
      r_targetArticle = ex_article x, r_start = ex_start x, r_end = ex_end x, r_confidence = 95/100,
      r_metadata = ExpandedFrom (ae_abbreviation (ex_entry x)) (ae_lawNumber (ex_entry x)) (ae_category (ex_entry x))\<rparr>"

definition detectAbbreviatedReferences :: "AbbreviationDictionary \<Rightarrow> jsstr \<Rightarrow> jsstr list \<Rightarrow> (Reference list \<times> jsstr list) option" where
  "detectAbbreviatedReferences d text laws =
     map_option (\<lambda>expansions. (map expanded_reference expansions,
         foldl (\<lambda>ls x. set_add (ae_fullName (ex_entry x)) ls) laws expansions))
       (expandAbbreviations d text)"

section \<open>Standard references\<close>

definition preprocessParallelReferences :: "jsstr \<Rightarrow> jsstr" where
  "preprocessParallelReferences text =
     replace_all (rseq [RLit [c_dai], RGrp 1 (rplus (RCls False rng_kjd10000)), RLit [c_jou, p_comma, c_dai], RGrp 2 (rplus (RCls False rng_kjd10000)), RLit [c_jou], ralt [RLit [c_oyo, h_bi], RLit [c_nara, h_bi, h_ni]], RLit [c_dai], RGrp 3 (rplus (RCls False rng_kjd10000)), RLit [c_jou]])
       (\<lambda>m. [c_dai] @ grp m 1 @ [c_jou, p_comma, c_dai] @ grp m 2 @ [c_jou, p_comma, c_dai] @ grp m 3 @ [c_jou])
       (replace_all (rseq [RGrp 1 (rseq [rplus (RCls True (rng_ws @ [(p_comma, p_comma), (p_stop, p_stop)])), RLit [0x65BD, 0x884C, c_rei_order]]), RGrp 2 (rseq [RLit [c_dai], rplus (RCls False rng_kjd10000), RLit [c_jou]]), ralt [RLit [c_oyo, h_bi], RLit [c_nara, h_bi, h_ni]], RGrp 3 (rseq [rplus (RCls True (rng_ws @ [(p_comma, p_comma), (p_stop, p_stop)])), RLit [0x65BD, 0x884C, c_rei_order]]), RGrp 4 (rseq [RLit [c_dai], rplus (RCls False rng_kjd10000), RLit [c_jou]])])
         (\<lambda>m. grp m 1 @ grp m 2 @ [p_comma] @ grp m 3 @ grp m 4) text)"

definition isIgnoredLawName :: "jsstr \<Rightarrow> bool" where
  "isIgnoredLawName lawName =
     list_ex (\<lambda>p. rx_test p lawName)
       [(rseq [RBol, RLit [h_ko, h_no]]), (rseq [RBol, RLit [c_tou, c_gai]]), (rseq [RBol, RLit [c_dou]]), (rseq [RBol, RLit [c_zen, 0x8A18]]), (rseq [RBol, RLit [c_go_after, 0x8A18]]), (rseq [RBol, RLit [0x4E0A, 0x8A18]]), (rseq [RBol, RLit [0x4E0B, 0x8A18]]), (rseq [RBol, RLit [c_betsu, 0x8A18]]), (rseq [RBol, RLit [c_ji, h_no]])]"

definition extractLawFromApplication :: "jsstr \<Rightarrow> jsstr option" where
  "extractLawFromApplication text =
     (let article = (case rx_match (rseq [RLit [c_dai], RGrp 1 (rplus (RCls False rng_kjd10000)), RLit [c_jou]]) text of
            None \<Rightarrow> None | Some m \<Rightarrow> Some ([c_dai] @ grp m 1 @ [c_jou]))
      in case rx_match (RGrp 1 (rseq [RRep (RCls True (rng_ws @ [(p_comma, p_comma), (p_stop, p_stop)])) 1 None False, ralt [rseq [RLit [c_hou], ropt (RLit [c_ritsu])], RLit [0x65BD, 0x884C, c_rei_order], RLit [0x65BD, 0x884C, c_ki, c_soku], RLit [0x653F, c_rei_order], RLit [0x7701, c_rei_order], RLit [c_ki, c_soku], RLit [c_jou, 0x4F8B]]])) text of
           None \<Rightarrow> article
         | Some m \<Rightarrow> if isIgnoredLawName (grp m 1) then article else cap m 1)"

definition internalPattern :: regex where
  "internalPattern =
     (rseq [RLit [c_dai], RGrp 1 (rplus (RCls False rng_kjd10000)), RLit [c_jou], ropt (rseq [RLit [h_no], RGrp 2 (rplus (RCls False (rng_digit @ [(c_ichi, c_ichi), (c_ni, c_ni), (c_san, c_san), (c_yon, c_yon), (c_go, c_go), (c_roku, c_roku), (c_nana, c_nana), (c_hachi, c_hachi), (c_kyuu, c_kyuu), (c_juu, c_juu)])))]), ropt (rseq [RLit [c_dai], RGrp 3 (rplus (RCls False (rng_digit @ [(c_ichi, c_ichi), (c_ni, c_ni), (c_san, c_san), (c_yon, c_yon), (c_go, c_go), (c_roku, c_roku), (c_nana, c_nana), (c_hachi, c_hachi), (c_kyuu, c_kyuu), (c_juu, c_juu)]))), RLit [c_kou]]), ropt (rseq [RLit [c_dai], RGrp 4 (rplus (RCls False (rng_digit @ [(c_ichi, c_ichi), (c_ni, c_ni), (c_san, c_san), (c_yon, c_yon), (c_go, c_go), (c_roku, c_roku), (c_nana, c_nana), (c_hachi, c_hachi), (c_kyuu, c_kyuu), (c_juu, c_juu)]))), RLit [c_gou]])])"

definition externalPattern :: regex where
  "externalPattern =
     (rseq [RGrp 1 (rseq [RRep (RCls True (rng_ws @ [(p_comma, p_comma), (p_stop, p_stop)])) 1 None False, ralt [rseq [RLit [c_hou], ropt (RLit [c_ritsu])], RLit [0x65BD, 0x884C, c_rei_order], RLit [0x65BD, 0x884C, c_ki, c_soku], RLit [0x653F, c_rei_order], RLit [0x7701, c_rei_order], RLit [c_ki, c_soku], RLit [c_jou, 0x4F8B], RLit [0x544A, 0x793A], RLit [0x901A, 0x9054], RLit [0x8A13, c_rei_order]]]), ropt (rseq [RLit [c_dai], RGrp 2 (rplus (RCls False rng_kjd10000)), RLit [c_jou]])])"

definition rangePattern :: regex where
  "rangePattern = (rseq [RLit [c_dai], RGrp 1 (rplus (RCls False rng_kjd10000)), RLit [c_jou, h_ka, h_ra, c_dai], RGrp 2 (rplus (RCls False rng_kjd10000)), RLit [c_jou, h_ma, h_de]])"

definition multiplePattern :: regex where
  "multiplePattern =
     (rseq [RLit [c_dai], RGrp 1 (rplus (RCls False rng_kjd10000)), RLit [c_jou], rstar (rseq [RLit [p_comma, c_dai], RGrp 2 (rplus (RCls False rng_kjd10000)), RLit [c_jou]]), ralt [RLit [c_oyo, h_bi], RLit [c_nara, h_bi, h_ni]], RLit [c_dai], RGrp 3 (rplus (RCls False rng_kjd10000)), RLit [c_jou]])"

definition applicationPattern :: regex where
  "applicationPattern = (rseq [RGrp 1 (RRep (RCls True rng_eol) 1 None False), ropt (RLit [h_no, c_ki, c_tei]), ralt [RLit [h_wo], RLit [h_ha]], ralt [RLit [c_jun, c_you], RLit [0x9069, c_you]], ropt (ralt [RLit [h_su, h_ru], RLit [h_sa, h_re, h_ru]])])"

definition internal_reference :: "rmatch \<Rightarrow> Reference" where
  "internal_reference m =
     match_reference m (str ''internal'') None
       (Some ([c_dai] @ grp m 1 @ [c_jou] @ (if truthy (cap m 2) then [h_no] @ grp m 2 else []) @
         (if truthy (cap m 3) then [c_dai] @ grp m 3 @ [c_kou] else []) @
         (if truthy (cap m 4) then [c_dai] @ grp m 4 @ [c_gou] else []))) (9/10) NoMetadata"

definition external_reference :: "rmatch \<Rightarrow> Reference" where
  "external_reference m =
     match_reference m (str ''external'') (cap m 1) (if truthy (cap m 2) then Some ([c_dai] @ grp m 2 @ [c_jou]) else None)
       (85/100) NoMetadata"

definition range_reference :: "rmatch \<Rightarrow> Reference" where
  "range_reference m =
     match_reference m (str ''range'') None (Some ([c_dai] @ grp m 1 @ [c_jou, h_ka, h_ra, c_dai] @ grp m 2 @ [c_jou, h_ma, h_de])) (9/10) NoMetadata"

definition multiple_references :: "rmatch \<Rightarrow> Reference list" where
  "multiple_references m =
     (let articles = [grp m 1] @ (if truthy (cap m 2) then [grp m 2] else []) @ [grp m 3]
      in map (\<lambda>article. let t = [c_dai] @ article @ [c_jou] in
           \<lparr>r_sourceText = t, r_type = (str ''multiple''), r_targetLaw = None, r_targetArticle = Some t,
            r_start = m_index m, r_end = m_index m + length t, r_confidence = 85/100, r_metadata = NoMetadata\<rparr>) articles)"

definition application_references :: "rmatch \<Rightarrow> Reference list" where
  "application_references m =
     (if 2 < length (grp m 1)
      then [match_reference m (str ''application'') (extractLawFromApplication (grp m 1)) None (8/10) NoMetadata] else [])"

definition named_laws :: "jsstr \<Rightarrow> rmatch list" where
  "named_laws processedText = filter (\<lambda>m. \<not> isIgnoredLawName (grp m 1)) (exec_all externalPattern processedText)"

definition detectStandardReferences :: "jsstr \<Rightarrow> jsstr list \<Rightarrow> Reference list \<times> jsstr list" where
  "detectStandardReferences text laws =
     (let processedText = preprocessParallelReferences text
      in (map internal_reference (exec_all internalPattern processedText) @
          map external_reference (named_laws processedText) @
          map range_reference (exec_all rangePattern processedText) @
          concat (map multiple_references (exec_all multiplePattern processedText)) @
          concat (map application_references (exec_all applicationPattern processedText)),
          foldl (\<lambda>ls m. set_add (grp m 1) ls) laws (named_laws processedText)))"

section \<open>References that depend on the context\<close>

definition resolveRelativeArticle :: "DetectionContext \<Rightarrow> int \<Rightarrow> jsstr \<Rightarrow> jsstr option" where
  "resolveRelativeArticle ctx offset type =
     (if \<not> truthy (dc_currentArticle ctx) then None
      else case rx_match (rseq [RLit [c_dai], RGrp 1 (rplus (RCls False rng_kjd10000)), RLit [c_jou]]) (the (dc_currentArticle ctx)) of
        None \<Rightarrow> None
      | Some currentMatch \<Rightarrow>
          (let currentNum = kanjiToNumber (grp currentMatch 1)
           in if type = (str ''same_article'') \<or> type = (str ''this_article'') then dc_currentArticle ctx
              else if type = (str ''same_paragraph'') then dc_currentArticle ctx
              else if str_includes type (str ''previous'') \<or> str_includes type (str ''next'') then
                (let targetNum = currentNum + offset
                 in if 0 < targetNum then
                      (if type = (str ''previous_three'') \<or> type = (str ''previous_two'')
                       then Some ([c_dai] @ numberToKanji targetNum @ [c_jou, h_ka, h_ra, c_dai] @ numberToKanji (currentNum - 1) @ [c_jou, h_ma, h_de])
                       else Some ([c_dai] @ numberToKanji targetNum @ [c_jou]))
                    else None)
              else None))"

definition relativePatterns :: "(regex \<times> int \<times> jsstr) list" where
  "relativePatterns =
     [((RLit [c_zen, c_jou]), -1, (str ''previous'')), ((RLit [c_ji, c_jou]), 1, (str ''next'')), ((RLit [c_zen, c_kou]), -1, (str ''previous_paragraph'')),
      ((RLit [c_ji, c_kou]), 1, (str ''next_paragraph'')), ((RLit [c_dou, c_jou]), 0, (str ''same_article'')), ((RLit [c_dou, c_kou]), 0, (str ''same_paragraph'')),
      ((RLit [c_hon, c_jou]), 0, (str ''this_article'')), ((RLit [c_zen, c_san, c_jou]), -3, (str ''previous_three'')), ((RLit [c_zen, c_ni, c_jou]), -2, (str ''previous_two''))]"

definition relative_references :: "DetectionContext \<Rightarrow> jsstr \<Rightarrow> regex \<times> int \<times> jsstr \<Rightarrow> Reference list" where
  "relative_references ctx text p =
     (case p of (pattern, offset, type) \<Rightarrow>
        concat (map (\<lambda>m.
          let resolvedArticle = resolveRelativeArticle ctx offset type
          in if truthy resolvedArticle
             then [match_reference m (str ''relative'') None resolvedArticle (7/10) (RelativeType type (dc_currentArticle ctx))]
             else []) (exec_all pattern text)))"

definition resolveContextualReferences :: "DetectionContext \<Rightarrow> jsstr \<Rightarrow> Reference list" where
  "resolveContextualReferences ctx text = concat (map (relative_references ctx text) relativePatterns)"

definition inferLawsFromContext :: "jsstr list \<Rightarrow> jsstr \<Rightarrow> jsstr list" where
  "inferLawsFromContext detectedLaws type =
     take 3
       ((if type = (str ''related_laws'') \<or> type = (str ''other_laws'')
         then concat (map (\<lambda>law. if str_includes law [c_hou]
           then (let baseName = replace_first (rseq [RLit [c_hou], REol]) (\<lambda>_. []) law in [baseName @ [c_hou, 0x65BD, 0x884C, c_rei_order], baseName @ [c_hou, 0x65BD, 0x884C, c_ki, c_soku]])
           else []) detectedLaws) else []) @
        (if type = (str ''competent_authority'') \<or> type = (str ''supervising_authority'')
         then [[0x539A, 0x751F, 0x52B4, 0x50CD, 0x7701, c_rei_order], [0x7D4C, 0x6E08, 0x7523, 0x696D, 0x7701, c_rei_order], [0x56FD, 0x571F, 0x4EA4, 0x901A, 0x7701, c_rei_order]] else []))"

definition indirectPatterns :: "(regex \<times> jsstr \<times> rat) list" where
  "indirectPatterns =
     [((rseq [RLit [0x95A2, 0x4FC2, c_hou, c_rei_order], ropt (RLit [h_no, c_tei, h_me])]), (str ''related_laws''), 6/10),
      ((rseq [RLit [c_betsu, h_ni], ropt (ralt [RLit [c_hou, c_ritsu], RLit [0x653F, c_rei_order], RLit [0x7701, c_rei_order], RLit [c_ki, c_soku]]), ralt [RLit [h_de], RLit [h_ni, h_yo, h_ri]], RLit [c_tei, h_me, h_ru]]), (str ''separately_defined''), 6/10),
      ((rseq [RLit [0x4ED6, h_no, c_hou, c_ritsu], ropt (RLit [h_ni, 0x7279, c_betsu, h_no, c_tei, h_me, 0x304C, h_a, h_ru])]), (str ''other_laws''), 5/10),
      ((rseq [RLit [0x7279, c_betsu], ropt (RLit [h_no]), ralt [RLit [c_hou, c_ritsu], RLit [c_ki, c_tei], RLit [c_tei, h_me]]]), (str ''special_provisions''), 5/10),
      ((rseq [RLit [c_hou, c_rei_order], ropt (RLit [h_no, c_ki, c_tei]), ralt [RLit [h_ni, h_yo, h_ri], rseq [RLit [h_ni, 0x57FA, 0x3065], RCls False [(h_ki, h_ki), (h_ku, h_ku)]]]]), (str ''legal_provisions''), 5/10),
      ((rseq [RLit [0x4E3B, 0x52D9], ralt [RLit [0x5927, 0x81E3], RLit [0x7701, c_rei_order]]]), (str ''competent_authority''), 7/10),
      ((rseq [RLit [0x6240, 0x7BA1], ralt [RLit [0x5B98, 0x5E81], RLit [0x5927, 0x81E3], RLit [0x7701, c_rei_order]]]), (str ''supervising_authority''), 7/10)]"

definition indirect_reference :: "jsstr list \<Rightarrow> jsstr \<Rightarrow> rat \<Rightarrow> rmatch \<Rightarrow> Reference" where
  "indirect_reference laws type confidence m =
     (let inferredLaws = inferLawsFromContext laws type
      in match_reference m (str ''indirect'') (case inferredLaws of [] \<Rightarrow> None | law # _ \<Rightarrow> Some law) None confidence
           (IndirectType type inferredLaws))"

definition detectEnhancedIndirectReferences :: "jsstr list \<Rightarrow> jsstr \<Rightarrow> Reference list" where
  "detectEnhancedIndirectReferences laws text =
     concat (map (\<lambda>(pattern, type, confidence). map (indirect_reference laws type confidence) (exec_all pattern text))
       indirectPatterns)"

section \<open>The method\<close>

definition reference_key :: "Reference \<Rightarrow> jsstr" where
  "reference_key r = r_sourceText r @ (str ''_'') @ nat_str (r_start r) @ (str ''_'') @
     (case r_targetLaw r of None \<Rightarrow> [] | Some l \<Rightarrow> l) @ (str ''_'') @ (case r_targetArticle r of None \<Rightarrow> [] | Some a \<Rightarrow> a)"

definition deduplicateAndSort :: "Reference list \<Rightarrow> Reference list" where
  "deduplicateAndSort refs = sort_key r_start (first_by reference_key [] refs)"

definition update_context :: "jsstr option \<Rightarrow> DetectionContext \<Rightarrow> DetectionContext" where
  "update_context currentArticle ctx =
     (if truthy currentArticle
      then ctx\<lparr>dc_currentArticle := currentArticle,
               dc_previousArticles := push_bounded 10 (the currentArticle) (dc_previousArticles ctx)\<rparr>
      else ctx)"

text \<open>The six steps, from the updated context: the references before duplicates are removed, and the context
  with the laws found on the way.\<close>

definition collect_references :: "AbbreviationDictionary \<Rightarrow> jsstr \<Rightarrow> DetectionContext \<Rightarrow> (Reference list \<times> DetectionContext) option" where
  "collect_references d text ctx =
     (case detectAbbreviatedReferences d text (dc_detectedLaws ctx) of
        None \<Rightarrow> None
      | Some (expandedReferences, laws1) \<Rightarrow>
          (case detectStandardReferences text laws1 of (standardRefs, laws2) \<Rightarrow>
             (let ctx2 = ctx\<lparr>dc_detectedLaws := laws2\<rparr>
              in Some (detectDeletedArticles text @ expandedReferences @ standardRefs @
                   resolveContextualReferences ctx2 text @ detectEnhancedIndirectReferences laws2 text @
                   detectNestedReferences text, ctx2))))"

definition detectReferences :: "env \<Rightarrow> AbbreviationDictionary \<Rightarrow> int \<Rightarrow> int \<Rightarrow> jsstr \<Rightarrow> jsstr option \<Rightarrow> EnhancedReferenceDetectorV41 \<Rightarrow>
    (Reference list \<times> EnhancedReferenceDetectorV41) option" where
  "detectReferences e d now now' text currentArticle v =
     (case get e now text currentArticle (dv_cache v) of
        (Some cached, c) \<Rightarrow> Some (cached, v\<lparr>dv_cache := c\<rparr>)
      | (None, c) \<Rightarrow>
          (case collect_references d text (update_context currentArticle (dv_context v)) of
             None \<Rightarrow> None
           | Some (refs, ctx) \<Rightarrow>
               (let result = deduplicateAndSort refs
                in Some (result, \<lparr>dv_context = ctx, dv_cache = set_refs e now' text result currentArticle c\<rparr>))))"

definition resetContext :: "EnhancedReferenceDetectorV41 \<Rightarrow> EnhancedReferenceDetectorV41" where
  "resetContext v = v\<lparr>dv_context := empty_context\<rparr>"

definition getCacheStatistics :: "EnhancedReferenceDetectorV41 \<Rightarrow> CacheStatistics" where
  "getCacheStatistics v = ReferenceCache.getStatistics (dv_cache v)"

definition clearCache :: "EnhancedReferenceDetectorV41 \<Rightarrow> EnhancedReferenceDetectorV41" where
  "clearCache v = v\<lparr>dv_cache := clear (dv_cache v)\<rparr>"

definition getVersion :: "EnhancedReferenceDetectorV41 \<Rightarrow> jsstr" where
  "getVersion v = VERSION"

record DetectorStatistics =
  ds_detectedLaws :: nat
  ds_contextArticles :: nat
  ds_dictionarySize :: nat
  ds_cacheStatistics :: CacheStatistics

definition getStatistics :: "AbbreviationDictionary \<Rightarrow> EnhancedReferenceDetectorV41 \<Rightarrow> DetectorStatistics" where
  "getStatistics d v =
     \<lparr>ds_detectedLaws = length (dc_detectedLaws (dv_context v)),
      ds_contextArticles = length (dc_previousArticles (dv_context v)),
      ds_dictionarySize = ds_totalEntries (Abbreviations.getStatistics d),
      ds_cacheStatistics = ReferenceCache.getStatistics (dv_cache v)\<rparr>"

text \<open>The calls that change a detector, as data.\<close>

datatype call =
    Detect int int jsstr "jsstr option"
  | ResetContext
  | ClearCache

fun apply_call :: "env \<Rightarrow> AbbreviationDictionary \<Rightarrow> EnhancedReferenceDetectorV41 \<Rightarrow> call \<Rightarrow> EnhancedReferenceDetectorV41" where
  "apply_call e d v (Detect now now' text currentArticle) =
     (case detectReferences e d now now' text currentArticle v of None \<Rightarrow> v | Some (_, v') \<Rightarrow> v')"
| "apply_call e d v ResetContext = resetContext v"
| "apply_call e d v ClearCache = clearCache v"

section \<open>What the searches return\<close>

lemma caching_patterns_consume:
  "0 < min_len rangeDeletePattern" "0 < min_len singleDeletePattern" "0 < min_len amendmentPattern"
  "0 < min_len nestedItemPattern" "0 < min_len excludingPattern" "0 < min_len excludingNumberPattern"
  "0 < min_len internalPattern" "0 < min_len externalPattern" "0 < min_len rangePattern"
  "0 < min_len multiplePattern" "0 < min_len applicationPattern"
  "list_all (\<lambda>(r, x). 0 < min_len r) relativePatterns" "list_all (\<lambda>(r, x). 0 < min_len r) indirectPatterns"
  by code_simp+

text \<open>A reference that stands in the text at its position.\<close>

definition stands_in :: "jsstr \<Rightarrow> Reference \<Rightarrow> bool" where
  "stands_in s r \<longleftrightarrow> occurs_at s (r_start r) (r_sourceText r) \<and> r_end r = r_start r + length (r_sourceText r)"

lemma match_stands:
  "m \<in> set (exec_all g s) \<Longrightarrow> 0 < min_len g \<Longrightarrow> stands_in s (match_reference m type law article conf meta)"
  by (simp add: stands_in_def match_reference_def exec_all_occurs m_end_def)

lemmas made_defs = deleted_range_def deleted_single_def amended_def nested_item_def nested_excluding_def
  nested_conditional_def internal_reference_def external_reference_def range_reference_def
  application_references_def indirect_reference_def

lemma direct_stand:
  assumes "r \<in> set (detectDeletedArticles s) \<union> set (detectNestedReferences s) \<union>
    set (resolveContextualReferences ctx s) \<union> set (detectEnhancedIndirectReferences laws s)"
  shows "stands_in s r"
proof -
  have "\<exists>g m type law article conf meta. m \<in> set (exec_all g s) \<and> 0 < min_len g \<and>
      r = match_reference m type law article conf meta"
    using assms caching_patterns_consume
    by (fastforce simp: detectDeletedArticles_def detectNestedReferences_def resolveContextualReferences_def
        detectEnhancedIndirectReferences_def relative_references_def made_defs Let_def list_all_iff split: if_splits)
  then show ?thesis using match_stands by blast
qed

lemma standard_stand:
  assumes "r \<in> set (fst (detectStandardReferences s laws))" "exec_all multiplePattern (preprocessParallelReferences s) = []"
  shows "stands_in (preprocessParallelReferences s) r"
proof -
  have "\<exists>g m type law article conf meta. m \<in> set (exec_all g (preprocessParallelReferences s)) \<and> 0 < min_len g \<and>
      r = match_reference m type law article conf meta"
    using assms caching_patterns_consume
    by (fastforce simp: detectStandardReferences_def named_laws_def made_defs Let_def split: if_splits)
  then show ?thesis using match_stands by blast
qed

lemma preprocess_plain:
  assumes "\<not> str_includes s [c_oyo, h_bi]" "\<not> str_includes s [c_nara, h_bi, h_ni]"
  shows "preprocessParallelReferences s = s" "exec_all multiplePattern s = []"
proof -
  have plain: "exec_all g s = []" if "needs [[c_oyo, h_bi], [c_nara, h_bi, h_ni]] g" for g
    using that by (rule exec_all_needs) (use assms in simp)
  have keep: "replace_all g f s = s" if "needs [[c_oyo, h_bi], [c_nara, h_bi, h_ni]] g" for g f
    using plain [OF that] by (simp add: replace_all_def)
  show "exec_all multiplePattern s = []" by (rule plain) code_simp
  show "preprocessParallelReferences s = s"
    unfolding preprocessParallelReferences_def by (subst keep, code_simp, subst keep, code_simp, rule refl)
qed

lemma abbreviated_stand:
  assumes "dictionary_ok d"
  shows "\<exists>rs laws'. detectAbbreviatedReferences d s laws = Some (rs, laws') \<and> list_all (stands_in s) rs"
proof -
  have "stands_in s (expanded_reference x)" if x: "x \<in> set (found d s)" for x
  proof -
    from x obtain p e m where p: "lookup d p = Some e" "m \<in> set (exec_all (name_regex p) s)" "x = expansion e m"
      by (auto simp: found_member [OF assms])
    then have "p \<noteq> []" using known_named [OF assms] by blast
    then have "occurs_at s (m_index m) (m_text m)" using p(2) by (intro exec_all_occurs) simp_all
    with p(3) show ?thesis by (simp add: stands_in_def expanded_reference_def expansion_def m_end_def)
  qed
  then show ?thesis
    by (auto simp: detectAbbreviatedReferences_def expand_returns [OF assms] list_all_iff dest: first_by_sub)
qed

lemma collect_returns: "dictionary_ok d \<Longrightarrow> \<exists>refs ctx'. collect_references d s ctx = Some (refs, ctx')"
  using abbreviated_stand [of d s "dc_detectedLaws ctx"]
  by (auto simp: collect_references_def Let_def split: prod.splits)

lemma collect_stand:
  assumes "dictionary_ok d" "\<not> str_includes s [c_oyo, h_bi]" "\<not> str_includes s [c_nara, h_bi, h_ni]" "collect_references d s ctx = Some (refs, ctx')"
  shows "list_all (stands_in s) refs"
proof -
  obtain rs laws1 where a: "detectAbbreviatedReferences d s (dc_detectedLaws ctx) = Some (rs, laws1)" "list_all (stands_in s) rs"
    using abbreviated_stand [OF assms(1)] by blast
  obtain std laws2 where st: "detectStandardReferences s laws1 = (std, laws2)" by force
  have "stands_in s r" if "r \<in> set std" for r
    using standard_stand [of r s laws1] that st preprocess_plain [OF assms(2,3)] by simp
  with a assms(4) st show ?thesis
    by (auto simp: collect_references_def list_all_iff Let_def intro: direct_stand)
qed

section \<open>The invariant\<close>

text \<open>A result list: ordered by position, no key twice.\<close>

definition listed :: "Reference list \<Rightarrow> bool" where
  "listed rs \<longleftrightarrow> sorted (map r_start rs) \<and> distinct (map reference_key rs)"

lemma dedup_listed: "listed (deduplicateAndSort rs)"
proof -
  have "distinct (map reference_key (first_by reference_key [] rs))" using first_by_keys [of reference_key "[]" rs] by simp
  then show ?thesis unfolding listed_def deduplicateAndSort_def by (metis distinct_map distinct_sort set_sort sorted_sort_key)
qed

definition context_ok :: "DetectionContext \<Rightarrow> bool" where
  "context_ok ctx \<longleftrightarrow> length (dc_previousArticles ctx) \<le> 10 \<and> distinct (dc_detectedLaws ctx) \<and>
     dc_currentArticle ctx = (if dc_previousArticles ctx = [] then None else Some (last (dc_previousArticles ctx)))"

text \<open>All cached results have a property.\<close>

definition results_all :: "('r list \<Rightarrow> bool) \<Rightarrow> 'r ReferenceCache \<Rightarrow> bool" where
  "results_all P c \<longleftrightarrow> (\<forall>k en. map_of (cache c) k = Some en \<longrightarrow> P (references en))"

lemma get_keeps:
  assumes "get e now t x c = (r, c')"
  shows "ttl c' = ttl c" "maxSize c' = maxSize c" "detectorVersion c' = detectorVersion c"
    "results_all P c \<Longrightarrow> results_all P c' \<and> (\<forall>rs. r = Some rs \<longrightarrow> P rs)"
  using assms
  by (auto simp: get_def Let_def order_defs results_all_def update_conv' delete_conv' split: option.splits if_splits)

lemma set_keeps:
  shows "maxSize (set_refs e now t rs x c) = maxSize c"
    "results_all P c \<Longrightarrow> P rs \<Longrightarrow> results_all P (set_refs e now t rs x c)"
  by (auto simp: set_refs_def Let_def order_defs evictLRU_def results_all_def update_conv' delete_conv' split: list.splits if_splits)

definition detector_ok :: "EnhancedReferenceDetectorV41 \<Rightarrow> bool" where
  "detector_ok v \<longleftrightarrow> context_ok (dv_context v) \<and> cache_ok (dv_cache v) \<and> ttl (dv_cache v) = 3600000 \<and>
     maxSize (dv_cache v) = 5000 \<and> detectorVersion (dv_cache v) = VERSION \<and>
     results_all listed (dv_cache v)"

lemma update_context_ok: "context_ok ctx \<Longrightarrow> context_ok (update_context a ctx)"
  by (auto simp: context_ok_def update_context_def push_bounded_def Let_def truthy_def tl_append split: list.splits)

lemma set_add_distinct: "distinct xs \<Longrightarrow> distinct (foldl (\<lambda>ls y. set_add (f y) ls) xs ys)"
  by (induction ys arbitrary: xs) (simp_all add: set_add_def)

lemma collect_context_ok:
  assumes "context_ok ctx" "collect_references d s ctx = Some (refs, ctx')"
  shows "context_ok ctx'"
  using assms
  by (auto simp: collect_references_def detectAbbreviatedReferences_def detectStandardReferences_def context_ok_def Let_def
      intro!: set_add_distinct split: option.splits)

lemma detect_step:
  assumes "dictionary_ok d" "detector_ok v"
  obtains rs v' where "detectReferences e d now now' s a v = Some (rs, v')" "listed rs" "detector_ok v'"
proof -
  obtain r c where g: "get e now s a (dv_cache v) = (r, c)" by force
  have c: "cache_ok c" using get_ok [of "dv_cache v" e now s a] assms(2) g by (simp add: detector_ok_def)
  note keep = get_keeps(1-3) [OF g] get_keeps(4) [OF g, of listed]
  show thesis
  proof (cases r)
    case (Some rs)
    then show thesis using that [of rs "v\<lparr>dv_cache := c\<rparr>"] g c keep assms(2) by (simp add: detectReferences_def detector_ok_def)
  next
    case None
    obtain refs ctx where col: "collect_references d s (update_context a (dv_context v)) = Some (refs, ctx)"
      using collect_returns [OF assms(1)] by blast
    let ?c = "set_refs e now' s (deduplicateAndSort refs) a c"
    have "context_ok ctx" using col assms(2) by (auto simp: detector_ok_def intro: collect_context_ok update_context_ok)
    moreover have "cache_ok ?c" using c by (rule set_refs_ok)
    moreover have "results_all listed ?c" using keep(4) assms(2)
      by (auto simp: detector_ok_def intro!: set_keeps(2) dedup_listed)
    ultimately show thesis
      using that [of "deduplicateAndSort refs" "\<lparr>dv_context = ctx, dv_cache = ?c\<rparr>"] None g col keep assms(2)
        stored_entry [OF c refl, of e now' s "deduplicateAndSort refs" a]
      by (simp add: detectReferences_def detector_ok_def Let_def set_keeps(1) dedup_listed)
  qed
qed

lemma apply_call_ok: "dictionary_ok d \<Longrightarrow> detector_ok v \<Longrightarrow> detector_ok (apply_call e d v k)"
proof (cases k)
  case (Detect now now' s a)
  assume "dictionary_ok d" "detector_ok v"
  then obtain rs v' where "detectReferences e d now now' s a v = Some (rs, v')" "detector_ok v'" by (rule detect_step)
  with Detect show ?thesis by simp
next
  case ResetContext
  assume "detector_ok v"
  with ResetContext show ?thesis by (simp add: detector_ok_def resetContext_def context_ok_def empty_context_def)
next
  case ClearCache
  assume "detector_ok v"
  then have "cache_ok (clear (dv_cache v))" by (auto simp: detector_ok_def intro: clear_ok)
  with ClearCache \<open>detector_ok v\<close> show ?thesis by (simp add: detector_ok_def clearCache_def results_all_def) (simp add: clear_def)
qed

lemma new_caching_ok: "detector_ok new_detector"
proof -
  have "cache_ok (dv_cache new_detector)" by (simp add: new_detector_def new_cache_ok)
  then show ?thesis
    by (simp add: detector_ok_def results_all_def new_detector_def context_ok_def empty_context_def new_cache_def or_default_def or_str_def VERSION_def)
qed

interpretation detecting: invariant_machine "apply_call e d" "\<lambda>v. dictionary_ok d \<longrightarrow> detector_ok v" "\<lambda>_. True" for e d
  by unfold_locales (auto intro: apply_call_ok)

lemma run_detector_ok: "dictionary_ok d \<Longrightarrow> detector_ok (foldl (apply_call e d) new_detector calls)"
  using detecting.run_inv [of d new_detector calls e] new_caching_ok by (simp add: list_all_iff)

section \<open>Numerals and relative articles\<close>

lemma digits_test: "rx_test (rseq [RBol, rplus (RCls False rng_digit), REol]) s \<longleftrightarrow> s \<noteq> [] \<and> list_all is_digit s"
proof -
  have "in_cls False rng_digit = is_digit" by (auto simp: in_cls_def is_digit_def)
  then show ?thesis using rx_cls_eol [of "length s" False rng_digit s "[]"] by (simp add: rx_test_anchored del: rx.simps)
qed

lemma number_roundtrip: "0 \<le> n \<Longrightarrow> kanjiToNumber (numberToKanji n) = n"
proof (cases "n < 100")
  case True
  have "list_all (\<lambda>n. kanjiToNumber (numberToKanji n) = n) [0..99]" by code_simp
  moreover assume "0 \<le> n"
  ultimately show ?thesis using True by (simp add: list_all_iff)
next
  case False
  then show ?thesis
    by (simp add: kanjiToNumber_def numberToKanji_def digits_test [unfolded rseq.simps] list_all_iff nat_str_digits)
qed

lemma number_chars: "0 \<le> n \<Longrightarrow> numberToKanji n \<noteq> [] \<and> (\<forall>c \<in> set (numberToKanji n). n = 0 \<or> in_cls False rng_kjd10000 c)"
proof (cases "n < 100")
  case True
  have "list_all (\<lambda>n. numberToKanji n \<noteq> [] \<and> list_all (\<lambda>c. n = 0 \<or> in_cls False rng_kjd10000 c) (numberToKanji n)) [0..99]"
    by code_simp
  moreover assume "0 \<le> n"
  ultimately show ?thesis using True by (simp add: list_all_iff)
next
  case False
  then show ?thesis using nat_str_digits [of _ "nat n"] by (auto simp: numberToKanji_def in_cls_def is_digit_def)
qed

definition article_of :: "int \<Rightarrow> jsstr" where
  "article_of n = [c_dai] @ numberToKanji n @ [c_jou]"

lemma article_match:
  assumes "1 \<le> n"
  shows "\<exists>m. rx_match (rseq [RLit [c_dai], RGrp 1 (rplus (RCls False rng_kjd10000)), RLit [c_jou]]) (article_of n) = Some m \<and> cap m 1 = Some (numberToKanji n)"
proof -
  have "\<forall>c \<in> set (numberToKanji n). in_cls False rng_kjd10000 c" "numberToKanji n \<noteq> []"
    using number_chars [of n] assms by auto
  from match_framed_run [OF this, of "[c_jou]" "[c_dai]" 1 "[]"] show ?thesis by (simp add: article_of_def in_cls_def cap_def)
qed

lemma resolve_at:
  assumes "1 \<le> n" "dc_currentArticle ctx = Some (article_of n)"
  shows "resolveRelativeArticle ctx k type =
    (if type = (str ''same_article'') \<or> type = (str ''this_article'') \<or> type = (str ''same_paragraph'') then Some (article_of n)
     else if (str_includes type (str ''previous'') \<or> str_includes type (str ''next'')) \<and> 0 < n + k then
       Some (if type = (str ''previous_three'') \<or> type = (str ''previous_two'') then [c_dai] @ numberToKanji (n + k) @ [c_jou, h_ka, h_ra] @ article_of (n - 1) @ [h_ma, h_de]
             else article_of (n + k))
     else None)"
proof -
  obtain m where m: "rx_match (rseq [RLit [c_dai], RGrp 1 (rplus (RCls False rng_kjd10000)), RLit [c_jou]]) (article_of n) = Some m" "cap m 1 = Some (numberToKanji n)"
    using article_match [OF assms(1)] by blast
  then have "kanjiToNumber (grp m 1) = n" using number_roundtrip [of n] assms(1) by (simp add: grp_def)
  moreover have "truthy (Some (article_of n))" by (simp add: truthy_def article_of_def)
  ultimately show ?thesis using m(1) assms(2)
    by (auto simp: resolveRelativeArticle_def Let_def article_of_def simp del: rseq.simps str_simps)
qed

section \<open>Properties\<close>

text \<open>C7: with a dictionary without empty names, after any sequence of calls, at any times, every call
  returns; its result, computed or cached, is ordered by position and has no key twice. At most ten
  articles are remembered, the current article is the last of them, no law is recorded twice, and the
  cache keeps its own invariant, its capacity and its lifetime.\<close>

theorem caching_run_ok:
  assumes "dictionary_ok d"
  shows "let v = foldl (apply_call e d) new_detector calls; ctx = dv_context v
     in length (dc_previousArticles ctx) \<le> 10 \<and> distinct (dc_detectedLaws ctx) \<and>
        dc_currentArticle ctx = (if dc_previousArticles ctx = [] then None else Some (last (dc_previousArticles ctx))) \<and>
        cache_ok (dv_cache v) \<and> maxSize (dv_cache v) = 5000 \<and> ttl (dv_cache v) = 3600000 \<and>
        (\<exists>rs v'. detectReferences e d now now' text article v = Some (rs, v') \<and>
           sorted (map r_start rs) \<and> distinct (map reference_key rs))"
proof -
  let ?v = "foldl (apply_call e d) new_detector calls"
  have ok: "detector_ok ?v" using assms by (rule run_detector_ok)
  obtain rs v' where "detectReferences e d now now' text article ?v = Some (rs, v')" "listed rs"
    using detect_step [OF assms ok] by metis
  with ok show ?thesis by (auto simp: detector_ok_def context_ok_def listed_def Let_def)
qed

theorem caching_run_ok_witness:
  "dictionary_ok initializeDictionary \<and>
   (\<exists>rs v'. detectReferences sample_env initializeDictionary 5 6 [c_zen, c_jou] (Some [c_dai, c_go, c_jou])
      (foldl (apply_call sample_env initializeDictionary) new_detector [Detect 0 1 [c_min, c_hou, c_dai, c_ni, c_jou] (Some [c_dai, c_yon, c_jou]), ResetContext]) =
      Some (rs, v') \<and> sorted (map r_start rs))"
  using caching_run_ok [OF initial_ok, of sample_env "[Detect 0 1 [c_min, c_hou, c_dai, c_ni, c_jou] (Some [c_dai, c_yon, c_jou]), ResetContext]" 5 6 "[c_zen, c_jou]" "Some [c_dai, c_go, c_jou]"]
    initial_ok unfolding Let_def by blast

text \<open>C23: when a call had to compute its result, the same call within an hour of the moment
  the result was stored returns the same list and leaves the context as it is; after the hour the
  cache does not answer any more.\<close>

theorem second_call_cached:
  assumes "dictionary_ok d" "v = foldl (apply_call e d) new_detector calls"
    "fst (get e t0 text article (dv_cache v)) = None" "detectReferences e d t0 t1 text article v = Some (rs, v')"
  shows "(t2 - t1 \<le> 3600000 \<longrightarrow> (\<exists>c. detectReferences e d t2 t3 text article v' = Some (rs, v'\<lparr>dv_cache := c\<rparr>))) \<and>
    (3600000 < t2 - t1 \<longrightarrow> fst (get e t2 text article (dv_cache v')) = None)"
proof -
  have ok: "detector_ok v" using run_detector_ok [OF assms(1)] assms(2) by blast
  obtain r c where g: "get e t0 text article (dv_cache v) = (r, c)" by force
  have c: "cache_ok c" using get_ok [of "dv_cache v" e t0 "text" article] ok g by (simp add: detector_ok_def)
  obtain ctx where v': "v' = \<lparr>dv_context = ctx, dv_cache = set_refs e t1 text rs article c\<rparr>"
    using assms(3,4) g by (auto simp: detectReferences_def Let_def split: option.splits)
  have "fst (get e t2 text article (dv_cache v')) = (if t2 - t1 \<le> 3600000 then Some rs else None)"
    using stored_entry [OF c refl, of e t1 "text" rs article] get_keeps(1) [OF g] ok
    by (simp add: v' get_def Let_def expired_def detector_ok_def)
  moreover obtain r2 c2 where "get e t2 text article (dv_cache v') = (r2, c2)" by force
  ultimately show ?thesis by (auto simp: detectReferences_def)
qed

theorem second_call_cached_witness:
  "\<exists>rs v'. detectReferences sample_env initializeDictionary 0 1 [c_zen, c_jou] None new_detector = Some (rs, v') \<and>
     (\<exists>c. detectReferences sample_env initializeDictionary 3600001 9 [c_zen, c_jou] None v' = Some (rs, v'\<lparr>dv_cache := c\<rparr>))"
proof -
  obtain rs v' where r: "detectReferences sample_env initializeDictionary 0 1 [c_zen, c_jou] None new_detector = Some (rs, v')"
    using detect_step [OF initial_ok new_caching_ok] by metis
  have "fst (get sample_env 0 [c_zen, c_jou] None (dv_cache new_detector)) = None"
    by (simp add: get_def Let_def new_detector_def new_cache_def)
  from second_call_cached [OF initial_ok, of new_detector sample_env "[]", OF _ this r, of 3600001] r show ?thesis by auto
qed

text \<open>C24: in a text without the conjunctions \<open>oyobi\<close> and \<open>narabini\<close> every reference that a call
  computes stands in the text at its position.\<close>

theorem fresh_references_stand:
  assumes "dictionary_ok d" "\<not> str_includes text [c_oyo, h_bi]" "\<not> str_includes text [c_nara, h_bi, h_ni]"
    "fst (get e now text article (dv_cache v)) = None" "detectReferences e d now now' text article v = Some (rs, v')"
  shows "list_all (\<lambda>r. occurs_at text (r_start r) (r_sourceText r) \<and> r_end r = r_start r + length (r_sourceText r)) rs"
proof -
  obtain refs ctx' where col: "collect_references d text (update_context article (dv_context v)) = Some (refs, ctx')"
    using collect_returns [OF assms(1)] by blast
  obtain r c where "get e now text article (dv_cache v) = (r, c)" by force
  with assms(4,5) col have "rs = deduplicateAndSort refs" by (simp add: detectReferences_def Let_def)
  with collect_stand [OF assms(1-3) col] show ?thesis
    by (auto simp: deduplicateAndSort_def list_all_iff stands_in_def dest: first_by_sub)
qed

theorem fresh_references_stand_witness:
  "\<exists>rs v'. detectReferences sample_env initializeDictionary 0 1 [c_zen, c_jou] None new_detector = Some (rs, v') \<and>
     list_all (\<lambda>r. occurs_at [c_zen, c_jou] (r_start r) (r_sourceText r)) rs"
proof -
  obtain rs v' where r: "detectReferences sample_env initializeDictionary 0 1 [c_zen, c_jou] None new_detector = Some (rs, v')"
    using detect_step [OF initial_ok new_caching_ok] by metis
  have "\<not> str_includes [c_zen, c_jou] [c_oyo, h_bi]" "\<not> str_includes [c_zen, c_jou] [c_nara, h_bi, h_ni]" by code_simp+
  moreover have "fst (get sample_env 0 [c_zen, c_jou] None (dv_cache new_detector)) = None"
    by (simp add: get_def Let_def new_detector_def new_cache_def)
  ultimately have "list_all (\<lambda>r. occurs_at [c_zen, c_jou] (r_start r) (r_sourceText r) \<and> r_end r = r_start r + length (r_sourceText r)) rs"
    by (rule fresh_references_stand [OF initial_ok _ _ _ r])
  with r show ?thesis by (auto simp: list_all_iff)
qed

text \<open>the numbers the detector writes are the numbers it reads, and in article \<open>n\<close> the words
  for the article itself, the previous and the next article, and the two or three articles before it
  lead to those articles; where they would lead before article one there is no result.\<close>

theorem contextual_articles:
  assumes "1 \<le> n" "dc_currentArticle ctx = Some ([c_dai] @ numberToKanji n @ [c_jou])"
  shows "kanjiToNumber (numberToKanji n) = n \<and>
    resolveRelativeArticle ctx 0 (str ''this_article'') = Some ([c_dai] @ numberToKanji n @ [c_jou]) \<and>
    resolveRelativeArticle ctx (-1) (str ''previous'') = (if n = 1 then None else Some ([c_dai] @ numberToKanji (n - 1) @ [c_jou])) \<and>
    resolveRelativeArticle ctx 1 (str ''next'') = Some ([c_dai] @ numberToKanji (n + 1) @ [c_jou]) \<and>
    resolveRelativeArticle ctx (-3) (str ''previous_three'') = (if n \<le> 3 then None
      else Some ([c_dai] @ numberToKanji (n - 3) @ [c_jou, h_ka, h_ra, c_dai] @ numberToKanji (n - 1) @ [c_jou, h_ma, h_de])) \<and>
    resolveRelativeArticle ctx (-2) (str ''previous_two'') = (if n \<le> 2 then None
      else Some ([c_dai] @ numberToKanji (n - 2) @ [c_jou, h_ka, h_ra, c_dai] @ numberToKanji (n - 1) @ [c_jou, h_ma, h_de]))"
proof -
  have tests: "str_includes (str ''previous'') (str ''previous'')" "str_includes (str ''next'') (str ''next'')" "str_includes (str ''previous_three'') (str ''previous'')"
    "str_includes (str ''previous_two'') (str ''previous'')" by code_simp+
  have kinds: "distinct [(str ''this_article''), (str ''same_article''), (str ''same_paragraph''), (str ''previous''), (str ''next''), (str ''previous_three''), (str ''previous_two'')]"
    "distinct [(str ''previous_two''), (str ''previous_three''), (str ''next''), (str ''previous''), (str ''same_paragraph''), (str ''same_article''), (str ''this_article'')]"
    by code_simp+
  have cur: "dc_currentArticle ctx = Some (article_of n)" using assms(2) by (simp only: article_of_def)
  have own: "resolveRelativeArticle ctx 0 (str ''this_article'') = Some (article_of n)"
    by (simp add: resolve_at [OF assms(1) cur] del: str_simps)
  have prev: "resolveRelativeArticle ctx (-1) (str ''previous'') = (if n = 1 then None else Some (article_of (n - 1)))"
    using assms(1) kinds by (simp add: resolve_at [OF assms(1) cur] tests del: str_simps)
  have nxt: "resolveRelativeArticle ctx 1 (str ''next'') = Some (article_of (n + 1))"
    using assms(1) kinds by (simp add: resolve_at [OF assms(1) cur] tests del: str_simps)
  have three: "resolveRelativeArticle ctx (-3) (str ''previous_three'') =
      (if n \<le> 3 then None else Some ([c_dai] @ numberToKanji (n - 3) @ [c_jou, h_ka, h_ra] @ article_of (n - 1) @ [h_ma, h_de]))"
    using kinds by (simp add: resolve_at [OF assms(1) cur] tests del: str_simps)
  have two: "resolveRelativeArticle ctx (-2) (str ''previous_two'') =
      (if n \<le> 2 then None else Some ([c_dai] @ numberToKanji (n - 2) @ [c_jou, h_ka, h_ra] @ article_of (n - 1) @ [h_ma, h_de]))"
    using kinds by (simp add: resolve_at [OF assms(1) cur] tests del: str_simps)
  have "kanjiToNumber (numberToKanji n) = n" using assms(1) by (simp add: number_roundtrip)
  then show ?thesis unfolding own prev nxt three two by (simp add: article_of_def)
qed

theorem contextual_articles_witness:
  "resolveRelativeArticle \<lparr>dc_currentArticle = Some ([c_dai] @ numberToKanji 12 @ [c_jou]), dc_previousArticles = [], dc_detectedLaws = []\<rparr> (-3)
     (str ''previous_three'') = Some [c_dai, c_kyuu, c_jou, h_ka, h_ra, c_dai, c_juu, c_ichi, c_jou, h_ma, h_de]"
proof -
  have "numberToKanji 9 = [c_kyuu]" "numberToKanji 11 = [c_juu, c_ichi]" by code_simp+
  with contextual_articles [of 12 "\<lparr>dc_currentArticle = Some ([c_dai] @ numberToKanji 12 @ [c_jou]), dc_previousArticles = [], dc_detectedLaws = []\<rparr>"]
  show ?thesis by (simp del: str_simps)
qed

text \<open>What the code does otherwise: a numeral with hundreds and tens is misread; the word for the previous
  paragraph leads to the previous article; a cached result reflects the laws known when it was stored,
  even after \<open>resetContext\<close>; a text with leading
  blanks gets the cached positions of the text without them; positions after an expanded enumeration are those of the
  shortened text.\<close>

lemma numeral_misread: "kanjiToNumber [c_ni, c_hyaku, c_go, c_juu, c_san] = 218"
  by code_simp

lemma paragraph_read_as_article:
  "resolveRelativeArticle \<lparr>dc_currentArticle = Some [c_dai, c_go, c_jou], dc_previousArticles = [], dc_detectedLaws = []\<rparr> (-1)
     (str ''previous_paragraph'') = Some [c_dai, c_yon, c_jou]"
  by code_simp

lemma stale_context:
  "fst (get e now s a (dv_cache v)) = Some rs \<Longrightarrow>
     map_option fst (detectReferences e d now now' s a (v\<lparr>dv_context := ctx\<rparr>)) = Some rs"
  by (cases "get e now s a (dv_cache v)") (simp add: detectReferences_def)

lemma context_matters:
  "inferLawsFromContext [[c_min, c_hou]] (str ''related_laws'') = [[c_min, c_hou, 0x65BD, 0x884C, c_rei_order], [c_min, c_hou, 0x65BD, 0x884C, c_ki, c_soku]]" "inferLawsFromContext [] (str ''related_laws'') = []"
  by code_simp+

lemma padded_key: "generateKey e (0x20 # s) x = generateKey e s x"
  by (simp add: generateKey_def trim_def is_ws_def)

lemma shifted_position:
  "map (\<lambda>r. (r_sourceText r, r_start r)) (filter (\<lambda>r. r_type r = (str ''range''))
     (fst (detectStandardReferences [c_dai, c_ichi, c_jou, p_comma, c_dai, c_ni, c_jou, c_oyo, h_bi, c_dai, c_san, c_jou, p_comma, c_dai, c_go, c_jou, h_ka, h_ra, c_dai, c_roku, c_jou, h_ma, h_de] []))) = [([c_dai, c_go, c_jou, h_ka, h_ra, c_dai, c_roku, c_jou, h_ma, h_de], 12)] \<and>
   \<not> occurs_at [c_dai, c_ichi, c_jou, p_comma, c_dai, c_ni, c_jou, c_oyo, h_bi, c_dai, c_san, c_jou, p_comma, c_dai, c_go, c_jou, h_ka, h_ra, c_dai, c_roku, c_jou, h_ma, h_de] 12 [c_dai, c_go, c_jou, h_ka, h_ra, c_dai, c_roku, c_jou, h_ma, h_de]"
  by code_simp


end
