(* ===== verification/ContextDetector.thy ===== *)
theory ContextDetector
  imports CachingDetector
begin

text \<open>
  \<^verbatim>\<open>src/domain/services/EnhancedReferenceDetectorV40.ts\<close>: the detector before the cache, the deleted articles and the
  nested references were added. Its steps are the text of version 4.1 without change, so they are the definitions of
  \<open>CachingDetector\<close>; what is its own is the state (the context alone), the method that composes the steps, and the
  statistics. The property says what the next version kept.
\<close>

record EnhancedReferenceDetectorV40 =
  d40_context :: DetectionContext

definition VERSION40 :: jsstr where
  "VERSION40 = (str ''4.0.0'')"

definition new_detector40 :: EnhancedReferenceDetectorV40 where
  "new_detector40 = \<lparr>d40_context = empty_context\<rparr>"

definition collect_references40 :: "AbbreviationDictionary \<Rightarrow> jsstr \<Rightarrow> DetectionContext \<Rightarrow> (Reference list \<times> DetectionContext) option" where
  "collect_references40 d text ctx =
     (case detectAbbreviatedReferences d text (dc_detectedLaws ctx) of
        None \<Rightarrow> None
      | Some (expandedReferences, laws1) \<Rightarrow>
          (case detectStandardReferences text laws1 of (standardRefs, laws2) \<Rightarrow>
             (let ctx2 = ctx\<lparr>dc_detectedLaws := laws2\<rparr>
              in Some (expandedReferences @ standardRefs @ resolveContextualReferences ctx2 text @
                   detectEnhancedIndirectReferences laws2 text, ctx2))))"

definition detectReferences40 :: "AbbreviationDictionary \<Rightarrow> jsstr \<Rightarrow> jsstr option \<Rightarrow> EnhancedReferenceDetectorV40 \<Rightarrow>
    (Reference list \<times> EnhancedReferenceDetectorV40) option" where
  "detectReferences40 d text currentArticle v =
     map_option (\<lambda>(references, ctx). (deduplicateAndSort references, v\<lparr>d40_context := ctx\<rparr>))
       (collect_references40 d text (update_context currentArticle (d40_context v)))"

definition resetContext40 :: "EnhancedReferenceDetectorV40 \<Rightarrow> EnhancedReferenceDetectorV40" where
  "resetContext40 v = v\<lparr>d40_context := empty_context\<rparr>"

definition getVersion40 :: "EnhancedReferenceDetectorV40 \<Rightarrow> jsstr" where
  "getVersion40 v = VERSION40"

definition getStatistics40 :: "AbbreviationDictionary \<Rightarrow> EnhancedReferenceDetectorV40 \<Rightarrow> nat \<times> nat \<times> nat" where
  "getStatistics40 d v =
     (length (dc_detectedLaws (d40_context v)), length (dc_previousArticles (d40_context v)),
      ds_totalEntries (Abbreviations.getStatistics d))"

section \<open>Against version 4.1\<close>

lemma collect_extends:
  "collect_references d s ctx =
     map_option (\<lambda>(refs, ctx'). (detectDeletedArticles s @ refs @ detectNestedReferences s, ctx')) (collect_references40 d s ctx)"
  by (auto simp: collect_references_def collect_references40_def Let_def split: option.splits prod.splits)

lemma dedup_keys: "reference_key ` set (deduplicateAndSort rs) = reference_key ` set rs"
  using first_by_keys [of reference_key "[]" rs] by (simp add: deduplicateAndSort_def)

text \<open>C19: from the same context, and where its cache does not answer, version 4.1 returns whenever
  version 4.0 does and ends in the same context; every reference of version 4.0 is still there under its key; and in
  a text without deleted articles and nested references the two results are the same list.\<close>

theorem later_version_extends:
  assumes "d40_context v40 = dv_context v41" and "fst (get e now text article (dv_cache v41)) = None"
    and "detectReferences40 d text article v40 = Some (rs40, v40')"
  shows "\<exists>rs41 v41'. detectReferences e d now now' text article v41 = Some (rs41, v41') \<and>
    dv_context v41' = d40_context v40' \<and> reference_key ` set rs40 \<subseteq> reference_key ` set rs41 \<and>
    (detectDeletedArticles text = [] \<and> detectNestedReferences text = [] \<longrightarrow> rs41 = rs40)"
proof -
  obtain refs ctx where c40: "collect_references40 d text (update_context article (dv_context v41)) = Some (refs, ctx)"
    and rs40: "rs40 = deduplicateAndSort refs" "d40_context v40' = ctx"
    using assms(1,3) by (auto simp: detectReferences40_def)
  obtain c where "get e now text article (dv_cache v41) = (None, c)" using assms(2) by (metis prod.collapse)
  then have "\<exists>v41'. detectReferences e d now now' text article v41 =
      Some (deduplicateAndSort (detectDeletedArticles text @ refs @ detectNestedReferences text), v41') \<and> dv_context v41' = ctx"
    using c40 by (simp add: detectReferences_def collect_extends Let_def)
  with rs40 show ?thesis by (auto simp: dedup_keys)
qed

theorem later_version_extends_witness:
  "\<exists>rs v40' v41'. detectReferences40 initializeDictionary [c_zen, c_jou] None new_detector40 = Some (rs, v40') \<and>
     detectReferences sample_env initializeDictionary 0 1 [c_zen, c_jou] None new_detector = Some (rs, v41')"
proof -
  obtain rs v40' where r: "detectReferences40 initializeDictionary [c_zen, c_jou] None new_detector40 = Some (rs, v40')"
    using collect_returns [OF initial_ok, of "[c_zen, c_jou]"] by (force simp: detectReferences40_def collect_extends)
  have "detectDeletedArticles [c_zen, c_jou] = []" "detectNestedReferences [c_zen, c_jou] = []" by code_simp+
  moreover have "fst (get sample_env 0 [c_zen, c_jou] None (dv_cache new_detector)) = None"
    by (simp add: get_def Let_def new_detector_def new_cache_def)
  moreover have "d40_context new_detector40 = dv_context new_detector" by (simp add: new_detector40_def new_detector_def)
  ultimately show ?thesis using later_version_extends [OF _ _ r, of new_detector sample_env 0 1] r by blast
qed


end
