(* ===== verification/Validation.thy ===== *)
theory Validation
  imports Detector
begin

text \<open>
  \<^verbatim>\<open>scripts/detector.ts\<close>, part 4: the commands that measure the detector against the tagged or explicit references of
  the law files. The extraction of articles and baseline references from the markup, the walk over the
  parsed documents of the e-Gov service, the selection of laws, the counters and the measures
  (precision, recall, F1, the distribution of the accuracy).

  What lies outside the repository is an argument: the file system, the rows the CSV library returns,
  the document the XML library makes of the answer of the service (a \<open>json\<close> value), the random draws.
  Console output, progress lines, delays and report files are left out; the values they print are the
  results. Percentages are exact rationals. A detection that does not return makes the whole command
  not return (\<open>None\<close>).
\<close>

section \<open>Extraction from the markup\<close>

record Article =
  xa_number :: jsstr
  xa_content :: jsstr

definition element_text :: "jsstr \<Rightarrow> jsstr" where
  "element_text articleContent =
     trim (replace_all (rplus (RCls False rng_ws)) (\<lambda>_. (str '' '')) (replace_all (rseq [RLit (str ''<''), rplus (RCls True [(0x3E, 0x3E)]), RLit (str ''>'')]) (\<lambda>_. (str '' '')) articleContent))"

definition article_element :: regex where
  "article_element = (rseq [RLit (str ''<Article''), rstar (RCls True [(0x3E, 0x3E)]), RLit (str ''>''), RGrp 1 (RRep (RCls True []) 0 None False), RLit (str ''</Article>'')])"

definition title_element :: regex where
  "title_element = (rseq [RLit (str ''<ArticleTitle''), rstar (RCls True [(0x3E, 0x3E)]), RLit (str ''>''), RGrp 1 (rplus (RCls True [(0x3C, 0x3C)])), RLit (str ''</ArticleTitle>'')])"

definition article_of_match :: "rmatch \<Rightarrow> Article list" where
  "article_of_match m =
     (let articleContent = grp m 1;
          number = (case rx_match title_element articleContent of None \<Rightarrow> [] | Some n \<Rightarrow> grp n 1);
          textContent = element_text articleContent
      in if textContent \<noteq> [] then [\<lparr>xa_number = number, xa_content = textContent\<rparr>] else [])"

definition extractArticlesFromXML :: "jsstr \<Rightarrow> Article list" where
  "extractArticlesFromXML xmlContent = concat (map article_of_match (exec_all article_element xmlContent))"

datatype baselineType = ExternalRef | InternalRef

type_synonym baseline = "jsstr \<times> baselineType"

definition lawNamePattern :: regex where
  "lawNamePattern =
     (rseq [RGrp 1 (rseq [RRep (RCls True (rng_ws @ [(p_stop, p_stop), (p_comma, p_comma)])) 2 (Some 20) True, ralt [RLit [c_hou], RLit [c_rei_order], RLit [c_ki, c_soku], RLit [c_jou, 0x4F8B], RLit [0x901A, 0x9054]]]), ropt (rseq [RLit [p_lparen], rplus (RCls True [(p_rparen, p_rparen)]), RLit [p_rparen]]), ralt [rseq [RLit [c_dai], rplus (RCls False rng_kj10000), RLit [c_jou]], rseq [rplus (RCls False rng_fullwidth), RLit [c_jou]]]])"

definition articlePattern :: regex where
  "articlePattern = (rseq [RLit [c_dai], rplus (RCls False [(c_ichi, c_ichi), (c_ni, c_ni), (c_san, c_san), (c_yon, c_yon), (c_go, c_go), (c_roku, c_roku), (c_nana, c_nana), (c_hachi, c_hachi), (c_kyuu, c_kyuu), (c_juu, c_juu), (c_hyaku, c_hyaku), (c_sen, c_sen), (c_man, c_man), (0xFF10, 0xFF19)]), RLit [c_jou], ropt (rseq [RLit [c_dai], rplus (RCls False [(c_ichi, c_ichi), (c_ni, c_ni), (c_san, c_san), (c_yon, c_yon), (c_go, c_go), (c_roku, c_roku), (c_nana, c_nana), (c_hachi, c_hachi), (c_kyuu, c_kyuu), (c_juu, c_juu), (c_hyaku, c_hyaku), (c_sen, c_sen), (c_man, c_man), (0xFF10, 0xFF19)]), RLit [c_kou]])])"

definition after_law_name :: "jsstr \<Rightarrow> rmatch \<Rightarrow> bool" where
  "after_law_name content m =
     rx_test (rseq [ralt [RLit [c_hou], RLit [c_rei_order], RLit [c_ki, c_soku], RLit [c_jou, 0x4F8B], RLit [0x901A, 0x9054]], rstar (RCls False [(p_rparen, p_rparen), (0x29, 0x29)]), REol]) (substring content (m_index m - 30) (m_index m))"

definition article_baseline :: "jsstr \<Rightarrow> baseline list" where
  "article_baseline content =
     map (\<lambda>m. (m_text m, ExternalRef)) (exec_all lawNamePattern content) @
     map (\<lambda>m. (m_text m, InternalRef)) (filter (\<lambda>m. \<not> after_law_name content m) (exec_all articlePattern content))"

definition extractBaselineReferences :: "jsstr \<Rightarrow> baseline list" where
  "extractBaselineReferences xmlContent =
     concat (map (\<lambda>a. article_baseline (xa_content a)) (extractArticlesFromXML xmlContent))"

text \<open>The references marked by tags.\<close>

datatype tagType = ExternalTag | InternalTag | StructuralTag

definition tag_pattern :: "jsstr \<Rightarrow> regex" where
  "tag_pattern tag = rseq [RLit ((str ''<'') @ tag), rstar (RCls True [(0x3E, 0x3E)]), RLit (str ''>''),
     RGrp 1 (rplus (RCls True [(0x3C, 0x3C)])), RLit ((str ''</'') @ tag @ (str ''>''))]"

definition referenceTags :: "(jsstr \<times> tagType) list" where
  "referenceTags =
     [((str ''ReferenceToLaw''), ExternalTag), ((str ''ReferenceToArticle''), InternalTag), ((str ''ReferenceToSubsection''), StructuralTag),
      ((str ''ReferenceToItem''), StructuralTag), ((str ''ReferenceToChapter''), StructuralTag), ((str ''ReferenceToSection''), StructuralTag),
      ((str ''ReferenceToParagraph''), StructuralTag)]"

definition extractEGovReferencesFromXML :: "jsstr \<Rightarrow> (tagType \<times> jsstr \<times> jsstr) list" where
  "extractEGovReferencesFromXML xmlContent =
     concat (map (\<lambda>(tag, type). map (\<lambda>m. (type, grp m 1, tag)) (exec_all (tag_pattern tag) xmlContent)) referenceTags)"

section \<open>Parsed documents\<close>

text \<open>Property access (\<open>None\<close> is \<open>undefined\<close>), truth, \<open>typeof x === 'object'\<close>, and the pairs that \<open>for in\<close> visits and that
  can hold an object; arrays have no named properties.\<close>

fun jget :: "json \<Rightarrow> jsstr \<Rightarrow> json option" where
  "jget (JObj ps) k = map_of ps k"
| "jget _ k = None"

fun jtruthy :: "json option \<Rightarrow> bool" where
  "jtruthy None = False"
| "jtruthy (Some JNull) = False"
| "jtruthy (Some (JBool b)) = b"
| "jtruthy (Some (JNum q)) = (q \<noteq> 0)"
| "jtruthy (Some (JStr s)) = (s \<noteq> [])"
| "jtruthy (Some _) = True"

fun is_object :: "json \<Rightarrow> bool" where
  "is_object JNull = True"
| "is_object (JArr _) = True"
| "is_object (JObj _) = True"
| "is_object _ = False"

text \<open>\<open>Array.isArray(x) ? x : [x]\<close>\<close>

fun as_array :: "json \<Rightarrow> json list" where
  "as_array (JArr xs) = xs"
| "as_array x = [x]"

text \<open>A chain \<open>x?.a?.b\<close>.\<close>

definition jchain :: "json option \<Rightarrow> jsstr list \<Rightarrow> json option" where
  "jchain = foldl (\<lambda>x k. Option.bind x (\<lambda>j. jget j k))"

text \<open>\<open>ref[k]\<close>: reading a property of \<open>null\<close> throws (\<open>None\<close>).\<close>

fun jprop :: "json \<Rightarrow> jsstr \<Rightarrow> json option option" where
  "jprop JNull k = None"
| "jprop j k = Some (jget j k)"

text \<open>The elements of a tag on one object.\<close>

record EGovRef =
  eg_type :: baselineType
  eg_target :: "json option"
  eg_text :: "json option"

definition tagged_children :: "json \<Rightarrow> jsstr \<Rightarrow> baselineType \<Rightarrow> jsstr \<Rightarrow> EGovRef list option" where
  "tagged_children obj tag type attr =
     (case jget obj tag of
        None \<Rightarrow> Some []
      | Some x \<Rightarrow>
          if jtruthy (Some x)
          then those (map (\<lambda>ref. Option.bind (jprop ref attr) (\<lambda>target. Option.bind (jprop ref (str ''#text'')) (\<lambda>t.
                 Some \<lparr>eg_type = type, eg_target = target, eg_text = t\<rparr>))) (as_array x))
          else Some [])"

fun traverse :: "json \<Rightarrow> EGovRef list option" where
  "traverse (JObj ps) =
     Option.bind (tagged_children (JObj ps) (str ''ReferenceToLaw'') ExternalRef (str ''@_lawId'')) (\<lambda>laws.
     Option.bind (tagged_children (JObj ps) (str ''ReferenceToArticle'') InternalRef (str ''@_num'')) (\<lambda>arts.
       map_option (\<lambda>rest. laws @ arts @ concat rest) (those (map (\<lambda>p. traverse (snd p)) ps))))"
| "traverse (JArr xs) = map_option concat (those (map traverse xs))"
| "traverse _ = Some []"

definition extractEGovReferences :: "json \<Rightarrow> EGovRef list option" where
  "extractEGovReferences mainProvision = traverse mainProvision"

text \<open>The text of a value in \<open>join\<close>; \<open>numText\<close> prints a number.\<close>

fun join_text :: "(rat \<Rightarrow> jsstr) \<Rightarrow> json \<Rightarrow> jsstr" where
  "join_text numText (JStr s) = s"
| "join_text numText (JNum q) = numText q"
| "join_text numText (JBool b) = (if b then (str ''true'') else (str ''false''))"
| "join_text numText (JArr xs) = join (str '','') (map (join_text numText) xs)"
| "join_text numText (JObj ps) = (str ''[object Object]'')"
| "join_text numText JNull = []"

definition sentence_texts :: "json \<Rightarrow> json list option" where
  "sentence_texts x =
     map_option concat (those (map (\<lambda>sentence. case sentence of
         JStr s \<Rightarrow> Some [JStr s]
       | _ \<Rightarrow> map_option (\<lambda>t. if jtruthy t then [the t] else []) (jprop sentence (str ''#text''))) (as_array x)))"

definition own_sentences :: "json \<Rightarrow> json list option" where
  "own_sentences n =
     (case jget n (str ''Sentence'') of None \<Rightarrow> Some [] | Some x \<Rightarrow> if jtruthy (Some x) then sentence_texts x else Some [])"

fun extractSentences :: "json \<Rightarrow> json list option" where
  "extractSentences (JObj ps) =
     Option.bind (own_sentences (JObj ps)) (\<lambda>own.
       map_option (\<lambda>rest. own @ concat rest)
         (those (map (\<lambda>p. if fst p \<noteq> (str ''Sentence'') then extractSentences (snd p) else Some []) ps)))"
| "extractSentences (JArr xs) = map_option concat (those (map extractSentences xs))"
| "extractSentences _ = Some []"

definition article_text :: "(rat \<Rightarrow> jsstr) \<Rightarrow> json \<Rightarrow> jsstr list option" where
  "article_text numText article =
     map_option (\<lambda>sentences. if sentences \<noteq> [] then [concat (map (join_text numText) sentences)] else [])
       (extractSentences article)"

definition own_articles :: "(json \<Rightarrow> jsstr list option) \<Rightarrow> json \<Rightarrow> jsstr list option" where
  "own_articles textOf node =
     (case jget node (str ''Article'') of
        None \<Rightarrow> Some []
      | Some x \<Rightarrow> if jtruthy (Some x) then map_option concat (those (map textOf (as_array x))) else Some [])"

fun extractArticleText :: "(json \<Rightarrow> jsstr list option) \<Rightarrow> json \<Rightarrow> jsstr list option" where
  "extractArticleText textOf (JObj ps) =
     Option.bind (own_articles textOf (JObj ps)) (\<lambda>own.
       map_option (\<lambda>rest. own @ concat rest)
         (those (map (\<lambda>p. if fst p \<noteq> (str ''Article'') then extractArticleText textOf (snd p) else Some []) ps)))"
| "extractArticleText textOf (JArr xs) = map_option concat (those (map (extractArticleText textOf) xs))"
| "extractArticleText textOf _ = Some []"

text \<open>The same walk in \<open>compareWithEGov\<close> reads only a single paragraph of an article.\<close>

definition first_paragraph_text :: "(rat \<Rightarrow> jsstr) \<Rightarrow> json \<Rightarrow> jsstr list option" where
  "first_paragraph_text numText article =
     (if article = JNull then None
      else case jchain (jget article (str ''Paragraph'')) [(str ''ParagraphSentence''), (str ''Sentence'')] of
        None \<Rightarrow> Some []
      | Some x \<Rightarrow>
          if jtruthy (Some x)
          then map_option (\<lambda>sentences. if sentences \<noteq> [] then [concat (map (join_text numText) sentences)] else [])
                 (sentence_texts x)
          else Some [])"

section \<open>The laws to measure\<close>

record files =
  fs_lawsData :: "jsstr list option"
  fs_directory :: "jsstr \<Rightarrow> jsstr list option"
  fs_exists :: "jsstr \<Rightarrow> bool"
  fs_read :: "jsstr \<Rightarrow> jsstr option"

type_synonym row = "(jsstr \<times> jsstr) list"

record LawRow =
  lw_id :: jsstr
  lw_name :: jsstr

text \<open>\<open>record[a] || record[b] || ...\<close>; the empty string stands for every false value.\<close>

definition first_field :: "row \<Rightarrow> jsstr list \<Rightarrow> jsstr" where
  "first_field r ks = foldr (\<lambda>k rest. case map_of r k of None \<Rightarrow> rest | Some v \<Rightarrow> if v = [] then rest else v) ks []"

definition law_rows :: "row list \<Rightarrow> LawRow list" where
  "law_rows records =
     concat (map (\<lambda>r. let lawId = first_field r [[c_hou, c_rei_order, 0x49, 0x44], (str ''law_id'')]; title = first_field r [[c_hou, c_rei_order, 0x540D], (str ''law_title''), [c_hou, c_rei_order, 0x540D, 0x6F22, 0x5B57]]
       in if lawId \<noteq> [] \<and> title \<noteq> [] then [\<lparr>lw_id = lawId, lw_name = title\<rparr>] else []) records)"

text \<open>The set of random indices grows until it is large enough; a list of draws that is too short is a loop that has
  not ended (\<open>None\<close>).\<close>

fun draw_indices :: "nat \<Rightarrow> nat list \<Rightarrow> nat list \<Rightarrow> nat list option" where
  "draw_indices n indices [] = (if length indices < n then None else Some indices)"
| "draw_indices n indices (d # ds) =
     (if length indices < n then draw_indices n (if d \<in> set indices then indices else indices @ [d]) ds else Some indices)"

definition select_laws :: "nat list \<Rightarrow> nat \<Rightarrow> bool \<Rightarrow> LawRow list \<Rightarrow> LawRow list option" where
  "select_laws draws count random laws =
     (if random then map_option (map (\<lambda>i. laws ! i)) (draw_indices (min count (length laws)) [] draws)
      else Some (take count laws))"



section \<open>Comparison of texts\<close>

record Totals =
  tt_egov :: nat
  tt_our :: nat
  tt_matched :: nat
  tt_missed :: nat
  tt_extra :: nat
  tt_processed :: nat
  tt_files :: nat
  tt_articles :: nat

definition no_totals :: Totals where
  "no_totals = \<lparr>tt_egov = 0, tt_our = 0, tt_matched = 0, tt_missed = 0, tt_extra = 0, tt_processed = 0, tt_files = 0, tt_articles = 0\<rparr>"

text \<open>\<open>new Set(refs.map(r => r.text.trim()))\<close>, in the order of insertion.\<close>

definition text_set :: "('a \<Rightarrow> jsstr) \<Rightarrow> 'a list \<Rightarrow> jsstr list" where
  "text_set textOf refs = first_by (\<lambda>t. t) [] (map (\<lambda>r. trim (textOf r)) refs)"

definition count_texts :: "jsstr list \<Rightarrow> jsstr list \<Rightarrow> Totals \<Rightarrow> Totals" where
  "count_texts baselineTexts ourTexts t =
     (let t1 = foldl (\<lambda>t x. if x \<in> set baselineTexts then t\<lparr>tt_matched := tt_matched t + 1\<rparr>
            else t\<lparr>tt_extra := tt_extra t + 1\<rparr>) t ourTexts
      in foldl (\<lambda>t x. if x \<notin> set ourTexts then t\<lparr>tt_missed := tt_missed t + 1\<rparr> else t) t1 baselineTexts)"



text \<open>A loop over laws that may not return.\<close>

fun run_laws :: "('s \<Rightarrow> LawRow \<Rightarrow> 's option) \<Rightarrow> LawRow list \<Rightarrow> 's \<Rightarrow> 's option" where
  "run_laws step [] s = Some s"
| "run_laws step (law # laws) s = Option.bind (step s law) (run_laws step laws)"

record Measures =
  ms_precision :: rat
  ms_recall :: rat
  ms_f1 :: rat

definition percent :: "nat \<Rightarrow> nat \<Rightarrow> rat" where
  "percent a b = rat_of_nat a / rat_of_nat b * 100"

definition measures :: "Totals \<Rightarrow> Measures" where
  "measures t =
     (let precision = (if 0 < tt_our t then percent (tt_matched t) (tt_our t) else 0);
          recall = (if 0 < tt_egov t then percent (tt_matched t) (tt_egov t) else 0);
          f1 = (if 0 < precision + recall then 2 * precision * recall / (precision + recall) else 0)
      in \<lparr>ms_precision = precision, ms_recall = recall, ms_f1 = f1\<rparr>)"


text \<open>In the comparison of all laws the sets are built from a variable that is not declared (\<open>egovRefs\<close>): the access
  throws, and the handler goes on with the next law.\<close>

definition all_step :: "env \<Rightarrow> files \<Rightarrow> Totals \<times> DetectorState \<Rightarrow> LawRow \<Rightarrow> (Totals \<times> DetectorState) option" where
  "all_step e fs s law =
     (case s of (t0, st) \<Rightarrow>
        let t = t0\<lparr>tt_processed := tt_processed t0 + 1\<rparr> in
        case Option.bind (fs_lawsData fs) (find (\<lambda>dir. starts_with dir (lw_id law))) of
          None \<Rightarrow> Some (t, st)
        | Some lawDir \<Rightarrow>
            (let xmlFile = (str ''laws_data/'') @ lawDir @ (str ''/'') @ lawDir @ (str ''.xml'') in
             if \<not> fs_exists fs xmlFile then Some (t, st)
             else case fs_read fs xmlFile of
               None \<Rightarrow> Some (t, st)
             | Some xmlContent \<Rightarrow>
                 (let t1 = t\<lparr>tt_egov := tt_egov t + length (extractBaselineReferences xmlContent)\<rparr>
                  in case detectReferences e xmlContent (Some (lw_id law)) (Some (lw_name law)) None st of
                       Diverges \<Rightarrow> None
                     | SyntaxError st' \<Rightarrow> Some (t1, st')
                     | Returns (ourRefs, st') \<Rightarrow> Some (t1\<lparr>tt_our := tt_our t1 + length ourRefs\<rparr>, st'))))"

definition compareAllLawsWithEGov :: "env \<Rightarrow> files \<Rightarrow> row list \<Rightarrow> (Totals \<times> Measures) option" where
  "compareAllLawsWithEGov e fs records =
     map_option (\<lambda>(t, st). (t, measures t))
       (run_laws (all_step e fs) (law_rows records) (no_totals, new_detector False False))"

section \<open>The other commands\<close>

text \<open>\<open>buildLawDictionary\<close>, up to the two tables it writes and the count it prints. Assignment to a property of an object is
  an update of an insertion-ordered map.\<close>

record LawTables =
  lt_titleToId :: "(jsstr, jsstr) jsmap"
  lt_abbreviationToId :: "(jsstr, jsstr) jsmap"
  lt_count :: nat

definition short_title :: "jsstr \<Rightarrow> jsstr" where
  "short_title title = trim (replace_all (rseq [RLit [p_lparen], rplus (RCls True rng_eol), RLit [p_rparen]]) (\<lambda>_. []) title)"

definition add_row :: "LawTables \<Rightarrow> row \<Rightarrow> LawTables" where
  "add_row t r =
     (let lawId = first_field r [[c_hou, c_rei_order, 0x49, 0x44], (str ''law_id'')]; title = first_field r [[c_hou, c_rei_order, 0x540D], (str ''law_title'')]
      in if lawId = [] \<or> title = [] then t
         else \<lparr>lt_titleToId = AList.update title lawId (lt_titleToId t),
               lt_abbreviationToId = (if short_title title \<noteq> title
                 then AList.update (short_title title) lawId (lt_abbreviationToId t) else lt_abbreviationToId t),
               lt_count = lt_count t + 1\<rparr>)"

definition buildLawDictionary :: "row list \<Rightarrow> LawTables" where
  "buildLawDictionary records = foldl add_row \<lparr>lt_titleToId = [], lt_abbreviationToId = [], lt_count = 0\<rparr> records"

text \<open>\<open>localOnlyValidation\<close>: processed laws, articles and references.\<close>

definition local_step :: "env \<Rightarrow> files \<Rightarrow> bool \<Rightarrow> (nat \<times> nat \<times> nat) \<times> DetectorState \<Rightarrow> LawRow \<Rightarrow>
    ((nat \<times> nat \<times> nat) \<times> DetectorState) option" where
  "local_step e fs fullArticles s law =
     (case s of ((processed, totalArticles, totalRefs), st) \<Rightarrow>
        case Option.bind (fs_lawsData fs) (find (\<lambda>dir. starts_with dir (lw_id law))) of
          None \<Rightarrow> Some ((processed + 1, totalArticles, totalRefs), st)
        | Some lawDir \<Rightarrow>
            (let xmlFile = (str ''laws_data/'') @ lawDir @ (str ''/'') @ lawDir @ (str ''.xml'') in
             if \<not> fs_exists fs xmlFile then Some ((processed + 1, totalArticles, totalRefs), st)
             else case fs_read fs xmlFile of
               None \<Rightarrow> Some ((processed + 1, totalArticles, totalRefs), st)
             | Some xmlContent \<Rightarrow>
                 (let articles = map m_text (exec_all (rseq [RLit (str ''<Article''), rstar (RCls True [(0x3E, 0x3E)]), RLit (str ''>''), RRep (RCls True []) 0 None False, RLit (str ''</Article>'')]) xmlContent);
                      sampledArticles = (if fullArticles then articles else take 3 articles);
                      totalArticles' = totalArticles + length sampledArticles
                  in case detectReferences e (join [0xA] sampledArticles) (Some (lw_id law)) (Some (lw_name law)) None st of
                       Diverges \<Rightarrow> None
                     | SyntaxError st' \<Rightarrow> Some ((processed + 1, totalArticles', totalRefs), st')
                     | Returns (refs, st') \<Rightarrow> Some ((processed + 1, totalArticles', totalRefs + length refs), st'))))"

definition localOnlyValidation :: "env \<Rightarrow> files \<Rightarrow> (LawRow list \<Rightarrow> LawRow list) \<Rightarrow> nat \<Rightarrow> bool \<Rightarrow> bool \<Rightarrow> row list \<Rightarrow> (nat \<times> nat \<times> nat) option" where
  "localOnlyValidation e fs shuffle count random fullArticles records =
     (let laws = law_rows records;
          selectedLaws = take count (if random then shuffle laws else laws)
      in map_option fst (run_laws (local_step e fs fullArticles) selectedLaws ((0, 0, 0), new_detector False False)))"

text \<open>The answer of the e-Gov service for one law, after the XML library: a request that fails, a status that is not
  a success, or a document.\<close>

datatype response = RequestFails jsstr | NotOk nat | Parsed json

record services =
  sv_lawData :: "jsstr \<Rightarrow> response"
  sv_numText :: "rat \<Rightarrow> jsstr"
  sv_typeError :: jsstr
  sv_syntaxError :: jsstr

definition law_node :: "json \<Rightarrow> json option" where
  "law_node data = jchain (Some data) [(str ''DataRoot''), (str ''ApplData''), (str ''LawFullText''), (str ''Law'')]"

text \<open>\<open>toFixed(1)\<close> followed by \<open>parseFloat\<close>; \<open>None\<close> is \<open>NaN\<close>.\<close>

definition fixed1 :: "rat \<Rightarrow> rat" where
  "fixed1 q = of_int \<lfloor>q * 10 + 1/2\<rfloor> / 10"

record ComparisonRow =
  cr_law :: LawRow
  cr_egovCount :: nat
  cr_ourCount :: nat
  cr_precision :: "rat option"
  cr_recall :: "rat option"

definition comparison_row :: "LawRow \<Rightarrow> nat \<Rightarrow> nat \<Rightarrow> ComparisonRow" where
  "comparison_row law egov our =
     \<lparr>cr_law = law, cr_egovCount = egov, cr_ourCount = our,
      cr_precision = (if 0 < egov then (if our = 0 then None else Some (fixed1 (percent (min our egov) our))) else Some 100),
      cr_recall = (if 0 < egov then Some (fixed1 (percent (min our egov) egov)) else Some 100)\<rparr>"

definition comparison_step :: "env \<Rightarrow> files \<Rightarrow> services \<Rightarrow> ComparisonRow list \<Rightarrow> LawRow \<Rightarrow> ComparisonRow list option" where
  "comparison_step e fs sv results law =
     (case sv_lawData sv (lw_id law) of
        RequestFails _ \<Rightarrow> Some results
      | NotOk _ \<Rightarrow> Some results
      | Parsed data \<Rightarrow>
          (case jchain (law_node data) [(str ''LawBody''), (str ''MainProvision'')] of
             None \<Rightarrow> Some results
           | Some provision \<Rightarrow>
               if \<not> jtruthy (Some provision) then Some results
               else case extractEGovReferences provision of
                 None \<Rightarrow> Some results
               | Some egovRefs \<Rightarrow>
                   (case Option.bind (fs_lawsData fs) (find (\<lambda>dir. starts_with dir (lw_id law))) of
                      None \<Rightarrow> Some results
                    | Some lawDir \<Rightarrow>
                        (case fs_read fs ((str ''laws_data/'') @ lawDir @ (str ''/'') @ lawDir @ (str ''.xml'')) of
                           None \<Rightarrow> Some results
                         | Some xmlContent \<Rightarrow>
                             (case detectReferences e xmlContent (Some (lw_id law)) (Some (lw_name law)) None (new_detector False False) of
                                Diverges \<Rightarrow> None
                              | SyntaxError _ \<Rightarrow> Some results
                              | Returns (ourRefs, _) \<Rightarrow> Some (results @ [comparison_row law (length egovRefs) (length ourRefs)]))))))"

text \<open>The sum of numbers that may be \<open>NaN\<close>.\<close>

definition nan_sum :: "rat option list \<Rightarrow> rat option" where
  "nan_sum xs = map_option sum_list (those xs)"

record ComparisonSummary =
  sm_rows :: "ComparisonRow list"
  sm_precision :: "rat option"
  sm_recall :: "rat option"
  sm_f1 :: "rat option"

definition summarize :: "ComparisonRow list \<Rightarrow> ComparisonSummary" where
  "summarize results =
     (let n = rat_of_nat (length results);
          avgPrecision = map_option (\<lambda>q. q / n) (nan_sum (map cr_precision results));
          avgRecall = map_option (\<lambda>q. q / n) (nan_sum (map cr_recall results))
      in \<lparr>sm_rows = results, sm_precision = avgPrecision, sm_recall = avgRecall,
          sm_f1 = Option.bind avgPrecision (\<lambda>p. Option.bind avgRecall (\<lambda>r.
            if p + r = 0 then None else Some (2 * (p * r) / (p + r))))\<rparr>)"

definition egovComparisonValidation :: "env \<Rightarrow> files \<Rightarrow> services \<Rightarrow> (LawRow list \<Rightarrow> LawRow list) \<Rightarrow> nat \<Rightarrow> bool \<Rightarrow> row list \<Rightarrow>
    ComparisonSummary option option" where
  "egovComparisonValidation e fs sv shuffle count random records =
     (let laws = law_rows records;
          selectedLaws = take (min count 100) (if random then shuffle laws else laws)
      in map_option (\<lambda>results. if results = [] then None else Some (summarize results))
           (run_laws (comparison_step e fs sv) selectedLaws []))"

text \<open>\<open>massEGovValidation\<close>: one result per law, then the distribution of the accuracy.\<close>

record LawResult =
  lr_law :: LawRow
  lr_total :: nat
  lr_success :: nat
  lr_accuracy :: rat
  lr_error :: "jsstr option"

definition failed_result :: "LawRow \<Rightarrow> jsstr \<Rightarrow> LawResult" where
  "failed_result law message = \<lparr>lr_law = law, lr_total = 0, lr_success = 0, lr_accuracy = 0, lr_error = Some message\<rparr>"

definition is_mapped :: "DetectedReference \<Rightarrow> bool" where
  "is_mapped r \<longleftrightarrow> truthy (dr_targetLawId r) \<or> truthy (dr_targetArticle r) \<or> truthy (dr_targetLaw r)"

definition law_result :: "LawRow \<Rightarrow> refs \<Rightarrow> LawResult" where
  "law_result law rs =
     (let mappedCount = length (filter is_mapped rs)
      in \<lparr>lr_law = law, lr_total = length rs, lr_success = mappedCount,
          lr_accuracy = (if 0 < length rs then percent mappedCount (length rs) else 100), lr_error = None\<rparr>)"

definition mass_step :: "env \<Rightarrow> services \<Rightarrow> LawResult list \<times> DetectorState \<Rightarrow> LawRow \<Rightarrow> (LawResult list \<times> DetectorState) option" where
  "mass_step e sv s law =
     (case s of (results, st) \<Rightarrow>
        case sv_lawData sv (lw_id law) of
          RequestFails message \<Rightarrow> Some (results @ [failed_result law message], st)
        | NotOk status \<Rightarrow> Some (results @ [failed_result law ([0x41, 0x50, 0x49, 0x30A8, 0x30E9, 0x30FC, 0x3A, 0x20] @ nat_str status)], st)
        | Parsed data \<Rightarrow>
            (let lawData = law_node data in
             if \<not> jtruthy lawData then Some (results @ [failed_result law [0x30C7, 0x30FC, 0x30BF, h_na, h_shi]], st)
             else case (case jchain lawData [(str ''LawBody'')] of None \<Rightarrow> Some [] | Some body \<Rightarrow> extractArticleText (article_text (sv_numText sv)) body) of
               None \<Rightarrow> Some (results @ [failed_result law (sv_typeError sv)], st)
             | Some articles \<Rightarrow>
                 (case detectReferences e (join [0xA] (take 10 articles)) (Some (lw_id law)) (Some (lw_name law)) None st of
                    Diverges \<Rightarrow> None
                  | SyntaxError st' \<Rightarrow> Some (results @ [failed_result law (sv_syntaxError sv)], st')
                  | Returns (rs, st') \<Rightarrow> Some (results @ [law_result law rs], st'))))"

record Distribution =
  di_success :: nat
  di_failed :: nat
  di_average :: "rat option"
  di_perfect :: nat
  di_high :: nat
  di_medium :: nat
  di_low :: nat
  di_worst :: "LawResult list"
  di_totalRefs :: nat

definition distribution :: "LawResult list \<Rightarrow> Distribution" where
  "distribution results =
     (let successfulResults = filter (\<lambda>r. \<not> truthy (lr_error r)) results;
          perfectCount = length (filter (\<lambda>r. lr_accuracy r = 100) successfulResults);
          highAccuracyCount = length (filter (\<lambda>r. 95 \<le> lr_accuracy r) successfulResults)
      in \<lparr>di_success = length successfulResults, di_failed = length (filter (\<lambda>r. truthy (lr_error r)) results),
          di_average = (if successfulResults = [] then None
            else Some (sum_list (map lr_accuracy successfulResults) / rat_of_nat (length successfulResults))),
          di_perfect = perfectCount, di_high = highAccuracyCount - perfectCount,
          di_medium = length (filter (\<lambda>r. 90 \<le> lr_accuracy r \<and> lr_accuracy r < 95) successfulResults),
          di_low = length (filter (\<lambda>r. lr_accuracy r < 90) successfulResults),
          di_worst = filter (\<lambda>r. lr_accuracy r < 100) (take 10 (sort_key lr_accuracy successfulResults)),
          di_totalRefs = sum_list (map lr_total successfulResults)\<rparr>)"

datatype report = LocalReport "nat \<times> nat \<times> nat" | ComparisonReport "ComparisonSummary option"
  | MassReport "LawResult list" Distribution

definition massEGovValidation :: "env \<Rightarrow> files \<Rightarrow> services \<Rightarrow> (LawRow list \<Rightarrow> LawRow list) \<Rightarrow> nat list \<Rightarrow> bool \<Rightarrow> nat \<Rightarrow> bool \<Rightarrow> bool \<Rightarrow> bool \<Rightarrow>
    row list \<Rightarrow> report option" where
  "massEGovValidation e fs sv shuffle draws reachable count random statsOnly fullArticles records =
     (if statsOnly then map_option LocalReport (localOnlyValidation e fs shuffle count random fullArticles records)
      else if count \<le> 10 then map_option ComparisonReport (egovComparisonValidation e fs sv shuffle count random records)
      else Option.bind (select_laws draws count random (law_rows records)) (\<lambda>selectedLaws.
        map_option (\<lambda>(results, st). MassReport results (distribution results))
          (run_laws (mass_step e sv) selectedLaws ([], new_detector True reachable))))"

text \<open>\<open>compareWithEGov\<close> for one law: the articles, the references by type, and the share that has a target. \<open>Inl\<close> is an
  early return or a caught error.\<close>

record SingleReport =
  si_articles :: nat
  si_total :: nat
  si_byType :: "(refType, nat) jsmap"
  si_mapped :: nat
  si_accuracy :: rat

definition compareWithEGov :: "env \<Rightarrow> services \<Rightarrow> bool \<Rightarrow> LawRow \<Rightarrow> (unit + SingleReport) option" where
  "compareWithEGov e sv reachable law =
     (case sv_lawData sv (lw_id law) of
        Parsed data \<Rightarrow>
          (let lawData = law_node data in
           if \<not> jtruthy lawData then Some (Inl ())
           else case (case jchain lawData [(str ''LawBody'')] of None \<Rightarrow> Some [] | Some body \<Rightarrow> extractArticleText (first_paragraph_text (sv_numText sv)) body) of
             None \<Rightarrow> Some (Inl ())
           | Some articles \<Rightarrow>
               (case detectReferences e (join [0xA] articles) (Some (lw_id law)) (Some (lw_name law)) None (new_detector True reachable) of
                  Diverges \<Rightarrow> None
                | SyntaxError _ \<Rightarrow> Some (Inl ())
                | Returns (rs, _) \<Rightarrow>
                    (let mappedCount = length (filter (\<lambda>r. truthy (dr_targetLawId r) \<or> truthy (dr_targetArticle r)) rs)
                     in Some (Inr \<lparr>si_articles = length articles, si_total = length rs, si_byType = tally dr_type rs,
                          si_mapped = mappedCount, si_accuracy = (if 0 < length rs then percent mappedCount (length rs) else 0)\<rparr>))))
      | _ \<Rightarrow> Some (Inl ()))"

section \<open>Counting\<close>

text \<open>A loop that may not return keeps what its step keeps.\<close>

locale partial_machine =
  fixes step :: "'s \<Rightarrow> LawRow \<Rightarrow> 's option" and inv :: "nat \<Rightarrow> 's \<Rightarrow> bool"
  assumes step_inv: "inv k s \<Longrightarrow> step s law = Some s' \<Longrightarrow> inv (Suc k) s'"
begin

lemma run_inv: "inv k s \<Longrightarrow> run_laws step laws s = Some s' \<Longrightarrow> inv (k + length laws) s'"
proof (induction laws arbitrary: k s)
  case (Cons law laws)
  from Cons.prems(2) obtain s1 where "step s law = Some s1" "run_laws step laws s1 = Some s'"
    by (cases "step s law") auto
  with Cons.IH [of "Suc k" s1] step_inv [OF Cons.prems(1)] show ?case by simp
qed simp

end

lemma text_set_props: "distinct (text_set f rs)" "set (text_set f rs) = (\<lambda>r. trim (f r)) ` set rs" "length (text_set f rs) \<le> length rs"
proof -
  have keys: "distinct (map (\<lambda>t. t) (text_set f rs)) \<and> (\<lambda>t. t) ` set (text_set f rs) = (\<lambda>t. t) ` set (map (\<lambda>r. trim (f r)) rs) - set []"
    unfolding text_set_def by (rule first_by_keys)
  then show d: "distinct (text_set f rs)" and s: "set (text_set f rs) = (\<lambda>r. trim (f r)) ` set rs" by simp_all
  have "length (text_set f rs) = card ((\<lambda>r. trim (f r)) ` set rs)" using d s by (metis distinct_card)
  also have "\<dots> \<le> card (set rs)" by (rule card_image_le) simp
  also have "\<dots> \<le> length rs" by (rule card_length)
  finally show "length (text_set f rs) \<le> length rs" .
qed

lemma count_our:
  "foldl (\<lambda>t x. if x \<in> B then t\<lparr>tt_matched := tt_matched t + 1\<rparr> else t\<lparr>tt_extra := tt_extra t + 1\<rparr>) t xs =
     t\<lparr>tt_matched := tt_matched t + length (filter (\<lambda>x. x \<in> B) xs), tt_extra := tt_extra t + length (filter (\<lambda>x. x \<notin> B) xs)\<rparr>"
  by (induction xs arbitrary: t) simp_all

lemma count_baseline:
  "foldl (\<lambda>t x. if x \<notin> A then t\<lparr>tt_missed := tt_missed t + 1\<rparr> else t) t xs =
     t\<lparr>tt_missed := tt_missed t + length (filter (\<lambda>x. x \<notin> A) xs)\<rparr>"
  by (induction xs arbitrary: t) simp_all

lemma count_texts_eq:
  "count_texts bs os t = t\<lparr>tt_matched := tt_matched t + length (filter (\<lambda>x. x \<in> set bs) os),
     tt_extra := tt_extra t + length (filter (\<lambda>x. x \<notin> set bs) os),
     tt_missed := tt_missed t + length (filter (\<lambda>x. x \<notin> set os) bs)\<rparr>"
  by (simp add: count_texts_def Let_def count_our count_baseline)

lemma length_filter_card: "distinct xs \<Longrightarrow> length (filter P xs) = card {x \<in> set xs. P x}"
  using distinct_card [of "filter P xs"] by simp

text \<open>For distinct texts the counters grow by the sizes of the intersection and the two differences.\<close>

lemma count_texts_card:
  assumes "distinct bs" "distinct os"
  shows "count_texts bs os t = t\<lparr>tt_matched := tt_matched t + card (set bs \<inter> set os),
     tt_extra := tt_extra t + card (set os - set bs), tt_missed := tt_missed t + card (set bs - set os)\<rparr>"
proof -
  have "{x \<in> set os. x \<in> set bs} = set bs \<inter> set os" "{x \<in> set os. x \<notin> set bs} = set os - set bs"
    "{x \<in> set bs. x \<notin> set os} = set bs - set os" by auto
  then show ?thesis using assms by (simp add: count_texts_eq length_filter_card)
qed





interpretation comparing: partial_machine "all_step e fs"
  "\<lambda>k s. tt_matched (fst s) = 0 \<and> tt_missed (fst s) = 0 \<and> tt_extra (fst s) = 0 \<and> tt_processed (fst s) = k" for e fs
  by unfold_locales (auto simp: all_step_def Let_def split: prod.splits option.splits outcome.splits if_splits)

text \<open>One result per law; a result counts no more successes than references, and its accuracy is a percentage.\<close>

definition result_ok :: "LawResult \<Rightarrow> bool" where
  "result_ok r \<longleftrightarrow> lr_success r \<le> lr_total r \<and> 0 \<le> lr_accuracy r \<and> lr_accuracy r \<le> 100"

lemma percent_bounds: "a \<le> b \<Longrightarrow> 0 \<le> percent a b \<and> percent a b \<le> 100"
  by (cases "b = 0") (auto simp: percent_def field_simps)

lemma law_result_ok: "result_ok (law_result law rs)" "result_ok (failed_result law message)"
  using percent_bounds [of "length (filter is_mapped rs)" "length rs"]
  by (auto simp: result_ok_def law_result_def failed_result_def Let_def)

interpretation measuring: partial_machine "mass_step e sv" "\<lambda>k s. length (fst s) = k \<and> list_all result_ok (fst s)" for e sv
  by unfold_locales
    (auto simp: mass_step_def Let_def law_result_ok split: prod.splits response.splits option.splits outcome.splits if_splits)

definition row_ok :: "ComparisonRow \<Rightarrow> bool" where
  "row_ok r \<longleftrightarrow> r = comparison_row (cr_law r) (cr_egovCount r) (cr_ourCount r)"

lemma comparison_row_ok: "row_ok (comparison_row law a b)"
  by (simp add: row_ok_def comparison_row_def)

interpretation tabulating: partial_machine "comparison_step e fs sv" "\<lambda>k rs. length rs \<le> k \<and> list_all row_ok rs" for e fs sv
  by unfold_locales
    (auto simp: comparison_step_def Let_def comparison_row_ok split: prod.splits response.splits option.splits outcome.splits if_splits)

lemma mean_bounds:
  assumes "xs \<noteq> []" "\<forall>x \<in> set xs. 0 \<le> x \<and> x \<le> (100::rat)"
  shows "0 \<le> sum_list xs / rat_of_nat (length xs)" "sum_list xs / rat_of_nat (length xs) \<le> 100"
proof -
  have "0 \<le> sum_list xs \<and> sum_list xs \<le> 100 * rat_of_nat (length xs)"
    using assms(2) by (induction xs) (auto simp: algebra_simps)
  moreover have "0 < rat_of_nat (length xs)" using assms(1) by simp
  ultimately show "0 \<le> sum_list xs / rat_of_nat (length xs)" "sum_list xs / rat_of_nat (length xs) \<le> 100"
    by (simp_all add: divide_le_eq)
qed



lemma draw_indices_ok:
  "draw_indices n is ds = Some js \<Longrightarrow> distinct is \<Longrightarrow> length is \<le> n \<Longrightarrow>
     distinct js \<and> length js = n \<and> set js \<subseteq> set is \<union> set ds"
proof (induction ds arbitrary: "is")
  case (Cons d ds)
  let ?is = "if d \<in> set is then is else is @ [d]"
  show ?case
  proof (cases "length is < n")
    case True
    with Cons.prems have "distinct js \<and> length js = n \<and> set js \<subseteq> set ?is \<union> set ds" by (intro Cons.IH) auto
    then show ?thesis by (auto split: if_splits)
  qed (use Cons.prems in auto)
qed (auto split: if_splits)

lemma draw_indices_returns:
  "n \<le> card (set is \<union> set ds) \<Longrightarrow> distinct is \<Longrightarrow> \<exists>js. draw_indices n is ds = Some js"
proof (induction ds arbitrary: "is")
  case Nil
  then show ?case by (simp add: distinct_card)
next
  case (Cons d ds)
  let ?is = "if d \<in> set is then is else is @ [d]"
  have "set ?is \<union> set ds = set is \<union> set (d # ds)" by auto
  with Cons.prems Cons.IH [of ?is] show ?case by auto
qed

section \<open>Properties\<close>


definition sample_files :: files where
  "sample_files = \<lparr>fs_lawsData = Some [(str ''A1_x'')], fs_directory = (\<lambda>_. Some [(str ''b.xml'')]), fs_exists = (\<lambda>_. True), fs_read = (\<lambda>_. Some [])\<rparr>"


text \<open>the comparison counts distinct trimmed texts: the matched ones are the common texts, the extra
  ones occur only among the detected references, the missed ones only in the baseline, and no other counter changes.\<close>

theorem texts_counted:
  "count_texts (text_set f bs) (text_set g os) t =
     (let B = (\<lambda>r. trim (f r)) ` set bs; D = (\<lambda>r. trim (g r)) ` set os
      in t\<lparr>tt_matched := tt_matched t + card (B \<inter> D), tt_extra := tt_extra t + card (D - B),
           tt_missed := tt_missed t + card (B - D)\<rparr>)"
  using count_texts_card [OF text_set_props(1) text_set_props(1), of f bs g os t] by (simp add: text_set_props(2) Let_def)

text \<open>the comparison of all laws reports no match, no miss, no extra text and measures of zero,
  whatever the files contain: the comparison itself always throws.\<close>

theorem full_comparison_zero:
  assumes "compareAllLawsWithEGov e fs records = Some (t, m)"
  shows "tt_matched t = 0 \<and> tt_missed t = 0 \<and> tt_extra t = 0 \<and> tt_processed t = length (law_rows records) \<and>
    m = \<lparr>ms_precision = 0, ms_recall = 0, ms_f1 = 0\<rparr>"
proof -
  obtain st where run: "run_laws (all_step e fs) (law_rows records) (no_totals, new_detector False False) = Some (t, st)" and m: "m = measures t"
    using assms by (auto simp: compareAllLawsWithEGov_def)
  from comparing.run_inv [OF _ run, of 0] have "tt_matched t = 0" "tt_missed t = 0" "tt_extra t = 0" "tt_processed t = length (law_rows records)"
    by (simp_all add: no_totals_def)
  then show ?thesis by (simp add: m measures_def percent_def Let_def)
qed

theorem full_comparison_zero_witness:
  "\<exists>t m. compareAllLawsWithEGov no_services sample_files [[((str ''law_id''), (str ''A1'')), ((str ''law_title''), [0x7532, c_hou])]] = Some (t, m) \<and> tt_processed t = 1 \<and>
     ms_precision m = 0"
proof -
  let ?r = "compareAllLawsWithEGov no_services sample_files [[((str ''law_id''), (str ''A1'')), ((str ''law_title''), [0x7532, c_hou])]]"
  have "?r \<noteq> None" by code_simp
  then obtain t m where r: "?r = Some (t, m)" by auto
  moreover have "length (law_rows [[((str ''law_id''), (str ''A1'')), ((str ''law_title''), [0x7532, c_hou])]]) = 1" by code_simp
  ultimately show ?thesis using full_comparison_zero [OF r] by auto
qed

text \<open>in the report of the large validation there is one result per selected law, successes and failures add up
  to all results, the four bands of accuracy partition the successes, and the average is a percentage.\<close>

theorem distribution_exact:
  assumes "run_laws (mass_step e sv) laws ([], st) = Some (results, st')"
  shows "length results = length laws \<and>
    (let d = distribution results
     in di_success d + di_failed d = length laws \<and> di_perfect d + di_high d + di_medium d + di_low d = di_success d \<and>
        (case di_average d of None \<Rightarrow> di_success d = 0 | Some q \<Rightarrow> 0 \<le> q \<and> q \<le> 100))"
proof -
  have ok: "length results = length laws" "list_all result_ok results" using measuring.run_inv [OF _ assms, of 0] by simp_all
  let ?s = "filter (\<lambda>r. \<not> truthy (lr_error r)) results"
  have part: "length (filter P xs) + length (filter (\<lambda>x. \<not> P x) xs) = length xs" for P :: "LawResult \<Rightarrow> bool" and xs
    by (induction xs) auto
  have high: "length (filter (\<lambda>r. lr_accuracy r = 100) xs) \<le> length (filter (\<lambda>r. 95 \<le> lr_accuracy r) xs)" for xs
    by (induction xs) auto
  have bands: "length (filter (\<lambda>r. 95 \<le> lr_accuracy r) xs) + length (filter (\<lambda>r. 90 \<le> lr_accuracy r \<and> lr_accuracy r < 95) xs) +
      length (filter (\<lambda>r. lr_accuracy r < 90) xs) = length xs" for xs
    by (induction xs) auto
  have mean: "?s \<noteq> [] \<Longrightarrow> 0 \<le> sum_list (map lr_accuracy ?s) / rat_of_nat (length ?s) \<and> sum_list (map lr_accuracy ?s) / rat_of_nat (length ?s) \<le> 100"
    using mean_bounds [of "map lr_accuracy ?s"] ok(2) by (auto simp: list_all_iff result_ok_def)
  show ?thesis
    using ok(1) part [of "\<lambda>r. \<not> truthy (lr_error r)" results] high [of ?s] bands [of ?s] mean
    by (auto simp: distribution_def Let_def)
qed

definition sample_services :: services where
  "sample_services = \<lparr>sv_lawData = (\<lambda>id. if id = (str ''A1'') then NotOk 404 else Parsed (JObj [((str ''DataRoot''), JObj [((str ''ApplData''), JObj [((str ''LawFullText''), JObj
     [((str ''Law''), JObj [((str ''LawBody''), JNull)])])])])])), sv_numText = (\<lambda>_. []), sv_typeError = (str ''TypeError''), sv_syntaxError = (str ''SyntaxError'')\<rparr>"

theorem distribution_exact_witness:
  "\<exists>results st'. run_laws (mass_step no_services sample_services) [\<lparr>lw_id = (str ''A1''), lw_name = [0x7532, c_hou]\<rparr>, \<lparr>lw_id = (str ''A2''), lw_name = [0x4E59, c_hou]\<rparr>]
     ([], new_detector False False) = Some (results, st') \<and> di_success (distribution results) + di_failed (distribution results) = 2"
proof -
  let ?r = "run_laws (mass_step no_services sample_services) [\<lparr>lw_id = (str ''A1''), lw_name = [0x7532, c_hou]\<rparr>, \<lparr>lw_id = (str ''A2''), lw_name = [0x4E59, c_hou]\<rparr>] ([], new_detector False False)"
  have "?r \<noteq> None" by code_simp
  then obtain results st' where r: "?r = Some (results, st')" by auto
  with distribution_exact [OF r] show ?thesis by (simp add: Let_def)
qed

text \<open>the random selection takes as many laws as asked for, or all of them, at different places of the list, and it
  returns as soon as the draws have hit enough places; without randomness it takes the first laws.\<close>

theorem selection_exact:
  assumes "list_all (\<lambda>i. i < length laws) draws"
  shows "(min count (length laws) \<le> card (set draws) \<longrightarrow> (\<exists>xs. select_laws draws count True laws = Some xs)) \<and>
    (select_laws draws count True laws = Some xs \<longrightarrow>
       (\<exists>is. distinct is \<and> list_all (\<lambda>i. i < length laws) is \<and> length is = min count (length laws) \<and> xs = map (\<lambda>i. laws ! i) is)) \<and>
    select_laws draws count False laws = Some (take count laws)"
proof (intro conjI impI)
  assume "min count (length laws) \<le> card (set draws)"
  then show "\<exists>xs. select_laws draws count True laws = Some xs"
    using draw_indices_returns [of "min count (length laws)" "[]" draws] by (auto simp: select_laws_def)
next
  assume "select_laws draws count True laws = Some xs"
  then obtain "is" where js: "draw_indices (min count (length laws)) [] draws = Some is" "xs = map (\<lambda>i. laws ! i) is"
    by (auto simp: select_laws_def)
  then show "\<exists>is. distinct is \<and> list_all (\<lambda>i. i < length laws) is \<and> length is = min count (length laws) \<and> xs = map (\<lambda>i. laws ! i) is"
    using draw_indices_ok [OF js(1)] assms by (intro exI [of _ "is"]) (auto simp: list_all_iff)
qed (simp add: select_laws_def)

theorem selection_exact_witness:
  "list_all (\<lambda>i. i < length [\<lparr>lw_id = (str ''1''), lw_name = (str ''a'')\<rparr>, \<lparr>lw_id = (str ''2''), lw_name = (str ''b'')\<rparr>]) [1, 1, 0] \<and>
   (\<exists>xs. select_laws [1, 1, 0] 5 True [\<lparr>lw_id = (str ''1''), lw_name = (str ''a'')\<rparr>, \<lparr>lw_id = (str ''2''), lw_name = (str ''b'')\<rparr>] = Some xs)"
proof -
  let ?laws = "[\<lparr>lw_id = (str ''1''), lw_name = (str ''a'')\<rparr>, \<lparr>lw_id = (str ''2''), lw_name = (str ''b'')\<rparr>]"
  have ok: "list_all (\<lambda>i. i < length ?laws) [1, 1, 0]" by simp
  moreover have "min 5 (length ?laws) \<le> card (set [1, 1, 0 :: nat])" by simp
  ultimately show ?thesis using selection_exact [OF ok, of 5] by blast
qed

text \<open>What the code does otherwise. The tag of a range in a table of contents starts like the tag of an article, and the text of the
  table becomes part of the first article. An article with several paragraphs has no text for \<open>compareWithEGov\<close>.
  The comparison by counts reports perfect measures for different references, and no number at all when nothing was detected.\<close>

lemma contents_in_article:
  "map xa_content (extractArticlesFromXML [0x3C, 0x54, 0x4F, 0x43, 0x3E, 0x3C, 0x41, 0x72, 0x74, 0x69, 0x63, 0x6C, 0x65, 0x52, 0x61, 0x6E, 0x67, 0x65, 0x3E, c_moku, c_ji, 0x3C, 0x2F, 0x41, 0x72, 0x74, 0x69, 0x63, 0x6C, 0x65, 0x52, 0x61, 0x6E, 0x67, 0x65, 0x3E, 0x3C, 0x2F, 0x54, 0x4F, 0x43, 0x3E, 0x3C, 0x41, 0x72, 0x74, 0x69, 0x63, 0x6C, 0x65, 0x20, 0x4E, 0x75, 0x6D, 0x3D, 0x22, 0x31, 0x22, 0x3E, 0x3C, 0x41, 0x72, 0x74, 0x69, 0x63, 0x6C, 0x65, 0x54, 0x69, 0x74, 0x6C, 0x65, 0x3E, c_dai, c_ichi, c_jou, 0x3C, 0x2F, 0x41, 0x72, 0x74, 0x69, 0x63, 0x6C, 0x65, 0x54, 0x69, 0x74, 0x6C, 0x65, 0x3E, c_hon, 0x6587, 0x3C, 0x2F, 0x41, 0x72, 0x74, 0x69, 0x63, 0x6C, 0x65, 0x3E]) =
     [[c_moku, c_ji, 0x20, c_dai, c_ichi, c_jou, 0x20, c_hon, 0x6587]]"
  by code_simp

lemma paragraphs_lost:
  "first_paragraph_text numText (JObj [((str ''Paragraph''), JArr ps)]) = Some []"
  by (simp add: first_paragraph_text_def jchain_def)

lemma counts_only: "0 < n \<Longrightarrow> cr_precision (comparison_row law n n) = Some 100 \<and> cr_recall (comparison_row law n n) = Some 100"
  by (simp add: comparison_row_def percent_def fixed1_def floor_eq_iff)

lemma nothing_detected:
  "0 < n \<Longrightarrow> r = comparison_row law n 0 \<Longrightarrow> sm_precision (summarize (rs @ [r])) = None"
proof -
  assume "0 < n" "r = comparison_row law n 0"
  then have "cr_precision r = None" by (simp add: comparison_row_def)
  then have "those (map cr_precision (rs @ [r])) = None" by (induction rs) (auto split: option.splits)
  then show ?thesis by (simp add: summarize_def nan_sum_def Let_def)
qed


end
