(* ===== verification/Markup.thy ===== *)
theory Markup
  imports JSRegex
begin

text \<open>
  Searching elements in markup: the patterns of the sources that find a tag, the text up to a closing tag, and all
  elements of a sequence. A text is \<open>clear_of\<close> a word when no occurrence of the word starts in it, whatever follows;
  then a search for the word skips the text, and a lazy repetition up to the word takes exactly the text.
\<close>

section \<open>Texts in which a word does not start\<close>

definition clear_of :: "jsstr \<Rightarrow> jsstr \<Rightarrow> bool" where
  "clear_of w p \<longleftrightarrow> list_all (\<lambda>i. let q = drop i p; k = min (length q) (length w) in take k q \<noteq> take k w) [0..<length p]"

lemma clear_of_iff: "clear_of w p \<longleftrightarrow> (\<forall>i < length p. \<forall>rest. \<not> starts_with (drop i p @ rest) w)"
proof -
  have "(\<forall>rest. \<not> starts_with (q @ rest) w) \<longleftrightarrow> take (min (length q) (length w)) q \<noteq> take (min (length q) (length w)) w" for q
  proof -
    have "(\<exists>rest. starts_with (q @ rest) w) \<longleftrightarrow> take (min (length q) (length w)) q = take (min (length q) (length w)) w"
    proof (cases "length q \<le> length w")
      case True
      have "starts_with (q @ drop (length q) w) w" if "q = take (length q) w" using that True
        by (metis append_take_drop_id starts_with_def take_all_iff order_refl)
      moreover have "q = take (length q) w" if "starts_with (q @ rest) w" for rest
        using that True by (metis append_eq_conv_conj min.absorb1 starts_with_def take_take)
      ultimately show ?thesis using True by (auto simp: min_def)
    next
      case False
      then show ?thesis by (auto simp: starts_with_def min_def)
    qed
    then show ?thesis by blast
  qed
  then show ?thesis by (simp add: clear_of_def Let_def list_all_iff Ball_def)
qed

lemma clear_of_nil [simp]: "clear_of w []"
  by (simp add: clear_of_def)

lemma clear_of_append [intro]:
  assumes "clear_of w p" "clear_of w q"
  shows "clear_of w (p @ q)"
  unfolding clear_of_iff
proof (intro allI impI)
  fix i rest assume i: "i < length (p @ q)"
  show "\<not> starts_with (drop i (p @ q) @ rest) w"
  proof (cases "i < length p")
    case True
    with assms(1) show ?thesis by (auto simp: clear_of_iff)
  next
    case False
    then have "i - length p < length q" "drop i (p @ q) = drop (i - length p) q" using i by auto
    with assms(2) show ?thesis by (simp add: clear_of_iff)
  qed
qed

lemma clear_of_concat: "list_all (\<lambda>x. clear_of w (f x)) xs \<Longrightarrow> clear_of w (concat (map f xs))"
  by (induction xs) auto

lemma clear_of_char: "w \<noteq> [] \<Longrightarrow> hd w \<notin> set p \<Longrightarrow> clear_of w p"
  unfolding clear_of_iff by (metis (no_types, lifting) Cons_nth_drop_Suc append_Cons hd_Cons_tl in_set_dropD list.sel(1) list.set_intros(1) starts_with_iff)

lemma clear_of_step: "clear_of w (c # p) \<Longrightarrow> clear_of w p"
proof -
  assume "clear_of w (c # p)"
  then have "\<not> starts_with (drop (Suc i) (c # p) @ rest) w" if "i < length p" for i rest
    using that unfolding clear_of_iff by (metis Suc_less_eq length_Cons)
  then show ?thesis by (simp add: clear_of_iff)
qed

lemma clear_of_head: "clear_of w (c # p) \<Longrightarrow> \<not> starts_with (c # p @ rest) w"
  unfolding clear_of_iff by (metis append_Cons drop0 length_greater_0_conv list.distinct(1))

section \<open>Searching\<close>

lemma search_clear:
  "clear_of w p \<Longrightarrow> search n (RSeq (RLit w) r) i (p @ s) = search n (RSeq (RLit w) r) (i + length p) s"
proof (induction p arbitrary: i)
  case (Cons c p)
  have "rx n (RSeq (RLit w) r) (c # p @ s, []) = []" using clear_of_head [OF Cons.prems, of s] by simp
  then have "search n (RSeq (RLit w) r) i (c # p @ s) = search n (RSeq (RLit w) r) (Suc i) (p @ s)" by (simp add: search_skip)
  with Cons.IH [OF clear_of_step [OF Cons.prems]] show ?case by simp
qed simp

lemma search_clear_none:
  assumes "clear_of w p" "w \<noteq> []"
  shows "search n (RSeq (RLit w) r) i p = None"
proof -
  have "rx n (RSeq (RLit w) r) ([], []) = []" using assms(2) by (simp add: starts_with_def)
  then have "search n (RSeq (RLit w) r) (i + length p) [] = None" by (simp add: search.simps)
  with search_clear [OF assms(1), of n r i "[]"] show ?thesis by simp
qed

text \<open>The head of a sequence of matchers.\<close>

lemma rx_seq_head:
  "rx n a st = (u, us) # ms \<Longrightarrow> rx n b (u, us) = x # xs \<Longrightarrow> \<exists>ys. rx n (RSeq a b) st = x # ys"
  by simp

text \<open>A lazy repetition of any character up to a closing word takes the text up to its first occurrence.\<close>

lemma lazy_until:
  assumes "clear_of w u"
  shows "\<exists>ms. concat (map (\<lambda>(t, ds). rx n (RLit w) (t, (k, take (length s - length t) s) # ds))
      (rep (rx n (RCls True [])) [] False 0 None (u @ w @ v, cs))) =
    (v, (k, take (length s - length (w @ v)) s) # cs) # ms"
  using assms
proof (induction u)
  case Nil
  show ?case by (subst rep.simps) simp
next
  case (Cons c u)
  have "\<not> starts_with (c # u @ w @ v) w" using clear_of_head [OF Cons.prems] by simp
  with Cons.IH [OF clear_of_step [OF Cons.prems]] show ?case by (subst rep.simps) (simp add: in_cls_def clear_caps_def)
qed

lemma rx_seq_grp:
  "rx n (RSeq (RGrp k a) b) (s, cs) =
     concat (map (\<lambda>(t, ds). rx n b (t, (k, take (length s - length t) s) # ds)) (rx n a (s, cs)))"
  by (simp add: o_def case_prod_unfold)

lemma rx_any_lazy: "rx n (RRep (RCls True []) 0 None False) = rep (rx n (RCls True [])) [] False 0 None"
  by simp

lemma rx_lazy_block:
  assumes "clear_of w u"
  shows "\<exists>ms. rx n (RSeq (RGrp k (RRep (RCls True []) 0 None False)) (RLit w)) (u @ w @ v, cs) = (v, (k, u) # cs) # ms"
proof -
  have "take (length (u @ w @ v) - length (w @ v)) (u @ w @ v) = u" by simp
  with lazy_until [OF assms, of n k "u @ w @ v" v cs] show ?thesis unfolding rx_seq_grp rx_any_lazy by metis
qed

text \<open>The rest of an opening tag.\<close>

abbreviation rtag_rest :: "regex \<Rightarrow> regex" where
  "rtag_rest r \<equiv> RSeq (rstar (RCls True [(0x3E, 0x3E)])) (RSeq (RLit [0x3E]) r)"

lemma rx_tag_rest:
  assumes "0x3E \<notin> set a" "rx n r (s, cs) = x # xs"
  shows "\<exists>ys. rx n (rtag_rest r) (a @ 0x3E # s, cs) = x # ys"
proof -
  have "\<forall>c \<in> set a. in_cls True [(0x3E, 0x3E)] c" using assms(1) by (auto simp: in_cls_def)
  then obtain ms where "rx n (rstar (RCls True [(0x3E, 0x3E)])) (a @ 0x3E # s, cs) = (0x3E # s, cs) # ms"
    using rx_run [of a True "[(0x3E, 0x3E)]" "0x3E # s" 0 n cs] by (auto simp: in_cls_def)
  moreover have "rx n (RSeq (RLit [0x3E]) r) (0x3E # s, cs) = x # xs" using assms(2) by (simp add: starts_with_def)
  ultimately show ?thesis by (rule rx_seq_head)
qed

lemma rx_lit_head: "rx n r (s, cs) = x # xs \<Longrightarrow> rx n (RSeq (RLit w) r) (w @ s, cs) = x # xs"
  by simp

section \<open>The patterns for elements\<close>

abbreviation any_lazy :: regex where "any_lazy \<equiv> RRep (RCls True []) 0 None False"
abbreviation no_lt :: regex where "no_lt \<equiv> rplus (RCls True [(0x3C, 0x3C)])"

text \<open>\<open><tag>([^<]+)</tag>\<close>, \<open><tag[^>]*>([^<]+)</tag>\<close>, \<open><tag>([\s\S]*?)</tag>\<close> and \<open><tag[^>]*>([\s\S]*?)</tag>\<close>.\<close>

definition open_tag :: "jsstr \<Rightarrow> jsstr" where "open_tag tag = (str ''<'') @ tag @ (str ''>'')"
definition close_tag :: "jsstr \<Rightarrow> jsstr" where "close_tag tag = (str ''</'') @ tag @ (str ''>'')"

definition text_element :: "jsstr \<Rightarrow> regex" where
  "text_element tag = RSeq (RLit (open_tag tag)) (RSeq (RGrp 1 no_lt) (RLit (close_tag tag)))"

definition attr_text_element :: "jsstr \<Rightarrow> regex" where
  "attr_text_element tag = RSeq (RLit ((str ''<'') @ tag)) (rtag_rest (RSeq (RGrp 1 no_lt) (RLit (close_tag tag))))"

definition block_element :: "jsstr \<Rightarrow> regex" where
  "block_element tag = RSeq (RLit (open_tag tag)) (RSeq (RGrp 1 any_lazy) (RLit (close_tag tag)))"

definition attr_block_element :: "jsstr \<Rightarrow> regex" where
  "attr_block_element tag = RSeq (RLit ((str ''<'') @ tag)) (rtag_rest (RSeq (RGrp 1 any_lazy) (RLit (close_tag tag))))"

lemma rx_text_block:
  assumes "0x3C \<notin> set u" "u \<noteq> []"
  shows "\<exists>ms. rx n (RSeq (RGrp k no_lt) (RLit (close_tag tag))) (u @ close_tag tag @ v, cs) = (v, (k, u) # cs) # ms"
proof -
  have "\<forall>c \<in> set u. in_cls True [(0x3C, 0x3C)] c" using assms(1) by (auto simp: in_cls_def)
  moreover have "\<not> in_cls True [(0x3C, 0x3C)] (hd (close_tag tag @ v))" "close_tag tag \<noteq> []" by (auto simp: in_cls_def close_tag_def)
  moreover have "Suc 0 \<le> length u" using assms(2) by (cases u) auto
  ultimately obtain ms where "rx n no_lt (u @ close_tag tag @ v, cs) = (close_tag tag @ v, cs) # ms"
    using rx_run [of u True "[(0x3C, 0x3C)]" "close_tag tag @ v" "Suc 0" n cs] by auto
  then have "\<exists>zs. rx n (RGrp k no_lt) (u @ close_tag tag @ v, cs) = (close_tag tag @ v, (k, u) # cs) # zs" by simp
  then show ?thesis using rx_seq_head [of n _ _ "close_tag tag @ v" "(k, u) # cs" _ "RLit (close_tag tag)" "(v, (k, u) # cs)" "[]"]
    by fastforce
qed

text \<open>A match that starts after a gap and takes a whole element.\<close>

lemma search_element:
  assumes "clear_of w gap" "\<exists>ms. rx n r (body @ v, []) = (v, cs) # ms"
  shows "search n (RSeq (RLit w) r) i (gap @ w @ body @ v) =
    Some \<lparr>m_index = i + length gap, m_text = w @ body, m_caps = cs\<rparr>"
proof -
  obtain ms where "rx n (RSeq (RLit w) r) (w @ body @ v, []) = (v, cs) # ms" using assms(2) rx_lit_head by blast
  from search_here [OF this] have "search n (RSeq (RLit w) r) (i + length gap) (w @ body @ v) =
      Some \<lparr>m_index = i + length gap, m_text = take (length ((w @ body) @ v) - length v) ((w @ body) @ v), m_caps = cs\<rparr>"
    by simp
  moreover have "take (length ((w @ body) @ v) - length v) ((w @ body) @ v) = w @ body" by simp
  ultimately have "search n (RSeq (RLit w) r) (i + length gap) (w @ body @ v) =
      Some \<lparr>m_index = i + length gap, m_text = w @ body, m_caps = cs\<rparr>" by metis
  then show ?thesis using search_clear [OF assms(1)] by metis
qed

lemma tag_heads: "close_tag tag \<noteq> []" "open_tag tag \<noteq> []" "(str ''<'') @ tag \<noteq> []"
  by (simp_all add: close_tag_def open_tag_def)

lemma search_text_element:
  assumes "clear_of (open_tag tag) gap" "0x3C \<notin> set u" "u \<noteq> []"
  shows "search n (text_element tag) i (gap @ open_tag tag @ (u @ close_tag tag) @ v) =
    Some \<lparr>m_index = i + length gap, m_text = open_tag tag @ u @ close_tag tag, m_caps = [(1, u)]\<rparr>"
  unfolding text_element_def using rx_text_block [OF assms(2,3), of n 1 tag v "[]"]
  by (intro search_element [OF assms(1)]) simp

lemma search_block_element:
  assumes "clear_of (open_tag tag) gap" "clear_of (close_tag tag) u"
  shows "search n (block_element tag) i (gap @ open_tag tag @ (u @ close_tag tag) @ v) =
    Some \<lparr>m_index = i + length gap, m_text = open_tag tag @ u @ close_tag tag, m_caps = [(1, u)]\<rparr>"
  unfolding block_element_def using rx_lazy_block [OF assms(2), of n 1 v "[]"]
  by (intro search_element [OF assms(1)]) simp

text \<open>Elements whose opening tag has attributes \<open>a\<close>.\<close>

definition attr_element :: "jsstr \<Rightarrow> jsstr \<Rightarrow> jsstr \<Rightarrow> jsstr" where
  "attr_element tag a u = ((str ''<'') @ tag) @ a @ (str ''>'') @ u @ close_tag tag"

lemma attr_nonempty: "attr_element tag a u \<noteq> []"
  by (simp add: attr_element_def)

lemma search_attr_block:
  assumes "clear_of ((str ''<'') @ tag) gap" "0x3E \<notin> set a" "clear_of (close_tag tag) u"
  shows "search n (attr_block_element tag) i (gap @ attr_element tag a u @ v) =
    Some \<lparr>m_index = i + length gap, m_text = attr_element tag a u, m_caps = [(1, u)]\<rparr>"
proof -
  obtain ms where "rx n (RSeq (RGrp 1 any_lazy) (RLit (close_tag tag))) (u @ close_tag tag @ v, []) = (v, [(1, u)]) # ms"
    using rx_lazy_block [OF assms(3), of n 1 v "[]"] by blast
  from rx_tag_rest [OF assms(2) this]
  have "\<exists>ms. rx n (rtag_rest (RSeq (RGrp 1 any_lazy) (RLit (close_tag tag)))) ((a @ (str ''>'') @ u @ close_tag tag) @ v, []) = (v, [(1, u)]) # ms"
    by simp
  from search_element [OF assms(1) this, of i] show ?thesis by (simp add: attr_block_element_def attr_element_def)
qed

lemma search_attr_text:
  assumes "clear_of ((str ''<'') @ tag) gap" "0x3E \<notin> set a" "0x3C \<notin> set u" "u \<noteq> []"
  shows "search n (attr_text_element tag) i (gap @ attr_element tag a u @ v) =
    Some \<lparr>m_index = i + length gap, m_text = attr_element tag a u, m_caps = [(1, u)]\<rparr>"
proof -
  obtain ms where "rx n (RSeq (RGrp 1 no_lt) (RLit (close_tag tag))) (u @ close_tag tag @ v, []) = (v, [(1, u)]) # ms"
    using rx_text_block [OF assms(3,4), of n 1 tag v "[]"] by blast
  from rx_tag_rest [OF assms(2) this]
  have "\<exists>ms. rx n (rtag_rest (RSeq (RGrp 1 no_lt) (RLit (close_tag tag)))) ((a @ (str ''>'') @ u @ close_tag tag) @ v, []) = (v, [(1, u)]) # ms"
    by simp
  from search_element [OF assms(1) this, of i] show ?thesis by (simp add: attr_text_element_def attr_element_def)
qed

section \<open>Sequences of elements\<close>

text \<open>The elements of a sequence, each after a gap, are exactly the matches.\<close>

definition finds :: "regex \<Rightarrow> jsstr \<Rightarrow> jsstr \<Rightarrow> caps \<Rightarrow> bool" where
  "finds r gap el cs \<longleftrightarrow> el \<noteq> [] \<and> (\<forall>n i v. search n r i (gap @ el @ v) = Some \<lparr>m_index = i + length gap, m_text = el, m_caps = cs\<rparr>)"

lemma exec_from_step:
  "li \<le> length s \<Longrightarrow> search (length s) r li (drop li s) = Some m \<Longrightarrow> m_text m \<noteq> [] \<Longrightarrow> li \<le> m_index m \<Longrightarrow>
     exec_from r s li = m # exec_from r s (m_end m)"
proof -
  assume a: "li \<le> length s" "search (length s) r li (drop li s) = Some m" "m_text m \<noteq> []" "li \<le> m_index m"
  then have "li < m_end m" by (cases "m_text m") (auto simp: m_end_def)
  with a show ?thesis by (subst exec_from.simps) simp
qed

lemma exec_from_elements:
  assumes "list_all (\<lambda>x. finds r (gap x) (el x) (cs x)) xs" "\<And>n i. search n r i tail = None"
  shows "map m_caps (exec_from r (pre @ concat (map (\<lambda>x. gap x @ el x) xs) @ tail) (length pre)) = map cs xs"
  using assms(1)
proof (induction xs arbitrary: pre)
  case Nil
  then show ?case by (subst exec_from.simps) (simp add: assms(2))
next
  case (Cons x xs)
  let ?rest = "concat (map (\<lambda>x. gap x @ el x) xs) @ tail"
    and ?m = "\<lparr>m_index = length pre + length (gap x), m_text = el x, m_caps = cs x\<rparr>"
  define s where "s = pre @ gap x @ el x @ ?rest"
  have "search (length s) r (length pre) (drop (length pre) s) = Some ?m" "el x \<noteq> []"
    using Cons.prems by (auto simp: finds_def s_def)
  then have "exec_from r s (length pre) = ?m # exec_from r s (m_end ?m)"
    by (intro exec_from_step) (simp_all add: s_def)
  moreover have "map m_caps (exec_from r ((pre @ gap x @ el x) @ ?rest) (length (pre @ gap x @ el x))) = map cs xs"
    using Cons.prems by (intro Cons.IH) simp
  ultimately show ?case by (simp add: s_def m_end_def add.assoc)
qed

text \<open>The elements of a list, each after a gap, and before a tail without any.\<close>

lemma exec_all_elements:
  assumes "list_all (\<lambda>x. finds r (gap x) (el x) (cs x)) xs" "\<And>n i. search n r i tail = None"
  shows "map m_caps (exec_all r (concat (map (\<lambda>x. gap x @ el x) xs) @ tail)) = map cs xs"
  using exec_from_elements [OF assms, of "[]"] by (simp add: exec_all_def)

text \<open>The elements of a list after one gap.\<close>

lemma exec_from_skip:
  assumes "\<And>n i s. search n r i (gap @ s) = search n r (i + length gap) s" "0 < min_len r"
  shows "exec_from r (gap @ s) 0 = exec_from r (gap @ s) (length gap)"
proof -
  let ?n = "length (gap @ s)"
  have eq: "search ?n r 0 (drop 0 (gap @ s)) = search ?n r (length gap) (drop (length gap) (gap @ s))" using assms(1) [of ?n 0 s] by simp
  show ?thesis
  proof (cases "search ?n r (length gap) (drop (length gap) (gap @ s))")
    case None
    with eq show ?thesis by (subst (1 2) exec_from.simps) simp
  next
    case (Some m)
    from search_sound [OF Some] assms(2) have "m_text m \<noteq> []" "length gap \<le> m_index m" by auto
    with Some eq exec_from_step [of 0 "gap @ s" r m] exec_from_step [of "length gap" "gap @ s" r m] show ?thesis by simp
  qed
qed

lemma exec_all_after:
  assumes "list_all (\<lambda>x. finds (RSeq (RLit w) r) [] (el x) (cs x)) xs" "clear_of w gap" "w \<noteq> []"
  shows "map m_caps (exec_all (RSeq (RLit w) r) (gap @ concat (map el xs))) = map cs xs"
proof -
  let ?r = "RSeq (RLit w) r"
  have "exec_from ?r (gap @ concat (map el xs)) 0 = exec_from ?r (gap @ concat (map el xs)) (length gap)"
    using assms(2,3) by (intro exec_from_skip search_clear) auto
  moreover have "search n ?r i [] = None" for n i using assms(3) by (intro search_clear_none) auto
  ultimately show ?thesis using exec_from_elements [of ?r "\<lambda>_. []" el cs xs "[]" gap] assms(1) by (simp add: exec_all_def)
qed

text \<open>What the first group of every match holds.\<close>

lemma map_grp: "map m_caps ms = map (\<lambda>x. [(k, f x)]) xs \<Longrightarrow> k \<noteq> 0 \<Longrightarrow> map (\<lambda>m. grp m k) ms = map f xs"
proof (induction ms arbitrary: xs)
  case (Cons m ms)
  then obtain x ys where "xs = x # ys" by (cases xs) auto
  with Cons show ?case by (simp add: grp_def cap_def)
qed simp

lemma search_rx_none: "(\<And>t. suffix t s \<Longrightarrow> rx n r (t, []) = []) \<Longrightarrow> search n r i s = None"
proof (induction s arbitrary: i)
  case (Cons c s)
  have "search n r (Suc i) s = None" using Cons.prems by (intro Cons.IH) (auto simp: suffix_Cons)
  moreover have "rx n r (c # s, []) = []" using Cons.prems by simp
  ultimately show ?case by (simp add: search_skip)
qed (simp add: search.simps)

text \<open>Numbered elements: \<open><tag\s+Num="([^"]+)"[^>]*>([\s\S]*?)</tag>\<close>. A gap may contain the tag when no white space
  follows it.\<close>

definition numbered_open :: "jsstr \<Rightarrow> regex \<Rightarrow> regex" where
  "numbered_open tag r =
     RSeq (RLit ((str ''<'') @ tag)) (RSeq (rplus (RCls False rng_ws)) (RSeq (RLit (str ''Num='' @ [0x22]))
       (RSeq (RGrp 1 (rplus (RCls True [(0x22, 0x22)]))) (RSeq (RLit [0x22]) (rtag_rest r)))))"

definition numbered_block :: "jsstr \<Rightarrow> regex" where
  "numbered_block tag = numbered_open tag (RSeq (RGrp 2 any_lazy) (RLit (close_tag tag)))"

definition numbered_element :: "jsstr \<Rightarrow> jsstr \<Rightarrow> jsstr \<Rightarrow> jsstr \<Rightarrow> jsstr" where
  "numbered_element tag num a u = ((str ''<'') @ tag) @ (str '' '') @ (str ''Num='' @ [0x22]) @ num @ [0x22] @ a @ (str ''>'') @ u @ close_tag tag"

definition gap_ok :: "jsstr \<Rightarrow> jsstr \<Rightarrow> bool" where
  "gap_ok tag gap \<longleftrightarrow> (\<forall>c. is_ws c \<longrightarrow> clear_of ((str ''<'') @ tag @ [c]) gap)"

lemma in_ws: "in_cls False rng_ws c \<longleftrightarrow> is_ws c"
proof -
  have point: "k \<le> c \<and> c \<le> k \<longleftrightarrow> c = k" for k :: int by arith
  have two: "0x2028 \<le> c \<and> c \<le> 0x2029 \<longleftrightarrow> c = 0x2028 \<or> c = 0x2029" by arith
  show ?thesis unfolding in_cls_def is_ws_def by (simp add: point two)
qed

lemma rx_plus_cls: "rx n (rplus (RCls neg rs)) = rep (rx n (RCls neg rs)) [] True (Suc 0) None"
  by simp

lemma numbered_fails:
  assumes "\<And>c. is_ws c \<Longrightarrow> \<not> starts_with s ((str ''<'') @ tag @ [c])"
  shows "rx n (numbered_open tag r) (s, []) = []"
proof (cases "starts_with s ((str ''<'') @ tag)")
  case True
  then obtain t where s: "s = ((str ''<'') @ tag) @ t" by (auto simp: starts_with_iff)
  have "rx n (rplus (RCls False rng_ws)) (t, []) = []"
  proof (cases t)
    case (Cons c t')
    then have "\<not> in_cls False rng_ws c" using assms [of c] s by (auto simp: starts_with_iff in_ws)
    then show ?thesis unfolding rx_plus_cls Cons by (rule rep_cls_fail)
  qed (simp only: rx_plus_cls rep_cls_nil)
  with s show ?thesis by (simp add: numbered_open_def del: rx.simps(6))
next
  case False
  then show ?thesis by (simp add: numbered_open_def)
qed

lemma gap_ok_fails:
  assumes "gap_ok tag p" "i < length p"
  shows "rx n (numbered_open tag r) (drop i p @ s, []) = []"
  using assms by (intro numbered_fails) (auto simp: gap_ok_def clear_of_iff)

lemma search_gap:
  "gap_ok tag p \<Longrightarrow> search n (numbered_open tag r) i (p @ s) = search n (numbered_open tag r) (i + length p) s"
proof (induction p arbitrary: i)
  case (Cons c p)
  have "rx n (numbered_open tag r) (c # p @ s, []) = []" using gap_ok_fails [OF Cons.prems, of 0 n r s] by simp
  then have "search n (numbered_open tag r) i (c # p @ s) = search n (numbered_open tag r) (Suc i) (p @ s)" by (simp add: search_skip)
  moreover have "gap_ok tag p" using Cons.prems by (auto simp: gap_ok_def intro: clear_of_step)
  ultimately show ?case using Cons.IH by simp
qed simp

lemma search_gap_none:
  assumes "gap_ok tag p"
  shows "search n (numbered_open tag r) i p = None"
proof -
  have "rx n (numbered_open tag r) ([], []) = []" by (rule numbered_fails) (simp add: starts_with_iff)
  then have "search n (numbered_open tag r) (i + length p) [] = None" by (simp add: search.simps)
  with search_gap [OF assms, of n r i "[]"] show ?thesis by simp
qed

lemma rx_ws_one: "\<not> is_ws c \<Longrightarrow> \<exists>ms. rx n (rplus (RCls False rng_ws)) (0x20 # c # s, cs) = (c # s, cs) # ms"
  using rx_run [of "[0x20]" False rng_ws "c # s" 1 n cs] by (simp add: in_ws is_ws_def)

lemma rx_quoted:
  assumes "0x22 \<notin> set num" "num \<noteq> []"
  shows "\<exists>ms. rx n (RGrp k (rplus (RCls True [(0x22, 0x22)]))) (num @ 0x22 # s, cs) = (0x22 # s, (k, num) # cs) # ms"
proof -
  have "\<forall>c \<in> set num. in_cls True [(0x22, 0x22)] c" using assms(1) by (auto simp: in_cls_def)
  moreover have "Suc 0 \<le> length num" using assms(2) by (cases num) auto
  ultimately obtain ms where "rx n (rplus (RCls True [(0x22, 0x22)])) (num @ 0x22 # s, cs) = (0x22 # s, cs) # ms"
    using rx_run [of num True "[(0x22, 0x22)]" "0x22 # s" "Suc 0" n cs] by (auto simp: in_cls_def)
  then show ?thesis by simp
qed

lemma search_numbered_block:
  assumes "gap_ok tag gap" "0x22 \<notin> set num" "num \<noteq> []" "0x3E \<notin> set a" "clear_of (close_tag tag) u"
  shows "search n (numbered_block tag) i (gap @ numbered_element tag num a u @ v) =
    Some \<lparr>m_index = i + length gap, m_text = numbered_element tag num a u, m_caps = [(2, u), (1, num)]\<rparr>"
proof -
  let ?block = "RSeq (RGrp 2 any_lazy) (RLit (close_tag tag))" and ?q = "RSeq (RLit [0x22]) (rtag_rest (RSeq (RGrp 2 any_lazy) (RLit (close_tag tag))))"
  obtain m1 where "rx n ?block (u @ close_tag tag @ v, [(1, num)]) = (v, [(2, u), (1, num)]) # m1"
    using rx_lazy_block [OF assms(5)] by blast
  from rx_tag_rest [OF assms(4) this] obtain m2 where
    "rx n (rtag_rest ?block) (a @ 0x3E # u @ close_tag tag @ v, [(1, num)]) = (v, [(2, u), (1, num)]) # m2" by blast
  from rx_lit_head [OF this, of "[0x22]"] have
    q: "rx n ?q (0x22 # a @ 0x3E # u @ close_tag tag @ v, [(1, num)]) = (v, [(2, u), (1, num)]) # m2" by simp
  obtain m3 where "rx n (RGrp 1 (rplus (RCls True [(0x22, 0x22)]))) (num @ 0x22 # a @ 0x3E # u @ close_tag tag @ v, []) =
      (0x22 # a @ 0x3E # u @ close_tag tag @ v, [(1, num)]) # m3" using rx_quoted [OF assms(2,3)] by blast
  from rx_seq_head [OF this q] obtain m4 where
    "rx n (RSeq (RGrp 1 (rplus (RCls True [(0x22, 0x22)]))) ?q) (num @ 0x22 # a @ 0x3E # u @ close_tag tag @ v, []) =
      (v, [(2, u), (1, num)]) # m4" by blast
  from rx_lit_head [OF this, of "str ''Num='' @ [0x22]"] have
    l: "rx n (RSeq (RLit (str ''Num='' @ [0x22])) (RSeq (RGrp 1 (rplus (RCls True [(0x22, 0x22)]))) ?q))
      (0x4E # str ''um='' @ [0x22] @ num @ 0x22 # a @ 0x3E # u @ close_tag tag @ v, []) = (v, [(2, u), (1, num)]) # m4" by simp
  obtain m5 where "rx n (rplus (RCls False rng_ws)) (0x20 # 0x4E # str ''um='' @ [0x22] @ num @ 0x22 # a @ 0x3E # u @ close_tag tag @ v, []) =
      (0x4E # str ''um='' @ [0x22] @ num @ 0x22 # a @ 0x3E # u @ close_tag tag @ v, []) # m5"
    using rx_ws_one [of "0x4E"] by (auto simp: is_ws_def)
  from rx_seq_head [OF this l] have "\<exists>ms. rx n (RSeq (rplus (RCls False rng_ws)) (RSeq (RLit (str ''Num='' @ [0x22])) (RSeq (RGrp 1 (rplus (RCls True [(0x22, 0x22)]))) ?q)))
      (((str '' '') @ (str ''Num='' @ [0x22]) @ num @ [0x22] @ a @ (str ''>'') @ u @ close_tag tag) @ v, []) = (v, [(2, u), (1, num)]) # ms" by simp
  from search_element [OF clear_of_nil this, of "(str ''<'') @ tag" "i + length gap"]
  show ?thesis unfolding numbered_block_def search_gap [OF assms(1)] by (simp add: numbered_open_def numbered_element_def)
qed

end
