(* ===== verification/LawXML.thy ===== *)
theory LawXML
  imports Markup
begin

text \<open>
  \<^verbatim>\<open>src/lib/xml-parser.ts\<close>: the parser of the law documents, made of regular expressions. Articles with their
  paragraphs, items and sub-items; parts, chapters and sections with the numbers of what they contain. The patterns
  for one kind of element differ only in the tag and are built from it. Two things are arguments: the
  date, and the compiler of the regular expression that \<open>extractStructure\<close> makes from two numbers
  of the document without escaping them (\<open>None\<close> is the exception of an invalid pattern).
\<close>

section \<open>Data\<close>

record SubSubItem =
  ss_title :: jsstr
  ss_content :: jsstr

record SubItem =
  si_title :: jsstr
  si_content :: jsstr
  si_subsubitems :: "SubSubItem list"

record Item =
  it_title :: jsstr
  it_content :: jsstr
  it_subitems :: "SubItem list"

record Paragraph =
  pa_content :: jsstr
  pa_items :: "Item list"

record LawArticle =
  la_articleNum :: jsstr
  la_articleTitle :: "jsstr option"
  la_paragraphs :: "Paragraph list"

record Part =
  pt_num :: jsstr
  pt_title :: jsstr
  pt_chapters :: "jsstr list"

record Chapter =
  ch_num :: jsstr
  ch_title :: jsstr
  ch_sections :: "jsstr list"
  ch_articles :: "jsstr list"

record Section =
  sc_num :: jsstr
  sc_title :: jsstr
  sc_articles :: "jsstr list"

record LawStructure =
  ls_parts :: "Part list"
  ls_chapters :: "Chapter list"
  ls_sections :: "Section list"

record LawData =
  ld_lawId :: jsstr
  ld_lawTitle :: jsstr
  ld_lawNum :: jsstr
  ld_lawType :: jsstr
  ld_articles :: "LawArticle list"
  ld_structure :: LawStructure
  ld_promulgateDate :: int

section \<open>Articles\<close>

definition title_text :: "jsstr \<Rightarrow> jsstr \<Rightarrow> jsstr" where
  "title_text tag content = (case rx_match (text_element tag) content of None \<Rightarrow> [] | Some m \<Rightarrow> grp m 1)"

definition sentence_text :: "jsstr \<Rightarrow> jsstr \<Rightarrow> jsstr" where
  "sentence_text tag content =
     (case rx_match (block_element tag) content of
        None \<Rightarrow> []
      | Some m \<Rightarrow> join [0xA] (map (\<lambda>s. grp s 1) (exec_all (attr_text_element (str ''Sentence'')) (grp m 1))))"

definition extractSubsubitem :: "jsstr \<Rightarrow> SubSubItem" where
  "extractSubsubitem subsubitemContent =
     \<lparr>ss_title = title_text (str ''Subitem2Title'') subsubitemContent, ss_content = sentence_text (str ''Subitem2Sentence'') subsubitemContent\<rparr>"

definition extractSubitem :: "jsstr \<Rightarrow> SubItem" where
  "extractSubitem subitemContent =
     \<lparr>si_title = title_text (str ''Subitem1Title'') subitemContent, si_content = sentence_text (str ''Subitem1Sentence'') subitemContent,
      si_subsubitems = filter (\<lambda>s. ss_title s \<noteq> [] \<or> ss_content s \<noteq> [])
        (map (\<lambda>m. extractSubsubitem (grp m 1)) (exec_all (attr_block_element (str ''Subitem2'')) subitemContent))\<rparr>"

definition extractItem :: "jsstr \<Rightarrow> Item" where
  "extractItem itemContent =
     \<lparr>it_title = title_text (str ''ItemTitle'') itemContent, it_content = sentence_text (str ''ItemSentence'') itemContent,
      it_subitems = filter (\<lambda>s. si_title s \<noteq> [] \<or> si_content s \<noteq> [])
        (map (\<lambda>m. extractSubitem (grp m 1)) (exec_all (attr_block_element (str ''Subitem1'')) itemContent))\<rparr>"

definition extractParagraphs :: "jsstr \<Rightarrow> Paragraph list" where
  "extractParagraphs articleContent =
     filter (\<lambda>p. pa_content p \<noteq> [] \<or> pa_items p \<noteq> [])
       (map (\<lambda>m. let paragraphContent = grp m 1
          in \<lparr>pa_content = sentence_text (str ''ParagraphSentence'') paragraphContent,
              pa_items = map (\<lambda>i. extractItem (grp i 1)) (exec_all (attr_block_element (str ''Item'')) paragraphContent)\<rparr>)
         (exec_all (attr_block_element (str ''Paragraph'')) articleContent))"

definition extractArticles :: "jsstr \<Rightarrow> LawArticle list" where
  "extractArticles xmlContent =
     map (\<lambda>m. let articleContent = grp m 2
       in \<lparr>la_articleNum = grp m 1,
           la_articleTitle = map_option (\<lambda>c. grp c 1) (rx_match (text_element (str ''ArticleCaption'')) articleContent),
           la_paragraphs = extractParagraphs articleContent\<rparr>)
       (exec_all (numbered_block (str ''Article'')) xmlContent)"

section \<open>Structure\<close>

text \<open>The numbers of all opening tags of a kind.\<close>

definition tag_numbers :: "jsstr \<Rightarrow> jsstr \<Rightarrow> jsstr list" where
  "tag_numbers tag content = map (\<lambda>m. grp m 1) (exec_all (numbered_open tag REps) content)"

definition section_source :: "jsstr \<Rightarrow> jsstr \<Rightarrow> jsstr" where
  "section_source secNum articleNum =
     (str ''<Section[^>]*Num='') @ [0x22] @ secNum @ [0x22] @ (str ''[^>]*>['') @ [0x5C, 0x73, 0x5C, 0x53] @ (str '']*?<Article[^>]*Num='') @
     [0x22] @ articleNum @ [0x22] @ (str ''[^>]*>'')"

fun isInSection :: "(jsstr \<Rightarrow> regex option) \<Rightarrow> jsstr \<Rightarrow> jsstr \<Rightarrow> jsstr list \<Rightarrow> bool option" where
  "isInSection compile content articleNum [] = Some False"
| "isInSection compile content articleNum (s # ss) =
     (case compile (section_source s articleNum) of
        None \<Rightarrow> None
      | Some r \<Rightarrow> if rx_test r content then Some True else isInSection compile content articleNum ss)"

fun direct_articles :: "(jsstr \<Rightarrow> regex option) \<Rightarrow> jsstr \<Rightarrow> jsstr list \<Rightarrow> jsstr list \<Rightarrow> jsstr list option" where
  "direct_articles compile content sections [] = Some []"
| "direct_articles compile content sections (a # as) =
     Option.bind (isInSection compile content a sections) (\<lambda>inside.
       map_option (\<lambda>rest. if inside then rest else a # rest) (direct_articles compile content sections as))"

definition extract_part :: "rmatch \<Rightarrow> Part" where
  "extract_part m = \<lparr>pt_num = grp m 1, pt_title = title_text (str ''PartTitle'') (grp m 2), pt_chapters = tag_numbers (str ''Chapter'') (grp m 2)\<rparr>"

definition extract_chapter :: "(jsstr \<Rightarrow> regex option) \<Rightarrow> rmatch \<Rightarrow> Chapter option" where
  "extract_chapter compile m =
     (let content = grp m 2; sections = tag_numbers (str ''Section'') content
      in map_option (\<lambda>articles. \<lparr>ch_num = grp m 1, ch_title = title_text (str ''ChapterTitle'') content, ch_sections = sections,
             ch_articles = articles\<rparr>)
           (direct_articles compile content sections (tag_numbers (str ''Article'') content)))"

definition extract_section :: "rmatch \<Rightarrow> Section" where
  "extract_section m = \<lparr>sc_num = grp m 1, sc_title = title_text (str ''SectionTitle'') (grp m 2), sc_articles = tag_numbers (str ''Article'') (grp m 2)\<rparr>"

definition extractStructure :: "(jsstr \<Rightarrow> regex option) \<Rightarrow> jsstr \<Rightarrow> LawStructure option" where
  "extractStructure compile xmlContent =
     map_option (\<lambda>chapters.
         \<lparr>ls_parts = map extract_part (exec_all (numbered_block (str ''Part'')) xmlContent), ls_chapters = chapters,
          ls_sections = map extract_section (exec_all (numbered_block (str ''Section'')) xmlContent)\<rparr>)
       (those (map (extract_chapter compile) (exec_all (numbered_block (str ''Chapter'')) xmlContent)))"

text \<open>\<open>replace\<close> with a string: the first occurrence.\<close>

definition replace_str :: "jsstr \<Rightarrow> jsstr \<Rightarrow> jsstr \<Rightarrow> jsstr" where
  "replace_str s w r = (case index_of s w of None \<Rightarrow> s | Some i \<Rightarrow> take i s @ r @ drop (i + length w) s)"

definition parseLawXML :: "(jsstr \<Rightarrow> regex option) \<Rightarrow> int \<Rightarrow> jsstr \<Rightarrow> jsstr \<Rightarrow> LawData option" where
  "parseLawXML compile now xmlContent filename =
     map_option (\<lambda>structure.
         \<lparr>ld_lawId = replace_str filename (str ''.xml'') [],
          ld_lawTitle = (case rx_match (attr_text_element (str ''LawTitle'')) xmlContent of None \<Rightarrow> [0x4E0D, 0x660E, h_na, c_hou, c_rei_order] | Some m \<Rightarrow> grp m 1),
          ld_lawNum = title_text (str ''LawNum'') xmlContent, ld_lawType = (str ''Act''), ld_articles = extractArticles xmlContent,
          ld_structure = structure, ld_promulgateDate = now\<rparr>)
       (extractStructure compile xmlContent)"

section \<open>Documents\<close>

text \<open>
  The documents of the e-Gov schema, as far as the parser reads them, and how they are written: titles and sentences
  are character data, attributes are kept as written, numbers are quoted.
\<close>

record doc2 =
  d2_attr :: jsstr
  d2_title :: jsstr
  d2_sentences :: "jsstr list"

record doc1 =
  d1_attr :: jsstr
  d1_title :: jsstr
  d1_sentences :: "jsstr list"
  d1_subs :: "doc2 list"

record doc_item =
  di_attr :: jsstr
  di_title :: jsstr
  di_sentences :: "jsstr list"
  di_subs :: "doc1 list"

record doc_paragraph =
  dp_attr :: jsstr
  dp_sentences :: "jsstr list"
  dp_items :: "doc_item list"

record doc_article =
  da_num :: jsstr
  da_attr :: jsstr
  da_caption :: "jsstr option"
  da_title :: jsstr
  da_paragraphs :: "doc_paragraph list"

definition element :: "jsstr \<Rightarrow> jsstr \<Rightarrow> jsstr" where
  "element tag u = open_tag tag @ u @ close_tag tag"

definition print_sentences :: "jsstr list \<Rightarrow> jsstr" where
  "print_sentences ss = concat (map (attr_element (str ''Sentence'') []) ss)"

definition print_head :: "jsstr \<Rightarrow> jsstr \<Rightarrow> jsstr list \<Rightarrow> jsstr" where
  "print_head tag title ss = element (tag @ (str ''Title'')) title @ element (tag @ (str ''Sentence'')) (print_sentences ss)"

definition content2 :: "doc2 \<Rightarrow> jsstr" where
  "content2 d = print_head (str ''Subitem2'') (d2_title d) (d2_sentences d)"

definition print2 :: "doc2 \<Rightarrow> jsstr" where
  "print2 d = attr_element (str ''Subitem2'') (d2_attr d) (content2 d)"

definition content1 :: "doc1 \<Rightarrow> jsstr" where
  "content1 d = print_head (str ''Subitem1'') (d1_title d) (d1_sentences d) @ concat (map print2 (d1_subs d))"

definition print1 :: "doc1 \<Rightarrow> jsstr" where
  "print1 d = attr_element (str ''Subitem1'') (d1_attr d) (content1 d)"

definition item_content :: "doc_item \<Rightarrow> jsstr" where
  "item_content d = print_head (str ''Item'') (di_title d) (di_sentences d) @ concat (map print1 (di_subs d))"

definition print_item :: "doc_item \<Rightarrow> jsstr" where
  "print_item d = attr_element (str ''Item'') (di_attr d) (item_content d)"

definition paragraph_content :: "doc_paragraph \<Rightarrow> jsstr" where
  "paragraph_content d = element (str ''ParagraphSentence'') (print_sentences (dp_sentences d)) @ concat (map print_item (dp_items d))"

definition print_paragraph :: "doc_paragraph \<Rightarrow> jsstr" where
  "print_paragraph d = attr_element (str ''Paragraph'') (dp_attr d) (paragraph_content d)"

definition article_head :: "doc_article \<Rightarrow> jsstr" where
  "article_head d = (case da_caption d of None \<Rightarrow> [] | Some c \<Rightarrow> element (str ''ArticleCaption'') c) @ element (str ''ArticleTitle'') (da_title d)"

definition article_content :: "doc_article \<Rightarrow> jsstr" where
  "article_content d = article_head d @ concat (map print_paragraph (da_paragraphs d))"

definition print_article :: "doc_article \<Rightarrow> jsstr" where
  "print_article d = numbered_element (str ''Article'') (da_num d) (da_attr d) (article_content d)"

text \<open>What the parser should return for a document.\<close>

definition of_doc2 :: "doc2 \<Rightarrow> SubSubItem" where
  "of_doc2 d = \<lparr>ss_title = d2_title d, ss_content = join [0xA] (d2_sentences d)\<rparr>"

definition of_doc1 :: "doc1 \<Rightarrow> SubItem" where
  "of_doc1 d = \<lparr>si_title = d1_title d, si_content = join [0xA] (d1_sentences d), si_subsubitems = map of_doc2 (d1_subs d)\<rparr>"

definition of_item :: "doc_item \<Rightarrow> Item" where
  "of_item d = \<lparr>it_title = di_title d, it_content = join [0xA] (di_sentences d), it_subitems = map of_doc1 (di_subs d)\<rparr>"

definition of_paragraph :: "doc_paragraph \<Rightarrow> Paragraph" where
  "of_paragraph d = \<lparr>pa_content = join [0xA] (dp_sentences d), pa_items = map of_item (dp_items d)\<rparr>"

definition of_article :: "doc_article \<Rightarrow> LawArticle" where
  "of_article d = \<lparr>la_articleNum = da_num d, la_articleTitle = da_caption d,
     la_paragraphs = map of_paragraph (filter (\<lambda>p. dp_sentences p \<noteq> [] \<or> dp_items p \<noteq> []) (da_paragraphs d))\<rparr>"

text \<open>Well-formed documents: character data is not empty and has no \<open><\<close>, attributes have no \<open><\<close> and no \<open>></\<close>,
  numbers are not empty and have no quotation mark.\<close>

definition text_ok :: "jsstr \<Rightarrow> bool" where
  "text_ok s \<longleftrightarrow> s \<noteq> [] \<and> 0x3C \<notin> set s"

definition attr_ok :: "jsstr \<Rightarrow> bool" where
  "attr_ok a \<longleftrightarrow> 0x3C \<notin> set a \<and> 0x3E \<notin> set a"

definition doc2_ok :: "doc2 \<Rightarrow> bool" where
  "doc2_ok d \<longleftrightarrow> attr_ok (d2_attr d) \<and> text_ok (d2_title d) \<and> list_all text_ok (d2_sentences d)"

definition doc1_ok :: "doc1 \<Rightarrow> bool" where
  "doc1_ok d \<longleftrightarrow> attr_ok (d1_attr d) \<and> text_ok (d1_title d) \<and> list_all text_ok (d1_sentences d) \<and> list_all doc2_ok (d1_subs d)"

definition item_ok :: "doc_item \<Rightarrow> bool" where
  "item_ok d \<longleftrightarrow> attr_ok (di_attr d) \<and> text_ok (di_title d) \<and> list_all text_ok (di_sentences d) \<and> list_all doc1_ok (di_subs d)"

definition paragraph_ok :: "doc_paragraph \<Rightarrow> bool" where
  "paragraph_ok d \<longleftrightarrow> attr_ok (dp_attr d) \<and> list_all text_ok (dp_sentences d) \<and> list_all item_ok (dp_items d)"

definition article_ok :: "doc_article \<Rightarrow> bool" where
  "article_ok d \<longleftrightarrow> da_num d \<noteq> [] \<and> 0x22 \<notin> set (da_num d) \<and> 0x3C \<notin> set (da_num d) \<and> attr_ok (da_attr d) \<and>
     text_ok (da_title d) \<and> (case da_caption d of None \<Rightarrow> True | Some c \<Rightarrow> text_ok c) \<and> list_all paragraph_ok (da_paragraphs d)"

section \<open>Words that do not start in a document\<close>

lemma clear_text: "hd w = 0x3C \<Longrightarrow> w \<noteq> [] \<Longrightarrow> 0x3C \<notin> set s \<Longrightarrow> clear_of w s"
  by (rule clear_of_char) simp_all

lemma clear_element:
  "clear_of w (open_tag tag) \<Longrightarrow> clear_of w u \<Longrightarrow> clear_of w (close_tag tag) \<Longrightarrow> clear_of w (element tag u)"
  by (simp add: element_def clear_of_append)

text \<open>A word that opens or closes a tag: it starts with \<open><\<close> and starts in no tag of a list.\<close>

definition absent :: "jsstr list \<Rightarrow> jsstr \<Rightarrow> bool" where
  "absent tags w \<longleftrightarrow> w \<noteq> [] \<and> hd w = 0x3C \<and> list_all (clear_of w) tags"

lemma absent_text: "absent tags w \<Longrightarrow> 0x3C \<notin> set s \<Longrightarrow> clear_of w s"
  by (auto simp: absent_def intro: clear_text)

lemma absent_attr_element:
  assumes "absent tags w" "(str ''<'') @ tag \<in> set tags" "close_tag tag \<in> set tags" "0x3C \<notin> set a" "clear_of w u"
  shows "clear_of w (attr_element tag a u)"
proof -
  have "clear_of w (str ''>'')" using absent_text [OF assms(1)] by simp
  moreover have "clear_of w a" using absent_text [OF assms(1,4)] .
  moreover have "clear_of w ((str ''<'') @ tag)" "clear_of w (close_tag tag)" using assms(1-3) by (auto simp: absent_def list_all_iff simp del: str_simps)
  ultimately show ?thesis unfolding attr_element_def using assms(5) clear_of_append by metis
qed

definition sentence_tags :: "jsstr list" where
  "sentence_tags = [(str ''<'') @ (str ''Sentence''), close_tag (str ''Sentence'')]"

definition head_tags :: "jsstr \<Rightarrow> jsstr list" where
  "head_tags tag = [open_tag (tag @ (str ''Title'')), close_tag (tag @ (str ''Title'')), open_tag (tag @ (str ''Sentence'')), close_tag (tag @ (str ''Sentence''))]"

definition frame_tags :: "jsstr \<Rightarrow> jsstr list" where
  "frame_tags tag = [(str ''<'') @ tag, close_tag tag]"

definition tags2 :: "jsstr list" where
  "tags2 = sentence_tags @ head_tags (str ''Subitem2'') @ frame_tags (str ''Subitem2'')"
definition tags1 :: "jsstr list" where
  "tags1 = tags2 @ head_tags (str ''Subitem1'') @ frame_tags (str ''Subitem1'')"
definition item_tags :: "jsstr list" where
  "item_tags = tags1 @ head_tags (str ''Item'') @ frame_tags (str ''Item'')"
definition paragraph_tags :: "jsstr list" where
  "paragraph_tags = item_tags @ [open_tag (str ''ParagraphSentence''), close_tag (str ''ParagraphSentence'')] @ frame_tags (str ''Paragraph'')"

lemma absent_append: "absent (xs @ ys) w \<longleftrightarrow> absent xs w \<and> absent ys w"
  by (auto simp: absent_def)

lemma sentences_clear: "absent sentence_tags w \<Longrightarrow> list_all text_ok ss \<Longrightarrow> clear_of w (print_sentences ss)"
proof -
  assume w: "absent sentence_tags w" and ss: "list_all text_ok ss"
  have "clear_of w (attr_element (str ''Sentence'') [] s)" if "s \<in> set ss" for s
  proof (rule absent_attr_element [OF w])
    show "clear_of w s" using ss that absent_text [OF w] by (auto simp: list_all_iff text_ok_def)
  qed (simp_all add: sentence_tags_def)
  then show ?thesis unfolding print_sentences_def by (intro clear_of_concat) (simp add: list_all_iff)
qed

lemma head_clear:
  assumes "absent sentence_tags w" "absent (head_tags tag) w" "text_ok t" "list_all text_ok ss"
  shows "clear_of w (print_head tag t ss)"
proof -
  have "clear_of w t" using absent_text [OF assms(1)] assms(3) by (simp add: text_ok_def)
  moreover have "clear_of w (print_sentences ss)" using assms(1,4) by (rule sentences_clear)
  ultimately show ?thesis unfolding print_head_def using assms(2)
    by (intro clear_of_append clear_element) (simp_all add: absent_def head_tags_def)
qed

lemma framed_clear:
  "absent (frame_tags tag) w \<Longrightarrow> attr_ok a \<Longrightarrow> clear_of w u \<Longrightarrow> clear_of w (attr_element tag a u)"
  by (rule absent_attr_element) (auto simp: frame_tags_def attr_ok_def)

lemma content2_clear: "absent tags2 w \<Longrightarrow> doc2_ok d \<Longrightarrow> clear_of w (content2 d)"
  unfolding tags2_def absent_append content2_def doc2_ok_def by (intro head_clear) auto

lemma print2_clear: "absent tags2 w \<Longrightarrow> doc2_ok d \<Longrightarrow> clear_of w (print2 d)"
  using content2_clear [of w d] unfolding print2_def tags2_def absent_append doc2_ok_def by (intro framed_clear) auto

lemma subs_clear: "(\<And>d. ok d \<Longrightarrow> clear_of w (pr d)) \<Longrightarrow> list_all ok ds \<Longrightarrow> clear_of w (concat (map pr ds))"
  by (rule clear_of_concat) (auto simp: list_all_iff)

lemma content1_clear: "absent tags1 w \<Longrightarrow> doc1_ok d \<Longrightarrow> clear_of w (content1 d)"
  using subs_clear [of doc2_ok w print2 "d1_subs d"] print2_clear
  unfolding tags1_def content1_def doc1_ok_def tags2_def absent_append by (intro clear_of_append head_clear) auto

lemma print1_clear: "absent tags1 w \<Longrightarrow> doc1_ok d \<Longrightarrow> clear_of w (print1 d)"
  using content1_clear [of w d] unfolding print1_def tags1_def absent_append doc1_ok_def by (intro framed_clear) auto

lemma item_content_clear: "absent item_tags w \<Longrightarrow> item_ok d \<Longrightarrow> clear_of w (item_content d)"
  using subs_clear [of doc1_ok w print1 "di_subs d"] print1_clear
  unfolding item_tags_def item_content_def item_ok_def tags1_def tags2_def absent_append by (intro clear_of_append head_clear) auto

lemma print_item_clear: "absent item_tags w \<Longrightarrow> item_ok d \<Longrightarrow> clear_of w (print_item d)"
  using item_content_clear [of w d] unfolding print_item_def item_tags_def absent_append item_ok_def by (intro framed_clear) auto

lemma paragraph_content_clear: "absent paragraph_tags w \<Longrightarrow> paragraph_ok d \<Longrightarrow> clear_of w (paragraph_content d)"
proof -
  assume w: "absent paragraph_tags w" and ok: "paragraph_ok d"
  have "clear_of w (print_sentences (dp_sentences d))" using w ok
    by (intro sentences_clear) (auto simp: paragraph_tags_def item_tags_def tags1_def tags2_def absent_append paragraph_ok_def)
  moreover have "clear_of w (concat (map print_item (dp_items d)))" using w ok
    by (intro subs_clear [of item_ok]) (auto simp: paragraph_tags_def absent_append paragraph_ok_def intro: print_item_clear)
  ultimately show ?thesis using w unfolding paragraph_content_def
    by (intro clear_of_append clear_element) (simp_all add: paragraph_tags_def absent_def)
qed

lemma print_paragraph_clear: "absent paragraph_tags w \<Longrightarrow> paragraph_ok d \<Longrightarrow> clear_of w (print_paragraph d)"
  using paragraph_content_clear [of w d] unfolding print_paragraph_def paragraph_tags_def absent_append paragraph_ok_def
  by (intro framed_clear) blast+

section \<open>The parser on documents\<close>

lemma parse_title: "text_ok t \<Longrightarrow> clear_of (open_tag tag) gap \<Longrightarrow> title_text tag (gap @ element tag t @ rest) = t"
proof -
  assume "text_ok t" "clear_of (open_tag tag) gap"
  then have "search (length (gap @ element tag t @ rest)) (text_element tag) 0 (gap @ open_tag tag @ (t @ close_tag tag) @ rest) =
      Some \<lparr>m_index = 0 + length gap, m_text = open_tag tag @ t @ close_tag tag, m_caps = [(1, t)]\<rparr>"
    by (intro search_text_element) (simp_all add: text_ok_def)
  then show ?thesis by (simp add: title_text_def rx_match_def element_def grp_def cap_def)
qed

lemma parse_sentence_list:
  assumes "list_all text_ok ss"
  shows "map (\<lambda>m. grp m 1) (exec_all (attr_text_element (str ''Sentence'')) (print_sentences ss)) = ss"
proof -
  have found: "finds (attr_text_element (str ''Sentence'')) [] (attr_element (str ''Sentence'') [] s) [(1, s)]" if "text_ok s" for s
    using that search_attr_text [of "(str ''Sentence'')" "[]" "[]" s]
    unfolding finds_def text_ok_def by (auto simp: attr_nonempty simp del: str_simps)
  have "map m_caps (exec_all (attr_text_element (str ''Sentence'')) ([] @ concat (map (attr_element (str ''Sentence'') []) ss))) = map (\<lambda>s. [(1, s)]) ss"
    unfolding attr_text_element_def
    by (rule exec_all_after [OF _ clear_of_nil tag_heads(3)]) (use assms found [unfolded attr_text_element_def] in \<open>simp add: list_all_iff del: str_simps\<close>)
  from map_grp [OF this] show ?thesis by (simp add: print_sentences_def)
qed

lemma parse_sentences:
  assumes "list_all text_ok ss" "clear_of (open_tag tag) gap" "absent sentence_tags (close_tag tag)"
  shows "sentence_text tag (gap @ element tag (print_sentences ss) @ rest) = join [0xA] ss"
proof -
  let ?u = "print_sentences ss"
  have "clear_of (close_tag tag) ?u" using assms(3,1) by (rule sentences_clear)
  with assms(2) have "search (length (gap @ element tag ?u @ rest)) (block_element tag) 0 (gap @ open_tag tag @ (?u @ close_tag tag) @ rest) =
      Some \<lparr>m_index = 0 + length gap, m_text = open_tag tag @ ?u @ close_tag tag, m_caps = [(1, ?u)]\<rparr>"
    by (intro search_block_element)
  then show ?thesis using parse_sentence_list [OF assms(1)]
    by (simp add: sentence_text_def rx_match_def element_def grp_def [of _ "Suc 0"] cap_def del: str_simps)
qed

lemma parse_blocks:
  assumes "clear_of ((str ''<'') @ tag) gap" "list_all (\<lambda>d. attr_ok (a d) \<and> clear_of (close_tag tag) (u d)) ds"
  shows "map (\<lambda>m. grp m 1) (exec_all (attr_block_element tag) (gap @ concat (map (\<lambda>d. attr_element tag (a d) (u d)) ds))) = map u ds"
proof -
  have "finds (attr_block_element tag) [] (attr_element tag (a d) (u d)) [(1, u d)]"
    if "attr_ok (a d)" "clear_of (close_tag tag) (u d)" for d
    using that search_attr_block [of tag "[]" "a d" "u d"]
    unfolding finds_def attr_ok_def by (auto simp: attr_nonempty simp del: str_simps)
  then have "map m_caps (exec_all (attr_block_element tag) (gap @ concat (map (\<lambda>d. attr_element tag (a d) (u d)) ds))) =
      map (\<lambda>d. [(1, u d)]) ds"
    unfolding attr_block_element_def
    by (intro exec_all_after [OF _ assms(1) tag_heads(3)]) (use assms(2) in \<open>auto simp: list_all_iff simp del: str_simps\<close>)
  from map_grp [OF this] show ?thesis by simp
qed

text \<open>The head of an item or sub-item.\<close>

definition head_ok :: "jsstr \<Rightarrow> bool" where
  "head_ok tag \<longleftrightarrow> absent sentence_tags (close_tag (tag @ (str ''Sentence''))) \<and>
     absent [open_tag (tag @ (str ''Title'')), close_tag (tag @ (str ''Title''))] (open_tag (tag @ (str ''Sentence'')))"

lemma heads_ok: "head_ok (str ''Item'')" "head_ok (str ''Subitem1'')" "head_ok (str ''Subitem2'')"
  by code_simp+

lemma parse_head:
  assumes "head_ok tag" "text_ok t" "list_all text_ok ss"
  shows "title_text (tag @ (str ''Title'')) (print_head tag t ss @ rest) = t"
    "sentence_text (tag @ (str ''Sentence'')) (print_head tag t ss @ rest) = join [0xA] ss"
proof -
  show "title_text (tag @ (str ''Title'')) (print_head tag t ss @ rest) = t"
    using parse_title [OF assms(2) clear_of_nil, of "tag @ (str ''Title'')"] by (simp add: print_head_def del: str_simps)
  have "clear_of (open_tag (tag @ (str ''Sentence''))) (element (tag @ (str ''Title'')) t)"
    using assms(1,2) absent_text [of "[open_tag (tag @ (str ''Title'')), close_tag (tag @ (str ''Title''))]" "open_tag (tag @ (str ''Sentence''))" t]
    by (intro clear_element) (auto simp: head_ok_def absent_def text_ok_def)
  from parse_sentences [OF assms(3) this] assms(1)
  show "sentence_text (tag @ (str ''Sentence'')) (print_head tag t ss @ rest) = join [0xA] ss"
    by (simp add: print_head_def head_ok_def del: str_simps)
qed

text \<open>Words that separate the levels.\<close>

lemma separators:
  "absent (sentence_tags @ head_tags (str ''Subitem2'')) (close_tag (str ''Subitem2''))" "absent (sentence_tags @ head_tags (str ''Subitem1'')) ((str ''<'') @ (str ''Subitem2''))"
  "absent (tags2 @ head_tags (str ''Subitem1'')) (close_tag (str ''Subitem1''))" "absent (sentence_tags @ head_tags (str ''Item'')) ((str ''<'') @ (str ''Subitem1''))"
  "absent (tags1 @ head_tags (str ''Item'')) (close_tag (str ''Item''))"
  "absent (sentence_tags @ [open_tag (str ''ParagraphSentence''), close_tag (str ''ParagraphSentence'')]) ((str ''<'') @ (str ''Item''))"
  "absent sentence_tags (close_tag (str ''ParagraphSentence''))"
  "absent (item_tags @ [open_tag (str ''ParagraphSentence''), close_tag (str ''ParagraphSentence'')]) (close_tag (str ''Paragraph''))"
  "absent [open_tag (str ''ArticleCaption''), close_tag (str ''ArticleCaption''), open_tag (str ''ArticleTitle''), close_tag (str ''ArticleTitle'')] ((str ''<'') @ (str ''Paragraph''))"
  "absent (paragraph_tags @ [open_tag (str ''ArticleTitle''), close_tag (str ''ArticleTitle'')]) (open_tag (str ''ArticleCaption''))"
  "absent (paragraph_tags @ [open_tag (str ''ArticleCaption''), close_tag (str ''ArticleCaption''), open_tag (str ''ArticleTitle''), close_tag (str ''ArticleTitle'')]) (close_tag (str ''Article''))"
  by code_simp+

lemma tag_names:
  "(str ''Item'') @ (str ''Title'') = (str ''ItemTitle'')" "(str ''Item'') @ (str ''Sentence'') = (str ''ItemSentence'')"
  "(str ''Subitem1'') @ (str ''Title'') = (str ''Subitem1Title'')" "(str ''Subitem1'') @ (str ''Sentence'') = (str ''Subitem1Sentence'')"
  "(str ''Subitem2'') @ (str ''Title'') = (str ''Subitem2Title'')" "(str ''Subitem2'') @ (str ''Sentence'') = (str ''Subitem2Sentence'')"
  by code_simp+

lemmas parse_item_head = parse_head [OF heads_ok(1), unfolded tag_names]
lemmas parse_head1 = parse_head [OF heads_ok(2), unfolded tag_names]
lemmas parse_head2 = parse_head [OF heads_ok(3), unfolded tag_names]

lemma map_through: "map g ms = xs \<Longrightarrow> map (\<lambda>m. f (g m)) ms = map f xs"
  by auto

lemma parse_doc2: "doc2_ok d \<Longrightarrow> extractSubsubitem (content2 d) = of_doc2 d"
  using parse_head2 [of "d2_title d" "d2_sentences d" "[]"]
  by (simp add: extractSubsubitem_def of_doc2_def content2_def doc2_ok_def del: str_simps)

text \<open>The sub-elements of one level: what is found between the tags, and what each is parsed to.\<close>

lemma parse_level:
  assumes "clear_of ((str ''<'') @ tag) gap" "list_all (\<lambda>d. attr_ok (a d) \<and> clear_of (close_tag tag) (u d) \<and> parse (u d) = g d) ds"
  shows "map (\<lambda>m. parse (grp m 1)) (exec_all (attr_block_element tag) (gap @ concat (map (\<lambda>d. attr_element tag (a d) (u d)) ds))) = map g ds"
proof -
  have "map (\<lambda>m. grp m 1) (exec_all (attr_block_element tag) (gap @ concat (map (\<lambda>d. attr_element tag (a d) (u d)) ds))) = map u ds"
    using assms(2) by (intro parse_blocks [OF assms(1)]) (auto simp: list_all_iff)
  from map_through [OF this, of parse] show ?thesis using assms(2) by (auto simp: list_all_iff)
qed

lemma parse_doc1:
  assumes "doc1_ok d"
  shows "extractSubitem (content1 d) = of_doc1 d"
proof -
  have ok: "text_ok (d1_title d)" "list_all text_ok (d1_sentences d)" "list_all doc2_ok (d1_subs d)"
    using assms by (auto simp: doc1_ok_def)
  let ?h = "print_head (str ''Subitem1'') (d1_title d) (d1_sentences d)"
  have "clear_of ((str ''<'') @ (str ''Subitem2'')) ?h" using separators(2) ok by (intro head_clear) (simp_all only: absent_append)
  moreover have "clear_of (close_tag (str ''Subitem2'')) (content2 s)" if "doc2_ok s" for s
    using that separators(1) unfolding content2_def absent_append doc2_ok_def by (intro head_clear) blast+
  ultimately have "map (\<lambda>m. extractSubsubitem (grp m 1)) (exec_all (attr_block_element (str ''Subitem2'')) (content1 d)) = map of_doc2 (d1_subs d)"
    using ok(3) unfolding content1_def print2_def [abs_def]
    by (intro parse_level) (auto simp: list_all_iff parse_doc2 doc2_ok_def simp del: str_simps)
  moreover have "filter (\<lambda>s. ss_title s \<noteq> [] \<or> ss_content s \<noteq> []) (map of_doc2 (d1_subs d)) = map of_doc2 (d1_subs d)"
    using ok(3) by (auto simp: filter_id_conv list_all_iff of_doc2_def doc2_ok_def text_ok_def)
  ultimately show ?thesis using parse_head1 [OF ok(1,2), of "concat (map print2 (d1_subs d))", folded content1_def]
    unfolding extractSubitem_def of_doc1_def by simp
qed

lemma parse_item:
  assumes "item_ok d"
  shows "extractItem (item_content d) = of_item d"
proof -
  have ok: "text_ok (di_title d)" "list_all text_ok (di_sentences d)" "list_all doc1_ok (di_subs d)"
    using assms by (auto simp: item_ok_def)
  let ?h = "print_head (str ''Item'') (di_title d) (di_sentences d)"
  have "clear_of ((str ''<'') @ (str ''Subitem1'')) ?h" using separators(4) ok by (intro head_clear) (simp_all only: absent_append)
  moreover have "clear_of (close_tag (str ''Subitem1'')) (content1 s)" if "doc1_ok s" for s
    using that separators(3) subs_clear [of doc2_ok "close_tag (str ''Subitem1'')" print2] print2_clear
    unfolding content1_def absent_append doc1_ok_def tags2_def by (intro clear_of_append head_clear) blast+
  ultimately have "map (\<lambda>m. extractSubitem (grp m 1)) (exec_all (attr_block_element (str ''Subitem1'')) (item_content d)) = map of_doc1 (di_subs d)"
    using ok(3) unfolding item_content_def print1_def [abs_def]
    by (intro parse_level) (auto simp: list_all_iff parse_doc1 doc1_ok_def simp del: str_simps)
  moreover have "filter (\<lambda>s. si_title s \<noteq> [] \<or> si_content s \<noteq> []) (map of_doc1 (di_subs d)) = map of_doc1 (di_subs d)"
    using ok(3) by (auto simp: filter_id_conv list_all_iff of_doc1_def doc1_ok_def text_ok_def)
  ultimately show ?thesis using parse_item_head [OF ok(1,2), of "concat (map print1 (di_subs d))", folded item_content_def]
    unfolding extractItem_def of_item_def by simp
qed

lemma parse_paragraph:
  assumes "paragraph_ok d"
  shows "sentence_text (str ''ParagraphSentence'') (paragraph_content d) = join [0xA] (dp_sentences d)"
    "map (\<lambda>i. extractItem (grp i 1)) (exec_all (attr_block_element (str ''Item'')) (paragraph_content d)) = map of_item (dp_items d)"
proof -
  have ok: "list_all text_ok (dp_sentences d)" "list_all item_ok (dp_items d)" using assms by (auto simp: paragraph_ok_def)
  let ?h = "element (str ''ParagraphSentence'') (print_sentences (dp_sentences d))"
  show "sentence_text (str ''ParagraphSentence'') (paragraph_content d) = join [0xA] (dp_sentences d)"
    using parse_sentences [OF ok(1) clear_of_nil separators(7)] unfolding paragraph_content_def by simp
  have "clear_of ((str ''<'') @ (str ''Item'')) (print_sentences (dp_sentences d))"
    using separators(6) ok(1) by (intro sentences_clear) (simp_all only: absent_append)
  then have "clear_of ((str ''<'') @ (str ''Item'')) ?h" using separators(6) by (intro clear_element) (simp_all add: absent_def del: str_simps)
  moreover have "clear_of (close_tag (str ''Item'')) (item_content s)" if "item_ok s" for s
    using that separators(5) subs_clear [of doc1_ok "close_tag (str ''Item'')" print1] print1_clear
    unfolding item_content_def absent_append item_ok_def tags1_def tags2_def by (intro clear_of_append head_clear) blast+
  ultimately show "map (\<lambda>i. extractItem (grp i 1)) (exec_all (attr_block_element (str ''Item'')) (paragraph_content d)) = map of_item (dp_items d)"
    using ok(2) unfolding paragraph_content_def print_item_def [abs_def]
    by (intro parse_level) (auto simp: list_all_iff parse_item item_ok_def simp del: str_simps)
qed

lemma join_nonempty: "list_all text_ok ss \<Longrightarrow> join d ss = [] \<longleftrightarrow> ss = []"
  by (induction d ss rule: join.induct) (auto simp: text_ok_def)

lemma paragraph_content_closed:
  assumes "paragraph_ok d"
  shows "clear_of (close_tag (str ''Paragraph'')) (paragraph_content d)"
proof -
  let ?w = "close_tag (str ''Paragraph'')"
  have ok: "list_all text_ok (dp_sentences d)" "list_all item_ok (dp_items d)" using assms by (auto simp: paragraph_ok_def)
  have "clear_of ?w (print_sentences (dp_sentences d))"
    using separators(8) ok(1) unfolding absent_append item_tags_def tags1_def tags2_def by (intro sentences_clear) blast+
  then have "clear_of ?w (element (str ''ParagraphSentence'') (print_sentences (dp_sentences d)))"
    using separators(8) by (intro clear_element) (simp_all add: absent_def del: str_simps)
  moreover have "clear_of ?w (concat (map print_item (dp_items d)))"
    using separators(8) ok(2) unfolding absent_append by (intro subs_clear [of item_ok] print_item_clear) blast+
  ultimately show ?thesis unfolding paragraph_content_def by (rule clear_of_append)
qed

lemma caption_absent:
  assumes "article_ok d" "absent [open_tag (str ''ArticleCaption''), close_tag (str ''ArticleCaption''), open_tag (str ''ArticleTitle''), close_tag (str ''ArticleTitle'')] w"
  shows "clear_of w (article_head d)"
proof -
  have "clear_of w (element (str ''ArticleTitle'') (da_title d))"
    using assms absent_text [OF assms(2), of "da_title d"]
    by (intro clear_element) (simp_all add: absent_def article_ok_def text_ok_def del: str_simps)
  moreover have "clear_of w (case da_caption d of None \<Rightarrow> [] | Some c \<Rightarrow> element (str ''ArticleCaption'') c)"
  proof (cases "da_caption d")
    case (Some c)
    with assms(1) have "clear_of w c" using absent_text [OF assms(2), of c] by (simp add: article_ok_def text_ok_def)
    then have "clear_of w (element (str ''ArticleCaption'') c)" using assms(2) by (intro clear_element) (simp_all add: absent_def del: str_simps)
    with Some show ?thesis by simp
  qed simp
  ultimately show ?thesis unfolding article_head_def by (rule clear_of_append [rotated])
qed

lemma paragraphs_clear:
  "article_ok d \<Longrightarrow> absent paragraph_tags w \<Longrightarrow> clear_of w (concat (map print_paragraph (da_paragraphs d)))"
  by (rule subs_clear [of paragraph_ok]) (auto simp: article_ok_def intro: print_paragraph_clear)

lemma article_content_closed: "article_ok d \<Longrightarrow> clear_of (close_tag (str ''Article'')) (article_content d)"
  using separators(11) unfolding absent_append article_content_def
  by (intro clear_of_append caption_absent paragraphs_clear) blast+

lemma parse_caption:
  assumes "article_ok d"
  shows "map_option (\<lambda>c. grp c 1) (rx_match (text_element (str ''ArticleCaption'')) (article_content d)) = da_caption d"
proof (cases "da_caption d")
  case None
  let ?w = "open_tag (str ''ArticleCaption'')"
  have "clear_of ?w (da_title d)" using separators(10) assms absent_text [of _ ?w "da_title d"]
    unfolding absent_append by (auto simp: article_ok_def text_ok_def simp del: str_simps)
  then have "clear_of ?w (element (str ''ArticleTitle'') (da_title d))"
    using separators(10) by (intro clear_element) (simp_all add: absent_def del: str_simps)
  moreover have "clear_of ?w (concat (map print_paragraph (da_paragraphs d)))"
    using separators(10) assms unfolding absent_append by (intro paragraphs_clear) blast+
  ultimately have "clear_of ?w (article_content d)" using None unfolding article_content_def article_head_def by (auto intro!: clear_of_append simp del: str_simps)
  then have "rx_match (text_element (str ''ArticleCaption'')) (article_content d) = None"
    unfolding rx_match_def text_element_def using tag_heads(2) by (rule search_clear_none)
  with None show ?thesis by simp
next
  case (Some c)
  let ?rest = "element (str ''ArticleTitle'') (da_title d) @ concat (map print_paragraph (da_paragraphs d))"
  have "text_ok c" using assms Some by (simp add: article_ok_def)
  then have "search (length (article_content d)) (text_element (str ''ArticleCaption'')) 0 ([] @ open_tag (str ''ArticleCaption'') @ (c @ close_tag (str ''ArticleCaption'')) @ ?rest) =
      Some \<lparr>m_index = 0 + length ([] :: jsstr), m_text = open_tag (str ''ArticleCaption'') @ c @ close_tag (str ''ArticleCaption''), m_caps = [(1, c)]\<rparr>"
    by (intro search_text_element) (simp_all add: text_ok_def)
  then show ?thesis using Some
    by (simp add: rx_match_def article_content_def article_head_def element_def grp_def cap_def del: str_simps)
qed

lemma parse_paragraphs:
  assumes "article_ok d"
  shows "extractParagraphs (article_content d) =
    map of_paragraph (filter (\<lambda>p. dp_sentences p \<noteq> [] \<or> dp_items p \<noteq> []) (da_paragraphs d))"
proof -
  let ?parse = "\<lambda>c. \<lparr>pa_content = sentence_text (str ''ParagraphSentence'') c, pa_items = map (\<lambda>i. extractItem (grp i 1)) (exec_all (attr_block_element (str ''Item'')) c)\<rparr>"
  have ok: "list_all paragraph_ok (da_paragraphs d)" using assms by (simp add: article_ok_def)
  have "map (\<lambda>m. ?parse (grp m 1)) (exec_all (attr_block_element (str ''Paragraph'')) (article_content d)) = map of_paragraph (da_paragraphs d)"
    unfolding article_content_def print_paragraph_def [abs_def]
    using ok by (intro parse_level caption_absent [OF assms separators(9)])
      (auto simp: list_all_iff parse_paragraph paragraph_content_closed of_paragraph_def paragraph_ok_def simp del: str_simps One_nat_def)
  moreover have "pa_content (of_paragraph p) \<noteq> [] \<or> pa_items (of_paragraph p) \<noteq> [] \<longleftrightarrow> dp_sentences p \<noteq> [] \<or> dp_items p \<noteq> []"
    if "p \<in> set (da_paragraphs d)" for p
    using ok that by (auto simp: list_all_iff of_paragraph_def paragraph_ok_def join_nonempty)
  ultimately show ?thesis unfolding extractParagraphs_def Let_def by (simp add: filter_map o_def cong: filter_cong)
qed

lemma map_parse2:
  "map m_caps ms = map (\<lambda>x. [(2, u x), (1, v x)]) xs \<Longrightarrow> map (\<lambda>m. f (grp m 1) (grp m 2)) ms = map (\<lambda>x. f (v x) (u x)) xs"
proof (induction ms arbitrary: xs)
  case (Cons m ms)
  then obtain x ys where "xs = x # ys" by (cases xs) auto
  with Cons show ?case by (simp add: grp_def cap_def)
qed simp

lemma print_article_found:
  assumes "gap_ok (str ''Article'') g" "article_ok d"
  shows "finds (numbered_block (str ''Article'')) g (print_article d) [(2, article_content d), (1, da_num d)]"
  using search_numbered_block [OF assms(1), of "da_num d" "da_attr d" "article_content d"] article_content_closed [OF assms(2)] assms(2)
  by (auto simp: finds_def print_article_def article_ok_def attr_ok_def numbered_element_def)

lemma parse_articles:
  assumes "list_all (\<lambda>(g, d). gap_ok (str ''Article'') g \<and> article_ok d) xs" "gap_ok (str ''Article'') tail"
  shows "extractArticles (concat (map (\<lambda>(g, d). g @ print_article d) xs) @ tail) = map (\<lambda>(g, d). of_article d) xs"
proof -
  let ?doc = "concat (map (\<lambda>(g, d). g @ print_article d) xs) @ tail"
  let ?f = "\<lambda>num c. \<lparr>la_articleNum = num, la_articleTitle = map_option (\<lambda>c. grp c 1) (rx_match (text_element (str ''ArticleCaption'')) c),
    la_paragraphs = extractParagraphs c\<rparr>"
  have "map m_caps (exec_all (numbered_block (str ''Article'')) (concat (map (\<lambda>x. fst x @ print_article (snd x)) xs) @ tail)) =
      map (\<lambda>x. [(2, article_content (snd x)), (1, da_num (snd x))]) xs"
  proof (rule exec_all_elements)
    show "search n (numbered_block (str ''Article'')) i tail = None" for n i
      unfolding numbered_block_def using assms(2) by (rule search_gap_none)
    show "list_all (\<lambda>x. finds (numbered_block (str ''Article'')) (fst x) (print_article (snd x)) [(2, article_content (snd x)), (1, da_num (snd x))]) xs"
      using assms(1) by (auto simp: list_all_iff print_article_found simp del: str_simps One_nat_def)
  qed
  then have "map m_caps (exec_all (numbered_block (str ''Article'')) ?doc) = map (\<lambda>x. [(2, article_content (snd x)), (1, da_num (snd x))]) xs"
    by (simp add: case_prod_unfold)
  from map_parse2 [OF this, of ?f] have "extractArticles ?doc = map (\<lambda>x. ?f (da_num (snd x)) (article_content (snd x))) xs"
    unfolding extractArticles_def Let_def by simp
  also have "\<dots> = map (\<lambda>(g, d). of_article d) xs"
    using assms(1) by (auto simp: list_all_iff of_article_def parse_caption parse_paragraphs simp del: str_simps One_nat_def)
  finally show ?thesis .
qed

section \<open>Whole documents\<close>

definition print_law :: "jsstr \<Rightarrow> jsstr \<Rightarrow> jsstr \<Rightarrow> doc_article list \<Rightarrow> jsstr" where
  "print_law num a title ds = element (str ''LawNum'') num @ attr_element (str ''LawTitle'') a title @ concat (map print_article ds)"

text \<open>A tag that no part of a law starts with.\<close>

definition law_tags :: "jsstr list" where
  "law_tags = paragraph_tags @ [open_tag (str ''ArticleCaption''), close_tag (str ''ArticleCaption''), open_tag (str ''ArticleTitle''), close_tag (str ''ArticleTitle''),
     (str ''<'') @ (str ''Article''), close_tag (str ''Article'')]"

lemma clear_longer: "clear_of w p \<Longrightarrow> clear_of (w @ v) p"
  by (auto simp: clear_of_iff starts_with_iff)

lemma article_clear:
  assumes "article_ok d" "absent law_tags w"
  shows "clear_of w (print_article d)"
proof -
  have t: "absent paragraph_tags w" "absent [open_tag (str ''ArticleCaption''), close_tag (str ''ArticleCaption''), open_tag (str ''ArticleTitle''), close_tag (str ''ArticleTitle'')] w"
    "clear_of w ((str ''<'') @ (str ''Article''))" "clear_of w (close_tag (str ''Article''))"
    using assms(2) by (simp_all add: law_tags_def absent_def del: str_simps)
  have "clear_of w (article_content d)" unfolding article_content_def using assms(1) t(1,2)
    by (intro clear_of_append caption_absent paragraphs_clear)
  moreover have "clear_of w (da_num d)" "clear_of w (da_attr d)" "clear_of w (str '' '')" "clear_of w (str ''Num='' @ [0x22])" "clear_of w [0x22]" "clear_of w (str ''>'')"
    using assms(1) by (auto simp: article_ok_def attr_ok_def intro!: absent_text [OF t(1)])
  ultimately show ?thesis unfolding print_article_def numbered_element_def using t(3,4) clear_of_append by metis
qed

lemma law_clear:
  assumes "absent (law_tags @ [open_tag (str ''LawNum''), close_tag (str ''LawNum''), (str ''<'') @ (str ''LawTitle''), close_tag (str ''LawTitle'')]) w"
    "text_ok num" "attr_ok a" "text_ok title" "list_all article_ok ds"
  shows "clear_of w (print_law num a title ds)"
proof -
  have w: "absent law_tags w" "absent [open_tag (str ''LawNum''), close_tag (str ''LawNum''), (str ''<'') @ (str ''LawTitle''), close_tag (str ''LawTitle'')] w"
    using assms(1) by (simp_all only: absent_append)
  have "clear_of w (element (str ''LawNum'') num)" using w(2) absent_text [OF w(2), of num] assms(2)
    by (intro clear_element) (simp_all add: absent_def text_ok_def del: str_simps)
  moreover have "clear_of w (attr_element (str ''LawTitle'') a title)" using assms(3,4) absent_text [OF w(2), of title]
    by (intro absent_attr_element [OF w(2)]) (simp_all add: attr_ok_def text_ok_def)
  moreover have "clear_of w (concat (map print_article ds))" using assms(5) w(1)
    by (intro subs_clear [of article_ok]) (auto intro: article_clear)
  ultimately show ?thesis unfolding print_law_def by (intro clear_of_append)
qed

lemma law_words:
  "absent (law_tags @ [open_tag (str ''LawNum''), close_tag (str ''LawNum''), (str ''<'') @ (str ''LawTitle''), close_tag (str ''LawTitle'')]) ((str ''<'') @ (str ''Part''))"
  "absent (law_tags @ [open_tag (str ''LawNum''), close_tag (str ''LawNum''), (str ''<'') @ (str ''LawTitle''), close_tag (str ''LawTitle'')]) ((str ''<'') @ (str ''Chapter''))"
  "absent (law_tags @ [open_tag (str ''LawNum''), close_tag (str ''LawNum''), (str ''<'') @ (str ''LawTitle''), close_tag (str ''LawTitle'')]) ((str ''<'') @ (str ''Section''))"
  "absent [open_tag (str ''LawNum''), close_tag (str ''LawNum'')] ((str ''<'') @ (str ''LawTitle''))"
  "absent [open_tag (str ''LawNum''), close_tag (str ''LawNum''), (str ''<'') @ (str ''LawTitle''), close_tag (str ''LawTitle'')] ((str ''<'') @ (str ''Article''))"
  by code_simp+

lemma gap_ok_clear: "clear_of ((str ''<'') @ tag) p \<Longrightarrow> gap_ok tag p"
  unfolding gap_ok_def by (auto dest: clear_longer simp del: str_simps simp flip: append_assoc)

lemma no_blocks: "gap_ok tag s \<Longrightarrow> exec_all (numbered_block tag) s = []"
  using search_gap_none [of tag s] by (simp add: exec_all_def exec_from.simps [of _ _ 0] numbered_block_def)

section \<open>Properties\<close>

text \<open>C5: the articles of a document are read back exactly. For any articles in any surroundings that
  have no opening article tag of their own, with captions, paragraphs, items and two levels of sub-items, the
  parser returns the numbers, the captions and, level by level, the titles and the joined sentences, in the order of the
  document; only paragraphs without sentences and items are dropped.\<close>

theorem articles_roundtrip:
  assumes "list_all (\<lambda>(g, d). gap_ok (str ''Article'') g \<and> article_ok d) xs" "gap_ok (str ''Article'') tail"
  shows "extractArticles (concat (map (\<lambda>(g, d). g @ print_article d) xs) @ tail) = map (\<lambda>(g, d). of_article d) xs"
  using assms by (rule parse_articles)

definition sample_article :: doc_article where
  "sample_article = \<lparr>da_num = (str ''1''), da_attr = [], da_caption = Some [p_lparen, c_moku, 0x7684, p_rparen], da_title = [c_dai, c_ichi, c_jou],
     da_paragraphs = [\<lparr>dp_attr = (str '' Hide''), dp_sentences = [[0x7532], [0x4E59]],
       dp_items = [\<lparr>di_attr = [], di_title = [c_ichi], di_sentences = [[0x4E19]],
         di_subs = [\<lparr>d1_attr = [], d1_title = [0x30A4], d1_sentences = [], d1_subs = []\<rparr>]\<rparr>]\<rparr>]\<rparr>"

lemma sample_article_ok: "article_ok sample_article"
  by code_simp

theorem articles_roundtrip_witness:
  "extractArticles (print_article sample_article @ (str ''</MainProvision>'')) = [of_article sample_article]"
proof -
  have "gap_ok (str ''Article'') []" by (simp add: gap_ok_def)
  moreover have "gap_ok (str ''Article'') (str ''</MainProvision>'')" by (rule gap_ok_clear) code_simp
  ultimately show ?thesis
    using articles_roundtrip [of "[([], sample_article)]" "(str ''</MainProvision>'')"] sample_article_ok by (simp del: str_simps)
qed

text \<open>C25: a law without parts, chapters and sections is read back as a whole: identifier, title, number, all
  articles, and an empty structure, whatever the compiler of patterns does.\<close>

theorem law_roundtrip:
  assumes "text_ok num" "attr_ok a" "text_ok title" "list_all article_ok ds"
  shows "parseLawXML compile now (print_law num a title ds) filename =
    Some \<lparr>ld_lawId = replace_str filename (str ''.xml'') [], ld_lawTitle = title, ld_lawNum = num, ld_lawType = (str ''Act''),
      ld_articles = map of_article ds, ld_structure = \<lparr>ls_parts = [], ls_chapters = [], ls_sections = []\<rparr>, ld_promulgateDate = now\<rparr>"
proof -
  let ?doc = "print_law num a title ds" and ?num = "element (str ''LawNum'') num" and ?title = "attr_element (str ''LawTitle'') a title"
  note clear = law_words(1-3) [THEN law_clear, OF assms]
  have empty: "extractStructure compile ?doc = Some \<lparr>ls_parts = [], ls_chapters = [], ls_sections = []\<rparr>"
    unfolding extractStructure_def using clear [THEN gap_ok_clear, THEN no_blocks] by simp
  have lawNum: "title_text (str ''LawNum'') ?doc = num" unfolding print_law_def using parse_title [OF assms(1) clear_of_nil] by simp
  have "clear_of ((str ''<'') @ (str ''LawTitle'')) ?num" using law_words(4) absent_text [OF law_words(4), of num] assms(1)
    by (intro clear_element) (simp_all add: absent_def text_ok_def del: str_simps)
  from search_attr_text [OF this, of a title "length ?doc" 0] assms(2,3)
  have lawTitle: "(case rx_match (attr_text_element (str ''LawTitle'')) ?doc of None \<Rightarrow> [0x4E0D, 0x660E, h_na, c_hou, c_rei_order] | Some m \<Rightarrow> grp m 1) = title"
    by (simp add: rx_match_def print_law_def attr_ok_def text_ok_def grp_def cap_def del: str_simps)
  have "clear_of ((str ''<'') @ (str ''Article'')) (?num @ ?title)"
    using law_words(5) absent_text [OF law_words(5), of num] absent_text [OF law_words(5), of title] assms(1-3)
    by (intro clear_of_append clear_element absent_attr_element [OF law_words(5)])
      (simp_all add: absent_def text_ok_def attr_ok_def del: str_simps)
  then have gap: "gap_ok (str ''Article'') (?num @ ?title)" by (rule gap_ok_clear)
  have none: "gap_ok (str ''Article'') []" by (simp add: gap_ok_def)
  have "extractArticles ?doc = map of_article ds"
  proof (cases ds)
    case Nil
    with parse_articles [of "[]", OF _ gap] show ?thesis by (simp add: print_law_def)
  next
    case (Cons d es)
    have "list_all (\<lambda>(g, d). gap_ok (str ''Article'') g \<and> article_ok d) ((?num @ ?title, d) # map (\<lambda>e. ([], e)) es)"
      using gap none assms(4) Cons by (auto simp: list_all_iff simp del: str_simps)
    from parse_articles [OF this none] Cons show ?thesis by (simp add: print_law_def o_def del: str_simps)
  qed
  with empty lawNum lawTitle show ?thesis by (simp add: parseLawXML_def del: str_simps One_nat_def)
qed

theorem law_roundtrip_witness:
  "map_option ld_articles (parseLawXML (\<lambda>_. None) 0 (print_law [0x5E73, 0x6210, 0x5143, 0x5E74, c_hou, c_ritsu, c_dai, c_ichi, c_gou] [] [0x898B, c_hon, c_hou] [sample_article]) (str ''401AC.xml'')) =
     Some [of_article sample_article] \<and> replace_str (str ''401AC.xml'') (str ''.xml'') [] = (str ''401AC'')"
proof -
  have "text_ok [0x5E73, 0x6210, 0x5143, 0x5E74, c_hou, c_ritsu, c_dai, c_ichi, c_gou]" "attr_ok []" "text_ok [0x898B, c_hon, c_hou]" by code_simp+
  moreover have "replace_str (str ''401AC.xml'') (str ''.xml'') [] = (str ''401AC'')" by code_simp
  ultimately show ?thesis using law_roundtrip [of "[0x5E73, 0x6210, 0x5143, 0x5E74, c_hou, c_ritsu, c_dai, c_ichi, c_gou]" "[]" "[0x898B, c_hon, c_hou]" "[sample_article]"] sample_article_ok
    by (simp del: str_simps)
qed

text \<open>The test for articles in a section only looks for the article somewhere after the opening tag of the section, so an
  article after the end of the section counts as inside.\<close>

lemma article_after_section:
  "rx_test (rseq [RLit (str ''<Section''), rstar (RCls True [(0x3E, 0x3E)]), RLit [0x4E, 0x75, 0x6D, 0x3D, 0x22, 0x31, 0x22], rstar (RCls True [(0x3E, 0x3E)]), RLit (str ''>''), RRep (RCls True []) 0 None False, RLit (str ''<Article''), rstar (RCls True [(0x3E, 0x3E)]), RLit [0x4E, 0x75, 0x6D, 0x3D, 0x22, 0x39, 0x22], rstar (RCls True [(0x3E, 0x3E)]), RLit (str ''>'')]) [0x3C, 0x53, 0x65, 0x63, 0x74, 0x69, 0x6F, 0x6E, 0x20, 0x4E, 0x75, 0x6D, 0x3D, 0x22, 0x31, 0x22, 0x3E, 0x3C, 0x2F, 0x53, 0x65, 0x63, 0x74, 0x69, 0x6F, 0x6E, 0x3E, 0x3C, 0x41, 0x72, 0x74, 0x69, 0x63, 0x6C, 0x65, 0x20, 0x4E, 0x75, 0x6D, 0x3D, 0x22, 0x39, 0x22, 0x3E]"
  by code_simp


end
