(* ===== verification/LawDictionary.thy ===== *)
theory LawDictionary
  imports Markup
begin

text \<open>
  \<^verbatim>\<open>scripts/generate-law-dictionary.ts\<close>: the generator of the law dictionary. It reads the list of all laws as CSV,
  makes abbreviations of the titles, and fills the look-up tables of \<^verbatim>\<open>scripts/law-dictionary-generated.js\<close>, whose
  look-up functions are part of the generated text. The content of the file is an argument. An object used as a
  table is a map in insertion order; names inherited from \<open>Object.prototype\<close> are not looked at.
\<close>

section \<open>Reading the list of laws\<close>

record LawEntry =
  le_type :: jsstr
  le_number :: jsstr
  le_title :: jsstr
  le_reading :: jsstr
  le_oldTitle :: "jsstr option"
  le_promulgated :: jsstr
  le_enforced :: jsstr
  le_lawId :: jsstr
  le_url :: jsstr

definition fieldPattern :: regex where
  "fieldPattern = (rseq [RGrp 1 (ralt [rseq [RLit [0x22], RRep (RCls True rng_eol) 0 None False, RLit [0x22]], rstar (RCls True [(0x2C, 0x2C)])]), RGrp 2 (ralt [RLit (str '',''), REol])])"

definition cleanField :: "jsstr \<Rightarrow> jsstr" where
  "cleanField field =
     trim (replace_first (rseq [RLit (str '',''), REol]) (\<lambda>_. []) (replace_all (ralt [rseq [RBol, RLit [0x22]], rseq [RLit [0x22], REol]]) (\<lambda>_. []) field))"

definition line_entry :: "jsstr list \<Rightarrow> LawEntry" where
  "line_entry fs =
     \<lparr>le_type = cleanField (fs ! 0), le_number = cleanField (fs ! 1), le_title = cleanField (fs ! 2),
      le_reading = cleanField (fs ! 3),
      le_oldTitle = (let old = cleanField (fs ! 4) in if old = [] then None else Some old),
      le_promulgated = cleanField (fs ! 5), le_enforced = cleanField (fs ! 9),
      le_lawId = cleanField (fs ! 11), le_url = cleanField (fs ! 12)\<rparr>"

text \<open>One round of the loop: \<open>None\<close> when the line adds no entry. The pattern always matches, so \<open>match\<close> is never null.\<close>

definition parse_line :: "jsstr \<Rightarrow> LawEntry option" where
  "parse_line line =
     (if trim line = [] then None
      else
        (let fs = map m_text (exec_all fieldPattern line)
         in if length fs < 14 then None
            else
              (let lawEntry = line_entry fs
               in if le_lawId lawEntry \<noteq> [] \<and> le_title lawEntry \<noteq> [] then Some lawEntry else None)))"

definition parseCSV :: "jsstr \<Rightarrow> LawEntry list" where
  "parseCSV content = List.map_filter parse_line (drop 1 (split_char 0xA content))"

section \<open>Abbreviations\<close>

text \<open>A pattern and what the replacement appends to the first group.\<close>

definition abbreviation_patterns :: "(regex \<times> jsstr) list" where
  "abbreviation_patterns =
     [((rseq [RGrp 1 (rplus (RCls True rng_eol)), RLit [h_ni, 0x95A2, h_su, h_ru, c_hou, c_ritsu], REol]), [c_hou]),
      ((rseq [RGrp 1 (rplus (RCls True rng_eol)), RLit [h_no, h_ta, h_me, h_no, c_hou, c_ritsu], REol]), [c_hou]),
      ((rseq [RGrp 1 (rplus (RCls True rng_eol)), RLit [h_ni, 0x95A2, h_su, h_ru, 0x7279, c_betsu, 0x63AA, 0x7F6E, c_hou], REol]), [0x7279, 0x63AA, c_hou]),
      ((rseq [RGrp 1 (rplus (RCls True rng_eol)), RLit [h_no, 0x7279, 0x4F8B, h_ni, 0x95A2, h_su, h_ru, c_hou, c_ritsu], REol]), [0x7279, 0x4F8B, c_hou]),
      ((rseq [RGrp 1 (rplus (RCls True rng_eol)), RLit [0x7B49, h_ni, 0x95A2, h_su, h_ru, c_hou, c_ritsu], REol]), [0x7B49, c_hou]),
      ((rseq [RGrp 1 (RRep (RCls True rng_eol) 1 None False), RLit [c_oyo, h_bi], rplus (RCls True rng_eol), RLit [h_ni, 0x95A2, h_su, h_ru, c_hou, c_ritsu], REol]), [c_hou]),
      ((rseq [RGrp 1 (RRep (RCls True rng_eol) 1 None False), RLit [c_nara, h_bi, h_ni], rplus (RCls True rng_eol), RLit [h_ni, 0x95A2, h_su, h_ru, c_hou, c_ritsu], REol]), [c_hou])]"

definition pattern_abbreviation :: "jsstr \<Rightarrow> regex \<times> jsstr \<Rightarrow> jsstr list" where
  "pattern_abbreviation title p =
     (if rx_test (fst p) title
      then (let abbr = replace_first (fst p) (\<lambda>m. grp m 1 @ snd p) title
            in if abbr \<noteq> title \<and> length abbr < length title then [abbr] else [])
      else [])"

definition commonAbbreviations :: "(jsstr \<times> jsstr list) list" where
  "commonAbbreviations =
     [([0x65E5, c_hon, 0x56FD, 0x61B2, c_hou], [[0x61B2, c_hou]]), ([c_min, c_hou], [[c_min, c_hou]]), ([c_kei, c_hou], [[c_kei, c_hou]]), ([c_shou_com, c_hou], [[c_shou_com, c_hou]]), ([c_kai_meet, c_sha, c_hou], [[c_kai_meet, c_sha, c_hou]]),
      ([c_min, 0x4E8B, 0x8A34, 0x8A1F, c_hou], [[c_min, 0x8A34, c_hou], [c_min, 0x8A34]]), ([c_kei, 0x4E8B, 0x8A34, 0x8A1F, c_hou], [[c_kei, 0x8A34, c_hou], [c_kei, 0x8A34]]), ([0x52B4, 0x50CD, 0x57FA, c_jun, c_hou], [[0x52B4, 0x57FA, c_hou]]),
      ([0x52B4, 0x50CD, 0x5951, 0x7D04, c_hou], [[0x52B4, 0x5951, c_hou]]), ([0x52B4, 0x50CD, 0x5B89, 0x5168, 0x885B, 0x751F, c_hou], [[0x52B4, 0x5B89, c_hou], [0x5B89, 0x885B, c_hou]]), ([0x5EFA, 0x7BC9, 0x57FA, c_jun, c_hou], [[0x5EFA, 0x57FA, c_hou]]),
      ([0x90FD, 0x5E02, 0x8A08, 0x753B, c_hou], [[0x90FD, 0x8A08, c_hou]]), ([0x9053, 0x8DEF, 0x4EA4, 0x901A, c_hou], [[0x9053, 0x4EA4, c_hou]]), ([0x6D88, 0x9632, c_hou], [[0x6D88, 0x9632, c_hou]]), ([0x8457, 0x4F5C, 0x6A29, c_hou], [[0x8457, 0x4F5C, 0x6A29, c_hou]]),
      ([0x7279, 0x8A31, c_hou], [[0x7279, 0x8A31, c_hou]]), ([c_shou_com, 0x6A19, c_hou], [[c_shou_com, 0x6A19, c_hou]]), ([0x72EC, 0x5360, 0x7981, 0x6B62, c_hou], [[0x72EC, 0x7981, c_hou]]),
      ([0x500B, 0x4EBA, 0x60C5, 0x5831, h_no, 0x4FDD, 0x8B77, h_ni, 0x95A2, h_su, h_ru, c_hou, c_ritsu], [[0x500B, 0x4EBA, 0x60C5, 0x5831, 0x4FDD, 0x8B77, c_hou], [0x500B, 0x60C5, c_hou]]), ([0x884C, 0x653F, 0x624B, 0x7D9A, c_hou], [[0x884C, 0x624B, c_hou]]),
      ([0x884C, 0x653F, 0x4E8B, 0x4EF6, 0x8A34, 0x8A1F, c_hou], [[0x884C, 0x8A34, c_hou]]), ([0x56FD, 0x5BB6, 0x516C, 0x52D9, 0x54E1, c_hou], [[0x56FD, 0x516C, c_hou]]), ([0x5730, 0x65B9, 0x516C, 0x52D9, 0x54E1, c_hou], [[0x5730, 0x516C, c_hou]]),
      ([0x5730, 0x65B9, 0x81EA, 0x6CBB, c_hou], [[0x5730, 0x81EA, c_hou]]), ([0x6CB3, 0x5DDD, c_hou], [[0x6CB3, 0x5DDD, c_hou]]), ([0x68EE, 0x6797, c_hou], [[0x68EE, 0x6797, c_hou]]), ([0x8FB2, 0x5730, c_hou], [[0x8FB2, 0x5730, c_hou]]),
      ([0x74B0, 0x5883, 0x5F71, 0x97FF, 0x8A55, 0x4FA1, c_hou], [[0x74B0, 0x5883, 0x30A2, 0x30BB, 0x30B9, c_hou], [0x30A2, 0x30BB, 0x30B9, c_hou]])]"

definition generateAbbreviations :: "jsstr \<Rightarrow> jsstr list" where
  "generateAbbreviations title =
     first_by (\<lambda>a. a) []
       (concat (map (pattern_abbreviation title) abbreviation_patterns) @
        (case map_of commonAbbreviations title of None \<Rightarrow> [] | Some abbrs \<Rightarrow> abbrs))"

section \<open>The dictionary\<close>

record LawMetadata =
  lm_title :: jsstr
  lm_number :: jsstr
  lm_type :: jsstr
  lm_enforced :: jsstr

record LawTables =
  titleToId :: "(jsstr, jsstr) jsmap"
  abbreviationToId :: "(jsstr, jsstr) jsmap"
  lawNumberToId :: "(jsstr, jsstr) jsmap"
  lawMetadata :: "(jsstr, LawMetadata) jsmap"

definition add_abbreviation :: "jsstr \<Rightarrow> (jsstr, jsstr) jsmap \<Rightarrow> jsstr \<Rightarrow> (jsstr, jsstr) jsmap" where
  "add_abbreviation lawId m abbr = (if truthy (map_of m abbr) then m else AList.update abbr lawId m)"

definition add_law :: "LawTables \<Rightarrow> LawEntry \<Rightarrow> LawTables" where
  "add_law d law =
     (let titles = AList.update (le_title law) (le_lawId law) (titleToId d)
      in \<lparr>titleToId = (if truthy (le_oldTitle law) then AList.update (the (le_oldTitle law)) (le_lawId law) titles else titles),
          abbreviationToId = foldl (add_abbreviation (le_lawId law)) (abbreviationToId d) (generateAbbreviations (le_title law)),
          lawNumberToId = (if le_number law \<noteq> [] then AList.update (le_number law) (le_lawId law) (lawNumberToId d) else lawNumberToId d),
          lawMetadata = AList.update (le_lawId law)
            \<lparr>lm_title = le_title law, lm_number = le_number law, lm_type = le_type law, lm_enforced = le_enforced law\<rparr>
            (lawMetadata d)\<rparr>)"

definition generateDictionary :: "LawEntry list \<Rightarrow> LawTables" where
  "generateDictionary laws =
     foldl add_law \<lparr>titleToId = [], abbreviationToId = [], lawNumberToId = [], lawMetadata = []\<rparr> laws"

text \<open>The look-ups in the generated file; \<open>None\<close> is \<open>undefined\<close>.\<close>

definition findLawIdByName :: "LawTables \<Rightarrow> jsstr \<Rightarrow> jsstr option" where
  "findLawIdByName d name =
     (if truthy (map_of (titleToId d) name) then map_of (titleToId d) name else map_of (abbreviationToId d) name)"



section \<open>Plain rows\<close>

text \<open>A field that needs no quotes, a row of such fields and a file of such rows.\<close>

definition plain_field :: "jsstr \<Rightarrow> bool" where
  "plain_field w \<longleftrightarrow> 0x2C \<notin> set w \<and> 0x22 \<notin> set w \<and> 0xA \<notin> set w \<and> trim w = w"

definition csv_text :: "jsstr \<Rightarrow> jsstr list list \<Rightarrow> jsstr" where
  "csv_text header rows = join [0xA] (header # map (join [0x2C]) rows)"

definition row_entry :: "jsstr list \<Rightarrow> LawEntry" where
  "row_entry ws =
     \<lparr>le_type = ws ! 0, le_number = ws ! 1, le_title = ws ! 2, le_reading = ws ! 3,
      le_oldTitle = (if ws ! 4 = [] then None else Some (ws ! 4)), le_promulgated = ws ! 5, le_enforced = ws ! 9,
      le_lawId = ws ! 11, le_url = ws ! 12\<rparr>"

lemma trim_nonempty:
  assumes "c \<in> set s" "\<not> is_ws c"
  shows "trim s \<noteq> []"
proof
  assume "trim s = []"
  then have "list_all is_ws (dropWhile is_ws s)" by (simp add: trim_def list_all_iff dropWhile_eq_Nil_conv)
  moreover have "dropWhile is_ws s \<noteq> []" using assms by (auto simp: dropWhile_eq_Nil_conv)
  ultimately show False using hd_dropWhile [of is_ws s] by (auto simp: list_all_iff neq_Nil_conv)
qed

text \<open>The pattern takes a field and the comma after it; at the end of the line, the field.\<close>

lemma field_run:
  assumes "0x2C \<notin> set w" "0x22 \<notin> set w" "rest = [] \<or> hd rest = 0x2C"
  shows "\<exists>ms. rx n (RGrp 1 (RAlt (RSeq (RLit [0x22]) r) (rstar (RCls True [(0x2C, 0x2C)])))) (w @ rest, []) = (rest, [(1, w)]) # ms"
proof -
  have "\<not> starts_with (w @ rest) [0x22]" using assms by (cases w; cases rest) (auto simp: starts_with_def)
  then have "rx n (RSeq (RLit [0x22]) r) (w @ rest, []) = []" by simp
  moreover have "\<forall>c \<in> set w. in_cls True [(0x2C, 0x2C)] c" using assms(1) by (auto simp: in_cls_def)
  then obtain ms where "rx n (rstar (RCls True [(0x2C, 0x2C)])) (w @ rest, []) = (rest, []) # ms"
    using rx_run [of w True "[(0x2C, 0x2C)]" rest 0 n "[]"] assms(3) by (auto simp: in_cls_def neq_Nil_conv)
  ultimately have "rx n (RAlt (RSeq (RLit [0x22]) r) (rstar (RCls True [(0x2C, 0x2C)]))) (w @ rest, []) = (rest, []) # ms"
    by (simp only: rx.simps(5) append_Nil)
  then show ?thesis by (simp del: rx.simps(2-6))
qed

lemma field_comma:
  assumes "0x2C \<notin> set w" "0x22 \<notin> set w"
  shows "search n fieldPattern i (w @ 0x2C # s) = Some \<lparr>m_index = i, m_text = w @ [0x2C], m_caps = [(2, [0x2C]), (1, w)]\<rparr>"
proof -
  from field_run [OF assms, of "0x2C # s" n "(rseq [RRep (RCls True rng_eol) 0 None False, RLit [0x22]])"] obtain ms where
    1: "rx n (RGrp 1 (RAlt (RSeq (RLit [0x22]) (rseq [RRep (RCls True rng_eol) 0 None False, RLit [0x22]])) (rstar (RCls True [(0x2C, 0x2C)])))) (w @ 0x2C # s, []) = (0x2C # s, [(1, w)]) # ms"
    by auto
  have "rx n (RGrp 2 (RAlt (RLit [0x2C]) REol)) (0x2C # s, [(1, w)]) = [(s, [(2, [0x2C]), (1, w)])]" by (simp add: starts_with_def)
  with 1 have "\<exists>ms. rx n fieldPattern (w @ 0x2C # s, []) = (s, [(2, [0x2C]), (1, w)]) # ms"
    unfolding fieldPattern_def rseq.simps ralt.simps str_simps by (simp del: rx.simps(2,3,5-))
  then show ?thesis by (auto simp: search_here)
qed

lemma field_end:
  assumes "0x2C \<notin> set w" "0x22 \<notin> set w"
  shows "search n fieldPattern i w = Some \<lparr>m_index = i, m_text = w, m_caps = [(2, []), (1, w)]\<rparr>"
proof -
  from field_run [OF assms, of "[]" n "(rseq [RRep (RCls True rng_eol) 0 None False, RLit [0x22]])"] obtain ms where
    1: "rx n (RGrp 1 (RAlt (RSeq (RLit [0x22]) (rseq [RRep (RCls True rng_eol) 0 None False, RLit [0x22]])) (rstar (RCls True [(0x2C, 0x2C)])))) (w, []) = ([], [(1, w)]) # ms"
    by auto
  have "rx n (RGrp 2 (RAlt (RLit [0x2C]) REol)) ([], [(1, w)]) = [([], [(2, []), (1, w)])]" by (simp add: starts_with_def)
  with 1 have "\<exists>ms. rx n fieldPattern (w, []) = ([], [(2, []), (1, w)]) # ms"
    unfolding fieldPattern_def rseq.simps ralt.simps str_simps by (simp del: rx.simps(2,3,5-))
  then show ?thesis by (auto simp: search_here)
qed

lemma exec_from_past: "length s < li \<Longrightarrow> exec_from r s li = []"
  by (subst exec_from.simps) simp

lemma line_fields_from:
  assumes "list_all (\<lambda>w. 0x2C \<notin> set w \<and> 0x22 \<notin> set w) ws" "ws \<noteq> []"
  shows "map m_text (exec_from fieldPattern (pre @ join [0x2C] ws) (length pre)) =
    map (\<lambda>w. w @ [0x2C]) (butlast ws) @ last ws # (if last ws = [] then [] else [[]])"
  using assms(2,1)
proof (induction ws arbitrary: pre rule: list_nonempty_induct)
  case (single w)
  have at_end: "map m_text (exec_from fieldPattern s (length s)) = [[]]" for s
    by (subst exec_from.simps) (simp add: field_end m_end_def exec_from_past)
  show ?case
  proof (cases "w = []")
    case False
    with exec_from_step [of "length pre" "pre @ w" fieldPattern] at_end [of "pre @ w"] single show ?thesis
      by (simp add: field_end m_end_def)
  qed (use at_end [of pre] in simp)
next
  case (cons w ws)
  let ?s = "pre @ w @ 0x2C # join [0x2C] ws"
  have "exec_from fieldPattern ?s (length pre) =
      \<lparr>m_index = length pre, m_text = w @ [0x2C], m_caps = [(2, [0x2C]), (1, w)]\<rparr> # exec_from fieldPattern ?s (length (pre @ w @ [0x2C]))"
    using exec_from_step [of "length pre" ?s fieldPattern] cons.prems by (simp add: field_comma m_end_def)
  moreover have "join [0x2C] (w # ws) = w @ 0x2C # join [0x2C] ws" using cons.hyps by (cases ws) simp_all
  ultimately show ?case using cons.IH [of "pre @ w @ [0x2C]"] cons by simp
qed

lemma line_fields:
  "list_all (\<lambda>w. 0x2C \<notin> set w \<and> 0x22 \<notin> set w) ws \<Longrightarrow> ws \<noteq> [] \<Longrightarrow>
     map m_text (exec_all fieldPattern (join [0x2C] ws)) =
     map (\<lambda>w. w @ [0x2C]) (butlast ws) @ last ws # (if last ws = [] then [] else [[]])"
  using line_fields_from [of ws "[]"] by (simp add: exec_all_def)

lemma exec_all_unmatched: "search (length s) r 0 s = None \<Longrightarrow> exec_all r s = []"
  unfolding exec_all_def by (subst exec_from.simps) simp

lemma clean_plain:
  assumes "plain_field w"
  shows "cleanField (w @ [0x2C]) = w"
proof -
  have quotes: "replace_all (ralt [rseq [RBol, RLit [0x22]], rseq [RLit [0x22], REol]]) f s = s" if "0x22 \<notin> set s" for f s
  proof -
    have "search (length s) (ralt [rseq [RBol, RLit [0x22]], rseq [RLit [0x22], REol]]) 0 s = None"
    proof (rule search_none)
      show "rx (length s) (ralt [rseq [RBol, RLit [0x22]], rseq [RLit [0x22], REol]]) (c # s', []) = []" if "c \<in> set s" for c s'
        using that \<open>0x22 \<notin> set s\<close> by (auto simp: starts_with_def)
    qed (simp add: starts_with_def)
    then have "exec_all (ralt [rseq [RBol, RLit [0x22]], rseq [RLit [0x22], REol]]) s = []" by (rule exec_all_unmatched)
    then show ?thesis by (simp add: replace_all_def)
  qed
  have "clear_of [0x2C] w" using assms by (intro clear_of_char) (simp_all add: plain_field_def)
  then have "rx_match (rseq [RLit (str '',''), REol]) (w @ [0x2C]) = Some \<lparr>m_index = length w, m_text = [0x2C], m_caps = []\<rparr>"
    using search_clear [of "[0x2C]" w "Suc (length w)" REol 0 "[0x2C]"]
      search_here [of "Suc (length w)" "RSeq (RLit [0x2C]) REol" "[0x2C]" "[]" "[]" "[]" "length w"]
    by (simp add: rx_match_def starts_with_def)
  then have "replace_first (rseq [RLit (str '',''), REol]) (\<lambda>_. []) (w @ [0x2C]) = w" by (simp add: replace_first_def m_end_def)
  with assms show ?thesis by (simp add: cleanField_def quotes plain_field_def del: str_simps rseq.simps ralt.simps)
qed

lemma parse_row:
  assumes "list_all plain_field ws" "14 \<le> length ws"
  shows "parse_line (join [0x2C] ws) = (if ws ! 11 \<noteq> [] \<and> ws ! 2 \<noteq> [] then Some (row_entry ws) else None)"
proof -
  let ?fs = "map (\<lambda>w. w @ [0x2C]) (butlast ws) @ last ws # (if last ws = [] then [] else [[]])"
  have "list_all (\<lambda>w. 0x2C \<notin> set w \<and> 0x22 \<notin> set w) ws" using assms(1) by (auto simp: list_all_iff plain_field_def)
  then have fs: "map m_text (exec_all fieldPattern (join [0x2C] ws)) = ?fs" using assms(2) by (intro line_fields) auto
  have len: "14 \<le> length ?fs" using assms(2) by simp
  have field: "cleanField (?fs ! k) = ws ! k" if "k < 13" for k
  proof -
    have "?fs ! k = ws ! k @ [0x2C]" using that assms(2) by (simp add: nth_append nth_butlast less_diff_conv)
    moreover have "plain_field (ws ! k)" using that assms by (simp add: list_all_length)
    ultimately show ?thesis by (simp add: clean_plain)
  qed
  have entry: "line_entry ?fs = row_entry ws" unfolding line_entry_def row_entry_def Let_def by (simp only: field)
  obtain x y zs where "ws = x # y # zs" using assms(2) by (cases ws; cases "tl ws") auto
  then have "0x2C \<in> set (join [0x2C] ws)" by simp
  then have "trim (join [0x2C] ws) \<noteq> []" by (rule trim_nonempty) (simp add: is_ws_def)
  with fs len entry show ?thesis by (simp add: parse_line_def Let_def row_entry_def del: length_append)
qed

lemma split_join:
  "list_all (\<lambda>w. d \<notin> set w) ws \<Longrightarrow> ws \<noteq> [] \<Longrightarrow> split_char d (join [d] ws) = ws"
proof (induction ws rule: induct_list012)
  case (3 w v ws)
  then show ?case by (simp add: split_char_app)
qed (simp_all add: split_char_no_sep)

lemma row_no_newline: "list_all plain_field ws \<Longrightarrow> 0xA \<notin> set (join [0x2C] ws)"
  by (induction ws rule: induct_list012) (auto simp: plain_field_def)

lemma parse_csv_text:
  assumes "0xA \<notin> set header" "list_all (\<lambda>ws. list_all plain_field ws \<and> 14 \<le> length ws) rows"
  shows "parseCSV (csv_text header rows) = map row_entry (filter (\<lambda>ws. ws ! 11 \<noteq> [] \<and> ws ! 2 \<noteq> []) rows)"
proof -
  have "split_char 0xA (csv_text header rows) = header # map (join [0x2C]) rows"
    unfolding csv_text_def using assms by (intro split_join) (auto simp: list_all_iff row_no_newline)
  then have "parseCSV (csv_text header rows) = List.map_filter parse_line (map (join [0x2C]) rows)" by (simp add: parseCSV_def)
  also have "\<dots> = map row_entry (filter (\<lambda>ws. ws ! 11 \<noteq> [] \<and> ws ! 2 \<noteq> []) rows)"
    using assms(2) by (induction rows) (simp_all add: List.map_filter_simps parse_row)
  finally show ?thesis .
qed

section \<open>The tables\<close>

lemma generate_snoc: "generateDictionary (laws @ [l]) = add_law (generateDictionary laws) l"
  by (simp add: generateDictionary_def)



definition bears :: "jsstr \<Rightarrow> LawEntry \<Rightarrow> bool" where
  "bears name l \<longleftrightarrow> name = le_title l \<or> truthy (le_oldTitle l) \<and> le_oldTitle l = Some name"


lemma titles_of: "map_of (titleToId (generateDictionary laws)) name = map_option le_lawId (find (bears name) (rev laws))"
proof (induction laws rule: rev_induct)
  case (snoc l laws)
  then show ?case by (auto simp: generate_snoc add_law_def Let_def update_conv' bears_def truthy_def)
qed (simp add: generateDictionary_def)







section \<open>The abbreviations of a title\<close>

text \<open>A greedy run of any characters up to a closing word at the end of the text.\<close>

lemma stem_match:
  assumes "w \<noteq> []" "list_all (in_cls True rng_eol) w"
  shows "\<exists>cs. rx_match (RSeq (RGrp 1 (rplus (RCls True rng_eol))) (RSeq (RLit x) REol)) (w @ x) =
    Some \<lparr>m_index = 0, m_text = w @ x, m_caps = cs\<rparr> \<and> map_of cs 1 = Some w" (is "\<exists>cs. rx_match ?r _ = _ \<and> _")
proof -
  let ?n = "length (w @ x)" and ?run = "rplus (RCls True rng_eol)"
  have only: "t = [] \<and> map_of ds 1 = Some w" if mem: "(t, ds) \<in> set (rx ?n ?r (w @ x, []))" for t ds
  proof -
    obtain u us where u: "(u, us) \<in> set (rx ?n (RGrp 1 ?run) (w @ x, []))"
      and r: "(t, ds) \<in> set (rx ?n (RSeq (RLit x) REol) (u, us))" using mem by (rule rx_seq_cases)
    obtain v vs where v: "(v, vs) \<in> set (rx ?n (RLit x) (u, us))" "(t, ds) \<in> set (rx ?n REol (v, vs))"
      using r by (rule rx_seq_cases)
    obtain es where "us = (1, consumed (w @ x) u) # es" "w @ x = consumed (w @ x) u @ u" using u by (rule rx_grp_cases)
    moreover have "vs = us" "u = x @ v" "v = []" "t = []" "ds = us"
      using rx_atom_caps(1) [OF v(1)] v(2) by (auto split: if_splits)
    ultimately show ?thesis by simp
  qed
  have "(x, [(1, w)]) \<in> set (rx ?n (RGrp 1 ?run) (w @ x, []))"
    using rep_cls_mem [OF assms(2), of "Suc 0" x "[]" ?n] assms(1) by (force simp del: rx.simps(3) simp: Suc_le_eq)
  moreover have "rx ?n (RSeq (RLit x) REol) (x, [(1, w)]) = [([], [(1, w)])]" by (simp add: starts_with_def)
  ultimately have "([], [(1, w)]) \<in> set (concat (map (rx ?n (RSeq (RLit x) REol)) (rx ?n (RGrp 1 ?run) (w @ x, []))))"
    by (force simp del: rx.simps)
  then have "rx ?n ?r (w @ x, []) \<noteq> []" by (metis empty_iff list.set(1) rx.simps(4))
  then obtain t ds ms where "rx ?n ?r (w @ x, []) = (t, ds) # ms" by (auto simp: neq_Nil_conv simp del: rx.simps)
  with only [of t ds] show ?thesis by (simp add: rx_match_def search_here del: rx.simps)
qed

lemma stem_abbreviation:
  assumes "w \<noteq> []" "list_all (in_cls True rng_eol) w" "length y < length x"
  shows "pattern_abbreviation (w @ x) (RSeq (RGrp 1 (rplus (RCls True rng_eol))) (RSeq (RLit x) REol), y) = [w @ y]"
proof -
  obtain cs where "rx_match (RSeq (RGrp 1 (rplus (RCls True rng_eol))) (RSeq (RLit x) REol)) (w @ x) =
      Some \<lparr>m_index = 0, m_text = w @ x, m_caps = cs\<rparr>" "map_of cs 1 = Some w"
    using stem_match [OF assms(1,2)] by blast
  with assms(3) show ?thesis
    by (auto simp: pattern_abbreviation_def rx_test_def replace_first_def grp_def cap_def m_end_def)
qed

lemma abbreviations_set:
  "set (generateAbbreviations t) = (\<Union>p \<in> set abbreviation_patterns. set (pattern_abbreviation t p)) \<union>
     (case map_of commonAbbreviations t of None \<Rightarrow> {} | Some abbrs \<Rightarrow> set abbrs)"
  using first_by_keys [of "\<lambda>a. a" "[]" "concat (map (pattern_abbreviation t) abbreviation_patterns) @
        (case map_of commonAbbreviations t of None \<Rightarrow> [] | Some abbrs \<Rightarrow> abbrs)"]
  unfolding generateAbbreviations_def by (auto split: option.splits)

lemma stem_formed:
  assumes "w \<noteq> []" "list_all (in_cls True rng_eol) w"
    and "(RSeq (RGrp 1 (rplus (RCls True rng_eol))) (RSeq (RLit x) REol), y) \<in> set abbreviation_patterns" "length y < length x"
  shows "w @ y \<in> set (generateAbbreviations (w @ x))"
  using stem_abbreviation [OF assms(1,2,4)] assms(3) unfolding abbreviations_set by force

lemma plain_forms:
  "(RSeq (RGrp 1 (rplus (RCls True rng_eol))) (RSeq (RLit [h_ni, 0x95A2, h_su, h_ru, c_hou, c_ritsu]) REol), [c_hou]) \<in> set abbreviation_patterns"
  "(RSeq (RGrp 1 (rplus (RCls True rng_eol))) (RSeq (RLit [h_no, h_ta, h_me, h_no, c_hou, c_ritsu]) REol), [c_hou]) \<in> set abbreviation_patterns"
  "(RSeq (RGrp 1 (rplus (RCls True rng_eol))) (RSeq (RLit [h_ni, 0x95A2, h_su, h_ru, 0x7279, c_betsu, 0x63AA, 0x7F6E, c_hou]) REol), [0x7279, 0x63AA, c_hou]) \<in> set abbreviation_patterns"
  by (simp_all add: abbreviation_patterns_def)

lemma abbreviations_distinct: "distinct (generateAbbreviations t)"
  unfolding generateAbbreviations_def by (rule first_by_keys [of "\<lambda>a. a" "[]", THEN conjunct1, simplified])

section \<open>Properties\<close>

text \<open>C26: a file of rows whose fields need no quotes -- no comma, quotation mark or line break, no white
  space at the ends -- and that have at least the 14 columns of the list is read back exactly: one entry per row that
  has an identifier and a title, in order, each field from its column.\<close>

theorem csv_roundtrip:
  assumes "0xA \<notin> set header" and "list_all (\<lambda>ws. list_all plain_field ws \<and> 14 \<le> length ws) rows"
  shows "parseCSV (csv_text header rows) = map row_entry (filter (\<lambda>ws. ws ! 11 \<noteq> [] \<and> ws ! 2 \<noteq> []) rows)"
  by (rule parse_csv_text [OF assms])

definition sample_row :: "jsstr list" where
  "sample_row = [[c_hou, c_ritsu], [0x660E, 0x6CBB, c_ni, c_juu, c_kyuu, 0x5E74, c_hou, c_ritsu, c_dai, c_hachi, c_juu, c_kyuu, c_gou], [c_min, c_hou], [h_mi, 0x3093, 0x307D, h_u], [], [0x660E, 0x6CBB, 0x32, 0x39, 0x5E74, 0x34, 0x6708, 0x32, 0x37, 0x65E5], [], [], [], [0x660E, 0x6CBB, 0x33, 0x31, 0x5E74, 0x37, 0x6708, 0x31, 0x36, 0x65E5], [],
     (str ''129AC0000000089''), (str ''https://laws.e-gov.go.jp/law/129AC0000000089''), []]"

theorem csv_roundtrip_witness:
  "list_all plain_field sample_row \<and> length sample_row = 14 \<and> map le_title (parseCSV (csv_text [] [sample_row])) = [[c_min, c_hou]]"
proof -
  have s: "list_all plain_field sample_row" by code_simp
  have l: "length sample_row = 14" "sample_row ! 11 \<noteq> []" "sample_row ! 2 = [c_min, c_hou]" by (simp_all add: sample_row_def)
  have "parseCSV (csv_text [] [sample_row]) = map row_entry (filter (\<lambda>ws. ws ! 11 \<noteq> [] \<and> ws ! 2 \<noteq> []) [sample_row])"
    using s l by (intro csv_roundtrip) simp_all
  with s l show ?thesis by (simp add: row_entry_def)
qed


text \<open>a title that ends in one of the three plain forms is abbreviated to its stem with the short
  ending, whatever the stem; the abbreviations of a title are distinct.\<close>

theorem abbreviation_formed:
  assumes "w \<noteq> []" and "list_all (in_cls True rng_eol) w"
  shows "w @ [c_hou] \<in> set (generateAbbreviations (w @ [h_ni, 0x95A2, h_su, h_ru, c_hou, c_ritsu])) \<and>
    w @ [c_hou] \<in> set (generateAbbreviations (w @ [h_no, h_ta, h_me, h_no, c_hou, c_ritsu])) \<and>
    w @ [0x7279, 0x63AA, c_hou] \<in> set (generateAbbreviations (w @ [h_ni, 0x95A2, h_su, h_ru, 0x7279, c_betsu, 0x63AA, 0x7F6E, c_hou])) \<and>
    distinct (generateAbbreviations title)"
  by (intro conjI stem_formed [OF assms] plain_forms abbreviations_distinct) simp_all

theorem abbreviation_formed_witness:
  "list_all (in_cls True rng_eol) [0x56FD, 0x65D7] \<and> [0x56FD, 0x65D7, c_hou] \<in> set (generateAbbreviations [0x56FD, 0x65D7, h_ni, 0x95A2, h_su, h_ru, c_hou, c_ritsu])"
proof -
  have "list_all (in_cls True rng_eol) [0x56FD, 0x65D7]" by code_simp
  with abbreviation_formed [of "[0x56FD, 0x65D7]"] show ?thesis by simp
qed

section \<open>Findings\<close>

text \<open>A quoted field loses its opening quotation mark and keeps the closing one, because the comma still follows it
  when the marks are removed.\<close>

lemma closing_quote_kept: "cleanField (0x22 # [0x6F01, 0x6E2F, c_hou, 0x2C, 0x6F01, 0x6E2F, 0x6F01, 0x5834, 0x6574, 0x5099, c_hou] @ [0x22, 0x2C]) = [0x6F01, 0x6E2F, c_hou, 0x2C, 0x6F01, 0x6E2F, 0x6F01, 0x5834, 0x6574, 0x5099, c_hou] @ [0x22]"
  by code_simp

text \<open>A former title takes over the entry of the law that bears it now.\<close>

lemma former_title_wins:
  "findLawIdByName (generateDictionary [l, l\<lparr>le_lawId := (str ''B''), le_title := [c_betsu, c_hou], le_oldTitle := Some (le_title l)\<rparr>]) (le_title l) = Some (str ''B'')"
  if "le_title l \<noteq> []"
  using that titles_of [of "[l, l\<lparr>le_lawId := (str ''B''), le_title := [c_betsu, c_hou], le_oldTitle := Some (le_title l)\<rparr>]" "le_title l"]
  by (simp add: findLawIdByName_def bears_def truthy_def)


end
