(* ===== verification/WebApi.thy ===== *)
theory WebApi
  imports CachingDetector
begin

text \<open>
  The HTTP endpoints under \<^verbatim>\<open>app/api\<close> and the database layer they call, \<^verbatim>\<open>src/lib/hybrid-db.ts\<close>. The two databases are
  parameters: each query is a function from its arguments to an answer, \<open>None\<close> when it throws. An endpoint is a
  function from the request's parameters to a response; the endpoint that detects references also yields the write
  statements it issues, and runs the detector of \<open>CachingDetector\<close> from a fresh state.
\<close>

section \<open>Responses\<close>

text \<open>A body with status 200, or an error message with its status.\<close>

datatype 'a response = Reply 'a | ErrorReply nat jsstr

section \<open>The list of laws\<close>

datatype law_filter = AnyLaw | TitleOrNumberContains jsstr

definition law_clause :: "jsstr option \<Rightarrow> law_filter" where
  "law_clause search_param =
     (let search = or_str search_param [] in if search \<noteq> [] then TitleOrNumberContains search else AnyLaw)"

record 'r LawsPage =
  lp_data :: "'r list"
  lp_page :: "int option"
  lp_limit :: "int option"
  lp_total :: nat
  lp_totalPages :: "int option"

definition skip_of :: "int option \<Rightarrow> int option \<Rightarrow> int option" where
  "skip_of page limit = (case (page, limit) of (Some p, Some l) \<Rightarrow> Some ((p - 1) * l) | _ \<Rightarrow> None)"

text \<open>\<open>Math.ceil(total / limit)\<close>: \<open>None\<close> where the quotient is not finite, which JSON writes as null.\<close>

definition total_pages :: "nat \<Rightarrow> int option \<Rightarrow> int option" where
  "total_pages matched limit =
     (case limit of None \<Rightarrow> None | Some l \<Rightarrow> if l = 0 then None else Some (- ((- int matched) div l)))"

definition get_laws :: "(law_filter \<Rightarrow> int option \<Rightarrow> int option \<Rightarrow> 'r list option) \<Rightarrow> (law_filter \<Rightarrow> nat option) \<Rightarrow>
    jsstr option \<Rightarrow> jsstr option \<Rightarrow> jsstr option \<Rightarrow> 'r LawsPage response" where
  "get_laws find_many count page_param limit_param search_param =
     (let page = parse_int (or_str page_param (str ''1''));
          limit = parse_int (or_str limit_param (str ''20''));
          clause = law_clause search_param
      in case (find_many clause (skip_of page limit) limit, count clause) of
           (Some laws, Some matched) \<Rightarrow>
             Reply \<lparr>lp_data = laws, lp_page = page, lp_limit = limit, lp_total = matched, lp_totalPages = total_pages matched limit\<rparr>
         | _ \<Rightarrow> ErrorReply 500 (str ''Failed to fetch laws''))"

section \<open>The references of a law or an article\<close>

datatype reference_filter = AnyReference | FromLaw jsstr | WithArticle jsstr

definition get_reference_rows :: "(reference_filter \<Rightarrow> nat \<Rightarrow> 'r list option) \<Rightarrow> jsstr option \<Rightarrow> jsstr option \<Rightarrow> 'r list response" where
  "get_reference_rows find_many lawId articleId =
     (let clause = (if truthy lawId then FromLaw (the lawId)
                    else if truthy articleId then WithArticle (the articleId) else AnyReference)
      in case find_many clause 100 of
           Some rows \<Rightarrow> Reply rows
         | None \<Rightarrow> ErrorReply 500 (str ''Failed to fetch references''))"

section \<open>A law with its articles\<close>

record ItemRow =
  it_itemNumber :: jsstr
  it_content :: jsstr

record ParagraphRow =
  pa_content :: jsstr
  pa_items :: "ItemRow list"

record ArticleRow =
  ar_articleNumber :: jsstr
  ar_articleTitle :: "jsstr option"
  ar_paragraphs :: "ParagraphRow list"

record ReferenceRow =
  rr_id :: jsstr
  rr_sourceArticle :: jsstr
  rr_targetLawId :: "jsstr option"
  rr_targetArticle :: "jsstr option"
  rr_referenceType :: jsstr
  rr_referenceText :: jsstr
  rr_confidence :: rat
  rr_metadata :: "json option"

record VersionInfo =
  vi_id :: jsstr
  vi_versionDate :: jsstr
  vi_status :: jsstr
  vi_isLatest :: bool

record LawMaster =
  lm_id :: jsstr
  lm_lawTitle :: jsstr
  lm_lawNumber :: "jsstr option"
  lm_lawType :: "jsstr option"
  lm_currentVersionId :: "jsstr option"
  lm_versions :: "VersionInfo list"

record LawVersion =
  lv_promulgationDate :: "jsstr option"
  lv_versionDate :: jsstr
  lv_status :: jsstr
  lv_isLatest :: bool
  lv_articles :: "ArticleRow list"

record OldLaw =
  ol_id :: jsstr
  ol_title :: jsstr
  ol_lawNumber :: "jsstr option"
  ol_lawType :: "jsstr option"
  ol_promulgationDate :: "jsstr option"
  ol_articles :: "ArticleRow list"

record ArticleReply =
  ay_articleNum :: jsstr
  ay_articleTitle :: "jsstr option"
  ay_paragraphs :: "(jsstr \<times> (jsstr \<times> jsstr) list) list"

record ReferenceReply =
  ry_sourceArticle :: jsstr
  ry_targetLawId :: "jsstr option"
  ry_targetArticle :: "jsstr option"
  ry_type :: jsstr
  ry_text :: jsstr
  ry_confidence :: rat
  ry_metadata :: "json option"

text \<open>The fields that only the new schema has are together in one; the field \<open>structure\<close> is always empty and is left out.\<close>

record VersionReply =
  vr_effectiveDate :: jsstr
  vr_status :: jsstr
  vr_isLatest :: bool
  vr_currentVersion :: jsstr
  vr_availableVersions :: "VersionInfo list"

record LawReply =
  ly_lawId :: jsstr
  ly_lawTitle :: jsstr
  ly_lawNum :: jsstr
  ly_lawType :: jsstr
  ly_promulgateDate :: "jsstr option"
  ly_version :: "VersionReply option"
  ly_articles :: "ArticleReply list"
  ly_references :: "ReferenceReply list"

definition article_reply :: "ArticleRow \<Rightarrow> ArticleReply" where
  "article_reply a =
     \<lparr>ay_articleNum = ar_articleNumber a, ay_articleTitle = ar_articleTitle a,
      ay_paragraphs = map (\<lambda>p. (pa_content p, map (\<lambda>i. (it_itemNumber i, it_content i)) (pa_items p))) (ar_paragraphs a)\<rparr>"

definition reference_reply :: "ReferenceRow \<Rightarrow> ReferenceReply" where
  "reference_reply r =
     \<lparr>ry_sourceArticle = rr_sourceArticle r, ry_targetLawId = rr_targetLawId r, ry_targetArticle = rr_targetArticle r,
      ry_type = rr_referenceType r, ry_text = rr_referenceText r, ry_confidence = rr_confidence r, ry_metadata = rr_metadata r\<rparr>"

definition target_version :: "jsstr \<Rightarrow> jsstr option \<Rightarrow> LawMaster \<Rightarrow> jsstr option" where
  "target_version lawId version master =
     (if truthy version then Some (lawId @ (str ''_'') @ the version)
      else if truthy (lm_currentVersionId master) then lm_currentVersionId master
      else case lm_versions master of v # _ \<Rightarrow> Some (vi_id v) | [] \<Rightarrow> None)"

definition version_reply :: "LawMaster \<Rightarrow> jsstr \<Rightarrow> LawVersion \<Rightarrow> ReferenceRow list \<Rightarrow> LawReply" where
  "version_reply master versionId v refs =
     \<lparr>ly_lawId = lm_id master, ly_lawTitle = lm_lawTitle master, ly_lawNum = or_str (lm_lawNumber master) [],
      ly_lawType = or_str (lm_lawType master) (str ''Act''), ly_promulgateDate = lv_promulgationDate v,
      ly_version = Some \<lparr>vr_effectiveDate = lv_versionDate v, vr_status = lv_status v, vr_isLatest = lv_isLatest v,
        vr_currentVersion = versionId, vr_availableVersions = lm_versions master\<rparr>,
      ly_articles = map article_reply (lv_articles v), ly_references = map reference_reply refs\<rparr>"

definition old_reply :: "OldLaw \<Rightarrow> ReferenceRow list \<Rightarrow> LawReply" where
  "old_reply law refs =
     \<lparr>ly_lawId = ol_id law, ly_lawTitle = ol_title law, ly_lawNum = or_str (ol_lawNumber law) [],
      ly_lawType = or_str (ol_lawType law) (str ''Act''), ly_promulgateDate = ol_promulgationDate law, ly_version = None,
      ly_articles = map article_reply (ol_articles law), ly_references = map reference_reply refs\<rparr>"

record LawQueries =
  q_master :: "jsstr \<Rightarrow> LawMaster option option"
  q_old :: "jsstr \<Rightarrow> OldLaw option option"
  q_version :: "jsstr \<Rightarrow> LawVersion option option"
  q_references :: "jsstr \<Rightarrow> ReferenceRow list option"

definition get_old_law :: "LawQueries \<Rightarrow> jsstr \<Rightarrow> LawReply response" where
  "get_old_law q lawId =
     (case q_old q lawId of
        None \<Rightarrow> ErrorReply 500 (str ''Failed to load law'')
      | Some None \<Rightarrow> ErrorReply 404 (str ''Law not found'')
      | Some (Some law) \<Rightarrow>
          (case q_references q lawId of
             None \<Rightarrow> ErrorReply 500 (str ''Failed to load law'')
           | Some refs \<Rightarrow> Reply (old_reply law refs)))"

definition get_version :: "LawQueries \<Rightarrow> jsstr \<Rightarrow> jsstr option \<Rightarrow> LawMaster \<Rightarrow> LawReply response" where
  "get_version q lawId version master =
     (case target_version lawId version master of
        None \<Rightarrow> ErrorReply 404 (str ''No version available for this law'')
      | Some versionId \<Rightarrow>
          (case q_version q versionId of
             None \<Rightarrow> ErrorReply 500 (str ''Failed to load law'')
           | Some None \<Rightarrow> ErrorReply 404 (str ''Law version not found'')
           | Some (Some v) \<Rightarrow>
               (case q_references q lawId of
                  None \<Rightarrow> ErrorReply 500 (str ''Failed to load law'')
                | Some refs \<Rightarrow> Reply (version_reply master versionId v refs))))"

definition get_law :: "LawQueries \<Rightarrow> jsstr \<Rightarrow> jsstr option \<Rightarrow> LawReply response" where
  "get_law q lawId version =
     (case q_master q lawId of
        None \<Rightarrow> ErrorReply 500 (str ''Failed to load law'')
      | Some None \<Rightarrow> get_old_law q lawId
      | Some (Some master) \<Rightarrow> get_version q lawId version master)"

section \<open>The references detected in a law\<close>

text \<open>The articles as the query returns them; \<open>None\<close> is \<open>undefined\<close>.\<close>

record SentenceOrColumn =
  sc_sentence :: "jsstr option"
  sc_column :: "jsstr option"

record QueriedArticle =
  qa_articleNum :: jsstr
  qa_paragraphs :: "SentenceOrColumn list option list option"

definition sentence_text :: "SentenceOrColumn \<Rightarrow> jsstr" where
  "sentence_text s = or_str (sc_sentence s) (or_str (sc_column s) [])"

text \<open>\<open>None\<close>: the article has no paragraphs to map over, a \<open>TypeError\<close>.\<close>

definition article_text :: "QueriedArticle \<Rightarrow> jsstr option" where
  "article_text a =
     map_option (\<lambda>ps. join (str '' '') (map (\<lambda>p. case p of None \<Rightarrow> [] | Some ss \<Rightarrow> concat (map sentence_text ss)) ps))
       (qa_paragraphs a)"

definition metadata_lawNumber :: "metadata \<Rightarrow> jsstr option" where
  "metadata_lawNumber m = (case m of ExpandedFrom abbreviation lawNumber category \<Rightarrow> lawNumber | _ \<Rightarrow> None)"

record DetectedReference =
  dr_sourceArticle :: jsstr
  dr_targetLaw :: "jsstr option"
  dr_targetArticle :: "jsstr option"
  dr_referenceType :: jsstr
  dr_referenceText :: jsstr
  dr_metadata :: metadata

definition detected_reference :: "jsstr \<Rightarrow> jsstr \<Rightarrow> Reference \<Rightarrow> DetectedReference" where
  "detected_reference lawId articleNum ref =
     \<lparr>dr_sourceArticle = articleNum,
      dr_targetLaw = (if r_type ref = (str ''external'') then metadata_lawNumber (r_metadata ref) else Some lawId),
      dr_targetArticle = r_targetArticle ref, dr_referenceType = r_type ref, dr_referenceText = r_sourceText ref,
      dr_metadata = r_metadata ref\<rparr>"

text \<open>The statement that merges a reference into the graph; its own failures are ignored.\<close>

record SavedEdge =
  se_fromLaw :: jsstr
  se_toLaw :: jsstr
  se_type :: jsstr
  se_article :: jsstr
  se_text :: jsstr

definition saved_edge :: "jsstr \<Rightarrow> jsstr \<Rightarrow> Reference \<Rightarrow> SavedEdge" where
  "saved_edge lawId articleNum ref =
     \<lparr>se_fromLaw = lawId,
      se_toLaw = (if r_type ref = (str ''external'') then or_str (metadata_lawNumber (r_metadata ref)) lawId else lawId),
      se_type = r_type ref, se_article = articleNum, se_text = r_sourceText ref\<rparr>"

text \<open>The loop over the articles, from a state of the detector: the references (\<open>None\<close> when an article throws) and the
  statements issued until then. \<open>clock k\<close> are the two readings of the clock in the call for article \<open>k\<close>. The outer
  \<open>None\<close> is a detector that does not return.\<close>

fun detect_articles :: "env \<Rightarrow> AbbreviationDictionary \<Rightarrow> (nat \<Rightarrow> int \<times> int) \<Rightarrow> jsstr \<Rightarrow> nat \<Rightarrow> QueriedArticle list \<Rightarrow>
    EnhancedReferenceDetectorV41 \<Rightarrow> (DetectedReference list option \<times> SavedEdge list) option" where
  "detect_articles e d clock lawId k [] v = Some (Some [], [])"
| "detect_articles e d clock lawId k (a # articles) v =
     (case article_text a of
        None \<Rightarrow> Some (None, [])
      | Some text \<Rightarrow>
          (case detectReferences e d (fst (clock k)) (snd (clock k)) text (Some (qa_articleNum a)) v of
             None \<Rightarrow> None
           | Some (detected, v') \<Rightarrow>
               map_option (\<lambda>(refs, edges).
                   (map_option (\<lambda>rs. map (detected_reference lawId (qa_articleNum a)) detected @ rs) refs,
                    map (saved_edge lawId (qa_articleNum a)) detected @ edges))
                 (detect_articles e d clock lawId (Suc k) articles v')))"

datatype 'g references_body = FromGraph "'g list" | Detected "DetectedReference list"

definition get_references :: "env \<Rightarrow> AbbreviationDictionary \<Rightarrow> (nat \<Rightarrow> int \<times> int) \<Rightarrow> (jsstr \<Rightarrow> 'g list option) \<Rightarrow>
    (jsstr \<Rightarrow> QueriedArticle list option option) \<Rightarrow> jsstr \<Rightarrow> ('g references_body response \<times> SavedEdge list) option" where
  "get_references e d clock graph find_law lawId =
     (case graph lawId of
        None \<Rightarrow> Some (ErrorReply 500 (str ''Failed to fetch references''), [])
      | Some (r # rs) \<Rightarrow> Some (Reply (FromGraph (r # rs)), [])
      | Some [] \<Rightarrow>
          (case find_law lawId of
             None \<Rightarrow> Some (ErrorReply 500 (str ''Failed to fetch references''), [])
           | Some None \<Rightarrow> Some (ErrorReply 404 (str ''Law not found''), [])
           | Some (Some articles) \<Rightarrow>
               map_option (\<lambda>(refs, edges).
                   (case refs of
                      None \<Rightarrow> ErrorReply 500 (str ''Failed to fetch references'')
                    | Some rs \<Rightarrow> Reply (Detected rs), edges))
                 (detect_articles e d clock lawId 0 articles new_detector)))"

section \<open>The impact of an amendment\<close>

record ImpactRow =
  ir_lawId :: jsstr
  ir_articleNumber :: jsstr
  ir_articleTitle :: "jsstr option"
  ir_impactLevel :: nat
  ir_pathCount :: nat

text \<open>At level 0 the distance score is infinite, and the minimum with 1 is 1. The numbers are rationals.\<close>

definition calculateImpactScore :: "nat \<Rightarrow> nat \<Rightarrow> rat" where
  "calculateImpactScore impactLevel pathCount =
     (if impactLevel = 0 then 1
      else
        (let distanceScore = 1 / (of_nat impactLevel * (1/2));
             pathScore = min (of_nat pathCount / 10) 1
         in min (distanceScore * (7/10) + pathScore * (3/10)) 1))"

record ScoredImpact =
  si_impact :: ImpactRow
  si_lawTitle :: jsstr
  si_lawType :: jsstr
  si_impactScore :: rat

record ImpactReply =
  ip_sourceLawId :: jsstr
  ip_sourceArticle :: jsstr
  ip_analysisDepth :: "int option"
  ip_totalImpacted :: nat
  ip_impactedLaws :: nat
  ip_impacts :: "ScoredImpact list"
  ip_summary :: "nat \<times> nat \<times> nat"
  ip_high :: "ScoredImpact list"
  ip_medium :: "ScoredImpact list"
  ip_low :: "ScoredImpact list"

text \<open>A row of the law table: identifier, title, type.\<close>

definition scored_impact :: "(jsstr, jsstr \<times> jsstr) jsmap \<Rightarrow> ImpactRow \<Rightarrow> ScoredImpact" where
  "scored_impact lawMap i =
     \<lparr>si_impact = i, si_lawTitle = or_str (map_option fst (map_of lawMap (ir_lawId i))) [0x4E0D, 0x660E],
      si_lawType = or_str (map_option snd (map_of lawMap (ir_lawId i))) [],
      si_impactScore = calculateImpactScore (ir_impactLevel i) (ir_pathCount i)\<rparr>"

definition impact_reply :: "jsstr \<Rightarrow> jsstr \<Rightarrow> int option \<Rightarrow> ImpactRow list \<Rightarrow> (jsstr, jsstr \<times> jsstr) jsmap \<Rightarrow> ImpactReply" where
  "impact_reply lawId articleNumber depth impacts lawMap =
     (let scored = map (scored_impact lawMap) impacts;
          high = filter (\<lambda>i. 7/10 \<le> si_impactScore i) scored;
          medium = filter (\<lambda>i. 4/10 \<le> si_impactScore i \<and> si_impactScore i < 7/10) scored;
          low = filter (\<lambda>i. si_impactScore i < 4/10) scored
      in \<lparr>ip_sourceLawId = lawId, ip_sourceArticle = articleNumber, ip_analysisDepth = depth,
          ip_totalImpacted = length impacts, ip_impactedLaws = length (first_by (\<lambda>x. x) [] (map ir_lawId impacts)),
          ip_impacts = scored, ip_summary = (length high, length medium, length low),
          ip_high = high, ip_medium = medium, ip_low = low\<rparr>)"

text \<open>\<open>new Map(laws.map(...))\<close>: a later row with the same key replaces the value.\<close>

definition get_impact :: "(jsstr \<Rightarrow> jsstr \<Rightarrow> int option \<Rightarrow> ImpactRow list option) \<Rightarrow>
    (jsstr list \<Rightarrow> (jsstr \<times> jsstr \<times> jsstr) list option) \<Rightarrow> jsstr \<Rightarrow> jsstr option \<Rightarrow> jsstr option \<Rightarrow> ImpactReply response" where
  "get_impact analyze find_laws lawId article_param depth_param =
     (let depth = parse_int (or_str depth_param (str ''3''))
      in if \<not> truthy article_param then ErrorReply 400 [c_jou, 0x756A, c_gou, h_wo, 0x6307, c_tei, h_shi, h_te, h_ku, 0x3060, h_sa, h_i]
         else if nle depth 0 \<or> ngt depth 5 then ErrorReply 400 [0x63A2, 0x7D22, 0x6DF1, 0x5EA6, h_ha, 0x31, h_ka, h_ra, 0x35, h_no, 0x9593, h_de, 0x6307, c_tei, h_shi, h_te, h_ku, 0x3060, h_sa, h_i]
         else
           (case analyze lawId (the article_param) depth of
              None \<Rightarrow> ErrorReply 500 [0x5F71, 0x97FF, 0x5206, 0x6790, h_no, 0x5B9F, 0x884C, h_ni, 0x5931, 0x6557, h_shi, h_ma, h_shi, h_ta]
            | Some impacts \<Rightarrow>
                (case find_laws (first_by (\<lambda>x. x) [] (map ir_lawId impacts)) of
                   None \<Rightarrow> ErrorReply 500 [0x5F71, 0x97FF, 0x5206, 0x6790, h_no, 0x5B9F, 0x884C, h_ni, 0x5931, 0x6557, h_shi, h_ma, h_shi, h_ta]
                 | Some laws \<Rightarrow>
                     Reply (impact_reply lawId (the article_param) depth impacts
                       (foldl (\<lambda>m (k, x). AList.update k x m) [] laws)))))"

section \<open>The reference graph\<close>

text \<open>A node of the graph database: its labels and the properties the code reads. A property that is not set is
  printed as \<open>undefined\<close> in a label.\<close>

record NeoNode =
  nn_labels :: "jsstr list"
  nn_id :: jsstr
  nn_number :: "jsstr option"
  nn_title :: "jsstr option"

record GraphNode =
  gn_id :: jsstr
  gn_label :: "jsstr option"
  gn_type :: jsstr

record GraphEdge =
  ge_source :: jsstr
  ge_target :: jsstr
  ge_type :: jsstr

definition article_label :: "NeoNode \<Rightarrow> jsstr" where
  "article_label n = [c_dai] @ (case nn_number n of None \<Rightarrow> (str ''undefined'') | Some s \<Rightarrow> s) @ [c_jou]"

definition add_source :: "NeoNode option \<Rightarrow> (jsstr, GraphNode) jsmap \<Rightarrow> (jsstr, GraphNode) jsmap" where
  "add_source source nodes =
     (case source of
        None \<Rightarrow> nodes
      | Some s \<Rightarrow>
          if map_has nodes (nn_id s) then nodes
          else AList.update (nn_id s) \<lparr>gn_id = nn_id s, gn_label = Some (article_label s), gn_type = (str ''article'')\<rparr> nodes)"

text \<open>\<open>None\<close>: a node without labels, whose type cannot be read.\<close>

definition add_target :: "env \<Rightarrow> NeoNode \<Rightarrow> (jsstr, GraphNode) jsmap \<Rightarrow> (jsstr, GraphNode) jsmap option" where
  "add_target e t nodes =
     (if map_has nodes (nn_id t) then Some nodes
      else case nn_labels t of
        [] \<Rightarrow> None
      | l # _ \<Rightarrow>
          Some (AList.update (nn_id t)
            \<lparr>gn_id = nn_id t, gn_label = (if l = (str ''Law'') then nn_title t else Some (article_label t)),
             gn_type = toLowerCase e l\<rparr> nodes))"

text \<open>One record: the article, the relationship (its type) and the related node. An edge needs the article.\<close>

definition add_record :: "env \<Rightarrow> NeoNode option \<times> jsstr option \<times> NeoNode option \<Rightarrow>
    (jsstr, GraphNode) jsmap \<times> GraphEdge list \<Rightarrow> ((jsstr, GraphNode) jsmap \<times> GraphEdge list) option" where
  "add_record e row graph =
     (case row of (source, relationship, target) \<Rightarrow>
        (let nodes = add_source source (fst graph)
         in case (target, relationship) of
              (Some t, Some rel) \<Rightarrow>
                (case (add_target e t nodes, source) of
                   (Some nodes', Some s) \<Rightarrow>
                     Some (nodes', snd graph @ [\<lparr>ge_source = nn_id s, ge_target = nn_id t, ge_type = rel\<rparr>])
                 | _ \<Rightarrow> None)
            | _ \<Rightarrow> Some (nodes, snd graph)))"

definition getReferenceGraph :: "env \<Rightarrow> (NeoNode option \<times> jsstr option \<times> NeoNode option) list \<Rightarrow> (GraphNode list \<times> GraphEdge list) option" where
  "getReferenceGraph e records =
     map_option (\<lambda>(nodes, edges). (map snd nodes, edges))
       (foldl (\<lambda>g row. Option.bind g (add_record e row)) (Some ([], [])) records)"

section \<open>The references of an article\<close>

record ArticleReference =
  an_type :: "jsstr option"
  an_text :: "jsstr option"
  an_confidence :: "rat option"
  an_targetLawId :: "jsstr option"
  an_targetArticle :: "jsstr option"

definition getArticleReferences :: "ArticleReference list \<Rightarrow> ArticleReference list" where
  "getArticleReferences records =
     map (\<lambda>r. r\<lparr>an_confidence := Some (or_default (an_confidence r) 1)\<rparr>) (filter (\<lambda>r. an_type r \<noteq> None) records)"

definition mapRelationType :: "env \<Rightarrow> jsstr \<Rightarrow> jsstr" where
  "mapRelationType e relType =
     (case map_of [((str ''REFERS_TO''), (str ''internal'')), ((str ''REFERS_TO_LAW''), (str ''external'')), ((str ''RELATIVE_REF''), (str ''relative'')),
          ((str ''APPLIES''), (str ''application''))] relType of
        Some t \<Rightarrow> t
      | None \<Rightarrow> toLowerCase e relType)"

section \<open>Pages\<close>

lemma parse_int_nat_str: "parse_int (nat_str n) = Some (int n)"
  using parse_int_digits [of "nat_str n"] by (simp add: nat_str_digits)

lemma chunks: "concat (map (\<lambda>p. take l (drop ((p - 1) * l) xs)) [1..<Suc n]) = take (n * l) xs"
proof (induction n)
  case (Suc n)
  have "take (l + n * l) xs = take (n * l) xs @ take l (drop (n * l) xs)" by (metis add.commute take_add)
  with Suc show ?case by simp
qed simp

lemma total_pages_cover:
  assumes "0 < l"
  obtains n where "total_pages m (Some (int l)) = Some (int n)" "m \<le> n * l"
proof -
  let ?q = "(- int m) div int l"
  have "?q * int l + (- int m) mod int l = - int m" by (rule div_mult_mod_eq)
  moreover have "0 \<le> (- int m) mod int l" using assms by simp
  ultimately have cover: "int m \<le> - ?q * int l" by linarith
  have "?q \<le> 0" using assms by (simp add: div_nonpos_pos_le0)
  then have n: "- ?q = int (nat (- ?q))" by simp
  show thesis
  proof (rule that [of "nat (- ?q)"])
    show "total_pages m (Some (int l)) = Some (int (nat (- ?q)))" using assms n by (simp add: total_pages_def)
    show "m \<le> nat (- ?q) * l" using cover n by (metis of_nat_le_iff of_nat_mult)
  qed
qed

definition reply_data :: "'r LawsPage response \<Rightarrow> 'r list" where
  "reply_data r = (case r of Reply page \<Rightarrow> lp_data page | ErrorReply _ _ \<Rightarrow> [])"

section \<open>Detection over the articles of a law\<close>






section \<open>Scores\<close>

lemma score_formula:
  "0 < n \<Longrightarrow> calculateImpactScore n p = min (14/10 / of_nat n + 3/10 * min (of_nat p / 10) 1) 1"
  by (simp add: calculateImpactScore_def Let_def)

lemma score_range: "0 < n \<Longrightarrow> 0 < calculateImpactScore n p \<and> calculateImpactScore n p \<le> 1"
  by (auto simp: score_formula intro: add_pos_nonneg)

lemma score_near:
  assumes "0 < n" "n \<le> 2"
  shows "7/10 \<le> calculateImpactScore n p"
proof -
  have "n = 1 \<or> n = 2" using assms by auto
  then show ?thesis using assms(1) by (auto simp: score_formula)
qed

lemma score_order:
  assumes "0 < n" "n \<le> m" "q \<le> p"
  shows "calculateImpactScore m q \<le> calculateImpactScore n p"
proof -
  have "14/10 / of_nat m \<le> (14/10 / of_nat n :: rat)" using assms(1,2) by (intro divide_left_mono) auto
  moreover have "3/10 * min (of_nat q / 10) 1 \<le> (3/10 * min (of_nat p / 10) 1 :: rat)"
    using assms(3) by (intro mult_left_mono min.mono divide_right_mono) auto
  ultimately show ?thesis using assms by (auto simp: score_formula intro: min.mono add_mono)
qed

section \<open>Graphs\<close>

text \<open>A node is stored under its own identifier, and both ends of an edge are nodes.\<close>

definition graph_ok :: "(jsstr, GraphNode) jsmap \<times> GraphEdge list \<Rightarrow> bool" where
  "graph_ok g \<longleftrightarrow> map_wf (fst g) \<and> list_all (\<lambda>(k, n). gn_id n = k) (fst g) \<and>
     list_all (\<lambda>ed. map_has (fst g) (ge_source ed) \<and> map_has (fst g) (ge_target ed)) (snd g)"

lemma named_update:
  assumes "list_all (\<lambda>(k, n). gn_id n = k) nodes" "gn_id n = k"
  shows "list_all (\<lambda>(k, n). gn_id n = k) (AList.update k n nodes)"
  using assms by (induction nodes) auto

lemma map_has_update: "map_has (AList.update k x m) j \<longleftrightarrow> j = k \<or> map_has m j"
  by (auto simp: map_has_def update_conv')

lemma add_source_ok:
  assumes "graph_ok (nodes, edges)"
  shows "graph_ok (add_source s nodes, edges)" "s = Some n \<Longrightarrow> map_has (add_source s nodes) (nn_id n)"
  using assms
  by (auto simp: graph_ok_def add_source_def jsm.wf_put named_update map_has_update list_all_iff [of _ edges] split: option.splits)

lemma add_target_ok:
  assumes "graph_ok (nodes, edges)" "add_target e n nodes = Some nodes'"
  shows "graph_ok (nodes', edges)" "map_has nodes' (nn_id n)" "map_has nodes k \<Longrightarrow> map_has nodes' k"
  using assms
  by (auto simp: graph_ok_def add_target_def jsm.wf_put named_update map_has_update list_all_iff [of _ edges] split: if_splits list.splits)

lemma add_record_ok:
  assumes "graph_ok g" "add_record e row g = Some g'"
  shows "graph_ok g'"
proof -
  obtain nodes edges where g: "g = (nodes, edges)" by force
  obtain s r t where row: "row = (s, r, t)" by (cases row)
  note src = add_source_ok [OF assms(1) [unfolded g], of s]
  show ?thesis
  proof (cases "t = None \<or> r = None")
    case True
    with assms(2) src(1) show ?thesis by (auto simp: g row add_record_def Let_def split: option.splits)
  next
    case False
    then obtain t' r' where "t = Some t'" "r = Some r'" by auto
    with assms(2) obtain s' nodes' where s: "s = Some s'" and tgt: "add_target e t' (add_source s nodes) = Some nodes'"
      and g': "g' = (nodes', edges @ [\<lparr>ge_source = nn_id s', ge_target = nn_id t', ge_type = r'\<rparr>])"
      by (auto simp: g row add_record_def Let_def split: option.splits)
    with add_target_ok [OF src(1) tgt] src(2) [OF s] show ?thesis by (auto simp: graph_ok_def)
  qed
qed

interpretation graphing: invariant_machine "\<lambda>g row. Option.bind g (add_record e row)" "\<lambda>g. \<forall>x. g = Some x \<longrightarrow> graph_ok x" "\<lambda>_. True" for e
  by unfold_locales (auto simp: bind_eq_Some_conv intro: add_record_ok)

lemma graph_run: "foldl (\<lambda>g row. Option.bind g (add_record e row)) (Some ([], [])) rows = Some g \<Longrightarrow> graph_ok g"
  using graphing.run_inv [of "Some ([], [])" rows e] by (simp add: graph_ok_def map_wf_def list_all_iff)

section \<open>Properties\<close>




text \<open>C29: when the graph database answers with levels and path counts of at least one, a successful answer
  of the impact endpoint was asked for an article, sorts every impact into exactly one of the three groups, with the
  counts of the summary; the scores lie in (0, 1]; what is at most two steps away is in the high group; and a nearer
  article with no fewer paths never scores less.\<close>

theorem impact_endpoint:
  assumes "\<And>l a n rows i. analyze l a n = Some rows \<Longrightarrow> i \<in> set rows \<Longrightarrow> 1 \<le> ir_impactLevel i \<and> 1 \<le> ir_pathCount i"
    and "get_impact analyze find_laws lawId article depth = Reply r"
  shows "truthy article \<and> ip_summary r = (length (ip_high r), length (ip_medium r), length (ip_low r)) \<and>
    length (ip_high r) + length (ip_medium r) + length (ip_low r) = ip_totalImpacted r \<and> length (ip_impacts r) = ip_totalImpacted r \<and>
    set (ip_impacts r) = set (ip_high r) \<union> set (ip_medium r) \<union> set (ip_low r) \<and>
    set (ip_high r) \<inter> set (ip_medium r) = {} \<and> set (ip_high r) \<inter> set (ip_low r) = {} \<and> set (ip_medium r) \<inter> set (ip_low r) = {} \<and>
    (\<forall>i \<in> set (ip_impacts r). 0 < si_impactScore i \<and> si_impactScore i \<le> 1 \<and>
       (ir_impactLevel (si_impact i) \<le> 2 \<longrightarrow> i \<in> set (ip_high r)) \<and>
       (\<forall>j \<in> set (ip_impacts r). ir_impactLevel (si_impact i) \<le> ir_impactLevel (si_impact j) \<and>
          ir_pathCount (si_impact j) \<le> ir_pathCount (si_impact i) \<longrightarrow> si_impactScore j \<le> si_impactScore i))"
proof -
  obtain rows m where t: "truthy article" and rows: "analyze lawId (the article) (parse_int (or_str depth (str ''3''))) = Some rows"
    and r: "r = impact_reply lawId (the article) (parse_int (or_str depth (str ''3''))) rows m"
    using assms(2) unfolding get_impact_def Let_def by (auto split: if_splits option.splits)
  have level: "0 < ir_impactLevel i" if "i \<in> set rows" for i using assms(1) [OF rows that] by simp
  have three: "length (filter (\<lambda>i. 7/10 \<le> si_impactScore i) xs) + length (filter (\<lambda>i. 4/10 \<le> si_impactScore i \<and> si_impactScore i < 7/10) xs)
      + length (filter (\<lambda>i. si_impactScore i < 4/10) xs) = length xs" for xs :: "ScoredImpact list"
    by (induction xs) (auto simp: not_less)
  have "i \<in> set (ip_high r)" if "i \<in> set (ip_impacts r)" "ir_impactLevel (si_impact i) \<le> 2" for i
    using that level score_near by (auto simp: r impact_reply_def Let_def scored_impact_def)
  moreover have "0 < si_impactScore i \<and> si_impactScore i \<le> 1" if "i \<in> set (ip_impacts r)" for i
    using that level score_range by (auto simp: r impact_reply_def Let_def scored_impact_def)
  moreover have "si_impactScore j \<le> si_impactScore i" if "i \<in> set (ip_impacts r)" "j \<in> set (ip_impacts r)"
    "ir_impactLevel (si_impact i) \<le> ir_impactLevel (si_impact j)" "ir_pathCount (si_impact j) \<le> ir_pathCount (si_impact i)" for i j
    using that level score_order by (auto simp: r impact_reply_def Let_def scored_impact_def)
  moreover have "set (ip_impacts r) = set (ip_high r) \<union> set (ip_medium r) \<union> set (ip_low r)"
    "set (ip_high r) \<inter> set (ip_medium r) = {}" "set (ip_high r) \<inter> set (ip_low r) = {}" "set (ip_medium r) \<inter> set (ip_low r) = {}"
    by (auto simp: r impact_reply_def Let_def)
  moreover have "length (ip_high r) + length (ip_medium r) + length (ip_low r) = ip_totalImpacted r" "length (ip_impacts r) = ip_totalImpacted r"
    "ip_summary r = (length (ip_high r), length (ip_medium r), length (ip_low r))"
    using three [of "map (scored_impact m) rows"] by (simp_all add: r impact_reply_def Let_def)
  ultimately show ?thesis using t by blast
qed

definition sample_impact :: ImpactRow where
  "sample_impact = \<lparr>ir_lawId = (str ''A''), ir_articleNumber = (str ''1''), ir_articleTitle = None, ir_impactLevel = 2, ir_pathCount = 3\<rparr>"

theorem impact_endpoint_witness:
  "\<exists>r. get_impact (\<lambda>_ _ _. Some [sample_impact]) (\<lambda>_. Some []) (str ''L'') (Some (str ''5'')) None = Reply r \<and>
     length (ip_high r) + length (ip_medium r) + length (ip_low r) = 1"
proof -
  define r where "r = impact_reply (str ''L'') (str ''5'') (Some 3) [sample_impact] []"
  have "parse_int (str ''3'') = Some 3" by code_simp
  then have r: "get_impact (\<lambda>_ _ _. Some [sample_impact]) (\<lambda>_. Some []) (str ''L'') (Some (str ''5'')) None = Reply r"
    by (simp add: get_impact_def or_str_def truthy_def r_def)
  have "length (ip_high r) + length (ip_medium r) + length (ip_low r) = ip_totalImpacted r"
  proof (rule impact_endpoint [THEN conjunct2, THEN conjunct2, THEN conjunct1, OF _ r])
    show "1 \<le> ir_impactLevel i \<and> 1 \<le> ir_pathCount i" if "Some [sample_impact] = Some rows" "i \<in> set rows" for rows i
      using that by (auto simp: sample_impact_def)
  qed
  moreover have "ip_totalImpacted r = 1" by (simp add: r_def impact_reply_def Let_def)
  ultimately show ?thesis using r by simp
qed

text \<open>over a table that answers \<open>skip\<close> and \<open>take\<close> as documented, every page of the list of laws succeeds
  with the same total and the same number of pages, and the pages from one to that number, put together, are the
  matching laws in their order, each once.\<close>

theorem pages_cover:
  assumes "\<And>c s l. 0 \<le> s \<Longrightarrow> 0 < l \<Longrightarrow> find_many c (Some s) (Some l) = Some (take (nat l) (drop (nat s) (rows c)))"
    and "\<And>c. count c = Some (length (rows c))" and "0 < limit"
  shows "\<exists>n. (\<forall>p. 0 < p \<longrightarrow> (\<exists>r. get_laws find_many count (Some (nat_str p)) (Some (nat_str limit)) query = Reply r \<and>
      lp_total r = length (rows (law_clause query)) \<and> lp_totalPages r = Some (int n))) \<and>
    concat (map (\<lambda>p. reply_data (get_laws find_many count (Some (nat_str p)) (Some (nat_str limit)) query)) [1..<Suc n]) =
      rows (law_clause query)"
proof -
  let ?rows = "rows (law_clause query)"
  obtain n where n: "total_pages (length ?rows) (Some (int limit)) = Some (int n)" "length ?rows \<le> n * limit"
    using total_pages_cover [OF assms(3)] by blast
  have page: "get_laws find_many count (Some (nat_str p)) (Some (nat_str limit)) query =
      Reply \<lparr>lp_data = take limit (drop ((p - 1) * limit) ?rows), lp_page = Some (int p), lp_limit = Some (int limit),
        lp_total = length ?rows, lp_totalPages = Some (int n)\<rparr>" if "0 < p" for p
  proof -
    have "skip_of (Some (int p)) (Some (int limit)) = Some (int ((p - 1) * limit))"
      using that by (simp add: skip_of_def of_nat_diff)
    with n(1) assms show ?thesis
      by (simp add: get_laws_def Let_def or_str_def parse_int_nat_str nat_int del: of_nat_mult)
  qed
  have "map (\<lambda>p. reply_data (get_laws find_many count (Some (nat_str p)) (Some (nat_str limit)) query)) [1..<Suc n] =
      map (\<lambda>p. take limit (drop ((p - 1) * limit) ?rows)) [1..<Suc n]"
    by (rule map_cong) (auto simp: page reply_data_def)
  then have "concat (map (\<lambda>p. reply_data (get_laws find_many count (Some (nat_str p)) (Some (nat_str limit)) query)) [1..<Suc n]) = ?rows"
    using n(2) by (simp only: chunks) simp
  with page show ?thesis by auto
qed

definition sample_table :: "law_filter \<Rightarrow> int option \<Rightarrow> int option \<Rightarrow> nat list option" where
  "sample_table c s l = Some (take (nat (the l)) (drop (nat (the s)) [10, 20, 30]))"

theorem pages_cover_witness:
  "\<exists>n. concat (map (\<lambda>p. reply_data (get_laws sample_table (\<lambda>_. Some 3) (Some (nat_str p)) (Some (nat_str 2)) None)) [1..<Suc n]) = [10, 20, 30]"
proof -
  have "\<exists>n. (\<forall>p. 0 < p \<longrightarrow> (\<exists>r. get_laws sample_table (\<lambda>_. Some 3) (Some (nat_str p)) (Some (nat_str 2)) None = Reply r \<and>
      lp_total r = length [10, 20, 30 :: nat] \<and> lp_totalPages r = Some (int n))) \<and>
    concat (map (\<lambda>p. reply_data (get_laws sample_table (\<lambda>_. Some 3) (Some (nat_str p)) (Some (nat_str 2)) None)) [1..<Suc n]) = [10, 20, 30]"
    by (rule pages_cover [where rows = "\<lambda>_. [10, 20, 30]"]) (simp_all add: sample_table_def)
  then show ?thesis by blast
qed

text \<open>in a reference graph every identifier belongs to one node, and both ends of every edge are nodes of
  the graph.\<close>

theorem graph_closed:
  assumes "getReferenceGraph e records = Some (nodes, edges)"
  shows "distinct (map gn_id nodes) \<and> (\<forall>ed \<in> set edges. ge_source ed \<in> gn_id ` set nodes \<and> ge_target ed \<in> gn_id ` set nodes)"
proof -
  obtain m where m: "foldl (\<lambda>g row. Option.bind g (add_record e row)) (Some ([], [])) records = Some (m, edges)" and nodes: "nodes = map snd m"
    using assms by (auto simp: getReferenceGraph_def)
  have ok: "map_wf m" "list_all (\<lambda>(k, n). gn_id n = k) m"
    "list_all (\<lambda>ed. map_has m (ge_source ed) \<and> map_has m (ge_target ed)) edges"
    using graph_run [OF m] by (simp_all add: graph_ok_def)
  have ids: "map gn_id nodes = map_keys m" using ok(2) by (auto simp: nodes map_keys_def list_all_iff)
  then have "gn_id ` set nodes = set (map_keys m)" by (metis set_map)
  with ok ids show ?thesis by (simp add: map_wf_def map_keys_def list_all_iff map_has_iff)
qed

theorem graph_closed_witness:
  "\<exists>nodes edges. getReferenceGraph sample_env [(Some \<lparr>nn_labels = [(str ''Article'')], nn_id = (str ''a''), nn_number = Some (str ''1''), nn_title = None\<rparr>, Some (str ''APPLIES''),
       Some \<lparr>nn_labels = [(str ''Law'')], nn_id = (str ''b''), nn_number = None, nn_title = Some [c_min, c_hou]\<rparr>)] = Some (nodes, edges) \<and>
     length edges = 1 \<and> distinct (map gn_id nodes)"
proof -
  obtain nodes edges where g: "getReferenceGraph sample_env [(Some \<lparr>nn_labels = [(str ''Article'')], nn_id = (str ''a''), nn_number = Some (str ''1''), nn_title = None\<rparr>, Some (str ''APPLIES''),
       Some \<lparr>nn_labels = [(str ''Law'')], nn_id = (str ''b''), nn_number = None, nn_title = Some [c_min, c_hou]\<rparr>)] = Some (nodes, edges)" "length edges = 1"
    by (auto simp: getReferenceGraph_def add_record_def add_source_def add_target_def map_has_def Let_def)
  with graph_closed [OF g(1)] show ?thesis by blast
qed

section \<open>Findings\<close>

text \<open>A reference that the patterns find in another law carries no law number: it is stored as an edge from the law to
  itself, and the response gives no target law.\<close>

lemma external_stored_at_home:
  "se_toLaw (saved_edge lawId a (external_reference m)) = lawId \<and> dr_targetLaw (detected_reference lawId a (external_reference m)) = None"
  by (simp add: saved_edge_def detected_reference_def external_reference_def match_reference_def metadata_lawNumber_def or_str_def)

text \<open>The query includes the articles but not their paragraphs, which are a relation of their own: the endpoint fails for
  every law that has an article.\<close>

lemma articles_without_paragraphs:
  assumes "graph lawId = Some []" "find_law lawId = Some (Some (a # articles))" "qa_paragraphs a = None"
  shows "get_references e d clock graph find_law lawId = Some (ErrorReply 500 (str ''Failed to fetch references''), [])"
  using assms by (simp add: get_references_def article_text_def)

text \<open>A depth that is no number passes both comparisons and reaches the database.\<close>

lemma depth_not_checked:
  "get_impact analyze find_laws lawId (Some (str ''1'')) (Some (str ''x'')) =
     (case analyze lawId (str ''1'') None of None \<Rightarrow> ErrorReply 500 [0x5F71, 0x97FF, 0x5206, 0x6790, h_no, 0x5B9F, 0x884C, h_ni, 0x5931, 0x6557, h_shi, h_ma, h_shi, h_ta]
      | Some impacts \<Rightarrow> get_impact (\<lambda>_ _ _. Some impacts) find_laws lawId (Some (str ''1'')) (Some (str ''x'')))"
proof -
  have "parse_int (str ''x'') = None" by code_simp
  then show ?thesis by (auto simp: get_impact_def or_str_def truthy_def Let_def split: option.splits)
qed


end
