(* ===== verification/Migration.thy ===== *)
theory Migration
  imports ArticleNormalizer Markup WebApi
begin

text \<open>
  \<^verbatim>\<open>scripts/normalize-article-numbers.ts\<close>: the script that rewrites the article numbers of the stored references, of the
  article nodes and of the reference edges to the numeric form. A query yields rows or throws (\<open>None\<close>); whether the
  update of a row throws is a parameter. A run yields its counters and the updates that were carried out, as data;
  \<open>apply_updates\<close> is the effect of those updates on the rows.
\<close>

section \<open>State\<close>

record Counts =
  ct_total :: nat
  ct_updated :: nat
  ct_failed :: nat

text \<open>The counters of the PostgreSQL articles are never changed and are left out.\<close>

record MigrationStats =
  ms_references :: Counts
  ms_nodes :: Counts
  ms_edges :: Counts

definition no_counts :: Counts where
  "no_counts = \<lparr>ct_total = 0, ct_updated = 0, ct_failed = 0\<rparr>"

text \<open>The new number, when a field has a number and it changes.\<close>

definition changed_number :: "jsstr option \<Rightarrow> jsstr option" where
  "changed_number field =
     (if truthy field
      then (let normalized = toNumericFormat (the field) in if normalized \<noteq> the field then Some normalized else None)
      else None)"

section \<open>The loops\<close>

text \<open>The loop that the three methods share: for each row its update, if any, which may throw.\<close>

definition update_row :: "('r \<Rightarrow> 'u option) \<Rightarrow> ('r \<Rightarrow> bool) \<Rightarrow> Counts \<times> 'u list \<Rightarrow> 'r \<Rightarrow> Counts \<times> 'u list" where
  "update_row updates fails st row =
     (case updates row of
        None \<Rightarrow> st
      | Some u \<Rightarrow>
          if fails row then ((fst st)\<lparr>ct_failed := ct_failed (fst st) + 1\<rparr>, snd st)
          else ((fst st)\<lparr>ct_updated := ct_updated (fst st) + 1\<rparr>, snd st @ [u]))"

definition normalize_rows :: "('r \<Rightarrow> 'u option) \<Rightarrow> ('r \<Rightarrow> bool) \<Rightarrow> 'r list option \<Rightarrow> Counts \<Rightarrow> Counts \<times> 'u list" where
  "normalize_rows updates fails answer counts =
     (case answer of
        None \<Rightarrow> (counts, [])
      | Some rows \<Rightarrow> foldl (update_row updates fails) (counts\<lparr>ct_total := length rows\<rparr>, []) rows)"

section \<open>What each row is updated to\<close>

record RowUpdate =
  ru_id :: jsstr
  ru_sourceArticle :: "jsstr option"
  ru_targetArticle :: "jsstr option"

definition reference_update :: "ReferenceRow \<Rightarrow> RowUpdate option" where
  "reference_update ref =
     (let s = changed_number (Some (rr_sourceArticle ref)); t = changed_number (rr_targetArticle ref)
      in if s = None \<and> t = None then None
         else Some \<lparr>ru_id = rr_id ref, ru_sourceArticle = s, ru_targetArticle = t\<rparr>)"

definition normalizePostgreSQLReferences :: "(ReferenceRow \<Rightarrow> bool) \<Rightarrow> ReferenceRow list option \<Rightarrow> Counts \<Rightarrow> Counts \<times> RowUpdate list" where
  "normalizePostgreSQLReferences fails answer counts = normalize_rows reference_update fails answer counts"

record NodeUpdate =
  nu_nodeId :: int
  nu_number :: jsstr
  nu_displayNumber :: jsstr
  nu_originalNumber :: jsstr

text \<open>A node is its identity and the property \<open>number\<close>.\<close>

definition node_update :: "int \<times> jsstr option \<Rightarrow> NodeUpdate option" where
  "node_update node =
     map_option (\<lambda>n. \<lparr>nu_nodeId = fst node, nu_number = n, nu_displayNumber = [c_dai] @ n @ [c_jou], nu_originalNumber = the (snd node)\<rparr>)
       (changed_number (snd node))"

definition normalizeNeo4jArticles :: "(int \<times> jsstr option \<Rightarrow> bool) \<Rightarrow> (int \<times> jsstr option) list option \<Rightarrow> Counts \<Rightarrow> Counts \<times> NodeUpdate list" where
  "normalizeNeo4jArticles fails answer counts = normalize_rows node_update fails answer counts"

record EdgeUpdate =
  eu_edgeId :: int
  eu_properties :: "(jsstr \<times> jsstr) list"

text \<open>An edge is its identity and the properties \<open>sourceArticle\<close> and \<open>targetArticle\<close>; the update lists the properties in
  the order of the \<open>SET\<close> clause.\<close>

definition edge_update :: "int \<times> jsstr option \<times> jsstr option \<Rightarrow> EdgeUpdate option" where
  "edge_update edge =
     (let props = (case changed_number (fst (snd edge)) of None \<Rightarrow> []
             | Some n \<Rightarrow> [((str ''sourceArticle''), n), ((str ''sourceArticleDisplay''), [c_dai] @ n @ [c_jou])]) @
            (case changed_number (snd (snd edge)) of None \<Rightarrow> []
             | Some n \<Rightarrow> [((str ''targetArticle''), n), ((str ''targetArticleDisplay''), [c_dai] @ n @ [c_jou])])
      in if props = [] then None else Some \<lparr>eu_edgeId = fst edge, eu_properties = props\<rparr>)"

definition normalizeNeo4jReferences :: "(int \<times> jsstr option \<times> jsstr option \<Rightarrow> bool) \<Rightarrow> (int \<times> jsstr option \<times> jsstr option) list option \<Rightarrow>
    Counts \<Rightarrow> Counts \<times> EdgeUpdate list" where
  "normalizeNeo4jReferences fails answer counts = normalize_rows edge_update fails answer counts"

definition displayStats :: "MigrationStats \<Rightarrow> nat \<times> nat" where
  "displayStats st =
     (ct_updated (ms_references st) + ct_updated (ms_nodes st) + ct_updated (ms_edges st),
      ct_failed (ms_references st) + ct_failed (ms_nodes st) + ct_failed (ms_edges st))"

section \<open>The script\<close>

text \<open>The databases a run meets: what the queries answer and which updates throw.\<close>

record Databases =
  db_references :: "ReferenceRow list option"
  db_nodes :: "(int \<times> jsstr option) list option"
  db_edges :: "(int \<times> jsstr option \<times> jsstr option) list option"
  db_reference_fails :: "ReferenceRow \<Rightarrow> bool"
  db_node_fails :: "int \<times> jsstr option \<Rightarrow> bool"
  db_edge_fails :: "int \<times> jsstr option \<times> jsstr option \<Rightarrow> bool"

record RunResult =
  rn_backup :: bool
  rn_references :: "RowUpdate list"
  rn_nodes :: "NodeUpdate list"
  rn_edges :: "EdgeUpdate list"
  rn_stats :: MigrationStats

definition main :: "Databases \<Rightarrow> jsstr list \<Rightarrow> RunResult" where
  "main db args =
     (let skipBackup = ((str ''--skip-backup'') \<in> set args);
          postgresOnly = ((str ''--postgres-only'') \<in> set args);
          neo4jOnly = ((str ''--neo4j-only'') \<in> set args);
          dryRun = ((str ''--dry-run'') \<in> set args);
          refs = (if neo4jOnly then (no_counts, [])
                  else normalizePostgreSQLReferences (db_reference_fails db) (db_references db) no_counts);
          nodes = (if postgresOnly then (no_counts, []) else normalizeNeo4jArticles (db_node_fails db) (db_nodes db) no_counts);
          edges = (if postgresOnly then (no_counts, []) else normalizeNeo4jReferences (db_edge_fails db) (db_edges db) no_counts)
      in \<lparr>rn_backup = (\<not> skipBackup \<and> \<not> dryRun), rn_references = snd refs, rn_nodes = snd nodes, rn_edges = snd edges,
          rn_stats = \<lparr>ms_references = fst refs, ms_nodes = fst nodes, ms_edges = fst edges\<rparr>\<rparr>)"

section \<open>The numeric form is a fixed point\<close>

lemma digits_only:
  assumes "list_all is_digit ds"
  shows "rx_match (rseq [RLit [c_dai], RGrp 1 (rplus (RCls False rng_digit)), RLit [c_jou]]) ds = None" "rx_match (rseq [RBol, RGrp 1 (rplus (RCls False rng_digit)), RLit [c_jou], REol]) ds = None"
proof -
  have suf: "\<not> starts_with u (c # w)" if "suffix u ds" "\<not> is_digit c" for u c w
    using that assms by (cases u) (auto simp: suffix_def starts_with_def list_all_iff)
  have "clear_of [c_dai] ds" using assms by (intro clear_of_char) (auto simp: list_all_iff is_digit_def)
  then show "rx_match (rseq [RLit [c_dai], RGrp 1 (rplus (RCls False rng_digit)), RLit [c_jou]]) ds = None" unfolding rx_match_def rseq.simps by (rule search_clear_none) simp
  show "rx_match (rseq [RBol, RGrp 1 (rplus (RCls False rng_digit)), RLit [c_jou], REol]) ds = None" unfolding rx_match_def rseq.simps
  proof (rule search_rx_none)
    fix t assume t: "suffix t ds"
    show "rx (length ds) (RSeq RBol (RSeq (RGrp 1 (rplus (RCls False rng_digit))) (RSeq (RLit [c_jou]) REol))) (t, []) = []"
    proof (rule ccontr)
      assume "\<not> ?thesis"
      then obtain x xs where "(x, xs) \<in> set (rx (length ds) (RSeq RBol (RSeq (RGrp 1 (rplus (RCls False rng_digit))) (RSeq (RLit [c_jou]) REol))) (t, []))"
        by (metis list.set_intros(1) neq_Nil_conv surj_pair)
      then obtain u us where u: "(u, us) \<in> set (rx (length ds) RBol (t, []))"
        "(x, xs) \<in> set (rx (length ds) (RSeq (RGrp 1 (rplus (RCls False rng_digit))) (RSeq (RLit [c_jou]) REol)) (u, us))"
        by (rule rx_seq_cases)
      from u(2) obtain v vs where v: "(v, vs) \<in> set (rx (length ds) (RGrp 1 (rplus (RCls False rng_digit))) (u, us))"
        "(x, xs) \<in> set (rx (length ds) (RSeq (RLit [c_jou]) REol) (v, vs))" by (rule rx_seq_cases)
      from v(2) obtain y ys where "(y, ys) \<in> set (rx (length ds) (RLit [c_jou]) (v, vs))" by (rule rx_seq_cases)
      then have "v = [c_jou] @ y" using rx_atom_caps(1) by blast
      moreover have "suffix v ds"
        using rxm.m_suffix [OF v(1)] rxm.m_suffix [OF u(1)] t by (meson suffix_order.trans)
      ultimately show False using suf [of v c_jou "[]"] by (simp add: starts_with_def is_digit_def)
    qed
  qed
qed

lemma digits_alone:
  assumes "list_all is_digit ds" "ds \<noteq> []"
  shows "\<exists>m. rx_match (rseq [RBol, RGrp 1 (rplus (RCls False rng_digit)), REol]) ds = Some m \<and> cap m 1 = Some ds"
proof -
  let ?n = "length ds"
  have "\<forall>c \<in> set ds. in_cls False rng_digit c" using assms(1) by (simp add: list_all_iff in_cls_digit)
  then obtain ms where "rx ?n (rplus (RCls False rng_digit)) (ds, []) = ([], []) # ms"
    using rx_run [of ds False rng_digit "[]" "Suc 0" ?n "[]"] assms(2) by (auto simp: Suc_le_eq)
  then have "\<exists>ms. rx ?n (RGrp 1 (rplus (RCls False rng_digit))) (ds, []) = ([], [(1, ds)]) # ms" by (simp del: rx.simps(3,6))
  then have "\<exists>ms. rx ?n (rseq [RBol, RGrp 1 (rplus (RCls False rng_digit)), REol]) (ds, []) = ([], [(1, ds)]) # ms"
    unfolding rseq.simps by (auto simp del: rx.simps(3,6,7))
  then show ?thesis unfolding rx_match_def by (auto simp: search_here cap_def simp del: rseq.simps)
qed

lemma numeric_digits:
  assumes "list_all is_digit ds"
  shows "toNumericFormat ds = ds"
proof (cases "ds = []")
  case False
  have conv: "convertKanjiToNumber ds = ds" using assms by (intro convertKanji_plain) (auto simp: list_all_iff digit_not_kanji)
  obtain m where "rx_match (rseq [RBol, RGrp 1 (rplus (RCls False rng_digit)), REol]) ds = Some m" "cap m 1 = Some ds" using digits_alone [OF assms False] by blast
  then have "first_capture article_patterns ds = Some ds"
    using digits_only [OF assms] by (simp add: article_patterns_def del: rseq.simps)
  with conv False show ?thesis by (simp add: toNumericFormat_def normalizeArticleNumber_def truthy_def)
qed (simp add: toNumericFormat_def)

lemma numeric_form: "list_all is_digit (toNumericFormat s)"
  by (cases s rule: normalize_cases) (auto simp: toNumericFormat_def)

lemma numeric_stable: "toNumericFormat (toNumericFormat s) = toNumericFormat s"
  by (rule numeric_digits [OF numeric_form])

section \<open>The loop\<close>

lemma update_rows:
  "foldl (update_row f fails) (c, us) rows =
     (c\<lparr>ct_updated := ct_updated c + length (filter (\<lambda>r. f r \<noteq> None \<and> \<not> fails r) rows),
        ct_failed := ct_failed c + length (filter (\<lambda>r. f r \<noteq> None \<and> fails r) rows)\<rparr>,
      us @ List.map_filter f (filter (\<lambda>r. \<not> fails r) rows))"
  by (induction rows arbitrary: c us) (auto simp: update_row_def List.map_filter_simps split: option.splits)

lemma normalized_rows:
  "normalize_rows f fails (Some rows) c =
     (c\<lparr>ct_total := length rows, ct_updated := ct_updated c + length (filter (\<lambda>r. f r \<noteq> None \<and> \<not> fails r) rows),
        ct_failed := ct_failed c + length (filter (\<lambda>r. f r \<noteq> None \<and> fails r) rows)\<rparr>,
      List.map_filter f (filter (\<lambda>r. \<not> fails r) rows))"
  by (simp add: normalize_rows_def update_rows)

section \<open>The effect of the updates\<close>

definition set_fields :: "RowUpdate \<Rightarrow> ReferenceRow \<Rightarrow> ReferenceRow" where
  "set_fields u r = r\<lparr>rr_sourceArticle := (case ru_sourceArticle u of None \<Rightarrow> rr_sourceArticle r | Some s \<Rightarrow> s),
     rr_targetArticle := (case ru_targetArticle u of None \<Rightarrow> rr_targetArticle r | Some s \<Rightarrow> Some s)\<rparr>"

definition apply_updates :: "RowUpdate list \<Rightarrow> ReferenceRow \<Rightarrow> ReferenceRow" where
  "apply_updates us r = (case find (\<lambda>u. ru_id u = rr_id r) us of None \<Rightarrow> r | Some u \<Rightarrow> set_fields u r)"

text \<open>A row whose article numbers are runs of digits, the empty run included.\<close>

definition numeric_row :: "ReferenceRow \<Rightarrow> bool" where
  "numeric_row r \<longleftrightarrow> list_all is_digit (rr_sourceArticle r) \<and> (\<forall>t. rr_targetArticle r = Some t \<longrightarrow> list_all is_digit t)"

lemma changed_cases:
  obtains "changed_number x = None" "\<And>s. x = Some s \<Longrightarrow> list_all is_digit s"
  | s where "x = Some s" "changed_number x = Some (toNumericFormat s)"
proof (cases "changed_number x")
  case None
  have "list_all is_digit s" if "x = Some s" for s
    using None that numeric_form [of s] by (cases "s = []") (auto simp: changed_number_def truthy_def Let_def split: if_splits)
  with None that(1) show ?thesis by blast
next
  case (Some n)
  then show ?thesis using that(2) by (cases x) (auto simp: changed_number_def truthy_def Let_def split: if_splits)
qed

lemma changed_stable: "changed_number (Some (toNumericFormat s)) = None"
  by (simp add: changed_number_def numeric_stable)

lemma update_id: "reference_update r = Some u \<Longrightarrow> ru_id u = rr_id r"
  by (auto simp: reference_update_def Let_def split: if_splits)

lemma updated_row:
  assumes "reference_update r = Some u"
  shows "reference_update (set_fields u r) = None" "numeric_row (set_fields u r)"
proof -
  have u: "u = \<lparr>ru_id = rr_id r, ru_sourceArticle = changed_number (Some (rr_sourceArticle r)),
      ru_targetArticle = changed_number (rr_targetArticle r)\<rparr>"
    using assms by (auto simp: reference_update_def Let_def split: if_splits)
  have s: "changed_number (Some (rr_sourceArticle (set_fields u r))) = None \<and> list_all is_digit (rr_sourceArticle (set_fields u r))"
    by (rule changed_cases [of "Some (rr_sourceArticle r)"]) (auto simp: u set_fields_def changed_stable numeric_form)
  have t: "changed_number (rr_targetArticle (set_fields u r)) = None \<and> (\<forall>t. rr_targetArticle (set_fields u r) = Some t \<longrightarrow> list_all is_digit t)"
    by (rule changed_cases [of "rr_targetArticle r"]) (auto simp: u set_fields_def changed_stable numeric_form)
  from s t show "reference_update (set_fields u r) = None" "numeric_row (set_fields u r)"
    by (simp_all add: reference_update_def numeric_row_def)
qed

lemma unchanged_row:
  assumes "reference_update r = None"
  shows "numeric_row r"
proof -
  have none: "changed_number (Some (rr_sourceArticle r)) = None" "changed_number (rr_targetArticle r) = None"
    using assms by (auto simp: reference_update_def Let_def split: if_splits)
  have "list_all is_digit (rr_sourceArticle r)" by (rule changed_cases [of "Some (rr_sourceArticle r)"]) (use none in auto)
  moreover have "list_all is_digit t" if "rr_targetArticle r = Some t" for t
    by (rule changed_cases [of "rr_targetArticle r"]) (use none that in auto)
  ultimately show ?thesis by (simp add: numeric_row_def)
qed

lemma mem_map_filter: "u \<in> set (List.map_filter f xs) \<longleftrightarrow> (\<exists>x \<in> set xs. f x = Some u)"
  by (induction xs) (auto simp: List.map_filter_simps split: option.splits)

lemma find_update:
  assumes "distinct (map rr_id rows)" "r \<in> set rows"
  shows "find (\<lambda>u. ru_id u = rr_id r) (List.map_filter reference_update (filter (\<lambda>r. \<not> fails r) rows)) =
    (if fails r then None else reference_update r)"
  using assms
proof (induction rows)
  case (Cons x rows)
  have none: "find (\<lambda>u. ru_id u = rr_id x) (List.map_filter reference_update (filter (\<lambda>r. \<not> fails r) rows)) = None"
  proof -
    have "ru_id u \<noteq> rr_id x" if u: "u \<in> set (List.map_filter reference_update (filter (\<lambda>r. \<not> fails r) rows))" for u
    proof -
      obtain y where "y \<in> set rows" "reference_update y = Some u" using u by (auto simp: mem_map_filter)
      then have "ru_id u \<in> rr_id ` set rows" using update_id by auto
      with Cons.prems(1) show ?thesis by auto
    qed
    then show ?thesis by (simp add: find_None_iff)
  qed
  show ?case
  proof (cases "r = x")
    case True
    with none show ?thesis by (auto simp: List.map_filter_simps dest: update_id split: option.splits)
  next
    case False
    with Cons.prems have "rr_id x \<notin> rr_id ` set rows" "r \<in> set rows" by auto
    then have "rr_id r \<noteq> rr_id x" by (metis imageI)
    with Cons False show ?thesis by (auto simp: List.map_filter_simps dest: update_id split: option.splits)
  qed
qed simp

lemma applied_row:
  fixes fails :: "ReferenceRow \<Rightarrow> bool"
  assumes "distinct (map rr_id rows)" "r \<in> set rows"
  defines "r' \<equiv> apply_updates (List.map_filter reference_update (filter (\<lambda>r. \<not> fails r) rows)) r"
  shows "fails r \<Longrightarrow> r' = r" "\<not> fails r \<Longrightarrow> reference_update r' = None \<and> numeric_row r'" "rr_id r' = rr_id r"
  using find_update [OF assms(1,2), of fails] updated_row unchanged_row
  by (auto simp: r'_def apply_updates_def set_fields_def split: option.splits)

section \<open>Properties\<close>

text \<open>C15: a run over the stored references, with any updates failing, counts each row at most once; the
  updates carried out leave every row whose update did not fail in numeric form, change nothing else of it, and leave
  the other rows alone; the next run has exactly the failed rows left to do, and after a run without failures it has
  nothing to do.\<close>

theorem migration_converges:
  assumes "distinct (map rr_id rows)" and "normalizePostgreSQLReferences fails (Some rows) no_counts = (c, us)"
  shows "ct_total c = length rows \<and> ct_updated c = length us \<and> ct_updated c + ct_failed c \<le> ct_total c \<and>
    (\<forall>r \<in> set rows. if fails r then apply_updates us r = r
       else numeric_row (apply_updates us r) \<and>
         apply_updates us r = r\<lparr>rr_sourceArticle := rr_sourceArticle (apply_updates us r), rr_targetArticle := rr_targetArticle (apply_updates us r)\<rparr>) \<and>
    snd (normalizePostgreSQLReferences fails' (Some (map (apply_updates us) rows)) no_counts) =
      List.map_filter reference_update (filter (\<lambda>r. fails r \<and> \<not> fails' r) rows)"
proof (intro conjI ballI)
  have us: "us = List.map_filter reference_update (filter (\<lambda>r. \<not> fails r) rows)"
    and c: "ct_total c = length rows" "ct_updated c = length (filter (\<lambda>r. reference_update r \<noteq> None \<and> \<not> fails r) rows)"
      "ct_failed c = length (filter (\<lambda>r. reference_update r \<noteq> None \<and> fails r) rows)"
    using assms(2) by (auto simp: normalizePostgreSQLReferences_def normalized_rows no_counts_def)
  note row = applied_row [OF assms(1), of _ fails, folded us]
  show "ct_total c = length rows" by (rule c)
  show "ct_updated c = length us" unfolding c us by (simp add: List.map_filter_def conj_commute)
  show "ct_updated c + ct_failed c \<le> ct_total c" unfolding c by (induction rows) auto
  show "if fails r then apply_updates us r = r
      else numeric_row (apply_updates us r) \<and>
        apply_updates us r = r\<lparr>rr_sourceArticle := rr_sourceArticle (apply_updates us r), rr_targetArticle := rr_targetArticle (apply_updates us r)\<rparr>"
    if "r \<in> set rows" for r
    using row(1,2) [OF that] by (auto simp: apply_updates_def set_fields_def split: option.splits)
  have "List.map_filter reference_update (filter (\<lambda>r. \<not> fails' r) (map (apply_updates us) xs)) =
      List.map_filter reference_update (filter (\<lambda>r. fails r \<and> \<not> fails' r) xs)" if "set xs \<subseteq> set rows" for xs
    using that
  proof (induction xs)
    case (Cons x xs)
    then show ?case using row(1,2) [of x] by (cases "fails x") (simp_all add: List.map_filter_simps split: option.split)
  qed simp
  then show "snd (normalizePostgreSQLReferences fails' (Some (map (apply_updates us) rows)) no_counts) =
      List.map_filter reference_update (filter (\<lambda>r. fails r \<and> \<not> fails' r) rows)"
    by (simp add: normalizePostgreSQLReferences_def normalized_rows)
qed

definition sample_reference :: ReferenceRow where
  "sample_reference = \<lparr>rr_id = (str ''r1''), rr_sourceArticle = [c_dai, c_go, c_jou], rr_targetLawId = None, rr_targetArticle = Some (str ''12''),
     rr_referenceType = (str ''internal''), rr_referenceText = [c_zen, c_jou], rr_confidence = 1, rr_metadata = None\<rparr>"

theorem migration_converges_witness:
  "\<exists>c us. normalizePostgreSQLReferences (\<lambda>_. False) (Some [sample_reference]) no_counts = (c, us) \<and> numeric_row (apply_updates us sample_reference)"
proof -
  obtain c us where "normalizePostgreSQLReferences (\<lambda>_. False) (Some [sample_reference]) no_counts = (c, us)" by force
  with migration_converges [OF _ this, of "\<lambda>_. False"] show ?thesis by simp
qed

section \<open>Findings\<close>

text \<open>The option \<open>--dry-run\<close> leaves out the backup and nothing else: the updates are carried out.\<close>

lemma dry_run_updates:
  "rn_references (main db [(str ''--dry-run'')]) = rn_references (main db []) \<and> rn_nodes (main db [(str ''--dry-run'')]) = rn_nodes (main db []) \<and>
   rn_edges (main db [(str ''--dry-run'')]) = rn_edges (main db []) \<and> \<not> rn_backup (main db [(str ''--dry-run'')])"
  by (simp add: main_def Let_def)

text \<open>A branch article gets the number of its stem, so different articles become one; a place without a number, such as
  the supplementary provisions, loses its text.\<close>

lemma branch_article_merged: "changed_number (Some [c_dai, c_go, c_jou, h_no, c_ni]) = Some (str ''5'')" "changed_number (Some [c_dai, c_go, c_jou]) = Some (str ''5'')"
  by code_simp+

lemma unnumbered_erased: "changed_number (Some [c_fu, c_soku]) = Some []"
  by code_simp


end
