(* ===== verification/ComprehensiveDetector.thy ===== *)
theory ComprehensiveDetector
  imports ArticleNormalizer
begin

text \<open>
  The two detectors that the reference manager registers: version 1.0.0 is
  \<^verbatim>\<open>src/domain/services/ReferenceDetector.ts\<close>, version 2.0.0 is
  \<^verbatim>\<open>src/domain/services/ComprehensiveReferenceDetector.ts\<close>, which works sentence by sentence. The arrays
  \<open>SPECIAL_PATTERNS\<close> and the variable \<open>lastMultiplier\<close> of the second are never read and are left out.
\<close>

section \<open>The basic detector\<close>

record BasicReference =
  br_type :: jsstr
  br_sourceText :: jsstr
  br_targetLawId :: "jsstr option"
  br_targetLawName :: "jsstr option"
  br_targetArticleNumber :: "jsstr option"
  br_confidence :: rat
  br_endArticle :: "jsstr option"

definition internalPatterns :: "regex list" where
  "internalPatterns =
     [(rseq [RLit [c_dai], RGrp 1 (rplus (RCls False rng_kj10000)), RLit [c_jou]]), (rseq [RLit [c_dai], RGrp 1 (rplus (RCls False rng_digit)), RLit [c_jou]]), (RLit [c_zen, c_jou]), (RLit [c_ji, c_jou]), (RLit [c_dou, c_jou])]"

definition basic_internal :: "rmatch \<Rightarrow> BasicReference" where
  "basic_internal m =
     \<lparr>br_type = (if m_text m = [c_zen, c_jou] \<or> m_text m = [c_ji, c_jou] then (str ''relative'') else (str ''internal'')), br_sourceText = m_text m,
      br_targetLawId = None, br_targetLawName = None, br_targetArticleNumber = Some (m_text m), br_confidence = 9/10,
      br_endArticle = None\<rparr>"

definition basicExternalPattern :: regex where
  "basicExternalPattern = (rseq [RGrp 1 (rseq [rplus (RCls True (rng_ws @ [(p_comma, p_comma), (p_stop, p_stop)])), RLit [c_hou]]), ropt (rseq [RLit [p_lparen], rplus (RCls True [(p_rparen, p_rparen)]), RLit [p_rparen]]), RLit [c_dai], RGrp 2 (rplus (RCls False rng_kjd10000)), RLit [c_jou]])"

definition lawIdMap :: "(jsstr \<times> jsstr) list" where
  "lawIdMap =
     [([c_min, c_hou], (str ''129AC0000000089'')), ([c_shou_com, c_hou], (str ''132AC0000000048'')), ([c_kai_meet, c_sha, c_hou], (str ''417AC0000000086'')),
      ([c_kei, c_hou], (str ''140AC0000000045'')), ([0x52B4, 0x50CD, 0x57FA, c_jun, c_hou], (str ''322AC0000000049''))]"

definition basic_external :: "rmatch \<Rightarrow> BasicReference" where
  "basic_external m =
     \<lparr>br_type = (str ''external''), br_sourceText = m_text m, br_targetLawId = map_of lawIdMap (grp m 1),
      br_targetLawName = cap m 1, br_targetArticleNumber = Some ([c_dai] @ grp m 2 @ [c_jou]), br_confidence = 85/100,
      br_endArticle = None\<rparr>"

definition basicRangePattern :: regex where
  "basicRangePattern = (rseq [RLit [c_dai], RGrp 1 (rplus (RCls False rng_kjd10000)), RLit [c_jou, h_ka, h_ra, c_dai], RGrp 2 (rplus (RCls False rng_kjd10000)), RLit [c_jou, h_ma, h_de]])"

definition basic_range :: "rmatch \<Rightarrow> BasicReference" where
  "basic_range m =
     \<lparr>br_type = (str ''range''), br_sourceText = m_text m, br_targetLawId = None, br_targetLawName = None,
      br_targetArticleNumber = Some ([c_dai] @ grp m 1 @ [c_jou]), br_confidence = 8/10,
      br_endArticle = Some ([c_dai] @ grp m 2 @ [c_jou])\<rparr>"

definition basic_application :: "jsstr \<Rightarrow> rmatch \<Rightarrow> BasicReference list" where
  "basic_application text m =
     (case rx_match (rseq [RLit [c_dai], RGrp 1 (rplus (RCls False rng_kjd10000)), RLit [c_jou]]) (substring text (m_index m - 100) (m_index m)) of
        None \<Rightarrow> []
      | Some a \<Rightarrow>
          [\<lparr>br_type = (str ''application''), br_sourceText = m_text a @ [h_wo, c_jun, c_you], br_targetLawId = None, br_targetLawName = None,
            br_targetArticleNumber = Some (m_text a), br_confidence = 75/100, br_endArticle = None\<rparr>])"

definition basic_detectReferences :: "jsstr \<Rightarrow> BasicReference list" where
  "basic_detectReferences text =
     concat (map (\<lambda>p. map basic_internal (exec_all p text)) internalPatterns) @
     map basic_external (exec_all basicExternalPattern text) @ map basic_range (exec_all basicRangePattern text) @
     concat (map (basic_application text) (exec_all (RLit [c_jun, c_you, h_su, h_ru]) text))"

section \<open>The comprehensive detector: data and patterns\<close>

record FoundReference =
  fr_type :: jsstr
  fr_text :: jsstr
  fr_context :: jsstr
  fr_confidence :: rat
  fr_targetLaw :: "jsstr option"
  fr_targetArticle :: "jsstr option"
  fr_targetArticle2 :: "jsstr option"
  fr_targetParagraph :: "int option"
  fr_targetItem :: "jsstr option"
  fr_targetArticleEnd :: "jsstr option"
  fr_targetArticles :: "jsstr list option"
  fr_relativeType :: "jsstr option"
  fr_relativeDistance :: "int option"
  fr_structureType :: "jsstr option"
  fr_structureName :: "jsstr option"
  fr_applicationScope :: "jsstr option"
  fr_modifications :: "jsstr list option"

text \<open>A reference with no target, from a match in a sentence.\<close>

definition found :: "jsstr \<Rightarrow> rat \<Rightarrow> jsstr \<Rightarrow> rmatch \<Rightarrow> FoundReference" where
  "found type confidence sentence m =
     \<lparr>fr_type = type, fr_text = m_text m, fr_context = sentence, fr_confidence = confidence, fr_targetLaw = None,
      fr_targetArticle = None, fr_targetArticle2 = None, fr_targetParagraph = None, fr_targetItem = None,
      fr_targetArticleEnd = None, fr_targetArticles = None, fr_relativeType = None, fr_relativeDistance = None,
      fr_structureType = None, fr_structureName = None, fr_applicationScope = None, fr_modifications = None\<rparr>"

definition ARTICLE_PATTERNS :: "regex list" where
  "ARTICLE_PATTERNS =
     [(rseq [RLit [c_dai], RGrp 1 (rplus (RCls False rng_kj1000)), RLit [c_jou]]),
      (rseq [RLit [c_dai], RGrp 1 (rplus (RCls False rng_kj1000)), RLit [c_jou, h_no], RGrp 2 (rplus (RCls False rng_kj10))]),
      (rseq [RLit [c_dai], RGrp 1 (rplus (RCls False rng_fullwidth)), RLit [c_jou]])]"

definition PARAGRAPH_ITEM_PATTERNS :: "regex list" where
  "PARAGRAPH_ITEM_PATTERNS =
     [(rseq [RLit [c_dai], RGrp 1 (rplus (RCls False rng_kj10)), RLit [c_kou]]),
      (rseq [RLit [c_dai], RGrp 1 (rplus (RCls False rng_kj10)), RLit [c_gou]]),
      (rseq [RLit [c_dai], RGrp 1 (rplus (RCls False rng_kj10)), RLit [c_kou, c_dai], RGrp 2 (rplus (RCls False rng_kj10)), RLit [c_gou]]),
      (rseq [RLit [c_dou, c_kou, c_dai], RGrp 1 (rplus (RCls False rng_kj10)), RLit [c_gou]]),
      (rseq [RLit [c_dai], RGrp 1 (rplus (RCls False rng_kj10)), RLit [c_kou, c_dou, c_gou]])]"

definition RELATIVE_PATTERNS :: "(regex \<times> jsstr \<times> int) list" where
  "RELATIVE_PATTERNS =
     [((RLit [c_zen, c_jou]), (str ''previous''), 1), ((rseq [RLit [c_zen], RGrp 1 (RCls False rng_kj2_10), RLit [c_jou]]), (str ''previous''), 0),
      ((RLit [c_ji, c_jou]), (str ''next''), 1), ((rseq [RLit [c_ji], RGrp 1 (RCls False rng_kj2_10), RLit [c_jou]]), (str ''next''), 0),
      ((RLit [c_zen, c_kou]), (str ''previous''), 1), ((rseq [RLit [c_zen], RGrp 1 (RCls False rng_kj2_10), RLit [c_kou]]), (str ''previous''), 0),
      ((RLit [c_ji, c_kou]), (str ''next''), 1), ((RLit [c_hon, c_kou]), (str ''same''), 0), ((RLit [c_dou, c_kou]), (str ''same''), 0),
      ((rseq [RLit [c_zen], RGrp 1 (RCls False rng_kj2_10), RLit [c_kou]]), (str ''previous_multiple''), 0), ((RLit [c_zen, c_kaku, c_kou]), (str ''previous_all''), 0), ((RLit [c_kaku, c_kou]), (str ''all''), 0),
      ((RLit [c_zen, c_gou]), (str ''previous''), 1), ((rseq [RLit [c_zen], RGrp 1 (RCls False rng_kj2_10), RLit [c_gou]]), (str ''previous''), 0),
      ((RLit [c_ji, c_gou]), (str ''next''), 1), ((RLit [c_kaku, c_gou]), (str ''same''), 0), ((RLit [c_zen, c_kaku, c_gou]), (str ''previous_all''), 0)]"

definition RANGE_PATTERNS :: "regex list" where
  "RANGE_PATTERNS =
     [(rseq [RLit [c_dai], RGrp 1 (rplus (RCls False rng_kj1000)), RLit [c_jou, h_ka, h_ra, c_dai], RGrp 2 (rplus (RCls False rng_kj1000)), RLit [c_jou, h_ma, h_de]]),
      (rseq [RLit [c_dai], RGrp 1 (rplus (RCls False rng_kj1000)), RLit [c_jou, 0x4E43, 0x81F3, c_dai], RGrp 2 (rplus (RCls False rng_kj1000)), RLit [c_jou]]),
      (rseq [RLit [c_dai], RGrp 1 (rplus (RCls False rng_kj10)), RLit [c_gou, h_ka, h_ra, c_dai], RGrp 2 (rplus (RCls False rng_kj10)), RLit [c_gou, h_ma, h_de]]),
      (rseq [RLit [c_dai], RGrp 1 (rplus (RCls False rng_kj10)), RLit [c_gou, 0x4E43, 0x81F3, c_dai], RGrp 2 (rplus (RCls False rng_kj10)), RLit [c_gou]])]"

definition MULTIPLE_PATTERNS :: "regex list" where
  "MULTIPLE_PATTERNS =
     [(RGrp 1 (rseq [RLit [c_dai], rplus (RCls False rng_kj1000), RLit [c_jou], ropt (rseq [RLit [h_no], rplus (RCls False rng_kj10)]), rstar (rseq [RCls False [(p_comma, p_comma), (0x2C, 0x2C)], RLit [c_dai], rplus (RCls False rng_kj1000), RLit [c_jou], ropt (rseq [RLit [h_no], rplus (RCls False rng_kj10)])]), ralt [RLit [c_oyo, h_bi], RLit [c_nara, h_bi, h_ni], RLit [c_mata, h_ha], RLit [c_moshi, h_shi, h_ku, h_ha]], RLit [c_dai], rplus (RCls False rng_kj1000), RLit [c_jou], ropt (rseq [RLit [h_no], rplus (RCls False rng_kj10)])])),
      (RGrp 1 (rseq [RLit [c_dai], rplus (RCls False rng_kj10), RLit [c_gou], rstar (rseq [RCls False [(p_comma, p_comma), (0x2C, 0x2C)], RLit [c_dai], rplus (RCls False rng_kj10), RLit [c_gou]]), ralt [RLit [c_oyo, h_bi], RLit [c_nara, h_bi, h_ni], RLit [c_mata, h_ha], RLit [c_moshi, h_shi, h_ku, h_ha]], RLit [c_dai], rplus (RCls False rng_kj10), RLit [c_gou]]))]"

definition EXTERNAL_LAW_PATTERNS :: "regex list" where
  "EXTERNAL_LAW_PATTERNS =
     [(rseq [RGrp 1 (rseq [RRep (RCls True (rng_ws @ [(p_lparen, p_lparen), (p_rparen, p_rparen), (p_lquote, p_lquote), (p_rquote, p_rquote), (p_ldquote, p_ldquote), (p_rdquote, p_rdquote), (p_stop, p_stop), (p_comma, p_comma)])) 2 (Some 20) True, RLit [c_hou]]), RLit [c_dai], RGrp 2 (rplus (RCls False rng_kj1000)), RLit [c_jou]]),
      (rseq [RGrp 1 (RRep (RCls True (rng_ws @ [(p_lparen, p_lparen), (p_rparen, p_rparen), (p_lquote, p_lquote), (p_rquote, p_rquote), (p_ldquote, p_ldquote), (p_rdquote, p_rdquote)])) 2 (Some 20) True), RLit [p_lparen], RGrp 2 (rplus (RCls True [(p_rparen, p_rparen)])), RLit [p_rparen, c_dai], RGrp 3 (rplus (RCls False rng_kj1000)), RLit [c_jou]]),
      (rseq [RGrp 1 (rseq [RRep (RCls True (rng_ws @ [(p_lparen, p_lparen), (p_rparen, p_rparen), (p_lquote, p_lquote), (p_rquote, p_rquote), (p_ldquote, p_ldquote), (p_rdquote, p_rdquote)])) 2 (Some 20) True, ralt [RLit [0x653F, c_rei_order], RLit [0x7701, c_rei_order], RLit [c_ki, c_soku], RLit [c_jou, 0x4F8B]]]), RLit [c_dai], RGrp 2 (rplus (RCls False rng_kj1000)), RLit [c_jou]]),
      (rseq [ralt [RBol, RCls False rng_ws, RLit [p_comma], RLit [p_stop]], RGrp 1 (rseq [ralt [RLit [c_min], RLit [c_kei], RLit [c_shou_com], RLit [c_kai_meet, c_sha], RLit [0x52B4, 0x50CD, 0x57FA, c_jun], RLit [0x7279, 0x8A31], RLit [0x8457, 0x4F5C, 0x6A29], RLit [0x61B2], RLit [0x884C, 0x653F], RLit [0x7A0E], RLit [0x72EC, 0x5360, 0x7981, 0x6B62], RLit [0x91D1, 0x878D, c_shou_com, 0x54C1, 0x53D6, 0x5F15], RLit [0x7834, 0x7523], RLit [c_min, 0x4E8B, 0x8A34, 0x8A1F], RLit [c_kei, 0x4E8B, 0x8A34, 0x8A1F], RLit [0x5BB6, 0x4E8B, 0x4E8B, 0x4EF6, 0x624B, 0x7D9A], RLit [0x4EBA, 0x4E8B, 0x8A34, 0x8A1F]], RLit [c_hou]])])]"

definition APPLICATION_PATTERNS :: "regex list" where
  "APPLICATION_PATTERNS =
     [(rseq [RGrp 1 (rplus (RCls True [(p_stop, p_stop)])), RLit [h_no, c_ki, c_tei, h_ha, p_comma], RGrp 2 (rplus (RCls True [(p_stop, p_stop)])), RLit [h_ni], ropt (RLit [h_ko, h_re, h_wo]), RLit [c_jun, c_you, h_su, h_ru]]),
      (rseq [RGrp 1 (rplus (RCls True [(p_stop, p_stop)])), RLit [h_no, c_ki, c_tei, h_wo], RGrp 2 (rplus (RCls True [(p_stop, p_stop)])), RLit [h_ni, c_jun, c_you, h_su, h_ru]]),
      (rseq [RGrp 1 (rplus (RCls True [(p_stop, p_stop)])), RLit [h_ni, h_tsu, h_i, h_te, c_jun, c_you, h_su, h_ru]]),
      (rseq [RGrp 1 (rplus (RCls True [(p_stop, p_stop)])), RLit [h_no, c_ki, c_tei, h_wo, 0x9069, c_you, h_su, h_ru]]),
      (rseq [RGrp 1 (rplus (RCls True [(p_stop, p_stop)])), RLit [h_wo, 0x9069, c_you, h_su, h_ru]]),
      (rseq [RGrp 1 (rplus (RCls True [(p_stop, p_stop)])), RLit [h_no, c_ki, c_tei, h_no, 0x9069, c_you]]),
      (rseq [RGrp 1 (rplus (RCls True [(p_stop, p_stop)])), RLit [0x4E2D, p_lquote], RGrp 2 (rplus (RCls True [(p_rquote, p_rquote)])), RLit [p_rquote, h_to, h_a, h_ru, h_no, h_ha, p_lquote], RGrp 3 (rplus (RCls True [(p_rquote, p_rquote)])), RLit [p_rquote, h_to], ralt [RLit [0x8AAD, h_mi, 0x66FF, h_e, h_ru], RLit [h_su, h_ru]]])]"

definition STRUCTURE_PATTERNS :: "regex list" where
  "STRUCTURE_PATTERNS =
     [(rseq [ralt [RLit [c_hon], RLit [h_ko, h_no], RLit [c_zen], RLit [c_ji]], RGrp 1 (RCls False [(c_hen, c_hen), (c_shou, c_shou), (c_setsu, c_setsu), (c_kan, c_kan), (c_moku, c_moku)])]),
      (rseq [RLit [c_dai], RGrp 1 (rplus (RCls False rng_kj10)), RGrp 2 (RCls False [(c_hen, c_hen), (c_shou, c_shou), (c_setsu, c_setsu), (c_kan, c_kan), (c_moku, c_moku)])]),
      (rseq [ralt [RLit [c_hon], RLit [h_ko, h_no], RLit [c_zen], RLit [c_ji]], RGrp 1 (RCls False [(c_hen, c_hen), (c_shou, c_shou), (c_setsu, c_setsu), (c_kan, c_kan), (c_moku, c_moku)]), RLit [h_no], ralt [RLit [c_ki, c_tei], RLit [c_tei, h_me]]])]"

section \<open>Numerals\<close>

definition comprehensive_kanjiMap :: "(jschar \<times> int) list" where
  "comprehensive_kanjiMap = zip [c_ichi, c_ni, c_san, c_yon, c_go, c_roku, c_nana, c_hachi, c_kyuu, c_juu, c_hyaku, c_sen] [1, 2, 3, 4, 5, 6, 7, 8, 9, 10, 100, 1000]"

fun comprehensive_step :: "int \<times> int \<Rightarrow> jschar \<Rightarrow> int \<times> int" where
  "comprehensive_step (result, temp) c =
     (case map_of comprehensive_kanjiMap c of
        None \<Rightarrow> (result, temp)
      | Some value \<Rightarrow>
          if 100 \<le> value then (result + (if temp = 0 then 1 else temp) * value, 0)
          else if value = 10 then (result + (if temp = 0 then 1 else temp) * 10, 0)
          else (result, value))"

definition comprehensive_kanjiToNumber :: "jsstr \<Rightarrow> int" where
  "comprehensive_kanjiToNumber kanji =
     (case kanji of
        [c] \<Rightarrow> (case map_of comprehensive_kanjiMap c of Some v \<Rightarrow> v
                | None \<Rightarrow> (case foldl comprehensive_step (0, 0) kanji of (result, temp) \<Rightarrow> result + temp))
      | _ \<Rightarrow> (case foldl comprehensive_step (0, 0) kanji of (result, temp) \<Rightarrow> result + temp))"

section \<open>The families of references\<close>

definition isExternalLawReference :: "jsstr \<Rightarrow> bool" where
  "isExternalLawReference textBefore = rx_test (rseq [RCls False [(c_hou, c_hou), (c_rei_order, c_rei_order), (c_soku, c_soku), (0x4F8B, 0x4F8B)], REol]) (trim textBefore)"

definition article_references :: "jsstr \<Rightarrow> rmatch \<Rightarrow> FoundReference list" where
  "article_references sentence m =
     (if isExternalLawReference (substring sentence (m_index m - 20) (m_index m)) then []
      else [(found (str ''internal'') (95/100) sentence m)\<lparr>fr_targetArticle := cap m 1, fr_targetArticle2 := cap m 2\<rparr>])"

definition paragraph_reference :: "jsstr \<Rightarrow> rmatch \<Rightarrow> FoundReference" where
  "paragraph_reference sentence m =
     (let ref = found (str ''internal'') (9/10) sentence m
      in if str_includes (m_text m) [c_kou] \<and> str_includes (m_text m) [c_gou]
         then ref\<lparr>fr_targetParagraph := Some (comprehensive_kanjiToNumber (grp m 1)), fr_targetItem := cap m 2\<rparr>
         else if str_includes (m_text m) [c_kou] then ref\<lparr>fr_targetParagraph := Some (comprehensive_kanjiToNumber (grp m 1))\<rparr>
         else if str_includes (m_text m) [c_gou] then ref\<lparr>fr_targetItem := cap m 1\<rparr>
         else ref)"

definition detectInternalReferences :: "jsstr \<Rightarrow> FoundReference list" where
  "detectInternalReferences sentence =
     concat (map (\<lambda>p. concat (map (article_references sentence) (exec_all p sentence))) ARTICLE_PATTERNS) @
     concat (map (\<lambda>p. map (paragraph_reference sentence) (exec_all p sentence)) PARAGRAPH_ITEM_PATTERNS)"

definition detectExternalReferences :: "jsstr \<Rightarrow> FoundReference list" where
  "detectExternalReferences sentence =
     concat (map (\<lambda>p. map (\<lambda>m. (found (str ''external'') (85/100) sentence m)
         \<lparr>fr_targetLaw := cap m 1, fr_targetArticle := (if truthy (cap m 2) then cap m 2 else cap m 3)\<rparr>)
       (exec_all p sentence)) EXTERNAL_LAW_PATTERNS)"

definition relative_reference :: "jsstr \<Rightarrow> jsstr \<Rightarrow> int \<Rightarrow> rmatch \<Rightarrow> FoundReference" where
  "relative_reference sentence type distance m =
     (found (str ''relative'') (9/10) sentence m)\<lparr>fr_relativeType := Some type,
       fr_relativeDistance := Some (if distance = 0 \<and> truthy (cap m 1) then comprehensive_kanjiToNumber (grp m 1) else distance)\<rparr>"

definition comprehensive_detectRelative :: "jsstr \<Rightarrow> FoundReference list" where
  "comprehensive_detectRelative sentence =
     concat (map (\<lambda>(p, type, distance). map (relative_reference sentence type distance) (exec_all p sentence)) RELATIVE_PATTERNS)"

definition detectRangeReferences :: "jsstr \<Rightarrow> FoundReference list" where
  "detectRangeReferences sentence =
     concat (map (\<lambda>p. map (\<lambda>m. (found (str ''range'') (85/100) sentence m)\<lparr>fr_targetArticle := cap m 1, fr_targetArticleEnd := cap m 2\<rparr>)
       (exec_all p sentence)) RANGE_PATTERNS)"

definition extractArticleNumbers :: "jsstr \<Rightarrow> jsstr list" where
  "extractArticleNumbers text =
     map (\<lambda>m. grp m 1 @ (if truthy (cap m 2) then [h_no] @ grp m 2 else []))
       (exec_all (rseq [RLit [c_dai], RGrp 1 (rplus (RCls False rng_kj1000)), RLit [c_jou], ropt (rseq [RLit [h_no], RGrp 2 (rplus (RCls False rng_kj10))])]) text)"

definition detectMultipleReferences :: "jsstr \<Rightarrow> FoundReference list" where
  "detectMultipleReferences sentence =
     concat (map (\<lambda>p. map (\<lambda>m. (found (str ''multiple'') (8/10) sentence m)\<lparr>fr_targetArticles := Some (extractArticleNumbers (m_text m))\<rparr>)
       (exec_all p sentence)) MULTIPLE_PATTERNS)"

definition detectStructureReferences :: "jsstr \<Rightarrow> FoundReference list" where
  "detectStructureReferences sentence =
     concat (map (\<lambda>p. map (\<lambda>m. (found (str ''structural'') (75/100) sentence m)
         \<lparr>fr_structureType := (if truthy (cap m 1) then cap m 1 else cap m 2), fr_structureName := Some (m_text m)\<rparr>)
       (exec_all p sentence)) STRUCTURE_PATTERNS)"

definition application_reference :: "jsstr \<Rightarrow> rmatch \<Rightarrow> FoundReference" where
  "application_reference sentence m =
     (let ref = (found (str ''application'') (8/10) sentence m)\<lparr>fr_applicationScope := cap m 1\<rparr>
      in if str_includes (m_text m) [0x8AAD, h_mi, 0x66FF, h_e, h_ru]
         then ref\<lparr>fr_modifications := Some [[p_lquote] @ grp m 2 @ [p_rquote, 0x2192, p_lquote] @ grp m 3 @ [p_rquote]]\<rparr>
         else ref)"

definition detectApplicationReferences :: "jsstr \<Rightarrow> FoundReference list" where
  "detectApplicationReferences sentence =
     concat (map (\<lambda>p. map (application_reference sentence) (exec_all p sentence)) APPLICATION_PATTERNS)"

section \<open>The method\<close>

definition splitIntoSentences :: "jsstr \<Rightarrow> jsstr list" where
  "splitIntoSentences text = map (\<lambda>s. s @ [p_stop]) (filter (\<lambda>s. trim s \<noteq> []) (split_char p_stop text))"

definition found_key :: "FoundReference \<Rightarrow> jsstr" where
  "found_key r = fr_type r @ (str '':'') @ fr_text r @ (str '':'') @ fr_context r"

definition adjusted :: "FoundReference \<Rightarrow> FoundReference" where
  "adjusted r =
     r\<lparr>fr_confidence := fr_confidence r * (if str_includes (fr_context r) [h_ta, 0x3060, h_shi] then 95/100 else 1) *
         (if str_includes (fr_context r) [c_jun, c_you] then 9/10 else 1)\<rparr>"

definition deduplicateAndAdjustConfidence :: "FoundReference list \<Rightarrow> FoundReference list" where
  "deduplicateAndAdjustConfidence refs =
     sort_key (\<lambda>r. - fr_confidence r) (map adjusted (first_by found_key [] refs))"

definition sentence_references :: "jsstr \<Rightarrow> FoundReference list" where
  "sentence_references sentence =
     detectInternalReferences sentence @ detectExternalReferences sentence @ comprehensive_detectRelative sentence @
     detectRangeReferences sentence @ detectMultipleReferences sentence @ detectStructureReferences sentence @
     detectApplicationReferences sentence"

definition detectAllReferences :: "jsstr \<Rightarrow> FoundReference list" where
  "detectAllReferences text =
     deduplicateAndAdjustConfidence (concat (map sentence_references (splitIntoSentences text)))"

section \<open>Where the references stand\<close>

text \<open>The families of patterns; every pattern consumes text.\<close>

definition comprehensive_patterns :: "regex list" where
  "comprehensive_patterns = ARTICLE_PATTERNS @ PARAGRAPH_ITEM_PATTERNS @ map fst RELATIVE_PATTERNS @ RANGE_PATTERNS @
     MULTIPLE_PATTERNS @ EXTERNAL_LAW_PATTERNS @ APPLICATION_PATTERNS @ STRUCTURE_PATTERNS"

lemma comprehensive_consume: "list_all (\<lambda>p. 0 < min_len p) comprehensive_patterns"
  by code_simp

lemmas family_defs = detectInternalReferences_def detectExternalReferences_def comprehensive_detectRelative_def
  detectRangeReferences_def detectMultipleReferences_def detectStructureReferences_def detectApplicationReferences_def

text \<open>A reference found in a sentence: it stands there, and its confidence is one of the constants.\<close>

definition found_in :: "jsstr \<Rightarrow> FoundReference \<Rightarrow> bool" where
  "found_in sentence r \<longleftrightarrow> fr_context r = sentence \<and> (\<exists>i. occurs_at sentence i (fr_text r)) \<and>
     fr_confidence r \<in> {75/100, 8/10, 85/100, 9/10, 95/100}"

lemma found_stands:
  assumes "m \<in> set (exec_all p s)" "0 < min_len p" "fr_text r = m_text m" "fr_context r = s" "fr_confidence r \<in> {75/100, 8/10, 85/100, 9/10, 95/100}"
  shows "found_in s r"
  using assms exec_all_occurs [of p m s] by (auto simp: found_in_def)

lemma sentence_found:
  assumes "r \<in> set (sentence_references s)"
  shows "found_in s r"
proof -
  have "\<exists>p m. p \<in> set comprehensive_patterns \<and> m \<in> set (exec_all p s) \<and>
      fr_text r = m_text m \<and> fr_context r = s \<and> fr_confidence r \<in> {75/100, 8/10, 85/100, 9/10, 95/100}"
    using assms unfolding comprehensive_patterns_def
    by (auto simp: sentence_references_def family_defs article_references_def paragraph_reference_def relative_reference_def
        application_reference_def found_def Let_def split: if_splits) force+
  then obtain p m where p: "p \<in> set comprehensive_patterns" "m \<in> set (exec_all p s)"
    and r: "fr_text r = m_text m" "fr_context r = s" "fr_confidence r \<in> {75/100, 8/10, 85/100, 9/10, 95/100}" by blast
  have "0 < min_len p" using comprehensive_consume p(1) by (simp only: list_all_iff)
  then show ?thesis by (rule found_stands [OF p(2) _ r])
qed

section \<open>Numerals\<close>

definition plain_numeral :: jsstr where
  "plain_numeral = [c_ichi, c_ni, c_san, c_yon, c_go, c_roku, c_nana, c_hachi, c_kyuu, c_juu, c_hyaku, c_sen]"

lemma step_same: "c \<in> set plain_numeral \<Longrightarrow> comprehensive_step st c = kanji_step st c"
  by (cases st) (auto simp: plain_numeral_def comprehensive_kanjiMap_def kanjiDigits_def kanjiUnits_def)

lemma fold_same: "set s \<subseteq> set plain_numeral \<Longrightarrow> foldl comprehensive_step st s = foldl kanji_step st s"
  by (induction s arbitrary: st) (auto simp: step_same simp del: kanji_step.simps comprehensive_step.simps)

lemma plain_digit: "0 < d \<Longrightarrow> d < 10 \<Longrightarrow> kanji_digit d \<in> set plain_numeral"
proof -
  assume "0 < d" "d < 10"
  then have "d \<in> set [1, 2, 3, 4, 5, 6, 7, 8, 9]" by auto
  moreover have "list_all (\<lambda>d. kanji_digit d \<in> set plain_numeral) [1, 2, 3, 4, 5, 6, 7, 8, 9]" by code_simp
  ultimately show ?thesis by (simp only: list_all_iff)
qed

lemma plain_of_nat: "n < 10000 \<Longrightarrow> set (kanji_of_nat n) \<subseteq> set plain_numeral"
proof -
  assume n: "n < 10000"
  have place: "set (kanji_place d u) \<subseteq> set plain_numeral" if "d < 10" "u \<in> {c_juu, c_hyaku, c_sen}" for d u
    using that plain_digit [of d] by (auto simp: kanji_place_def plain_numeral_def)
  show ?thesis using n plain_digit [of "n mod 10"] place by (auto simp: kanji_of_nat_def dest: place [THEN subsetD, rotated 2])
qed

lemma single_value:
  assumes "c \<in> set plain_numeral"
  shows "(case foldl comprehensive_step (0, 0) [c] of (result, temp) \<Rightarrow> result + temp) = the (map_of comprehensive_kanjiMap c)"
    "map_of comprehensive_kanjiMap c \<noteq> None"
  using assms by (auto simp: plain_numeral_def comprehensive_kanjiMap_def)

lemma numeral_value:
  assumes "set s \<subseteq> set plain_numeral"
  shows "comprehensive_kanjiToNumber s = kanji_run_value s"
proof -
  have "(case foldl comprehensive_step (0, 0) s of (result, temp) \<Rightarrow> result + temp) = kanji_run_value s"
    unfolding kanji_run_value_def fold_same [OF assms] by simp
  moreover have "comprehensive_kanjiToNumber s = (case foldl comprehensive_step (0, 0) s of (result, temp) \<Rightarrow> result + temp)"
  proof (cases "\<exists>c. s = [c]")
    case True
    then obtain c where s: "s = [c]" by blast
    with assms obtain v where "map_of comprehensive_kanjiMap c = Some v" using single_value(2) [of c] by auto
    with s assms single_value(1) [of c] show ?thesis by (simp add: comprehensive_kanjiToNumber_def)
  qed (auto simp: comprehensive_kanjiToNumber_def split: list.splits)
  ultimately show ?thesis by simp
qed

section \<open>Properties\<close>

lemma distinct_map_sort: "distinct (map f (sort_key k xs)) \<longleftrightarrow> distinct (map f xs)"
  by (simp add: distinct_map)

lemma adjusted_range: "found_in s x \<Longrightarrow> 6/10 \<le> fr_confidence (adjusted x) \<and> fr_confidence (adjusted x) \<le> 95/100"
proof -
  define c where "c = fr_confidence x"
  assume "found_in s x"
  then have "c \<in> {75/100, 8/10, 85/100, 9/10, 95/100}" by (simp add: found_in_def c_def)
  then have c: "75/100 \<le> c \<and> c \<le> 95/100" by (elim insertE) simp_all
  have "6/10 \<le> c * f * g \<and> c * f * g \<le> 95/100" if "f = 95/100 \<or> f = 1" "g = 9/10 \<or> g = 1" for f g
    using that c by (elim disjE; hypsubst; simp)
  from this [of "if str_includes (fr_context x) [h_ta, 0x3060, h_shi] then 95/100 else 1" "if str_includes (fr_context x) [c_jun, c_you] then 9/10 else 1"]
  show ?thesis unfolding adjusted_def c_def [symmetric] by (simp del: str_simps)
qed

text \<open>C36: the comprehensive detector returns, by falling confidence, exactly one reference for every key
  (type, text, sentence) that its patterns find in a sentence of the text; each stands in a sentence of the text, and
  its confidence lies between 0.6 and 0.95.\<close>

theorem comprehensive_exact:
  "sorted_wrt (\<lambda>a b. fr_confidence b \<le> fr_confidence a) (detectAllReferences text) \<and>
   distinct (map found_key (detectAllReferences text)) \<and>
   found_key ` set (detectAllReferences text) = found_key ` (\<Union>s \<in> set (splitIntoSentences text). set (sentence_references s)) \<and>
   list_all (\<lambda>r. fr_context r \<in> set (splitIntoSentences text) \<and> (\<exists>i. occurs_at (fr_context r) i (fr_text r)) \<and>
     6/10 \<le> fr_confidence r \<and> fr_confidence r \<le> 95/100) (detectAllReferences text)"
proof (intro conjI)
  let ?all = "concat (map sentence_references (splitIntoSentences text))"
  let ?first = "first_by found_key [] ?all"
  have keys: "distinct (map found_key ?first)" "found_key ` set ?first = found_key ` set ?all"
    using first_by_keys [of found_key "[]" ?all] by simp_all
  have same: "found_key (adjusted r) = found_key r" for r by (simp add: found_key_def adjusted_def)
  have "sorted (map (\<lambda>r. - fr_confidence r) (detectAllReferences text))"
    by (simp add: detectAllReferences_def deduplicateAndAdjustConfidence_def)
  then show "sorted_wrt (\<lambda>a b. fr_confidence b \<le> fr_confidence a) (detectAllReferences text)"
    by (simp add: sorted_wrt_map)
  have "distinct (map found_key (map adjusted ?first))" using keys(1) by (simp add: o_def same)
  then show "distinct (map found_key (detectAllReferences text))"
    unfolding detectAllReferences_def deduplicateAndAdjustConfidence_def distinct_map_sort .
  show "found_key ` set (detectAllReferences text) = found_key ` (\<Union>s \<in> set (splitIntoSentences text). set (sentence_references s))"
    using keys(2) by (simp add: detectAllReferences_def deduplicateAndAdjustConfidence_def image_image same)
  have "fr_context r \<in> set (splitIntoSentences text) \<and> (\<exists>i. occurs_at (fr_context r) i (fr_text r)) \<and>
      6/10 \<le> fr_confidence r \<and> fr_confidence r \<le> 95/100" if r: "r \<in> set (detectAllReferences text)" for r
  proof -
    obtain x where x: "x \<in> set ?first" "r = adjusted x"
      using r unfolding detectAllReferences_def deduplicateAndAdjustConfidence_def set_sort set_map by (elim imageE)
    then have "x \<in> set ?all" using first_by_sub by metis
    then obtain s where s: "s \<in> set (splitIntoSentences text)" "found_in s x" using sentence_found by auto
    then have "fr_context r \<in> set (splitIntoSentences text)" "\<exists>i. occurs_at (fr_context r) i (fr_text r)"
      by (simp_all add: x(2) found_in_def adjusted_def)
    with adjusted_range [of s x] s(2) x(2) show ?thesis by simp
  qed
  then show "list_all (\<lambda>r. fr_context r \<in> set (splitIntoSentences text) \<and> (\<exists>i. occurs_at (fr_context r) i (fr_text r)) \<and>
      6/10 \<le> fr_confidence r \<and> fr_confidence r \<le> 95/100) (detectAllReferences text)" by (simp add: list_all_iff)
qed

text \<open>the numeral reader of the comprehensive detector is right on every kanji numeral below 10000.\<close>

theorem comprehensive_numerals:
  assumes "0 < n" and "n < 10000"
  shows "comprehensive_kanjiToNumber (kanji_of_nat n) = int n"
  using numeral_value [OF plain_of_nat [OF assms(2)]] kanji_run_value_of_nat [of n] assms(2) by simp

theorem comprehensive_numerals_witness:
  "kanji_of_nat 120 = [c_hyaku, c_ni, c_juu] \<and> comprehensive_kanjiToNumber (kanji_of_nat 120) = 120"
proof -
  have "kanji_of_nat 120 = [c_hyaku, c_ni, c_juu]" by code_simp
  with comprehensive_numerals [of 120] show ?thesis by simp
qed

section \<open>Findings\<close>

text \<open>An item of "the same paragraph" is given the item's number as its paragraph, and no item.\<close>

lemma item_number_as_paragraph:
  "map (\<lambda>r. (fr_targetParagraph r, fr_targetItem r)) (filter (\<lambda>r. fr_type r = (str ''internal'') \<and> fr_text r = [c_dou, c_kou, c_dai, c_san, c_gou])
     (detectAllReferences [c_dou, c_kou, c_dai, c_san, c_gou])) = [(Some 3, None)]"
  by code_simp

text \<open>The type of the structure "chapter two" is the numeral, not the kind of structure.\<close>

lemma numeral_as_structure:
  "map fr_structureType (filter (\<lambda>r. fr_type r = (str ''structural'')) (detectAllReferences [c_dai, c_ni, c_shou])) = [Some [c_ni]]"
  by code_simp

text \<open>The kind \<open>previous_multiple\<close> has the pattern of an earlier kind, whose reference has the same key.\<close>

lemma multiple_never_reported:
  "map fr_relativeType (filter (\<lambda>r. fr_type r = (str ''relative'')) (detectAllReferences [c_zen, c_ni, c_kou])) = [Some (str ''previous'')]"
  by code_simp


end
