(* ===== verification/Manager.thy ===== *)
theory Manager
  imports ComprehensiveDetector
begin

text \<open>
  \<^verbatim>\<open>scripts/manager.ts\<close>: the tool that runs registered detectors over the stored laws, keeps their results in
  tables, validates and measures them, and writes references to the graph. The tables and the effect of the SQL
  statements in the source are modelled with the constraints of
  \<^verbatim>\<open>prisma/migrations/20250817000000_add_reference_management/migration.sql\<close>; a statement that violates one
  throws. The columns for times, for the context (always empty) and for JSON values are left out. What the queries on laws
  answer is an argument, and the graph is one of the state; its statements succeed. \<open>None\<close> is a throw. The command \<open>sync\<close>
  of the same file is in the theory \<open>GraphSync\<close>.
\<close>

section \<open>Tables\<close>

record AlgorithmVersion =
  av_id :: int
  av_version :: jsstr
  av_description :: jsstr
  av_parent :: "jsstr option"
  av_active :: bool

record DetectionRow =
  dn_id :: int
  dn_versionId :: int
  dn_lawId :: jsstr
  dn_article :: jsstr
  dn_targetLawId :: "jsstr option"
  dn_targetArticle :: "jsstr option"
  dn_type :: jsstr
  dn_text :: jsstr
  dn_confidence :: rat
  dn_verified :: bool
  dn_status :: "jsstr option"

record ValidationRow =
  vd_detectionId :: int
  vd_correct :: bool
  vd_notes :: jsstr
  vd_validatedBy :: jsstr

record ReferenceManager =
  mg_activeVersion :: "jsstr option"
  mg_versions :: "AlgorithmVersion list"
  mg_detections :: "DetectionRow list"
  mg_validations :: "ValidationRow list"
  mg_nextId :: int

text \<open>\<open>SELECT id FROM algorithm_versions WHERE version = ...\<close>, first row.\<close>

definition version_id :: "ReferenceManager \<Rightarrow> jsstr \<Rightarrow> int option" where
  "version_id g version = map_option av_id (find (\<lambda>v. av_version v = version) (mg_versions g))"

section \<open>Versions\<close>

text \<open>\<open>INSERT ... ON CONFLICT (version) DO NOTHING\<close>: \<open>None\<close> is the error for a value wider than its column. Of the
  numbers of the id columns only that they are new is modelled; one sequence serves all tables.\<close>

definition registerAlgorithm :: "jsstr \<Rightarrow> jsstr \<Rightarrow> jsstr option \<Rightarrow> ReferenceManager \<Rightarrow> ReferenceManager option" where
  "registerAlgorithm version description parent g =
     (if 20 < length version \<or> (case parent of None \<Rightarrow> False | Some p \<Rightarrow> 20 < length p) then None
      else if version_id g version \<noteq> None then Some g
      else Some (g\<lparr>mg_versions := mg_versions g @
          [\<lparr>av_id = mg_nextId g, av_version = version, av_description = description, av_parent = parent, av_active = False\<rparr>],
        mg_nextId := mg_nextId g + 1\<rparr>))"

definition setActiveAlgorithm :: "jsstr \<Rightarrow> ReferenceManager \<Rightarrow> ReferenceManager" where
  "setActiveAlgorithm version g =
     g\<lparr>mg_versions := map (\<lambda>v. if av_version v = version then v\<lparr>av_active := True\<rparr> else v)
          (map (\<lambda>v. if av_active v then v\<lparr>av_active := False\<rparr> else v) (mg_versions g)),
       mg_activeVersion := Some version\<rparr>"

section \<open>Detection\<close>

text \<open>What the manager reads of a result. A reference of the comprehensive detector has no field \<open>sourceText\<close>,
  \<open>targetLawId\<close> or \<open>targetArticleNumber\<close>.\<close>

record ManagedReference =
  mr_type :: jsstr
  mr_sourceText :: "jsstr option"
  mr_targetLawId :: "jsstr option"
  mr_targetArticleNumber :: "jsstr option"
  mr_confidence :: rat

definition managed_basic :: "BasicReference \<Rightarrow> ManagedReference" where
  "managed_basic r =
     \<lparr>mr_type = br_type r, mr_sourceText = Some (br_sourceText r), mr_targetLawId = br_targetLawId r,
      mr_targetArticleNumber = br_targetArticleNumber r, mr_confidence = br_confidence r\<rparr>"

definition managed_comprehensive :: "FoundReference \<Rightarrow> ManagedReference" where
  "managed_comprehensive r =
     \<lparr>mr_type = fr_type r, mr_sourceText = None, mr_targetLawId = None, mr_targetArticleNumber = None,
      mr_confidence = fr_confidence r\<rparr>"

definition detectorRegistry :: "jsstr \<Rightarrow> (jsstr \<Rightarrow> ManagedReference list) option" where
  "detectorRegistry version =
     (if version = (str ''1.0.0'') then Some (\<lambda>text. map managed_basic (basic_detectReferences text))
      else if version = (str ''2.0.0'') then Some (\<lambda>text. map managed_comprehensive (detectAllReferences text))
      else None)"

record ManagedLaw =
  ml_id :: jsstr
  ml_articles :: "(jsstr \<times> jsstr option) list option"

text \<open>The result without the time, which is a reading of the clock, and without the error values.\<close>

record DetectionResult =
  dd_version :: jsstr
  dd_totalDetected :: nat
  dd_newDetections :: nat
  dd_changedDetections :: nat
  dd_errors :: "(jsstr \<times> jsstr) list"

text \<open>The \<open>SELECT\<close> before the insertion: a comparison with \<open>NULL\<close> holds for no row.\<close>

definition existing_detection :: "int \<Rightarrow> jsstr \<Rightarrow> jsstr \<Rightarrow> jsstr option \<Rightarrow> DetectionRow list \<Rightarrow> bool" where
  "existing_detection versionId lawId article text rows =
     list_ex (\<lambda>d. dn_versionId d = versionId \<and> dn_lawId d = lawId \<and> dn_article d = article \<and> Some (dn_text d) = text) rows"

text \<open>The constraints on a new row: the text is not null, and the columns of limited width fit (in code units).\<close>

definition fits :: "jsstr option \<Rightarrow> bool" where
  "fits x \<longleftrightarrow> (case x of None \<Rightarrow> True | Some s \<Rightarrow> length s \<le> 50)"

definition insertable :: "jsstr \<Rightarrow> jsstr \<Rightarrow> ManagedReference \<Rightarrow> bool" where
  "insertable lawId article ref \<longleftrightarrow> mr_sourceText ref \<noteq> None \<and> fits (Some lawId) \<and> fits (Some article) \<and>
     fits (mr_targetLawId ref) \<and> fits (mr_targetArticleNumber ref) \<and> fits (Some (mr_type ref))"

definition new_detection :: "int \<Rightarrow> int \<Rightarrow> jsstr \<Rightarrow> jsstr \<Rightarrow> ManagedReference \<Rightarrow> DetectionRow" where
  "new_detection i versionId lawId article ref =
     \<lparr>dn_id = i, dn_versionId = versionId, dn_lawId = lawId, dn_article = article, dn_targetLawId = mr_targetLawId ref,
      dn_targetArticle = mr_targetArticleNumber ref, dn_type = mr_type ref, dn_text = the (mr_sourceText ref),
      dn_confidence = mr_confidence ref, dn_verified = False, dn_status = None\<rparr>"

text \<open>The loop over the references of an article: whether it ended without a throw, the result and the tables.\<close>

fun store_references :: "bool \<Rightarrow> int \<Rightarrow> jsstr \<Rightarrow> jsstr \<Rightarrow> ManagedReference list \<Rightarrow> DetectionResult \<times> ReferenceManager \<Rightarrow>
    bool \<times> DetectionResult \<times> ReferenceManager" where
  "store_references dryRun versionId lawId article [] st = (True, st)"
| "store_references dryRun versionId lawId article (ref # refs) (res, g) =
     (let counted = res\<lparr>dd_totalDetected := dd_totalDetected res + 1\<rparr>
      in if dryRun then store_references dryRun versionId lawId article refs (counted, g)
         else if existing_detection versionId lawId article (mr_sourceText ref) (mg_detections g)
         then store_references dryRun versionId lawId article refs (counted, g)
         else if insertable lawId article ref
         then store_references dryRun versionId lawId article refs
           (counted\<lparr>dd_newDetections := dd_newDetections res + 1\<rparr>,
            g\<lparr>mg_detections := mg_detections g @ [new_detection (mg_nextId g) versionId lawId article ref], mg_nextId := mg_nextId g + 1\<rparr>)
         else (False, res, g))"

definition detect_article :: "(jsstr \<Rightarrow> ManagedReference list) \<Rightarrow> bool \<Rightarrow> int \<Rightarrow> jsstr \<Rightarrow>
    DetectionResult \<times> ReferenceManager \<Rightarrow> jsstr \<times> jsstr option \<Rightarrow> DetectionResult \<times> ReferenceManager" where
  "detect_article detector dryRun versionId lawId st article =
     (case store_references dryRun versionId lawId (fst article)
         (detector (case snd article of None \<Rightarrow> [] | Some s \<Rightarrow> s)) st of
        (True, st') \<Rightarrow> st'
      | (False, res, g) \<Rightarrow> (res\<lparr>dd_errors := dd_errors res @ [(lawId, fst article)]\<rparr>, g))"

text \<open>The loop over the laws: a law without articles (\<open>undefined\<close>) ends the run with a throw, after the rows of the laws
  before it have been written.\<close>

fun detect_laws :: "(jsstr \<Rightarrow> ManagedReference list) \<Rightarrow> bool \<Rightarrow> int \<Rightarrow> ManagedLaw option list \<Rightarrow>
    DetectionResult \<times> ReferenceManager \<Rightarrow> bool \<times> DetectionResult \<times> ReferenceManager" where
  "detect_laws detector dryRun versionId [] st = (True, st)"
| "detect_laws detector dryRun versionId (None # laws) st = detect_laws detector dryRun versionId laws st"
| "detect_laws detector dryRun versionId (Some law # laws) st =
     (case ml_articles law of
        None \<Rightarrow> (False, st)
      | Some articles \<Rightarrow>
          detect_laws detector dryRun versionId laws (foldl (detect_article detector dryRun versionId (ml_id law)) st articles))"

text \<open>\<open>None\<close> is a throw; the tables keep what was written.\<close>

definition detect :: "bool \<Rightarrow> ManagedLaw option list \<Rightarrow> ReferenceManager \<Rightarrow> DetectionResult option \<times> ReferenceManager" where
  "detect dryRun laws g =
     (let version = (if truthy (mg_activeVersion g) then the (mg_activeVersion g) else (str ''2.0.0''))
      in case (detectorRegistry version, version_id g version) of
           (Some detector, Some versionId) \<Rightarrow>
             (case detect_laws detector dryRun versionId laws
                 (\<lparr>dd_version = version, dd_totalDetected = 0, dd_newDetections = 0, dd_changedDetections = 0, dd_errors = []\<rparr>, g) of
                (ok, res, g') \<Rightarrow> (if ok then Some res else None, g'))
         | _ \<Rightarrow> (None, g))"

section \<open>Validation and metrics\<close>

text \<open>The \<open>INSERT\<close> violates the foreign key, and throws, when there is no such detection.\<close>

definition validate :: "int \<Rightarrow> bool \<Rightarrow> jsstr option \<Rightarrow> ReferenceManager \<Rightarrow> ReferenceManager option" where
  "validate detectionId isCorrect notes g =
     (if detectionId \<notin> set (map dn_id (mg_detections g)) then None
      else Some (g\<lparr>mg_validations := mg_validations g @
          [\<lparr>vd_detectionId = detectionId, vd_correct = isCorrect, vd_notes = (case notes of None \<Rightarrow> [] | Some n \<Rightarrow> n),
            vd_validatedBy = (str ''system'')\<rparr>],
        mg_detections := map (\<lambda>d. if dn_id d = detectionId
          then d\<lparr>dn_verified := True, dn_status := Some (if isCorrect then (str ''correct'') else (str ''incorrect''))\<rparr> else d) (mg_detections g)\<rparr>))"

record Metrics =
  mt_version :: jsstr
  mt_precision :: rat
  mt_recall :: rat
  mt_f1Score :: rat
  mt_totalReferences :: nat
  mt_detectedReferences :: nat
  mt_falsePositives :: nat
  mt_falseNegatives :: nat
  mt_processingTimeMs :: nat

definition judged :: "jsstr \<Rightarrow> DetectionRow \<Rightarrow> bool" where
  "judged status d \<longleftrightarrow> dn_verified d \<and> dn_status d = Some status"

text \<open>\<open>a / b || 0\<close>: 0 where the quotient is not a number.\<close>

definition quotient :: "rat \<Rightarrow> rat \<Rightarrow> rat" where
  "quotient a b = (if b = 0 then 0 else a / b)"

definition getMetrics :: "jsstr option \<Rightarrow> ReferenceManager \<Rightarrow> Metrics option" where
  "getMetrics version g =
     (let targetVersion = (if truthy version then the version
        else if truthy (mg_activeVersion g) then the (mg_activeVersion g) else (str ''2.0.0''))
      in case version_id g targetVersion of
           None \<Rightarrow> None
         | Some versionId \<Rightarrow>
             (let rows = filter (\<lambda>d. dn_versionId d = versionId) (mg_detections g);
                  correct = length (filter (judged (str ''correct'')) rows);
                  incorrect = length (filter (judged (str ''incorrect'')) rows);
                  precision = quotient (of_nat correct) (of_nat correct + of_nat incorrect);
                  recall = 85 / 100
              in Some \<lparr>mt_version = targetVersion, mt_precision = precision, mt_recall = recall,
                   mt_f1Score = quotient (2 * (precision * recall)) (precision + recall),
                   mt_totalReferences = length rows, mt_detectedReferences = correct, mt_falsePositives = incorrect,
                   mt_falseNegatives = 0, mt_processingTimeMs = 0\<rparr>))"

text \<open>The two metrics and the differences of precision, recall, F1 score and correct detections.\<close>

definition compareVersions :: "jsstr \<Rightarrow> jsstr \<Rightarrow> ReferenceManager \<Rightarrow> (Metrics \<times> Metrics \<times> rat \<times> rat \<times> rat \<times> int) option" where
  "compareVersions v1 v2 g =
     (case (getMetrics (Some v1) g, getMetrics (Some v2) g) of
        (Some m1, Some m2) \<Rightarrow> Some (m1, m2, mt_precision m2 - mt_precision m1, mt_recall m2 - mt_recall m1,
          mt_f1Score m2 - mt_f1Score m1, int (mt_detectedReferences m2) - int (mt_detectedReferences m1))
      | _ \<Rightarrow> None)"

section \<open>Writing the detections to the graph\<close>

text \<open>The article nodes are a list of law and number; an edge names its ends by their positions.\<close>

record GraphEdge =
  ge_label :: jsstr
  ge_from :: nat
  ge_to :: nat
  ge_type :: jsstr
  ge_text :: jsstr
  ge_confidence :: rat

definition merge_reference :: "(jsstr \<times> jsstr) list \<Rightarrow> GraphEdge list \<Rightarrow> DetectionRow \<Rightarrow> GraphEdge list" where
  "merge_reference nodes edges ref =
     foldl (\<lambda>es i. let e = \<lparr>ge_label = (str ''REFERS_TO''), ge_from = i, ge_to = i, ge_type = dn_type ref, ge_text = dn_text ref,
              ge_confidence = dn_confidence ref\<rparr>
            in if e \<in> set es then es else es @ [e])
       edges (filter (\<lambda>i. nodes ! i = (dn_lawId ref, dn_article ref)) [0..<length nodes])"

definition article_edge :: "GraphEdge \<Rightarrow> bool" where
  "article_edge e \<longleftrightarrow> ge_label e \<in> {(str ''REFERS_TO''), (str ''REFERS_TO_LAW''), (str ''RELATIVE_REF''), (str ''APPLIES'')}"

text \<open>A version without a row gives a comparison with \<open>NULL\<close>, which selects nothing.\<close>

definition sync_rows :: "jsstr \<Rightarrow> ReferenceManager \<Rightarrow> DetectionRow list" where
  "sync_rows version g =
     (case version_id g version of
        None \<Rightarrow> []
      | Some versionId \<Rightarrow> filter (\<lambda>d. dn_versionId d = versionId \<and> (\<not> dn_verified d \<or> dn_status d = Some (str ''correct''))) (mg_detections g))"

definition syncToProduction :: "jsstr \<Rightarrow> ReferenceManager \<Rightarrow> (jsstr \<times> jsstr) list \<Rightarrow> GraphEdge list \<Rightarrow> GraphEdge list" where
  "syncToProduction version g nodes edges =
     foldl (merge_reference nodes)
       (filter (\<lambda>e. \<not> article_edge e) edges) (sync_rows version g)"

section \<open>The tables under the operations\<close>

text \<open>The consistency of the tables: versions and detections have different ids and keys, at most one version is active,
  detections and validations refer to rows that exist, and a detection has a status exactly when it has been validated.\<close>

definition detection_key :: "DetectionRow \<Rightarrow> int \<times> jsstr \<times> jsstr \<times> jsstr" where
  "detection_key d = (dn_versionId d, dn_lawId d, dn_article d, dn_text d)"

definition versions_ok :: "ReferenceManager \<Rightarrow> bool" where
  "versions_ok g \<longleftrightarrow> distinct (map av_id (mg_versions g)) \<and> distinct (map av_version (mg_versions g)) \<and>
     list_all (\<lambda>v. av_id v < mg_nextId g) (mg_versions g) \<and> length (filter av_active (mg_versions g)) \<le> 1"

definition row_ok :: "int set \<Rightarrow> int \<Rightarrow> int set \<Rightarrow> DetectionRow \<Rightarrow> bool" where
  "row_ok versions bound validated d \<longleftrightarrow> dn_versionId d \<in> versions \<and> dn_id d < bound \<and>
     (dn_verified d \<longleftrightarrow> dn_id d \<in> validated) \<and> (dn_verified d \<longleftrightarrow> dn_status d \<noteq> None) \<and>
     dn_status d \<in> {None, Some (str ''correct''), Some (str ''incorrect'')}"

definition validated_ids :: "ReferenceManager \<Rightarrow> int set" where
  "validated_ids g = vd_detectionId ` set (mg_validations g)"

definition tables_ok :: "ReferenceManager \<Rightarrow> bool" where
  "tables_ok g \<longleftrightarrow> versions_ok g \<and> distinct (map dn_id (mg_detections g)) \<and> distinct (map detection_key (mg_detections g)) \<and>
     list_all (row_ok (av_id ` set (mg_versions g)) (mg_nextId g) (validated_ids g)) (mg_detections g) \<and>
     validated_ids g \<subseteq> dn_id ` set (mg_detections g)"

lemma version_id_in: "version_id g v = Some i \<Longrightarrow> i \<in> av_id ` set (mg_versions g)"
  by (auto simp: version_id_def find_Some_iff)

lemma version_id_None: "version_id g v = None \<longleftrightarrow> v \<notin> av_version ` set (mg_versions g)"
  by (auto simp: version_id_def find_None_iff)

lemma algorithm_register_ok:
  assumes g: "tables_ok g" and "registerAlgorithm version description parent g = Some g'"
  shows "tables_ok g'"
proof (cases "version_id g version")
  case None
  have rows: "list_all (row_ok (insert i V) (n + 1) W) ds" if "list_all (row_ok V n W) ds" for i V n W ds
    using that by (auto simp: list_all_iff row_ok_def)
  have "list_all (\<lambda>v. av_id v \<le> mg_nextId g) (mg_versions g)" "mg_nextId g \<notin> av_id ` set (mg_versions g)"
    using g by (auto simp: tables_ok_def versions_ok_def list_all_iff)
  moreover have "g' = g\<lparr>mg_versions := mg_versions g @ [\<lparr>av_id = mg_nextId g, av_version = version,
      av_description = description, av_parent = parent, av_active = False\<rparr>], mg_nextId := mg_nextId g + 1\<rparr>"
    using assms(2) None by (simp add: registerAlgorithm_def split: if_splits)
  ultimately show ?thesis using g None rows
    by (simp add: tables_ok_def versions_ok_def version_id_None validated_ids_def)
qed (use assms in \<open>auto simp: registerAlgorithm_def split: if_splits\<close>)

lemma filter_active:
  "distinct (map av_version vs) \<Longrightarrow>
   length (filter av_active (map (\<lambda>v. if av_version v = version then v\<lparr>av_active := True\<rparr> else v)
     (map (\<lambda>v. if av_active v then v\<lparr>av_active := False\<rparr> else v) vs))) = (if version \<in> av_version ` set vs then 1 else 0)"
  by (induction vs) (auto simp: filter_map simp del: map_map)

lemma activate_ok: "tables_ok g \<Longrightarrow> tables_ok (setActiveAlgorithm version g)"
proof -
  assume g: "tables_ok g"
  from g have "length (filter av_active (mg_versions (setActiveAlgorithm version g))) \<le> 1"
    using filter_active [of "mg_versions g" version] by (simp add: setActiveAlgorithm_def tables_ok_def versions_ok_def)
  moreover have ids: "map av_id (mg_versions (setActiveAlgorithm version g)) = map av_id (mg_versions g)"
    and "map av_version (mg_versions (setActiveAlgorithm version g)) = map av_version (mg_versions g)"
    by (simp_all add: setActiveAlgorithm_def)
  moreover from ids have img: "av_id ` set (mg_versions (setActiveAlgorithm version g)) = av_id ` set (mg_versions g)"
    by (metis set_map)
  moreover have below: "list_all (\<lambda>v. av_id v < n) vs \<longleftrightarrow> (\<forall>i \<in> av_id ` set vs. i < n)" for n vs
    by (simp add: list_all_iff)
  from g have "list_all (\<lambda>v. av_id v < mg_nextId g) (mg_versions (setActiveAlgorithm version g))"
    unfolding tables_ok_def versions_ok_def below img by blast
  moreover have "mg_detections (setActiveAlgorithm version g) = mg_detections g" "mg_nextId (setActiveAlgorithm version g) = mg_nextId g"
    "validated_ids (setActiveAlgorithm version g) = validated_ids g"
    by (simp_all add: setActiveAlgorithm_def validated_ids_def)
  ultimately show ?thesis using g
    by (simp add: tables_ok_def versions_ok_def)
qed

lemma validate_ok: "tables_ok g \<Longrightarrow> validate i c notes g = Some g' \<Longrightarrow> tables_ok g'"
proof -
  let ?f = "\<lambda>d. if dn_id d = i then d\<lparr>dn_verified := True, dn_status := Some (if c then (str ''correct'') else (str ''incorrect''))\<rparr> else d"
  assume g: "tables_ok g" and v: "validate i c notes g = Some g'"
  have rows: "mg_detections g' = map ?f (mg_detections g)" and ids: "validated_ids g' = insert i (validated_ids g)"
    and same: "mg_versions g' = mg_versions g" "mg_nextId g' = mg_nextId g" and i: "i \<in> dn_id ` set (mg_detections g)"
    using v by (auto simp: validate_def validated_ids_def split: if_splits)
  have keys: "map dn_id (mg_detections g') = map dn_id (mg_detections g)" "map detection_key (mg_detections g') = map detection_key (mg_detections g)"
    unfolding rows by (simp_all add: detection_key_def)
  from keys(1) have "dn_id ` set (mg_detections g') = dn_id ` set (mg_detections g)" by (metis set_map)
  moreover have "list_all (row_ok V n (insert i W)) (map ?f ds)" if "list_all (row_ok V n W) ds" for V n W ds
    using that by (induction ds) (auto simp: row_ok_def)
  then have "list_all (row_ok V n (insert i W)) (mg_detections g')" if "list_all (row_ok V n W) (mg_detections g)" for V n W
    unfolding rows using that by blast
  ultimately show ?thesis using g i keys
    by (simp add: tables_ok_def versions_ok_def ids same)
qed

text \<open>What the loops of a detection keep: everything but the detections, which only grow.\<close>

definition extends :: "ReferenceManager \<Rightarrow> ReferenceManager \<Rightarrow> bool" where
  "extends g g' \<longleftrightarrow> mg_activeVersion g' = mg_activeVersion g \<and> mg_versions g' = mg_versions g \<and>
     mg_validations g' = mg_validations g \<and> (\<exists>new. mg_detections g' = mg_detections g @ new)"

lemma extends_refl [simp]: "extends g g"
  by (simp add: extends_def)

lemma extends_trans: "extends g g' \<Longrightarrow> extends g' g'' \<Longrightarrow> extends g g''"
  by (auto simp: extends_def)

definition with_detection :: "int \<Rightarrow> jsstr \<Rightarrow> jsstr \<Rightarrow> ManagedReference \<Rightarrow> ReferenceManager \<Rightarrow> ReferenceManager" where
  "with_detection versionId lawId article ref g =
     g\<lparr>mg_detections := mg_detections g @ [new_detection (mg_nextId g) versionId lawId article ref], mg_nextId := mg_nextId g + 1\<rparr>"

lemma with_detection_extends: "extends g (with_detection versionId lawId article ref g)"
  by (simp add: extends_def with_detection_def)

lemma new_detection_key:
  "mr_sourceText ref = Some t \<Longrightarrow> detection_key (new_detection i versionId lawId article ref) = (versionId, lawId, article, t)"
  by (simp add: detection_key_def new_detection_def)

lemma existing_key: "existing_detection versionId lawId article text rows \<longleftrightarrow>
    (\<exists>t. text = Some t \<and> (versionId, lawId, article, t) \<in> detection_key ` set rows)"
  by (auto simp: existing_detection_def detection_key_def list_ex_iff image_iff)

lemma with_detection_ok:
  assumes g: "tables_ok g" and new: "\<not> existing_detection versionId lawId article (mr_sourceText ref) (mg_detections g)"
    and ref: "insertable lawId article ref" and v: "versionId \<in> av_id ` set (mg_versions g)"
  shows "tables_ok (with_detection versionId lawId article ref g)"
proof -
  let ?d = "new_detection (mg_nextId g) versionId lawId article ref"
  obtain t where t: "mr_sourceText ref = Some t" using ref by (auto simp: insertable_def)
  have below: "dn_id d < mg_nextId g" if "d \<in> set (mg_detections g)" for d
    using g that by (auto simp: tables_ok_def list_all_iff row_ok_def)
  then have fresh: "mg_nextId g \<notin> dn_id ` set (mg_detections g)" by force
  then have "mg_nextId g \<notin> validated_ids g" using g by (auto simp: tables_ok_def)
  then have row: "row_ok (av_id ` set (mg_versions g)) (mg_nextId g + 1) (validated_ids g) ?d"
    using v by (simp add: row_ok_def new_detection_def)
  have old: "list_all (row_ok V (n + 1) W) ds" if "list_all (row_ok V n W) ds" for V n W ds
    using that by (auto simp: list_all_iff row_ok_def)
  have "detection_key ?d \<notin> detection_key ` set (mg_detections g)"
    using new t by (simp add: new_detection_key existing_key)
  moreover have "dn_id ?d = mg_nextId g" by (simp add: new_detection_def)
  moreover have "versions_ok (with_detection versionId lawId article ref g)"
    using g by (auto simp: with_detection_def tables_ok_def versions_ok_def list_all_iff)
  ultimately show ?thesis using g row fresh old
    by (auto simp: with_detection_def tables_ok_def validated_ids_def)
qed

lemma store_step:
  "store_references dryRun versionId lawId article (ref # refs) (res, g) =
     (let counted = res\<lparr>dd_totalDetected := dd_totalDetected res + 1\<rparr>
      in if dryRun \<or> existing_detection versionId lawId article (mr_sourceText ref) (mg_detections g)
         then store_references dryRun versionId lawId article refs (counted, g)
         else if insertable lawId article ref
         then store_references dryRun versionId lawId article refs
           (counted\<lparr>dd_newDetections := dd_newDetections res + 1\<rparr>, with_detection versionId lawId article ref g)
         else (False, res, g))"
  by (simp add: with_detection_def Let_def)

lemma store_ok:
  assumes "store_references dryRun versionId lawId article refs (res, g) = (b, res', g')"
    and "tables_ok g" "versionId \<in> av_id ` set (mg_versions g)"
  shows "tables_ok g' \<and> extends g g'"
  using assms
proof (induction refs arbitrary: res g)
  case (Cons ref refs)
  note step = Cons.prems(1) [unfolded store_step Let_def]
  consider (kept) "dryRun \<or> existing_detection versionId lawId article (mr_sourceText ref) (mg_detections g)"
    | (new) "\<not> dryRun" "\<not> existing_detection versionId lawId article (mr_sourceText ref) (mg_detections g)" "insertable lawId article ref"
    | (failed) "\<not> dryRun" "\<not> existing_detection versionId lawId article (mr_sourceText ref) (mg_detections g)" "\<not> insertable lawId article ref"
    by blast
  then show ?case
  proof cases
    case kept
    then show ?thesis using Cons.IH [of "res\<lparr>dd_totalDetected := dd_totalDetected res + 1\<rparr>" g] Cons.prems(2,3) step by simp
  next
    case new
    let ?g = "with_detection versionId lawId article ref g"
    have "tables_ok ?g" by (rule with_detection_ok [OF Cons.prems(2) new(2,3) Cons.prems(3)])
    moreover have "versionId \<in> av_id ` set (mg_versions ?g)" using Cons.prems(3) by (simp add: with_detection_def)
    ultimately have "tables_ok g' \<and> extends ?g g'" using Cons.IH [OF _ \<open>tables_ok ?g\<close>] step new by simp
    then show ?thesis using extends_trans [OF with_detection_extends] by blast
  next
    case failed
    then show ?thesis using step Cons.prems(2) by simp
  qed
qed simp

lemma article_ok:
  assumes "tables_ok g" "versionId \<in> av_id ` set (mg_versions g)"
  shows "tables_ok (snd (detect_article detector dryRun versionId lawId (res, g) a)) \<and>
    extends g (snd (detect_article detector dryRun versionId lawId (res, g) a))"
proof -
  obtain b res' g' where s: "store_references dryRun versionId lawId (fst a)
      (detector (case snd a of None \<Rightarrow> [] | Some s \<Rightarrow> s)) (res, g) = (b, res', g')"
    by (metis prod_cases3)
  show ?thesis using store_ok [OF s assms] s by (cases b) (simp_all add: detect_article_def)
qed

lemma articles_ok:
  assumes "tables_ok (snd st)" "versionId \<in> av_id ` set (mg_versions (snd st))"
  shows "tables_ok (snd (foldl (detect_article detector dryRun versionId lawId) st as)) \<and>
    extends (snd st) (snd (foldl (detect_article detector dryRun versionId lawId) st as))"
  using assms
proof (induction "as" arbitrary: st)
  case (Cons a "as")
  obtain res g where st: "st = (res, g)" by force
  let ?st = "detect_article detector dryRun versionId lawId st a"
  have a: "tables_ok (snd ?st)" "extends g (snd ?st)"
    using article_ok [of g versionId detector dryRun lawId res a] Cons.prems st by simp_all
  moreover from a(2) have "versionId \<in> av_id ` set (mg_versions (snd ?st))" using Cons.prems(2) st by (simp add: extends_def)
  ultimately show ?case using Cons.IH [of ?st] extends_trans st by auto
qed simp

lemma laws_ok:
  assumes "detect_laws detector dryRun versionId laws st = (b, st')"
    and "tables_ok (snd st)" "versionId \<in> av_id ` set (mg_versions (snd st))"
  shows "tables_ok (snd st') \<and> extends (snd st) (snd st')"
  using assms
proof (induction detector dryRun versionId laws st rule: detect_laws.induct)
  case (3 detector dryRun versionId law laws st)
  show ?case
  proof (cases "ml_articles law")
    case (Some "as")
    let ?st = "foldl (detect_article detector dryRun versionId (ml_id law)) st as"
    have a: "tables_ok (snd ?st)" "extends (snd st) (snd ?st)" using articles_ok 3(3,4) by blast+
    then have "versionId \<in> av_id ` set (mg_versions (snd ?st))" using 3(4) by (simp add: extends_def)
    then show ?thesis using 3(1) [OF Some _ a(1)] 3(2) Some a(2) extends_trans by auto
  qed (use 3 in auto)
qed auto

lemma detect_ok:
  assumes "tables_ok g"
  shows "tables_ok (snd (detect dryRun laws g)) \<and> extends g (snd (detect dryRun laws g))"
proof -
  let ?v = "if truthy (mg_activeVersion g) then the (mg_activeVersion g) else (str ''2.0.0'')"
  let ?r = "\<lparr>dd_version = ?v, dd_totalDetected = 0, dd_newDetections = 0, dd_changedDetections = 0, dd_errors = []\<rparr>"
  show ?thesis
  proof (cases "detectorRegistry ?v = None \<or> version_id g ?v = None")
    case False
    then obtain f i where fi: "detectorRegistry ?v = Some f" "version_id g ?v = Some i" by auto
    obtain b st' where run: "detect_laws f dryRun i laws (?r, g) = (b, st')" by (meson surj_pair)
    have "snd (detect dryRun laws g) = snd st'"
      using fi run by (simp add: detect_def Let_def split_beta)
    then show ?thesis using laws_ok [OF run] assms version_id_in [OF fi(2)] by simp
  qed (use assms in \<open>auto simp: detect_def Let_def split: option.splits\<close>)
qed

text \<open>The operations that write to the tables; one that throws leaves what it had written.\<close>

datatype ManagerCall =
    Register jsstr jsstr "jsstr option"
  | Activate jsstr
  | Detect bool "ManagedLaw option list"
  | Validate int bool "jsstr option"

fun apply_manager :: "ReferenceManager \<Rightarrow> ManagerCall \<Rightarrow> ReferenceManager" where
  "apply_manager g (Register v d p) = (case registerAlgorithm v d p g of None \<Rightarrow> g | Some g' \<Rightarrow> g')"
| "apply_manager g (Activate v) = setActiveAlgorithm v g"
| "apply_manager g (Detect dryRun laws) = snd (detect dryRun laws g)"
| "apply_manager g (Validate i c n) = (case validate i c n g of None \<Rightarrow> g | Some g' \<Rightarrow> g')"

interpretation managing: invariant_machine apply_manager tables_ok "\<lambda>_. True"
proof unfold_locales
  show "tables_ok (apply_manager g c)" if g: "tables_ok g" for g c
  proof (cases c)
    case Register
    then show ?thesis using algorithm_register_ok [OF g] g by (simp split: option.split)
  next
    case Activate
    then show ?thesis using activate_ok [OF g] by simp
  next
    case Detect
    then show ?thesis using detect_ok [OF g] by simp
  next
    case Validate
    then show ?thesis using validate_ok [OF g] g by (simp split: option.split)
  qed
qed

definition new_manager :: ReferenceManager where
  "new_manager = \<lparr>mg_activeVersion = None, mg_versions = [], mg_detections = [], mg_validations = [], mg_nextId = 1\<rparr>"

section \<open>Running a detection again\<close>

definition stored :: "int \<Rightarrow> jsstr \<Rightarrow> jsstr \<Rightarrow> ReferenceManager \<Rightarrow> ManagedReference \<Rightarrow> bool" where
  "stored versionId lawId article g ref \<longleftrightarrow> existing_detection versionId lawId article (mr_sourceText ref) (mg_detections g)"

lemma stored_extends: "extends g g' \<Longrightarrow> stored versionId lawId article g ref \<Longrightarrow> stored versionId lawId article g' ref"
  by (auto simp: stored_def existing_detection_def extends_def)

lemma stored_with_detection:
  "insertable lawId article ref \<Longrightarrow> stored versionId lawId article (with_detection versionId lawId article ref g) ref"
  by (auto simp: stored_def existing_key with_detection_def insertable_def new_detection_key image_iff)

text \<open>The counts and the rows of the loop over the references of an article that ends without a throw.\<close>

lemma store_all:
  assumes "store_references False versionId lawId article refs (res, g) = (True, res', g')"
  shows "extends g g' \<and> list_all (stored versionId lawId article g') refs \<and> dd_errors res' = dd_errors res \<and>
    dd_totalDetected res' = dd_totalDetected res + length refs \<and> dd_version res' = dd_version res \<and>
    dd_changedDetections res' = dd_changedDetections res \<and>
    dd_newDetections res' + length (mg_detections g) = dd_newDetections res + length (mg_detections g')"
  using assms
proof (induction refs arbitrary: res g)
  case (Cons ref refs)
  note step = Cons.prems [unfolded store_step Let_def]
  let ?counted = "res\<lparr>dd_totalDetected := dd_totalDetected res + 1\<rparr>" and ?g = "with_detection versionId lawId article ref g"
  show ?case
  proof (cases "stored versionId lawId article g ref")
    case True
    then have "store_references False versionId lawId article refs (?counted, g) = (True, res', g')"
      using step by (simp add: stored_def)
    from Cons.IH [OF this] show ?thesis using stored_extends [OF _ True] by simp
  next
    case False
    then have ins: "insertable lawId article ref" using step by (simp add: stored_def split: if_splits)
    with False have "store_references False versionId lawId article refs
        (?counted\<lparr>dd_newDetections := dd_newDetections res + 1\<rparr>, ?g) = (True, res', g')"
      using step by (simp add: stored_def)
    note IH = Cons.IH [OF this]
    then have "extends g g'" using extends_trans [OF with_detection_extends] by blast
    moreover have "stored versionId lawId article g' ref" using IH stored_extends stored_with_detection [OF ins] by blast
    moreover have "length (mg_detections ?g) = Suc (length (mg_detections g))" by (simp add: with_detection_def)
    ultimately show ?thesis using IH by simp
  qed
qed simp

lemma store_stored:
  "list_all (stored versionId lawId article g) refs \<Longrightarrow>
   store_references False versionId lawId article refs (res, g) = (True, res\<lparr>dd_totalDetected := dd_totalDetected res + length refs\<rparr>, g)"
  by (induction refs arbitrary: res) (simp_all add: stored_def)

definition article_references :: "(jsstr \<Rightarrow> ManagedReference list) \<Rightarrow> jsstr \<times> jsstr option \<Rightarrow> ManagedReference list" where
  "article_references detector article = detector (case snd article of None \<Rightarrow> [] | Some s \<Rightarrow> s)"

text \<open>All articles to visit, with the law of each.\<close>

definition law_articles :: "ManagedLaw \<Rightarrow> (jsstr \<times> jsstr \<times> jsstr option) list" where
  "law_articles law = map (Pair (ml_id law)) (case ml_articles law of None \<Rightarrow> [] | Some as \<Rightarrow> as)"

definition all_articles :: "ManagedLaw option list \<Rightarrow> (jsstr \<times> jsstr \<times> jsstr option) list" where
  "all_articles laws = concat (map (\<lambda>l. case l of None \<Rightarrow> [] | Some law \<Rightarrow> law_articles law) laws)"

definition visit :: "(jsstr \<Rightarrow> ManagedReference list) \<Rightarrow> bool \<Rightarrow> int \<Rightarrow> DetectionResult \<times> ReferenceManager \<Rightarrow>
    jsstr \<times> jsstr \<times> jsstr option \<Rightarrow> DetectionResult \<times> ReferenceManager" where
  "visit detector dryRun versionId st la = detect_article detector dryRun versionId (fst la) st (snd la)"

lemma foldl_visit: "foldl (visit detector dryRun versionId) st (map (Pair lawId) as) = foldl (detect_article detector dryRun versionId lawId) st as"
  by (induction "as" arbitrary: st) (simp_all add: visit_def)

lemma laws_visit:
  "detect_laws detector dryRun versionId laws st = (True, st') \<Longrightarrow> st' = foldl (visit detector dryRun versionId) st (all_articles laws)"
proof (induction detector dryRun versionId laws st rule: detect_laws.induct)
  case (3 detector dryRun versionId law laws st)
  then show ?case by (auto simp: all_articles_def law_articles_def foldl_visit split: option.splits)
qed (auto simp: all_articles_def)

lemma laws_complete:
  "list_all (\<lambda>l. case l of None \<Rightarrow> True | Some law \<Rightarrow> ml_articles law \<noteq> None) laws \<longleftrightarrow> fst (detect_laws detector dryRun versionId laws st)"
  by (induction detector dryRun versionId laws st rule: detect_laws.induct) (auto split: option.split)

definition visited :: "(jsstr \<Rightarrow> ManagedReference list) \<Rightarrow> int \<Rightarrow> ReferenceManager \<Rightarrow> jsstr \<times> jsstr \<times> jsstr option \<Rightarrow> bool" where
  "visited detector versionId g la \<longleftrightarrow> list_all (stored versionId (fst la) (fst (snd la)) g) (article_references detector (snd la))"

lemma visited_extends: "extends g g' \<Longrightarrow> visited detector versionId g la \<Longrightarrow> visited detector versionId g' la"
  by (auto simp: visited_def list_all_iff intro: stored_extends)

text \<open>One article, in a run that records no error.\<close>

lemma store_errors: "store_references dryRun versionId lawId article refs (res, g) = (b, res', g') \<Longrightarrow> dd_errors res' = dd_errors res"
  by (induction refs arbitrary: res g) (auto simp: Let_def split: if_splits)

lemma visit_errors: "length (dd_errors (fst st)) \<le> length (dd_errors (fst (visit detector False versionId st la)))"
proof -
  obtain res g where st: "st = (res, g)" by force
  obtain b res' g' where s: "store_references False versionId (fst la) (fst (snd la)) (article_references detector (snd la)) (res, g) = (b, res', g')"
    by (metis prod_cases3)
  from store_errors [OF s] s show ?thesis by (cases b) (simp_all add: visit_def detect_article_def article_references_def st)
qed

definition same_run :: "DetectionResult \<Rightarrow> DetectionResult \<Rightarrow> bool" where
  "same_run res res' \<longleftrightarrow> dd_version res' = dd_version res \<and> dd_changedDetections res' = dd_changedDetections res \<and> dd_errors res' = dd_errors res"

lemma visit_clean:
  assumes "visit detector False versionId (res, g) la = (res', g')" "length (dd_errors res') = length (dd_errors res)"
  shows "extends g g' \<and> visited detector versionId g' la \<and>
    same_run res res' \<and> dd_totalDetected res' = dd_totalDetected res + length (article_references detector (snd la)) \<and>
    dd_newDetections res' + length (mg_detections g) = dd_newDetections res + length (mg_detections g')"
proof -
  obtain b res1 g1 where s: "store_references False versionId (fst la) (fst (snd la)) (article_references detector (snd la)) (res, g) = (b, res1, g1)"
    by (metis prod_cases3)
  show ?thesis
  proof (cases b)
    case True
    with s assms(1) have "res' = res1" "g' = g1" by (simp_all add: visit_def detect_article_def article_references_def)
    then show ?thesis using store_all s True by (auto simp: visited_def same_run_def)
  next
    case False
    with s assms(1) have "res' = res1\<lparr>dd_errors := dd_errors res1 @ [(fst la, fst (snd la))]\<rparr>"
      by (simp add: visit_def detect_article_def article_references_def)
    then show ?thesis using assms(2) store_errors [OF s] by simp
  qed
qed

lemma visit_visited:
  "visited detector versionId g la \<Longrightarrow>
   visit detector False versionId (res, g) la =
     (res\<lparr>dd_totalDetected := dd_totalDetected res + length (article_references detector (snd la))\<rparr>, g)"
  by (simp add: visit_def detect_article_def visited_def store_stored flip: article_references_def)

lemma visits_errors: "length (dd_errors (fst st)) \<le> length (dd_errors (fst (foldl (visit detector False versionId) st las)))"
proof (induction las arbitrary: st)
  case (Cons la las)
  show ?case using order_trans [OF visit_errors Cons.IH, of st detector versionId la] by simp
qed simp

definition found :: "(jsstr \<Rightarrow> ManagedReference list) \<Rightarrow> (jsstr \<times> jsstr \<times> jsstr option) list \<Rightarrow> ManagedReference list" where
  "found detector las = concat (map (\<lambda>la. article_references detector (snd la)) las)"

lemma visits_clean:
  assumes "foldl (visit detector False versionId) (res, g) las = (res', g')" "length (dd_errors res') = length (dd_errors res)"
  shows "extends g g' \<and> list_all (visited detector versionId g') las \<and>
    same_run res res' \<and> dd_totalDetected res' = dd_totalDetected res + length (found detector las) \<and>
    dd_newDetections res' + length (mg_detections g) = dd_newDetections res + length (mg_detections g')"
  using assms
proof (induction las arbitrary: res g)
  case (Cons la las)
  obtain res1 g1 where v: "visit detector False versionId (res, g) la = (res1, g1)" by force
  have le: "length (dd_errors res) \<le> length (dd_errors res1)" "length (dd_errors res1) \<le> length (dd_errors res')"
    using visit_errors [of "(res, g)" detector versionId la] visits_errors [of "(res1, g1)" detector versionId las] Cons.prems(1) v by simp_all
  note first = visit_clean [OF v]
  have "foldl (visit detector False versionId) (res1, g1) las = (res', g')" using Cons.prems(1) v by simp
  from Cons.IH [OF this] first le Cons.prems(2) show ?case
    using extends_trans [of g g1 g'] visited_extends [of g1 g' detector versionId la] by (auto simp: found_def same_run_def)
qed (simp add: found_def same_run_def)

lemma visits_visited:
  "list_all (visited detector versionId g) las \<Longrightarrow>
   foldl (visit detector False versionId) (res, g) las = (res\<lparr>dd_totalDetected := dd_totalDetected res + length (found detector las)\<rparr>, g)"
  by (induction las arbitrary: res) (simp_all add: visit_visited found_def add.assoc)

definition version_used :: "ReferenceManager \<Rightarrow> jsstr" where
  "version_used g = (if truthy (mg_activeVersion g) then the (mg_activeVersion g) else (str ''2.0.0''))"

definition no_results :: "jsstr \<Rightarrow> DetectionResult" where
  "no_results version = \<lparr>dd_version = version, dd_totalDetected = 0, dd_newDetections = 0, dd_changedDetections = 0, dd_errors = []\<rparr>"

lemma detect_returns:
  "detect dryRun laws g = (Some res, g') \<longleftrightarrow> (\<exists>f i. detectorRegistry (version_used g) = Some f \<and> version_id g (version_used g) = Some i \<and>
     detect_laws f dryRun i laws (no_results (version_used g), g) = (True, res, g'))"
  unfolding detect_def version_used_def [symmetric] no_results_def [symmetric] Let_def
  by (auto split: option.splits prod.splits)

lemma extends_version: "extends g g' \<Longrightarrow> version_used g' = version_used g \<and> version_id g' v = version_id g v"
  by (simp add: extends_def version_used_def version_id_def)

section \<open>Properties\<close>

text \<open>C17: starting with empty tables, any sequence of registrations, activations, detections and
  validations, failed ones included, leaves the tables consistent after every step: different ids and version names, at
  most one active version, one detection per version, law, article and text, detections and validations that refer to
  rows that exist, and a status exactly on the detections that have been validated.\<close>

theorem manager_run_ok: "tables_ok (foldl apply_manager new_manager (take k calls))"
proof (rule managing.run_inv_prefix)
  show "tables_ok new_manager" by (simp add: new_manager_def tables_ok_def versions_ok_def validated_ids_def)
  show "list_all (\<lambda>_. True) calls" by (simp add: list_all_iff)
qed

text \<open>C16: a detection that records no error finds what the detector of the version in use finds in the
  articles, stores each of these references, counts the rows it adds as new and removes none; the same detection again
  adds no row, finds the same number and reports nothing new.\<close>

theorem detection_idempotent:
  assumes "detect False laws g = (Some res, g')" "dd_errors res = []"
  shows "(\<exists>f i. detectorRegistry (dd_version res) = Some f \<and> version_id g (dd_version res) = Some i \<and>
      dd_totalDetected res = length (found f (all_articles laws)) \<and> list_all (visited f i g') (all_articles laws)) \<and>
    (\<exists>new. mg_detections g' = mg_detections g @ new \<and> dd_newDetections res = length new) \<and>
    detect False laws g' = (Some (res\<lparr>dd_newDetections := 0\<rparr>), g')"
proof -
  let ?v = "version_used g"
  obtain f i where fi: "detectorRegistry ?v = Some f" "version_id g ?v = Some i"
    and run: "detect_laws f False i laws (no_results ?v, g) = (True, res, g')"
    using assms(1) by (auto simp: detect_returns)
  from laws_visit [OF run] have "foldl (visit f False i) (no_results ?v, g) (all_articles laws) = (res, g')" by simp
  from visits_clean [OF this] assms(2) have ext: "extends g g'" and all: "list_all (visited f i g') (all_articles laws)"
    and res: "same_run (no_results ?v) res" and t: "dd_totalDetected res = length (found f (all_articles laws))"
    and new: "dd_newDetections res + length (mg_detections g) = length (mg_detections g')"
    by (simp_all add: no_results_def)
  have v: "dd_version res = ?v" using res by (simp add: same_run_def no_results_def)
  have "fst (detect_laws f False i laws (no_results ?v, g'))"
    using run laws_complete [of laws f False i "(no_results ?v, g)"] laws_complete [of laws f False i "(no_results ?v, g')"] by simp
  then obtain st where run': "detect_laws f False i laws (no_results ?v, g') = (True, st)" by (metis prod.collapse)
  from laws_visit [OF this] visits_visited [OF all] have "st = ((no_results ?v)\<lparr>dd_totalDetected := length (found f (all_articles laws))\<rparr>, g')"
    by (simp add: no_results_def)
  also have "(no_results ?v)\<lparr>dd_totalDetected := length (found f (all_articles laws))\<rparr> = res\<lparr>dd_newDetections := 0\<rparr>"
    using res t by (simp add: same_run_def no_results_def)
  finally have "detect False laws g' = (Some (res\<lparr>dd_newDetections := 0\<rparr>), g')"
    using run' fi extends_version [OF ext] by (simp add: detect_returns)
  moreover obtain rows where "mg_detections g' = mg_detections g @ rows" using ext by (auto simp: extends_def)
  ultimately show ?thesis using fi all v t new by auto
qed

definition sample_manager :: ReferenceManager where
  "sample_manager = foldl apply_manager new_manager [Register (str ''1.0.0'') (str ''basic'') None, Activate (str ''1.0.0'')]"

definition sample_laws :: "ManagedLaw option list" where
  "sample_laws = [Some \<lparr>ml_id = (str ''L1''), ml_articles = Some [((str ''1''), Some [c_dai, c_go, c_jou, c_oyo, h_bi, c_zen, c_jou]), ((str ''2''), None)]\<rparr>, None]"

theorem detection_idempotent_witness:
  "\<exists>res g'. detect False sample_laws sample_manager = (Some res, g') \<and> detect False sample_laws g' = (Some (res\<lparr>dd_newDetections := 0\<rparr>), g') \<and>
     dd_newDetections res = 2"
proof -
  have "(case detect False sample_laws sample_manager of (Some res, _) \<Rightarrow> dd_errors res = [] \<and> dd_newDetections res = 2 | _ \<Rightarrow> False)"
    by code_simp
  then obtain res g' where "detect False sample_laws sample_manager = (Some res, g')" "dd_errors res = []" "dd_newDetections res = 2"
    by (auto split: prod.splits option.splits)
  with detection_idempotent [OF this(1,2)] show ?thesis by blast
qed

text \<open>on consistent tables the metrics of a version count its validated detections, split into correct
  and false ones; precision is their ratio, between 0 and 1, and is 0 without a correct detection; the F1 score lies
  between 0 and 1 and is 0 exactly when the precision is.\<close>

theorem metrics_exact:
  assumes "tables_ok g" "getMetrics version g = Some m"
  shows "(\<exists>i. version_id g (mt_version m) = Some i \<and>
      mt_totalReferences m = length (filter (\<lambda>d. dn_versionId d = i) (mg_detections g)) \<and>
      mt_detectedReferences m + mt_falsePositives m = length (filter (\<lambda>d. dn_versionId d = i \<and> dn_id d \<in> validated_ids g) (mg_detections g))) \<and>
    mt_precision m * (of_nat (mt_detectedReferences m) + of_nat (mt_falsePositives m)) = of_nat (mt_detectedReferences m) \<and>
    0 \<le> mt_precision m \<and> mt_precision m \<le> 1 \<and> (mt_precision m = 0 \<longleftrightarrow> mt_detectedReferences m = 0) \<and>
    0 \<le> mt_f1Score m \<and> mt_f1Score m \<le> 1 \<and> (mt_f1Score m = 0 \<longleftrightarrow> mt_precision m = 0)"
proof -
  obtain v i where vi: "mt_version m = v" "version_id g v = Some i"
    and tot: "mt_totalReferences m = length (filter (\<lambda>d. dn_versionId d = i) (mg_detections g))"
    and c: "mt_detectedReferences m = length (filter (judged (str ''correct'')) (filter (\<lambda>d. dn_versionId d = i) (mg_detections g)))"
    and w: "mt_falsePositives m = length (filter (judged (str ''incorrect'')) (filter (\<lambda>d. dn_versionId d = i) (mg_detections g)))"
    and p: "mt_precision m = quotient (of_nat (mt_detectedReferences m)) (of_nat (mt_detectedReferences m) + of_nat (mt_falsePositives m))"
    and f: "mt_f1Score m = quotient (2 * (mt_precision m * (85 / 100))) (mt_precision m + 85 / 100)"
    using assms(2) by (auto simp: getMetrics_def Let_def split: option.splits)
  have "length (filter (judged (str ''correct'')) (filter (\<lambda>d. dn_versionId d = i) ds)) + length (filter (judged (str ''incorrect'')) (filter (\<lambda>d. dn_versionId d = i) ds)) =
      length (filter (\<lambda>d. dn_versionId d = i \<and> dn_id d \<in> validated_ids g) ds)" if "list_all (row_ok V n (validated_ids g)) ds" for V n ds
    using that by (induction ds) (auto simp: judged_def row_ok_def)
  moreover have "list_all (row_ok (av_id ` set (mg_versions g)) (mg_nextId g) (validated_ids g)) (mg_detections g)"
    using assms(1) by (simp add: tables_ok_def)
  ultimately have "mt_detectedReferences m + mt_falsePositives m = length (filter (\<lambda>d. dn_versionId d = i \<and> dn_id d \<in> validated_ids g) (mg_detections g))"
    unfolding c w by blast
  moreover have range: "0 \<le> mt_precision m" "mt_precision m \<le> 1" unfolding p quotient_def by (simp_all add: divide_le_eq_1)
  moreover have zero: "mt_precision m = 0 \<longleftrightarrow> mt_detectedReferences m = 0"
    and "mt_precision m * (of_nat (mt_detectedReferences m) + of_nat (mt_falsePositives m)) = of_nat (mt_detectedReferences m)"
    unfolding p quotient_def by (auto simp: add_nonneg_eq_0_iff)
  moreover have "0 \<le> mt_f1Score m" "mt_f1Score m = 0 \<longleftrightarrow> mt_precision m = 0" "mt_f1Score m \<le> 1"
    unfolding f quotient_def using range by (auto simp: field_simps add_nonneg_eq_0_iff)
  ultimately show ?thesis using vi tot by auto
qed

definition sample_validated :: ReferenceManager where
  "sample_validated = foldl apply_manager sample_manager [Detect False sample_laws, Validate 2 True None, Validate 3 False None]"

theorem metrics_exact_witness:
  "\<exists>m. getMetrics None sample_validated = Some m \<and> mt_totalReferences m = 2 \<and> mt_precision m * 2 = 1"
proof -
  have ok: "tables_ok sample_validated" unfolding sample_validated_def sample_manager_def foldl_append [symmetric]
    by (rule managing.run_inv) (simp_all add: new_manager_def tables_ok_def versions_ok_def validated_ids_def)
  have "(case getMetrics None sample_validated of None \<Rightarrow> False
      | Some m \<Rightarrow> mt_totalReferences m = 2 \<and> mt_detectedReferences m = 1 \<and> mt_falsePositives m = 1)"
    by code_simp
  then obtain m where m: "getMetrics None sample_validated = Some m"
    "mt_totalReferences m = 2" "mt_detectedReferences m = 1" "mt_falsePositives m = 1"
    by (auto split: option.splits)
  from metrics_exact [OF ok m(1)] m show ?thesis by auto
qed

section \<open>Findings\<close>

text \<open>Each command is a process of its own, which starts without an active version, so a detection uses version 2.0.0. Its
  references have no field \<open>sourceText\<close>: the column is not null, so that no detection is ever stored.\<close>

lemma store_without_text:
  "list_all (\<lambda>r. mr_sourceText r = None) refs \<Longrightarrow> snd (snd (store_references dryRun versionId lawId article refs (res, g))) = g"
  by (induction refs arbitrary: res) (auto simp: Let_def insertable_def existing_key)

lemma article_without_text:
  "snd (detect_article (\<lambda>text. map managed_comprehensive (detectAllReferences text)) dryRun versionId lawId st a) = snd st"
proof -
  let ?refs = "map managed_comprehensive (detectAllReferences (case snd a of None \<Rightarrow> [] | Some s \<Rightarrow> s))"
  obtain res g where st: "st = (res, g)" by force
  obtain b res' g' where s: "store_references dryRun versionId lawId (fst a) ?refs (res, g) = (b, res', g')"
    by (metis prod_cases3)
  have "list_all (\<lambda>r. mr_sourceText r = None) ?refs" by (simp add: list_all_iff managed_comprehensive_def)
  from store_without_text [OF this, of dryRun versionId lawId "fst a" res g] s show ?thesis
    by (cases b) (simp_all add: detect_article_def st)
qed

lemma laws_without_text:
  "snd (snd (detect_laws (\<lambda>text. map managed_comprehensive (detectAllReferences text)) dryRun versionId laws st)) = snd st"
proof (induction "\<lambda>text. map managed_comprehensive (detectAllReferences text)" dryRun versionId laws st rule: detect_laws.induct)
  case (3 dryRun versionId law laws st)
  have "snd (foldl (detect_article (\<lambda>text. map managed_comprehensive (detectAllReferences text)) dryRun versionId lawId) st as) = snd st" for lawId "as"
    by (induction "as" rule: rev_induct) (simp_all add: article_without_text)
  with 3 show ?case by (auto split: option.split)
qed simp_all

lemma new_process_stores_nothing:
  assumes "mg_activeVersion g = None"
  shows "snd (detect dryRun laws g) = g"
  using assms laws_without_text
  by (auto simp: detect_def Let_def detectorRegistry_def truthy_def split: option.splits prod.splits) (metis snd_conv)+

text \<open>Without a law id the laws come from \<open>findMany\<close>, which returns no articles: the first law ends the run with an error.\<close>

lemma all_laws_throw: "ml_articles law = None \<Longrightarrow> detect dryRun (Some law # laws) g = (None, g)"
  by (auto simp: detect_def Let_def split: option.split)

text \<open>Activating a version that is not registered succeeds and leaves no version active.\<close>

lemma activate_unregistered:
  "version_id g version = None \<Longrightarrow> tables_ok g \<Longrightarrow> filter av_active (mg_versions (setActiveAlgorithm version g)) = []"
  using filter_active [of "mg_versions g" version] by (simp add: setActiveAlgorithm_def version_id_None tables_ok_def versions_ok_def filter_map)

text \<open>The recall is a constant, so every comparison of versions shows no change of it.\<close>

lemma recall_never_differs: "compareVersions v1 v2 g = Some (m1, m2, dp, dr, df, dn) \<Longrightarrow> dr = 0"
  by (auto simp: compareVersions_def getMetrics_def Let_def split: option.splits)

text \<open>The synchronisation deletes the edges between articles and writes, for each detection, an edge from its article to
  itself; for a version that is not registered it only deletes.\<close>

lemma merge_self_loops:
  "list_all (\<lambda>e. P e) edges \<Longrightarrow> (\<And>e. ge_from e = ge_to e \<Longrightarrow> P e) \<Longrightarrow> list_all P (merge_reference nodes edges ref)"
proof -
  assume edges: "list_all P edges" and P: "\<And>e. ge_from e = ge_to e \<Longrightarrow> P e"
  have "list_all P (foldl (\<lambda>es i. let e = \<lparr>ge_label = l, ge_from = i, ge_to = i, ge_type = t, ge_text = x, ge_confidence = c\<rparr>
      in if e \<in> set es then es else es @ [e]) edges js)" for l t x c js
    by (induction js rule: rev_induct) (use edges in \<open>simp_all add: Let_def P\<close>)
  then show ?thesis unfolding merge_reference_def .
qed

lemma sync_self_loops:
  "list_all (\<lambda>e. ge_from e = ge_to e \<or> \<not> article_edge e) (syncToProduction version g nodes edges)"
proof -
  let ?P = "\<lambda>e. ge_from e = ge_to e \<or> \<not> article_edge e"
  have "list_all ?P (foldl (merge_reference nodes) es rows)" if "list_all ?P es" for es rows
    using that by (induction rows rule: rev_induct) (auto intro: merge_self_loops)
  moreover have "list_all ?P (filter (\<lambda>e. \<not> article_edge e) edges)" by (simp add: list_all_iff)
  ultimately show ?thesis unfolding syncToProduction_def by blast
qed

lemma sync_unknown_version:
  "version_id g version = None \<Longrightarrow>
   syncToProduction version g nodes edges = filter (\<lambda>e. \<not> article_edge e) edges"
  by (simp add: syncToProduction_def sync_rows_def)


end
