(* ===== verification/GraphSync.thy ===== *)
theory GraphSync
  imports JSRegex
begin

text \<open>
  \<^verbatim>\<open>scripts/manager.ts\<close>, the command \<open>sync\<close>: the removal of duplicate laws from the batch files, the deletion of the
  references between laws, and the synchronisation, which creates the law nodes and writes references to them. The draws
  of \<open>Math.random\<close> are an infinite sequence of numbers in \<open>[0, 1)\<close>, the contents of the files and the failures of the
  writing statements are arguments. The references between laws are the edges with the label \<open>REFERENCES\<close>; the laws of
  the graph have different ids. A call that draws forever is \<open>None\<close>.
\<close>

section \<open>Batch files\<close>

text \<open>What is read of a law of a batch file; further fields are those of an extension of the record.\<close>

record BatchLaw =
  bl_lawId :: "jsstr option"
  bl_references :: "int option"

definition is_batch_file :: "jsstr \<Rightarrow> bool" where
  "is_batch_file f \<longleftrightarrow> starts_with f (str ''batch_'') \<and> ends_with f (str ''_results.json'')"

text \<open>\<open>Array.from(new Map(laws.map(l => [l.lawId, l])).values())\<close>\<close>

definition uniqueLaws :: "'a BatchLaw_scheme list \<Rightarrow> 'a BatchLaw_scheme list" where
  "uniqueLaws laws = map snd (foldl (\<lambda>m l. AList.update (bl_lawId l) l m) [] laws)"

text \<open>The directory is a list of file names with the array \<open>laws\<close> of the file, \<open>None\<close> if it has none.\<close>

definition fix_file :: "jsstr \<times> 'a BatchLaw_scheme list option \<Rightarrow> nat \<times> (jsstr \<times> 'a BatchLaw_scheme list option)" where
  "fix_file f =
     (case f of
        (name, Some laws) \<Rightarrow>
          (let unique = uniqueLaws laws
           in if is_batch_file name \<and> length unique < length laws then (length laws - length unique, (name, Some unique)) else (0, f))
      | _ \<Rightarrow> (0, f))"

definition fixDuplicateEntries :: "(jsstr \<times> 'a BatchLaw_scheme list option) list \<Rightarrow> nat \<times> (jsstr \<times> 'a BatchLaw_scheme list option) list" where
  "fixDuplicateEntries files = (sum_list (map (\<lambda>f. fst (fix_file f)) files), map (\<lambda>f. snd (fix_file f)) files)"

section \<open>Deletion\<close>

text \<open>The number deleted and the edges left; which edges a statement with \<open>LIMIT 10000\<close> takes is up to the database, the
  first ones here.\<close>

function cleanNeo4jData :: "nat \<Rightarrow> 'e list \<Rightarrow> nat \<times> 'e list" where
  "cleanNeo4jData deleted edges =
     (let count = min 10000 (length edges); rest = drop 10000 edges
      in if count < 10000 then (deleted + count, rest) else cleanNeo4jData (deleted + count) rest)"
  by pat_completeness auto

termination cleanNeo4jData
  by (relation "measure (\<lambda>(_, edges). length edges)") auto

section \<open>Law map\<close>

definition law_line :: "(jsstr, jsstr) jsmap \<Rightarrow> jsstr \<Rightarrow> (jsstr, jsstr) jsmap" where
  "law_line lawMap line =
     (let columns = split_char 0x2C line
      in if 12 \<le> length columns
         then let lawId = trim (columns ! 11); lawTitle = trim (columns ! 2)
              in if lawId \<noteq> [] \<and> lawTitle \<noteq> [] then AList.update lawId lawTitle lawMap else lawMap
         else lawMap)"

definition read_law_map :: "jsstr \<Rightarrow> (jsstr, jsstr) jsmap" where
  "read_law_map csvContent = foldl law_line [] (tl (split_char 0xA csvContent))"

text \<open>The batches of the loop \<open>for (let i = 0; i < xs.length; i += BATCH_SIZE)\<close>.\<close>

function batches_of :: "nat \<Rightarrow> 'a list \<Rightarrow> 'a list list" where
  "batches_of n xs = (if xs = [] \<or> n = 0 then [] else take n xs # batches_of n (drop n xs))"
  by pat_completeness auto

termination batches_of
  by (relation "measure (\<lambda>(_, xs). length xs)") auto

text \<open>\<open>MERGE ... ON CREATE SET\<close>: a law that exists keeps its title.\<close>

definition merge_law :: "(jsstr, jsstr) jsmap \<Rightarrow> jsstr \<times> jsstr \<Rightarrow> (jsstr, jsstr) jsmap" where
  "merge_law nodes law = (if map_has nodes (fst law) then nodes else nodes @ [law])"

definition create_law_nodes :: "(jsstr, jsstr) jsmap \<Rightarrow> (jsstr, jsstr) jsmap \<Rightarrow> (jsstr, jsstr) jsmap" where
  "create_law_nodes lawMap nodes = foldl (foldl merge_law) nodes (batches_of 5000 lawMap)"

section \<open>Generated references\<close>

record RealisticReference =
  ref_fromLaw :: jsstr
  ref_toLaw :: "jsstr option"
  ref_type :: jsstr
  ref_text :: jsstr
  ref_articleNum :: nat

definition distribution :: "(jsstr \<times> rat) list" where
  "distribution = [((str ''internal''), 40 / 100), ((str ''external''), 35 / 100), ((str ''structural''), 10 / 100), ((str ''relative''), 5 / 100),
     ((str ''application''), 5 / 100), ((str ''range''), 3 / 100), ((str ''multiple''), 2 / 100)]"

fun select_type :: "rat \<Rightarrow> rat \<Rightarrow> (jsstr \<times> rat) list \<Rightarrow> jsstr" where
  "select_type rand cumulative [] = (str ''external'')"
| "select_type rand cumulative ((type, prob) # rest) =
     (if rand < cumulative + prob then type else select_type rand (cumulative + prob) rest)"

text \<open>\<open>lawIds[Math.floor(Math.random() * lawIds.length)]\<close>; an empty list gives \<open>undefined\<close>.\<close>

definition pick_law :: "jsstr list \<Rightarrow> rat \<Rightarrow> jsstr option" where
  "pick_law lawIds rand = (let i = nat \<lfloor>rand * of_nat (length lawIds)\<rfloor> in if i < length lawIds then Some (lawIds ! i) else None)"

text \<open>The \<open>do\<close>-\<open>while\<close> loop, with the number of draws made so far.\<close>

partial_function (option) pick_other :: "(nat \<Rightarrow> rat) \<Rightarrow> jsstr list \<Rightarrow> jsstr \<Rightarrow> nat \<Rightarrow> (jsstr option \<times> nat) option" where
  "pick_other random lawIds lawId k =
     (if pick_law lawIds (random k) = Some lawId then pick_other random lawIds lawId (Suc k)
      else Some (pick_law lawIds (random k), Suc k))"

definition reference_text :: "(jsstr, jsstr) jsmap \<Rightarrow> jsstr \<Rightarrow> jsstr option \<Rightarrow> nat \<Rightarrow> jsstr" where
  "reference_text lawMap selectedType targetLaw articleNum =
     (if selectedType = (str ''internal'') then [] else (case Option.bind targetLaw (map_of lawMap) of None \<Rightarrow> [] | Some t \<Rightarrow> take 20 t)) @
     [c_dai] @ nat_str articleNum @ [c_jou]"

definition generate_one :: "(nat \<Rightarrow> rat) \<Rightarrow> jsstr \<Rightarrow> (jsstr, jsstr) jsmap \<Rightarrow> nat \<Rightarrow> (RealisticReference \<times> nat) option" where
  "generate_one random lawId lawMap k =
     (let selectedType = select_type (random k) 0 distribution
      in case (if selectedType = (str ''external'') then pick_other random (map_keys lawMap) lawId (Suc k) else Some (Some lawId, Suc k)) of
           None \<Rightarrow> None
         | Some (targetLaw, j) \<Rightarrow>
             (let articleNum = nat \<lfloor>random j * 100\<rfloor> + 1
              in Some (\<lparr>ref_fromLaw = lawId, ref_toLaw = targetLaw, ref_type = selectedType,
                   ref_text = reference_text lawMap selectedType targetLaw articleNum, ref_articleNum = articleNum\<rparr>, Suc j)))"

fun generateRealisticReferences :: "(nat \<Rightarrow> rat) \<Rightarrow> jsstr \<Rightarrow> nat \<Rightarrow> (jsstr, jsstr) jsmap \<Rightarrow> nat \<Rightarrow> (RealisticReference list \<times> nat) option" where
  "generateRealisticReferences random lawId 0 lawMap k = Some ([], k)"
| "generateRealisticReferences random lawId (Suc n) lawMap k =
     (case generate_one random lawId lawMap k of
        None \<Rightarrow> None
      | Some (ref, j) \<Rightarrow>
          map_option (\<lambda>(refs, j'). (ref # refs, j')) (generateRealisticReferences random lawId n lawMap j))"

section \<open>Synchronisation\<close>

definition batch_number :: "jsstr \<Rightarrow> int" where
  "batch_number f =
     (case parse_int (case rx_match (rseq [RLit (str ''batch_''), RGrp 1 (rplus (RCls False rng_digit))]) f of
         None \<Rightarrow> (str ''0'') | Some m \<Rightarrow> (if truthy (cap m 1) then grp m 1 else (str ''0''))) of
        None \<Rightarrow> 0 | Some n \<Rightarrow> n)"

definition batch_files :: "(jsstr \<times> 'a) list \<Rightarrow> (jsstr \<times> 'a) list" where
  "batch_files files = sort_key (\<lambda>f. batch_number (fst f)) (filter (\<lambda>f. is_batch_file (fst f)) files)"

record SyncState =
  sy_processed :: "jsstr list"
  sy_draws :: nat
  sy_total :: nat
  sy_edges :: "RealisticReference list"

fun batch_references :: "(nat \<Rightarrow> rat) \<Rightarrow> (jsstr, jsstr) jsmap \<Rightarrow> 'a BatchLaw_scheme list \<Rightarrow> jsstr list \<times> nat \<Rightarrow>
    (RealisticReference list \<times> jsstr list \<times> nat) option" where
  "batch_references random lawMap [] (processed, k) = Some ([], processed, k)"
| "batch_references random lawMap (law # laws) (processed, k) =
     (case bl_lawId law of
        None \<Rightarrow> batch_references random lawMap laws (processed, k)
      | Some lawId \<Rightarrow>
          (if lawId = [] \<or> lawId \<in> set processed then batch_references random lawMap laws (processed, k)
           else case (case bl_references law of
               None \<Rightarrow> Some ([], k)
             | Some n \<Rightarrow> (if 0 < n then generateRealisticReferences random lawId (nat n) lawMap k else Some ([], k))) of
               None \<Rightarrow> None
             | Some (refs, j) \<Rightarrow>
                 map_option (\<lambda>(rest, p). (refs @ rest, p)) (batch_references random lawMap laws (lawId # processed, j))))"

text \<open>A statement creates an edge for each reference with both laws in the graph; a failed one is ignored.\<close>

definition write_batch :: "(RealisticReference list \<Rightarrow> bool) \<Rightarrow> (jsstr, jsstr) jsmap \<Rightarrow> nat \<times> RealisticReference list \<Rightarrow>
    RealisticReference list \<Rightarrow> nat \<times> RealisticReference list" where
  "write_batch fails nodes st batch =
     (if fails batch then st
      else (fst st + length batch,
        snd st @ filter (\<lambda>r. map_has nodes (ref_fromLaw r) \<and> (case ref_toLaw r of None \<Rightarrow> False | Some t \<Rightarrow> map_has nodes t)) batch))"

definition sync_file :: "(nat \<Rightarrow> rat) \<Rightarrow> (RealisticReference list \<Rightarrow> bool) \<Rightarrow> (jsstr, jsstr) jsmap \<Rightarrow> (jsstr, jsstr) jsmap \<Rightarrow>
    SyncState \<Rightarrow> 'a BatchLaw_scheme list option \<Rightarrow> SyncState option" where
  "sync_file random fails lawMap nodes st batchLaws =
     (case batchLaws of
        None \<Rightarrow> Some st
      | Some laws \<Rightarrow>
          (case batch_references random lawMap laws (sy_processed st, sy_draws st) of
             None \<Rightarrow> None
           | Some (refs, processed, k) \<Rightarrow>
               (let (t, es) = foldl (write_batch fails nodes) (sy_total st, sy_edges st) (batches_of 5000 refs)
                in Some \<lparr>sy_processed = processed, sy_draws = k, sy_total = t, sy_edges = es\<rparr>)))"

text \<open>The law nodes, the edges and the number of references reported as written.\<close>

definition syncToNeo4jWithDeduplication :: "(nat \<Rightarrow> rat) \<Rightarrow> (RealisticReference list \<Rightarrow> bool) \<Rightarrow> jsstr \<Rightarrow>
    (jsstr \<times> 'a BatchLaw_scheme list option) list \<Rightarrow> (jsstr, jsstr) jsmap \<times> RealisticReference list \<Rightarrow>
    ((jsstr, jsstr) jsmap \<times> RealisticReference list \<times> nat) option" where
  "syncToNeo4jWithDeduplication random fails csvContent files graph =
     (let lawMap = read_law_map csvContent; nodes = create_law_nodes lawMap (fst graph)
      in map_option (\<lambda>st. (nodes, sy_edges st, sy_total st))
           (foldl (\<lambda>st f. Option.bind st (\<lambda>st. sync_file random fails lawMap nodes st (snd f)))
              (Some \<lparr>sy_processed = [], sy_draws = 0, sy_total = 0, sy_edges = snd graph\<rparr>) (batch_files files)))"

text \<open>The command: the options in the order in which they are carried out.\<close>

definition sync_command :: "bool \<Rightarrow> bool \<Rightarrow> (nat \<Rightarrow> rat) \<Rightarrow> (RealisticReference list \<Rightarrow> bool) \<Rightarrow> jsstr \<Rightarrow>
    (jsstr \<times> 'a BatchLaw_scheme list option) list \<Rightarrow> (jsstr, jsstr) jsmap \<times> RealisticReference list \<Rightarrow>
    ((jsstr, jsstr) jsmap \<times> RealisticReference list \<times> nat) option" where
  "sync_command fixDuplicates clean random fails csvContent files graph =
     syncToNeo4jWithDeduplication random fails csvContent (if fixDuplicates then snd (fixDuplicateEntries files) else files)
       (if clean then (fst graph, snd (cleanNeo4jData 0 (snd graph))) else graph)"

section \<open>Batches, deletion and law nodes\<close>

declare cleanNeo4jData.simps [simp del] batches_of.simps [simp del]

lemma clean_all: "cleanNeo4jData deleted edges = (deleted + length edges, [])"
proof (induction deleted edges rule: cleanNeo4jData.induct)
  case (1 deleted edges)
  then show ?case by (subst cleanNeo4jData.simps) (auto simp: Let_def min_def)
qed

lemma concat_batches: "0 < n \<Longrightarrow> concat (batches_of n xs) = xs"
proof (induction n xs rule: batches_of.induct)
  case (1 n xs)
  then show ?case by (subst batches_of.simps) auto
qed

lemma merge_law_get: "map_of (foldl merge_law nodes laws) k = (case map_of nodes k of Some t \<Rightarrow> Some t | None \<Rightarrow> map_of laws k)"
proof (induction laws arbitrary: nodes)
  case (Cons law laws)
  then show ?case by (cases law) (auto simp: merge_law_def map_has_def map_add_def split: option.splits)
qed (simp split: option.split)

lemma foldl_foldl: "foldl (foldl f) a xss = foldl f a (concat xss)"
  by (induction xss arbitrary: a) simp_all

lemma create_law_nodes_get:
  "map_of (create_law_nodes lawMap nodes) k = (case map_of nodes k of Some t \<Rightarrow> Some t | None \<Rightarrow> map_of lawMap k)"
  by (simp add: create_law_nodes_def foldl_foldl concat_batches merge_law_get)

section \<open>Duplicates\<close>

lemma unique_map:
  fixes laws :: "'a BatchLaw_scheme list"
  defines "m \<equiv> foldl (\<lambda>m l. AList.update (bl_lawId l) l m) [] laws"
  shows "map_wf m \<and> map_of m k = find (\<lambda>l. bl_lawId l = k) (rev laws)"
  unfolding m_def
proof (induction laws rule: rev_induct)
  case (snoc l laws)
  then show ?case by (auto simp: jsm.wf_put update_conv')
qed (simp add: map_wf_def)

lemma unique_map_entry:
  "(k, l) \<in> set (foldl (\<lambda>m l. AList.update (bl_lawId l) l m) [] laws) \<longleftrightarrow> find (\<lambda>l. bl_lawId l = k) (rev laws) = Some l"
  (is "_ \<in> set ?m \<longleftrightarrow> _")
proof -
  have "distinct (map fst ?m)" using unique_map [of laws] by (simp add: map_wf_def)
  from map_of_eq_Some_iff [OF this, of k l] show ?thesis using unique_map [of laws k] by simp
qed

lemma unique_ids: "map bl_lawId (uniqueLaws laws) = map fst (foldl (\<lambda>m l. AList.update (bl_lawId l) l m) [] laws)"
  by (auto simp: uniqueLaws_def unique_map_entry find_Some_iff)

lemma unique_laws:
  "distinct (map bl_lawId (uniqueLaws laws))" "l \<in> set (uniqueLaws laws) \<longleftrightarrow> find (\<lambda>l'. bl_lawId l' = bl_lawId l) (rev laws) = Some l"
proof -
  let ?m = "foldl (\<lambda>m l. AList.update (bl_lawId l) l m) [] laws"
  show "distinct (map bl_lawId (uniqueLaws laws))" using unique_map [of laws] by (simp add: unique_ids map_wf_def)
  have "l \<in> set (uniqueLaws laws) \<longleftrightarrow> (\<exists>k. (k, l) \<in> set ?m)" by (force simp: uniqueLaws_def)
  then show "l \<in> set (uniqueLaws laws) \<longleftrightarrow> find (\<lambda>l'. bl_lawId l' = bl_lawId l) (rev laws) = Some l"
    unfolding unique_map_entry by (auto simp: find_Some_iff)
qed

lemma unique_distinct: "distinct (map bl_lawId laws) \<Longrightarrow> uniqueLaws laws = laws"
proof -
  have "foldl (\<lambda>m l. AList.update (bl_lawId l) l m) m ls = m @ map (\<lambda>l. (bl_lawId l, l)) ls"
    if "distinct (map fst m @ map bl_lawId ls)" for m and ls :: "'b BatchLaw_scheme list"
    using that
  proof (induction ls arbitrary: m)
    case (Cons l ls)
    then have "AList.update (bl_lawId l) l m = m @ [(bl_lawId l, l)]" by (intro alist_update_new) auto
    with Cons show ?case by simp
  qed simp
  from this [of "[]" laws] show "uniqueLaws laws = laws" if "distinct (map bl_lawId laws)"
    using that by (simp add: uniqueLaws_def comp_def)
qed

lemma unique_ids_set: "set (map bl_lawId (uniqueLaws laws)) = set (map bl_lawId laws)"
  unfolding unique_ids
proof (induction laws rule: rev_induct)
  case (snoc l laws)
  have "fst ` set (AList.update k v m) = insert k (fst ` set m)" for k :: "jsstr option" and v :: "'a BatchLaw_scheme" and m
    by (induction m) auto
  with snoc show ?case by simp
qed simp

lemma unique_shorter: "length (uniqueLaws laws) \<le> length laws"
  using card_length [of "map bl_lawId laws"] distinct_card [OF unique_laws(1), of laws] unfolding unique_ids_set by simp

lemma unique_same: "\<not> length (uniqueLaws laws) < length laws \<Longrightarrow> uniqueLaws laws = laws"
  using card_distinct [of "map bl_lawId laws"] distinct_card [OF unique_laws(1), of laws] unique_shorter [of laws]
  unfolding unique_ids_set by (intro unique_distinct) simp

lemma fixed_file:
  "fix_file f = (case snd f of
       None \<Rightarrow> (0, f)
     | Some laws \<Rightarrow> (if is_batch_file (fst f) then (length laws - length (uniqueLaws laws), (fst f, Some (uniqueLaws laws))) else (0, f)))"
  by (cases f) (auto simp: fix_file_def Let_def unique_same split: option.split)

section \<open>Generated references\<close>

definition unit_draws :: "(nat \<Rightarrow> rat) \<Rightarrow> bool" where
  "unit_draws random \<longleftrightarrow> (\<forall>k. 0 \<le> random k \<and> random k < 1)"

lemma pick_other_result:
  assumes "pick_other random lawIds lawId k = Some y"
  shows "fst y \<noteq> Some lawId \<and> (\<exists>j \<ge> k. fst y = pick_law lawIds (random j) \<and> snd y = Suc j)"
  using assms
proof (induction random lawIds lawId k y rule: pick_other.raw_induct [rotated, consumes 1])
  case (1 pick random lawIds lawId k y)
  show ?case
  proof (cases "pick_law lawIds (random k) = Some lawId")
    case True
    then show ?thesis using 1(1) [of random lawIds lawId "Suc k" y] 1(2) by (auto intro: Suc_leD)
  qed (use 1(2) in auto)
qed

lemma pick_other_returns:
  assumes "k \<le> j" "pick_law lawIds (random j) \<noteq> Some lawId"
  shows "\<exists>y. pick_other random lawIds lawId k = Some y"
  using assms
proof (induction "j - k" arbitrary: k)
  case 0
  then show ?case by (subst pick_other.simps) simp
next
  case (Suc n)
  then show ?case by (subst pick_other.simps) (cases "k = j"; auto)
qed

lemma pick_law_mem: "pick_law lawIds r = Some t \<Longrightarrow> t \<in> set lawIds"
  by (auto simp: pick_law_def Let_def split: if_splits)

lemma pick_law_Some:
  assumes "lawIds \<noteq> []" "0 \<le> r" "r < 1"
  shows "\<exists>t. pick_law lawIds r = Some t"
proof -
  have "r * of_nat (length lawIds) < of_nat (length lawIds)" using assms by (simp add: mult_less_cancel_right)
  then have "nat \<lfloor>r * of_nat (length lawIds)\<rfloor> < length lawIds" using assms by (simp add: nat_less_iff floor_less_iff)
  then show ?thesis by (simp add: pick_law_def)
qed

text \<open>What is promised of a reference generated for a law.\<close>

definition generated :: "(jsstr, jsstr) jsmap \<Rightarrow> jsstr \<Rightarrow> RealisticReference \<Rightarrow> bool" where
  "generated lawMap lawId r \<longleftrightarrow> ref_fromLaw r = lawId \<and> ref_type r \<in> fst ` set distribution \<and>
     (if ref_type r = (str ''external'') then ref_toLaw r \<noteq> Some lawId else ref_toLaw r = Some lawId) \<and>
     (case ref_toLaw r of None \<Rightarrow> lawMap = [] | Some t \<Rightarrow> t = lawId \<or> map_has lawMap t) \<and>
     1 \<le> ref_articleNum r \<and> ref_articleNum r \<le> 100"

lemma select_type_mem: "select_type r c ps \<in> insert (str ''external'') (fst ` set ps)"
  by (induction r c ps rule: select_type.induct) (simp_all only: select_type.simps list.set insert_iff image_insert fst_conv split: if_split, blast+)

lemma selected_mem: "select_type r 0 distribution \<in> fst ` set distribution"
proof -
  have "(str ''external'') \<in> fst ` set distribution" by (simp add: distribution_def)
  with select_type_mem [of r 0 distribution] show ?thesis by (metis insert_iff)
qed

lemma article_range:
  fixes r :: rat
  assumes "0 \<le> r" "r < 1"
  shows "1 \<le> nat \<lfloor>r * 100\<rfloor> + 1 \<and> nat \<lfloor>r * 100\<rfloor> + 1 \<le> 100"
proof -
  have "\<lfloor>r * 100\<rfloor> < 100" using assms(2) by (simp add: floor_less_iff)
  then show ?thesis by linarith
qed

lemma generate_one_sound:
  assumes "unit_draws random" "generate_one random lawId lawMap k = Some (r, j)"
  shows "generated lawMap lawId r"
proof -
  let ?ty = "select_type (random k) 0 distribution"
  obtain t i where p: "(if ?ty = (str ''external'') then pick_other random (map_keys lawMap) lawId (Suc k) else Some (Some lawId, Suc k)) = Some (t, i)"
    and r: "ref_fromLaw r = lawId" "ref_toLaw r = t" "ref_type r = ?ty" "ref_articleNum r = nat \<lfloor>random i * 100\<rfloor> + 1"
    using assms(2) by (auto simp: generate_one_def Let_def split: option.splits)
  have t: "if ?ty = (str ''external'') then t \<noteq> Some lawId \<and> (\<exists>i. t = pick_law (map_keys lawMap) (random i)) else t = Some lawId"
    using p pick_other_result [of random "map_keys lawMap" lawId "Suc k" "(t, i)"] by (auto split: if_splits)
  have "case t of None \<Rightarrow> lawMap = [] | Some t \<Rightarrow> t = lawId \<or> map_has lawMap t"
  proof (cases t)
    case None
    with t obtain i where "pick_law (map_keys lawMap) (random i) = None" by (metis option.simps(3))
    with pick_law_Some [of "map_keys lawMap" "random i"] assms(1) have "map_keys lawMap = []" by (auto simp: unit_draws_def)
    with None show ?thesis by (simp add: map_keys_def)
  next
    case (Some x)
    then show ?thesis using t pick_law_mem [of "map_keys lawMap" _ x] by (auto simp: map_has_iff split: if_splits)
  qed
  moreover have "1 \<le> ref_articleNum r \<and> ref_articleNum r \<le> 100"
    unfolding r using article_range assms(1) by (simp add: unit_draws_def)
  ultimately show ?thesis using t selected_mem [of "random k"] unfolding generated_def r by (metis (no_types, lifting))
qed

text \<open>Draws that, for every law, keep leading to another one.\<close>

definition fair_draws :: "(nat \<Rightarrow> rat) \<Rightarrow> (jsstr, jsstr) jsmap \<Rightarrow> bool" where
  "fair_draws random lawMap \<longleftrightarrow> (\<forall>lawId k. \<exists>j \<ge> k. pick_law (map_keys lawMap) (random j) \<noteq> Some lawId)"

lemma generate_one_returns: "fair_draws random lawMap \<Longrightarrow> \<exists>y. generate_one random lawId lawMap k = Some y"
proof -
  assume "fair_draws random lawMap"
  then obtain j where "Suc k \<le> j" "pick_law (map_keys lawMap) (random j) \<noteq> Some lawId" by (auto simp: fair_draws_def)
  from pick_other_returns [of "Suc k" j "map_keys lawMap" random lawId] this show ?thesis by (auto simp: generate_one_def Let_def split: option.split)
qed

lemma generate_sound:
  "unit_draws random \<Longrightarrow> generateRealisticReferences random lawId n lawMap k = Some (refs, j) \<Longrightarrow>
   length refs = n \<and> list_all (generated lawMap lawId) refs"
  by (induction random lawId n lawMap k arbitrary: refs rule: generateRealisticReferences.induct)
    (auto split: option.splits intro: generate_one_sound)

lemma generate_returns: "fair_draws random lawMap \<Longrightarrow> \<exists>y. generateRealisticReferences random lawId n lawMap k = Some y"
proof (induction n arbitrary: k)
  case (Suc n)
  obtain r j where "generate_one random lawId lawMap k = Some (r, j)" using generate_one_returns [OF Suc.prems] by force
  then show ?case using Suc.IH [OF Suc.prems, of j] by auto
qed simp

section \<open>Synchronisation\<close>

text \<open>The laws that count, of all files in order: those with an id, of each id the first.\<close>

definition counted_laws :: "jsstr option list \<Rightarrow> 'a BatchLaw_scheme list \<Rightarrow> 'a BatchLaw_scheme list" where
  "counted_laws seen laws = first_by bl_lawId seen (filter (\<lambda>l. truthy (bl_lawId l)) laws)"

definition law_count :: "'a BatchLaw_scheme \<Rightarrow> nat" where
  "law_count l = (case bl_references l of None \<Rightarrow> 0 | Some n \<Rightarrow> nat n)"

definition any_generated :: "(jsstr, jsstr) jsmap \<Rightarrow> RealisticReference \<Rightarrow> bool" where
  "any_generated lawMap r \<longleftrightarrow> generated lawMap (ref_fromLaw r) r"

lemma generated_from: "generated lawMap lawId r \<Longrightarrow> ref_fromLaw r = lawId"
  by (simp add: generated_def)

lemma generated_any: "list_all (generated lawMap lawId) refs \<Longrightarrow> list_all (any_generated lawMap) refs"
proof -
  have "any_generated lawMap r" if "generated lawMap lawId r" for r
    using that generated_from [OF that] by (simp add: any_generated_def)
  then show "list_all (generated lawMap lawId) refs \<Longrightarrow> list_all (any_generated lawMap) refs" by (simp add: list_all_iff)
qed

lemma law_references:
  fixes law :: "'a BatchLaw_scheme" and random :: "nat \<Rightarrow> rat"
  defines "gen \<equiv> \<lambda>lawId lawMap k. (case bl_references law of
       None \<Rightarrow> Some ([], k)
     | Some n \<Rightarrow> (if 0 < n then generateRealisticReferences random lawId (nat n) lawMap k else Some ([], k)))"
  shows "unit_draws random \<Longrightarrow> gen lawId lawMap k = Some (refs, j) \<Longrightarrow> length refs = law_count law \<and> list_all (any_generated lawMap) refs"
    and "fair_draws random lawMap \<Longrightarrow> \<exists>y. gen lawId lawMap k = Some y"
proof -
  show "length refs = law_count law \<and> list_all (any_generated lawMap) refs"
    if "unit_draws random" "gen lawId lawMap k = Some (refs, j)"
    using that generate_sound [OF that(1)] generated_any
    unfolding gen_def law_count_def by (fastforce split: option.splits if_splits)
  show "\<exists>y. gen lawId lawMap k = Some y" if "fair_draws random lawMap"
    unfolding gen_def using generate_returns [OF that] by (auto split: option.split)
qed

lemma counted_Cons:
  "counted_laws (map Some processed) (law # laws) =
     (case bl_lawId law of
        None \<Rightarrow> counted_laws (map Some processed) laws
      | Some lawId \<Rightarrow> (if lawId = [] \<or> lawId \<in> set processed then counted_laws (map Some processed) laws
          else law # counted_laws (map Some (lawId # processed)) laws))"
  by (auto simp: counted_laws_def truthy_def split: option.split)

lemma batch_sound:
  fixes laws :: "'a BatchLaw_scheme list"
  assumes "unit_draws random" "batch_references random lawMap laws (processed, k) = Some (refs, processed', k')"
  shows "length refs = sum_list (map law_count (counted_laws (map Some processed) laws)) \<and> list_all (any_generated lawMap) refs \<and>
    set processed' = set processed \<union> {i. i \<noteq> [] \<and> Some i \<in> bl_lawId ` set laws}"
  using assms(2)
proof (induction laws arbitrary: processed k refs)
  case (Cons law laws)
  show ?case
  proof (cases "bl_lawId law")
    case (Some lawId)
    show ?thesis
    proof (cases "lawId = [] \<or> lawId \<in> set processed")
      case True
      then show ?thesis using Cons Some by (auto simp: counted_Cons)
    next
      case False
      then obtain r1 j r2 where g: "(case bl_references law of
          None \<Rightarrow> Some ([], k)
        | Some n \<Rightarrow> (if 0 < n then generateRealisticReferences random lawId (nat n) lawMap k else Some ([], k))) = Some (r1, j)"
        and rest: "batch_references random lawMap laws (lawId # processed, j) = Some (r2, processed', k')" and refs: "refs = r1 @ r2"
        using Cons.prems Some by (simp split: option.splits prod.splits) blast
      from law_references(1) [OF assms(1) g] Cons.IH [OF rest] False show ?thesis
        by (auto simp: counted_Cons Some refs)
    qed
  qed (use Cons in \<open>auto simp: counted_Cons\<close>)
qed (simp add: counted_laws_def)

lemma batch_returns: "fair_draws random lawMap \<Longrightarrow> \<exists>y. batch_references random lawMap laws (processed, k) = Some y"
proof (induction laws arbitrary: processed k)
  case (Cons law laws)
  show ?case
  proof (cases "bl_lawId law")
    case (Some lawId)
    obtain r j where "(case bl_references law of
        None \<Rightarrow> Some ([], k)
      | Some n \<Rightarrow> (if 0 < n then generateRealisticReferences random lawId (nat n) lawMap k else Some ([], k))) = Some (r, j)"
      using law_references(2) [OF Cons.prems, where law = law and lawId = lawId and k = k] by force
    then show ?thesis using Cons.IH [OF Cons.prems, of processed k] Cons.IH [OF Cons.prems, of "lawId # processed" j] Some by auto
  qed (use Cons.IH [OF Cons.prems] in simp)
qed simp

lemma write_batches:
  "foldl (write_batch (\<lambda>_. False) nodes) st bs =
     (fst st + length (concat bs),
      snd st @ filter (\<lambda>r. map_has nodes (ref_fromLaw r) \<and> (case ref_toLaw r of None \<Rightarrow> False | Some t \<Rightarrow> map_has nodes t)) (concat bs))"
  by (induction bs arbitrary: st) (simp_all add: write_batch_def add.assoc)

text \<open>An edge the synchronisation may create: between two laws of the graph, generated for the first.\<close>

definition edge_ok :: "(jsstr, jsstr) jsmap \<Rightarrow> (jsstr, jsstr) jsmap \<Rightarrow> RealisticReference \<Rightarrow> bool" where
  "edge_ok lawMap nodes r \<longleftrightarrow> any_generated lawMap r \<and> map_has nodes (ref_fromLaw r) \<and>
     (case ref_toLaw r of None \<Rightarrow> False | Some t \<Rightarrow> map_has nodes t)"

definition all_laws :: "(jsstr \<times> 'a BatchLaw_scheme list option) list \<Rightarrow> 'a BatchLaw_scheme list" where
  "all_laws files = concat (map (\<lambda>f. case snd f of None \<Rightarrow> [] | Some laws \<Rightarrow> laws) files)"

text \<open>What holds after the files so far: the laws seen, the number written and the edges.\<close>

definition synced :: "(jsstr, jsstr) jsmap \<Rightarrow> (jsstr, jsstr) jsmap \<Rightarrow> RealisticReference list \<Rightarrow> 'a BatchLaw_scheme list \<Rightarrow> SyncState \<Rightarrow> bool" where
  "synced lawMap nodes old laws st \<longleftrightarrow> set (sy_processed st) = {i. i \<noteq> [] \<and> Some i \<in> bl_lawId ` set laws} \<and>
     sy_total st = sum_list (map law_count (counted_laws [] laws)) \<and>
     (\<exists>new. sy_edges st = old @ new \<and> length new \<le> sy_total st \<and> list_all (edge_ok lawMap nodes) new)"

lemma counted_append:
  assumes "set processed = {i. i \<noteq> [] \<and> Some i \<in> bl_lawId ` set xs}"
  shows "counted_laws [] (xs @ ys) = counted_laws [] xs @ counted_laws (map Some processed) ys"
proof -
  have "set (map bl_lawId (filter (\<lambda>l. truthy (bl_lawId l)) xs)) = set (map Some processed)"
    using assms by (auto simp: truthy_def image_iff split: option.splits) (metis option.distinct(1) option.inject)+
  from first_by_set [OF this] show ?thesis unfolding counted_laws_def filter_append first_by_append by simp
qed

lemma sync_file_synced:
  assumes "unit_draws random" "fair_draws random lawMap" "synced lawMap nodes old xs st"
  shows "\<exists>st'. sync_file random (\<lambda>_. False) lawMap nodes st batch = Some st' \<and>
    synced lawMap nodes old (xs @ (case batch of None \<Rightarrow> [] | Some laws \<Rightarrow> laws)) st'"
proof (cases batch)
  case (Some laws)
  obtain refs processed k where b: "batch_references random lawMap laws (sy_processed st, sy_draws st) = Some (refs, processed, k)"
    using batch_returns [OF assms(2), of laws "sy_processed st" "sy_draws st"] by force
  let ?w = "\<lambda>r. map_has nodes (ref_fromLaw r) \<and> (case ref_toLaw r of None \<Rightarrow> False | Some t \<Rightarrow> map_has nodes t)"
  note sound = batch_sound [OF assms(1) b]
  have ran: "sync_file random (\<lambda>_. False) lawMap nodes st batch =
      Some \<lparr>sy_processed = processed, sy_draws = k, sy_total = sy_total st + length refs, sy_edges = sy_edges st @ filter ?w refs\<rparr>"
    by (simp add: sync_file_def Some b write_batches concat_batches)
  obtain new where new: "sy_edges st = old @ new" "length new \<le> sy_total st" "list_all (edge_ok lawMap nodes) new"
    using assms(3) by (auto simp: synced_def)
  have seen: "set (sy_processed st) = {i. i \<noteq> [] \<and> Some i \<in> bl_lawId ` set xs}" using assms(3) by (simp add: synced_def)
  have "list_all (edge_ok lawMap nodes) (filter ?w refs)" using sound by (auto simp: edge_ok_def list_all_iff)
  moreover have "length (filter ?w refs) \<le> length refs" by simp
  ultimately have "\<exists>new. sy_edges st @ filter ?w refs = old @ new \<and> length new \<le> sy_total st + length refs \<and> list_all (edge_ok lawMap nodes) new"
    using new by (intro exI [of _ "new @ filter ?w refs"]) (simp add: add_mono)
  moreover have "sy_total st + length refs = sum_list (map law_count (counted_laws [] (xs @ laws)))"
    using sound assms(3) by (simp add: counted_append [OF seen] synced_def)
  moreover have "set processed = {i. i \<noteq> [] \<and> Some i \<in> bl_lawId ` set (xs @ laws)}" using sound seen by auto
  ultimately show ?thesis unfolding ran by (simp add: synced_def Some)
qed (use assms in \<open>simp add: sync_file_def\<close>)

lemma sync_files_synced:
  assumes "unit_draws random" "fair_draws random lawMap" "synced lawMap nodes old xs st"
  shows "\<exists>st'. foldl (\<lambda>st f. Option.bind st (\<lambda>st. sync_file random (\<lambda>_. False) lawMap nodes st (snd f))) (Some st) files = Some st' \<and>
    synced lawMap nodes old (xs @ all_laws files) st'"
  using assms(3)
proof (induction files arbitrary: xs st)
  case (Cons f files)
  obtain st' where "sync_file random (\<lambda>_. False) lawMap nodes st (snd f) = Some st'"
    and "synced lawMap nodes old (xs @ (case snd f of None \<Rightarrow> [] | Some laws \<Rightarrow> laws)) st'"
    using sync_file_synced [OF assms(1,2) Cons.prems, of "snd f"] by blast
  then show ?case using Cons.IH [of "xs @ (case snd f of None \<Rightarrow> [] | Some laws \<Rightarrow> laws)" st'] by (simp add: all_laws_def)
qed (simp add: all_laws_def)

section \<open>Properties\<close>

text \<open>C30: the command \<open>sync\<close> returns when the draws keep leading to other laws. When no statement fails, the graph
  has its laws with their titles and those of the law list besides; the edges before the run are kept, or are gone with
  the option \<open>--clean\<close>; every new edge runs between two laws of the graph, from a law to itself unless it is external and
  to another law if it is, with an article number from 1 to 100; and the number reported is the sum of the numbers of
  references of the laws of the batch files, each law counted at its first occurrence, and no less than the edges made.\<close>

theorem sync_exact:
  assumes "unit_draws random" "fair_draws random (read_law_map csv)"
  shows "\<exists>nodes new n. sync_command dedup clean random (\<lambda>_. False) csv files (laws, old) = Some (nodes, (if clean then [] else old) @ new, n) \<and>
    (\<forall>k. map_of nodes k = (case map_of laws k of Some t \<Rightarrow> Some t | None \<Rightarrow> map_of (read_law_map csv) k)) \<and>
    list_all (edge_ok (read_law_map csv) nodes) new \<and> length new \<le> n \<and> 
    n = sum_list (map law_count (counted_laws [] (all_laws (batch_files (if dedup then snd (fixDuplicateEntries files) else files)))))"
proof -
  let ?m = "read_law_map csv" and ?old = "if clean then [] else old"
  define counted where "counted = batch_files (if dedup then snd (fixDuplicateEntries files) else files)"
  let ?nodes = "create_law_nodes ?m laws" and ?st = "\<lparr>sy_processed = [], sy_draws = 0, sy_total = 0, sy_edges = ?old\<rparr>"
  have "synced ?m ?nodes ?old [] ?st" by (simp add: synced_def counted_laws_def)
  from sync_files_synced [OF assms(1,2) this, of counted] obtain st' where
    run: "foldl (\<lambda>st f. Option.bind st (\<lambda>st. sync_file random (\<lambda>_. False) ?m ?nodes st (snd f))) (Some ?st) counted = Some st'"
    and st': "synced ?m ?nodes ?old (all_laws counted) st'"
    by auto
  obtain new where "sy_edges st' = ?old @ new" "length new \<le> sy_total st'" "list_all (edge_ok ?m ?nodes) new"
    using st' by (auto simp: synced_def)
  moreover have "sy_total st' = sum_list (map law_count (counted_laws [] (all_laws counted)))" using st' by (simp add: synced_def)
  moreover have "sync_command dedup clean random (\<lambda>_. False) csv files (laws, old) = Some (?nodes, sy_edges st', sy_total st')"
    using run by (cases clean) (simp_all add: sync_command_def syncToNeo4jWithDeduplication_def counted_def Let_def clean_all)
  ultimately show ?thesis unfolding counted_def using create_law_nodes_get [of ?m laws]
    by (intro exI [of _ ?nodes] exI [of _ new] exI [of _ "sy_total st'"]) simp
qed

definition sample_csv :: jsstr where
  "sample_csv = join [0xA] [(str ''h''), (str ''0,1,Alpha,3,4,5,6,7,8,9,10,L1''), (str ''0,1,Beta,3,4,5,6,7,8,9,10,L2'')]"

definition sample_files :: "(jsstr \<times> BatchLaw list option) list" where
  "sample_files = [((str ''batch_2_results.json''), Some [\<lparr>bl_lawId = Some (str ''L1''), bl_references = Some 5\<rparr>]), ((str ''notes.txt''), None),
     ((str ''batch_1_results.json''), Some [\<lparr>bl_lawId = Some (str ''L1''), bl_references = Some 3\<rparr>, \<lparr>bl_lawId = Some (str ''L2''), bl_references = None\<rparr>])]"

definition sample_draws :: "nat \<Rightarrow> rat" where
  "sample_draws k = (if even k then 0 else 1 / 2)"

theorem sync_exact_witness:
  "\<exists>nodes new. sync_command False True sample_draws (\<lambda>_. False) sample_csv sample_files ([], []) = Some (nodes, new, 3) \<and>
     map_of nodes (str ''L2'') = Some (str ''Beta'') \<and> length new \<le> 3"
proof -
  have m: "read_law_map sample_csv = [((str ''L1''), (str ''Alpha'')), ((str ''L2''), (str ''Beta''))]" by code_simp
  have unit: "unit_draws sample_draws" by (simp add: unit_draws_def sample_draws_def)
  have "pick_law [(str ''L1''), (str ''L2'')] 0 \<noteq> Some lawId \<or> pick_law [(str ''L1''), (str ''L2'')] (1 / 2) \<noteq> Some lawId" for lawId
    by (auto simp: pick_law_def)
  then have "pick_law [(str ''L1''), (str ''L2'')] (sample_draws (2 * k)) \<noteq> Some lawId \<or> pick_law [(str ''L1''), (str ''L2'')] (sample_draws (2 * k + 1)) \<noteq> Some lawId" for lawId k
    by (simp add: sample_draws_def)
  moreover have "k \<le> 2 * k" "k \<le> 2 * k + 1" for k :: nat by simp_all
  ultimately have fair: "fair_draws sample_draws (read_law_map sample_csv)"
    unfolding fair_draws_def m map_keys_def list.map fst_conv by blast
  have n: "sum_list (map law_count (counted_laws [] (all_laws (batch_files sample_files)))) = 3" by code_simp
  from sync_exact [OF unit fair, where dedup = False and clean = True and files = sample_files and laws = "[]" and old = "[]"]
  show ?thesis unfolding n m if_False if_True append_Nil by (force simp: m)
qed

text \<open>repairing the batch files leaves every file that is not one of them alone; in each of the others the
  laws have different ids, and the laws are exactly the last ones of each id; the number returned is the number of laws
  removed, and repairing once more changes nothing.\<close>

theorem duplicates_exact:
  "list_all2 (\<lambda>f f'. fst f' = fst f \<and>
     (case snd f of
        Some laws \<Rightarrow> (if is_batch_file (fst f)
          then \<exists>laws'. snd f' = Some laws' \<and> distinct (map bl_lawId laws') \<and>
            (\<forall>l. l \<in> set laws' \<longleftrightarrow> find (\<lambda>l'. bl_lawId l' = bl_lawId l) (rev laws) = Some l)
          else f' = f)
      | None \<Rightarrow> f' = f)) files (snd (fixDuplicateEntries files)) \<and>
   fst (fixDuplicateEntries files) + length (all_laws (snd (fixDuplicateEntries files))) = length (all_laws files) \<and>
   fixDuplicateEntries (snd (fixDuplicateEntries files)) = (0, snd (fixDuplicateEntries files))"
proof (intro conjI)
  show "list_all2 (\<lambda>f f'. fst f' = fst f \<and>
     (case snd f of
        Some laws \<Rightarrow> (if is_batch_file (fst f)
          then \<exists>laws'. snd f' = Some laws' \<and> distinct (map bl_lawId laws') \<and>
            (\<forall>l. l \<in> set laws' \<longleftrightarrow> find (\<lambda>l'. bl_lawId l' = bl_lawId l) (rev laws) = Some l)
          else f' = f)
      | None \<Rightarrow> f' = f)) files (snd (fixDuplicateEntries files))"
    by (auto simp: fixDuplicateEntries_def list.rel_map fixed_file unique_laws intro!: list.rel_refl split: option.split)
  show "fst (fixDuplicateEntries files) + length (all_laws (snd (fixDuplicateEntries files))) = length (all_laws files)"
  proof (induction files)
    case (Cons f files)
    have "fst (fix_file f) + length (case snd (snd (fix_file f)) of None \<Rightarrow> [] | Some laws \<Rightarrow> laws) = length (case snd f of None \<Rightarrow> [] | Some laws \<Rightarrow> laws)"
      by (simp add: fixed_file unique_shorter split: option.split)
    with Cons show ?case by (simp add: fixDuplicateEntries_def all_laws_def)
  qed (simp add: fixDuplicateEntries_def all_laws_def)
  show "fixDuplicateEntries (snd (fixDuplicateEntries files)) = (0, snd (fixDuplicateEntries files))"
    by (auto simp: fixDuplicateEntries_def fixed_file unique_distinct unique_laws sum_list_eq_0_iff split: option.split)
qed

section \<open>Findings\<close>

text \<open>A law that is the only one of the law list never gets past its first external reference: the loop looks for another
  law forever.\<close>

lemma only_law_never_returns:
  assumes "unit_draws random"
  shows "pick_other random [lawId] lawId k = None"
proof (rule ccontr)
  assume "pick_other random [lawId] lawId k \<noteq> None"
  then obtain y where "pick_other random [lawId] lawId k = Some y" by blast
  from pick_other_result [OF this] obtain j where "pick_law [lawId] (random j) \<noteq> Some lawId" by auto
  moreover obtain t where "pick_law [lawId] (random j) = Some t" using pick_law_Some [of "[lawId]" "random j"] assms by (auto simp: unit_draws_def)
  ultimately show False using pick_law_mem [of "[lawId]" "random j" t] by simp
qed

text \<open>The number reported counts references that were sent, also those for which no edge was made because a law is not in
  the graph.\<close>

lemma reported_not_written:
  "sync_command False False (\<lambda>_. 0) (\<lambda>_. False) [] [((str ''batch_1_results.json''), Some [\<lparr>bl_lawId = Some (str ''L1''), bl_references = Some 2\<rparr>])] ([], []) =
     Some ([], [], 2)"
  by code_simp

text \<open>What is written does not depend on the text of the laws: the type, the target and the article are drawn.\<close>

lemma references_drawn:
  "map_option (map ref_text \<circ> fst) (generateRealisticReferences (\<lambda>_. 0) (str ''L1'') 1 [] 0) = Some [[c_dai, 0x31, c_jou]]"
  "map_option (map ref_text \<circ> fst) (generateRealisticReferences (\<lambda>_. 1 / 4) (str ''L1'') 1 [] 0) = Some [[c_dai, 0x32, 0x36, c_jou]]"
  by code_simp+


end
