(* ===== verification/XMLDataSource.thy ===== *)
theory XMLDataSource
  imports Validation
begin

text \<open>
  \<^verbatim>\<open>infrastructure/persistence/XMLFileDataSource.ts\<close>: the data source over a directory of law files. The directory (names,
  times of modification, contents) and the XML package are arguments: the package turns a text into the value whose
  properties the code reads, \<open>None\<close> if it rejects the text. \<open>None\<close> as a result is a throw; a date is its year, month from
  0 and day.
\<close>

section \<open>Values\<close>

text \<open>\<open>a || b\<close>, and \<open>parseInt\<close> of a value, which turns it into a string first. The
  package makes strings, objects and arrays; a number does not occur.\<close>

definition jor :: "json option \<Rightarrow> json option \<Rightarrow> json option" where
  "jor a b = (if jtruthy a then a else b)"

fun parse_value :: "json option \<Rightarrow> int option" where
  "parse_value (Some (JStr s)) = parse_int s"
| "parse_value (Some (JArr (x # _))) = parse_value (Some x)"
| "parse_value _ = None"

section \<open>Articles\<close>

record SourceParagraph =
  sp_paragraphNum :: "int option"
  sp_content :: json
  sp_items :: "json list"

record SourceArticle =
  sa_articleNum :: "int option"
  sa_articleTitle :: json
  sa_paragraphs :: "SourceParagraph list"

text \<open>The elements of a property that is one value or an array of them; reading a property of \<open>null\<close> throws.\<close>

definition elements :: "json \<Rightarrow> jsstr \<Rightarrow> json list" where
  "elements v k = (case jget v k of None \<Rightarrow> [] | Some x \<Rightarrow> (if jtruthy (Some x) then as_array x else []))"

definition each :: "(json \<Rightarrow> 'a option) \<Rightarrow> json list \<Rightarrow> 'a list option" where
  "each f vs = those (map (\<lambda>v. if v = JNull then None else f v) vs)"

definition item_value :: "json \<Rightarrow> json" where
  "item_value item = the (jor (jget item (str ''itemsentence'')) (jor (jget item (str ''_'')) (Some (JStr []))))"

definition extractItems :: "json \<Rightarrow> json list option" where
  "extractItems paragraph = each (\<lambda>item. Some (item_value item)) (elements paragraph (str ''item''))"

text \<open>\<open>sentenceNode?.sentence || sentenceNode?._ || sentenceNode || ''\<close>\<close>

definition paragraph_content :: "json \<Rightarrow> json" where
  "paragraph_content para =
     (let node = jor (jget para (str ''paragraphsentence'')) (jget para (str ''sentence''))
      in the (jor (Option.bind node (\<lambda>n. jget n (str ''sentence''))) (jor (Option.bind node (\<lambda>n. jget n (str ''_''))) (jor node (Some (JStr []))))))"

definition extract_paragraph :: "nat \<Rightarrow> json \<Rightarrow> SourceParagraph option" where
  "extract_paragraph i para =
     map_option (\<lambda>items. \<lparr>sp_paragraphNum = parse_value (jor (jget para (str ''Num'')) (jor (jget para (str ''num'')) (Some (JStr (nat_str (i + 1)))))),
       sp_content = paragraph_content para, sp_items = items\<rparr>) (extractItems para)"

definition extractParagraphs :: "json \<Rightarrow> SourceParagraph list option" where
  "extractParagraphs article =
     those (map (\<lambda>(i, para). if para = JNull then None else extract_paragraph i para) (List.enumerate 0 (elements article (str ''paragraph''))))"

definition extract_article :: "json \<Rightarrow> SourceArticle option" where
  "extract_article article =
     map_option (\<lambda>ps. \<lparr>sa_articleNum = parse_value (jor (jget article (str ''Num'')) (jor (jget article (str ''num'')) (Some (JStr (str ''0''))))),
       sa_articleTitle = the (jor (jget article (str ''articlecaption'')) (jor (jget article (str ''articletitle'')) (Some JNull))),
       sa_paragraphs = ps\<rparr>) (extractParagraphs article)"

definition extractArticles :: "json option \<Rightarrow> SourceArticle list option" where
  "extractArticles lawBody =
     (case lawBody of
        None \<Rightarrow> Some []
      | Some body \<Rightarrow>
          (if \<not> jtruthy (Some body) then Some []
           else each extract_article (elements (the (jor (jget body (str ''mainprovision'')) (Some body))) (str ''article''))))"

section \<open>Laws\<close>

definition mapLawType :: "json option \<Rightarrow> jsstr" where
  "mapLawType xmlType =
     (case xmlType of
        Some (JStr t) \<Rightarrow> (if t \<in> set [(str ''Act''), (str ''CabinetOrder''), (str ''MinisterialOrdinance''), (str ''Rule''), (str ''Regulation'')] then t else (str ''Act''))
      | _ \<Rightarrow> (str ''Act''))"

definition generateLawId :: "json option \<Rightarrow> int option \<Rightarrow> int option \<Rightarrow> jsstr" where
  "generateLawId type year num =
     (let typeCode = (if type = Some (JStr (str ''Act'')) then (str ''AC'') else (str ''XX''));
          yearStr = pad_start 3 0x30 (let s = num_str year in drop (length s - 3) s);
          numStr = pad_start 10 0x30 (num_str num)
      in yearStr @ typeCode @ numStr)"

definition western_year :: "json option \<Rightarrow> int option \<Rightarrow> int option" where
  "western_year era year =
     (if era = Some (JStr (str ''Meiji'')) then nadd year 1867
      else if era = Some (JStr (str ''Taisho'')) then nadd year 1911
      else if era = Some (JStr (str ''Showa'')) then nadd year 1925
      else if era = Some (JStr (str ''Heisei'')) then nadd year 1988
      else if era = Some (JStr (str ''Reiwa'')) then nadd year 2018
      else year)"

record SourceLaw =
  sl_lawId :: jsstr
  sl_lawType :: jsstr
  sl_lawTitle :: json
  sl_lawTitleKana :: json
  sl_promulgateDate :: "int option \<times> int option \<times> int option"
  sl_articles :: "SourceArticle list"

text \<open>Without the fields \<open>enforceDate\<close> (null), \<open>source\<close> and \<open>lastModified\<close> (the clock).\<close>

definition parseLaw :: "(jsstr \<Rightarrow> json option) \<Rightarrow> jsstr \<Rightarrow> SourceLaw option" where
  "parseLaw parser xmlData =
     Option.bind (parser xmlData) (\<lambda>result. Option.bind (jget result (str ''law'')) (\<lambda>law.
       if law = JNull then None
       else let year = parse_value (jor (jget law (str ''Year'')) (Some (JStr (str ''0''))));
                month = parse_value (jor (jget law (str ''PromulgateMonth'')) (Some (JStr (str ''1''))));
                day = parse_value (jor (jget law (str ''PromulgateDay'')) (Some (JStr (str ''1''))));
                westernYear = western_year (jget law (str ''Era'')) year;
                lawtitle = jget law (str ''lawtitle'')
            in map_option (\<lambda>articles.
                 \<lparr>sl_lawId = generateLawId (jget law (str ''Type'')) westernYear (parse_value (jor (jget law (str ''Num'')) (Some (JStr (str ''0''))))),
                  sl_lawType = mapLawType (jget law (str ''Type'')),
                  sl_lawTitle = the (jor (Option.bind lawtitle (\<lambda>t. jget t (str ''_''))) (jor lawtitle (Some (JStr [])))),
                  sl_lawTitleKana = the (jor (Option.bind lawtitle (\<lambda>t. jget t (str ''Kana''))) (jor (Option.bind lawtitle (\<lambda>t. jget t (str ''kana''))) (Some JNull))),
                  sl_promulgateDate = (westernYear, nadd month (- 1), day), sl_articles = articles\<rparr>)
               (extractArticles (jget law (str ''lawbody'')))))"

section \<open>Directory\<close>

record SourceFile =
  sf_name :: jsstr
  sf_mtime :: jsstr
  sf_content :: jsstr

record LawListItem =
  li_lawId :: jsstr
  li_lawTitle :: jsstr
  li_lastModified :: jsstr
  li_source :: jsstr

text \<open>\<open>path.basename(filename, '.xml')\<close>\<close>

definition extractLawId :: "jsstr \<Rightarrow> jsstr" where
  "extractLawId filename = (if ends_with filename (str ''.xml'') \<and> filename \<noteq> (str ''.xml'') then take (length filename - 4) filename else filename)"

definition extractLawTitle :: "jsstr \<Rightarrow> jsstr \<Rightarrow> jsstr" where
  "extractLawTitle filename xmlData =
     (case rx_match (rseq [RLit (str ''<LawTitle''), rstar (RCls True [(0x3E, 0x3E)]), RLit (str ''>''), RGrp 1 (rplus (RCls True [(0x3C, 0x3C)])), RLit (str ''</LawTitle>'')]) xmlData of
        None \<Rightarrow> extractLawId filename
      | Some m \<Rightarrow> grp m 1)"

definition law_items :: "SourceFile list \<Rightarrow> LawListItem list" where
  "law_items files = map (\<lambda>f. \<lparr>li_lawId = extractLawId (sf_name f), li_lawTitle = extractLawTitle (sf_name f) (sf_content f),
      li_lastModified = sf_mtime f, li_source = (str ''xml'')\<rparr>) (filter (\<lambda>f. ends_with (sf_name f) (str ''.xml'')) files)"

record LawListResult =
  lr_laws :: "LawListItem list"
  lr_hasMore :: bool
  lr_nextOffset :: "nat option"

text \<open>The offset and the limit are natural numbers here; 0 and an absent limit both give 1000.\<close>

definition fetchLawList :: "SourceFile list \<Rightarrow> nat option \<Rightarrow> nat option \<Rightarrow> LawListResult" where
  "fetchLawList files optOffset optLimit =
     (let laws = law_items files;
          offset = (case optOffset of None \<Rightarrow> 0 | Some n \<Rightarrow> n);
          limit = (case optLimit of None \<Rightarrow> 1000 | Some n \<Rightarrow> (if n = 0 then 1000 else n))
      in \<lparr>lr_laws = take limit (drop offset laws), lr_hasMore = (offset + limit < length laws),
          lr_nextOffset = (if offset + limit < length laws then Some (offset + limit) else None)\<rparr>)"

definition fetchLawDetail :: "(jsstr \<Rightarrow> json option) \<Rightarrow> SourceFile list \<Rightarrow> jsstr \<Rightarrow> SourceLaw option" where
  "fetchLawDetail parser files lawId =
     Option.bind (find (\<lambda>f. sf_name f = lawId @ (str ''.xml'')) files) (\<lambda>f. parseLaw parser (sf_content f))"

definition fetchUpdatedLaws :: "int \<Rightarrow> jsstr + LawListResult" where
  "fetchUpdatedLaws since = Inl (str ''XML source does not support incremental updates'')"

section \<open>Pages\<close>

text \<open>A client that follows \<open>nextOffset\<close>.\<close>

function list_pages :: "SourceFile list \<Rightarrow> nat option \<Rightarrow> nat option \<Rightarrow> LawListItem list list" where
  "list_pages files offset limit =
     (let r = fetchLawList files offset limit
      in lr_laws r # (case lr_nextOffset r of None \<Rightarrow> [] | Some n \<Rightarrow> list_pages files (Some n) limit))"
  by pat_completeness auto

termination list_pages
  by (relation "measure (\<lambda>(files, offset, _). length (law_items files) - (case offset of None \<Rightarrow> 0 | Some n \<Rightarrow> n))")
    (auto simp: fetchLawList_def Let_def split: if_splits option.splits)

declare list_pages.simps [simp del]

lemma list_pages_from:
  "concat (list_pages files offset limit) = drop (case offset of None \<Rightarrow> 0 | Some n \<Rightarrow> n) (law_items files)"
proof (induction files offset limit rule: list_pages.induct)
  case (1 files offset limit)
  let ?o = "case offset of None \<Rightarrow> 0 | Some n \<Rightarrow> n" and ?l = "case limit of None \<Rightarrow> 1000 | Some n \<Rightarrow> if n = 0 then 1000 else n"
  show ?case
  proof (cases "?o + ?l < length (law_items files)")
    case True
    then have "concat (list_pages files offset limit) = take ?l (drop ?o (law_items files)) @ drop (?o + ?l) (law_items files)"
      using 1 [OF refl, of "?o + ?l"] by (subst list_pages.simps) (simp add: fetchLawList_def Let_def)
    then show ?thesis by (metis append_take_drop_id drop_drop add.commute)
  qed (subst list_pages.simps; simp add: fetchLawList_def Let_def)
qed

section \<open>Documents\<close>














lemma those_Some: "those (map (\<lambda>x. Some (f x)) xs) = Some (map f xs)"
  by (induction xs) auto









section \<open>Properties\<close>




text \<open>a client that asks for the list and follows the offsets it is given stops, and has then seen every
  XML file of the directory once, in order, whatever the limit.\<close>

theorem listing_complete: "concat (list_pages files None limit) = law_items files"
  by (simp add: list_pages_from)

section \<open>Findings\<close>

text \<open>The articles of a law that is divided into chapters are lost: only those directly in the main provision are read.\<close>

lemma chapters_lost: "map_of ps (str ''article'') = None \<Longrightarrow> extractArticles (Some (JObj [((str ''mainprovision''), JObj (((str ''chapter''), JArr chapters) # ps))])) = Some []"
  by (simp add: extractArticles_def jor_def elements_def each_def)

text \<open>The number of a branch article is cut to that of its stem.\<close>

lemma branch_number_lost: "map_option sa_articleNum (extract_article (JObj [((str ''Num''), JStr (str ''5_2''))])) = Some (Some 5)"
  by code_simp

text \<open>The identifier is made of the western year; the official one of the civil code, under which its file is stored, has
  the era and its year.\<close>

lemma identifier_not_official: "generateLawId (Some (JStr (str ''Act''))) (western_year (Some (JStr (str ''Meiji''))) (Some 29)) (Some 89) = (str ''896AC0000000089'')"
  by code_simp


end
