(* ===== verification/EarlierDetectors.thy ===== *)
theory EarlierDetectors
  imports TwoPassDetector
begin

text \<open>
  The two-pass detector before version 3.7: \<^verbatim>\<open>EnhancedReferenceDetectorV33.ts\<close>, \<^verbatim>\<open>V34.ts\<close> and \<^verbatim>\<open>V35.ts\<close> (version 3.6 is the text
  of 3.7). What a version has in common with the last one, word for word, is the definition of
  \<open>TwoPassDetector\<close>: numerals, relative references, ranges, applications, pairs of articles, bare articles, normalisation,
  and from version 3.4 on the conflicts and the paragraphs.
\<close>

section \<open>Version 3.5\<close>

definition lawTypePatterns_v35 :: "(jsstr \<times> regex list) list" where
  "lawTypePatterns_v35 =
     [([0x653F, c_rei_order], [(rseq [RGrp 1 (rseq [rplus (RCls True (rng_ws @ [(p_comma, p_comma), (p_stop, p_stop)])), ralt [RLit [0x65BD, 0x884C, c_rei_order], RLit [0x653F, c_rei_order]]]), ropt (rseq [RLit [c_dai], RGrp 2 (rplus (RCls False rng_kjd10000)), RLit [c_jou]])]),
        (rseq [RGrp 1 (rseq [rplus (RCls True (rng_ws @ [(p_comma, p_comma), (p_stop, p_stop)])), RLit [c_rei_order]]), ropt (rseq [RLit [c_dai], RGrp 2 (rplus (RCls False rng_kjd10000)), RLit [c_jou]]), RLook False (RLit [0x548C])])]),
      ([0x5E9C, c_rei_order], [(rseq [RLit [0x5185, 0x95A3, 0x5E9C, c_rei_order], ropt (rseq [RLit [c_dai], RGrp 1 (rplus (RCls False rng_kjd10000)), RLit [c_gou]])]),
        (rseq [RGrp 1 (rseq [rplus (RCls True (rng_ws @ [(p_comma, p_comma), (p_stop, p_stop)])), RLit [0x5E9C, c_rei_order]]), ropt (rseq [RLit [c_dai], RGrp 2 (rplus (RCls False rng_kjd10000)), RLit [c_jou]])])]),
      ([0x7701, c_rei_order], [(rseq [RGrp 1 (rseq [rplus (RCls True (rng_ws @ [(p_comma, p_comma), (p_stop, p_stop)])), ralt [RLit [0x7701, c_rei_order], RLit [0x65BD, 0x884C, c_ki, c_soku]]]), ropt (rseq [RLit [c_dai], RGrp 2 (rplus (RCls False rng_kjd10000)), RLit [c_jou]])]),
        (rseq [RGrp 1 (rseq [rplus (RCls True (rng_ws @ [(p_comma, p_comma), (p_stop, p_stop)])), RLit [0x7701]]), RLit [c_rei_order], ropt (rseq [RLit [c_dai], RGrp 2 (rplus (RCls False rng_kjd10000)), RLit [c_gou]])]),
        (rseq [RLit [0x539A, 0x751F, 0x52B4, 0x50CD, 0x7701, c_rei_order], ropt (rseq [RLit [c_dai], RGrp 1 (rplus (RCls False rng_kjd10000)), RLit [c_gou]])]),
        (rseq [RLit [0x7D4C, 0x6E08, 0x7523, 0x696D, 0x7701, c_rei_order], ropt (rseq [RLit [c_dai], RGrp 1 (rplus (RCls False rng_kjd10000)), RLit [c_gou]])]),
        (rseq [RLit [0x56FD, 0x571F, 0x4EA4, 0x901A, 0x7701, c_rei_order], ropt (rseq [RLit [c_dai], RGrp 1 (rplus (RCls False rng_kjd10000)), RLit [c_gou]])])]),
      ([c_ki, c_soku], [(rseq [RGrp 1 (rseq [rplus (RCls True (rng_ws @ [(p_comma, p_comma), (p_stop, p_stop)])), RLit [c_ki, c_soku]]), ropt (rseq [RLit [c_dai], RGrp 2 (rplus (RCls False rng_kjd10000)), RLit [c_jou]])]),
        (rseq [RLit [0x6700, 0x9AD8, 0x88C1, 0x5224, 0x6240, c_ki, c_soku], ropt (rseq [RLit [c_dai], RGrp 1 (rplus (RCls False rng_kjd10000)), RLit [c_gou]])]),
        (rseq [RLit [0x4EBA, 0x4E8B, 0x9662, c_ki, c_soku], ropt (rseq [rplus (RCls False rng_kjd10000), RLit [0x2015], rplus (RCls False rng_kjd10000)])]),
        (rseq [RLit [c_kai_meet, 0x8A08, 0x691C, 0x67FB, 0x9662, c_ki, c_soku], ropt (rseq [RLit [c_dai], RGrp 1 (rplus (RCls False rng_kjd10000)), RLit [c_gou]])]),
        (rseq [RGrp 1 (rseq [rplus (RCls True (rng_ws @ [(p_comma, p_comma), (p_stop, p_stop)])), RLit [0x59D4, 0x54E1, c_kai_meet, c_ki, c_soku]]), ropt (rseq [RLit [c_dai], RGrp 2 (rplus (RCls False rng_kjd10000)), RLit [c_gou]])])]),
      ([c_jou, 0x4F8B], [(rseq [RGrp 1 (rseq [rplus (RCls True (rng_ws @ [(p_comma, p_comma), (p_stop, p_stop)])), ralt [RLit [0x90FD], RLit [0x9053], RLit [0x5E9C], RLit [0x770C], RLit [0x5E02], RLit [0x533A], RLit [0x753A], RLit [0x6751]]]), RLit [c_jou, 0x4F8B], ropt (rseq [RLit [c_dai], RGrp 2 (rplus (RCls False rng_kjd10000)), RLit [c_jou]])]),
        (rseq [RGrp 1 (rseq [rplus (RCls True (rng_ws @ [(p_comma, p_comma), (p_stop, p_stop)])), RLit [c_jou, 0x4F8B]]), ropt (rseq [RLit [c_dai], RGrp 2 (rplus (RCls False rng_kjd10000)), RLit [c_jou]])]),
        (rseq [RLit [0x6771, 0x4EAC, 0x90FD, c_jou, 0x4F8B], ropt (rseq [RLit [c_dai], RGrp 1 (rplus (RCls False rng_kjd10000)), RLit [c_gou]])])]),
      ([0x544A, 0x793A], [(rseq [RGrp 1 (rseq [rplus (RCls True (rng_ws @ [(p_comma, p_comma), (p_stop, p_stop)])), ralt [RLit [0x5927, 0x81E3], RLit [0x7701], RLit [0x5E81], RLit [0x59D4, 0x54E1, c_kai_meet]]]), RLit [0x544A, 0x793A], ropt (rseq [RLit [c_dai], RGrp 2 (rplus (RCls False rng_kjd10000)), RLit [c_gou]])]),
        (rseq [RLit [0x544A, 0x793A], rseq [RLit [c_dai], RGrp 1 (rplus (RCls False rng_kjd10000)), RLit [c_gou]]]),
        (rseq [RLit [0x5E73, 0x6210], RGrp 1 (rplus (RCls False rng_kjd10000)), RLit [0x5E74], rstar (RCls True rng_eol), RLit [0x544A, 0x793A], ropt (rseq [RLit [c_dai], RGrp 2 (rplus (RCls False rng_kjd10000)), RLit [c_gou]])]),
        (rseq [RLit [c_rei_order, 0x548C], RGrp 1 (rplus (RCls False rng_kjd10000)), RLit [0x5E74], rstar (RCls True rng_eol), RLit [0x544A, 0x793A], ropt (rseq [RLit [c_dai], RGrp 2 (rplus (RCls False rng_kjd10000)), RLit [c_gou]])])]),
      ([0x901A, 0x9054], [(rseq [RGrp 1 (rseq [rplus (RCls True (rng_ws @ [(p_comma, p_comma), (p_stop, p_stop)])), RLit [0x767A]]), ropt (rseq [RLit [c_dai], RGrp 2 (rplus (RCls False rng_kjd10000)), RLit [c_gou]])]),
        (RGrp 1 (rseq [rplus (RCls True (rng_ws @ [(p_comma, p_comma), (p_stop, p_stop)])), RLit [0x901A, 0x9054]])),
        (RGrp 1 (rseq [rplus (RCls True (rng_ws @ [(p_comma, p_comma), (p_stop, p_stop)])), RLit [0x901A, 0x77E5]])),
        (rseq [RGrp 1 (rseq [rplus (RCls True (rng_ws @ [(p_comma, p_comma), (p_stop, p_stop)])), ralt [RLit [0x5C40, 0x9577], RLit [0x90E8, 0x9577], RLit [0x8AB2, 0x9577]]]), RLit [0x901A, 0x77E5]])]),
      ([0x8A13, c_rei_order], [(rseq [RGrp 1 (rseq [rplus (RCls True (rng_ws @ [(p_comma, p_comma), (p_stop, p_stop)])), RLit [0x8A13, c_rei_order]]), ropt (rseq [RLit [c_dai], RGrp 2 (rplus (RCls False rng_kjd10000)), RLit [c_gou]])]),
        (rseq [RLit [0x8A13, c_rei_order], rseq [RLit [c_dai], RGrp 1 (rplus (RCls False rng_kjd10000)), RLit [c_gou]]])]),
      ([0x52C5, c_rei_order], [(rseq [RLit [0x52C5, c_rei_order], ropt (rseq [RLit [c_dai], RGrp 1 (rplus (RCls False rng_kjd10000)), RLit [c_gou]])]),
        (rseq [RLit [0x660E, 0x6CBB], RGrp 1 (rplus (RCls False rng_kjd10000)), RLit [0x5E74, 0x52C5, c_rei_order], ropt (rseq [RLit [c_dai], RGrp 2 (rplus (RCls False rng_kjd10000)), RLit [c_gou]])]),
        (rseq [RLit [0x5927, c_sei], RGrp 1 (rplus (RCls False rng_kjd10000)), RLit [0x5E74, 0x52C5, c_rei_order], ropt (rseq [RLit [c_dai], RGrp 2 (rplus (RCls False rng_kjd10000)), RLit [c_gou]])]),
        (rseq [RLit [0x662D, 0x548C], RGrp 1 (rplus (RCls False rng_kjd10000)), RLit [0x5E74, 0x52C5, c_rei_order], ropt (rseq [RLit [c_dai], RGrp 2 (rplus (RCls False rng_kjd10000)), RLit [c_gou]])])])]"

definition law_parts_v35 :: "jsstr \<Rightarrow> rmatch \<Rightarrow> jsstr \<times> jsstr \<times> jsstr" where
  "law_parts_v35 typeName m =
     (let (lawName, articleNum, numberNum) =
        (if truthy (cap m 1) then
           let article = (if truthy (cap m 2) then grp m 2 else []) in
           if rx_test (rseq [RBol, rplus (RCls False rng_kjd10000), REol]) (grp m 1) then ([], article, grp m 1) else (grp m 1, article, [])
         else ([], [], []))
      in (if lawName = [] \<and> typeName \<noteq> [] then m_text m else lawName, articleNum, numberNum))"

definition law_type_candidate_v35 :: "jsstr \<Rightarrow> rmatch \<Rightarrow> ReferenceCandidate list" where
  "law_type_candidate_v35 typeName m =
     (case law_parts_v35 typeName m of (lawName, articleNum, numberNum) \<Rightarrow>
        if lawName = [] \<or> map_of lawNameToId lawName \<noteq> None then []
        else if articleNum \<noteq> [] then
          [candidate m 9 External (m_text m) (m_text m) None (Some lawName) (Some ([c_dai] @ articleNum @ [c_jou])) (85/100)
             (Some (((str ''lawType''), JStr typeName) # field (str ''number'') (or_else (Some numberNum) None)))]
        else if numberNum \<noteq> [] \<or> str_includes (m_text m) [c_gou] then
          [candidate m 8 External (m_text m) (m_text m) None (Some lawName) None (80/100)
             (Some (((str ''lawType''), JStr typeName) # field (str ''number'') (or_else (Some numberNum) (Some (m_text m)))))]
        else [])"

definition collectLawTypeCandidates_v35 :: "jsstr \<Rightarrow> ReferenceCandidate list" where
  "collectLawTypeCandidates_v35 text =
     concat (map (\<lambda>(typeName, patterns). concat (map (\<lambda>pattern.
       concat (map (law_type_candidate_v35 typeName) (exec_all pattern text))) patterns)) lawTypePatterns_v35)"

definition collectAllCandidates_v35 :: "jsstr \<Rightarrow> jsstr option \<Rightarrow> ReferenceCandidate list" where
  "collectAllCandidates_v35 text currentArticle =
     collectExternalCandidates text @ collectLawTypeCandidates_v35 text @ collectRangeCandidates text @
     collectApplicationCandidates text @ collectParagraphCandidates text currentArticle @ collectMultipleCandidates text @
     collectInternalCandidates text @ collectRelativeCandidates text currentArticle"

definition detectReferences_v35 :: "jsstr \<Rightarrow> jsstr option \<Rightarrow> Reference list" where
  "detectReferences_v35 text currentArticle = normalizeReferences (resolveConflicts (collectAllCandidates_v35 text currentArticle))"

section \<open>Version 3.4\<close>

definition lawNameToId_v34 :: "(jsstr \<times> jsstr) list" where
  "lawNameToId_v34 =
     [([0x65E5, c_hon, 0x56FD, 0x61B2, c_hou], (str ''321CONSTITUTION'')),
      ([0x61B2, c_hou], (str ''321CONSTITUTION'')),
      ([c_min, c_hou], (str ''129AC0000000089'')),
      ([c_shou_com, c_hou], (str ''132AC0000000048'')),
      ([c_kai_meet, c_sha, c_hou], (str ''417AC0000000086'')),
      ([c_kei, c_hou], (str ''140AC0000000045'')),
      ([c_min, 0x4E8B, 0x8A34, 0x8A1F, c_hou], (str ''109AC0000000109'')),
      ([c_kei, 0x4E8B, 0x8A34, 0x8A1F, c_hou], (str ''123AC0000000131'')),
      ([0x52B4, 0x50CD, 0x57FA, c_jun, c_hou], (str ''322AC0000000049'')),
      ([0x52B4, 0x50CD, 0x7D44, 0x5408, c_hou], (str ''324AC0000000174'')),
      ([0x52B4, 0x50CD, 0x95A2, 0x4FC2, 0x8ABF, 0x6574, c_hou], (str ''321AC0000000025'')),
      ([0x884C, 0x653F, 0x624B, 0x7D9A, c_hou], (str ''405AC0000000088'')),
      ([0x884C, 0x653F, 0x4E0D, 0x670D, 0x5BE9, 0x67FB, c_hou], (str ''439AC0000000068'')),
      ([0x884C, 0x653F, 0x4E8B, 0x4EF6, 0x8A34, 0x8A1F, c_hou], (str ''337AC0000000139'')),
      ([0x7279, 0x8A31, c_hou], (str ''334AC0000000121'')),
      ([0x8457, 0x4F5C, 0x6A29, c_hou], (str ''345AC0000000048'')),
      ([c_shou_com, 0x6A19, c_hou], (str ''334AC0000000127'')),
      ([0x6240, 0x5F97, 0x7A0E, c_hou], (str ''340AC0000000033'')),
      ([c_hou, 0x4EBA, 0x7A0E, c_hou], (str ''340AC0000000034'')),
      ([0x6D88, 0x8CBB, 0x7A0E, c_hou], (str ''363AC0000000108'')),
      ([0x7834, 0x7523, c_hou], (str ''416AC0000000075'')),
      ([0x500B, 0x4EBA, 0x60C5, 0x5831, 0x4FDD, 0x8B77, c_hou], (str ''415AC0000000057'')),
      ([0x72EC, 0x5360, 0x7981, 0x6B62, c_hou], (str ''322AC0000000054''))]"

definition lawTypePatterns_v34 :: "(jsstr \<times> regex) list" where
  "lawTypePatterns_v34 =
     [([0x653F, c_rei_order], (rseq [RGrp 1 (rseq [rplus (RCls True (rng_ws @ [(p_comma, p_comma), (p_stop, p_stop)])), ralt [RLit [0x65BD, 0x884C, c_rei_order], RLit [0x653F, c_rei_order]]]), ropt (rseq [RLit [c_dai], RGrp 2 (rplus (RCls False rng_kjd10000)), RLit [c_jou]])])),
      ([0x7701, c_rei_order], (rseq [RGrp 1 (rseq [rplus (RCls True (rng_ws @ [(p_comma, p_comma), (p_stop, p_stop)])), ralt [RLit [0x65BD, 0x884C, c_ki, c_soku], RLit [0x7701, c_rei_order], RLit [c_ki, c_soku]]]), ropt (rseq [RLit [c_dai], RGrp 2 (rplus (RCls False rng_kjd10000)), RLit [c_jou]])])),
      ([c_jou, 0x4F8B], (rseq [RGrp 1 (rseq [rplus (RCls True (rng_ws @ [(p_comma, p_comma), (p_stop, p_stop)])), RLit [c_jou, 0x4F8B]]), ropt (rseq [RLit [c_dai], RGrp 2 (rplus (RCls False rng_kjd10000)), RLit [c_jou]])])),
      ([c_ki, c_soku], (rseq [RGrp 1 (rseq [rplus (RCls True (rng_ws @ [(p_comma, p_comma), (p_stop, p_stop)])), RLit [c_ki, c_soku]]), ropt (rseq [RLit [c_dai], RGrp 2 (rplus (RCls False rng_kjd10000)), RLit [c_jou]])]))]"

text \<open>The pattern for the citation of one of the laws of a table, and the candidates of its matches.\<close>

definition citation_regex :: "jsstr list \<Rightarrow> regex" where
  "citation_regex names = rseq [RGrp 1 (ralt (map RLit names)),
     RGrp 2 ((rseq [RLit [c_dai], rplus (RCls False rng_kjd10000), RLit [c_jou]])),
     RRep (rseq [RLit [c_dai], RGrp 3 ((rplus (RCls False (rng_digit @ [(c_ichi, c_ichi), (c_ni, c_ni), (c_san, c_san), (c_yon, c_yon), (c_go, c_go), (c_roku, c_roku), (c_nana, c_nana), (c_hachi, c_hachi), (c_kyuu, c_kyuu), (c_juu, c_juu)])))), RLit [c_kou]]) 0 (Some 1) True]"

definition citations :: "(jsstr \<times> jsstr) list \<Rightarrow> jsstr \<Rightarrow> ReferenceCandidate list" where
  "citations table text =
     map (\<lambda>m. candidate m 10 External (m_text m) (m_text m) (map_of table (grp m 1)) (cap m 1) (cap m 2) (95/100)
       (if truthy (cap m 3) then Some [((str ''paragraph''), JStr ([c_dai] @ grp m 3 @ [c_kou]))] else None)) (exec_all (citation_regex (map fst table)) text)"

definition collectExternalCandidates_v34 :: "jsstr \<Rightarrow> ReferenceCandidate list" where
  "collectExternalCandidates_v34 = citations lawNameToId_v34"

definition law_type_candidate_v34 :: "jsstr \<Rightarrow> rmatch \<Rightarrow> ReferenceCandidate list" where
  "law_type_candidate_v34 typeName m =
     (if map_of lawNameToId_v34 (grp m 1) = None \<and> truthy (cap m 2)
      then [candidate m 9 External (m_text m) (m_text m) None (cap m 1) (Some ([c_dai] @ grp m 2 @ [c_jou])) (85/100) (Some [((str ''lawType''), JStr typeName)])]
      else [])"

definition collectLawTypeCandidates_v34 :: "jsstr \<Rightarrow> ReferenceCandidate list" where
  "collectLawTypeCandidates_v34 text =
     concat (map (\<lambda>(typeName, pattern). concat (map (law_type_candidate_v34 typeName) (exec_all pattern text))) lawTypePatterns_v34)"

definition collectAllCandidates_v34 :: "jsstr \<Rightarrow> jsstr option \<Rightarrow> ReferenceCandidate list" where
  "collectAllCandidates_v34 text currentArticle =
     collectExternalCandidates_v34 text @ collectLawTypeCandidates_v34 text @ collectRangeCandidates text @
     collectApplicationCandidates text @ collectParagraphCandidates text currentArticle @ collectMultipleCandidates text @
     collectInternalCandidates text @ collectRelativeCandidates text currentArticle"

definition detectReferences_v34 :: "jsstr \<Rightarrow> jsstr option \<Rightarrow> Reference list" where
  "detectReferences_v34 text currentArticle = normalizeReferences (resolveConflicts (collectAllCandidates_v34 text currentArticle))"

section \<open>Version 3.3\<close>

definition lawNameToId_v33 :: "(jsstr \<times> jsstr) list" where
  "lawNameToId_v33 =
     [([c_min, c_hou], (str ''129AC0000000089'')),
      ([c_shou_com, c_hou], (str ''132AC0000000048'')),
      ([c_kai_meet, c_sha, c_hou], (str ''417AC0000000086'')),
      ([c_kei, c_hou], (str ''140AC0000000045'')),
      ([0x52B4, 0x50CD, 0x57FA, c_jun, c_hou], (str ''322AC0000000049'')),
      ([c_min, 0x4E8B, 0x8A34, 0x8A1F, c_hou], (str ''109AC0000000109'')),
      ([c_kei, 0x4E8B, 0x8A34, 0x8A1F, c_hou], (str ''123AC0000000131'')),
      ([0x61B2, c_hou], (str ''321CONSTITUTION'')),
      ([0x884C, 0x653F, 0x624B, 0x7D9A, c_hou], (str ''405AC0000000088'')),
      ([0x7834, 0x7523, c_hou], (str ''416AC0000000075''))]"

text \<open>The names of the pattern are those of the table, in its order.\<close>

definition collectExternalCandidates_v33 :: "jsstr \<Rightarrow> ReferenceCandidate list" where
  "collectExternalCandidates_v33 = citations lawNameToId_v33"

text \<open>"The same article" is article 1.\<close>

definition collectParagraphCandidates_v33 :: "jsstr \<Rightarrow> jsstr option \<Rightarrow> ReferenceCandidate list" where
  "collectParagraphCandidates_v33 text currentArticle =
     map (\<lambda>m. candidate m 9 Internal (m_text m) (m_text m) None None (cap m 1) (95/100)
         (Some (field (str ''paragraph'') (cap m 2) @ field (str ''item'') (or_else (cap m 3) None))))
       (exec_all paragraph_regex text) @
     map (\<lambda>m. candidate m 9 Internal (m_text m) (m_text m) None None (Some [c_dai, c_ichi, c_jou]) (95/100)
         (Some (field (str ''paragraph'') (cap m 2) @ field (str ''item'') (or_else (cap m 3) None) @ [((str ''originalText''), JStr [c_dou, c_jou])])))
       (exec_all same_article_regex text)"

definition collectAllCandidates_v33 :: "jsstr \<Rightarrow> jsstr option \<Rightarrow> ReferenceCandidate list" where
  "collectAllCandidates_v33 text currentArticle =
     collectExternalCandidates_v33 text @ collectRangeCandidates text @ collectApplicationCandidates text @
     collectParagraphCandidates_v33 text currentArticle @ collectMultipleCandidates text @ collectInternalCandidates text @
     collectRelativeCandidates text currentArticle"

definition hasExternalRef :: "ReferenceCandidate list \<Rightarrow> ReferenceCandidate \<Rightarrow> bool" where
  "hasExternalRef candidates c \<longleftrightarrow>
     rf_type c = Internal \<and> rc_priority c \<le> 5 \<and>
     list_ex (\<lambda>other. rf_type other = External \<and> rc_startPos other \<le> rc_startPos c \<and> rc_endPos c \<le> rc_endPos other) candidates"

fun resolve_loop_v33 :: "ReferenceCandidate list \<Rightarrow> jsstr list \<Rightarrow> ReferenceCandidate list \<Rightarrow> ReferenceCandidate list" where
  "resolve_loop_v33 all processedKeys [] = []"
| "resolve_loop_v33 all processedKeys (c # cs) =
     (if isRangeMember c then c # resolve_loop_v33 all processedKeys cs
      else if candidate_key c \<in> set processedKeys then resolve_loop_v33 all processedKeys cs
      else if hasExternalRef all c then resolve_loop_v33 all (candidate_key c # processedKeys) cs
      else c # resolve_loop_v33 all (candidate_key c # processedKeys) cs)"

definition resolveConflicts_v33 :: "ReferenceCandidate list \<Rightarrow> ReferenceCandidate list" where
  "resolveConflicts_v33 candidates =
     (let sorted = sort_key (\<lambda>c. (rc_startPos c, - rc_priority c)) candidates in resolve_loop_v33 sorted [] sorted)"

definition detectReferences_v33 :: "jsstr \<Rightarrow> jsstr option \<Rightarrow> Reference list" where
  "detectReferences_v33 text currentArticle = normalizeReferences (resolveConflicts_v33 (collectAllCandidates_v33 text currentArticle))"

section \<open>Versions on the same text\<close>

text \<open>The characters in which the words for orders, rules, ordinances, notices and circulars end.\<close>

definition ordinance_words :: "jsstr list" where
  "ordinance_words = [[c_rei_order], [c_soku], [0x4F8B], [0x793A], [0x9054], [0x77E5], [0x767A]]"

definition without_ordinances :: "jsstr \<Rightarrow> bool" where
  "without_ordinances text \<longleftrightarrow> list_all (\<lambda>w. \<not> str_includes text w) ordinance_words"

lemma ordinance_patterns:
  "list_all (needs ordinance_words) (concat (map snd lawTypePatterns) @ concat (map snd lawTypePatterns_v35) @
     map fst generalPatterns @ map snd lawTypePatterns_v34)"
  by code_simp

lemma no_ordinance_match:
  assumes "without_ordinances text"
    and "r \<in> set (concat (map snd lawTypePatterns) @ concat (map snd lawTypePatterns_v35) @ map fst generalPatterns @ map snd lawTypePatterns_v34)"
  shows "exec_all r text = []"
proof (rule exec_all_needs)
  show "needs ordinance_words r" using ordinance_patterns assms(2) by (simp add: list_all_iff del: set_append set_concat)
  show "list_all (\<lambda>w. \<not> str_includes text w) ordinance_words" using assms(1) by (simp add: without_ordinances_def)
qed

lemma no_ordinances:
  assumes "without_ordinances text"
  shows "collectLawTypeCandidates text = []" "collectLawTypeCandidates_v35 text = []"
    "collectLawTypeCandidates_v34 text = []" "collectGeneralExpressionCandidates text = []"
proof -
  note no_match = no_ordinance_match [OF assms]
  show "collectLawTypeCandidates text = []" "collectLawTypeCandidates_v35 text = []"
    "collectLawTypeCandidates_v34 text = []" "collectGeneralExpressionCandidates text = []"
    unfolding collectLawTypeCandidates_def collectLawTypeCandidates_v35_def collectLawTypeCandidates_v34_def collectGeneralExpressionCandidates_def
    using no_match by (fastforce)+
qed

lemma no_parallel:
  assumes "without_ordinances text"
  shows "preprocessParallelReferences text = text"
proof -
  have keep: "replace_all r f text = text" if "needs ordinance_words r" for r f
    using exec_all_needs [OF that] assms by (simp add: replace_all_def without_ordinances_def)
  show ?thesis unfolding preprocessParallelReferences_def by (subst keep, code_simp)+ (rule refl)
qed

text \<open>The externals of a candidate list stand above the bare articles.\<close>

definition externals_high :: "ReferenceCandidate list \<Rightarrow> bool" where
  "externals_high cs \<longleftrightarrow> list_all (\<lambda>c. rf_type c = External \<longrightarrow> 5 < rc_priority c) cs"

lemma external_hides:
  "externals_high cs \<Longrightarrow> hasExternalRef cs c \<Longrightarrow> hasHigherPriority cs c"
  by (force simp: externals_high_def list_all_iff list_ex_iff hasExternalRef_def hasHigherPriority_def)

lemma resolve_loop_versions:
  "(\<And>c. hasExternalRef all c \<Longrightarrow> hasHigherPriority all c) \<Longrightarrow>
   resolve_loop all ks cs = filter (\<lambda>c. isRangeMember c \<or> \<not> hasHigherPriority all c) (resolve_loop_v33 all ks cs)"
  by (induction all ks cs rule: resolve_loop_v33.induct) auto

lemma multiple_internal: "list_all (\<lambda>c. rf_type c = Internal) (collectMultipleCandidates text)"
proof -
  have "list_all (\<lambda>c. rf_type c = Internal) (snd (foldl (multiple_step text) (ks, cs) ms))" if "list_all (\<lambda>c. rf_type c = Internal) cs" for ks cs ms
    using that
  proof (induction ms arbitrary: ks cs)
    case (Cons m ms)
    obtain m' i where m: "m = (m', i)" by force
    obtain ks' cs' where st: "multiple_step text (ks, cs) m = (ks', cs')" by force
    then have "list_all (\<lambda>c. rf_type c = Internal) cs'" using Cons.prems by (auto simp: m Let_def split: if_splits)
    with Cons.IH st show ?case by simp
  qed simp
  from this [of "[]" "[]"] show ?thesis by (simp add: collectMultipleCandidates_def)
qed

lemma externals_high_append: "externals_high (xs @ ys) \<longleftrightarrow> externals_high xs \<and> externals_high ys"
  by (simp add: externals_high_def)

lemma no_externals: "list_all (\<lambda>c. rf_type c \<noteq> External) cs \<Longrightarrow> externals_high cs"
  by (auto simp: externals_high_def list_all_iff)

lemma list_all_concat: "list_all P (concat xss) \<longleftrightarrow> list_all (list_all P) xss"
  by (induction xss) simp_all

lemma family_types:
  "list_all (\<lambda>c. rf_type c \<noteq> External) (range_candidates text m)"
  "list_all (\<lambda>c. rf_type c \<noteq> External) (collectApplicationCandidates text)"
  "list_all (\<lambda>c. rf_type c \<noteq> External) (collectParagraphCandidates_v33 text currentArticle)"
  "list_all (\<lambda>c. rf_type c \<noteq> External) (collectInternalCandidates text)"
  "list_all (\<lambda>c. rf_type c \<noteq> External) (collectRelativeCandidates text currentArticle)"
  unfolding range_candidates_def collectApplicationCandidates_def collectParagraphCandidates_v33_def collectInternalCandidates_def
    collectRelativeCandidates_def Let_def
  by (simp_all add: list_all_concat list.pred_map comp_def list.pred_True split: option.split)

lemma v33_externals_high: "externals_high (collectAllCandidates_v33 text currentArticle)"
proof -
  have "list_all (\<lambda>c. rf_type c \<noteq> External) (collectRangeCandidates text)"
    using family_types(1) [of "text"] unfolding collectRangeCandidates_def list_all_iff by simp
  moreover have "list_all (\<lambda>c. rf_type c \<noteq> External) (collectMultipleCandidates text)"
    using multiple_internal [of "text"] by (simp add: list_all_iff)
  moreover have "externals_high (collectExternalCandidates_v33 text)"
    by (simp add: collectExternalCandidates_v33_def citations_def externals_high_def list_all_iff)
  ultimately show ?thesis unfolding collectAllCandidates_v33_def externals_high_append by (simp add: no_externals family_types)
qed

section \<open>Properties\<close>

text \<open>C20: on a text without the final characters of the words for orders, rules, ordinances, notices and
  circulars, versions 3.5 and 3.7 give the same references.\<close>

theorem versions_agree:
  assumes "without_ordinances text"
  shows "detectReferences_v35 text currentArticle = detectReferences text currentArticle"
  unfolding detectReferences_v35_def detectReferences_def collectAllCandidates_v35_def collectAllCandidates_def Let_def
    no_parallel [OF assms] no_ordinances [OF assms] by simp

theorem versions_agree_witness:
  "detectReferences_v35 [c_min, c_hou, c_dai, c_go, c_jou, c_dai, c_ni, c_kou, c_oyo, h_bi, c_zen, c_jou] (Some [c_dai, c_san, c_jou]) = detectReferences [c_min, c_hou, c_dai, c_go, c_jou, c_dai, c_ni, c_kou, c_oyo, h_bi, c_zen, c_jou] (Some [c_dai, c_san, c_jou])"
proof -
  have "without_ordinances [c_min, c_hou, c_dai, c_go, c_jou, c_dai, c_ni, c_kou, c_oyo, h_bi, c_zen, c_jou]" by code_simp
  then show ?thesis by (rule versions_agree)
qed

text \<open>on the candidates of version 3.3 the rule of the later versions for conflicts keeps exactly the
  references that version 3.3 keeps, without the bare articles inside a reference of higher priority that is not
  external, in the same order.\<close>

theorem conflict_rules_compared:
  "resolveConflicts (collectAllCandidates_v33 text currentArticle) =
     filter (\<lambda>c. isRangeMember c \<or> \<not> hasHigherPriority (collectAllCandidates_v33 text currentArticle) c)
       (resolveConflicts_v33 (collectAllCandidates_v33 text currentArticle))"
proof -
  let ?cs = "collectAllCandidates_v33 text currentArticle"
  let ?s = "sort_key (\<lambda>c. (rc_startPos c, - rc_priority c)) ?cs"
  have high: "hasHigherPriority ?s = hasHigherPriority ?cs" by (auto simp: fun_eq_iff hasHigherPriority_def list_ex_iff)
  have "externals_high ?s" using v33_externals_high [of "text" currentArticle] by (simp add: externals_high_def list_all_iff)
  from resolve_loop_versions [OF external_hides [OF this], of "[]" ?s] show ?thesis
    by (simp add: resolveConflicts_def resolveConflicts_v33_def Let_def high)
qed

section \<open>Findings\<close>

text \<open>Version 3.3 reads "the same article" as article 1, whatever the current article.\<close>

lemma same_article_is_first:
  "map rf_targetArticle (detectReferences_v33 [c_dou, c_jou, c_dai, c_ni, c_kou] (Some [c_dai, c_nana, c_jou])) = [Some [c_dai, c_ichi, c_jou]]"
  by code_simp

text \<open>Version 3.4 names a rule both as a ministerial ordinance and as a rule; the second pass keeps one of the two.\<close>

lemma rule_found_twice:
  "map rf_metadata (collectLawTypeCandidates_v34 [c_shou_com, 0x6A19, c_ki, c_soku, c_dai, c_san, c_jou]) = [Some [((str ''lawType''), JStr [0x7701, c_rei_order])], Some [((str ''lawType''), JStr [c_ki, c_soku])]]"
  "map rf_metadata (detectReferences_v34 [c_shou_com, 0x6A19, c_ki, c_soku, c_dai, c_san, c_jou] None) = [Some [((str ''lawType''), JStr [0x7701, c_rei_order])]]"
  by code_simp+


end
