(* ===== verification/SinglePassDetector.thy ===== *)
theory SinglePassDetector
  imports EarlierDetectors
begin

text \<open>
  The detectors before the two passes: \<^verbatim>\<open>EnhancedReferenceDetectorV32.ts\<close> and \<^verbatim>\<open>V31.ts\<close>. They search one family of
  references after the other and remember, across the families of a call, the ranges and the positions they have
  processed; in the end references with the same type, article and law are merged. The numeral reader and the law
  table are word for word those of version 3.3.
\<close>

section \<open>State\<close>

record SinglePass =
  sd_processedRanges :: "jsstr list"
  sd_processedPositions :: "nat list"

abbreviation reference_to :: "ReferenceType \<Rightarrow> jsstr \<Rightarrow> jsstr \<Rightarrow> jsstr \<Rightarrow> rat \<Rightarrow> (jsstr \<times> json) list option \<Rightarrow> Reference" where
  "reference_to type source text article confidence metadata \<equiv>
     \<lparr>rf_type = type, rf_sourceText = source, rf_text = Some text, rf_targetLawId = None, rf_targetLaw = None,
      rf_targetArticleNumber = Some article, rf_targetArticle = Some article, rf_confidence = confidence, rf_metadata = metadata\<rparr>"

definition resolveRelativeReference_v32 :: "jsstr \<Rightarrow> jsstr option \<Rightarrow> jsstr option" where
  "resolveRelativeReference_v32 refType currentArticle =
     (if \<not> truthy currentArticle then None
      else if refType = [c_dou, c_jou] then currentArticle
      else let currentNum = kanjiToArabic (the currentArticle) in
        if currentNum = 0 then None
        else if refType \<noteq> [c_zen, c_jou] \<and> refType \<noteq> [c_ji, c_jou] then currentArticle
        else let targetNum = (if refType = [c_zen, c_jou] then currentNum - 1 else currentNum + 1)
             in if targetNum \<le> 0 then None else Some (arabicToKanjiArticle targetNum))"

section \<open>Families\<close>

definition external_regex_v32 :: regex where
  "external_regex_v32 = (rseq [ralt [RBol, RCls False (rng_ws @ [(p_comma, p_comma), (p_stop, p_stop), (p_lparen, p_lparen)])], RGrp 1 (ralt [RLit [c_min, c_hou], RLit [c_shou_com, c_hou], RLit [c_kai_meet, c_sha, c_hou], RLit [c_kei, c_hou], RLit [0x52B4, 0x50CD, 0x57FA, c_jun, c_hou], RLit [c_min, 0x4E8B, 0x8A34, 0x8A1F, c_hou], RLit [c_kei, 0x4E8B, 0x8A34, 0x8A1F, c_hou], RLit [0x61B2, c_hou], RLit [0x884C, 0x653F, 0x624B, 0x7D9A, c_hou], RLit [0x7834, 0x7523, c_hou]]), ropt (rseq [RLit [p_lparen], rplus (RCls True [(p_rparen, p_rparen)]), RLit [p_rparen]]), ropt (rseq [RLit [c_dai], RGrp 2 (rplus (RCls False rng_kjd10000)), RLit [c_jou], ropt (rseq [RLit [c_dai], RGrp 3 (rplus (RCls False (rng_digit @ [(c_ichi, c_ichi), (c_ni, c_ni), (c_san, c_san), (c_yon, c_yon), (c_go, c_go), (c_roku, c_roku), (c_nana, c_nana), (c_hachi, c_hachi), (c_kyuu, c_kyuu), (c_juu, c_juu)]))), RLit [c_kou]])])])"

text \<open>The reference made of a match with an article; without one there is none, whatever follows the name.\<close>

definition external_reference :: "jsstr \<Rightarrow> rmatch \<Rightarrow> Reference" where
  "external_reference source m =
     (let lawId = map_of lawNameToId_v33 (grp m 1); targetArticle = [c_dai] @ grp m 2 @ [c_jou]
      in \<lparr>rf_type = External, rf_sourceText = source, rf_text = Some source, rf_targetLawId = lawId, rf_targetLaw = cap m 1,
          rf_targetArticleNumber = Some targetArticle, rf_targetArticle = Some targetArticle,
          rf_confidence = (if truthy lawId then 95/100 else 8/10),
          rf_metadata = (if truthy (cap m 3) then Some [((str ''paragraph''), JStr ([c_dai] @ grp m 3 @ [c_kou]))] else None)\<rparr>)"

definition external_step :: "jsstr \<Rightarrow> Reference list \<times> SinglePass \<Rightarrow> rmatch \<Rightarrow> Reference list \<times> SinglePass" where
  "external_step text st m =
     (if \<not> truthy (cap m 2) \<and> rx_test (rseq [RBol, RCls False [(0x7684, 0x7684), (0x4E0A, 0x4E0A), (0x4E0B, 0x4E0B)]]) (substring text (m_end m) (min (length text) (m_end m + 5))) then st
      else if truthy (cap m 2)
      then (fst st @ [external_reference (trim (m_text m)) m],
            (snd st)\<lparr>sd_processedPositions := m_index m # sd_processedPositions (snd st)\<rparr>)
      else st)"

definition detectExternalReferences :: "jsstr \<Rightarrow> SinglePass \<Rightarrow> Reference list \<times> SinglePass" where
  "detectExternalReferences text v = foldl (external_step text) ([], v) (exec_all external_regex_v32 text)"

definition range_pattern :: regex where
  "range_pattern = (rseq [RLit [c_dai], RGrp 1 (rplus (RCls False rng_kjd10000)), RLit [c_jou, h_ka, h_ra, c_dai], RGrp 2 (rplus (RCls False rng_kjd10000)), RLit [c_jou, h_ma, h_de]])"

definition members :: "ReferenceType \<Rightarrow> jsstr \<Rightarrow> rat \<Rightarrow> (jsstr \<times> json) list \<Rightarrow> (jsstr \<times> json) list \<Rightarrow> rmatch \<Rightarrow> Reference list" where
  "members type rangeKey confidence before after m =
     (let startNum = kanjiToArabic ([c_dai] @ grp m 1 @ [c_jou]); endNum = kanjiToArabic ([c_dai] @ grp m 2 @ [c_jou])
      in if startNum \<le> 0 \<or> endNum \<le> 0 \<or> endNum < startNum \<or> 100 < endNum - startNum then []
         else map (\<lambda>i. reference_to type rangeKey rangeKey (arabicToKanjiArticle i) confidence
             (Some (before @ [((str ''rangeStart''), JStr (arabicToKanjiArticle startNum)), ((str ''rangeEnd''), JStr (arabicToKanjiArticle endNum))] @ after)))
           [startNum..endNum])"

definition range_step :: "Reference list \<times> SinglePass \<Rightarrow> rmatch \<Rightarrow> Reference list \<times> SinglePass" where
  "range_step st m =
     (if m_text m \<in> set (sd_processedRanges (snd st)) then st
      else (fst st @ members Range (m_text m) (9/10) [] [((str ''isRangeMember''), JBool True)] m,
            (snd st)\<lparr>sd_processedRanges := m_text m # sd_processedRanges (snd st)\<rparr>))"

definition detectRangeReferences :: "jsstr \<Rightarrow> SinglePass \<Rightarrow> Reference list \<times> SinglePass" where
  "detectRangeReferences text v = foldl range_step ([], v) (exec_all range_pattern text)"

definition complex_regex :: regex where
  "complex_regex = (rseq [RLit [c_dai], RGrp 1 (rplus (RCls False rng_kjd10000)), RLit [c_jou, c_dai], RGrp 2 (rplus (RCls False (rng_digit @ [(c_ichi, c_ichi), (c_ni, c_ni), (c_san, c_san), (c_yon, c_yon), (c_go, c_go), (c_roku, c_roku), (c_nana, c_nana), (c_hachi, c_hachi), (c_kyuu, c_kyuu), (c_juu, c_juu)]))), RLit [c_kou], ropt (rseq [RLit [c_dai], RGrp 3 (rplus (RCls False (rng_digit @ [(c_ichi, c_ichi), (c_ni, c_ni), (c_san, c_san), (c_yon, c_yon), (c_go, c_go), (c_roku, c_roku), (c_nana, c_nana), (c_hachi, c_hachi), (c_kyuu, c_kyuu), (c_juu, c_juu)]))), RLit [c_gou]]), ropt (RLit [0x30A4, h_ka, h_ra, 0x30DB, h_ma, h_de])])"

definition same_complex_regex :: regex where
  "same_complex_regex = (rseq [RLit [c_dou, c_jou, c_dai], RGrp 1 (rplus (RCls False (rng_digit @ [(c_ichi, c_ichi), (c_ni, c_ni), (c_san, c_san), (c_yon, c_yon), (c_go, c_go), (c_roku, c_roku), (c_nana, c_nana), (c_hachi, c_hachi), (c_kyuu, c_kyuu), (c_juu, c_juu)]))), RLit [c_kou], ropt (rseq [RLit [c_dai], RGrp 2 (rplus (RCls False (rng_digit @ [(c_ichi, c_ichi), (c_ni, c_ni), (c_san, c_san), (c_yon, c_yon), (c_go, c_go), (c_roku, c_roku), (c_nana, c_nana), (c_hachi, c_hachi), (c_kyuu, c_kyuu), (c_juu, c_juu)]))), RLit [c_gou]])])"

text \<open>The text of a numbered part, empty without a number.\<close>

definition part_text :: "rmatch \<Rightarrow> nat \<Rightarrow> jsstr \<Rightarrow> jsstr" where
  "part_text m k unit = (if truthy (cap m k) then [c_dai] @ grp m k @ unit else [])"

definition complex_step :: "Reference list \<times> SinglePass \<Rightarrow> rmatch \<Rightarrow> Reference list \<times> SinglePass" where
  "complex_step st m =
     (fst st @ [reference_to Internal (m_text m) (m_text m) ([c_dai] @ grp m 1 @ [c_jou]) (95/100)
        (Some [((str ''paragraph''), JStr (part_text m 2 [c_kou])), ((str ''item''), JStr (part_text m 3 [c_gou])), ((str ''isComplex''), JBool True)])],
      (snd st)\<lparr>sd_processedPositions := m_index m # sd_processedPositions (snd st)\<rparr>)"

definition same_complex_step :: "Reference list \<times> SinglePass \<Rightarrow> rmatch \<Rightarrow> Reference list \<times> SinglePass" where
  "same_complex_step st m =
     (if m_index m \<in> set (sd_processedPositions (snd st)) then st
      else (fst st @ [reference_to Internal (m_text m) (m_text m) [c_dai, c_ichi, c_jou] (95/100)
              (Some [((str ''paragraph''), JStr ([c_dai] @ grp m 1 @ [c_kou])), ((str ''item''), JStr (part_text m 2 [c_gou])), ((str ''originalText''), JStr [c_dou, c_jou]),
                 ((str ''isComplex''), JBool True)])],
            (snd st)\<lparr>sd_processedPositions := m_index m # sd_processedPositions (snd st)\<rparr>))"

definition detectParagraphReferences :: "jsstr \<Rightarrow> SinglePass \<Rightarrow> Reference list \<times> SinglePass" where
  "detectParagraphReferences text v =
     foldl same_complex_step (foldl complex_step ([], v) (exec_all complex_regex text)) (exec_all same_complex_regex text)"

definition application_patterns :: "regex list" where
  "application_patterns =
     [(rseq [RGrp 1 (rseq [RLit [c_dai], rplus (RCls False rng_kjd10000), RLit [c_jou, h_ka, h_ra, c_dai], rplus (RCls False rng_kjd10000), RLit [c_jou, h_ma, h_de]]), RLit [h_no, c_ki, c_tei], RCls False [(h_ha, h_ha), (h_wo, h_wo)], rstar (RCls True [(p_stop, p_stop)]), RLit [c_jun, c_you]]),
      (rseq [RGrp 1 (rseq [RLit [c_dai], rplus (RCls False rng_kjd10000), RLit [c_jou]]), ropt (rseq [RLit [c_dai], rplus (RCls False (rng_digit @ [(c_ichi, c_ichi), (c_ni, c_ni), (c_san, c_san), (c_yon, c_yon), (c_go, c_go), (c_roku, c_roku), (c_nana, c_nana), (c_hachi, c_hachi), (c_kyuu, c_kyuu), (c_juu, c_juu)])), RLit [c_kou]]), RLit [h_no, c_ki, c_tei], RCls False [(h_ha, h_ha), (h_wo, h_wo)], rstar (RCls True [(p_stop, p_stop)]), RLit [c_jun, c_you]])]"

definition application_step :: "ReferenceType \<Rightarrow> Reference list \<times> SinglePass \<Rightarrow> rmatch \<Rightarrow> Reference list \<times> SinglePass" where
  "application_step refType st m =
     (let articleRef = grp m 1
      in case rx_match range_pattern articleRef of
           Some rangeMatch \<Rightarrow>
             (fst st @ members refType (m_text rangeMatch) (85/100) [((str ''applicationType''), JStr [c_jun, c_you])] [] rangeMatch,
              (snd st)\<lparr>sd_processedRanges := m_text rangeMatch # sd_processedRanges (snd st)\<rparr>)
         | None \<Rightarrow>
             (fst st @ [reference_to Application (m_text m) articleRef articleRef (85/100) (Some [((str ''applicationType''), JStr [c_jun, c_you])])], snd st))"

definition detectApplicationReferences :: "jsstr \<Rightarrow> SinglePass \<Rightarrow> Reference list \<times> SinglePass" where
  "detectApplicationReferences text v =
     foldl (application_step (if str_includes text [c_jun, c_you, h_su, h_ru] then Application else Range)) ([], v)
       (concat (map (\<lambda>pattern. exec_all pattern text) application_patterns))"

definition multiple_patterns_v32 :: "(regex \<times> nat) list" where
  "multiple_patterns_v32 =
     [((rseq [RLit [c_dai], RGrp 1 (rplus (RCls False rng_kjd10000)), RLit [c_jou], ralt [RLit [c_oyo, h_bi], RLit [c_nara, h_bi, h_ni]], RLit [c_dai], RGrp 2 (rplus (RCls False rng_kjd10000)), RLit [c_jou]]), 2),
      ((rseq [RLit [c_dai], RGrp 1 (rplus (RCls False rng_kjd10000)), RLit [c_jou, p_comma, c_dai], RGrp 2 (rplus (RCls False rng_kjd10000)), RLit [c_jou], ralt [RLit [c_oyo, h_bi], RLit [c_nara, h_bi, h_ni]], RLit [c_dai], RGrp 3 (rplus (RCls False rng_kjd10000)), RLit [c_jou]]), 3),
      ((rseq [RLit [c_dai], RGrp 1 (rplus (RCls False rng_kjd10000)), RLit [c_jou, p_comma, c_dai], RGrp 2 (rplus (RCls False rng_kjd10000)), RLit [c_jou, p_comma, c_dai], RGrp 3 (rplus (RCls False rng_kjd10000)), RLit [c_jou], ralt [RLit [c_oyo, h_bi], RLit [c_nara, h_bi, h_ni]], RLit [c_dai], RGrp 4 (rplus (RCls False rng_kjd10000)), RLit [c_jou]]), 4)]"

definition detectMultipleReferences :: "jsstr \<Rightarrow> Reference list" where
  "detectMultipleReferences text =
     concat (map (\<lambda>(pattern, n). concat (map (\<lambda>m. concat (map (\<lambda>i.
         if truthy (cap m i) then let articleStr = [c_dai] @ grp m i @ [c_jou] in [reference_to Internal articleStr articleStr articleStr (9/10) None] else [])
       [1..<Suc n])) (exec_all pattern text))) multiple_patterns_v32)"

text \<open>The tests before and after a bare article, on the 20 characters before and the 10 after it.\<close>

definition before_text :: "jsstr \<Rightarrow> rmatch \<Rightarrow> jsstr" where
  "before_text text m = substring text (m_index m - 20) (m_index m)"

definition after_text :: "jsstr \<Rightarrow> rmatch \<Rightarrow> jsstr" where
  "after_text text m = substring text (m_end m) (min (length text) (m_end m + 10))"

definition part_of_other :: "jsstr \<Rightarrow> jsstr \<Rightarrow> bool" where
  "part_of_other beforeText afterText \<longleftrightarrow>
     rx_test (rseq [RBol, RLit [h_ka, h_ra]]) afterText \<or> rx_test (rseq [RLit [h_ka, h_ra], REol]) beforeText \<or> rx_test (rseq [RBol, RLit [h_ma, h_de]]) afterText \<or>
     rx_test (rseq [ralt [RLit [c_oyo, h_bi], RLit [c_nara, h_bi, h_ni]], rstar (RCls False rng_ws), REol]) beforeText \<or> rx_test (rseq [RBol, rstar (RCls False rng_ws), ralt [RLit [c_oyo, h_bi], RLit [c_nara, h_bi, h_ni]]]) afterText \<or>
     rx_test (rseq [RBol, RLit [c_dai], rplus (RCls False (rng_digit @ [(c_ichi, c_ichi), (c_ni, c_ni), (c_san, c_san), (c_yon, c_yon), (c_go, c_go), (c_roku, c_roku), (c_nana, c_nana), (c_hachi, c_hachi), (c_kyuu, c_kyuu), (c_juu, c_juu)])), RLit [c_kou]]) afterText"

definition internal_step :: "jsstr \<Rightarrow> Reference list \<times> nat list \<times> SinglePass \<Rightarrow> rmatch \<Rightarrow> Reference list \<times> nat list \<times> SinglePass" where
  "internal_step text st m =
     (case st of (refs, local, v) \<Rightarrow>
        if m_index m \<in> set (sd_processedPositions v) \<or> m_index m \<in> set local then st
        else if rx_test (rseq [RGrp 1 (ralt [RLit [c_min, c_hou], RLit [c_shou_com, c_hou], RLit [c_kai_meet, c_sha, c_hou], RLit [c_kei, c_hou], RLit [0x52B4, 0x50CD, 0x57FA, c_jun, c_hou], RLit [c_min, 0x4E8B, 0x8A34, 0x8A1F, c_hou], RLit [c_kei, 0x4E8B, 0x8A34, 0x8A1F, c_hou], RLit [0x61B2, c_hou], RLit [0x884C, 0x653F, 0x624B, 0x7D9A, c_hou], RLit [0x7834, 0x7523, c_hou]]), rstar (RCls False rng_ws), REol]) (before_text text m)
        then (refs, local, v\<lparr>sd_processedPositions := m_index m # sd_processedPositions v\<rparr>)
        else if part_of_other (before_text text m) (after_text text m) then st
        else (refs @ [reference_to Internal (m_text m) (m_text m) (m_text m) (9/10) None], m_index m # local,
              v\<lparr>sd_processedPositions := m_index m # sd_processedPositions v\<rparr>))"

definition detectInternalReferences :: "jsstr \<Rightarrow> SinglePass \<Rightarrow> Reference list \<times> SinglePass" where
  "detectInternalReferences text v =
     (case foldl (internal_step text) ([], [], v) (exec_all internal_regex text) of (refs, local, v') \<Rightarrow> (refs, v'))"

definition relative_patterns :: "(regex \<times> jsstr) list" where
  "relative_patterns = [((RLit [c_zen, c_jou]), [c_zen, c_jou]), ((RLit [c_ji, c_jou]), [c_ji, c_jou]), ((RLit [c_zen, c_kou]), [c_zen, c_kou]), ((RLit [c_ji, c_kou]), [c_ji, c_kou]), ((RLit [c_zen, c_gou]), [c_zen, c_gou]), ((RLit [c_ji, c_gou]), [c_ji, c_gou])]"

definition relative_reference :: "jsstr option \<Rightarrow> jsstr \<Rightarrow> rmatch \<Rightarrow> Reference" where
  "relative_reference currentArticle type m =
     (let resolved = resolveRelativeReference_v32 type currentArticle;
          metadata = Some (((str ''relativeType''), JStr type) # field (str ''currentArticle'') currentArticle)
      in if type = [c_zen, c_jou] \<or> type = [c_ji, c_jou]
         then \<lparr>rf_type = Relative, rf_sourceText = m_text m, rf_text = Some (m_text m), rf_targetLawId = None, rf_targetLaw = None,
                rf_targetArticleNumber = or_else resolved (Some type), rf_targetArticle = or_else resolved (Some type),
                rf_confidence = (if truthy resolved then 95/100 else 7/10), rf_metadata = metadata\<rparr>
         else \<lparr>rf_type = Relative, rf_sourceText = m_text m, rf_text = Some (m_text m), rf_targetLawId = None, rf_targetLaw = None,
                rf_targetArticleNumber = or_else currentArticle (Some type), rf_targetArticle = Some type,
                rf_confidence = 7/10, rf_metadata = metadata\<rparr>)"

definition detectRelativeReferences :: "jsstr \<Rightarrow> jsstr option \<Rightarrow> Reference list" where
  "detectRelativeReferences text currentArticle =
     concat (map (\<lambda>(pattern, type). map (relative_reference currentArticle type) (exec_all pattern text)) relative_patterns)"

section \<open>Merging\<close>

definition type_name :: "ReferenceType \<Rightarrow> jsstr" where
  "type_name t = (case t of Internal \<Rightarrow> (str ''internal'') | External \<Rightarrow> (str ''external'') | Relative \<Rightarrow> (str ''relative'') | Structural \<Rightarrow> (str ''structural'')
     | Range \<Rightarrow> (str ''range'') | Multiple \<Rightarrow> (str ''multiple'') | Application \<Rightarrow> (str ''application''))"

text \<open>An absent value prints as \<open>undefined\<close>.\<close>

definition reference_key :: "Reference \<Rightarrow> jsstr" where
  "reference_key ref = type_name (rf_type ref) @ (str '':'') @
     (case or_else (rf_targetArticleNumber ref) (rf_targetArticle ref) of None \<Rightarrow> (str ''undefined'') | Some a \<Rightarrow> a) @ (str '':'') @
     the (or_else (rf_targetLawId ref) (or_else (rf_targetLaw ref) (Some (str ''internal''))))"

definition merge_step :: "(jsstr, Reference) jsmap \<Rightarrow> Reference \<Rightarrow> (jsstr, Reference) jsmap" where
  "merge_step seen ref =
     (case map_of seen (reference_key ref) of
        None \<Rightarrow> AList.update (reference_key ref) ref seen
      | Some old \<Rightarrow> (if rf_confidence old < rf_confidence ref then AList.update (reference_key ref) ref seen else seen))"

definition removeDuplicates :: "Reference list \<Rightarrow> Reference list" where
  "removeDuplicates references = map snd (foldl merge_step [] references)"

definition unify_reference :: "Reference \<Rightarrow> Reference" where
  "unify_reference ref =
     (let ref1 = (if truthy (rf_targetArticleNumber ref) \<and> \<not> truthy (rf_targetArticle ref)
                  then ref\<lparr>rf_targetArticle := rf_targetArticleNumber ref\<rparr>
                  else if truthy (rf_targetArticle ref) \<and> \<not> truthy (rf_targetArticleNumber ref)
                  then ref\<lparr>rf_targetArticleNumber := rf_targetArticle ref\<rparr> else ref)
      in if \<not> truthy (rf_text ref1) \<and> rf_sourceText ref1 \<noteq> [] then ref1\<lparr>rf_text := Some (rf_sourceText ref1)\<rparr> else ref1)"

definition detectReferences_v32 :: "jsstr \<Rightarrow> jsstr option \<Rightarrow> SinglePass \<Rightarrow> Reference list \<times> SinglePass" where
  "detectReferences_v32 text currentArticle v =
     (let v0 = v\<lparr>sd_processedRanges := [], sd_processedPositions := []\<rparr>;
          (applications, v1) = detectApplicationReferences text v0;
          (externals, v2) = detectExternalReferences text v1;
          multiples = detectMultipleReferences text;
          (paragraphs, v3) = detectParagraphReferences text v2;
          (ranges, v4) = detectRangeReferences text v3;
          (internals, v5) = detectInternalReferences text v4;
          relatives = detectRelativeReferences text currentArticle
      in (map unify_reference (removeDuplicates (applications @ externals @ multiples @ paragraphs @ ranges @ internals @ relatives)), v5))"

section \<open>Version 3.1\<close>

text \<open>Ranges, pairs, relative references, merging and unification are those of version 3.2; the set of positions is local to
  the search for bare articles.\<close>

definition external_regex_v31 :: regex where
  "external_regex_v31 = (rseq [RGrp 1 (rseq [rplus (RCls True (rng_ws @ [(p_comma, p_comma), (p_stop, p_stop), (p_lparen, p_lparen), (p_rparen, p_rparen)])), RLit [c_hou]]), ropt (rseq [RLit [p_lparen], rplus (RCls True [(p_rparen, p_rparen)]), RLit [p_rparen]]), ropt (rseq [RLit [c_dai], RGrp 2 (rplus (RCls False rng_kjd10000)), RLit [c_jou], ropt (rseq [RLit [c_dai], RGrp 3 (rplus (RCls False (rng_digit @ [(c_ichi, c_ichi), (c_ni, c_ni), (c_san, c_san), (c_yon, c_yon), (c_go, c_go), (c_roku, c_roku), (c_nana, c_nana), (c_hachi, c_hachi), (c_kyuu, c_kyuu), (c_juu, c_juu)]))), RLit [c_kou]])])])"

definition detectExternalReferences_v31 :: "jsstr \<Rightarrow> Reference list" where
  "detectExternalReferences_v31 text =
     concat (map (\<lambda>m. if rx_test (rseq [RLit [c_hou], rstar (RCls False rng_ws), REol]) (substring text (m_index m - 10) (m_index m)) then []
         else if truthy (cap m 2) then [external_reference (m_text m) m] else [])
       (exec_all external_regex_v31 text))"

definition article_paragraph_regex :: regex where
  "article_paragraph_regex = (rseq [RLit [c_dai], RGrp 1 (rplus (RCls False rng_kjd10000)), RLit [c_jou, c_dai], RGrp 2 (rplus (RCls False (rng_digit @ [(c_ichi, c_ichi), (c_ni, c_ni), (c_san, c_san), (c_yon, c_yon), (c_go, c_go), (c_roku, c_roku), (c_nana, c_nana), (c_hachi, c_hachi), (c_kyuu, c_kyuu), (c_juu, c_juu)]))), RLit [c_kou], ropt (rseq [RLit [c_dai], RGrp 3 (rplus (RCls False (rng_digit @ [(c_ichi, c_ichi), (c_ni, c_ni), (c_san, c_san), (c_yon, c_yon), (c_go, c_go), (c_roku, c_roku), (c_nana, c_nana), (c_hachi, c_hachi), (c_kyuu, c_kyuu), (c_juu, c_juu)]))), RLit [c_gou]])])"

definition detectParagraphReferences_v31 :: "jsstr \<Rightarrow> jsstr option \<Rightarrow> Reference list" where
  "detectParagraphReferences_v31 text currentArticle =
     map (\<lambda>m. reference_to Internal (m_text m) (m_text m) ([c_dai] @ grp m 1 @ [c_jou]) (95/100)
         (Some (((str ''paragraph''), JStr ([c_dai] @ grp m 2 @ [c_kou])) # field (str ''item'') (or_else (Some (part_text m 3 [c_gou])) None))))
       (exec_all article_paragraph_regex text) @
     map (\<lambda>m. reference_to Internal (m_text m) (m_text m) (the (or_else currentArticle (Some [c_dou, c_jou]))) (if truthy currentArticle then 95/100 else 7/10)
         (Some (((str ''paragraph''), JStr ([c_dai] @ grp m 1 @ [c_kou])) # field (str ''item'') (or_else (Some (part_text m 2 [c_gou])) None) @ [((str ''originalText''), JStr [c_dou, c_jou])])))
       (exec_all same_complex_regex text)"

definition detectApplicationReferences_v31 :: "jsstr \<Rightarrow> SinglePass \<Rightarrow> Reference list \<times> SinglePass" where
  "detectApplicationReferences_v31 text v =
     foldl (application_step Application) ([], v) (concat (map (\<lambda>pattern. exec_all pattern text) application_patterns))"

definition part_of_other_v31 :: "jsstr \<Rightarrow> jsstr \<Rightarrow> bool" where
  "part_of_other_v31 beforeText afterText \<longleftrightarrow>
     rx_test (rseq [rplus (RCls True (rng_ws @ [(p_comma, p_comma), (p_stop, p_stop)])), RLit [c_hou], rstar (RCls False rng_ws), REol]) beforeText \<or> rx_test (rseq [RBol, RLit [h_ka, h_ra]]) afterText \<or> rx_test (rseq [RLit [h_ka, h_ra], REol]) beforeText \<or> rx_test (rseq [RBol, RLit [h_ma, h_de]]) afterText \<or>
     rx_test (rseq [ralt [RLit [c_oyo, h_bi], RLit [c_nara, h_bi, h_ni]], rstar (RCls False rng_ws), REol]) beforeText \<or> rx_test (rseq [RBol, rstar (RCls False rng_ws), ralt [RLit [c_oyo, h_bi], RLit [c_nara, h_bi, h_ni]]]) afterText"

definition internal_step_v31 :: "jsstr \<Rightarrow> Reference list \<times> nat list \<Rightarrow> rmatch \<Rightarrow> Reference list \<times> nat list" where
  "internal_step_v31 text st m =
     (if m_index m \<in> set (snd st) \<or> part_of_other_v31 (before_text text m) (after_text text m) then st
      else (fst st @ [reference_to Internal (m_text m) (m_text m) (m_text m) (9/10) None], m_index m # snd st))"

definition detectInternalReferences_v31 :: "jsstr \<Rightarrow> Reference list" where
  "detectInternalReferences_v31 text = fst (foldl (internal_step_v31 text) ([], []) (exec_all internal_regex text))"

definition detectReferences_v31 :: "jsstr \<Rightarrow> jsstr option \<Rightarrow> SinglePass \<Rightarrow> Reference list \<times> SinglePass" where
  "detectReferences_v31 text currentArticle v =
     (let (applications, v1) = detectApplicationReferences_v31 text (v\<lparr>sd_processedRanges := []\<rparr>);
          (ranges, v2) = detectRangeReferences text v1
      in (map unify_reference (removeDuplicates (applications @ detectExternalReferences_v31 text @ detectMultipleReferences text @
            detectParagraphReferences_v31 text currentArticle @ ranges @ detectInternalReferences_v31 text @
            detectRelativeReferences text currentArticle)), v2))"

section \<open>Merging\<close>

lemma merge_cases:
  "map_of m (reference_key r) = None \<Longrightarrow> merge_step m r = AList.update (reference_key r) r m"
  "map_of m (reference_key r) = Some old \<Longrightarrow> rf_confidence old < rf_confidence r \<Longrightarrow> merge_step m r = AList.update (reference_key r) r m"
  "map_of m (reference_key r) = Some old \<Longrightarrow> \<not> rf_confidence old < rf_confidence r \<Longrightarrow> merge_step m r = m"
  by (simp_all add: merge_step_def)

lemma merged_fst: "map fst (foldl merge_step [] rs) = map reference_key (first_by reference_key [] rs)"
proof (induction rs rule: rev_induct)
  case (snoc r rs)
  let ?m = "foldl merge_step [] rs"
  have keys: "fst ` set ?m = reference_key ` set rs"
    using arg_cong [OF snoc, of set] first_by_keys [of reference_key "[]" rs] by simp
  have split: "first_by reference_key [] (rs @ [r]) = first_by reference_key [] rs @ (if reference_key r \<in> reference_key ` set rs then [] else [r])"
    by (simp add: first_by_append)
  show ?case
  proof (cases "map_of ?m (reference_key r)")
    case None
    then have new: "reference_key r \<notin> fst ` set ?m" by (simp add: map_of_eq_None_iff)
    then show ?thesis using snoc split keys by (simp add: merge_cases(1) [OF None] alist_update_new)
  next
    case (Some old)
    then have "reference_key r \<in> fst ` set ?m" by (metis fst_set_map_of option.distinct(1))
    then have "map fst (merge_step ?m r) = map fst ?m"
      by (cases "rf_confidence old < rf_confidence r") (simp_all add: merge_cases(2,3) [OF Some] update_keys)
    then show ?thesis using snoc keys split \<open>reference_key r \<in> fst ` set ?m\<close> by simp
  qed
qed simp

lemma merged_distinct: "distinct (map fst (foldl merge_step [] rs))"
  unfolding merged_fst using first_by_keys [of reference_key "[]" rs] by simp

lemma merged_entry: "(k, r) \<in> set (foldl merge_step [] rs) \<longleftrightarrow> map_of (foldl merge_step [] rs) k = Some r"
  using map_of_eq_Some_iff [OF merged_distinct, of rs k r] by simp

text \<open>The entry of a key is the first of the references with that key that has the greatest confidence.\<close>

lemma merged_best:
  "map_of (foldl merge_step [] rs) k = Some r \<Longrightarrow>
   r \<in> set rs \<and> reference_key r = k \<and> (\<forall>r' \<in> set rs. reference_key r' = k \<longrightarrow> rf_confidence r' \<le> rf_confidence r)"
proof (induction rs arbitrary: k r rule: rev_induct)
  case (snoc x rs)
  let ?m = "foldl merge_step [] rs"
  have none: "k \<notin> reference_key ` set rs" if "map_of ?m k = None" for k
  proof -
    have "k \<notin> set (map fst ?m)" using that by (simp add: map_of_eq_None_iff)
    then show ?thesis unfolding merged_fst using first_by_keys [of reference_key "[]" rs] by simp
  qed
  show ?case
  proof (cases "map_of ?m (reference_key x)")
    case None
    with snoc.prems have "map_of ?m k = Some r \<and> k \<noteq> reference_key x \<or> k = reference_key x \<and> r = x"
      by (auto simp: merge_cases(1) [OF None] update_conv' split: if_splits)
    then show ?thesis using snoc.IH [of k r] none [OF None] by (auto simp: image_iff)
  next
    case (Some old)
    with snoc.prems consider "map_of ?m k = Some r" "k \<noteq> reference_key x" | "k = reference_key x" "r = x" "rf_confidence old < rf_confidence x"
      | "k = reference_key x" "r = old" "\<not> rf_confidence old < rf_confidence x"
      by (cases "rf_confidence old < rf_confidence x"; cases "k = reference_key x") (auto simp: merge_cases(2,3) [OF Some] update_conv' split: if_splits)
    then show ?thesis using snoc.IH [of k r] snoc.IH [OF Some] by cases auto
  qed
qed simp

lemma unify_key: "reference_key (unify_reference r) = reference_key r"
  by (auto simp: reference_key_def unify_reference_def Let_def or_else_def)

lemma merged_key: "r \<in> set (removeDuplicates rs) \<Longrightarrow> map_of (foldl merge_step [] rs) (reference_key r) = Some r"
  using merged_best by (auto simp: removeDuplicates_def merged_entry)

lemma merged_keys: "map reference_key (removeDuplicates rs) = map reference_key (first_by reference_key [] rs)"
proof -
  have "map reference_key (removeDuplicates rs) = map fst (foldl merge_step [] rs)"
    using merged_best by (auto simp: removeDuplicates_def merged_entry)
  then show ?thesis by (simp only: merged_fst)
qed

text \<open>What the families find, in the order of the search.\<close>

definition found_v32 :: "jsstr \<Rightarrow> jsstr option \<Rightarrow> Reference list" where
  "found_v32 text currentArticle =
     (let (applications, v1) = detectApplicationReferences text \<lparr>sd_processedRanges = [], sd_processedPositions = []\<rparr>;
          (externals, v2) = detectExternalReferences text v1;
          (paragraphs, v3) = detectParagraphReferences text v2;
          (ranges, v4) = detectRangeReferences text v3
      in applications @ externals @ detectMultipleReferences text @ paragraphs @ ranges @ fst (detectInternalReferences text v4) @
         detectRelativeReferences text currentArticle)"

lemma v32_found: "fst (detectReferences_v32 text currentArticle v) = map unify_reference (removeDuplicates (found_v32 text currentArticle))"
  by (cases v) (simp add: detectReferences_v32_def found_v32_def Let_def split_beta)

section \<open>Properties\<close>

text \<open>the result of a call does not depend on the calls before; it has, for each type, article and law that
  is found, exactly one reference, in the order in which they are first found, and this reference is one of those found
  with the greatest confidence.\<close>

theorem single_pass_merging:
  "fst (detectReferences_v32 text currentArticle v) = fst (detectReferences_v32 text currentArticle v') \<and>
   map reference_key (fst (detectReferences_v32 text currentArticle v)) =
     map reference_key (first_by reference_key [] (found_v32 text currentArticle)) \<and>
   distinct (map reference_key (fst (detectReferences_v32 text currentArticle v))) \<and>
   list_all (\<lambda>r. list_ex (\<lambda>r0. r = unify_reference r0 \<and>
       list_all (\<lambda>r'. if reference_key r' = reference_key r0 then rf_confidence r' \<le> rf_confidence r0 else True) (found_v32 text currentArticle))
     (found_v32 text currentArticle)) (fst (detectReferences_v32 text currentArticle v))"
proof (intro conjI)
  let ?f = "found_v32 text currentArticle"
  show "fst (detectReferences_v32 text currentArticle v) = fst (detectReferences_v32 text currentArticle v')" by (simp add: v32_found)
  show keys: "map reference_key (fst (detectReferences_v32 text currentArticle v)) = map reference_key (first_by reference_key [] ?f)"
    by (simp add: v32_found comp_def unify_key flip: merged_keys)
  show "distinct (map reference_key (fst (detectReferences_v32 text currentArticle v)))"
    unfolding keys using first_by_keys [of reference_key "[]" ?f] by simp
  show "list_all (\<lambda>r. list_ex (\<lambda>r0. r = unify_reference r0 \<and>
      list_all (\<lambda>r'. if reference_key r' = reference_key r0 then rf_confidence r' \<le> rf_confidence r0 else True) ?f) ?f)
     (fst (detectReferences_v32 text currentArticle v))"
    unfolding v32_found list_all_iff list_ex_iff using merged_best [OF merged_key] by fastforce
qed

section \<open>Findings\<close>

text \<open>The text of an external reference begins with the character before the name of the law.\<close>

lemma delimiter_in_text:
  "map rf_sourceText (fst (detectReferences_v32 [c_mata, h_ha, p_comma, c_min, c_hou, c_dai, c_go, c_jou] None v)) = [[p_comma, c_min, c_hou, c_dai, c_go, c_jou]]"
  by (simp add: v32_found) code_simp

text \<open>A law after a particle is not found in version 3.2, and its article is not reported as internal either.\<close>

lemma law_after_particle_lost: "fst (detectReferences_v32 [c_mata, h_ha, c_min, c_hou, c_dai, c_go, c_jou] None v) = []"
  by (simp add: v32_found) code_simp

text \<open>In version 3.1 the name of an external law takes in the words before it, and the law is not known.\<close>

lemma name_takes_words:
  "map (\<lambda>r. (rf_targetLaw r, rf_targetLawId r)) (fst (detectReferences_v31 [c_mata, h_ha, c_min, c_hou, c_dai, c_go, c_jou] None \<lparr>sd_processedRanges = [], sd_processedPositions = []\<rparr>)) =
     [(Some [c_mata, h_ha, c_min, c_hou], None)]"
  by code_simp


end
