(* ===== verification/FirstDetector.thy ===== *)
theory FirstDetector
  imports SinglePassDetector
begin

text \<open>
  \<^verbatim>\<open>EnhancedReferenceDetector.ts\<close>, version 3.0: the first detector of the line. It keeps no state; its numerals, ranges and
  the removal of duplicates are its own, the patterns for external laws, ranges and bare articles are those of
  version 3.1.
\<close>

section \<open>References and numerals\<close>

record FirstReference =
  ff_type :: ReferenceType
  ff_sourceText :: jsstr
  ff_targetLawId :: "jsstr option"
  ff_targetLawName :: "jsstr option"
  ff_targetArticleNumber :: jsstr
  ff_confidence :: rat
  ff_metadata :: "(jsstr \<times> json) list option"

abbreviation first_reference :: "ReferenceType \<Rightarrow> jsstr \<Rightarrow> jsstr \<Rightarrow> rat \<Rightarrow> (jsstr \<times> json) list option \<Rightarrow> FirstReference" where
  "first_reference type source article confidence metadata \<equiv>
     \<lparr>ff_type = type, ff_sourceText = source, ff_targetLawId = None, ff_targetLawName = None, ff_targetArticleNumber = article,
      ff_confidence = confidence, ff_metadata = metadata\<rparr>"

definition kanjiToNumber_v30 :: "(jschar \<times> int) list" where
  "kanjiToNumber_v30 =
     [(c_ichi, 1), (c_ni, 2), (c_san, 3), (c_yon, 4), (c_go, 5), (c_roku, 6), (c_nana, 7), (c_hachi, 8),
      (c_kyuu, 9), (c_juu, 10), (c_hyaku, 100), (c_sen, 1000), (c_man, 10000)]"

text \<open>The state is \<open>result\<close>, \<open>tempNum\<close> and \<open>lastMultiplier\<close>.\<close>

definition compound_step :: "int \<times> int \<times> int \<Rightarrow> jschar \<Rightarrow> int \<times> int \<times> int" where
  "compound_step st c =
     (case st of (result, tempNum, lastMultiplier) \<Rightarrow>
        case map_of kanjiToNumber_v30 c of
          None \<Rightarrow> st
        | Some value \<Rightarrow>
            if 10 \<le> value
            then let temp = (if tempNum = 0 then 1 else tempNum)
                 in if value = 10000 then (result + temp * value, 0, value) else (result, temp * value, value)
            else if 10 \<le> lastMultiplier then (result + tempNum, value, 1)
            else (result, tempNum * 10 + value, lastMultiplier))"

definition simple_step :: "int \<Rightarrow> jschar \<Rightarrow> int" where
  "simple_step result c =
     (case map_of kanjiToNumber_v30 c of None \<Rightarrow> result | Some value \<Rightarrow> (if value < 10 then result * 10 + value else result))"

definition kanjiToArabic_v30 :: "jsstr \<Rightarrow> int" where
  "kanjiToArabic_v30 kanjiStr =
     (let cleaned = filter (\<lambda>c. c \<noteq> c_dai \<and> c \<noteq> c_jou) kanjiStr
      in if c_sen \<in> set cleaned \<or> c_hyaku \<in> set cleaned \<or> c_juu \<in> set cleaned
         then case foldl compound_step (0, 0, 1) cleaned of (result, tempNum, _) \<Rightarrow> result + tempNum
         else foldl simple_step 0 cleaned)"

text \<open>\<open>kanjiDigits[d]\<close> in a template; an index outside the array prints \<open>undefined\<close>.\<close>

definition digit_text :: "int \<Rightarrow> jsstr" where
  "digit_text d = (if d = 0 then [] else if 0 < d \<and> d < 10 then kanji_digit_of d else (str ''undefined''))"

definition scaled :: "int \<Rightarrow> jschar \<Rightarrow> jsstr" where
  "scaled d sign = (if d = 1 then [sign] else digit_text d @ [sign])"

definition arabicToKanjiArticle_v30 :: "int \<Rightarrow> jsstr" where
  "arabicToKanjiArticle_v30 num =
     (if num < 10 then [c_dai] @ digit_text num @ [c_jou]
      else if num = 10 then [c_dai, c_juu, c_jou]
      else if num < 20 then [c_dai, c_juu] @ digit_text (num - 10) @ [c_jou]
      else if num < 100 then [c_dai] @ digit_text (num div 10) @ [c_juu] @ (if 0 < num mod 10 then digit_text (num mod 10) else []) @ [c_jou]
      else if num < 1000
      then let remainder = num mod 100; tens = remainder div 10; ones = remainder mod 10
           in [c_dai] @ digit_text (num div 100) @ [c_hyaku] @
              (if 0 < remainder then (if 0 < tens then scaled tens c_juu else []) @ (if 0 < ones then digit_text ones else []) else []) @ [c_jou]
      else let remainder = num mod 1000; hundreds = remainder div 100; tens = remainder mod 100 div 10; ones = remainder mod 10
           in [c_dai] @ scaled (num div 1000) c_sen @
              (if 0 < remainder then (if 0 < hundreds then scaled hundreds c_hyaku else []) @ (if 0 < tens then scaled tens c_juu else []) @
                 (if 0 < ones then digit_text ones else []) else []) @ [c_jou])"

definition resolveRelativeReference_v30 :: "jsstr \<Rightarrow> jsstr option \<Rightarrow> jsstr option" where
  "resolveRelativeReference_v30 refType currentArticle =
     (if \<not> truthy currentArticle then None
      else let currentNum = kanjiToArabic_v30 (the currentArticle) in
        if currentNum = 0 then None
        else if refType = [c_zen, c_jou] \<or> refType = [c_ji, c_jou]
        then let targetNum = (if refType = [c_zen, c_jou] then currentNum - 1 else currentNum + 1)
             in if targetNum \<le> 0 then None else Some (arabicToKanjiArticle_v30 targetNum)
        else if refType \<in> set [[c_zen, c_kou], [c_ji, c_kou], [c_dou, c_jou]] then currentArticle else None)"

section \<open>Families\<close>

definition detectExternalReferences_v30 :: "jsstr \<Rightarrow> FirstReference list" where
  "detectExternalReferences_v30 text =
     concat (map (\<lambda>m. let lawId = map_of lawNameToId_v33 (grp m 1) in
         if truthy (cap m 2) then [\<lparr>ff_type = External, ff_sourceText = m_text m, ff_targetLawId = lawId, ff_targetLawName = cap m 1,
           ff_targetArticleNumber = [c_dai] @ grp m 2 @ [c_jou], ff_confidence = (if truthy lawId then 95/100 else 8/10),
           ff_metadata = (if truthy (cap m 3) then Some [((str ''paragraph''), JStr ([c_dai] @ grp m 3 @ [c_kou]))] else None)\<rparr>] else [])
       (exec_all external_regex_v31 text))"

text \<open>The articles of the loop \<open>for (let i = startNum; i <= endNum && i <= startNum + 100; i++)\<close>.\<close>

definition range_articles :: "int \<Rightarrow> int \<Rightarrow> int list" where
  "range_articles startNum endNum = [startNum..min endNum (startNum + 100)]"

definition detectRangeReferences_v30 :: "jsstr \<Rightarrow> FirstReference list" where
  "detectRangeReferences_v30 text =
     concat (map (\<lambda>m. let startNum = kanjiToArabic_v30 ([c_dai] @ grp m 1 @ [c_jou]); endNum = kanjiToArabic_v30 ([c_dai] @ grp m 2 @ [c_jou]) in
         map (\<lambda>i. first_reference Range (m_text m) (arabicToKanjiArticle_v30 i) (9/10)
             (Some [((str ''rangeStart''), JStr (arabicToKanjiArticle_v30 startNum)), ((str ''rangeEnd''), JStr (arabicToKanjiArticle_v30 endNum))]))
           (range_articles startNum endNum))
       (exec_all range_pattern text))"

definition detectMultipleReferences_v30 :: "jsstr \<Rightarrow> FirstReference list" where
  "detectMultipleReferences_v30 text =
     concat (map (\<lambda>(pattern, n). concat (map (\<lambda>m. concat (map (\<lambda>i.
         if truthy (cap m i) then let articleStr = [c_dai] @ grp m i @ [c_jou] in [first_reference Internal articleStr articleStr (9/10) None] else [])
       [1..<Suc n])) (exec_all pattern text))) (take 2 multiple_patterns_v32))"

definition article_paragraph_v30 :: regex where
  "article_paragraph_v30 = (rseq [RLit [c_dai], RGrp 1 (rplus (RCls False rng_kjd10000)), RLit [c_jou, c_dai], RGrp 2 (rplus (RCls False (rng_digit @ [(c_ichi, c_ichi), (c_ni, c_ni), (c_san, c_san), (c_yon, c_yon), (c_go, c_go), (c_roku, c_roku), (c_nana, c_nana), (c_hachi, c_hachi), (c_kyuu, c_kyuu), (c_juu, c_juu)]))), RLit [c_kou]])"

definition detectParagraphReferences_v30 :: "jsstr \<Rightarrow> FirstReference list" where
  "detectParagraphReferences_v30 text =
     map (\<lambda>m. first_reference Internal (m_text m) ([c_dai] @ grp m 1 @ [c_jou]) (95/100) (Some [((str ''paragraph''), JStr ([c_dai] @ grp m 2 @ [c_kou]))]))
       (exec_all article_paragraph_v30 text) @
     map (\<lambda>m. first_reference Internal (m_text m) [c_dou, c_jou] (85/100)
         (Some (((str ''paragraph''), JStr ([c_dai] @ grp m 1 @ [c_kou])) # field (str ''item'') (or_else (Some (part_text m 2 [c_gou])) None))))
       (exec_all same_complex_regex text)"

definition detectInternalReferences_v30 :: "jsstr \<Rightarrow> FirstReference list" where
  "detectInternalReferences_v30 text =
     concat (map (\<lambda>m. if rx_test (rseq [rplus (RCls True (rng_ws @ [(p_comma, p_comma), (p_stop, p_stop)])), RLit [c_hou], rstar (RCls False rng_ws), REol]) (before_text text m) then []
         else [first_reference Internal (m_text m) (m_text m) (9/10) None]) (exec_all internal_regex text))"

definition relative_patterns_v30 :: "(regex \<times> jsstr) list" where
  "relative_patterns_v30 = [((RLit [c_zen, c_jou]), [c_zen, c_jou]), ((RLit [c_ji, c_jou]), [c_ji, c_jou]), ((RLit [c_zen, c_kou]), [c_zen, c_kou]), ((RLit [c_ji, c_kou]), [c_ji, c_kou]), ((RLit [c_dou, c_jou]), [c_dou, c_jou])]"

definition detectRelativeReferences_v30 :: "jsstr \<Rightarrow> jsstr option \<Rightarrow> FirstReference list" where
  "detectRelativeReferences_v30 text currentArticle =
     concat (map (\<lambda>(pattern, type). map (\<lambda>m. let resolved = resolveRelativeReference_v30 type currentArticle in
         first_reference Relative (m_text m) (the (or_else resolved (Some type))) (if truthy resolved then 95/100 else 7/10)
           (Some (((str ''relativeType''), JStr type) # field (str ''currentArticle'') currentArticle)))
       (exec_all pattern text)) relative_patterns_v30)"

definition application_regex_v30 :: regex where
  "application_regex_v30 = (rseq [RGrp 1 (rseq [RLit [c_dai], rplus (RCls False rng_kjd10000), RLit [c_jou], ropt (rseq [RLit [h_ka, h_ra, c_dai], rplus (RCls False rng_kjd10000), RLit [c_jou, h_ma, h_de]])]), rstar (RCls True [(p_stop, p_stop)]), RLit [c_jun, c_you]])"

definition detectApplicationReferences_v30 :: "jsstr \<Rightarrow> FirstReference list" where
  "detectApplicationReferences_v30 text =
     concat (map (\<lambda>m. map (\<lambda>article. first_reference Application (m_text m) article (85/100) (Some [((str ''applicationType''), JStr [c_jun, c_you])]))
         (case rx_match range_pattern (grp m 1) of
            None \<Rightarrow> [grp m 1]
          | Some r \<Rightarrow> map arabicToKanjiArticle_v30
              (range_articles (kanjiToArabic_v30 ([c_dai] @ grp r 1 @ [c_jou])) (kanjiToArabic_v30 ([c_dai] @ grp r 2 @ [c_jou])))))
       (exec_all application_regex_v30 text))"

definition first_key :: "FirstReference \<Rightarrow> jsstr" where
  "first_key ref = type_name (ff_type ref) @ (str '':'') @ ff_targetArticleNumber ref @ (str '':'') @ the (or_else (ff_targetLawId ref) (Some (str ''internal'')))"

definition removeDuplicates_v30 :: "FirstReference list \<Rightarrow> FirstReference list" where
  "removeDuplicates_v30 references = first_by first_key [] references"

definition detectReferences_v30 :: "jsstr \<Rightarrow> jsstr option \<Rightarrow> FirstReference list" where
  "detectReferences_v30 text currentArticle =
     removeDuplicates_v30 (detectExternalReferences_v30 text @ detectRangeReferences_v30 text @ detectMultipleReferences_v30 text @
       detectParagraphReferences_v30 text @ detectInternalReferences_v30 text @ detectRelativeReferences_v30 text currentArticle @
       detectApplicationReferences_v30 text)"

section \<open>Facts\<close>

lemma digit_sign:
  assumes "d \<in> {1..9}"
  obtains c where "digit_text d = [c]" "map_of kanjiToNumber_v30 c = Some d" "d < 10" "c \<notin> {c_dai, c_jou, c_juu, c_hyaku, c_sen}"
proof -
  from assms have "d \<in> {0..9}" "d \<noteq> 0" by auto
  then have "\<exists>c. digit_text d = [c] \<and> map_of kanjiToNumber_v30 c = Some d \<and> c \<notin> {c_dai, c_jou, c_juu, c_hyaku, c_sen}"
    by (drule_tac digit_cases, elim disjE) (simp_all add: digit_text_def kanji_digit_of_def kanjiToNumber_v30_def)
  then show ?thesis using that assms by auto
qed

lemma unit_values [simp]: "map_of kanjiToNumber_v30 c_juu = Some 10" "map_of kanjiToNumber_v30 c_hyaku = Some 100"
  by (simp_all add: kanjiToNumber_v30_def)

text \<open>The numeral of a number below a thousand, and its three parts.\<close>

definition tens_part :: "int \<Rightarrow> jsstr" where
  "tens_part d = (if d = 0 then [] else scaled d c_juu)"

definition hundreds_part :: "int \<Rightarrow> jsstr" where
  "hundreds_part h = (if h = 0 then [] else digit_text h @ [c_hyaku])"

lemma article_parts:
  assumes "h \<in> {0..9}" "d \<in> {0..9}" "u \<in> {0..9}" "0 < 100 * h + 10 * d + u"
  shows "arabicToKanjiArticle_v30 (100 * h + 10 * d + u) = [c_dai] @ (hundreds_part h @ tens_part d @ digit_text u) @ [c_jou]"
proof -
  let ?n = "100 * h + 10 * d + u"
  note digits = decimal_digits [OF assms(1-3)]
  have zero: "digit_text 0 = []" by (simp add: digit_text_def)
  show ?thesis
  proof (cases "h = 0")
    case False
    with assms have "\<not> ?n < 10" "?n \<noteq> 10" "\<not> ?n < 20" "\<not> ?n < 100" "?n < 1000" by auto
    then have "arabicToKanjiArticle_v30 ?n = [c_dai] @ (digit_text h @ [c_hyaku] @
        (if 0 < 10 * d + u then (if 0 < d then scaled d c_juu else []) @ (if 0 < u then digit_text u else []) else [])) @ [c_jou]"
      using assms(3) by (simp add: arabicToKanjiArticle_v30_def digits Let_def)
    with False assms(2,3) show ?thesis by (cases "d = 0"; cases "u = 0") (simp_all add: hundreds_part_def tens_part_def zero)
  next
    case True
    consider "d = 0" | "d = 1" | "2 \<le> d" using assms(2) by fastforce
    then show ?thesis
    proof cases
      case 3
      with True assms have "\<not> ?n < 10" "?n \<noteq> 10" "\<not> ?n < 20" "?n < 100" "?n = 10 * d + u" by auto
      then have "arabicToKanjiArticle_v30 ?n = [c_dai] @ digit_text d @ [c_juu] @ (if 0 < u then digit_text u else []) @ [c_jou]"
        unfolding arabicToKanjiArticle_v30_def using digits(5,6) by simp
      with True 3 assms(3) show ?thesis by (cases "u = 0") (simp_all add: hundreds_part_def tens_part_def scaled_def zero)
    qed (use True assms(3) in \<open>auto simp: arabicToKanjiArticle_v30_def hundreds_part_def tens_part_def scaled_def zero\<close>)
  qed
qed

text \<open>What the reader makes of a digit, of the tens and of the hundreds.\<close>

lemma read_digit:
  "d \<in> {1..9} \<Longrightarrow> foldl compound_step (result, temp, unit) (digit_text d) =
     (if 10 \<le> unit then (result + temp, d, 1) else (result, temp * 10 + d, unit))"
  by (erule digit_sign) (auto simp: compound_step_def)

lemma read_hundreds_v30:
  "h \<in> {1..9} \<Longrightarrow> foldl compound_step (0, 0, 1) (hundreds_part h) = (0, h * 100, 100)"
  by (simp add: hundreds_part_def read_digit) (simp add: compound_step_def)

lemma read_tens_v30:
  "d \<in> {1..9} \<Longrightarrow> foldl compound_step (0, 0, 1) (tens_part d) = (0, d * 10, 10)"
  by (simp add: tens_part_def scaled_def read_digit) (simp add: compound_step_def)

lemma read_tens_after_v30:
  "d \<in> {1..9} \<Longrightarrow> h \<in> {1..9} \<Longrightarrow> foldl compound_step (0, h * 100, 100) (tens_part d) =
     (if d = 1 then (0, h * 1000, 10) else (h * 100, d * 10, 10))"
  by (simp add: tens_part_def scaled_def read_digit) (simp add: compound_step_def)

lemma parts_clean:
  assumes "h \<in> {0..9}" "d \<in> {0..9}" "u \<in> {0..9}"
  shows "filter (\<lambda>c. c \<noteq> c_dai \<and> c \<noteq> c_jou) (hundreds_part h @ tens_part d @ digit_text u) = hundreds_part h @ tens_part d @ digit_text u"
proof -
  have "filter (\<lambda>c. c \<noteq> c_dai \<and> c \<noteq> c_jou) (digit_text d) = digit_text d" if "d \<in> {0..9}" for d
  proof (cases "d = 0")
    case False
    with that have "d \<in> {1..9}" by auto
    then show ?thesis by (elim digit_sign) simp
  qed (simp add: digit_text_def)
  with assms show ?thesis by (simp add: hundreds_part_def tens_part_def scaled_def)
qed

text \<open>A number without a unit character is its last digit.\<close>

lemma read_last:
  "u \<in> {0..9} \<Longrightarrow> foldl simple_step 0 (digit_text u) = u \<and> c_sen \<notin> set (digit_text u) \<and> c_hyaku \<notin> set (digit_text u) \<and> c_juu \<notin> set (digit_text u)"
proof (cases "u = 0")
  case False
  assume "u \<in> {0..9}"
  with False have "u \<in> {1..9}" by auto
  then show ?thesis by (elim digit_sign) (auto simp: simple_step_def)
qed (simp add: digit_text_def)

lemma units_present: "d \<noteq> 0 \<Longrightarrow> c_juu \<in> set (tens_part d)" "h \<noteq> 0 \<Longrightarrow> c_hyaku \<in> set (hundreds_part h)"
  by (simp_all add: tens_part_def hundreds_part_def scaled_def)

lemma read_article:
  assumes "h \<in> {0..9}" "d \<in> {0..9}" "u \<in> {0..9}"
  shows "kanjiToArabic_v30 ([c_dai] @ (hundreds_part h @ tens_part d @ digit_text u) @ [c_jou]) =
    (if h \<noteq> 0 \<and> d = 1 then h * 1000 + u else 100 * h + 10 * d + u)"
proof (cases "h = 0 \<and> d = 0")
  case True
  then show ?thesis using parts_clean [OF assms] read_last [OF assms(3)]
    by (simp add: kanjiToArabic_v30_def hundreds_part_def tens_part_def)
next
  case False
  define st where "st = foldl compound_step (0, 0, 1) (hundreds_part h @ tens_part d)"
  have st: "st = (if h = 0 then (0, d * 10, 10) else if d = 0 then (0, h * 100, 100) else if d = 1 then (0, h * 1000, 10) else (h * 100, d * 10, 10))"
  proof -
    have "hundreds_part 0 = []" "tens_part 0 = []" by (simp_all add: hundreds_part_def tens_part_def)
    then show ?thesis using assms False read_hundreds_v30 [of h] read_tens_v30 [of d] read_tens_after_v30 [of d h]
      by (auto simp: st_def)
  qed
  have "kanjiToArabic_v30 ([c_dai] @ (hundreds_part h @ tens_part d @ digit_text u) @ [c_jou]) =
      (case foldl compound_step st (digit_text u) of (result, tempNum, _) \<Rightarrow> result + tempNum)"
    using False units_present(1) [of d] units_present(2) [of h] parts_clean [OF assms] by (auto simp: kanjiToArabic_v30_def st_def)
  then show ?thesis
    using assms False read_digit [of u "fst st" "fst (snd st)" "snd (snd st)"] by (cases "u = 0") (auto simp: st digit_text_def)
qed

section \<open>Properties\<close>

text \<open>an article number below a thousand, written by \<open>arabicToKanjiArticle\<close> and read back by
  \<open>kanjiToArabic\<close>. It comes back except above a hundred where the tens digit is 1: the hundreds are then
  multiplied by ten.\<close>

theorem first_numerals:
  assumes "0 < n" "n < 1000"
  shows "kanjiToArabic_v30 (arabicToKanjiArticle_v30 n) =
    (if 100 \<le> n \<and> n div 10 mod 10 = 1 then n div 100 * 1000 + n mod 10 else n)"
proof -
  from assms obtain h d u where dig: "h \<in> {0..9}" "d \<in> {0..9}" "u \<in> {0..9}" and n: "n = 100 * h + 10 * d + u"
    by (rule decimal_split)
  have "100 \<le> n \<longleftrightarrow> h \<noteq> 0" using dig n by auto
  moreover have "0 < 100 * h + 10 * d + u" using assms(1) n by simp
  ultimately show ?thesis unfolding n decimal_digits [OF dig] article_parts [OF dig \<open>0 < 100 * h + 10 * d + u\<close>] read_article [OF dig] by simp
qed

theorem first_numerals_witness:
  "kanjiToArabic_v30 (arabicToKanjiArticle_v30 123) = 123 \<and> kanjiToArabic_v30 (arabicToKanjiArticle_v30 314) = 3004"
  using first_numerals [of 123] first_numerals [of 314] by simp

text \<open>the detector reports one reference for each type, article and law that a family finds, the
  one found first, in the order of finding.\<close>

theorem first_references:
  "let found = detectExternalReferences_v30 text @ detectRangeReferences_v30 text @ detectMultipleReferences_v30 text @
       detectParagraphReferences_v30 text @ detectInternalReferences_v30 text @ detectRelativeReferences_v30 text currentArticle @
       detectApplicationReferences_v30 text;
     result = detectReferences_v30 text currentArticle
   in distinct (map first_key result) \<and> first_key ` set result = first_key ` set found \<and> subseq result found \<and>
      list_all (\<lambda>r. find (\<lambda>r'. first_key r' = first_key r) found = Some r) result"
  using first_by_keys [of first_key "[]"] first_by_subseq [of first_key "[]"] first_by_find [of _ first_key "[]"]
  unfolding Let_def detectReferences_v30_def removeDuplicates_v30_def list_all_iff by simp

section \<open>Findings\<close>

text \<open>A range written with Arabic digits is read as the article 0.\<close>

lemma arabic_range_lost:
  "map ff_targetArticleNumber (detectRangeReferences_v30 [c_dai, 0x31, c_jou, h_ka, h_ra, c_dai, 0x33, c_jou, h_ma, h_de]) = [[c_dai, c_jou]]"
  by code_simp

text \<open>The reference to the next article of article 109 is not read back.\<close>

lemma next_article_misread:
  "resolveRelativeReference_v30 [c_ji, c_jou] (Some [c_dai, c_ichi, c_hyaku, c_kyuu, c_jou]) = Some [c_dai, c_ichi, c_hyaku, c_juu, c_jou] \<and>
   resolveRelativeReference_v30 [c_ji, c_jou] (Some [c_dai, c_ichi, c_hyaku, c_juu, c_jou]) = Some [c_dai, c_sen, c_ichi, c_jou]"
  by code_simp


end
