(* ===== verification/Spans.thy ===== *)
theory Spans
  imports Prelude
begin

text \<open>
  Spans of a text that are taken in the order of their starts. Several components drop overlapping references by a loop
  over the references kept so far; the locale \<open>spans\<close> holds what such a loop relies on.
\<close>

text \<open>The first position at which a test succeeds.\<close>

fun first_at :: "('a \<Rightarrow> bool) \<Rightarrow> 'a list \<Rightarrow> nat option" where
  "first_at p [] = None"
| "first_at p (x # xs) = (if p x then Some 0 else map_option Suc (first_at p xs))"

lemma first_at_none: "\<forall>x \<in> set xs. \<not> p x \<Longrightarrow> first_at p xs = None"
  by (induction xs) auto

lemma first_at_last: "\<forall>x \<in> set xs. \<not> p x \<Longrightarrow> p y \<Longrightarrow> first_at p (xs @ [y]) = Some (length xs)"
  by (induction xs) auto

locale spans =
  fixes start fin :: "'r \<Rightarrow> nat" and overlap :: "'r \<Rightarrow> 'r \<Rightarrow> bool"
  assumes overlap_iff: "overlap a b \<longleftrightarrow> start b \<le> start a \<and> start a < fin b \<or> start a \<le> start b \<and> start b < fin a"
begin

definition in_order :: "nat \<Rightarrow> 'r list \<Rightarrow> bool" where
  "in_order limit rs \<longleftrightarrow> sorted_wrt (\<lambda>a b. fin a \<le> start b) rs \<and> (\<forall>r \<in> set rs. start r < fin r \<and> start r \<le> limit)"

lemma in_order_nil: "in_order limit []"
  by (simp add: in_order_def)

lemma in_order_mono: "in_order k rs \<Longrightarrow> k \<le> l \<Longrightarrow> in_order l rs"
  by (fastforce simp: in_order_def)

lemma in_order_snoc: "in_order (start r) rs \<Longrightarrow> start r < fin r \<Longrightarrow> \<forall>e \<in> set rs. fin e \<le> start r \<Longrightarrow> in_order (start r) (rs @ [r])"
  by (auto simp: in_order_def sorted_wrt_append)

lemma in_order_replace: "in_order (start r) (rs @ [e]) \<Longrightarrow> start r < fin r \<Longrightarrow> in_order (start r) (rs @ [r])"
  by (force simp: in_order_def sorted_wrt_append)

text \<open>Only the last of the spans in order can overlap one that starts no earlier.\<close>

lemma only_last:
  assumes "in_order (start r) rs" "start r < fin r"
  obtains (apart) "\<forall>e \<in> set rs. fin e \<le> start r" "first_at (overlap r) rs = None"
    | (last) es e where "rs = es @ [e]" "overlap r e" "first_at (overlap r) rs = Some (length es)"
proof -
  have ov: "overlap r e \<longleftrightarrow> start r < fin e" if "e \<in> set rs" for e
    using that assms by (auto simp: in_order_def overlap_iff)
  show thesis
  proof (cases "\<exists>e \<in> set rs. start r < fin e")
    case False
    with ov have "first_at (overlap r) rs = None" by (intro first_at_none) auto
    with False show thesis by (intro apart) auto
  next
    case True
    then obtain es e where rs: "rs = es @ [e]" by (cases rs rule: rev_cases) auto
    have es: "\<forall>x \<in> set es. \<not> overlap r x"
      using assms(1) ov by (fastforce simp: rs in_order_def sorted_wrt_append)
    with True ov have "overlap r e" by (auto simp: rs)
    with es show thesis by (intro last [of es e]) (auto simp: rs first_at_last)
  qed
qed

end

end
