(* ===== verification/ImprovedDetector.thy ===== *)
theory ImprovedDetector
  imports JSRegex Spans
begin

text \<open>
  \<^verbatim>\<open>ImprovedReferenceDetector.ts\<close>: families of patterns over the whole text, and one pass that keeps the longer of two
  references that overlap. Some patterns begin with a negative lookbehind of one character, which the search models
  with the character before. \<open>MULTIPLE_PATTERNS\<close> is never read and is left out.
\<close>

section \<open>Search after a character\<close>

text \<open>\<open>(?<![\<dots>])\<close> at the start of a pattern: no match begins after one of the characters.\<close>

fun search_behind :: "jschar list \<Rightarrow> nat \<Rightarrow> regex \<Rightarrow> nat \<Rightarrow> jschar option \<Rightarrow> jsstr \<Rightarrow> rmatch option" where
  "search_behind cls n r i prev s =
     (case (if prev \<in> Some ` set cls then [] else rx n r (s, [])) of
        (t, cs) # _ \<Rightarrow> Some \<lparr>m_index = i, m_text = take (length s - length t) s, m_caps = cs\<rparr>
      | [] \<Rightarrow> (case s of [] \<Rightarrow> None | c # s' \<Rightarrow> search_behind cls n r (Suc i) (Some c) s'))"

declare search_behind.simps [simp del]

definition char_before :: "jsstr \<Rightarrow> nat \<Rightarrow> jschar option" where
  "char_before s i = (if i = 0 \<or> length s < i then None else Some (s ! (i - 1)))"

function exec_behind_from :: "jschar list \<Rightarrow> regex \<Rightarrow> jsstr \<Rightarrow> nat \<Rightarrow> rmatch list" where
  "exec_behind_from cls r s li =
     (if length s < li then []
      else case search_behind cls (length s) r li (char_before s li) (drop li s) of
        None \<Rightarrow> []
      | Some m \<Rightarrow>
          if li < m_end m then m # exec_behind_from cls r s (if m_text m = [] then Suc (m_end m) else m_end m)
          else m # exec_behind_from cls r s (Suc li))"
  by pat_completeness auto
termination
  by (relation "measure (\<lambda>(cls, r, s, li). Suc (length s) - li)") auto

declare exec_behind_from.simps [simp del]

definition exec_behind :: "jschar list \<Rightarrow> regex \<Rightarrow> jsstr \<Rightarrow> rmatch list" where
  "exec_behind cls r s = exec_behind_from cls r s 0"

section \<open>References and patterns\<close>

record ImprovedReference =
  ir_type :: jsstr
  ir_text :: jsstr
  ir_context :: jsstr
  ir_confidence :: rat
  ir_startPos :: nat
  ir_endPos :: nat
  ir_targetLaw :: "jsstr option"
  ir_targetArticle :: "jsstr option"
  ir_targetParagraph :: "int option option"
  ir_targetItem :: "jsstr option"
  ir_targetArticleEnd :: "jsstr option"
  ir_relativeType :: "jsstr option"
  ir_relativeDistance :: "int option option"
  ir_structureType :: "jsstr option"
  ir_applicationType :: "jsstr option"

text \<open>What every family records of a match. A number is \<open>None\<close> where it is not a number.\<close>

definition improved :: "jsstr \<Rightarrow> rat \<Rightarrow> jsstr \<Rightarrow> rmatch \<Rightarrow> ImprovedReference" where
  "improved type confidence text m =
     \<lparr>ir_type = type, ir_text = m_text m, ir_context = text, ir_confidence = confidence, ir_startPos = m_index m, ir_endPos = m_end m,
      ir_targetLaw = None, ir_targetArticle = None, ir_targetParagraph = None, ir_targetItem = None, ir_targetArticleEnd = None,
      ir_relativeType = None, ir_relativeDistance = None, ir_structureType = None, ir_applicationType = None\<rparr>"

definition COMPREHENSIVE_EXTERNAL_PATTERNS :: "regex list" where
  "COMPREHENSIVE_EXTERNAL_PATTERNS =
     [(rseq [RGrp 1 (rseq [rstar (RCls True (rng_ws @ [(p_comma, p_comma), (p_stop, p_stop), (p_lparen, p_lparen), (p_rparen, p_rparen)])), RLit [c_hou]]), RLit [p_lparen], rplus (RCls True [(p_rparen, p_rparen)]), RLit [p_rparen, c_dai], RGrp 2 (rplus (RCls False rng_kj1000)), RLit [c_jou], ropt (rseq [RLit [h_no], RGrp 3 (rplus (RCls False rng_kj10))]), ropt (rseq [RLit [c_dai], RGrp 4 (rplus (RCls False rng_kj10)), RLit [c_kou]]), ropt (rseq [RLit [c_dai], RGrp 5 (rplus (RCls False rng_kj10)), RLit [c_gou]])]),
      (rseq [RGrp 1 (rseq [rstar (RCls True (rng_ws @ [(p_comma, p_comma), (p_stop, p_stop), (p_lparen, p_lparen), (p_rparen, p_rparen)])), RLit [c_hou]]), RLit [p_lparen], rplus (RCls True [(p_rparen, p_rparen)]), RLit [p_rparen]]),
      (rseq [RGrp 1 (rseq [rstar (RCls True (rng_ws @ [(p_comma, p_comma), (p_stop, p_stop), (p_lparen, p_lparen), (p_rparen, p_rparen)])), RLit [c_hou]]), RLit [c_dai], RGrp 2 (rplus (RCls False rng_kj1000)), RLit [c_jou], ropt (rseq [RLit [h_no], RGrp 3 (rplus (RCls False rng_kj10))]), ropt (rseq [RLit [c_dai], RGrp 4 (rplus (RCls False rng_kj10)), RLit [c_kou]])])]"

definition ARTICLE_WITH_STRUCTURE_PATTERNS :: "regex list" where
  "ARTICLE_WITH_STRUCTURE_PATTERNS =
     [(rseq [RLit [c_dai], RGrp 1 (rplus (RCls False rng_kj1000)), RLit [c_jou], ropt (rseq [RLit [h_no], RGrp 2 (rplus (RCls False rng_kj10))]), RLit [c_dai], RGrp 3 (rplus (RCls False rng_kj10)), RLit [c_kou], ropt (rseq [RLit [c_dai], RGrp 4 (rplus (RCls False rng_kj10)), RLit [c_gou]])]),
      (rseq [RLit [c_dai], RGrp 1 (rplus (RCls False rng_kj1000)), RLit [c_jou], ropt (rseq [RLit [h_no], RGrp 2 (rplus (RCls False rng_kj10))]), RLit [c_dai], RGrp 3 (rplus (RCls False rng_kj10)), RLit [c_kou]]),
      (rseq [RLit [c_dai], RGrp 1 (rplus (RCls False rng_kj1000)), RLit [c_jou], ropt (rseq [RLit [h_no], RGrp 2 (rplus (RCls False rng_kj10))]), RLit [c_dai], RGrp 3 (rplus (RCls False rng_kj10)), RLit [c_gou]])]"

definition ARTICLE_ONLY_PATTERNS :: "regex list" where
  "ARTICLE_ONLY_PATTERNS =
     [(rseq [RLit [c_dai], RGrp 1 (rplus (RCls False rng_kj1000)), RLit [c_jou, h_no], RGrp 2 (rplus (RCls False rng_kj10))]), (rseq [RLit [c_dai], RGrp 1 (rplus (RCls False rng_kj1000)), RLit [c_jou]])]"

text \<open>The characters of the lookbehind, the pattern, and the number of its groups.\<close>

definition STRUCTURE_ONLY_PATTERNS :: "(jschar list \<times> regex \<times> nat) list" where
  "STRUCTURE_ONLY_PATTERNS =
     [([c_jou, h_no], (rseq [RLit [c_dai], RGrp 1 (rplus (RCls False rng_kj10)), RLit [c_kou, c_dai], RGrp 2 (rplus (RCls False rng_kj10)), RLit [c_gou]]), 2),
      ([c_jou, h_no], (rseq [RLit [c_dai], RGrp 1 (rplus (RCls False rng_kj10)), RLit [c_kou]]), 1),
      ([c_jou, c_kou, h_no], (rseq [RLit [c_dai], RGrp 1 (rplus (RCls False rng_kj10)), RLit [c_gou]]), 1),
      ([], (rseq [RGrp 1 (rplus (RCls False rng_kj10)), RLit [c_gou]]), 1)]"

text \<open>Pattern, type and \<open>distance || 0\<close>; the unit is never read.\<close>

definition RELATIVE_PATTERNS :: "(regex \<times> jsstr \<times> int) list" where
  "RELATIVE_PATTERNS =
     [((rseq [RLit [c_zen], RGrp 1 (rplus (RCls False rng_kj10)), RLit [c_kou]]), (str ''previous''), 0), ((RLit [c_zen, c_kou]), (str ''previous''), 1),
      ((rseq [RLit [c_zen], RGrp 1 (rplus (RCls False rng_kj10)), RLit [c_jou]]), (str ''previous''), 0), ((RLit [c_zen, c_jou]), (str ''previous''), 1),
      ((rseq [RLit [c_ji], RGrp 1 (rplus (RCls False rng_kj10)), RLit [c_kou]]), (str ''next''), 0), ((RLit [c_ji, c_kou]), (str ''next''), 1),
      ((rseq [RLit [c_ji], RGrp 1 (rplus (RCls False rng_kj10)), RLit [c_jou]]), (str ''next''), 0), ((RLit [c_ji, c_jou]), (str ''next''), 1),
      ((RLit [c_dou, c_kou]), (str ''same''), 0), ((RLit [c_dou, c_jou]), (str ''same''), 0), ((RLit [c_kaku, c_kou]), (str ''same''), -1), ((RLit [c_kaku, c_gou]), (str ''same''), -1)]"

definition RANGE_PATTERNS :: "regex list" where
  "RANGE_PATTERNS =
     [(rseq [RLit [c_dai], RGrp 1 (rplus (RCls False rng_kj1000)), RLit [c_jou, h_ka, h_ra, c_dai], RGrp 2 (rplus (RCls False rng_kj1000)), RLit [c_jou, h_ma, h_de]]),
      (rseq [RLit [c_dai], RGrp 1 (rplus (RCls False rng_kj10)), RLit [c_kou, h_ka, h_ra, c_dai], RGrp 2 (rplus (RCls False rng_kj10)), RLit [c_kou, h_ma, h_de]]),
      (rseq [RLit [c_dai], RGrp 1 (rplus (RCls False rng_kj10)), RLit [c_gou, h_ka, h_ra, c_dai], RGrp 2 (rplus (RCls False rng_kj10)), RLit [c_gou, h_ma, h_de]])]"

definition complexPattern :: regex where
  "complexPattern = (rseq [RLit [c_dai], RGrp 1 (rplus (RCls False rng_kj1000)), RLit [c_jou], rplus (rseq [rstar (rseq [RLit [p_comma, c_dai], rplus (RCls False rng_kj1000), RLit [c_jou]]), ralt [RLit [c_oyo, h_bi], RLit [c_nara, h_bi, h_ni]], RLit [c_dai], rplus (RCls False rng_kj1000), RLit [c_jou]])])"

definition APPLICATION_PATTERNS :: "regex list" where
  "APPLICATION_PATTERNS =
     [(rseq [RGrp 1 (rseq [RLit [c_dai], rplus (RCls False rng_kj1000), RLit [c_jou], ropt (rseq [RLit [h_no], rplus (RCls False rng_kj10)]), ropt (rseq [RLit [h_ka, h_ra, c_dai], rplus (RCls False rng_kj1000), RLit [c_jou], ropt (rseq [RLit [h_no], rplus (RCls False rng_kj10)]), RLit [h_ma, h_de]]), rstar (rseq [RLit [c_oyo, h_bi, c_dai], rplus (RCls False rng_kj1000), RLit [c_jou]]), ropt (rseq [RLit [c_dai], rplus (RCls False rng_kj10), RLit [c_kou]]), ropt (rseq [RLit [c_dai], rplus (RCls False rng_kj10), RLit [c_gou]])]), RLit [h_no, c_ki, c_tei, h_wo, c_jun, c_you, h_su, h_ru]]),
      (rseq [RGrp 1 (rseq [RLit [c_dai], rplus (RCls False rng_kj1000), RLit [c_jou], ropt (rseq [RLit [h_no], rplus (RCls False rng_kj10)]), ropt (rseq [RLit [h_ka, h_ra, c_dai], rplus (RCls False rng_kj1000), RLit [c_jou], ropt (rseq [RLit [h_no], rplus (RCls False rng_kj10)]), RLit [h_ma, h_de]]), rstar (rseq [RLit [c_oyo, h_bi, c_dai], rplus (RCls False rng_kj1000), RLit [c_jou]]), ropt (rseq [RLit [c_dai], rplus (RCls False rng_kj10), RLit [c_kou]]), ropt (rseq [RLit [c_dai], rplus (RCls False rng_kj10), RLit [c_gou]])]), RLit [h_no, c_ki, c_tei, h_wo, 0x9069, c_you, h_su, h_ru]]),
      (rseq [RGrp 1 (ralt [rseq [RLit [c_zen], ropt (RCls False rng_kj10), RLit [c_kou]], rseq [RLit [c_ji], ropt (RCls False rng_kj10), RLit [c_kou]], RLit [c_dou, c_kou], RLit [c_kaku, c_kou], rseq [RLit [c_dai], rplus (RCls False rng_kj10), RLit [c_kou]]]), RLit [h_no, c_ki, c_tei, h_wo, c_jun, c_you, h_su, h_ru]]),
      (rseq [RGrp 1 (ralt [rseq [RLit [c_zen], ropt (RCls False rng_kj10), RLit [c_kou]], rseq [RLit [c_ji], ropt (RCls False rng_kj10), RLit [c_kou]], RLit [c_dou, c_kou], RLit [c_kaku, c_kou], rseq [RLit [c_dai], rplus (RCls False rng_kj10), RLit [c_kou]]]), RLit [h_no, c_ki, c_tei, h_wo, 0x9069, c_you, h_su, h_ru]]),
      (rseq [RGrp 1 (ralt [rseq [RLit [c_zen], ropt (RCls False rng_kj10), RLit [c_jou]], rseq [RLit [c_ji], ropt (RCls False rng_kj10), RLit [c_jou]], RLit [c_dou, c_jou]]), RLit [h_no, c_ki, c_tei, h_wo, c_jun, c_you, h_su, h_ru]]),
      (rseq [RGrp 1 (ralt [rseq [RLit [c_zen], ropt (RCls False rng_kj10), RLit [c_jou]], rseq [RLit [c_ji], ropt (RCls False rng_kj10), RLit [c_jou]], RLit [c_dou, c_jou]]), RLit [h_no, c_ki, c_tei, h_wo, 0x9069, c_you, h_su, h_ru]]),
      (rseq [RGrp 1 (RRep (RCls True [(p_stop, p_stop), (p_comma, p_comma)]) 1 (Some 30) True), RLit [h_no, 0x4F8B, h_ni, h_yo, h_ru]]), (rseq [RGrp 1 (RRep (RCls True [(p_stop, p_stop), (p_comma, p_comma)]) 1 (Some 30) True), RLit [h_ni, h_tsu, h_i, h_te, c_jun, c_you, h_su, h_ru]]), (rseq [RGrp 1 (RRep (RCls True [(p_stop, p_stop), (p_comma, p_comma)]) 1 (Some 30) True), RLit [h_ni, h_tsu, h_i, h_te, 0x9069, c_you, h_su, h_ru]])]"

section \<open>Families\<close>

definition improved_kanjiMap :: "(jschar \<times> int) list" where
  "improved_kanjiMap = zip [c_ichi, c_ni, c_san, c_yon, c_go, c_roku, c_nana, c_hachi, c_kyuu, c_juu, c_hyaku, c_sen] [1, 2, 3, 4, 5, 6, 7, 8, 9, 10, 100, 1000]"

definition number_step :: "int \<times> int \<Rightarrow> int \<Rightarrow> int \<times> int" where
  "number_step st num =
     (case st of (result, temp) \<Rightarrow>
        if num = 10 \<or> num = 100 \<or> num = 1000 then (result + (if temp = 0 then 1 else temp) * num, 0)
        else (result, temp * 10 + num))"

text \<open>A character that is not in the table makes the result not a number.\<close>

definition kanjiToNumber :: "jsstr \<Rightarrow> int option" where
  "kanjiToNumber kanji =
     map_option (\<lambda>nums. case foldl number_step (0, 0) nums of (result, temp) \<Rightarrow> result + temp) (those (map (map_of improved_kanjiMap) kanji))"

definition convertKanjiArticle :: "jsstr \<Rightarrow> jsstr" where
  "convertKanjiArticle kanji = kanji"

text \<open>\<open>if (match[k]) ref.targetArticle = `${ref.targetArticle}\<dots>`\<close>: the branch number of an article.\<close>

definition with_branch :: "rmatch \<Rightarrow> nat \<Rightarrow> ImprovedReference \<Rightarrow> ImprovedReference" where
  "with_branch m k ref =
     (if truthy (cap m k)
      then ref\<lparr>ir_targetArticle := Some ((case ir_targetArticle ref of None \<Rightarrow> (str ''undefined'') | Some a \<Rightarrow> a) @ [h_no] @ grp m k)\<rparr> else ref)"

definition with_paragraph :: "rmatch \<Rightarrow> nat \<Rightarrow> ImprovedReference \<Rightarrow> ImprovedReference" where
  "with_paragraph m k ref = (if truthy (cap m k) then ref\<lparr>ir_targetParagraph := Some (kanjiToNumber (grp m k))\<rparr> else ref)"

definition with_item :: "rmatch \<Rightarrow> nat \<Rightarrow> ImprovedReference \<Rightarrow> ImprovedReference" where
  "with_item m k ref = (if truthy (cap m k) then ref\<lparr>ir_targetItem := cap m k\<rparr> else ref)"

definition detectComprehensiveExternalReferences :: "jsstr \<Rightarrow> ImprovedReference list" where
  "detectComprehensiveExternalReferences text =
     concat (map (\<lambda>pattern. map (\<lambda>m.
         with_item m 5 (with_paragraph m 4 (with_branch m 3 ((improved (str ''external'') (95/100) text m)
           \<lparr>ir_targetLaw := cap m 1, ir_targetArticle := (if truthy (cap m 2) then Some (convertKanjiArticle (grp m 2)) else None)\<rparr>))))
       (exec_all pattern text)) COMPREHENSIVE_EXTERNAL_PATTERNS)"

definition detectArticleWithStructure :: "jsstr \<Rightarrow> ImprovedReference list" where
  "detectArticleWithStructure text =
     concat (map (\<lambda>pattern. map (\<lambda>m.
         with_item m 4 (with_paragraph m 3 (with_branch m 2 ((improved (str ''internal'') (95/100) text m)
           \<lparr>ir_targetArticle := Some (convertKanjiArticle (grp m 1))\<rparr>))))
       (exec_all pattern text)) ARTICLE_WITH_STRUCTURE_PATTERNS)"

definition detectArticleOnly :: "jsstr \<Rightarrow> ImprovedReference list" where
  "detectArticleOnly text =
     concat (map (\<lambda>pattern. map (\<lambda>m.
         with_branch m 2 ((improved (str ''internal'') (9/10) text m)\<lparr>ir_targetArticle := Some (convertKanjiArticle (grp m 1))\<rparr>))
       (exec_all pattern text)) ARTICLE_ONLY_PATTERNS)"

definition structure_reference :: "jsstr \<Rightarrow> nat \<Rightarrow> rmatch \<Rightarrow> ImprovedReference" where
  "structure_reference text n m =
     (let ref = improved (str ''structural'') (85/100) text m;
          ref = (if str_includes (m_text m) [c_kou] then ref\<lparr>ir_structureType := Some [c_kou], ir_targetParagraph := Some (kanjiToNumber (grp m 1))\<rparr> else ref)
      in if str_includes (m_text m) [c_gou] then ref\<lparr>ir_structureType := Some [c_gou], ir_targetItem := cap m n\<rparr> else ref)"

definition detectStructureOnly :: "jsstr \<Rightarrow> ImprovedReference list" where
  "detectStructureOnly text =
     concat (map (\<lambda>(cls, pattern, n). map (structure_reference text n) (exec_behind cls pattern text)) STRUCTURE_ONLY_PATTERNS)"

definition detectRelativeReferences :: "jsstr \<Rightarrow> ImprovedReference list" where
  "detectRelativeReferences text =
     concat (map (\<lambda>(pattern, type, distance). map (\<lambda>m. (improved (str ''relative'') (9/10) text m)
         \<lparr>ir_relativeType := Some type,
          ir_relativeDistance := Some (if truthy (cap m 1) then kanjiToNumber (grp m 1) else Some distance)\<rparr>)
       (exec_all pattern text)) RELATIVE_PATTERNS)"

definition detectRangeReferences :: "jsstr \<Rightarrow> ImprovedReference list" where
  "detectRangeReferences text =
     concat (map (\<lambda>pattern. map (\<lambda>m. (improved (str ''range'') (9/10) text m)
         \<lparr>ir_targetArticle := Some (convertKanjiArticle (grp m 1)), ir_targetArticleEnd := Some (convertKanjiArticle (grp m 2))\<rparr>)
       (exec_all pattern text)) RANGE_PATTERNS)"

definition detectMultipleReferences :: "jsstr \<Rightarrow> ImprovedReference list" where
  "detectMultipleReferences text = map (improved (str ''multiple'') (9/10) text) (exec_all complexPattern text)"

definition detectApplicationReferences :: "jsstr \<Rightarrow> ImprovedReference list" where
  "detectApplicationReferences text =
     concat (map (\<lambda>pattern. map (\<lambda>m. (improved (str ''application'') (85/100) text m)
         \<lparr>ir_applicationType := Some (if str_includes (m_text m) [c_jun, c_you] then [c_jun, c_you] else [0x9069, c_you])\<rparr>)
       (exec_all pattern text)) APPLICATION_PATTERNS)"

section \<open>Overlaps\<close>

definition isOverlapping :: "ImprovedReference \<Rightarrow> ImprovedReference \<Rightarrow> bool" where
  "isOverlapping ref1 ref2 \<longleftrightarrow>
     ir_startPos ref2 \<le> ir_startPos ref1 \<and> ir_startPos ref1 < ir_endPos ref2 \<or>
     ir_startPos ref1 \<le> ir_startPos ref2 \<and> ir_startPos ref2 < ir_endPos ref1"

text \<open>The inner loop: the first reference of the result that overlaps decides, and is replaced by a longer one. The state is the result and the
  set of texts used.\<close>

definition place_reference :: "ImprovedReference list \<times> jsstr set \<Rightarrow> ImprovedReference \<Rightarrow> ImprovedReference list \<times> jsstr set" where
  "place_reference st ref =
     (case st of (result, used) \<Rightarrow>
        case first_at (isOverlapping ref) result of
          Some i \<Rightarrow>
            (if length (ir_text (result ! i)) < length (ir_text ref)
             then (result[i := ref], insert (ir_text ref) (used - {ir_text (result ! i)})) else (result, used))
        | None \<Rightarrow> (if ir_text ref \<in> used then (result, used) else (result @ [ref], insert (ir_text ref) used)))"

definition removeDuplicates :: "ImprovedReference list \<Rightarrow> ImprovedReference list" where
  "removeDuplicates refs = fst (foldl place_reference ([], {}) (sort_key ir_startPos refs))"

definition all_found :: "jsstr \<Rightarrow> ImprovedReference list" where
  "all_found text =
     detectComprehensiveExternalReferences text @ detectArticleWithStructure text @ detectRangeReferences text @
     detectMultipleReferences text @ detectRelativeReferences text @ detectApplicationReferences text @ detectArticleOnly text @
     detectStructureOnly text"

definition detectAllReferences :: "jsstr \<Rightarrow> ImprovedReference list" where
  "detectAllReferences text = removeDuplicates (all_found text)"

section \<open>What the search finds\<close>

lemma search_behind_cases:
  "search_behind cls n r i prev s =
     (if prev \<in> Some ` set cls \<or> rx n r (s, []) = [] then (case s of [] \<Rightarrow> None | c # s' \<Rightarrow> search_behind cls n r (Suc i) (Some c) s')
      else (case hd (rx n r (s, [])) of (t, cs) \<Rightarrow> Some \<lparr>m_index = i, m_text = take (length s - length t) s, m_caps = cs\<rparr>))"
  by (subst search_behind.simps) (auto split: list.splits)

lemma search_behind_sound:
  assumes "search_behind cls n r i prev s = Some m"
  shows "\<exists>p t. s = p @ m_text m @ t \<and> m_index m = i + length p \<and> min_len r \<le> length (m_text m) \<and>
    (if p = [] then prev else Some (last p)) \<notin> Some ` set cls"
  using assms
proof (induction s arbitrary: i prev)
  case Nil
  then have rx: "rx n r ([], []) \<noteq> []" "prev \<notin> Some ` set cls"
    by (auto simp: search_behind_cases [of cls n r i prev "[]"] split: if_splits)
  then obtain t cs sts where f: "rx n r ([], []) = (t, cs) # sts" by (metis neq_Nil_conv surj_pair)
  with Nil rx rx_first [OF f] show ?case by (auto simp: search_behind_cases [of cls n r i prev "[]"])
next
  case (Cons c s)
  show ?case
  proof (cases "prev \<in> Some ` set cls \<or> rx n r (c # s, []) = []")
    case True
    with Cons.prems have "search_behind cls n r (Suc i) (Some c) s = Some m" by (simp add: search_behind_cases [of cls n r i prev "c # s"])
    from Cons.IH [OF this] obtain p t where p: "s = p @ m_text m @ t" "m_index m = Suc i + length p" "min_len r \<le> length (m_text m)"
      "(if p = [] then Some c else Some (last p)) \<notin> Some ` set cls" by blast
    then show ?thesis by (intro exI [of _ "c # p"] exI [of _ t]) (auto split: if_splits)
  next
    case False
    then obtain t cs sts where f: "rx n r (c # s, []) = (t, cs) # sts" by (metis neq_Nil_conv surj_pair)
    with Cons.prems False have m: "m_text m = take (length (c # s) - length t) (c # s)" "m_index m = i"
      by (auto simp: search_behind_cases [of cls n r i prev "c # s"])
    with rx_first [OF f] False show ?thesis by (intro exI [of _ "[]"] exI [of _ t]) simp
  qed
qed

text \<open>A match of a pattern after a lookbehind stands in the text, is not empty, and the character before it is not excluded.\<close>

lemma exec_behind_member:
  assumes "m \<in> set (exec_behind_from cls r s li)" "0 < min_len r"
  shows "occurs_at s (m_index m) (m_text m) \<and> m_text m \<noteq> [] \<and> char_before s (m_index m) \<notin> Some ` set cls"
  using assms
proof (induction cls r s li rule: exec_behind_from.induct)
  case (1 cls r s li)
  have li: "li \<le> length s" using 1(3) by (auto simp: exec_behind_from.simps [of cls r s li] split: if_splits)
  then obtain m' where f: "search_behind cls (length s) r li (char_before s li) (drop li s) = Some m'"
    using 1(3) by (cases "search_behind cls (length s) r li (char_before s li) (drop li s)") (simp_all add: exec_behind_from.simps [of cls r s li])
  show ?case
  proof (cases "m = m'")
    case False
    with 1 li f show ?thesis by (auto simp: exec_behind_from.simps [of cls r s li] split: if_splits)
  next
    case True
    from search_behind_sound [OF f] obtain p t where p: "drop li s = p @ m_text m' @ t" "m_index m' = li + length p"
      "min_len r \<le> length (m_text m')" "(if p = [] then char_before s li else Some (last p)) \<notin> Some ` set cls" by blast
    have s: "s = (take li s @ p) @ m_text m' @ t" using p(1) by (metis append.assoc append_take_drop_id)
    moreover have len: "length (take li s @ p) = m_index m'" using li p(2) by simp
    ultimately have occ: "occurs_at s (m_index m') (m_text m')" unfolding occurs_at_split by blast
    have "char_before s (m_index m') = (if p = [] then char_before s li else Some (last p))"
    proof (cases "p = []")
      case False
      then obtain q c where q: "p = q @ [c]" by (cases p rule: rev_cases) auto
      have "s = (take li s @ q) @ c # m_text m' @ t" using s q by simp
      then have "s ! length (take li s @ q) = c" by (metis nth_append_length)
      then have "s ! (m_index m' - 1) = last p" using li by (simp add: p(2) q)
      moreover have "m_index m' \<le> length s" using occ by (simp add: occurs_at_def)
      ultimately show ?thesis using False p(2) by (simp add: char_before_def)
    qed (simp add: p(2))
    then show ?thesis using True occ p(3,4) 1(4) by auto
  qed
qed

text \<open>Without a lookbehind it is the search of \<open>exec_all\<close>.\<close>

lemma search_behind_plain: "search_behind [] n r i prev s = search n r i s"
proof (induction s arbitrary: i prev)
  case Nil
  then show ?case by (subst search.simps, subst search_behind.simps) (auto split: list.splits)
next
  case (Cons c s)
  then show ?case by (subst search.simps, subst search_behind.simps) (auto split: list.splits)
qed

lemma exec_behind_plain: "exec_behind [] r s = exec_all r s"
proof -
  have "exec_behind_from cls r s li = exec_from r s li" if "cls = []" for cls li
    using that
  proof (induction cls r s li rule: exec_behind_from.induct)
    case (1 cls r s li)
    then show ?case
      by (subst exec_from.simps, subst exec_behind_from.simps) (auto simp: search_behind_plain split: option.splits)
  qed
  then show ?thesis by (simp add: exec_behind_def exec_all_def)
qed

section \<open>Where the references stand\<close>

definition improved_patterns :: "regex list" where
  "improved_patterns = COMPREHENSIVE_EXTERNAL_PATTERNS @ ARTICLE_WITH_STRUCTURE_PATTERNS @ ARTICLE_ONLY_PATTERNS @
     map (fst \<circ> snd) STRUCTURE_ONLY_PATTERNS @ map fst RELATIVE_PATTERNS @ RANGE_PATTERNS @ complexPattern # APPLICATION_PATTERNS"

lemma improved_consume: "list_all (\<lambda>p. 0 < min_len p) improved_patterns"
  by code_simp

definition stands :: "jsstr \<Rightarrow> ImprovedReference \<Rightarrow> bool" where
  "stands text r \<longleftrightarrow> occurs_at text (ir_startPos r) (ir_text r) \<and> ir_text r \<noteq> [] \<and> ir_endPos r = ir_startPos r + length (ir_text r)"

lemma improved_stands:
  assumes "p \<in> set improved_patterns" "m \<in> set (exec_behind cls p text)"
  shows "stands text (improved type confidence text m)"
proof -
  have "0 < min_len p" using improved_consume assms(1) by (simp only: list_all_iff)
  then show ?thesis using exec_behind_member [of m cls p "text" 0] assms(2)
    by (simp add: stands_def improved_def m_end_def exec_behind_def)
qed

lemma stands_update [simp]:
  "stands text (ir_targetLaw_update f r) = stands text r" "stands text (ir_targetArticle_update g r) = stands text r"
  "stands text (ir_targetParagraph_update h r) = stands text r" "stands text (ir_targetItem_update g r) = stands text r"
  "stands text (ir_targetArticleEnd_update g r) = stands text r" "stands text (ir_relativeType_update g r) = stands text r"
  "stands text (ir_relativeDistance_update h r) = stands text r" "stands text (ir_structureType_update g r) = stands text r"
  "stands text (ir_applicationType_update g r) = stands text r"
  by (simp_all add: stands_def)

lemma with_parts [simp]:
  "stands text (with_branch m k ref) = stands text ref" "stands text (with_paragraph m k ref) = stands text ref"
  "stands text (with_item m k ref) = stands text ref"
  by (simp_all add: with_branch_def with_paragraph_def with_item_def)

lemma structure_stands: "stands text (structure_reference text n m) = stands text (improved (str ''structural'') (85/100) text m)"
  by (simp add: structure_reference_def Let_def del: str_simps)

lemmas improved_families = detectComprehensiveExternalReferences_def detectArticleWithStructure_def detectArticleOnly_def
  detectStructureOnly_def detectRelativeReferences_def detectRangeReferences_def detectMultipleReferences_def detectApplicationReferences_def

lemma found_stand: "r \<in> set (all_found text) \<Longrightarrow> stands text r"
  unfolding all_found_def improved_families exec_behind_plain [symmetric]
  by (auto simp: structure_stands) (erule improved_stands [rotated], force simp: improved_patterns_def)+

section \<open>The references that are kept\<close>

interpretation improved_spans: spans ir_startPos ir_endPos isOverlapping
  by unfold_locales (simp add: isOverlapping_def)

lemma place_cases:
  assumes "improved_spans.in_order (ir_startPos ref) result" "ir_startPos ref < ir_endPos ref"
  obtains (new) "\<forall>e \<in> set result. ir_endPos e \<le> ir_startPos ref" "ir_text ref \<notin> used"
      "place_reference (result, used) ref = (result @ [ref], insert (ir_text ref) used)"
    | (repeated) "ir_text ref \<in> used" "place_reference (result, used) ref = (result, used)"
    | (longer) es e where "result = es @ [e]" "isOverlapping ref e" "length (ir_text e) < length (ir_text ref)"
      "place_reference (result, used) ref = (es @ [ref], insert (ir_text ref) (used - {ir_text e}))"
    | (shorter) es e where "result = es @ [e]" "isOverlapping ref e" "place_reference (result, used) ref = (result, used)"
  using assms
proof (cases rule: improved_spans.only_last)
  case apart
  then show thesis using new repeated by (cases "ir_text ref \<in> used") (simp_all add: place_reference_def)
next
  case (last es e)
  then show thesis using longer [of es e] shorter [of es e]
    by (cases "length (ir_text e) < length (ir_text ref)") (simp_all add: place_reference_def)
qed

text \<open>The references found that neither overlap another one nor have its text.\<close>

definition isolated :: "ImprovedReference list \<Rightarrow> ImprovedReference \<Rightarrow> bool" where
  "isolated refs r \<longleftrightarrow> list_all (\<lambda>r'. r' = r \<or> \<not> isOverlapping r' r \<and> ir_text r' \<noteq> ir_text r) refs"

lemma place_ok:
  assumes sorted: "sorted (map ir_startPos refs)" and spans: "\<forall>r \<in> set refs. ir_startPos r < ir_endPos r" "refs \<noteq> []"
  shows "case foldl place_reference ([], {}) refs of (result, used) \<Rightarrow>
    improved_spans.in_order (ir_startPos (last refs)) result \<and> set result \<subseteq> set refs \<and> used \<subseteq> ir_text ` set result \<and>
    (\<forall>r \<in> set refs. isolated refs r \<longrightarrow> r \<in> set result)"
  using assms(3,1,2)
proof (induction refs rule: rev_nonempty_induct)
  case (single x)
  then show ?case by (simp add: place_reference_def improved_spans.in_order_def)
next
  case (snoc x xs)
  obtain result used where f: "foldl place_reference ([], {}) xs = (result, used)" by force
  have last: "ir_startPos (last xs) \<le> ir_startPos x" using snoc.prems(1) snoc.hyps by (auto simp: sorted_append)
  have IH: "improved_spans.in_order (ir_startPos (last xs)) result" "set result \<subseteq> set xs" "used \<subseteq> ir_text ` set result"
    "\<And>r. r \<in> set xs \<Longrightarrow> isolated xs r \<Longrightarrow> r \<in> set result"
    using snoc.IH snoc.prems snoc.hyps f by (auto simp: sorted_append)
  have placed: "improved_spans.in_order (ir_startPos x) result" using IH(1) last by (rule improved_spans.in_order_mono)
  have x: "ir_startPos x < ir_endPos x" using snoc.prems(2) by simp
  have iso: "isolated xs r" if "isolated (xs @ [x]) r" for r using that by (simp add: isolated_def)
  have iso_x: "\<not> isOverlapping x e \<and> ir_text x \<noteq> ir_text e" if "isolated (xs @ [x]) x" "e \<in> set result" "e \<noteq> x" for e
    using that IH(2) by (auto simp: isolated_def list_all_iff isOverlapping_def)
  show ?case using placed x
  proof (cases rule: place_cases [where used = used])
    case new
    with f IH improved_spans.in_order_snoc [OF placed x] iso show ?thesis by auto
  next
    case repeated
    with IH(3) obtain e where e: "e \<in> set result" "ir_text e = ir_text x" by auto
    have "isolated (xs @ [x]) x \<Longrightarrow> x \<in> set result" using iso_x [OF _ e(1)] e by auto
    with f IH placed repeated iso show ?thesis by auto
  next
    case (longer es e)
    have es: "improved_spans.in_order (ir_startPos x) (es @ [x])"
      using improved_spans.in_order_replace [of x es e] placed x longer(1) by simp
    have "r \<in> set (es @ [x])" if r: "r \<in> set (xs @ [x])" "isolated (xs @ [x]) r" for r
    proof -
      have "r \<noteq> e \<or> r = x" using r(2) longer(2,3) by (auto simp: isolated_def)
      then show ?thesis using IH(4) [of r] iso [OF r(2)] r(1) longer(1) by auto
    qed
    with f IH(2,3) es longer(1,4) show ?thesis by auto
  next
    case (shorter es e)
    have "isolated (xs @ [x]) x \<Longrightarrow> x \<in> set result" using iso_x [of e] shorter(1,2) by auto
    with f IH placed shorter(3) iso show ?thesis by auto
  qed
qed

lemma detected_kept:
  "set (detectAllReferences text) \<subseteq> set (all_found text)"
  "sorted_wrt (\<lambda>a b. ir_endPos a \<le> ir_startPos b) (detectAllReferences text)"
  "r \<in> set (all_found text) \<Longrightarrow> isolated (all_found text) r \<Longrightarrow> r \<in> set (detectAllReferences text)"
proof -
  let ?refs = "sort_key ir_startPos (all_found text)"
  obtain result used where f: "foldl place_reference ([], {}) ?refs = (result, used)" by force
  then have result: "detectAllReferences text = result" by (simp add: detectAllReferences_def removeDuplicates_def)
  have iso: "isolated ?refs = isolated (all_found text)" by (simp add: isolated_def list_all_iff fun_eq_iff)
  have spans: "\<forall>r \<in> set ?refs. ir_startPos r < ir_endPos r" using found_stand by (auto simp: stands_def)
  have "set (detectAllReferences text) \<subseteq> set (all_found text) \<and>
      sorted_wrt (\<lambda>a b. ir_endPos a \<le> ir_startPos b) (detectAllReferences text) \<and>
      (\<forall>r \<in> set (all_found text). isolated (all_found text) r \<longrightarrow> r \<in> set (detectAllReferences text))"
  proof (cases "all_found text = []")
    case False
    then have "?refs \<noteq> []" by (metis set_empty set_sort)
    with place_ok [OF _ spans] f iso show ?thesis unfolding result by (simp add: improved_spans.in_order_def)
  qed (use f in \<open>simp add: result\<close>)
  then show "set (detectAllReferences text) \<subseteq> set (all_found text)"
    "sorted_wrt (\<lambda>a b. ir_endPos a \<le> ir_startPos b) (detectAllReferences text)"
    "r \<in> set (all_found text) \<Longrightarrow> isolated (all_found text) r \<Longrightarrow> r \<in> set (detectAllReferences text)" by blast+
qed

interpretation improved_located: located_detector detectAllReferences ir_text ir_startPos
proof
  fix r s assume "r \<in> set (detectAllReferences s)"
  then show "occurs_at s (ir_startPos r) (ir_text r)" using detected_kept(1) found_stand by (auto simp: stands_def)
qed

section \<open>Properties\<close>

text \<open>the references that the detector reports are among those its patterns find, stand in the text where they say,
  and are disjoint and in the order of the text; a reference found that neither overlaps another one nor has the text of
  another one is reported.\<close>

theorem overlaps_exact:
  "set (detectAllReferences text) \<subseteq> set (all_found text) \<and>
   sorted_wrt (\<lambda>a b. ir_endPos a \<le> ir_startPos b) (detectAllReferences text) \<and>
   list_all (\<lambda>r. substring text (ir_startPos r) (ir_endPos r) = ir_text r \<and> ir_startPos r < ir_endPos r \<and> ir_endPos r \<le> length text)
     (detectAllReferences text) \<and>
   list_all (\<lambda>r. if isolated (all_found text) r then r \<in> set (detectAllReferences text) else True) (all_found text)"
proof (intro conjI detected_kept(1,2))
  have "stands text r" if "r \<in> set (detectAllReferences text)" for r using that detected_kept(1) found_stand by blast
  then show "list_all (\<lambda>r. substring text (ir_startPos r) (ir_endPos r) = ir_text r \<and> ir_startPos r < ir_endPos r \<and> ir_endPos r \<le> length text)
      (detectAllReferences text)"
    using improved_located.detected_substring [of _ "text"] by (auto simp: list_all_iff stands_def occurs_at_def)
  show "list_all (\<lambda>r. if isolated (all_found text) r then r \<in> set (detectAllReferences text) else True) (all_found text)"
    using detected_kept(3) by (simp add: list_all_iff)
qed

section \<open>Findings\<close>

text \<open>The second mention of an article is not reported.\<close>

lemma second_mention_lost:
  "map ir_startPos (detectAllReferences [c_dai, c_go, c_jou, c_mata, h_ha, c_dai, c_nana, c_jou, c_moshi, h_shi, h_ku, h_ha, c_dai, c_go, c_jou]) = [0, 5]"
  by code_simp

text \<open>The number of an item directly in an article is recorded as the number of a paragraph.\<close>

lemma item_as_paragraph:
  "map (\<lambda>r. (ir_targetParagraph r, ir_targetItem r)) (detectAllReferences [c_dai, c_go, c_jou, c_dai, c_ni, c_gou]) = [(Some (Some 2), None)]"
  by code_simp

text \<open>A range of paragraphs is recorded as a range of articles.\<close>

lemma paragraph_range_as_articles:
  "map (\<lambda>r. (ir_type r, ir_targetArticle r, ir_targetArticleEnd r)) (detectAllReferences [c_dai, c_ichi, c_kou, h_ka, h_ra, c_dai, c_san, c_kou, h_ma, h_de]) =
     [((str ''range''), Some [c_ichi], Some [c_san])]"
  by code_simp


end
