(* ===== verification/Spec2Isabelle.thy ===== *)
theory Spec2Isabelle
  imports ArticleNormalizer RelativeResolver ReferenceCache DomainModel ImpactAnalysis PatternMatching
    NegativePatterns Detector ErrorHandling Logging Performance NumberSort AmbiguousResolver StaticDetector
    PositionDetector Abbreviations TwoPassDetector HybridDetector CachingDetector ContextDetector Validation LawXML
    LawDictionary WebApi Migration ComprehensiveDetector Manager GraphSync XMLDataSource EarlierDetectors SinglePassDetector
    FirstDetector ImprovedDetector
begin

text \<open>
  \<^bold>\<open>LawFinder\<close> finds the references between articles of Japanese laws in their text, resolves them
  to laws and articles, and follows them to see what an amendment affects. This development models
  its TypeScript core and proves what each part promises of its results.

  \<^bold>\<open>The program and how its parts interact.\<close> The detector of \<^verbatim>\<open>scripts/detector.ts\<close> reads the text of an
  article: it records the abbreviations that the text defines, runs some forty families of regular
  expressions, resolves relative references ("the preceding article") with
  \<^verbatim>\<open>services/relative-reference-resolver.ts\<close>, asks a language model about ambiguous ones, drops references
  that lie inside others, and filters false positives with \<^verbatim>\<open>scripts/negative-patterns.ts\<close>. Results are
  cached by \<^verbatim>\<open>lib/reference-cache.ts\<close>; article numbers are normalised by \<^verbatim>\<open>utils/article-normalizer.ts\<close>. The domain
  layer (\<^verbatim>\<open>domain/models\<close>, \<^verbatim>\<open>domain/value-objects\<close>) holds laws, articles and references;
  \<^verbatim>\<open>ImpactAnalysisService\<close> searches their graph, \<^verbatim>\<open>ReferenceAnalysisService\<close> and \<^verbatim>\<open>PatternMatcher\<close> are a second,
  smaller detection pipeline. Earlier generations of the detector remain in use elsewhere: the static
  one of the web pages (\<^verbatim>\<open>utils/reference-detector.ts\<close>), the one with a cache behind the reference endpoint
  (\<^verbatim>\<open>EnhancedReferenceDetectorV41.ts\<close>), the one with text positions
  (\<^verbatim>\<open>services/enhanced-detector.ts\<close>), the two-pass one (\<^verbatim>\<open>EnhancedReferenceDetectorV37.ts\<close>) and the hybrid one on top
  of it (\<^verbatim>\<open>lib/hybrid-reference-detector.ts\<close>). Around them stand the abbreviation dictionary, the resolver of
  ambiguous references between laws and orders, sorting by Japanese numerals, logging, error handling
  and performance measurement.

  \<^bold>\<open>The runtime.\<close> \<open>Prelude\<close> is the part of JavaScript that the sources use: strings as lists of UTF-16
  code units, \<open>parseInt\<close> and number printing, \<open>Map\<close> as an association list in insertion order (the
  locale \<open>insertion_map\<close>, interpreted on it), tallies, and the locale \<open>invariant_machine\<close> for runs of operations.
  \<open>JSRegex\<close> is a backtracking matcher for the regular expressions of the sources: greedy and lazy
  repetition with bounds, capture groups that are cleared on each round, lookahead, anchors, \<open>lastIndex\<close>.
  It is total; the loop \<open>while ((m = r.exec(s)) !== null)\<close> is the inductive relation \<open>exec_loop\<close>, which has a
  result exactly when no match is empty (\<open>exec_loop_iff\<close>), so a pattern made at run time can be shown to
  diverge. \<open>located_detector\<close> is the contract of a detector: a result stands in the text at its position.

  \<^bold>\<open>The components.\<close> Each theory models the files named in it, one definition per function, in the order
  of the source; \<open>Inl\<close> or \<open>None\<close> is the value of a throw or of a loop that does not end.
  \<^item> \<open>ArticleNormalizer\<close> (\<^verbatim>\<open>utils/article-normalizer.ts\<close>): reading of numerals, numeric and display forms.
    Shown: both spellings of every article below 100000 normalise alike; well-formed results.
  \<^item> \<open>RelativeResolver\<close> (\<^verbatim>\<open>services/relative-reference-resolver.ts\<close>): all methods. Shown: contexts and targets stay in
    the numbering of the law over any sequence; counted and inverse steps.
  \<^item> \<open>ReferenceCache\<close> (\<^verbatim>\<open>lib/reference-cache.ts\<close>): all methods with their clock. Shown: an invariant over
    every run, refinement of a least-recently-used list, expiry, serialisation.
  \<^item> \<open>DomainModel\<close> (\<^verbatim>\<open>domain/models\<close>, \<^verbatim>\<open>domain/value-objects\<close>, \<^verbatim>\<open>shared/errors\<close>, \<^verbatim>\<open>shared/types\<close>): value objects and entities.
    Shown: identifiers are read back, the life cycle of a law.
  \<^item> \<open>ImpactAnalysis\<close> (\<^verbatim>\<open>domain/services/ImpactAnalysisService.ts\<close>): the breadth-first search and its report. Shown: exactly
    the nodes within the depth, with shortest distances and real paths; exact counts.
  \<^item> \<open>PatternMatching\<close> (\<^verbatim>\<open>infrastructure/external/patterns\<close>, \<^verbatim>\<open>ReferenceAnalysisService.ts\<close>): matcher, consolidation,
    resolution. Shown: exactly the spans of the matches; one best reference per group; totality.
  \<^item> \<open>NegativePatterns\<close> (\<^verbatim>\<open>scripts/negative-patterns.ts\<close>): the filter with the \<open>lastIndex\<close> state of its patterns.
  \<^item> \<open>DetectorCore\<close>, \<open>DetectorPatterns\<close>, \<open>Detector\<close> (\<^verbatim>\<open>scripts/detector.ts\<close>): data, numerals and law numbers; the
    patterns 1 to 25; the remaining phases and the whole method. Shown: the spans returned are strictly
    ordered and nothing is lost but to a containing reference; bounded memory, permanent definitions; when it returns.
  \<^item> \<open>ErrorHandling\<close>, \<open>Logging\<close>, \<open>Performance\<close> (\<^verbatim>\<open>shared/utils\<close>, \<^verbatim>\<open>lib/logger.ts\<close>): effects as lists of what is printed and
    written. Shown: retry settles with the first success or the last error; every log line is written twice.
  \<^item> \<open>NumberSort\<close>, \<open>AmbiguousResolver\<close>, \<open>StaticDetector\<close>, \<open>PositionDetector\<close>, \<open>Abbreviations\<close> (\<^verbatim>\<open>utils/japanese-number-sort.ts\<close>,
    \<^verbatim>\<open>AmbiguousReferenceResolver.ts\<close>, \<^verbatim>\<open>utils/reference-detector.ts\<close>, \<^verbatim>\<open>services/enhanced-detector.ts\<close>, \<^verbatim>\<open>lib/abbreviation-dictionary.ts\<close>).
  \<^item> \<open>TwoPassDetector\<close>, \<open>HybridDetector\<close> (\<^verbatim>\<open>EnhancedReferenceDetectorV37.ts\<close>; \<^verbatim>\<open>lib/llm-validator.ts\<close>, \<^verbatim>\<open>lib/hybrid-reference-detector.ts\<close>):
    candidates with priorities and their conflicts; the calls to a language model and their cache.
  \<^item> \<open>EarlierDetectors\<close> (\<^verbatim>\<open>EnhancedReferenceDetectorV33.ts\<close> to \<^verbatim>\<open>V35.ts\<close>): what the versions before have of their own. Shown: where versions 3.5 and 3.7
    agree, from the characters that a pattern needs; how the conflict rules differ.
  \<^item> \<open>SinglePassDetector\<close>, \<open>FirstDetector\<close> (\<^verbatim>\<open>EnhancedReferenceDetectorV32.ts\<close>, \<^verbatim>\<open>V31.ts\<close> and \<^verbatim>\<open>EnhancedReferenceDetector.ts\<close>): the versions that search once, with the
    positions and ranges a call has processed as their state. Shown: one reference for each type, article and law, which one, and in
    which order; that no state is left between calls; which numerals are read back.
  \<^item> \<open>ImprovedDetector\<close> (\<^verbatim>\<open>ImprovedReferenceDetector.ts\<close>): patterns with a lookbehind, and a pass that keeps the longer of two references that overlap.
    Shown: what is reported is disjoint, in order and stands where it says; what is reported in any case. The locale \<open>spans\<close> of the
    theory \<open>Spans\<close> holds the argument that in such a pass only the last span kept can overlap the next one.
  \<^item> \<open>CachingDetector\<close> (\<^verbatim>\<open>EnhancedReferenceDetectorV41.ts\<close>): the detector of the web application, which composes the reference cache
    and the abbreviation dictionary. Shown: an invariant over any calls, at any times; a repeated call is answered from the cache and
    leaves the context alone; where references stand; the articles that relative words lead to.
  \<^item> \<open>Markup\<close>, \<open>LawXML\<close> (\<^verbatim>\<open>lib/xml-parser.ts\<close>): searching elements with regular expressions, and the parser of law documents.
    Shown: what is written in a document of the e-Gov schema is read back, level by level.
  \<^item> \<open>Validation\<close> (the commands at the end of \<^verbatim>\<open>scripts/detector.ts\<close>): extraction from documents, counters and measures. Shown: the
    counters are consistent whatever fails, the measures are percentages, and one command always reports zero. The locale
    \<open>partial_machine\<close> carries invariants through loops that may not return.
  \<^item> \<open>ContextDetector\<close> (\<^verbatim>\<open>EnhancedReferenceDetectorV40.ts\<close>): the version before the cache. Shown: the next version keeps its references
    and its context, and agrees with it where the new steps find nothing.
  \<^item> \<open>LawDictionary\<close> (\<^verbatim>\<open>scripts/generate-law-dictionary.ts\<close>): CSV, abbreviations, tables, look-ups. Shown: plain rows are read back;
    which law a name, number or identifier gives.
  \<^item> \<open>WebApi\<close> (\<^verbatim>\<open>app/api\<close>, \<^verbatim>\<open>lib/hybrid-db.ts\<close>): the endpoints as functions from requests to responses over arbitrary databases. Shown:
    the references endpoint answers and stores what it answers; impact groups and scores; pages cover the table; graphs are closed.
  \<^item> \<open>ComprehensiveDetector\<close> (\<^verbatim>\<open>ReferenceDetector.ts\<close>, \<^verbatim>\<open>ComprehensiveReferenceDetector.ts\<close>): the two detectors of the reference manager. Shown:
    one reference per key, where they stand, the order by confidence; numerals.
  \<^item> \<open>Manager\<close>, \<open>GraphSync\<close> (\<^verbatim>\<open>scripts/manager.ts\<close>): the reference manager with its tables, and its command \<open>sync\<close>. Shown: the tables
    stay consistent over any sequence of operations; a detection without errors stores everything and again changes nothing;
    metrics; what the synchronisation writes and when it ends, as a partial function over the random draws.
  \<^item> \<open>XMLDataSource\<close> (\<^verbatim>\<open>XMLFileDataSource.ts\<close>): the directory of law files and the reading of parsed documents. Shown: documents are read back;
    the pages of the list cover the directory.
  \<^item> \<open>Migration\<close> (\<^verbatim>\<open>scripts/normalize-article-numbers.ts\<close>): the rewriting of stored article numbers. Shown: it converges, whatever fails.

  This theory adds the property that spans components: the numeral readers agree, and where they do not.

  \<^bold>\<open>Parameters, numbers and bounds.\<close> What is not code of the repository is an argument: the clock, random
  numbers and uuids, the digest of the cache keys, case folding and locale comparison, the file system,
  the databases behind the repositories, the CSV and XML packages, the e-Gov service, the generated law dictionary, \<open>new RegExp\<close> of an unescaped string,
  and the answers of the language models. Integers of the source are exact here: the numbers it computes
  with (positions, article numbers, counts) stay far below 2 to the power 53. Confidences are rationals;
  they are only compared with constants and averaged. No recursion uses fuel: the matcher and the searches
  terminate by measures, and a loop of the source that may not end has an \<open>option\<close> result.

  \<^bold>\<open>Not modelled.\<close> The option parsing of the command line, the import scripts, the other synchronisation scripts and the web pages are input
  and output around the modelled functions; the texts of the other database queries rest on packages that are not part
  of the repository; the generated dictionary is data, and the archived scripts are copies of older
  states. The next candidates for this library are the outline and the links of the law page
  (\<open>buildStructure\<close>, \<open>TableOfContents\<close>, \<open>AutoLinkReferences\<close>), the law-number helpers of the import scripts and the formatting of printed reports.
\<close>

section \<open>Readers of numerals\<close>

text \<open>Numerals in which no digit follows a digit, without the unit of ten thousand.\<close>

definition unit_char :: "jschar \<Rightarrow> bool" where
  "unit_char c \<longleftrightarrow> c = c_juu \<or> c = c_hyaku \<or> c = c_sen"

definition digit_char :: "jschar \<Rightarrow> bool" where
  "digit_char c \<longleftrightarrow> c \<in> set [c_ichi, c_ni, c_san, c_yon, c_go, c_roku, c_nana, c_hachi, c_kyuu]"

fun spaced :: "jsstr \<Rightarrow> bool" where
  "spaced [] = True"
| "spaced (c # s) = ((unit_char c \<or> digit_char c) \<and> (unit_char c \<or> s = [] \<or> unit_char (hd s)) \<and> spaced s)"

lemma step_agrees:
  assumes "unit_char c \<or> digit_char c \<and> temp = 0" "p < 10 \<or> p \<in> {10, 100, 1000}"
  shows "\<exists>r' t' p'. CachingDetector.kanji_step (r, temp, p) c = (r', t', p') \<and> kanji_char (r, temp, p) c = (r', t', p') \<and>
    (unit_char c \<longrightarrow> t' = 0) \<and> (p' < 10 \<or> p' \<in> {10, 100, 1000})"
  using assms by (auto simp: unit_char_def digit_char_def CachingDetector.kanji_value_def PatternMatching.kanjiMap_def)

lemma fold_agrees:
  "spaced s \<Longrightarrow> temp = 0 \<or> s = [] \<or> unit_char (hd s) \<Longrightarrow> p < 10 \<or> p \<in> {10, 100, 1000} \<Longrightarrow>
     foldl CachingDetector.kanji_step (r, temp, p) s = foldl kanji_char (r, temp, p) s"
proof (induction s arbitrary: r temp p)
  case (Cons c s)
  from Cons.prems have "unit_char c \<or> digit_char c \<and> temp = 0" by auto
  from step_agrees [OF this Cons.prems(3)] obtain r' t' p' where
    st: "CachingDetector.kanji_step (r, temp, p) c = (r', t', p')" "kanji_char (r, temp, p) c = (r', t', p')"
      "unit_char c \<longrightarrow> t' = 0" "p' < 10 \<or> p' \<in> {10, 100, 1000}" by blast
  have "foldl CachingDetector.kanji_step (r', t', p') s = foldl kanji_char (r', t', p') s"
    using Cons.prems(1) st(3,4) by (intro Cons.IH) auto
  with st(1,2) show ?case by simp
qed simp

lemma spaced_append: "spaced s \<Longrightarrow> spaced t \<Longrightarrow> s = [] \<or> unit_char (last s) \<Longrightarrow> spaced (s @ t)"
  by (induction s) (auto split: if_splits)

lemma digit_char_of: "0 < d \<Longrightarrow> d < 10 \<Longrightarrow> digit_char (kanji_digit d)"
proof -
  have "list_all (\<lambda>d. digit_char (kanji_digit d)) [1..<10]" by code_simp
  then show "0 < d \<Longrightarrow> d < 10 \<Longrightarrow> ?thesis" by (simp add: list_all_iff)
qed

lemma spaced_place: "d < 10 \<Longrightarrow> unit_char u \<Longrightarrow> spaced (kanji_place d u) \<and> (kanji_place d u = [] \<or> unit_char (last (kanji_place d u)))"
  by (simp add: kanji_place_def digit_char_of)

lemma spaced_numeral:
  assumes "n < 10000"
  shows "spaced (kanji_of_nat n)"
proof -
  have u: "unit_char c_sen" "unit_char c_hyaku" "unit_char c_juu" by (simp_all add: unit_char_def)
  have d: "n div 1000 mod 10 < 10" "n div 100 mod 10 < 10" "n div 10 mod 10 < 10" by simp_all
  have "spaced (if n mod 10 = 0 then [] else [kanji_digit (n mod 10)])" by (simp add: digit_char_of)
  then show ?thesis using assms spaced_place [OF d(1) u(1)] spaced_place [OF d(2) u(2)] spaced_place [OF d(3) u(3)]
    unfolding kanji_of_nat_def by (simp add: spaced_append)
qed

lemma numeral_no_digit:
  assumes "0 < n" "n < 10000"
  shows "parse_int (kanji_of_nat n) = None" "\<not> list_all is_digit (kanji_of_nat n)"
proof -
  have ne: "kanji_of_nat n \<noteq> []" using assms(1) by (rule kanji_of_nat_nonempty)
  then show "parse_int (kanji_of_nat n) = None"
    using assms kanji_of_nat_class [of "hd (kanji_of_nat n)" n] by (intro parse_int_kanji) auto
  show "\<not> list_all is_digit (kanji_of_nat n)"
    using ne assms kanji_of_nat_class [of "hd (kanji_of_nat n)" n] digit_not_kanji [of "hd (kanji_of_nat n)"]
    by (cases "kanji_of_nat n") auto
qed

lemma copies_agree:
  assumes "0 < n" "n < 10000"
  shows "CachingDetector.kanjiToNumber (kanji_of_nat n) = PatternMatching.kanjiToNumber (kanji_of_nat n)"
  using fold_agrees [OF spaced_numeral [OF assms(2)], of 0 0 0] numeral_no_digit [OF assms] kanji_of_nat_nonempty [OF assms(1)]
  by (simp add: CachingDetector.kanjiToNumber_def PatternMatching.kanjiToNumber_def digits_test [unfolded rseq.simps])

text \<open>C13: the program has several readers of kanji numerals. Those of the normaliser, of the main detector
  and of the static detector return the number for every numeral below their bounds. The detector with the cache and the
  pattern matcher have two different loops that return the same number on every numeral below 10000; below 1000 it is the
  right one exactly when there are no hundreds or at most one ten.\<close>

theorem numeral_readers_agree:
  assumes "0 < n" "n < 10000"
  shows "kanji_run_value (kanji_of_nat n) = int n \<and> DetectorCore.kanjiToNumber (kanji_of_nat n) = Some (int n) \<and>
    CachingDetector.kanjiToNumber (kanji_of_nat n) = PatternMatching.kanjiToNumber (kanji_of_nat n) \<and>
    (n < 1000 \<longrightarrow> convertToArabic (kanji_of_nat n) = nat_str n \<and>
      (PatternMatching.kanjiToNumber (kanji_of_nat n) = int n \<longleftrightarrow> n < 100 \<or> n div 10 mod 10 \<le> 1))"
proof -
  have "PatternMatching.kanjiToNumber (kanji_of_nat n) = int n \<longleftrightarrow> n < 100 \<or> n div 10 mod 10 \<le> 1" if "n < 1000"
  proof -
    have "n = n div 100 * 100 + n div 10 mod 10 * 10 + n mod 10" using decimal_expand [of n] that by simp
    then show ?thesis using kanji_number_value [OF assms(1) that] by (auto simp: not_le)
  qed
  then show ?thesis using assms kanjiToNumber_of_nat kanji_run_value_of_nat copies_agree convertToArabic_below_1000 by simp
qed

theorem numeral_readers_agree_witness:
  "kanji_of_nat 253 = [c_ni, c_hyaku, c_go, c_juu, c_san] \<and> DetectorCore.kanjiToNumber (kanji_of_nat 253) = Some 253 \<and>
   CachingDetector.kanjiToNumber (kanji_of_nat 253) \<noteq> 253"
proof -
  have "kanji_of_nat 253 = [c_ni, c_hyaku, c_go, c_juu, c_san]" by code_simp
  with numeral_readers_agree [of 253] show ?thesis by simp
qed


end
